(* ===== verification/GoStd.thy ===== *)
theory GoStd
  imports Main "HOL-Library.Word"
begin

text \<open>
  The prelude of the development.

  It holds the parts of Go's standard library that the sources use on byte strings
  (\<^verbatim>\<open>strings\<close>, \<^verbatim>\<open>encoding/hex\<close>, \<^verbatim>\<open>encoding/base64\<close>, \<^verbatim>\<open>strconv\<close>), the time
  arithmetic of package \<^verbatim>\<open>time\<close>, and the generic lemmas the component theories share.
  A Go string is a list of bytes, so a \<^typ>\<open>char\<close> is one byte and the functions below
  follow Go on ASCII input; multi-byte Unicode white space and case folding are not
  modelled. Times are integers counted in nanoseconds since the Unix epoch.
\<close>

section \<open>Named collections\<close>

named_theorems go_simps \<open>definitions of the Go library functions, for evaluation\<close>
named_theorems key_disjoint \<open>distinctness of composed Valkey keys\<close>
named_theorems handler_defs \<open>stages of a request handler, unfolded together\<close>

section \<open>Types and time\<close>

type_synonym uuid = nat
type_synonym bytes = string

definition second :: int where
  "second = 10 ^ 9"

definition Unix :: "int \<Rightarrow> int" where
  "Unix t = t div second"

definition fromUnix :: "int \<Rightarrow> int" where
  "fromUnix s = s * second"

text \<open>\<open>Truncate(time.Second)\<close> of a time after the epoch.\<close>

definition truncateSecond :: "int \<Rightarrow> int" where
  "truncateSecond t = (t div second) * second"

lemma second_pos [simp]: "0 < second"
  by (simp add: second_def)

lemma second_nz [simp]: "second \<noteq> 0"
  by (simp add: second_def)

lemma Unix_fromUnix [simp]: "Unix (fromUnix s) = s"
  by (simp add: Unix_def fromUnix_def)

lemma Unix_add_seconds [simp]: "Unix (t + n * second) = Unix t + n"
  by (simp add: Unix_def)

lemma Unix_mono: "a \<le> b \<Longrightarrow> Unix a \<le> Unix b"
  by (simp add: Unix_def zdiv_mono1)

lemma Unix_truncate_next: "Unix (truncateSecond t + second) = Unix t + 1"
  by (simp add: Unix_def truncateSecond_def)

section \<open>Package strings\<close>

definition hasPrefix :: "string \<Rightarrow> string \<Rightarrow> bool" where
  "hasPrefix s p = (take (length p) s = p)"

fun contains :: "string \<Rightarrow> string \<Rightarrow> bool" where
  "contains [] sub = (sub = [])"
| "contains (c # cs) sub = (hasPrefix (c # cs) sub \<or> contains cs sub)"

definition containsAny :: "string \<Rightarrow> string \<Rightarrow> bool" where
  "containsAny s chars = list_ex (\<lambda>c. c \<in> set chars) s"

fun joinWith :: "string \<Rightarrow> string list \<Rightarrow> string" where
  "joinWith sep [] = []"
| "joinWith sep [x] = x"
| "joinWith sep (x # y # ys) = x @ sep @ joinWith sep (y # ys)"

definition isSpaceByte :: "char \<Rightarrow> bool" where
  "isSpaceByte c = (c \<in> set [CHR 0x09, CHR 0x0A, CHR 0x0B, CHR 0x0C, CHR 0x0D, CHR '' ''])"

text \<open>\<open>strings.Fields\<close>: maximal runs of non-space bytes, with an accumulator for the run.\<close>

fun fieldsAux :: "string \<Rightarrow> string \<Rightarrow> string list" where
  "fieldsAux acc [] = (if acc = [] then [] else [rev acc])"
| "fieldsAux acc (c # cs) =
     (if isSpaceByte c then (if acc = [] then fieldsAux [] cs else rev acc # fieldsAux [] cs)
      else fieldsAux (c # acc) cs)"

definition fields :: "string \<Rightarrow> string list" where
  "fields s = fieldsAux [] s"

definition trimSpace :: "string \<Rightarrow> string" where
  "trimSpace s = rev (dropWhile isSpaceByte (rev (dropWhile isSpaceByte s)))"

definition trimRight :: "string \<Rightarrow> string \<Rightarrow> string" where
  "trimRight s cutset = rev (dropWhile (\<lambda>c. c \<in> set cutset) (rev s))"

definition lowerByte :: "char \<Rightarrow> char" where
  "lowerByte c = (if 65 \<le> (of_char c :: nat) \<and> (of_char c :: nat) \<le> 90
                  then char_of ((of_char c :: nat) + 32) else c)"

definition upperByte :: "char \<Rightarrow> char" where
  "upperByte c = (if 97 \<le> (of_char c :: nat) \<and> (of_char c :: nat) \<le> 122
                  then char_of ((of_char c :: nat) - 32) else c)"

definition toLower :: "string \<Rightarrow> string" where
  "toLower s = map lowerByte s"

definition toUpper :: "string \<Rightarrow> string" where
  "toUpper s = map upperByte s"

definition equalFold :: "string \<Rightarrow> string \<Rightarrow> bool" where
  "equalFold a b = (toLower a = toLower b)"

text \<open>\<open>strings.SplitN(s, sep, 2)\<close> for a one-byte separator.\<close>

fun splitOnce :: "char \<Rightarrow> string \<Rightarrow> string \<times> string option" where
  "splitOnce sep [] = ([], None)"
| "splitOnce sep (c # cs) =
     (if c = sep then ([], Some cs)
      else (case splitOnce sep cs of (a, b) \<Rightarrow> (c # a, b)))"

text \<open>\<open>strings.Split(s, sep)\<close> for a one-byte separator.\<close>

fun splitAll :: "char \<Rightarrow> string \<Rightarrow> string list" where
  "splitAll sep [] = [[]]"
| "splitAll sep (c # cs) =
     (if c = sep then [] # splitAll sep cs
      else (case splitAll sep cs of [] \<Rightarrow> [[c]] | w # ws \<Rightarrow> (c # w) # ws))"

text \<open>A string index \<open>s[:n]\<close> with \<open>n\<close> no larger than the length is \<^const>\<open>take\<close>.\<close>

lemmas [go_simps] = hasPrefix_def containsAny_def fields_def trimSpace_def trimRight_def
  toLower_def toUpper_def equalFold_def isSpaceByte_def lowerByte_def upperByte_def

lemma hasPrefix_append [simp]: "hasPrefix (p @ s) p"
  by (simp add: hasPrefix_def)

lemma hasPrefix_iff: "hasPrefix s p \<longleftrightarrow> (\<exists>t. s = p @ t)"
  unfolding hasPrefix_def by (metis append_eq_conv_conj append_take_drop_id)

lemma contains_prefix: "contains (sub @ b) sub"
proof (cases "sub @ b")
  case (Cons c cs)
  have "hasPrefix (sub @ b) sub" by simp
  with Cons show ?thesis by simp
qed simp

lemma contains_append: "contains (a @ sub @ b) sub"
  by (induction a) (simp_all add: contains_prefix)

lemma splitOnce_sound:
  "splitOnce sep s = (a, Some b) \<Longrightarrow> s = a @ sep # b \<and> sep \<notin> set a"
  by (induction s arbitrary: a b) (auto split: if_splits prod.splits)

lemma splitOnce_append: "sep \<notin> set a \<Longrightarrow> splitOnce sep (a @ sep # b) = (a, Some b)"
  by (induction a) auto

lemma splitOnce_no_sep: "sep \<notin> set s \<Longrightarrow> splitOnce sep s = (s, None)"
  by (induction s) auto

lemma splitAll_nonempty [simp]: "splitAll sep s \<noteq> []"
  by (induction s) (auto split: list.splits)

lemma splitAll_no_sep: "sep \<notin> set s \<Longrightarrow> splitAll sep s = [s]"
  by (induction s) auto

lemma splitAll_append:
  "sep \<notin> set a \<Longrightarrow> splitAll sep (a @ sep # s) = a # splitAll sep s"
  by (induction a) auto

text \<open>No field is empty and no field contains a space: what \<open>/authorize\<close> relies on.\<close>

definition wordy :: "string \<Rightarrow> bool" where
  "wordy w = (w \<noteq> [] \<and> list_all (\<lambda>c. \<not> isSpaceByte c) w)"

lemma fieldsAux_parts:
  "list_all (\<lambda>c. \<not> isSpaceByte c) acc \<Longrightarrow> list_all wordy (fieldsAux acc s)"
  by (induction s arbitrary: acc) (simp_all add: wordy_def)

lemma fields_parts: "list_all wordy (fields s)"
  unfolding fields_def by (rule fieldsAux_parts) simp

lemma fieldsAux_word:
  "list_all (\<lambda>c. \<not> isSpaceByte c) w \<Longrightarrow> fieldsAux acc (w @ s) = fieldsAux (rev w @ acc) s"
  by (induction w arbitrary: acc) auto

lemma fields_join:
  assumes "list_all wordy ws"
  shows "fields (joinWith '' '' ws) = ws"
  using assms
proof (induction ws rule: induct_list012)
  case 1
  show ?case by (simp add: fields_def)
next
  case (2 w)
  then show ?case using fieldsAux_word [of w "[]" "[]"] by (simp add: fields_def wordy_def)
next
  case (3 w v ws)
  have "fieldsAux [] (w @ CHR '' '' # joinWith '' '' (v # ws)) =
        fieldsAux (rev w) (CHR '' '' # joinWith '' '' (v # ws))"
    using 3 fieldsAux_word [of w "[]"] by (simp add: wordy_def)
  also have "\<dots> = w # fields (joinWith '' '' (v # ws))"
    using 3 by (simp add: fields_def isSpaceByte_def wordy_def)
  finally show ?case using 3 by (simp add: fields_def)
qed

section \<open>Package strconv and the numeric verbs of fmt\<close>

fun showNat :: "nat \<Rightarrow> string" where
  "showNat n = (if n < 10 then [char_of (48 + n)] else showNat (n div 10) @ [char_of (48 + n mod 10)])"

declare showNat.simps [simp del]

definition isDigitByte :: "char \<Rightarrow> bool" where
  "isDigitByte c = (48 \<le> (of_char c :: nat) \<and> (of_char c :: nat) \<le> 57)"

definition digitVal :: "char \<Rightarrow> nat" where
  "digitVal c = of_char c - 48"

definition readNat :: "string \<Rightarrow> nat" where
  "readNat ds = foldl (\<lambda>n c. n * 10 + digitVal c) 0 ds"

text \<open>\<open>Sscanf\<close> reading an unsigned \<open>%d\<close> of the given width: leading spaces are skipped, at
  least one digit is required, and a value that does not fit is an error. The rest of the
  input is returned.\<close>

definition scanUint :: "nat \<Rightarrow> string \<Rightarrow> (nat \<times> string) option" where
  "scanUint w s =
     (let s1 = dropWhile (\<lambda>c. isSpaceByte c \<and> c \<noteq> CHR 0x0A) s;
          ds = takeWhile isDigitByte s1
      in if ds = [] \<or> readNat ds \<ge> 2 ^ w then None
         else Some (readNat ds, dropWhile isDigitByte s1))"

definition scanLit :: "string \<Rightarrow> string \<Rightarrow> string option" where
  "scanLit lit s = (if hasPrefix s lit then Some (drop (length lit) s) else None)"

lemma scanLit_append [simp]: "scanLit lit (lit @ s) = Some s"
  by (simp add: scanLit_def)

lemma digit_char: "d < 10 \<Longrightarrow> isDigitByte (char_of (48 + d)) \<and> digitVal (char_of (48 + d)) = d"
  by (simp add: isDigitByte_def digitVal_def of_char_of)

lemma showNat_digits: "list_all isDigitByte (showNat n) \<and> showNat n \<noteq> []"
proof (induction n rule: showNat.induct)
  case (1 n)
  then show ?case
    by (cases "n < 10") (simp_all add: showNat.simps [of n] digit_char)
qed

lemma digit_chars [simp]:
  "char_of (48::nat) = CHR ''0''" "char_of (49::nat) = CHR ''1''" "char_of (50::nat) = CHR ''2''"
  "char_of (51::nat) = CHR ''3''" "char_of (52::nat) = CHR ''4''" "char_of (53::nat) = CHR ''5''"
  "char_of (54::nat) = CHR ''6''" "char_of (55::nat) = CHR ''7''" "char_of (56::nat) = CHR ''8''"
  "char_of (57::nat) = CHR ''9''"
  by code_simp+

lemma readNat_snoc: "readNat (ds @ [d]) = readNat ds * 10 + digitVal d"
  by (simp add: readNat_def)

lemma readNat_showNat [simp]: "readNat (showNat n) = n"
proof (induction n rule: showNat.induct)
  case (1 n)
  show ?case
  proof (cases "n < 10")
    case True
    then show ?thesis using digit_char [of n] by (simp add: showNat.simps [of n] readNat_def)
  next
    case False
    then have "readNat (showNat n) = readNat (showNat (n div 10)) * 10 + n mod 10"
      using digit_char [of "n mod 10"] by (subst showNat.simps) (simp add: readNat_snoc)
    with 1 False show ?thesis by simp
  qed
qed

lemma digit_not_space: "isDigitByte c \<Longrightarrow> \<not> isSpaceByte c"
  by (auto simp: isDigitByte_def isSpaceByte_def)

lemma takeWhile_digits:
  "list_all isDigitByte ds \<Longrightarrow> rest = [] \<or> \<not> isDigitByte (hd rest) \<Longrightarrow>
   takeWhile isDigitByte (ds @ rest) = ds \<and> dropWhile isDigitByte (ds @ rest) = rest"
  by (induction ds) (cases rest; auto)+

lemma scanUint_showNat:
  assumes "n < 2 ^ w" and "rest = [] \<or> \<not> isDigitByte (hd rest)"
  shows "scanUint w (showNat n @ rest) = Some (n, rest)"
proof -
  obtain d ds where sn: "showNat n = d # ds" and "isDigitByte d"
    using showNat_digits [of n] by (cases "showNat n") auto
  then have "dropWhile (\<lambda>c. isSpaceByte c \<and> c \<noteq> CHR 0x0A) (showNat n @ rest) = showNat n @ rest"
    by (simp add: digit_not_space)
  with assms takeWhile_digits [of "showNat n" rest] showNat_digits [of n] show ?thesis
    by (simp add: scanUint_def Let_def)
qed

section \<open>Package encoding/hex\<close>

definition hexDigit :: "nat \<Rightarrow> char" where
  "hexDigit n = ''0123456789abcdef'' ! n"

definition hexByte :: "char \<Rightarrow> string" where
  "hexByte c = [hexDigit (of_char c div 16), hexDigit (of_char c mod 16)]"

definition hexEncode :: "bytes \<Rightarrow> string" where
  "hexEncode b = concat (map hexByte b)"

definition isHex :: "char \<Rightarrow> bool" where
  "isHex c = (c \<in> set ''0123456789abcdef'')"

lemma hexDigit_inj: "hexDigit i = hexDigit j \<Longrightarrow> i < 16 \<Longrightarrow> j < 16 \<Longrightarrow> i = j"
  by (auto simp: hexDigit_def nth_eq_iff_index_eq)

lemma hexDigit_isHex: "i < 16 \<Longrightarrow> isHex (hexDigit i)"
  unfolding isHex_def hexDigit_def by (rule nth_mem) simp

lemma of_char_lt_256: "(of_char c :: nat) < 256"
  by (rule nat_of_char_less_256)

lemma of_char_div_16: "(of_char c :: nat) div 16 < 16"
  using of_char_lt_256 [of c] by linarith

lemma hexByte_inj: "hexByte a = hexByte b \<Longrightarrow> a = b"
proof -
  assume eq: "hexByte a = hexByte b"
  let ?a = "of_char a :: nat" and ?b = "of_char b :: nat"
  have "?a div 16 < 16" "?b div 16 < 16"
    by (rule of_char_div_16)+
  with eq have "?a div 16 = ?b div 16" "?a mod 16 = ?b mod 16"
    by (auto simp: hexByte_def intro!: hexDigit_inj)
  then have "?a = ?b" by (metis div_mult_mod_eq)
  then show ?thesis by simp
qed

lemma length_hexEncode [simp]: "length (hexEncode b) = 2 * length b"
  by (induction b) (simp_all add: hexEncode_def hexByte_def)

lemma hexEncode_inj: "hexEncode a = hexEncode b \<Longrightarrow> a = b"
proof (induction a arbitrary: b)
  case Nil
  then show ?case by (cases b) (simp_all add: hexEncode_def hexByte_def)
next
  case (Cons x xs)
  then obtain y ys where b: "b = y # ys"
    by (cases b) (simp_all add: hexEncode_def hexByte_def)
  with Cons.prems have "hexByte x @ hexEncode xs = hexByte y @ hexEncode ys"
    by (simp add: hexEncode_def)
  moreover have "length (hexByte x) = length (hexByte y)"
    by (simp add: hexByte_def)
  ultimately have "hexByte x = hexByte y" "hexEncode xs = hexEncode ys"
    by simp_all
  with Cons.IH b hexByte_inj show ?case by blast
qed

lemma hexEncode_digits: "c \<in> set (hexEncode b) \<Longrightarrow> isHex c"
  by (auto simp: hexEncode_def hexByte_def intro!: hexDigit_isHex of_char_div_16)

section \<open>Package encoding/base64, unpadded\<close>

definition b64URLAlphabet :: string where
  "b64URLAlphabet = ''ABCDEFGHIJKLMNOPQRSTUVWXYZabcdefghijklmnopqrstuvwxyz0123456789-_''"

definition b64StdAlphabet :: string where
  "b64StdAlphabet = ''ABCDEFGHIJKLMNOPQRSTUVWXYZabcdefghijklmnopqrstuvwxyz0123456789+/''"

fun b64Raw :: "string \<Rightarrow> bytes \<Rightarrow> string" where
  "b64Raw A [] = []"
| "b64Raw A [a] = (let n = of_char a * 16 in [A ! (n div 64), A ! (n mod 64)])"
| "b64Raw A [a, b] =
     (let n = (of_char a * 256 + of_char b) * 4
      in [A ! (n div 4096), A ! (n div 64 mod 64), A ! (n mod 64)])"
| "b64Raw A (a # b # c # rest) =
     (let n = of_char a * 65536 + of_char b * 256 + of_char c
      in A ! (n div 262144) # A ! (n div 4096 mod 64) # A ! (n div 64 mod 64)
         # A ! (n mod 64) # b64Raw A rest)"

definition base64RawURL :: "bytes \<Rightarrow> string" where
  "base64RawURL = b64Raw b64URLAlphabet"

definition base64RawStd :: "bytes \<Rightarrow> string" where
  "base64RawStd = b64Raw b64StdAlphabet"

text \<open>Decoding: carriage returns and line feeds are skipped, a byte outside the alphabet or
  a length of one modulo four is an error.\<close>

fun b64Index :: "string \<Rightarrow> char \<Rightarrow> nat option" where
  "b64Index [] c = None"
| "b64Index (a # A) c = (if a = c then Some 0 else map_option Suc (b64Index A c))"

fun b64Quads :: "nat list \<Rightarrow> bytes option" where
  "b64Quads [] = Some []"
| "b64Quads [p] = None"
| "b64Quads [p, q] = Some [char_of ((p * 64 + q) div 16)]"
| "b64Quads [p, q, r] =
     (let n = (p * 4096 + q * 64 + r) div 4 in Some [char_of (n div 256), char_of (n mod 256)])"
| "b64Quads (p # q # r # s # rest) =
     (let n = p * 262144 + q * 4096 + r * 64 + s
      in map_option (\<lambda>bs. char_of (n div 65536) # char_of (n div 256 mod 256)
                            # char_of (n mod 256) # bs) (b64Quads rest))"

definition b64DecodeRaw :: "string \<Rightarrow> string \<Rightarrow> bytes option" where
  "b64DecodeRaw A s =
     (let cs = filter (\<lambda>c. c \<noteq> CHR 0x0A \<and> c \<noteq> CHR 0x0D) s
      in if list_all (\<lambda>c. c \<in> set A) cs then b64Quads (map (\<lambda>c. the (b64Index A c)) cs)
         else None)"

lemma length_b64Raw: "length (b64Raw A b) = (4 * length b + 2) div 3"
  by (induction A b rule: b64Raw.induct) (simp_all add: Let_def)

definition b64Alphabet :: "string \<Rightarrow> bool" where
  "b64Alphabet A = (length A = 64 \<and> distinct A \<and> CHR 0x0A \<notin> set A \<and> CHR 0x0D \<notin> set A)"

lemma b64StdAlphabet_ok: "b64Alphabet b64StdAlphabet"
  by code_simp

lemma b64URLAlphabet_ok: "b64Alphabet b64URLAlphabet"
  by code_simp

lemma b64Index_nth: "distinct A \<Longrightarrow> n < length A \<Longrightarrow> b64Index A (A ! n) = Some n"
  by (induction A arbitrary: n) (auto simp: nth_Cons split: nat.splits)

text \<open>The digits of an encoding, as numbers.\<close>

fun b64Nums :: "bytes \<Rightarrow> nat list" where
  "b64Nums [] = []"
| "b64Nums [a] = (let n = of_char a * 16 in [n div 64, n mod 64])"
| "b64Nums [a, b] =
     (let n = (of_char a * 256 + of_char b) * 4 in [n div 4096, n div 64 mod 64, n mod 64])"
| "b64Nums (a # b # c # rest) =
     (let n = of_char a * 65536 + of_char b * 256 + of_char c
      in n div 262144 # n div 4096 mod 64 # n div 64 mod 64 # n mod 64 # b64Nums rest)"

lemma b64Raw_Nums: "b64Raw A b = map (\<lambda>n. A ! n) (b64Nums b)"
  by (induction b rule: b64Nums.induct) (simp_all add: Let_def)

lemma div_lt_64: "n < 64 * d \<Longrightarrow> n div d < (64::nat)"
  by (simp add: less_mult_imp_div_less mult.commute)

lemma three_bytes_lt: "of_char a * 65536 + of_char b * 256 + of_char c < (16777216::nat)"
  using of_char_lt_256 [of a] of_char_lt_256 [of b] of_char_lt_256 [of c] by linarith

lemma two_bytes_lt: "(of_char a * 256 + of_char b) * 4 < (262144::nat)"
proof -
  have "of_char a * 256 + of_char b < (65536::nat)"
    using of_char_lt_256 [of a] of_char_lt_256 [of b] by linarith
  then show ?thesis by simp
qed

lemma one_byte_lt: "of_char a * 16 < (4096::nat)"
  using of_char_lt_256 [of a] by linarith

lemma b64Nums_bound: "list_all (\<lambda>n. n < 64) (b64Nums b)"
proof (induction b rule: b64Nums.induct)
  case (2 a)
  show ?case using div_lt_64 [of "of_char a * 16" 64] one_byte_lt [of a]
    by (simp only: b64Nums.simps Let_def) simp
next
  case (3 a b)
  show ?case using div_lt_64 [of "(of_char a * 256 + of_char b) * 4" 4096] two_bytes_lt [of a b]
    by (simp only: b64Nums.simps Let_def) simp
next
  case (4 a b c rest)
  then show ?case
    using div_lt_64 [of "of_char a * 65536 + of_char b * 256 + of_char c" 262144]
      three_bytes_lt [of a b c]
    by (simp only: b64Nums.simps Let_def) simp
qed simp

lemma base_256_digits:
  fixes a b c :: nat
  assumes "b < 256" and "c < 256"
  shows "(a * 65536 + b * 256 + c) div 65536 = a"
    and "(a * 65536 + b * 256 + c) div 256 mod 256 = b"
    and "(a * 65536 + b * 256 + c) mod 256 = c"
proof -
  have n: "a * 65536 + b * 256 + c = 256 * (256 * a + b) + c" by simp
  from assms(2) have d: "(256 * (256 * a + b) + c) div 256 = 256 * a + b" by simp
  from assms(1) have "(256 * a + b) div 256 = a" "(256 * a + b) mod 256 = b" by simp_all
  with d show "(a * 65536 + b * 256 + c) div 256 mod 256 = b" by (simp only: n)
  have "(256 * k + c) mod 256 = c" for k using assms(2) by simp
  then show "(a * 65536 + b * 256 + c) mod 256 = c" by (simp only: n)
  have "x div 65536 = x div 256 div 256" for x :: nat by (simp flip: div_mult2_eq)
  with d \<open>(256 * a + b) div 256 = a\<close> show "(a * 65536 + b * 256 + c) div 65536 = a"
    by (simp only: n)
qed

lemma base_64_digits2: "(n::nat) div 4096 * 4096 + n div 64 mod 64 * 64 + n mod 64 = n"
proof -
  have "n div 4096 = n div 64 div 64" by (simp flip: div_mult2_eq)
  moreover have "n div 64 div 64 * 64 + n div 64 mod 64 = n div 64" by simp
  then have "n div 64 div 64 * 4096 + n div 64 mod 64 * 64 = n div 64 * 64" by linarith
  moreover have "n div 64 * 64 + n mod 64 = n" by simp
  ultimately show ?thesis by linarith
qed

lemma base_64_digits:
  "(n::nat) div 262144 * 262144 + n div 4096 mod 64 * 4096 + n div 64 mod 64 * 64 + n mod 64 = n"
proof -
  have "n div 262144 = n div 4096 div 64" by (simp flip: div_mult2_eq)
  moreover have "n div 4096 div 64 * 64 + n div 4096 mod 64 = n div 4096" by simp
  then have "n div 4096 div 64 * 262144 + n div 4096 mod 64 * 4096 = n div 4096 * 4096" by linarith
  ultimately show ?thesis using base_64_digits2 [of n] by linarith
qed

lemma b64Quads_Nums: "b64Quads (b64Nums b) = Some b"
proof (induction b rule: b64Nums.induct)
  case (2 a)
  let ?n = "of_char a * 16 :: nat"
  have "?n div 64 * 64 + ?n mod 64 = ?n" by (rule div_mult_mod_eq)
  then show ?case by (simp only: b64Nums.simps b64Quads.simps Let_def) simp
next
  case (3 a b)
  let ?n = "(of_char a * 256 + of_char b) * 4 :: nat"
  have "?n div 4 = of_char a * 256 + of_char b" by simp
  moreover have "(of_char a * 256 + of_char b) div 256 = (of_char a :: nat)"
    "(of_char a * 256 + of_char b) mod 256 = (of_char b :: nat)"
    using of_char_lt_256 [of b] by simp_all
  ultimately show ?case
    by (simp only: b64Nums.simps b64Quads.simps Let_def base_64_digits2) simp
next
  case (4 a b c rest)
  let ?n = "of_char a * 65536 + of_char b * 256 + of_char c :: nat"
  have "b64Quads (b64Nums (a # b # c # rest)) =
        map_option (\<lambda>bs. char_of (?n div 65536) # char_of (?n div 256 mod 256)
                            # char_of (?n mod 256) # bs) (b64Quads (b64Nums rest))"
    by (simp only: b64Nums.simps b64Quads.simps Let_def base_64_digits)
  also have "\<dots> = Some (a # b # c # rest)"
    by (simp only: base_256_digits [OF of_char_lt_256 of_char_lt_256] 4) simp
  finally show ?case .
qed simp

theorem b64_roundtrip:
  assumes "b64Alphabet A"
  shows "b64DecodeRaw A (b64Raw A b) = Some b"
proof -
  have nums: "\<And>n. n \<in> set (b64Nums b) \<Longrightarrow> n < 64"
    using b64Nums_bound [of b] by (simp add: list_all_iff)
  with assms have keep: "filter (\<lambda>c. c \<noteq> CHR 0x0A \<and> c \<noteq> CHR 0x0D) (b64Raw A b) = b64Raw A b"
    by (auto simp: b64Raw_Nums b64Alphabet_def filter_id_conv) (metis nth_mem)+
  from nums assms have "list_all (\<lambda>c. c \<in> set A) (b64Raw A b)"
    by (auto simp: b64Raw_Nums b64Alphabet_def list_all_iff)
  moreover from nums assms have "map (\<lambda>c. the (b64Index A c)) (b64Raw A b) = b64Nums b"
    by (auto simp: b64Raw_Nums b64Alphabet_def b64Index_nth intro!: map_idI)
  ultimately show ?thesis
    by (simp add: b64DecodeRaw_def keep b64Quads_Nums)
qed

lemma b64Raw_inj: "b64Alphabet A \<Longrightarrow> b64Raw A a = b64Raw A b \<Longrightarrow> a = b"
  by (metis b64_roundtrip option.inject)

section \<open>Generic lemmas on lists and options\<close>

lemma find_Some_D: "find P xs = Some x \<Longrightarrow> x \<in> set xs \<and> P x"
  by (auto simp: find_Some_iff)

lemma find_map_same:
  assumes "\<And>x. P (f x) = P x"
  shows "find P (map f xs) = map_option f (find P xs)"
  using assms by (induction xs) auto

lemma find_filter_conj: "find P (filter Q xs) = find (\<lambda>x. Q x \<and> P x) xs"
  by (induction xs) auto

lemma length_filter_map_le:
  "(\<And>x. Q (f x) \<Longrightarrow> P x) \<Longrightarrow> length (filter Q (map f xs)) \<le> length (filter P xs)"
  by (induction xs) (auto simp: le_SucI)

lemma filter_eq_singletonD: "filter P xs = [x] \<Longrightarrow> x \<in> set xs \<and> P x"
  by (metis filter_eq_ConsD in_set_conv_decomp)

lemma distinct_map_filter_unique:
  "distinct (map f xs) \<Longrightarrow> x \<in> set xs \<Longrightarrow> y \<in> set xs \<Longrightarrow> f x = f y \<Longrightarrow> x = y"
  by (auto simp: distinct_map inj_on_def)

lemma find_unique:
  assumes "distinct (map f xs)" and "x \<in> set xs" and "f x = k"
  shows "find (\<lambda>y. f y = k) xs = Some x"
  using assms by (induction xs) auto

end
