(* ===== verification/Services.thy ===== *)
theory Services
  imports GoStd
begin

text \<open>
  The services the program talks to and the records it exchanges with them.

  Everything that is not code of the repository is an argument of the definitions, collected
  in the record \<open>env\<close>: the Valkey server (a function from a command and a server state to a
  reply and a new state), the failures of PostgreSQL calls, the clocks, the entropy source and
  the identifiers drawn from it, \<^verbatim>\<open>google/uuid\<close>, the hash, signature, password and cipher
  primitives, the URL parser and PostgreSQL's reading of an \<^verbatim>\<open>INET\<close> literal. What the
  documentation of Valkey promises about the commands the sources issue is the function
  \<open>vk_exec\<close> on a key space; the locale \<open>valkey_service\<close> says that a server answers by it.
\<close>

section \<open>Values stored in Valkey\<close>

text \<open>\<^verbatim>\<open>session.Session\<close> and \<^verbatim>\<open>oidc.RefreshPayload\<close>.\<close>

record Session =
  s_UserID :: string
  s_CreatedAt :: int
  s_LastSeenAt :: int
  s_IPAddress :: string
  s_UserAgent :: string
  s_PendingReturnTo :: string

record RefreshPayload =
  rp_UserID :: string
  rp_ClientID :: string
  rp_Scopes :: "string list"
  rp_FamilyID :: string
  rp_CreatedAt :: int
  rp_Expires :: int
  rp_Used :: bool

text \<open>
  A string value of Valkey is one of the JSON documents the program writes, a decimal
  integer, or other bytes; \<open>json.Unmarshal\<close> into the wrong struct type is the error branch.
\<close>

datatype body = JSession Session | JRefresh RefreshPayload | Decimal int | OtherBytes string

datatype vval =
    VStr body
  | VSet "string list"
  | VHash "(string \<times> string) list"
  | VZSet "(string \<times> int) list"     \<comment> \<open>members with their scores\<close>

section \<open>Valkey commands\<close>

datatype vcmd =
    GET string
  | SET string body int            \<comment> \<open>with a time to live in nanoseconds\<close>
  | SET_KEEPTTL string body
  | DEL string
  | EXPIRE string int
  | TTL string
  | SADD string string
  | SREM string string
  | SMEMBERS string
  | INCR string
  | HSET string "(string \<times> string) list"
  | HGET string string
  | HGETALL string
  | HINCRBY string string int
  | ZADD string int string         \<comment> \<open>key, score, member\<close>
  | ZREM string string
  | ZREMRANGEBYSCORE string int    \<comment> \<open>from \<open>-inf\<close> to this score, inclusive\<close>
  | ZCARD string

datatype vreply =
    RErr                           \<comment> \<open>transport error, or the server refused the command\<close>
  | RNil
  | ROk
  | RBody body
  | RInt int
  | RMembers "string list"
  | RField string
  | RFields "(string \<times> string) list"

type_synonym kspace = "string \<Rightarrow> (vval \<times> int option) option"

text \<open>\<open>TTL\<close> answers in whole seconds, rounded; go-redis turns that into a duration and
  passes the codes -2 (no key) and -1 (no expiry) through.\<close>

definition ttlReply :: "int \<Rightarrow> int" where
  "ttlReply t = ((t div 10 ^ 6 + 500) div 1000) * second"

text \<open>Decimal integers as the server reads and prints them: only the canonical spelling of a 64-bit
  integer is one.\<close>

definition showInt :: "int \<Rightarrow> string" where
  "showInt i = (if i < 0 then CHR ''-'' # showNat (nat (- i)) else showNat (nat i))"

definition readInt :: "string \<Rightarrow> int" where
  "readInt s = (if s \<noteq> [] \<and> hd s = CHR ''-'' then - int (readNat (tl s)) else int (readNat s))"

lemma readInt_showInt [simp]: "readInt (showInt i) = i"
proof (cases "i < 0")
  case False
  have "hd (showNat (nat i)) \<noteq> CHR ''-''"
    using showNat_digits [of "nat i"] by (cases "showNat (nat i)") (auto simp: isDigitByte_def)
  with False show ?thesis by (simp add: showInt_def readInt_def)
qed (simp add: showInt_def readInt_def)

definition decimalOk :: "string \<Rightarrow> bool" where
  "decimalOk s = (showInt (readInt s) = s \<and> - (2 ^ 63) \<le> readInt s \<and> readInt s < 2 ^ 63)"

text \<open>The fields of a hash; a later write to a field replaces the earlier one.\<close>

definition hashPut :: "string \<times> string \<Rightarrow> (string \<times> string) list \<Rightarrow> (string \<times> string) list" where
  "hashPut fv h = fv # filter (\<lambda>x. fst x \<noteq> fst fv) h"

text \<open>Removing members of a sorted set answers with their number; an empty set is no key.\<close>

definition zsetKeep
  :: "string \<Rightarrow> int option \<Rightarrow> (string \<times> int \<Rightarrow> bool) \<Rightarrow> (string \<times> int) list \<Rightarrow> kspace \<Rightarrow> vreply \<times> kspace" where
  "zsetKeep k e keep z m =
     (RInt (int (length z - length (filter keep z))),
      if filter keep z = [] then m(k := None) else m(k \<mapsto> (VZSet (filter keep z), e)))"

fun vk_exec :: "vcmd \<Rightarrow> kspace \<Rightarrow> vreply \<times> kspace" where
  "vk_exec (GET k) m =
     (case m k of None \<Rightarrow> (RNil, m) | Some (VStr b, _) \<Rightarrow> (RBody b, m) | Some _ \<Rightarrow> (RErr, m))"
| "vk_exec (SET k b t) m = (if t \<le> 0 then (RErr, m) else (ROk, m(k \<mapsto> (VStr b, Some t))))"
| "vk_exec (SET_KEEPTTL k b) m =
     (ROk, m(k \<mapsto> (VStr b, case m k of Some (_, e) \<Rightarrow> e | None \<Rightarrow> None)))"
| "vk_exec (DEL k) m = (RInt (if m k = None then 0 else 1), m(k := None))"
| "vk_exec (EXPIRE k t) m =
     (case m k of None \<Rightarrow> (RInt 0, m)
      | Some (v, _) \<Rightarrow> if t \<le> 0 then (RInt 1, m(k := None)) else (RInt 1, m(k \<mapsto> (v, Some t))))"
| "vk_exec (TTL k) m =
     (case m k of None \<Rightarrow> (RInt (-2), m) | Some (_, None) \<Rightarrow> (RInt (-1), m)
      | Some (_, Some t) \<Rightarrow> (RInt (ttlReply t), m))"
| "vk_exec (SADD k x) m =
     (case m k of None \<Rightarrow> (RInt 1, m(k \<mapsto> (VSet [x], None)))
      | Some (VSet xs, e) \<Rightarrow>
          if x \<in> set xs then (RInt 0, m) else (RInt 1, m(k \<mapsto> (VSet (x # xs), e)))
      | Some _ \<Rightarrow> (RErr, m))"
| "vk_exec (SREM k x) m =
     (case m k of None \<Rightarrow> (RInt 0, m)
      | Some (VSet xs, e) \<Rightarrow>
          (let ys = filter (\<lambda>y. y \<noteq> x) xs
           in (RInt (int (length xs - length ys)),
               if ys = [] then m(k := None) else m(k \<mapsto> (VSet ys, e))))
      | Some _ \<Rightarrow> (RErr, m))"
| "vk_exec (SMEMBERS k) m =
     (case m k of None \<Rightarrow> (RMembers [], m) | Some (VSet xs, _) \<Rightarrow> (RMembers xs, m)
      | Some _ \<Rightarrow> (RErr, m))"
| "vk_exec (INCR k) m =
     (case m k of None \<Rightarrow> (RInt 1, m(k \<mapsto> (VStr (Decimal 1), None)))
      | Some (VStr (Decimal n), e) \<Rightarrow> (RInt (n + 1), m(k \<mapsto> (VStr (Decimal (n + 1)), e)))
      | Some _ \<Rightarrow> (RErr, m))"
| "vk_exec (HSET k fvs) m =
     (case m k of None \<Rightarrow> (RInt (int (length (fold hashPut fvs []))), m(k \<mapsto> (VHash (fold hashPut fvs []), None)))
      | Some (VHash h, e) \<Rightarrow>
          (RInt (int (length (fold hashPut fvs h) - length h)), m(k \<mapsto> (VHash (fold hashPut fvs h), e)))
      | Some _ \<Rightarrow> (RErr, m))"
| "vk_exec (HGET k f) m =
     (case m k of None \<Rightarrow> (RNil, m)
      | Some (VHash h, _) \<Rightarrow> (case map_of h f of None \<Rightarrow> RNil | Some v \<Rightarrow> RField v, m)
      | Some _ \<Rightarrow> (RErr, m))"
| "vk_exec (HGETALL k) m =
     (case m k of None \<Rightarrow> (RFields [], m) | Some (VHash h, _) \<Rightarrow> (RFields h, m) | Some _ \<Rightarrow> (RErr, m))"
| "vk_exec (HINCRBY k f n) m =
     (case (case m k of None \<Rightarrow> Some ([], None) | Some (VHash h, e) \<Rightarrow> Some (h, e) | Some _ \<Rightarrow> None) of
        None \<Rightarrow> (RErr, m)
      | Some (h, e) \<Rightarrow>
          (let old = (case map_of h f of None \<Rightarrow> ''0'' | Some v \<Rightarrow> v); i = readInt old + n
           in if \<not> decimalOk old \<or> i < - (2 ^ 63) \<or> 2 ^ 63 \<le> i then (RErr, m)
              else (RInt i, m(k \<mapsto> (VHash (hashPut (f, showInt i) h), e)))))"
| "vk_exec (ZADD k s x) m =
     (case m k of None \<Rightarrow> (RInt 1, m(k \<mapsto> (VZSet [(x, s)], None)))
      | Some (VZSet z, e) \<Rightarrow>
          (RInt (if x \<in> fst ` set z then 0 else 1), m(k \<mapsto> (VZSet ((x, s) # filter (\<lambda>p. fst p \<noteq> x) z), e)))
      | Some _ \<Rightarrow> (RErr, m))"
| "vk_exec (ZREM k x) m =
     (case m k of None \<Rightarrow> (RInt 0, m)
      | Some (VZSet z, e) \<Rightarrow> zsetKeep k e (\<lambda>p. fst p \<noteq> x) z m
      | Some _ \<Rightarrow> (RErr, m))"
| "vk_exec (ZREMRANGEBYSCORE k hi) m =
     (case m k of None \<Rightarrow> (RInt 0, m)
      | Some (VZSet z, e) \<Rightarrow> zsetKeep k e (\<lambda>p. hi < snd p) z m
      | Some _ \<Rightarrow> (RErr, m))"
| "vk_exec (ZCARD k) m =
     (case m k of None \<Rightarrow> (RInt 0, m) | Some (VZSet z, _) \<Rightarrow> (RInt (int (length z)), m) | Some _ \<Rightarrow> (RErr, m))"

text \<open>Every command names one key, and the others keep their values.\<close>

fun cmdKey :: "vcmd \<Rightarrow> string" where
  "cmdKey (GET k) = k"
| "cmdKey (SET k b t) = k"
| "cmdKey (SET_KEEPTTL k b) = k"
| "cmdKey (DEL k) = k"
| "cmdKey (EXPIRE k t) = k"
| "cmdKey (TTL k) = k"
| "cmdKey (SADD k x) = k"
| "cmdKey (SREM k x) = k"
| "cmdKey (SMEMBERS k) = k"
| "cmdKey (INCR k) = k"
| "cmdKey (HSET k fvs) = k"
| "cmdKey (HGET k f) = k"
| "cmdKey (HGETALL k) = k"
| "cmdKey (HINCRBY k f n) = k"
| "cmdKey (ZADD k s x) = k"
| "cmdKey (ZREM k x) = k"
| "cmdKey (ZREMRANGEBYSCORE k hi) = k"
| "cmdKey (ZCARD k) = k"

lemma vk_exec_frame: "vk_exec c m = (r, m') \<Longrightarrow> k \<noteq> cmdKey c \<Longrightarrow> m' k = m k"
  by (cases c) (auto simp: Let_def zsetKeep_def split: option.splits prod.splits vval.splits body.splits if_splits)

text \<open>
  The interface of a Valkey server: \<open>view\<close> reads the live keys of a server state, and the
  server answers each command by the documented effect on that view.
\<close>

locale valkey_service =
  fixes V :: "vcmd \<Rightarrow> 'k \<Rightarrow> vreply \<times> 'k"
    and view :: "'k \<Rightarrow> kspace"
  assumes reply: "fst (V c k) = fst (vk_exec c (view k))"
    and effect: "view (snd (V c k)) = snd (vk_exec c (view k))"

text \<open>The key space itself, served by \<^const>\<open>vk_exec\<close>, is such a server.\<close>

interpretation keyspace: valkey_service vk_exec "\<lambda>m. m"
  by unfold_locales simp_all

section \<open>The environment record\<close>

datatype pgcall = PBegin string | PCommit string | PQuery string | PAudit string

record URL =
  url_Scheme :: string
  url_Host :: string
  url_Hostname :: string
  url_Path :: string
  url_RawQuery :: string
  url_Fragment :: string

record AccessTokenClaims =
  at_Issuer :: string
  at_Subject :: string
  at_Audience :: string
  at_IssuedAt :: int
  at_NotBefore :: int
  at_Expires :: int
  at_JTI :: string
  at_Scope :: string

record IDTokenClaims =
  id_Issuer :: string
  id_Subject :: string
  id_Audience :: string
  id_IssuedAt :: int
  id_NotBefore :: int
  id_Expires :: int
  id_JTI :: string
  id_AuthTime :: int
  id_Nonce :: string
  id_PreferredUsername :: string
  id_UpdatedAt :: int
  id_Email :: string
  id_EmailVerified :: "bool option"

datatype claims = AccessClaims AccessTokenClaims | IDClaims IDTokenClaims

record jwt =
  jwt_alg :: string
  jwt_typ :: string
  jwt_kid :: string
  jwt_claims :: claims

record 'k env =
  e_valkey :: "vcmd \<Rightarrow> 'k \<Rightarrow> vreply \<times> 'k"
  e_pg_fails :: "pgcall \<Rightarrow> bool"
  e_inet_ok :: "string \<Rightarrow> bool"
  e_go_now :: int
  e_pg_now :: int
  e_rand :: "string \<Rightarrow> nat \<Rightarrow> nat \<Rightarrow> bytes option"      \<comment> \<open>call site, draw, number of bytes\<close>
  e_rand_int :: "string \<Rightarrow> nat \<Rightarrow> nat \<Rightarrow> nat option"     \<comment> \<open>call site, draw, exclusive bound\<close>
  e_new_uuid :: "string \<Rightarrow> uuid"
  e_uuid_parse :: "string \<Rightarrow> uuid option"
  e_uuid_string :: "uuid \<Rightarrow> string"
  e_sha256 :: "bytes \<Rightarrow> bytes"
  e_argon2id :: "string \<Rightarrow> bytes \<Rightarrow> nat \<Rightarrow> nat \<Rightarrow> nat \<Rightarrow> nat \<Rightarrow> bytes"
    \<comment> \<open>\<open>argon2.IDKey\<close>: password, salt, iterations, memory, parallelism, key length\<close>
  e_gcm_seal :: "bytes \<Rightarrow> bytes \<Rightarrow> bytes \<Rightarrow> bytes \<Rightarrow> bytes"
    \<comment> \<open>AES-GCM: key, nonce, plain text, additional data\<close>
  e_gcm_open :: "bytes \<Rightarrow> bytes \<Rightarrow> bytes \<Rightarrow> bytes \<Rightarrow> bytes option"
  e_sha1 :: "bytes \<Rightarrow> bytes"
  e_hibp_get :: "string \<Rightarrow> (nat \<times> string list \<times> bool) option"
    \<comment> \<open>GET of the breach range: status, body lines, whether the body read failed\<close>
  e_hmac_sha256 :: "bytes \<Rightarrow> bytes \<Rightarrow> bytes"
  e_totp_validate :: "string \<Rightarrow> string \<Rightarrow> int \<Rightarrow> bool option"
    \<comment> \<open>\<open>totp.ValidateCustom\<close> with period 30, skew 0, 6 digits, SHA-1: code, secret, time\<close>
  e_rsa_generate :: "string \<Rightarrow> (bytes \<times> bytes) option"
    \<comment> \<open>\<open>rsa.GenerateKey\<close> and the PEM encodings of the public and the private key\<close>
  e_rsa_public :: "bytes \<Rightarrow> (bytes \<times> bytes) option"
    \<comment> \<open>\<open>ParsePublicPEM\<close>: the bytes of modulus and exponent\<close>
  e_jwt_sign :: "jwt \<Rightarrow> bytes \<Rightarrow> string option"
  e_jwt_decode :: "string \<Rightarrow> jwt option"
  e_jwt_verify :: "string \<Rightarrow> bytes \<Rightarrow> bool"
  e_url_parse :: "string \<Rightarrow> URL option"
  e_url_error :: "string \<Rightarrow> string"                  \<comment> \<open>text of the error \<open>url.Parse\<close> returns\<close>
  e_url_encode :: "(string \<times> string) list \<Rightarrow> string"
  e_url_queryEscape :: "string \<Rightarrow> string"
  e_split_host_port :: "string \<Rightarrow> string option"
  e_url_pathEscape :: "string \<Rightarrow> string"
  e_mail_parse :: "string \<Rightarrow> bool"                   \<comment> \<open>whether \<open>mail.ParseAddress\<close> reads it\<close>
  e_netip_parse :: "string \<Rightarrow> string option"         \<comment> \<open>\<open>netip.ParseAddr\<close>, printed\<close>
  e_any_upper :: "string \<Rightarrow> bool"                    \<comment> \<open>\<open>unicode.IsUpper\<close> of some rune\<close>
  e_any_digit :: "string \<Rightarrow> bool"                    \<comment> \<open>\<open>unicode.IsDigit\<close> of some rune\<close>
  e_json_strings :: "string list \<Rightarrow> string"          \<comment> \<open>\<open>json.Marshal\<close> of a list of strings\<close>
  e_json_readStrings :: "string \<Rightarrow> string list option"

text \<open>
  Documented behaviour of the primitives, as named hypotheses: AES-GCM opens what it sealed
  and its output is 16 bytes longer than the plain text; the entropy source returns as many
  bytes as asked for, and an integer below the bound; Argon2id returns a key of the length
  asked for; a UUID prints to a string that parses back to it; a list of strings is read back from
  its JSON.
\<close>

definition gcm_laws :: "'k env \<Rightarrow> bool" where
  "gcm_laws E = (\<forall>key nonce pt aad. length key \<in> {16, 24, 32} \<longrightarrow> length nonce = 12 \<longrightarrow>
     e_gcm_open E key nonce (e_gcm_seal E key nonce pt aad) aad = Some pt \<and>
     length (e_gcm_seal E key nonce pt aad) = length pt + 16)"

definition rand_laws :: "'k env \<Rightarrow> bool" where
  "rand_laws E = ((\<forall>site i n b. e_rand E site i n = Some b \<longrightarrow> length b = n) \<and>
     (\<forall>site i n x. e_rand_int E site i n = Some x \<longrightarrow> x < n))"

definition argon2_laws :: "'k env \<Rightarrow> bool" where
  "argon2_laws E = (\<forall>pw salt t m p n. length (e_argon2id E pw salt t m p n) = n)"

definition json_laws :: "'k env \<Rightarrow> bool" where
  "json_laws E = (\<forall>xs. e_json_readStrings E (e_json_strings E xs) = Some xs)"

definition uuid_laws :: "'k env \<Rightarrow> bool" where
  "uuid_laws E = (\<forall>u. e_uuid_parse E (e_uuid_string E u) = Some u)"

text \<open>A stand-in for a signed token that carries what was signed: the fields in base64, joined by
  dots, as the compact form of a token has its parts.\<close>

fun showOptBool :: "bool option \<Rightarrow> string" where
  "showOptBool None = []"
| "showOptBool (Some b) = (if b then ''t'' else ''f'')"

definition readOptBool :: "string \<Rightarrow> bool option" where
  "readOptBool s = (if s = [] then None else Some (s = ''t''))"

fun claimFields :: "claims \<Rightarrow> string list" where
  "claimFields (AccessClaims c) =
     [at_Issuer c, at_Subject c, at_Audience c, showInt (at_IssuedAt c), showInt (at_NotBefore c),
      showInt (at_Expires c), at_JTI c, at_Scope c]"
| "claimFields (IDClaims c) =
     [id_Issuer c, id_Subject c, id_Audience c, showInt (id_IssuedAt c), showInt (id_NotBefore c),
      showInt (id_Expires c), id_JTI c, showInt (id_AuthTime c), id_Nonce c, id_PreferredUsername c,
      showInt (id_UpdatedAt c), id_Email c, showOptBool (id_EmailVerified c)]"

definition claimsOf :: "string list \<Rightarrow> claims option" where
  "claimsOf f =
     (if length f = 8
      then Some (AccessClaims \<lparr>at_Issuer = f ! 0, at_Subject = f ! 1, at_Audience = f ! 2, at_IssuedAt = readInt (f ! 3),
             at_NotBefore = readInt (f ! 4), at_Expires = readInt (f ! 5), at_JTI = f ! 6, at_Scope = f ! 7\<rparr>)
      else if length f = 13
      then Some (IDClaims \<lparr>id_Issuer = f ! 0, id_Subject = f ! 1, id_Audience = f ! 2, id_IssuedAt = readInt (f ! 3),
             id_NotBefore = readInt (f ! 4), id_Expires = readInt (f ! 5), id_JTI = f ! 6, id_AuthTime = readInt (f ! 7),
             id_Nonce = f ! 8, id_PreferredUsername = f ! 9, id_UpdatedAt = readInt (f ! 10), id_Email = f ! 11,
             id_EmailVerified = readOptBool (f ! 12)\<rparr>)
      else None)"

definition compactJWT :: "jwt \<Rightarrow> string" where
  "compactJWT j = joinWith ''.'' (map base64RawURL ([jwt_alg j, jwt_typ j, jwt_kid j] @ claimFields (jwt_claims j)))"

definition readJWT :: "string \<Rightarrow> jwt option" where
  "readJWT s =
     (let ps = map (b64DecodeRaw b64URLAlphabet) (splitAll (CHR ''.'') s); fs = map the ps
      in if None \<in> set ps \<or> length fs < 3 then None
         else map_option (\<lambda>c. \<lparr>jwt_alg = fs ! 0, jwt_typ = fs ! 1, jwt_kid = fs ! 2, jwt_claims = c\<rparr>)
                (claimsOf (drop 3 fs)))"

lemma readOptBool_showOptBool [simp]: "readOptBool (showOptBool b) = b"
  by (cases b) (auto simp: readOptBool_def)

lemma claimsOf_claimFields [simp]: "claimsOf (claimFields c) = Some c"
  by (cases c) (simp_all add: claimsOf_def)

lemma base64RawURL_chars: "c \<in> set (base64RawURL b) \<Longrightarrow> c \<in> set b64URLAlphabet"
  using b64Nums_bound [of b] b64URLAlphabet_ok
  by (auto simp: base64RawURL_def b64Raw_Nums list_all_iff b64Alphabet_def)

lemma b64URL_plain: "c \<in> set b64URLAlphabet \<Longrightarrow> c \<noteq> CHR ''.'' \<and> \<not> isSpaceByte c"
  by (auto simp: b64URLAlphabet_def isSpaceByte_def)

lemma splitAll_join:
  "ws \<noteq> [] \<Longrightarrow> list_all (\<lambda>w. CHR ''.'' \<notin> set w) ws \<Longrightarrow> splitAll (CHR ''.'') (joinWith ''.'' ws) = ws"
  by (induction ws rule: induct_list012) (simp_all add: splitAll_no_sep splitAll_append)

lemma readJWT_compactJWT [simp]: "readJWT (compactJWT j) = Some j"
proof -
  let ?fs = "[jwt_alg j, jwt_typ j, jwt_kid j] @ claimFields (jwt_claims j)"
  have "list_all (\<lambda>w. CHR ''.'' \<notin> set w) (map base64RawURL ?fs)"
    using base64RawURL_chars b64URL_plain by (fastforce simp: list_all_iff)
  then have sp: "splitAll (CHR ''.'') (compactJWT j) = map base64RawURL ?fs"
    unfolding compactJWT_def by (rule splitAll_join [rotated]) simp
  have dec: "b64DecodeRaw b64URLAlphabet (base64RawURL b) = Some b" for b
    unfolding base64RawURL_def by (rule b64_roundtrip) (rule b64URLAlphabet_ok)
  have "map (b64DecodeRaw b64URLAlphabet) (map base64RawURL ?fs) = map Some ?fs" by (simp add: dec)
  then have ps: "map (b64DecodeRaw b64URLAlphabet) (splitAll (CHR ''.'') (compactJWT j)) = map Some ?fs"
    unfolding sp .
  have "map the (map Some ?fs) = ?fs" by (simp add: o_def)
  then show ?thesis unfolding readJWT_def Let_def ps by auto
qed

lemma compactJWT_plain: "compactJWT j \<noteq> [] \<and> list_all (\<lambda>ch. \<not> isSpaceByte ch) (compactJWT j)"
proof -
  let ?ws = "map base64RawURL ([jwt_alg j, jwt_typ j, jwt_kid j] @ claimFields (jwt_claims j))"
  have "\<not> isSpaceByte c" if "c \<in> set (joinWith ''.'' ws)" "\<forall>w \<in> set ws. \<forall>x \<in> set w. \<not> isSpaceByte x" for c ws
    using that by (induction ws rule: induct_list012) (auto simp: isSpaceByte_def)
  moreover have "\<forall>w \<in> set ?ws. \<forall>x \<in> set w. \<not> isSpaceByte x"
    using base64RawURL_chars b64URL_plain by fastforce
  ultimately have "list_all (\<lambda>ch. \<not> isSpaceByte ch) (compactJWT j)" unfolding compactJWT_def list_all_iff by blast
  then show ?thesis by (simp add: compactJWT_def)
qed

text \<open>A stand-in for a JSON list of strings.\<close>

definition packStrings :: "string list \<Rightarrow> string" where
  "packStrings xs = (if xs = [] then ''[]'' else joinWith ''.'' (map base64RawURL xs))"

definition unpackStrings :: "string \<Rightarrow> string list option" where
  "unpackStrings s =
     (if s = ''[]'' then Some []
      else let ps = map (b64DecodeRaw b64URLAlphabet) (splitAll (CHR ''.'') s)
           in if None \<in> set ps then None else Some (map the ps))"

lemma joined_chars: "c \<in> set (joinWith ''.'' ws) \<Longrightarrow> c = CHR ''.'' \<or> (\<exists>w\<in>set ws. c \<in> set w)"
  by (induction ws rule: induct_list012) auto

lemma unpackStrings_packStrings [simp]: "unpackStrings (packStrings xs) = Some xs"
proof (cases "xs = []")
  case False
  let ?ws = "map base64RawURL xs"
  have "list_all (\<lambda>w. CHR ''.'' \<notin> set w) ?ws"
    using base64RawURL_chars b64URL_plain by (fastforce simp: list_all_iff)
  with False have sp: "splitAll (CHR ''.'') (joinWith ''.'' ?ws) = ?ws" by (intro splitAll_join) simp_all
  have dec: "b64DecodeRaw b64URLAlphabet (base64RawURL b) = Some b" for b
    unfolding base64RawURL_def by (rule b64_roundtrip) (rule b64URLAlphabet_ok)
  have "CHR ''['' \<notin> set (joinWith ''.'' ?ws)"
    using joined_chars [of "CHR ''[''" ?ws] base64RawURL_chars by (fastforce simp: b64URLAlphabet_def)
  then have "joinWith ''.'' ?ws \<noteq> ''[]''" by (metis list.set_intros(1))
  with False sp show ?thesis by (simp add: packStrings_def unpackStrings_def dec Let_def o_def image_iff)
qed (simp add: packStrings_def unpackStrings_def)

text \<open>A concrete environment that satisfies them, on which the witnesses evaluate: the key space
  as Valkey server, no failing PostgreSQL call, and small stand-ins for the primitives.\<close>

definition pad :: "nat \<Rightarrow> bytes \<Rightarrow> bytes" where
  "pad n b = take n (b @ replicate n (CHR 0x00))"

definition sampleEnv :: "kspace env" where
  "sampleEnv = \<lparr>
     e_valkey = vk_exec,
     e_pg_fails = (\<lambda>c. False),
     e_inet_ok = (\<lambda>s. s \<noteq> ''garbage''),
     e_go_now = 1000 * second, e_pg_now = 1000 * second,
     e_rand = (\<lambda>site i n. Some (replicate n (char_of (length site + i)))),
     e_rand_int = (\<lambda>site i n. if n = 0 then None else Some (i mod n)),
     e_new_uuid = (\<lambda>site. 100 + length site),
     e_uuid_parse = (\<lambda>s. if s \<noteq> [] \<and> list_all isDigitByte s then Some (readNat s) else None),
     e_uuid_string = showNat,
     e_sha256 = (\<lambda>b. b),
     e_argon2id = (\<lambda>pw salt t m p n. pad n (pw @ salt)),
     e_gcm_seal = (\<lambda>key nonce pt aad. pt @ pad 16 aad),
     e_gcm_open = (\<lambda>key nonce ct aad.
        if drop (length ct - 16) ct = pad 16 aad then Some (take (length ct - 16) ct) else None),
     e_sha1 = pad 20,
     e_hibp_get = (\<lambda>url. None),
     e_hmac_sha256 = (\<lambda>key m. pad 32 (m @ key)),
     e_totp_validate = (\<lambda>code secret t. Some (code = ''123456'')),
     e_rsa_generate = (\<lambda>site. Some (''PUB'', ''PRIV'')),
     e_rsa_public = (\<lambda>pem. Some (pem, [CHR 0x01, CHR 0x00, CHR 0x01])),
     e_jwt_sign = (\<lambda>j key. Some (compactJWT j)),
     e_jwt_decode = readJWT,
     e_jwt_verify = (\<lambda>s key. True),
     e_url_parse = (\<lambda>s. None),
     e_url_error = (\<lambda>s. ''invalid''),
     e_url_encode = (\<lambda>kvs. joinWith ''&'' (map (\<lambda>(k, v). k @ ''='' @ v) kvs)),
     e_url_queryEscape = (\<lambda>s. s),
     e_split_host_port = (\<lambda>s. Some s),
     e_url_pathEscape = (\<lambda>s. s),
     e_mail_parse = (\<lambda>s. contains s ''@''),
     e_netip_parse = (\<lambda>s. Some s),
     e_any_upper = list_ex (\<lambda>c. of_char c \<in> {65..90::nat}),
     e_any_digit = list_ex isDigitByte,
     e_json_strings = packStrings,
     e_json_readStrings = unpackStrings\<rparr>"

lemma sampleEnv_sel [simp]:
  "e_valkey sampleEnv = vk_exec" "e_pg_fails sampleEnv c = False"
  "e_inet_ok sampleEnv s = (s \<noteq> ''garbage'')"
  "e_go_now sampleEnv = 1000 * second" "e_pg_now sampleEnv = 1000 * second"
  "e_rand sampleEnv site i n = Some (replicate n (char_of (length site + i)))"
  "e_new_uuid sampleEnv site = 100 + length site"
  "e_uuid_parse sampleEnv (showNat n) = Some n"
  "e_uuid_string sampleEnv = showNat"
  "e_sha256 sampleEnv = (\<lambda>b. b)"
  "e_jwt_sign sampleEnv j key = Some (compactJWT j)" "e_jwt_decode sampleEnv = readJWT" "e_jwt_verify sampleEnv s key = True"
  "e_split_host_port sampleEnv s = Some s"
  using showNat_digits by (simp_all add: sampleEnv_def)

lemma length_pad [simp]: "length (pad n b) = n"
  by (simp add: pad_def)

lemma sampleEnv_laws:
  "gcm_laws sampleEnv" "rand_laws sampleEnv" "argon2_laws sampleEnv" "uuid_laws sampleEnv"
  "json_laws sampleEnv"
  using showNat_digits
  by (simp_all add: gcm_laws_def rand_laws_def argon2_laws_def uuid_laws_def json_laws_def sampleEnv_def)

text \<open>
  A pipeline sends every command; \<open>Exec\<close> reports the first error among the replies.
\<close>

fun pipeline :: "'k env \<Rightarrow> vcmd list \<Rightarrow> 'k \<Rightarrow> vreply list \<times> 'k" where
  "pipeline E [] k = ([], k)"
| "pipeline E (c # cs) k =
     (case e_valkey E c k of (r, k1) \<Rightarrow>
      case pipeline E cs k1 of (rs, k2) \<Rightarrow> (r # rs, k2))"

definition pipeFailed :: "vreply list \<Rightarrow> bool" where
  "pipeFailed rs = (RErr \<in> set rs)"

fun vk_execs :: "vcmd list \<Rightarrow> kspace \<Rightarrow> vreply list \<times> kspace" where
  "vk_execs [] m = ([], m)"
| "vk_execs (c # cs) m =
     (case vk_exec c m of (r, m1) \<Rightarrow> case vk_execs cs m1 of (rs, m2) \<Rightarrow> (r # rs, m2))"

lemma vk_execs_frame: "vk_execs cs m = (rs, m') \<Longrightarrow> k \<notin> cmdKey ` set cs \<Longrightarrow> m' k = m k"
proof (induction cs arbitrary: m rs)
  case (Cons c cs)
  then obtain r m1 rs1 where "vk_exec c m = (r, m1)" "vk_execs cs m1 = (rs1, m')" by (auto split: prod.splits)
  with Cons.IH [of m1 rs1] Cons.prems(2) vk_exec_frame [of c m r m1 k] show ?case by simp
qed simp

context valkey_service
begin

lemma serve: "V c k = (r, k') \<Longrightarrow> vk_exec c (view k) = (r, view k')"
  using reply [of c k] effect [of c k] by (metis prod.collapse fst_conv snd_conv)

lemma serve_pipeline:
  assumes "e_valkey E = V" and "pipeline E cs k = (rs, k')"
  shows "vk_execs cs (view k) = (rs, view k')"
  using assms(2)
proof (induction cs arbitrary: k rs)
  case Nil
  then show ?case by simp
next
  case (Cons c cs)
  then obtain r k1 rs' where
    "V c k = (r, k1)" "pipeline E cs k1 = (rs', k')" "rs = r # rs'"
    by (auto simp: assms(1) split: prod.splits)
  with Cons.IH [of k1 rs'] serve [of c k r k1] show ?case by simp
qed

lemma pipeline_frame:
  "e_valkey E = V \<Longrightarrow> pipeline E cs k = (rs, k') \<Longrightarrow> x \<notin> cmdKey ` set cs \<Longrightarrow> view k' x = view k x"
  by (rule vk_execs_frame [OF serve_pipeline])

end

end
