(* ===== verification/Tables.thy ===== *)
theory Tables
  imports Services
begin

text \<open>
  The database (\<^verbatim>\<open>database/migrations/000001_baseline.up.sql\<close>) and the audit log.

  Every table is the list of its rows; a SQL statement of a store is a function on these lists
  that returns the new database and the rows read, or an error. \<open>stmt\<close> runs a statement on a
  connection: a server fault or a violated constraint aborts an open transaction, and an aborted
  transaction does not commit (\<open>pgx.ErrTxCommitRollback\<close>). A statement run on the pool is its
  own transaction. \<open>Log\<close> is \<^verbatim>\<open>audit.Store.Log\<close>: the audit rows live in the same database, so
  a caller's audit row commits or vanishes with its transaction.
\<close>

section \<open>Rows\<close>

record User =
  u_ID :: uuid
  u_Email :: string
  u_PasswordHash :: string
  u_Role :: string
  u_Status :: string
  u_ForcePasswordChange :: bool
  u_TOTPSecretEncrypted :: "bytes option"
  u_TOTPEnrolledAt :: "int option"
  u_FailedLoginAttempts :: int
  u_LockedUntil :: "int option"
  u_LastUsedTOTPCounter :: int
  u_LastLoginAt :: "int option"
  u_CreatedAt :: int
  u_UpdatedAt :: int

record Client =
  c_ID :: uuid
  c_Name :: string
  c_ClientType :: string
  c_SecretHash :: "string option"
  c_SecretHashPrevious :: "string option"
  c_SecretPreviousExpiresAt :: "int option"
  c_RedirectURIs :: "string list"
  c_AllowedGrantTypes :: "string list"
  c_AllowedScopes :: "string list"
  c_TokenEndpointAuthMethod :: string
  c_Status :: string
  c_DisabledAt :: "int option"
  c_CreatedByUserID :: "uuid option"
  c_CreatedAt :: int
  c_UpdatedAt :: int

record AuthCodeRow =
  ac_CodeHash :: string
  ac_ClientID :: uuid
  ac_UserID :: uuid
  ac_RedirectURI :: string
  ac_Scopes :: "string list"
  ac_Nonce :: "string option"
  ac_CodeChallenge :: string
  ac_CodeChallengeMethod :: string
  ac_ExpiresAt :: int
  ac_FamilyID :: uuid

text \<open>The columns the Go struct leaves out.\<close>

record auth_code = AuthCodeRow +
  ac_Used :: bool
  ac_CreatedAt :: int

record SigningKey =
  sk_ID :: uuid
  sk_Algorithm :: string
  sk_PublicKeyPEM :: bytes
  sk_PrivateKeyEncrypted :: bytes
  sk_Status :: string
  sk_CreatedAt :: int
  sk_RotatedAt :: "int option"

text \<open>Values of an audit entry's metadata map and of the \<open>instance_config\<close> column.\<close>

datatype metaval =
    MStr string | MInt int | MBool bool | MList "string list"
  | MMap "(string \<times> metaval) list"
  | MTime int                  \<comment> \<open>unix seconds of an instant written in RFC 3339\<close>
  | MInstant int               \<comment> \<open>a \<open>time.Time\<close> with its nanoseconds\<close>

datatype json = JNull | JBool bool | JInt int | JStr string

record Entry =
  en_EventType :: string
  en_ActorID :: "uuid option"
  en_ActorEmail :: string
  en_TargetType :: string
  en_TargetID :: string
  en_ClientID :: "uuid option"
  en_IPAddress :: string
  en_Outcome :: string
  en_Metadata :: "(string \<times> metaval) list option"

record audit_row =
  al_EventType :: string
  al_ActorID :: "uuid option"
  al_ActorEmail :: string
  al_TargetType :: string
  al_TargetID :: string
  al_ClientID :: "uuid option"
  al_IPAddress :: "string option"
  al_Outcome :: string
  al_Metadata :: "(string \<times> metaval) list option"
  al_CreatedAt :: int

record recovery_code =
  rc_ID :: uuid
  rc_UserID :: uuid
  rc_CodeHash :: bytes
  rc_UsedAt :: "int option"
  rc_CreatedAt :: int

record reset_token =
  prt_ID :: uuid
  prt_UserID :: uuid
  prt_TokenHash :: bytes
  prt_ExpiresAt :: int
  prt_UsedAt :: "int option"
  prt_CreatedAt :: int
  prt_IPAddress :: "string option"

record db =
  db_users :: "User list"
  db_clients :: "Client list"
  db_codes :: "auth_code list"
  db_signing_keys :: "SigningKey list"
  db_audit_logs :: "audit_row list"
  db_config :: "(string \<times> json) list"
  db_recovery_codes :: "recovery_code list"
  db_reset_tokens :: "reset_token list"

text \<open>The state of the program: the database and the Valkey server.\<close>

record 'k world =
  w_db :: db
  w_vk :: 'k

section \<open>Statements and transactions\<close>

datatype err =
    ErrDB                      \<comment> \<open>connection fault, check or foreign key violation\<close>
  | ErrUnique                  \<comment> \<open>SQLSTATE 23505\<close>
  | ErrNoRows
  | ErrUserNotFound
  | ErrAlreadyLocked
  | ErrClientNotFound
  | ErrAuthCodeAlreadyUsed
  | ErrNotUnmarshalled
  | ErrResetTokenNotFound
  | ErrRecoveryCodeUsed
  | ErrCrypto

record tx =
  tx_db :: db
  tx_aborted :: bool

definition stmt :: "'k env \<Rightarrow> string \<Rightarrow> (db \<Rightarrow> err + (db \<times> 'a)) \<Rightarrow> tx \<Rightarrow> tx \<times> (err + 'a)" where
  "stmt E site f t =
     (if tx_aborted t \<or> e_pg_fails E (PQuery site) then (t\<lparr>tx_aborted := True\<rparr>, Inl ErrDB)
      else case f (tx_db t) of
        Inl e \<Rightarrow> (t\<lparr>tx_aborted := True\<rparr>, Inl e)
      | Inr (d, r) \<Rightarrow> (t\<lparr>tx_db := d\<rparr>, Inr r))"

text \<open>A query reads rows and changes nothing; having none is the caller's \<open>ErrNoRows\<close>, which
  does not abort the transaction.\<close>

definition query :: "'k env \<Rightarrow> string \<Rightarrow> (db \<Rightarrow> 'a) \<Rightarrow> tx \<Rightarrow> tx \<times> (err + 'a)" where
  "query E site f t = stmt E site (\<lambda>d. Inr (d, f d)) t"

definition beginTx :: "'k env \<Rightarrow> string \<Rightarrow> db \<Rightarrow> tx option" where
  "beginTx E site d =
     (if e_pg_fails E (PBegin site) then None else Some \<lparr>tx_db = d, tx_aborted = False\<rparr>)"

text \<open>\<open>commitTx\<close> gives the database afterwards and whether the commit succeeded.\<close>

definition commitTx :: "'k env \<Rightarrow> string \<Rightarrow> tx \<Rightarrow> db \<Rightarrow> db \<times> bool" where
  "commitTx E site t d =
     (if tx_aborted t \<or> e_pg_fails E (PCommit site) then (d, False) else (tx_db t, True))"

text \<open>The pool as a querier: every statement commits on its own.\<close>

definition pool :: "db \<Rightarrow> tx" where
  "pool d = \<lparr>tx_db = d, tx_aborted = False\<rparr>"

section \<open>The audit log\<close>

definition metaPut :: "string \<Rightarrow> 'v \<Rightarrow> (string \<times> 'v) list \<Rightarrow> (string \<times> 'v) list" where
  "metaPut k v m = (k, v) # filter (\<lambda>kv. fst kv \<noteq> k) m"

text \<open>The correlation id of the request, empty outside of the logging middleware, is merged
  into the metadata.\<close>

definition auditRow :: "'k env \<Rightarrow> string \<Rightarrow> Entry \<Rightarrow> audit_row" where
  "auditRow E cid entry =
     \<lparr>al_EventType = en_EventType entry,
      al_ActorID = en_ActorID entry,
      al_ActorEmail = en_ActorEmail entry,
      al_TargetType = en_TargetType entry,
      al_TargetID = en_TargetID entry,
      al_ClientID = en_ClientID entry,
      al_IPAddress = (if en_IPAddress entry = [] then None else Some (en_IPAddress entry)),
      al_Outcome = en_Outcome entry,
      al_Metadata =
        (if cid \<noteq> []
         then Some (metaPut ''correlation_id'' (MStr cid)
                     (case en_Metadata entry of None \<Rightarrow> [] | Some m \<Rightarrow> m))
         else en_Metadata entry),
      al_CreatedAt = e_pg_now E\<rparr>"

text \<open>The \<open>INSERT\<close>: PostgreSQL refuses an address that is not an \<open>INET\<close> literal and an
  outcome other than the two of the check constraint.\<close>

definition Log :: "'k env \<Rightarrow> string \<Rightarrow> Entry \<Rightarrow> tx \<Rightarrow> tx \<times> (err + unit)" where
  "Log E cid entry t =
     (if tx_aborted t \<or> e_pg_fails E (PAudit (en_EventType entry))
         \<or> (en_IPAddress entry \<noteq> [] \<and> \<not> e_inet_ok E (en_IPAddress entry))
         \<or> en_Outcome entry \<notin> {''success'', ''failure''}
      then (t\<lparr>tx_aborted := True\<rparr>, Inl ErrDB)
      else (t\<lparr>tx_db := (tx_db t)\<lparr>db_audit_logs := db_audit_logs (tx_db t) @ [auditRow E cid entry]\<rparr>\<rparr>,
            Inr ()))"

text \<open>\<open>audit_log_pseudonymize_user\<close>, the one sanctioned change of audit rows; the count is the
  number of rows changed.\<close>

definition pseudonym :: "'k env \<Rightarrow> uuid \<Rightarrow> string" where
  "pseudonym E uid = ''deleted:'' @ e_uuid_string E uid"

definition PseudonymizeUser :: "'k env \<Rightarrow> uuid \<Rightarrow> tx \<Rightarrow> tx \<times> (err + nat)" where
  "PseudonymizeUser E uid =
     stmt E ''audit.PseudonymizeUser''
       (\<lambda>d. (let hit = (\<lambda>r. al_ActorID r = Some uid \<and> al_ActorEmail r \<noteq> pseudonym E uid)
             in Inr (d\<lparr>db_audit_logs := map (\<lambda>r. if hit r then r\<lparr>al_ActorEmail := pseudonym E uid\<rparr> else r)
                                            (db_audit_logs d)\<rparr>,
                     length (filter hit (db_audit_logs d)))))"

text \<open>\<open>extractClientIP\<close>: the part of \<open>X-Forwarded-For\<close> before the first comma, or the host of
  the remote address.\<close>

definition extractClientIP :: "'k env \<Rightarrow> string \<Rightarrow> string \<Rightarrow> string" where
  "extractClientIP E xff remoteAddr =
     (if xff \<noteq> [] then fst (splitOnce (CHR '','') xff)
      else case e_split_host_port E remoteAddr of None \<Rightarrow> remoteAddr | Some host \<Rightarrow> host)"

text \<open>What a JSON handler writes: \<open>httputil.WriteError\<close> with status, code and message, an empty
  204, or a body; a nil dereference panics and is answered by the server.\<close>

datatype 'b response = WriteError nat string string | NoContent | WriteJSON nat 'b | PanicNil

definition internalError :: "'b response" where
  "internalError = WriteError 500 ''INTERNAL_ERROR'' ''An unexpected error occurred.''"

text \<open>The parts of \<open>*http.Request\<close> the handlers read besides form values and cookies.\<close>

record request =
  req_XFF :: string
  req_RemoteAddr :: string
  req_CorrelationID :: string

definition clientIP :: "'k env \<Rightarrow> request \<Rightarrow> string" where
  "clientIP E req = extractClientIP E (req_XFF req) (req_RemoteAddr req)"

text \<open>The best-effort audit of the handlers: a transaction of its own, whose failure is only
  logged.\<close>

definition bestEffortAudit :: "'k env \<Rightarrow> string \<Rightarrow> string \<Rightarrow> Entry \<Rightarrow> db \<Rightarrow> db" where
  "bestEffortAudit E site cid entry d =
     (case beginTx E site d of
        None \<Rightarrow> d
      | Some t \<Rightarrow>
          (case Log E cid entry t of
             (t', Inl e) \<Rightarrow> d
           | (t', Inr _) \<Rightarrow> fst (commitTx E site t' d)))"

text \<open>\<open>url.Values.Get\<close> on a parsed form or query: the first value, or the empty string.\<close>

definition formGet :: "(string \<times> string) list \<Rightarrow> string \<Rightarrow> string" where
  "formGet form key = (case map_of form key of None \<Rightarrow> [] | Some v \<Rightarrow> v)"

section \<open>Laws of statements\<close>

lemma tx_eta [simp]: "\<lparr>tx_db = tx_db t, tx_aborted = tx_aborted t\<rparr> = (t :: tx)"
  by simp

lemma stmt_aborted [simp]: "tx_aborted t \<Longrightarrow> stmt E site f t = (t, Inl ErrDB)"
  by (simp add: stmt_def)

lemma commitTx_aborted [simp]: "tx_aborted t \<Longrightarrow> commitTx E site t d = (d, False)"
  by (simp add: commitTx_def)

lemma pool_sel [simp]: "tx_db (pool d) = d" "tx_aborted (pool d) = False"
  by (simp_all add: pool_def)

text \<open>A statement that returned a value ran, and a failed one leaves the transaction aborted.\<close>

lemma stmt_Inr:
  "stmt E site f t = (t', Inr r) \<longleftrightarrow>
     \<not> tx_aborted t \<and> \<not> e_pg_fails E (PQuery site) \<and>
     (\<exists>d. f (tx_db t) = Inr (d, r) \<and> t' = t\<lparr>tx_db := d\<rparr>)"
  by (auto simp: stmt_def split: sum.splits prod.splits)

lemma stmt_Inl:
  "stmt E site f t = (t', Inl e) \<Longrightarrow> tx_aborted t' \<and> tx_db t' = tx_db t"
  by (auto simp: stmt_def split: sum.splits prod.splits if_splits)

lemma query_Inr:
  "query E site f t = (t', Inr r) \<longleftrightarrow>
     \<not> tx_aborted t \<and> \<not> e_pg_fails E (PQuery site) \<and> r = f (tx_db t) \<and> t' = t"
  by (auto simp: query_def stmt_Inr)

lemma query_db: "query E site f t = (t', r) \<Longrightarrow> tx_db t' = tx_db t"
  by (auto simp: query_def stmt_def split: if_splits)

lemma Log_Inr:
  "Log E cid en t = (t', Inr u) \<Longrightarrow>
     \<not> tx_aborted t' \<and>
     tx_db t' = (tx_db t)\<lparr>db_audit_logs := db_audit_logs (tx_db t) @ [auditRow E cid en]\<rparr>"
  by (auto simp: Log_def split: if_splits)

lemma Log_Inl: "Log E cid en t = (t', Inl e) \<Longrightarrow> tx_aborted t'"
  by (auto simp: Log_def split: if_splits)

lemma Log_aborted: "tx_aborted t \<Longrightarrow> tx_aborted (fst (Log E cid en t))"
  by (simp add: Log_def)

lemma beginTx_Some:
  "beginTx E site d = Some t \<longleftrightarrow> \<not> e_pg_fails E (PBegin site) \<and> t = pool d"
  by (auto simp: beginTx_def pool_def)

lemma commitTx_True:
  "commitTx E site t d = (d', True) \<longleftrightarrow> \<not> tx_aborted t \<and> \<not> e_pg_fails E (PCommit site) \<and> d' = tx_db t"
  by (auto simp: commitTx_def)

lemma commitTx_False: "commitTx E site t d = (d', False) \<Longrightarrow> d' = d"
  by (auto simp: commitTx_def split: if_splits)

text \<open>The tables other than the audit log are not touched by \<^const>\<open>Log\<close>.\<close>

lemma Log_tables:
  assumes "Log E cid en t = (t', r)"
  shows "db_users (tx_db t') = db_users (tx_db t)"
    and "db_clients (tx_db t') = db_clients (tx_db t)"
    and "db_codes (tx_db t') = db_codes (tx_db t)"
    and "db_signing_keys (tx_db t') = db_signing_keys (tx_db t)"
    and "db_config (tx_db t') = db_config (tx_db t)"
    and "db_recovery_codes (tx_db t') = db_recovery_codes (tx_db t)"
    and "db_reset_tokens (tx_db t') = db_reset_tokens (tx_db t)"
  using assms by (auto simp: Log_def split: if_splits)

lemma bestEffortAudit_tables [simp]:
  "db_users (bestEffortAudit E site cid en d) = db_users d"
  "db_clients (bestEffortAudit E site cid en d) = db_clients d"
  "db_codes (bestEffortAudit E site cid en d) = db_codes d"
  "db_signing_keys (bestEffortAudit E site cid en d) = db_signing_keys d"
  "db_config (bestEffortAudit E site cid en d) = db_config d"
  "db_recovery_codes (bestEffortAudit E site cid en d) = db_recovery_codes d"
  "db_reset_tokens (bestEffortAudit E site cid en d) = db_reset_tokens d"
  by (auto simp: bestEffortAudit_def beginTx_Some commitTx_def dest: Log_tables
      split: option.splits prod.splits sum.splits)

text \<open>The client address is the caller's word: the part before the first comma of the header.\<close>

lemma clientIP_forwarded:
  assumes "req_XFF req = ip @ rest" and "ip \<noteq> []" and "CHR '','' \<notin> set ip"
    and "rest = [] \<or> hd rest = CHR '',''"
  shows "clientIP E req = ip"
  using assms
  by (cases rest) (auto simp: clientIP_def extractClientIP_def splitOnce_append splitOnce_no_sep)

section \<open>A sample database\<close>

definition emptyDB :: db where
  "emptyDB = \<lparr>db_users = [], db_clients = [], db_codes = [], db_signing_keys = [],
     db_audit_logs = [], db_config = [], db_recovery_codes = [], db_reset_tokens = []\<rparr>"

end
