(* ===== verification/UserStore.thy ===== *)
theory UserStore
  imports Tables
begin

text \<open>
  \<^verbatim>\<open>internal/users/store.go\<close>: the operations on the \<open>users\<close> table, each the SQL statement of the
  source on the list of rows. The lemmas give the effect of every operation that later proofs use,
  the lockout behaviour, and that the search pattern of \<open>List\<close> finds a literal substring.
\<close>

section \<open>Shared statement shapes\<close>

text \<open>\<open>UPDATE users SET f WHERE p\<close>, with the number of rows changed.\<close>

definition updUsers :: "(User \<Rightarrow> bool) \<Rightarrow> (User \<Rightarrow> User) \<Rightarrow> db \<Rightarrow> db \<times> nat" where
  "updUsers p f d =
     (d\<lparr>db_users := map (\<lambda>u. if p u then f u else u) (db_users d)\<rparr>, length (filter p (db_users d)))"

text \<open>\<open>RowsAffected() == 0\<close> as the given error; no error is raised by the database.\<close>

definition needRow :: "err \<Rightarrow> tx \<times> (err + nat) \<Rightarrow> tx \<times> (err + unit)" where
  "needRow e r =
     (case r of (t, Inl e') \<Rightarrow> (t, Inl e') | (t, Inr n) \<Rightarrow> (t, if n = 0 then Inl e else Inr ()))"

definition ignoreCount :: "tx \<times> (err + nat) \<Rightarrow> tx \<times> (err + unit)" where
  "ignoreCount r = (case r of (t, Inl e) \<Rightarrow> (t, Inl e) | (t, Inr n) \<Rightarrow> (t, Inr ()))"

definition needOne :: "err \<Rightarrow> tx \<times> (err + 'a option) \<Rightarrow> tx \<times> (err + 'a)" where
  "needOne e r =
     (case r of (t, Inl e') \<Rightarrow> (t, Inl e') | (t, Inr None) \<Rightarrow> (t, Inl e) | (t, Inr (Some x)) \<Rightarrow> (t, Inr x))"

definition emailTaken :: "string \<Rightarrow> User list \<Rightarrow> bool" where
  "emailTaken email us = list_ex (\<lambda>u. toLower (u_Email u) = toLower email) us"

definition roleOk :: "string \<Rightarrow> bool" where
  "roleOk r = (r = ''super_admin'' \<or> r = ''user'')"

definition statusOk :: "string \<Rightarrow> bool" where
  "statusOk s = (s = ''active'' \<or> s = ''disabled'')"

section \<open>Operations\<close>

definition UserCreate
  :: "'k env \<Rightarrow> string \<Rightarrow> string \<Rightarrow> string \<Rightarrow> bool \<Rightarrow> tx \<Rightarrow> tx \<times> (err + uuid)" where
  "UserCreate E email passwordHash role forcePasswordChange =
     stmt E ''users.Create''
       (\<lambda>d. let uid = e_new_uuid E ''users.id'' in
          if \<not> roleOk role then Inl ErrDB
          else if emailTaken email (db_users d) \<or> list_ex (\<lambda>u. u_ID u = uid) (db_users d) then Inl ErrUnique
          else Inr (d\<lparr>db_users := db_users d @
                 [\<lparr>u_ID = uid, u_Email = email, u_PasswordHash = passwordHash, u_Role = role,
                   u_Status = ''active'', u_ForcePasswordChange = forcePasswordChange,
                   u_TOTPSecretEncrypted = None, u_TOTPEnrolledAt = None, u_FailedLoginAttempts = 0,
                   u_LockedUntil = None, u_LastUsedTOTPCounter = 0, u_LastLoginAt = None,
                   u_CreatedAt = e_pg_now E, u_UpdatedAt = e_pg_now E\<rparr>]\<rparr>, uid))"

definition UserGetByEmail :: "'k env \<Rightarrow> string \<Rightarrow> tx \<Rightarrow> tx \<times> (err + User)" where
  "UserGetByEmail E email t =
     needOne ErrUserNotFound (query E ''users.GetByEmail'' (\<lambda>d. find (\<lambda>u. u_Email u = email) (db_users d)) t)"

definition UserGetByID :: "'k env \<Rightarrow> string \<Rightarrow> uuid \<Rightarrow> tx \<Rightarrow> tx \<times> (err + User)" where
  "UserGetByID E site uid t =
     needOne ErrUserNotFound (query E site (\<lambda>d. find (\<lambda>u. u_ID u = uid) (db_users d)) t)"

text \<open>The row lock condition of the two counters' \<open>WHERE\<close> clauses.\<close>

definition notLocked :: "'k env \<Rightarrow> User \<Rightarrow> bool" where
  "notLocked E u = (case u_LockedUntil u of None \<Rightarrow> True | Some t \<Rightarrow> t < e_pg_now E)"

definition countFailure :: "'k env \<Rightarrow> int \<Rightarrow> int \<Rightarrow> User \<Rightarrow> User" where
  "countFailure E threshold durationSecs u =
     u\<lparr>u_FailedLoginAttempts := u_FailedLoginAttempts u + 1,
       u_LockedUntil := (if u_FailedLoginAttempts u + 1 \<ge> threshold
                         then Some (e_pg_now E + durationSecs * second) else u_LockedUntil u),
       u_UpdatedAt := e_pg_now E\<rparr>"

text \<open>The new count and whether this call tripped the lock; the counter is an \<open>INT\<close>.\<close>

definition IncrementFailedLogins
  :: "'k env \<Rightarrow> uuid \<Rightarrow> int \<Rightarrow> int \<Rightarrow> tx \<Rightarrow> tx \<times> (err + int \<times> bool)" where
  "IncrementFailedLogins E uid threshold durationSecs t =
     needOne ErrAlreadyLocked
       (stmt E ''users.IncrementFailedLogins''
         (\<lambda>d. case find (\<lambda>u. u_ID u = uid \<and> notLocked E u) (db_users d) of
            None \<Rightarrow> Inr (d, None)
          | Some u \<Rightarrow>
              if u_FailedLoginAttempts u + 1 \<ge> 2 ^ 31 then Inl ErrDB
              else let u' = countFailure E threshold durationSecs u
                   in Inr (fst (updUsers (\<lambda>x. u_ID x = uid \<and> notLocked E x)
                                  (countFailure E threshold durationSecs) d),
                           Some (u_FailedLoginAttempts u',
                                 (case u_LockedUntil u' of None \<Rightarrow> False | Some l \<Rightarrow> e_pg_now E < l)))) t)"

definition ResetFailedLogins :: "'k env \<Rightarrow> uuid \<Rightarrow> tx \<Rightarrow> tx \<times> (err + unit)" where
  "ResetFailedLogins E uid t =
     needRow ErrAlreadyLocked
       (stmt E ''users.ResetFailedLogins''
         (\<lambda>d. Inr (updUsers (\<lambda>u. u_ID u = uid \<and> notLocked E u)
                (\<lambda>u. u\<lparr>u_FailedLoginAttempts := 0, u_LockedUntil := None, u_UpdatedAt := e_pg_now E\<rparr>) d)) t)"

definition ClearLockoutForPasswordChange :: "'k env \<Rightarrow> uuid \<Rightarrow> tx \<Rightarrow> tx \<times> (err + unit)" where
  "ClearLockoutForPasswordChange E uid t =
     ignoreCount
       (stmt E ''users.ClearLockout''
         (\<lambda>d. Inr (updUsers (\<lambda>u. u_ID u = uid)
                (\<lambda>u. u\<lparr>u_FailedLoginAttempts := 0, u_LockedUntil := None, u_UpdatedAt := e_pg_now E\<rparr>) d)) t)"

text \<open>\<open>strings.NewReplacer\<close> over the three metacharacters, and \<open>ILIKE ... ESCAPE '\'\<close>.\<close>

definition bslash :: char where "bslash = CHR 0x5C"

fun likeEscape :: "string \<Rightarrow> string" where
  "likeEscape [] = []"
| "likeEscape (c # cs) =
     (if c = bslash \<or> c = CHR ''%'' \<or> c = CHR ''_'' then bslash # c # likeEscape cs else c # likeEscape cs)"

fun ilike :: "string \<Rightarrow> string \<Rightarrow> bool" where
  "ilike [] s = (s = [])"
| "ilike (p # ps) s =
     (if p = CHR ''%'' then ilike ps s \<or> (case s of [] \<Rightarrow> False | _ # s' \<Rightarrow> ilike (p # ps) s')
      else if p = bslash then
        (case ps of [] \<Rightarrow> False
         | q # qs \<Rightarrow> (case s of [] \<Rightarrow> False | c # s' \<Rightarrow> toLower [c] = toLower [q] \<and> ilike qs s'))
      else if p = CHR ''_'' then (case s of [] \<Rightarrow> False | _ # s' \<Rightarrow> ilike ps s')
      else (case s of [] \<Rightarrow> False | c # s' \<Rightarrow> toLower [c] = toLower [p] \<and> ilike ps s'))"

record ListUsersParams =
  lu_Limit :: int
  lu_Offset :: int
  lu_EmailSearch :: string

definition searchPattern :: "string \<Rightarrow> string" where
  "searchPattern search = ''%'' @ likeEscape search @ ''%''"

text \<open>The page and the total number of matching users.\<close>

definition UserList :: "'k env \<Rightarrow> ListUsersParams \<Rightarrow> tx \<Rightarrow> tx \<times> (err + User list \<times> nat)" where
  "UserList E params t =
     (let limit = (if lu_Limit params \<le> 0 then 50 else if lu_Limit params > 200 then 200 else lu_Limit params);
          match = (\<lambda>u. lu_EmailSearch params = [] \<or> ilike (searchPattern (lu_EmailSearch params)) (u_Email u))
      in stmt E ''users.List''
           (\<lambda>d. if lu_Offset params < 0 then Inl ErrDB
                else let ms = filter match (db_users d)
                     in Inr (d, (take (nat limit) (drop (nat (lu_Offset params))
                                   (sort_key (\<lambda>u. - u_CreatedAt u) ms)), length ms))) t)"

definition UserUpdate :: "'k env \<Rightarrow> uuid \<Rightarrow> string \<Rightarrow> string \<Rightarrow> tx \<Rightarrow> tx \<times> (err + unit)" where
  "UserUpdate E uid email role t =
     needRow ErrUserNotFound
       (stmt E ''users.Update''
         (\<lambda>d. if \<not> list_ex (\<lambda>u. u_ID u = uid) (db_users d) then Inr (d, 0)
              else if \<not> roleOk role then Inl ErrDB
              else if emailTaken email (filter (\<lambda>u. u_ID u \<noteq> uid) (db_users d)) then Inl ErrUnique
              else Inr (updUsers (\<lambda>u. u_ID u = uid)
                          (\<lambda>u. u\<lparr>u_Email := email, u_Role := role, u_UpdatedAt := e_pg_now E\<rparr>) d)) t)"

definition UserSetStatus :: "'k env \<Rightarrow> uuid \<Rightarrow> string \<Rightarrow> tx \<Rightarrow> tx \<times> (err + unit)" where
  "UserSetStatus E uid status t =
     needRow ErrUserNotFound
       (stmt E ''users.SetStatus''
         (\<lambda>d. if \<not> statusOk status \<and> list_ex (\<lambda>u. u_ID u = uid) (db_users d) then Inl ErrDB
              else Inr (updUsers (\<lambda>u. u_ID u = uid)
                          (\<lambda>u. u\<lparr>u_Status := status, u_UpdatedAt := e_pg_now E\<rparr>) d)) t)"

text \<open>\<open>DELETE FROM users\<close>: authorization codes refer to the user without an \<open>ON DELETE\<close> action,
  clients give up their creator, recovery codes and reset tokens go with the user.\<close>

definition UserDelete :: "'k env \<Rightarrow> uuid \<Rightarrow> tx \<Rightarrow> tx \<times> (err + unit)" where
  "UserDelete E uid t =
     needRow ErrUserNotFound
       (stmt E ''users.Delete''
         (\<lambda>d. if list_ex (\<lambda>u. u_ID u = uid) (db_users d) \<and> list_ex (\<lambda>c. ac_UserID c = uid) (db_codes d)
              then Inl ErrDB
              else Inr (d\<lparr>db_users := filter (\<lambda>u. u_ID u \<noteq> uid) (db_users d),
                         db_clients := map (\<lambda>c. if c_CreatedByUserID c = Some uid
                                                 then c\<lparr>c_CreatedByUserID := None\<rparr> else c) (db_clients d),
                         db_recovery_codes := filter (\<lambda>c. rc_UserID c \<noteq> uid) (db_recovery_codes d),
                         db_reset_tokens := filter (\<lambda>r. prt_UserID r \<noteq> uid) (db_reset_tokens d)\<rparr>,
                        length (filter (\<lambda>u. u_ID u = uid) (db_users d)))) t)"

definition SetPasswordHash :: "'k env \<Rightarrow> uuid \<Rightarrow> string \<Rightarrow> bool \<Rightarrow> tx \<Rightarrow> tx \<times> (err + unit)" where
  "SetPasswordHash E uid hash forcePasswordChange t =
     needRow ErrUserNotFound
       (stmt E ''users.SetPasswordHash''
         (\<lambda>d. Inr (updUsers (\<lambda>u. u_ID u = uid)
                (\<lambda>u. u\<lparr>u_PasswordHash := hash, u_ForcePasswordChange := forcePasswordChange,
                       u_UpdatedAt := e_pg_now E\<rparr>) d)) t)"

definition SetTOTPEnrolled :: "'k env \<Rightarrow> uuid \<Rightarrow> bytes \<Rightarrow> tx \<Rightarrow> tx \<times> (err + unit)" where
  "SetTOTPEnrolled E uid encryptedSecret t =
     ignoreCount
       (stmt E ''users.SetTOTPEnrolled''
         (\<lambda>d. Inr (updUsers (\<lambda>u. u_ID u = uid)
                (\<lambda>u. u\<lparr>u_TOTPSecretEncrypted := Some encryptedSecret,
                       u_TOTPEnrolledAt := Some (e_pg_now E)\<rparr>) d)) t)"

definition ClearTOTP :: "'k env \<Rightarrow> uuid \<Rightarrow> tx \<Rightarrow> tx \<times> (err + unit)" where
  "ClearTOTP E uid t =
     ignoreCount
       (stmt E ''users.ClearTOTP''
         (\<lambda>d. Inr (updUsers (\<lambda>u. u_ID u = uid)
                (\<lambda>u. u\<lparr>u_TOTPSecretEncrypted := None, u_TOTPEnrolledAt := None,
                       u_LastUsedTOTPCounter := 0\<rparr>) d)) t)"

definition AdvanceTOTPCounter :: "'k env \<Rightarrow> uuid \<Rightarrow> int \<Rightarrow> tx \<Rightarrow> tx \<times> (err + unit)" where
  "AdvanceTOTPCounter E uid counter t =
     ignoreCount
       (stmt E ''users.AdvanceTOTPCounter''
         (\<lambda>d. Inr (updUsers (\<lambda>u. u_ID u = uid) (\<lambda>u. u\<lparr>u_LastUsedTOTPCounter := counter\<rparr>) d)) t)"

definition SetLastLoginAt :: "'k env \<Rightarrow> uuid \<Rightarrow> tx \<Rightarrow> tx \<times> (err + unit)" where
  "SetLastLoginAt E uid t =
     needRow ErrUserNotFound
       (stmt E ''users.SetLastLoginAt''
         (\<lambda>d. Inr (updUsers (\<lambda>u. u_ID u = uid)
                (\<lambda>u. u\<lparr>u_LastLoginAt := Some (e_pg_now E), u_UpdatedAt := e_pg_now E\<rparr>) d)) t)"

definition GetEmail :: "'k env \<Rightarrow> uuid \<Rightarrow> tx \<Rightarrow> tx \<times> (err + string)" where
  "GetEmail E uid t =
     needOne ErrUserNotFound
       (query E ''users.GetEmail''
         (\<lambda>d. map_option u_Email (find (\<lambda>u. u_ID u = uid) (db_users d))) t)"

section \<open>Laws of the statement shapes\<close>

lemma needRow_Inr:
  "needRow e r = (t, Inr u) \<longleftrightarrow> (\<exists>n. r = (t, Inr n) \<and> n \<noteq> 0)"
  by (auto simp: needRow_def split: prod.splits sum.splits if_splits)

lemma ignoreCount_Inr: "ignoreCount r = (t, Inr u) \<longleftrightarrow> (\<exists>n. r = (t, Inr n))"
  by (auto simp: ignoreCount_def split: prod.splits sum.splits)

lemma needOne_Inr: "needOne e r = (t, Inr x) \<longleftrightarrow> r = (t, Inr (Some x))"
  by (auto simp: needOne_def split: prod.splits sum.splits option.splits)

lemma fst_wrappers [simp]:
  "fst (needRow e r) = fst r" "fst (ignoreCount r) = fst r" "fst (needOne e r') = fst r'"
  by (auto simp: needRow_def ignoreCount_def needOne_def split: prod.splits sum.splits option.splits)

lemma stmt_db:
  "tx_db (fst (stmt E site f t)) = tx_db t \<or> (\<exists>r. f (tx_db t) = Inr (tx_db (fst (stmt E site f t)), r))"
  by (auto simp: stmt_def split: sum.splits prod.splits)

lemma query_fst [simp]: "tx_db (fst (query E site f t)) = tx_db t"
  by (auto simp: query_def stmt_def)

lemma UserGetByID_Inr:
  "UserGetByID E site uid t = (t', Inr u) \<Longrightarrow>
     t' = t \<and> find (\<lambda>u. u_ID u = uid) (db_users (tx_db t)) = Some u \<and> u_ID u = uid \<and>
     u \<in> set (db_users (tx_db t))"
  using find_Some_D [of "\<lambda>u. u_ID u = uid" "db_users (tx_db t)" u]
  by (auto simp: UserGetByID_def needOne_Inr query_Inr)

section \<open>The invariant of the table\<close>

text \<open>What the unique index on \<open>LOWER(email)\<close>, the primary key and the check constraints say.\<close>

definition users_inv :: "User list \<Rightarrow> bool" where
  "users_inv us =
     (distinct (map u_ID us) \<and> distinct (map (toLower \<circ> u_Email) us) \<and>
      list_all (\<lambda>u. roleOk (u_Role u) \<and> statusOk (u_Status u)) us)"

lemma users_inv_map:
  assumes "users_inv us"
    and "\<And>u. u \<in> set us \<Longrightarrow> u_ID (f u) = u_ID u \<and> u_Email (f u) = u_Email u \<and> u_Role (f u) = u_Role u \<and>
           statusOk (u_Status (f u))"
  shows "users_inv (map f us)"
proof -
  have ids: "map u_ID (map f us) = map u_ID us"
    and emails: "map (toLower \<circ> u_Email) (map f us) = map (toLower \<circ> u_Email) us"
    using assms(2) by simp_all
  show ?thesis
    unfolding users_inv_def ids emails using assms by (auto simp: users_inv_def list_all_iff)
qed

lemma users_inv_updUsers:
  assumes "users_inv (db_users d)"
    and "\<And>u. u_ID (f u) = u_ID u \<and> u_Email (f u) = u_Email u \<and> u_Role (f u) = u_Role u"
    and "\<And>u. statusOk (u_Status u) \<Longrightarrow> statusOk (u_Status (f u))"
  shows "users_inv (db_users (fst (updUsers p f d)))"
  unfolding updUsers_def fst_conv using assms
  by (simp, intro users_inv_map) (auto simp: users_inv_def list_all_iff)

lemma users_inv_filter: "users_inv us \<Longrightarrow> users_inv (filter p us)"
  by (auto simp: users_inv_def list_all_iff distinct_map inj_on_def)

lemma users_inv_rename:
  assumes "users_inv us" and "\<not> emailTaken email (filter (\<lambda>u. u_ID u \<noteq> uid) us)" and "roleOk role"
  shows "users_inv (map (\<lambda>u. if u_ID u = uid then u\<lparr>u_Email := email, u_Role := role, u_UpdatedAt := n\<rparr> else u) us)"
  using assms
proof (induction us)
  case (Cons u us)
  then have IH: "users_inv (map (\<lambda>u. if u_ID u = uid then u\<lparr>u_Email := email, u_Role := role, u_UpdatedAt := n\<rparr> else u) us)"
    by (auto simp: users_inv_def emailTaken_def split: if_splits)
  show ?case
  proof (cases "u_ID u = uid")
    case True
    with Cons.prems(1) have rest: "\<forall>x\<in>set us. u_ID x \<noteq> uid"
      by (auto simp: users_inv_def image_iff)
    then have same: "map (\<lambda>u. if u_ID u = uid then u\<lparr>u_Email := email, u_Role := role, u_UpdatedAt := n\<rparr> else u) us = us"
      by (auto intro: map_idI)
    have "\<forall>x\<in>set us. toLower (u_Email x) \<noteq> toLower email"
      using Cons.prems(2) True rest by (auto simp: emailTaken_def list_ex_iff)
    with Cons.prems(1,3) True same show ?thesis by (auto simp: users_inv_def image_iff)
  next
    case False
    with Cons.prems IH show ?thesis
      by (auto simp: users_inv_def emailTaken_def list_ex_iff image_iff split: if_splits)
  qed
qed (simp add: users_inv_def)

text \<open>One step of any client of the store: some operation of it, successful or not, in any of the
  environments \<open>Es\<close> (the clocks move, and calls may fail at one time and not at another).\<close>

inductive user_step :: "'k env set \<Rightarrow> tx \<Rightarrow> tx \<Rightarrow> bool" for Es where
  create: "E \<in> Es \<Longrightarrow> user_step Es t (fst (UserCreate E email pw role f t))"
| increment: "E \<in> Es \<Longrightarrow> user_step Es t (fst (IncrementFailedLogins E uid threshold secs t))"
| reset: "E \<in> Es \<Longrightarrow> user_step Es t (fst (ResetFailedLogins E uid t))"
| clear: "E \<in> Es \<Longrightarrow> user_step Es t (fst (ClearLockoutForPasswordChange E uid t))"
| update: "E \<in> Es \<Longrightarrow> user_step Es t (fst (UserUpdate E uid email role t))"
| status: "E \<in> Es \<Longrightarrow> user_step Es t (fst (UserSetStatus E uid st t))"
| delete: "E \<in> Es \<Longrightarrow> user_step Es t (fst (UserDelete E uid t))"
| password: "E \<in> Es \<Longrightarrow> user_step Es t (fst (SetPasswordHash E uid hash f t))"
| enrol: "E \<in> Es \<Longrightarrow> user_step Es t (fst (SetTOTPEnrolled E uid sec t))"
| clearTOTP: "E \<in> Es \<Longrightarrow> user_step Es t (fst (ClearTOTP E uid t))"
| advance: "E \<in> Es \<Longrightarrow> user_step Es t (fst (AdvanceTOTPCounter E uid counter t))"
| login: "E \<in> Es \<Longrightarrow> user_step Es t (fst (SetLastLoginAt E uid t))"
| byEmail: "E \<in> Es \<Longrightarrow> user_step Es t (fst (UserGetByEmail E email t))"
| byID: "E \<in> Es \<Longrightarrow> user_step Es t (fst (UserGetByID E site uid t))"
| listing: "E \<in> Es \<Longrightarrow> user_step Es t (fst (UserList E params t))"
| email: "E \<in> Es \<Longrightarrow> user_step Es t (fst (GetEmail E uid t))"

lemma stmt_users_inv:
  assumes "users_inv (db_users (tx_db t))"
    and "\<And>d r. f (tx_db t) = Inr (d, r) \<Longrightarrow> users_inv (db_users d)"
  shows "users_inv (db_users (tx_db (fst (stmt E site f t))))"
  using stmt_db [of E site f t] assms by metis

lemma updUsers_step:
  assumes "users_inv (db_users (tx_db t))"
    and "\<And>u. u_ID (g u) = u_ID u \<and> u_Email (g u) = u_Email u \<and> u_Role (g u) = u_Role u \<and> u_Status (g u) = u_Status u"
  shows "users_inv (db_users (tx_db (fst (stmt E site (\<lambda>d. Inr (updUsers p g d)) t))))"
proof (rule stmt_users_inv [OF assms(1)])
  fix d r
  assume "Inr (updUsers p g (tx_db t)) = (Inr (d, r) :: err + db \<times> nat)"
  then have "d = fst (updUsers p g (tx_db t))" by simp
  with users_inv_updUsers [OF assms(1), of g p] assms(2) show "users_inv (db_users d)" by simp
qed

lemma UserCreate_inv:
  assumes "users_inv (db_users (tx_db t))"
  shows "users_inv (db_users (tx_db (fst (UserCreate E email pw role f t))))"
  unfolding UserCreate_def
proof (rule stmt_users_inv [OF assms])
  fix d r
  assume "(let uid = e_new_uuid E ''users.id'' in
      if \<not> roleOk role then Inl ErrDB
      else if emailTaken email (db_users (tx_db t)) \<or> list_ex (\<lambda>u. u_ID u = uid) (db_users (tx_db t)) then Inl ErrUnique
      else Inr ((tx_db t)\<lparr>db_users := db_users (tx_db t) @
             [\<lparr>u_ID = uid, u_Email = email, u_PasswordHash = pw, u_Role = role,
               u_Status = ''active'', u_ForcePasswordChange = f,
               u_TOTPSecretEncrypted = None, u_TOTPEnrolledAt = None, u_FailedLoginAttempts = 0,
               u_LockedUntil = None, u_LastUsedTOTPCounter = 0, u_LastLoginAt = None,
               u_CreatedAt = e_pg_now E, u_UpdatedAt = e_pg_now E\<rparr>]\<rparr>, uid)) = Inr (d, r)"
  with assms show "users_inv (db_users d)"
    by (fastforce simp: users_inv_def Let_def emailTaken_def list_ex_iff image_iff statusOk_def split: if_splits)
qed

lemma UserUpdate_inv:
  assumes "users_inv (db_users (tx_db t))"
  shows "users_inv (db_users (tx_db (fst (UserUpdate E uid email role t))))"
  unfolding UserUpdate_def fst_wrappers
  by (rule stmt_users_inv [OF assms])
     (use assms users_inv_rename in \<open>auto simp: updUsers_def split: if_splits\<close>)

lemma UserSetStatus_inv:
  assumes "users_inv (db_users (tx_db t))"
  shows "users_inv (db_users (tx_db (fst (UserSetStatus E uid st t))))"
  unfolding UserSetStatus_def fst_wrappers
proof (rule stmt_users_inv [OF assms])
  fix d r
  let ?us = "db_users (tx_db t)"
  assume *: "(if \<not> statusOk st \<and> list_ex (\<lambda>u. u_ID u = uid) ?us then Inl ErrDB
      else Inr (updUsers (\<lambda>u. u_ID u = uid) (\<lambda>u. u\<lparr>u_Status := st, u_UpdatedAt := e_pg_now E\<rparr>) (tx_db t))) = Inr (d, r)"
  then have "db_users d = map (\<lambda>u. if u_ID u = uid then u\<lparr>u_Status := st, u_UpdatedAt := e_pg_now E\<rparr> else u) ?us"
    by (auto simp: updUsers_def split: if_splits)
  moreover have "statusOk st" if "u \<in> set ?us" "u_ID u = uid" for u
    using * that by (auto simp: list_ex_iff split: if_splits)
  moreover have "statusOk (u_Status u)" if "u \<in> set ?us" for u
    using assms that by (simp add: users_inv_def list_all_iff)
  ultimately show "users_inv (db_users d)" using users_inv_map [OF assms] by auto
qed

lemma UserDelete_inv:
  assumes "users_inv (db_users (tx_db t))"
  shows "users_inv (db_users (tx_db (fst (UserDelete E uid t))))"
  unfolding UserDelete_def fst_wrappers
  by (rule stmt_users_inv [OF assms])
     (use assms users_inv_filter in \<open>auto split: if_splits\<close>)

lemma IncrementFailedLogins_inv:
  assumes "users_inv (db_users (tx_db t))"
  shows "users_inv (db_users (tx_db (fst (IncrementFailedLogins E uid th secs t))))"
  unfolding IncrementFailedLogins_def fst_wrappers
  by (rule stmt_users_inv [OF assms])
     (use assms in \<open>auto simp: Let_def countFailure_def intro!: users_inv_updUsers split: option.splits if_splits\<close>)

lemma UserList_inv: "tx_db (fst (UserList E params t)) = tx_db t"
  using stmt_db by (auto simp: UserList_def Let_def stmt_def)

lemma user_step_inv:
  "user_step Es t t' \<Longrightarrow> users_inv (db_users (tx_db t)) \<Longrightarrow> users_inv (db_users (tx_db t'))"
proof (induction rule: user_step.induct)
  case create then show ?case by (simp add: UserCreate_inv)
next
  case increment then show ?case by (simp add: IncrementFailedLogins_inv)
next
  case update then show ?case by (simp add: UserUpdate_inv)
next
  case status then show ?case by (simp add: UserSetStatus_inv)
next
  case delete then show ?case by (simp add: UserDelete_inv)
qed (simp_all add: ResetFailedLogins_def ClearLockoutForPasswordChange_def SetPasswordHash_def
    SetTOTPEnrolled_def ClearTOTP_def AdvanceTOTPCounter_def SetLastLoginAt_def UserGetByEmail_def
    UserGetByID_def GetEmail_def UserList_inv updUsers_step)

text \<open>Whatever sequence of store operations runs, successful or failing, the users table keeps its
  invariant: ids and lower-cased e-mail addresses are unique, and every role and status is one of
  the allowed values.\<close>

lemma users_inv_reachable:
  assumes "(user_step Es)\<^sup>*\<^sup>* t t'" and "users_inv (db_users (tx_db t))"
  shows "users_inv (db_users (tx_db t'))"
  using assms by (induction rule: rtranclp_induct) (auto intro: user_step_inv)

section \<open>Lockout\<close>

lemma find_by_id:
  assumes "users_inv us" and "u \<in> set us"
  shows "find (\<lambda>x. u_ID x = u_ID u \<and> P x) us = (if P u then Some u else None)"
proof -
  have uniq: "x = u" if "x \<in> set us" "u_ID x = u_ID u" for x
    using assms that by (auto simp: users_inv_def distinct_map inj_on_def)
  show ?thesis
  proof (cases "P u")
    case True
    have "find (\<lambda>x. u_ID x = u_ID u \<and> P x) us = Some u"
      using True assms(2) uniq by (induction us) auto
    with True show ?thesis by simp
  next
    case False
    then show ?thesis using uniq by (auto simp: find_None_iff)
  qed
qed

lemma updUsers_none: "\<forall>u\<in>set (db_users d). \<not> p u \<Longrightarrow> updUsers p f d = (d, 0)"
  by (simp add: updUsers_def map_idI filter_False)

text \<open>Account lockout: on an account that is not locked a failed attempt is counted, and it locks
  the account, for the configured duration from now, exactly when the count reaches the
  threshold; on a locked account neither a further failure nor a successful login's reset changes
  anything, so a lock stays for its full duration.\<close>

lemma lockout:
  assumes inv: "users_inv (db_users (tx_db t))" and u: "u \<in> set (db_users (tx_db t))"
    and up: "\<not> tx_aborted t" "\<not> e_pg_fails E (PQuery ''users.IncrementFailedLogins'')"
      "\<not> e_pg_fails E (PQuery ''users.ResetFailedLogins'')"
    and rng: "u_FailedLoginAttempts u + 1 < 2 ^ 31" "0 < secs"
  shows "if notLocked E u
    then snd (IncrementFailedLogins E (u_ID u) threshold secs t)
           = Inr (u_FailedLoginAttempts u + 1, threshold \<le> u_FailedLoginAttempts u + 1) \<and>
         (\<exists>u' \<in> set (db_users (tx_db (fst (IncrementFailedLogins E (u_ID u) threshold secs t)))).
            u_ID u' = u_ID u \<and> u_FailedLoginAttempts u' = u_FailedLoginAttempts u + 1 \<and>
            (threshold \<le> u_FailedLoginAttempts u + 1 \<longrightarrow>
               u_LockedUntil u' = Some (e_pg_now E + secs * second)))
    else IncrementFailedLogins E (u_ID u) threshold secs t = (t, Inl ErrAlreadyLocked) \<and>
         ResetFailedLogins E (u_ID u) t = (t, Inl ErrAlreadyLocked)"
proof -
  let ?hit = "\<lambda>x. u_ID x = u_ID u \<and> notLocked E x"
  have f: "find ?hit (db_users (tx_db t)) = (if notLocked E u then Some u else None)"
    by (rule find_by_id [OF inv u])
  show ?thesis
  proof (cases "notLocked E u")
    case True
    let ?u = "countFailure E threshold secs u"
    let ?r = "IncrementFailedLogins E (u_ID u) threshold secs t"
    have r: "?r = (t\<lparr>tx_db := fst (updUsers ?hit (countFailure E threshold secs) (tx_db t))\<rparr>,
        Inr (u_FailedLoginAttempts u + 1,
             case u_LockedUntil ?u of None \<Rightarrow> False | Some l \<Rightarrow> e_pg_now E < l))"
      using True f up rng(1)
      by (simp add: IncrementFailedLogins_def needOne_def stmt_def Let_def countFailure_def)
    have "?u \<in> set (db_users (tx_db (fst ?r)))"
      using u True by (force simp: r updUsers_def)
    moreover have "(case u_LockedUntil ?u of None \<Rightarrow> False | Some l \<Rightarrow> e_pg_now E < l)
        = (threshold \<le> u_FailedLoginAttempts u + 1)"
      using True rng(2) by (auto simp: countFailure_def notLocked_def second_def split: option.splits)
    ultimately show ?thesis
      using True r by (auto simp: countFailure_def intro!: bexI [of _ ?u])
  next
    case False
    with f have "\<forall>x\<in>set (db_users (tx_db t)). \<not> ?hit x" by (auto simp: find_None_iff)
    with False f up show ?thesis
      by (simp add: IncrementFailedLogins_def ResetFailedLogins_def needOne_def needRow_def stmt_def updUsers_none)
  qed
qed

definition sampleUser :: User where
  "sampleUser = \<lparr>u_ID = 7, u_Email = ''ada@example.org'', u_PasswordHash = ''h'', u_Role = ''user'',
     u_Status = ''active'', u_ForcePasswordChange = False, u_TOTPSecretEncrypted = None,
     u_TOTPEnrolledAt = None, u_FailedLoginAttempts = 4, u_LockedUntil = None,
     u_LastUsedTOTPCounter = 0, u_LastLoginAt = None, u_CreatedAt = 0, u_UpdatedAt = 0\<rparr>"

lemma lockout_witness:
  "snd (IncrementFailedLogins sampleEnv 7 5 900 (pool (emptyDB\<lparr>db_users := [sampleUser]\<rparr>))) = Inr (5, True)"
  using lockout [of "pool (emptyDB\<lparr>db_users := [sampleUser]\<rparr>)" sampleUser sampleEnv 900 5]
  by (simp add: users_inv_def sampleUser_def roleOk_def statusOk_def sampleEnv_def notLocked_def)

text \<open>The counter survives the lock: once a lock has expired, with the count at the threshold, a single
  failed attempt locks the account again.\<close>

lemma expired_lock_relocks:
  assumes "users_inv (db_users (tx_db t))" and "u \<in> set (db_users (tx_db t))"
    and "\<not> tx_aborted t" and "\<not> e_pg_fails E (PQuery ''users.IncrementFailedLogins'')"
    and "u_LockedUntil u = Some l" and "l < e_pg_now E" and "threshold \<le> u_FailedLoginAttempts u"
    and "u_FailedLoginAttempts u + 1 < 2 ^ 31" and "0 < secs"
  shows "snd (IncrementFailedLogins E (u_ID u) threshold secs t) = Inr (u_FailedLoginAttempts u + 1, True)"
  using assms find_by_id [OF assms(1,2), of "notLocked E"]
  by (simp add: IncrementFailedLogins_def needOne_def stmt_def Let_def countFailure_def notLocked_def second_def)

section \<open>The search pattern\<close>

lemma ilike_escaped:
  "ilike (likeEscape p @ ps) s \<longleftrightarrow>
     toLower (take (length p) s) = toLower p \<and> ilike ps (drop (length p) s)"
proof (induction p arbitrary: s)
  case Nil
  then show ?case by (simp add: toLower_def)
next
  case (Cons c p)
  then show ?case
    by (cases s) (auto simp: toLower_def bslash_def)
qed

lemma ilike_percent: "ilike (CHR ''%'' # ps) s \<longleftrightarrow> (\<exists>a b. s = a @ b \<and> ilike ps b)"
proof (induction s)
  case (Cons c s)
  then show ?case by (auto simp: Cons_eq_append_conv)
qed simp

lemma all_match: "ilike ''%'' s"
  by (simp only: ilike_percent) simp

lemma contains_iff: "contains s p \<longleftrightarrow> (\<exists>a b. s = a @ p @ b)"
proof (induction s)
  case (Cons c s)
  have "hasPrefix (c # s) p \<longleftrightarrow> (\<exists>b. c # s = p @ b)" by (simp add: hasPrefix_iff)
  with Cons show ?case by (auto simp: Cons_eq_append_conv)
qed auto

text \<open>C38. User search: the escaped \<open>ILIKE\<close> pattern matches an e-mail address exactly when the search
  text occurs in it, ignoring case; a percent sign, an underscore or a backslash in the search
  text stands for itself.\<close>

theorem search_literal:
  "ilike (searchPattern search) email \<longleftrightarrow> contains (toLower email) (toLower search)"
proof -
  have "ilike (searchPattern search) email \<longleftrightarrow>
      (\<exists>a b. email = a @ b \<and> toLower (take (length search) b) = toLower search)"
    unfolding searchPattern_def append_Cons append_Nil ilike_percent [of "likeEscape search @ ''%''"] ilike_escaped
    by (simp only: all_match simp_thms)
  also have "\<dots> \<longleftrightarrow> (\<exists>a b. toLower email = a @ toLower search @ b)"
  proof
    assume "\<exists>a b. email = a @ b \<and> toLower (take (length search) b) = toLower search"
    then obtain a b where "email = a @ b" "toLower (take (length search) b) = toLower search" by blast
    then have "toLower email = toLower a @ toLower search @ toLower (drop (length search) b)"
      by (metis append_take_drop_id map_append toLower_def)
    then show "\<exists>a b. toLower email = a @ toLower search @ b" by blast
  next
    assume "\<exists>a b. toLower email = a @ toLower search @ b"
    then obtain a b where ab: "toLower email = a @ toLower search @ b" by blast
    then have "toLower (take (length search) (drop (length a) email)) = toLower search"
      by (simp add: toLower_def take_map [symmetric] drop_map [symmetric])
    then show "\<exists>a b. email = a @ b \<and> toLower (take (length search) b) = toLower search"
      by (metis append_take_drop_id)
  qed
  finally show ?thesis by (simp add: contains_iff)
qed

end
