(* ===== verification/Handlers.thy ===== *)
theory Handlers
  imports UserStore
begin

text \<open>
  The shape the administration handlers share. Go returns early from the handler, and the
  deferred \<open>Rollback\<close> drops what the transaction did; here a step that may stop the handler is a
  value of a sum type, with the response on the left, and \<open>inTx\<close> runs such steps between
  \<open>pool.Begin\<close> and \<open>Commit\<close>. Whatever the body does, the database afterwards is either the one
  before or the one the body left behind, and in the second case all its statements succeeded.

  The locale \<open>audited_body\<close> is the contract of such a body: it writes its audit rows in the same
  transaction and keeps an invariant, so no change is committed without its trace.
\<close>

section \<open>Early returns\<close>

definition orReturn :: "'s \<Rightarrow> 'r + 'a \<Rightarrow> ('a \<Rightarrow> 's \<times> 'r) \<Rightarrow> 's \<times> 'r" where
  "orReturn s x k = (case x of Inl r \<Rightarrow> (s, r) | Inr v \<Rightarrow> k v)"

definition attempt :: "tx \<times> ('e + 'a) \<Rightarrow> ('e \<Rightarrow> 'r) \<Rightarrow> (tx \<Rightarrow> 'a \<Rightarrow> 'r + 'c) \<Rightarrow> 'r + 'c" where
  "attempt r onErr k = (case r of (t, Inl e) \<Rightarrow> Inl (onErr e) | (t, Inr x) \<Rightarrow> k t x)"

definition inTx
  :: "'k env \<Rightarrow> string \<Rightarrow> (tx \<Rightarrow> 'b response + tx \<times> 'a) \<Rightarrow> db \<Rightarrow> db \<times> ('b response + 'a)" where
  "inTx E site f d =
     (case beginTx E site d of
        None \<Rightarrow> (d, Inl internalError)
      | Some t \<Rightarrow>
          (case f t of
             Inl r \<Rightarrow> (d, Inl r)
           | Inr (t', a) \<Rightarrow>
               (case commitTx E site t' d of
                  (d', False) \<Rightarrow> (d', Inl internalError)
                | (d', True) \<Rightarrow> (d', Inr a))))"

text \<open>Every error other than a named one is answered with a 500.\<close>

definition fail500 :: "err \<Rightarrow> 'b response" where
  "fail500 e = internalError"

text \<open>The entry an administrator's action writes about a target.\<close>

definition adminEntry
  :: "'k env \<Rightarrow> request \<Rightarrow> string \<Rightarrow> User \<Rightarrow> string \<Rightarrow> uuid \<Rightarrow> (string \<times> metaval) list \<Rightarrow> Entry" where
  "adminEntry E req event actor targetType target meta =
     \<lparr>en_EventType = event, en_ActorID = Some (u_ID actor), en_ActorEmail = u_Email actor,
      en_TargetType = targetType, en_TargetID = e_uuid_string E target, en_ClientID = None,
      en_IPAddress = clientIP E req, en_Outcome = ''success'', en_Metadata = Some meta\<rparr>"

section \<open>Laws\<close>

lemma attempt_Inr:
  "attempt r h k = Inr c \<longleftrightarrow> (\<exists>t x. r = (t, Inr x) \<and> k t x = Inr c)"
  by (auto simp: attempt_def split: prod.splits sum.splits)

lemma inTx_Inr:
  "inTx E site f d = (d', Inr a) \<longleftrightarrow>
     \<not> e_pg_fails E (PBegin site) \<and> \<not> e_pg_fails E (PCommit site) \<and>
     (\<exists>t. f (pool d) = Inr (t, a) \<and> \<not> tx_aborted t \<and> d' = tx_db t)"
  by (auto simp: inTx_def beginTx_def pool_def commitTx_def split: sum.splits prod.splits if_splits)

lemma inTx_Inl: "inTx E site f d = (d', Inl r) \<Longrightarrow> d' = d"
  by (auto simp: inTx_def beginTx_def commitTx_def split: sum.splits prod.splits if_splits option.splits)

text \<open>All or nothing.\<close>

lemma inTx_cases:
  assumes "inTx E site f d = (d', r)"
  obtains (rolled_back) resp where "r = Inl resp" "d' = d"
  | (committed) t a where "r = Inr a" "f (pool d) = Inr (t, a)" "\<not> tx_aborted t" "d' = tx_db t"
proof (cases r)
  case (Inl resp)
  with assms inTx_Inl that(1) show ?thesis by blast
next
  case (Inr a)
  with assms that(2) show ?thesis by (auto simp: inTx_Inr)
qed

text \<open>What the entry becomes in the table.\<close>

lemma adminEntry_row:
  "auditRow E cid (adminEntry E req event actor ty tid meta) =
     \<lparr>al_EventType = event, al_ActorID = Some (u_ID actor), al_ActorEmail = u_Email actor, al_TargetType = ty,
      al_TargetID = e_uuid_string E tid, al_ClientID = None,
      al_IPAddress = (if clientIP E req = [] then None else Some (clientIP E req)), al_Outcome = ''success'',
      al_Metadata = Some (if cid \<noteq> [] then metaPut ''correlation_id'' (MStr cid) meta else meta),
      al_CreatedAt = e_pg_now E\<rparr>"
  by (simp add: auditRow_def adminEntry_def)

section \<open>The contract of a transaction body\<close>

fun failure :: "'b response \<Rightarrow> bool" where
  "failure (WriteError s c m) = True"
| "failure PanicNil = True"
| "failure _ = False"

lemma failures [simp]: "failure internalError" "failure (fail500 e)"
  by (auto simp: internalError_def fail500_def)

lemma attempt_Inl:
  "attempt r h k = Inl x \<longleftrightarrow> (\<exists>t e. r = (t, Inl e) \<and> x = h e) \<or> (\<exists>t y. r = (t, Inr y) \<and> k t y = Inl x)"
  by (auto simp: attempt_def split: prod.splits sum.splits)

text \<open>A row written by this caller for a successful action, and a log that has grown by such rows
  (the old rows keep their place; one operation pseudonymises them).\<close>

definition actedAs :: "User \<Rightarrow> audit_row \<Rightarrow> bool" where
  "actedAs current r = (al_ActorID r = Some (u_ID current) \<and> al_ActorEmail r = u_Email current \<and> al_Outcome r = ''success'')"

definition grown :: "User \<Rightarrow> audit_row list \<Rightarrow> audit_row list \<Rightarrow> bool" where
  "grown current logs logs' =
     (\<exists>old new. logs' = old @ new \<and> map al_EventType old = map al_EventType logs \<and> new \<noteq> [] \<and> list_all (actedAs current) new)"

lemma grown_one: "actedAs c r \<Longrightarrow> map al_EventType old = map al_EventType logs \<Longrightarrow> grown c logs (old @ [r])"
  unfolding grown_def by (intro exI [of _ old] exI [of _ "[r]"]) simp

lemma grown_two:
  "actedAs c r \<Longrightarrow> actedAs c r' \<Longrightarrow> map al_EventType old = map al_EventType logs \<Longrightarrow> grown c logs (old @ [r, r'])"
  unfolding grown_def by (intro exI [of _ old] exI [of _ "[r, r']"]) simp

text \<open>\<open>body\<close> is what a handler does for \<open>actor\<close> between \<open>Begin\<close> and \<open>Commit\<close>: when it stops early it
  answers with a failure, when it runs to its end it has written audit rows, and it keeps the
  invariant \<open>keeps\<close>.\<close>

locale audited_body =
  fixes body :: "tx \<Rightarrow> 'b response + tx \<times> 'a"
    and actor :: User
    and keeps :: "db \<Rightarrow> bool"
  assumes stops: "body t = Inl r \<Longrightarrow> failure r"
    and logs: "body t = Inr (t', a) \<Longrightarrow> grown actor (db_audit_logs (tx_db t)) (db_audit_logs (tx_db t'))"
    and kept: "body t = Inr (t', a) \<Longrightarrow> keeps (tx_db t) \<Longrightarrow> keeps (tx_db t')"
begin

text \<open>A failed call changes nothing; a successful one has left its audit rows in the same commit.\<close>

lemma run:
  assumes "inTx E site body d = (d', r)"
  obtains (rolled_back) resp where "r = Inl resp" "failure resp" "d' = d"
  | (ran) t a where "r = Inr a" "body (pool d) = Inr (t, a)" "\<not> tx_aborted t" "d' = tx_db t"
      "grown actor (db_audit_logs d) (db_audit_logs d')"
proof (cases r)
  case (Inl resp)
  have "failure resp"
    using assms Inl stops by (auto simp: inTx_def split: option.splits sum.splits prod.splits bool.splits)
  with Inl assms inTx_Inl that(1) show ?thesis by blast
next
  case (Inr a)
  with assms obtain t where "body (pool d) = Inr (t, a)" "\<not> tx_aborted t" "d' = tx_db t" by (auto simp: inTx_Inr)
  with Inr logs [of "pool d"] that(2) show ?thesis by auto
qed

lemma run_keeps: "inTx E site body d = (d', r) \<Longrightarrow> keeps d \<Longrightarrow> keeps d'"
  using kept by (auto elim!: run)

lemma run_audited:
  "inTx E site body d = (d', r) \<Longrightarrow> d' = d \<or> grown actor (db_audit_logs d) (db_audit_logs d')"
  by (auto elim!: run)

end

end
