(* ===== verification/Crypto.thy ===== *)
theory Crypto
  imports Services
begin

text \<open>
  Package \<^verbatim>\<open>internal/crypto\<close>: the versioned envelope encryption of \<^verbatim>\<open>encryption.go\<close>, the
  password hashes in PHC format and the temporary passwords of \<^verbatim>\<open>password.go\<close>, the one-time
  codes of \<^verbatim>\<open>totp.go\<close>, the recovery codes, the random tokens, the token digests and the
  breach check. AES-GCM, Argon2id, SHA-1, HMAC and the one-time password algorithm are
  arguments, reached through the environment.
\<close>

section \<open>Envelope encryption\<close>

definition formatVersionV1 :: char where "formatVersionV1 = CHR 0x01"
definition nonceSize :: nat where "nonceSize = 12"
definition tagSize :: nat where "tagSize = 16"
definition dekSize :: nat where "dekSize = 32"
definition wrappedDEKSize :: nat where "wrappedDEKSize = nonceSize + dekSize + tagSize"
definition v1MinSize :: nat where "v1MinSize = 1 + wrappedDEKSize + nonceSize + tagSize"

lemmas sizes = nonceSize_def tagSize_def dekSize_def wrappedDEKSize_def v1MinSize_def

text \<open>\<open>aes.NewCipher\<close> accepts keys of 16, 24 and 32 bytes.\<close>

definition newGCM :: "bytes \<Rightarrow> bool" where
  "newGCM key = (length key \<in> {16, 24, 32})"

definition sealAESGCM :: "'k env \<Rightarrow> string \<Rightarrow> bytes \<Rightarrow> bytes \<Rightarrow> bytes \<Rightarrow> bytes option" where
  "sealAESGCM E site plaintext key aad =
     (if \<not> newGCM key then None
      else case e_rand E site 0 nonceSize of
        None \<Rightarrow> None
      | Some nonce \<Rightarrow> Some (nonce @ e_gcm_seal E key nonce plaintext aad))"

definition openAESGCM :: "'k env \<Rightarrow> bytes \<Rightarrow> bytes \<Rightarrow> bytes \<Rightarrow> bytes option" where
  "openAESGCM E blob key aad =
     (if \<not> newGCM key then None
      else if length blob < nonceSize + tagSize then None
      else e_gcm_open E key (take nonceSize blob) (drop nonceSize blob) aad)"

definition Encrypt :: "'k env \<Rightarrow> bytes \<Rightarrow> bytes \<Rightarrow> bytes \<Rightarrow> bytes option" where
  "Encrypt E plaintext kek aad =
     (if length kek \<noteq> 32 then None
      else case e_rand E ''dek'' 0 dekSize of
        None \<Rightarrow> None
      | Some dek \<Rightarrow>
          (case sealAESGCM E ''nonce.dek'' dek kek aad of
             None \<Rightarrow> None
           | Some wrappedDEK \<Rightarrow>
               (case sealAESGCM E ''nonce.data'' plaintext dek aad of
                  None \<Rightarrow> None
                | Some sealedData \<Rightarrow> Some (formatVersionV1 # wrappedDEK @ sealedData))))"

definition decryptV1 :: "'k env \<Rightarrow> bytes \<Rightarrow> bytes \<Rightarrow> bytes \<Rightarrow> bytes option" where
  "decryptV1 E ciphertext kek aad =
     (if length ciphertext < v1MinSize \<or> hd ciphertext \<noteq> formatVersionV1 then None
      else (let wrappedDEK = take wrappedDEKSize (drop 1 ciphertext);
                sealedData = drop (1 + wrappedDEKSize) ciphertext
            in case openAESGCM E wrappedDEK kek aad of
                 None \<Rightarrow> None
               | Some dek \<Rightarrow> openAESGCM E sealedData dek aad))"

definition decryptLegacy :: "'k env \<Rightarrow> bytes \<Rightarrow> bytes \<Rightarrow> bytes option" where
  "decryptLegacy E ciphertext kek = openAESGCM E ciphertext kek []"

definition Decrypt :: "'k env \<Rightarrow> bytes \<Rightarrow> bytes \<Rightarrow> bytes \<Rightarrow> bytes option" where
  "Decrypt E ciphertext kek aad =
     (if length kek \<noteq> 32 then None
      else case decryptV1 E ciphertext kek aad of
        Some pt \<Rightarrow> Some pt
      | None \<Rightarrow> decryptLegacy E ciphertext kek)"

section \<open>Passwords\<close>

definition argon2Memory :: nat where "argon2Memory = 19 * 1024"
definition argon2Iterations :: nat where "argon2Iterations = 2"
definition argon2Parallelism :: nat where "argon2Parallelism = 1"
definition argon2SaltLength :: nat where "argon2SaltLength = 16"
definition argon2KeyLength :: nat where "argon2KeyLength = 32"
definition argon2Version :: nat where "argon2Version = 19"

lemmas argon2_consts = argon2Memory_def argon2Iterations_def argon2Parallelism_def
  argon2SaltLength_def argon2KeyLength_def argon2Version_def

definition phcEncode :: "bytes \<Rightarrow> bytes \<Rightarrow> string" where
  "phcEncode salt h =
     ''$argon2id$v='' @ showNat argon2Version @ ''$m='' @ showNat argon2Memory @
     '',t='' @ showNat argon2Iterations @ '',p='' @ showNat argon2Parallelism @
     ''$'' @ base64RawStd salt @ ''$'' @ base64RawStd h"

definition HashPassword :: "'k env \<Rightarrow> string \<Rightarrow> nat \<Rightarrow> string \<Rightarrow> string option" where
  "HashPassword E site draw password =
     (case e_rand E site draw argon2SaltLength of
        None \<Rightarrow> None
      | Some salt \<Rightarrow>
          Some (phcEncode salt (e_argon2id E password salt argon2Iterations argon2Memory
                                  argon2Parallelism argon2KeyLength)))"

record phc =
  phc_salt :: bytes
  phc_hash :: bytes
  phc_memory :: nat
  phc_iterations :: nat
  phc_parallelism :: nat
  phc_keyLength :: nat

text \<open>\<open>fmt.Sscanf(s, "m=%d,t=%d,p=%d", &m, &t, &p)\<close> for two \<open>uint32\<close> and a \<open>uint8\<close>.\<close>

definition scanParams :: "string \<Rightarrow> (nat \<times> nat \<times> nat) option" where
  "scanParams s =
     (case scanLit ''m='' s of None \<Rightarrow> None | Some s1 \<Rightarrow>
      case scanUint 32 s1 of None \<Rightarrow> None | Some (m, s2) \<Rightarrow>
      case scanLit '',t='' s2 of None \<Rightarrow> None | Some s3 \<Rightarrow>
      case scanUint 32 s3 of None \<Rightarrow> None | Some (t, s4) \<Rightarrow>
      case scanLit '',p='' s4 of None \<Rightarrow> None | Some s5 \<Rightarrow>
      case scanUint 8 s5 of None \<Rightarrow> None | Some (p, _) \<Rightarrow> Some (m, t, p))"

text \<open>\<open>%d\<close> into an \<open>int\<close>: an optional sign before the digits.\<close>

definition scanVersion :: "string \<Rightarrow> bool" where
  "scanVersion s =
     (case scanLit ''v='' s of None \<Rightarrow> False | Some s1 \<Rightarrow>
        (let s2 = dropWhile (\<lambda>c. isSpaceByte c \<and> c \<noteq> CHR 0x0A) s1;
             signed = (s2 \<noteq> [] \<and> (hd s2 = CHR ''+'' \<or> hd s2 = CHR ''-''));
             ds = takeWhile isDigitByte (if signed then tl s2 else s2);
             limit = (if signed \<and> hd s2 = CHR ''-'' then 2 ^ 63 + 1 else 2 ^ 63)
         in ds \<noteq> [] \<and> readNat ds < limit))"

definition parsePHC :: "string \<Rightarrow> phc option" where
  "parsePHC encoded =
     (let parts = splitAll (CHR ''$'') encoded
      in if length parts \<noteq> 6 then None
         else if parts ! 1 \<noteq> ''argon2id'' then None
         else if \<not> scanVersion (parts ! 2) then None
         else case scanParams (parts ! 3) of
           None \<Rightarrow> None
         | Some (m, t, p) \<Rightarrow>
             (case b64DecodeRaw b64StdAlphabet (parts ! 4) of
                None \<Rightarrow> None
              | Some salt \<Rightarrow>
                  (case b64DecodeRaw b64StdAlphabet (parts ! 5) of
                     None \<Rightarrow> None
                   | Some h \<Rightarrow>
                       Some \<lparr>phc_salt = salt, phc_hash = h, phc_memory = m, phc_iterations = t,
                             phc_parallelism = p, phc_keyLength = length h mod 2 ^ 32\<rparr>)))"

definition VerifyPassword :: "'k env \<Rightarrow> string \<Rightarrow> string \<Rightarrow> bool option" where
  "VerifyPassword E password encodedHash =
     (case parsePHC encodedHash of
        None \<Rightarrow> None
      | Some p \<Rightarrow>
          Some (phc_hash p = e_argon2id E password (phc_salt p) (phc_iterations p)
                               (phc_memory p) (phc_parallelism p) (phc_keyLength p)))"

subsection \<open>Temporary passwords\<close>

definition tempPasswordAlphabet :: string where
  "tempPasswordAlphabet = ''23456789ABCDEFGHJKLMNPQRSTUVWXYZabcdefghijkmnopqrstuvwxyz''"

definition isUpperByte :: "char \<Rightarrow> bool" where
  "isUpperByte c = (65 \<le> (of_char c :: nat) \<and> (of_char c :: nat) \<le> 90)"

text \<open>The inner loop of one attempt: draws \<open>base + i\<close> for the remaining positions.\<close>

fun tempPasswordChars :: "'k env \<Rightarrow> nat \<Rightarrow> nat \<Rightarrow> string option" where
  "tempPasswordChars E draw 0 = Some []"
| "tempPasswordChars E draw (Suc n) =
     (case e_rand_int E ''tempPassword'' draw (length tempPasswordAlphabet) of
        None \<Rightarrow> None
      | Some i \<Rightarrow>
          (case tempPasswordChars E (Suc draw) n of
             None \<Rightarrow> None | Some cs \<Rightarrow> Some (tempPasswordAlphabet ! i # cs)))"

text \<open>The outer loop, with the number of attempts left.\<close>

fun tempPasswordAttempts :: "'k env \<Rightarrow> nat \<Rightarrow> nat \<Rightarrow> string option" where
  "tempPasswordAttempts E draw 0 = None"
| "tempPasswordAttempts E draw (Suc n) =
     (case tempPasswordChars E draw 16 of
        None \<Rightarrow> None
      | Some out \<Rightarrow>
          if list_ex isUpperByte out \<and> list_ex isDigitByte out then Some out
          else tempPasswordAttempts E (draw + 16) n)"

definition GenerateTemporaryPassword :: "'k env \<Rightarrow> string option" where
  "GenerateTemporaryPassword E = tempPasswordAttempts E 0 8"

section \<open>Recovery codes\<close>

definition recoveryCodeAlphabet :: string where
  "recoveryCodeAlphabet = ''23456789ABCDEFGHJKLMNPQRSTUVWXYZabcdefghijkmnopqrstuvwxyz''"

definition bigEndianUint32 :: "bytes \<Rightarrow> 32 word" where
  "bigEndianUint32 buf =
     of_nat (of_char (buf ! 0) * 16777216 + of_char (buf ! 1) * 65536
             + of_char (buf ! 2) * 256 + of_char (buf ! 3))"

fun codeHalf :: "32 word \<Rightarrow> nat \<Rightarrow> string" where
  "codeHalf raw 0 = []"
| "codeHalf raw (Suc n) =
     recoveryCodeAlphabet ! unat (raw mod of_nat (length recoveryCodeAlphabet))
     # codeHalf (raw div of_nat (length recoveryCodeAlphabet)) n"

definition randomRecoveryCode :: "'k env \<Rightarrow> nat \<Rightarrow> string option" where
  "randomRecoveryCode E draw =
     (case e_rand E ''recovery'' (2 * draw) 4 of
        None \<Rightarrow> None
      | Some b1 \<Rightarrow>
          (case e_rand E ''recovery'' (2 * draw + 1) 4 of
             None \<Rightarrow> None
           | Some b2 \<Rightarrow>
               Some (codeHalf (bigEndianUint32 b1) 4 @ ''-'' @ codeHalf (bigEndianUint32 b2) 4)))"

text \<open>The loop of \<open>GenerateRecoveryCodes\<close> draws until ten different codes are found, so it is
  modelled with fuel; \<open>None\<close> means it is still running, \<open>Some None\<close> that it returned an error.\<close>

fun recoveryLoop :: "'k env \<Rightarrow> nat \<Rightarrow> nat \<Rightarrow> string list \<Rightarrow> string list
    \<Rightarrow> (string list \<times> string list) option option" where
  "recoveryLoop E fuel draw plaintext hashes =
     (if length plaintext \<ge> 10 then Some (Some (plaintext, hashes))
      else case fuel of
        0 \<Rightarrow> None
      | Suc fuel' \<Rightarrow>
          (case randomRecoveryCode E draw of
             None \<Rightarrow> Some None
           | Some code \<Rightarrow>
               if code \<in> set plaintext then recoveryLoop E fuel' (Suc draw) plaintext hashes
               else (case HashPassword E ''recovery.salt'' draw code of
                       None \<Rightarrow> Some None
                     | Some h \<Rightarrow> recoveryLoop E fuel' (Suc draw) (plaintext @ [code]) (hashes @ [h]))))"

declare recoveryLoop.simps [simp del]

definition GenerateRecoveryCodes
  :: "'k env \<Rightarrow> nat \<Rightarrow> (string list \<times> string list) option option" where
  "GenerateRecoveryCodes E fuel = recoveryLoop E fuel 0 [] []"

section \<open>Tokens and one-time codes\<close>

definition RandomToken :: "'k env \<Rightarrow> string \<Rightarrow> nat \<Rightarrow> string option" where
  "RandomToken E site n = map_option base64RawURL (e_rand E site 0 n)"

definition HMACToken :: "'k env \<Rightarrow> string \<Rightarrow> bytes \<Rightarrow> bytes" where
  "HMACToken E plaintext pepper = e_hmac_sha256 E pepper plaintext"

text \<open>\<open>ValidateTOTP\<close>: \<open>None\<close> is the error of the library, \<open>Some None\<close> no match and
  \<open>Some (Some step)\<close> a match at that time step. Division of a positive clock truncates.\<close>

fun totpLoop :: "'k env \<Rightarrow> string \<Rightarrow> string \<Rightarrow> int \<Rightarrow> int \<Rightarrow> int list \<Rightarrow> int option option" where
  "totpLoop E code secret lastCounter currentStep [] = Some None"
| "totpLoop E code secret lastCounter currentStep (off # offs) =
     (let step = currentStep + off
      in if step \<le> lastCounter then totpLoop E code secret lastCounter currentStep offs
         else case e_totp_validate E code secret (fromUnix (step * 30)) of
           None \<Rightarrow> None
         | Some ok \<Rightarrow> if ok then Some (Some step)
                       else totpLoop E code secret lastCounter currentStep offs)"

definition ValidateTOTP :: "'k env \<Rightarrow> string \<Rightarrow> string \<Rightarrow> int \<Rightarrow> int option option" where
  "ValidateTOTP E code secret lastCounter =
     totpLoop E code secret lastCounter (Unix (e_go_now E) div 30) [0, -1, 1]"

text \<open>\<open>base32.StdEncoding\<close> without padding: five bytes are eight letters, a shorter tail is filled up
  with zero bits.\<close>

definition b32Alphabet :: string where
  "b32Alphabet = ''ABCDEFGHIJKLMNOPQRSTUVWXYZ234567''"

definition b32Group :: "bytes \<Rightarrow> string" where
  "b32Group xs =
     (let n = foldl (\<lambda>acc c. acc * 256 + of_char c) (0 :: nat) xs * 256 ^ (5 - length xs)
      in map (\<lambda>i. b32Alphabet ! (n div 32 ^ (7 - i) mod 32)) [0..<(8 * length xs + 4) div 5])"

function base32 :: "bytes \<Rightarrow> string" where
  "base32 xs = (if xs = [] then [] else b32Group (take 5 xs) @ base32 (drop 5 xs))"
  by pat_completeness auto

termination
  by (relation "measure length") simp_all

declare base32.simps [simp del]

definition totpSecretBytes :: nat where "totpSecretBytes = 20"

definition GenerateTOTPSecret :: "'k env \<Rightarrow> string option" where
  "GenerateTOTPSecret E = map_option base32 (e_rand E ''totp'' 0 totpSecretBytes)"

text \<open>\<open>url.Values\<close> is written out sorted by key.\<close>

definition BuildProvisionURI :: "'k env \<Rightarrow> string \<Rightarrow> string \<Rightarrow> string \<Rightarrow> string option" where
  "BuildProvisionURI E issuer accountEmail secretBase32 =
     (if issuer = [] \<or> accountEmail = [] \<or> secretBase32 = [] then None
      else Some (''otpauth://totp/'' @ e_url_pathEscape E (issuer @ '':'' @ accountEmail) @ ''?'' @
             e_url_encode E [(''algorithm'', ''SHA1''), (''digits'', ''6''), (''issuer'', issuer),
                             (''period'', ''30''), (''secret'', secretBase32)]))"

section \<open>The breach check\<close>

text \<open>The scan over the lines of the answer; \<open>strings.IndexByte\<close> finds the first colon.\<close>

fun hibpScan :: "string \<Rightarrow> string list \<Rightarrow> bool option" where
  "hibpScan suffix [] = None"
| "hibpScan suffix (l # ls) =
     (let line = trimSpace l
      in case splitOnce (CHR '':'') line of
           (pre, Some rest) \<Rightarrow>
             if pre \<noteq> [] \<and> equalFold pre suffix
             then Some (\<not> (trimSpace rest = [] \<or> trimSpace rest = ''0''))
             else hibpScan suffix ls
         | (_, None) \<Rightarrow> hibpScan suffix ls)"

text \<open>\<open>IsPwned\<close>: a nil checker (no endpoint) finds nothing; \<open>None\<close> is an error, on which
  callers let the password pass.\<close>

definition IsPwned :: "'k env \<Rightarrow> string option \<Rightarrow> string \<Rightarrow> bool option" where
  "IsPwned E checker password =
     (case checker of
        None \<Rightarrow> Some False
      | Some endpoint \<Rightarrow>
          (let full = toUpper (hexEncode (e_sha1 E password));
               prefix = take 5 full; suffix = drop 5 full
           in case e_hibp_get E (endpoint @ ''/'' @ prefix) of
                None \<Rightarrow> None
              | Some (status, body, readErr) \<Rightarrow>
                  if status \<noteq> 200 then None
                  else (case hibpScan suffix body of
                          Some b \<Rightarrow> Some b
                        | None \<Rightarrow> if readErr then None else Some False)))"

section \<open>The shared secret\<close>

lemma b32Alphabet_length [simp]: "length b32Alphabet = 32"
  by (simp add: b32Alphabet_def)

lemma b32Group_length: "length (b32Group xs) = (8 * length xs + 4) div 5"
  by (simp add: b32Group_def Let_def)

lemma b32Group_alphabet: "set (b32Group xs) \<subseteq> set b32Alphabet"
  unfolding b32Group_def Let_def set_map by (auto intro: nth_mem)

lemma base32_alphabet: "set (base32 xs) \<subseteq> set b32Alphabet"
proof (induction xs rule: base32.induct)
  case (1 xs)
  with b32Group_alphabet [of "take 5 xs"] show ?case by (subst base32.simps) simp
qed

lemma base32_length5: "length xs = 5 * n \<Longrightarrow> length (base32 xs) = 8 * n"
proof (induction n arbitrary: xs)
  case (Suc n)
  from Suc.prems have "length (take 5 xs) = 5" by simp
  with Suc.IH [of "drop 5 xs"] Suc.prems b32Group_length [of "take 5 xs"] show ?case
    by (subst base32.simps) auto
qed (simp add: base32.simps)

text \<open>A generated secret is never empty: it has thirty-two letters.\<close>

lemma GenerateTOTPSecret_length:
  "rand_laws E \<Longrightarrow> GenerateTOTPSecret E = Some secret \<Longrightarrow> length secret = 32"
  using base32_length5 [of _ 4] by (auto simp: GenerateTOTPSecret_def rand_laws_def totpSecretBytes_def)

section \<open>Correctness of the envelope\<close>

lemma gcm_lawsD:
  assumes "gcm_laws E" and "newGCM key" and "length nonce = 12"
  shows "e_gcm_open E key nonce (e_gcm_seal E key nonce pt aad) aad = Some pt"
    and "length (e_gcm_seal E key nonce pt aad) = length pt + 16"
  using assms unfolding gcm_laws_def newGCM_def by blast+

lemma seal_open:
  assumes "gcm_laws E" and "rand_laws E" and "sealAESGCM E site pt key aad = Some blob"
  shows "openAESGCM E blob key aad = Some pt \<and> length blob = length pt + 28"
proof -
  obtain nonce where n: "e_rand E site 0 12 = Some nonce" "newGCM key"
    and b: "blob = nonce @ e_gcm_seal E key nonce pt aad"
    using assms(3) by (auto simp: sealAESGCM_def nonceSize_def split: if_splits option.splits)
  then have "length nonce = 12" using assms(2) by (auto simp: rand_laws_def)
  with n b gcm_lawsD [OF assms(1) n(2)] show ?thesis
    by (simp add: openAESGCM_def sizes)
qed

lemma Encrypt_opens:
  assumes "gcm_laws E" and "rand_laws E" and "Encrypt E pt kek aad = Some ct"
  shows "Decrypt E ct kek aad = Some pt \<and> decryptV1 E ct kek aad = Some pt"
proof -
  obtain dek wrapped sealed where
    kek: "length kek = 32" and dek: "e_rand E ''dek'' 0 dekSize = Some dek" and
    w: "sealAESGCM E ''nonce.dek'' dek kek aad = Some wrapped" and
    s: "sealAESGCM E ''nonce.data'' pt dek aad = Some sealed" and
    ct: "ct = formatVersionV1 # wrapped @ sealed"
    using assms(3) by (auto simp: Encrypt_def split: if_splits option.splits)
  have "length dek = 32" using assms(2) dek by (auto simp: rand_laws_def dekSize_def)
  with seal_open [OF assms(1,2) w] seal_open [OF assms(1,2) s]
  have "openAESGCM E wrapped kek aad = Some dek" "length wrapped = 60"
    "openAESGCM E sealed dek aad = Some pt" "length sealed = length pt + 28"
    by simp_all
  then have "decryptV1 E ct kek aad = Some pt"
    by (simp add: decryptV1_def ct sizes Let_def)
  with kek show ?thesis by (simp add: Decrypt_def)
qed

text \<open>Envelope encryption round trip: whatever \<open>Encrypt\<close> returns, \<open>Decrypt\<close> with the same key
  and the same additional data gives the plain text back (the version 1 branch is taken; the
  legacy branch is never consulted).\<close>

lemma Decrypt_Encrypt:
  assumes "gcm_laws E" and "rand_laws E" and "Encrypt E pt kek aad = Some ct"
  shows "Decrypt E ct kek aad = Some pt \<and> decryptV1 E ct kek aad = Some pt"
  by (rule Encrypt_opens [OF assms])

text \<open>Binding to the additional data: a blob of \<open>Encrypt\<close> presented with other additional data
  is never opened by the version 1 branch, unless AES-GCM itself accepts the wrapped key under
  the other data.\<close>

lemma decryptV1_wrong_aad:
  assumes "rand_laws E" and "gcm_laws E" and "Encrypt E pt kek aad = Some ct"
    and reject: "\<And>nonce dek. length nonce = 12 \<Longrightarrow>
      e_gcm_open E kek nonce (e_gcm_seal E kek nonce dek aad) aad' = None"
  shows "decryptV1 E ct kek aad' = None"
proof -
  obtain dek wrapped sealed where
    kek: "length kek = 32" and dek: "e_rand E ''dek'' 0 dekSize = Some dek" and
    w: "sealAESGCM E ''nonce.dek'' dek kek aad = Some wrapped" and
    ct: "ct = formatVersionV1 # wrapped @ sealed"
    using assms(3) by (auto simp: Encrypt_def split: if_splits option.splits)
  have "length dek = 32" using assms(1) dek by (auto simp: rand_laws_def dekSize_def)
  with seal_open [OF assms(2,1) w] have len: "length wrapped = 60" by simp
  from w obtain nonce where "length nonce = 12" "wrapped = nonce @ e_gcm_seal E kek nonce dek aad"
    using assms(1) by (auto simp: sealAESGCM_def rand_laws_def nonceSize_def split: if_splits option.splits)
  then have "openAESGCM E wrapped kek aad' = None"
    using reject len by (simp add: openAESGCM_def sizes)
  then show ?thesis using len by (simp add: decryptV1_def ct sizes Let_def)
qed

lemma decryptV1_wrong_aad_witness:
  "decryptV1 sampleEnv (the (Encrypt sampleEnv ''totp'' (replicate 32 (CHR ''k'')) ''user:1''))
     (replicate 32 (CHR ''k'')) ''user:2'' = None"
proof -
  obtain ct where ct: "Encrypt sampleEnv ''totp'' (replicate 32 (CHR ''k'')) ''user:1'' = Some ct"
    by (simp add: Encrypt_def sealAESGCM_def newGCM_def sizes sampleEnv_def)
  have "decryptV1 sampleEnv ct (replicate 32 (CHR ''k'')) ''user:2'' = None"
    by (rule decryptV1_wrong_aad [OF sampleEnv_laws(2,1) ct]) (simp add: sampleEnv_def pad_def)
  with ct show ?thesis by simp
qed

section \<open>Correctness of the password hashes\<close>

lemma dollar_free_b64: "b64Alphabet A \<Longrightarrow> CHR ''$'' \<notin> set A \<Longrightarrow> CHR ''$'' \<notin> set (b64Raw A b)"
  using b64Nums_bound [of b]
  by (auto simp: b64Raw_Nums b64Alphabet_def list_all_iff)

lemma dollar_free_std: "CHR ''$'' \<notin> set (base64RawStd b)"
proof -
  have "CHR ''$'' \<notin> set b64StdAlphabet" by code_simp
  then show ?thesis unfolding base64RawStd_def by (rule dollar_free_b64 [OF b64StdAlphabet_ok])
qed

lemma base64RawStd_decode: "b64DecodeRaw b64StdAlphabet (base64RawStd b) = Some b"
  unfolding base64RawStd_def by (rule b64_roundtrip) (rule b64StdAlphabet_ok)

lemma show_params: "showNat 19 = ''19''" "showNat 19456 = ''19456''" "showNat 2 = ''2''" "showNat (Suc 0) = ''1''"
  by (simp_all add: showNat.simps)

lemma phcEncode_shape:
  "phcEncode salt h =
     [] @ CHR ''$'' # ''argon2id'' @ CHR ''$'' # ''v=19'' @ CHR ''$'' # ''m=19456,t=2,p=1''
     @ CHR ''$'' # base64RawStd salt @ CHR ''$'' # base64RawStd h"
  by (simp add: phcEncode_def argon2_consts show_params)

lemma phcEncode_parts:
  "splitAll (CHR ''$'') (phcEncode salt h) =
     [[], ''argon2id'', ''v=19'', ''m=19456,t=2,p=1'', base64RawStd salt, base64RawStd h]"
  unfolding phcEncode_shape
  by (simp add: splitAll_append splitAll_no_sep dollar_free_std)

lemma parsePHC_phcEncode:
  assumes "length h < 2 ^ 32"
  shows "parsePHC (phcEncode salt h) =
     Some \<lparr>phc_salt = salt, phc_hash = h, phc_memory = argon2Memory, phc_iterations = argon2Iterations,
           phc_parallelism = argon2Parallelism, phc_keyLength = length h\<rparr>"
proof -
  have v: "scanVersion ''v=19''"
    by (simp add: scanVersion_def scanLit_def readNat_def digitVal_def isDigitByte_def go_simps)
  have p: "scanParams ''m=19456,t=2,p=1'' = Some (19456, 2, 1)"
    by (simp add: scanParams_def scanLit_def scanUint_def readNat_def digitVal_def isDigitByte_def go_simps)
  show ?thesis
    using assms
    by (simp add: parsePHC_def phcEncode_parts v p base64RawStd_decode argon2_consts Let_def)
qed

lemma VerifyPassword_of_HashPassword:
  assumes "argon2_laws E" and "HashPassword E site d pw = Some enc"
  shows "\<exists>salt. e_rand E site d argon2SaltLength = Some salt \<and>
    (\<forall>pw'. VerifyPassword E pw' enc =
       Some (e_argon2id E pw salt argon2Iterations argon2Memory argon2Parallelism argon2KeyLength
             = e_argon2id E pw' salt argon2Iterations argon2Memory argon2Parallelism argon2KeyLength))"
proof -
  let ?K = "\<lambda>pw salt. e_argon2id E pw salt argon2Iterations argon2Memory argon2Parallelism argon2KeyLength"
  obtain salt where salt: "e_rand E site d argon2SaltLength = Some salt"
    and enc: "enc = phcEncode salt (?K pw salt)"
    using assms(2) by (auto simp: HashPassword_def split: option.splits)
  have len: "length (?K pw salt) = argon2KeyLength"
    using assms(1) by (simp add: argon2_laws_def)
  then have "parsePHC enc =
     Some \<lparr>phc_salt = salt, phc_hash = ?K pw salt, phc_memory = argon2Memory,
           phc_iterations = argon2Iterations, phc_parallelism = argon2Parallelism,
           phc_keyLength = argon2KeyLength\<rparr>"
    using parsePHC_phcEncode [of "?K pw salt" salt] by (simp add: enc argon2KeyLength_def)
  then have "VerifyPassword E pw' enc = Some (?K pw salt = ?K pw' salt)" for pw'
    by (simp add: VerifyPassword_def)
  with salt show ?thesis by auto
qed

lemma VerifyPassword_HashPassword_accepts:
  "argon2_laws E \<Longrightarrow> HashPassword E site d pw = Some enc \<Longrightarrow> VerifyPassword E pw enc = Some True"
  using VerifyPassword_of_HashPassword by fastforce

text \<open>Password hash round trip: a hash made by \<open>HashPassword\<close> parses, and \<open>VerifyPassword\<close>
  accepts a password against it exactly when Argon2id maps it, with the stored salt and the
  parameters written into the hash, to the same key; the original password is accepted.\<close>

lemma VerifyPassword_HashPassword:
  assumes "argon2_laws E" and "HashPassword E site d pw = Some enc"
  shows "\<exists>salt. e_rand E site d argon2SaltLength = Some salt \<and>
    (\<forall>pw'. VerifyPassword E pw' enc =
       Some (e_argon2id E pw salt argon2Iterations argon2Memory argon2Parallelism argon2KeyLength
             = e_argon2id E pw' salt argon2Iterations argon2Memory argon2Parallelism argon2KeyLength))
    \<and> VerifyPassword E pw enc = Some True"
  using VerifyPassword_of_HashPassword [OF assms] VerifyPassword_HashPassword_accepts [OF assms] by blast

section \<open>Temporary passwords satisfy the policy they are meant for\<close>

lemma tempPasswordChars_props:
  "rand_laws E \<Longrightarrow> tempPasswordChars E d n = Some out \<Longrightarrow>
   length out = n \<and> set out \<subseteq> set tempPasswordAlphabet"
proof (induction n arbitrary: d out)
  case (Suc n)
  then obtain i cs where i: "e_rand_int E ''tempPassword'' d (length tempPasswordAlphabet) = Some i"
    and cs: "tempPasswordChars E (Suc d) n = Some cs" and out: "out = tempPasswordAlphabet ! i # cs"
    by (auto split: option.splits)
  from i Suc.prems(1) have "i < length tempPasswordAlphabet" by (auto simp: rand_laws_def)
  with Suc.IH [OF Suc.prems(1) cs] out show ?case by auto
qed auto

lemma tempPasswordAttempts_props:
  assumes "rand_laws E"
  shows "tempPasswordAttempts E d n = Some out \<Longrightarrow>
    length out = 16 \<and> set out \<subseteq> set tempPasswordAlphabet \<and>
    list_ex isUpperByte out \<and> list_ex isDigitByte out"
proof (induction n arbitrary: d)
  case (Suc n)
  then obtain o1 where o1: "tempPasswordChars E d 16 = Some o1"
    by (auto simp del: tempPasswordChars.simps simp: numeral_eq_Suc split: option.splits)
  from Suc tempPasswordChars_props [OF assms o1] show ?case
    by (cases "list_ex isUpperByte o1 \<and> list_ex isDigitByte o1")
       (simp_all add: o1 del: tempPasswordChars.simps split: if_splits)
qed simp

text \<open>A temporary password has 16 characters of the unambiguous alphabet with at least one upper
  case letter and one digit, whatever the entropy source returns.\<close>

lemma GenerateTemporaryPassword_policy:
  assumes "rand_laws E" and "GenerateTemporaryPassword E = Some pw"
  shows "length pw = 16 \<and> set pw \<subseteq> set tempPasswordAlphabet \<and>
    list_ex isUpperByte pw \<and> list_ex isDigitByte pw"
  using assms tempPasswordAttempts_props unfolding GenerateTemporaryPassword_def by blast

lemma GenerateTemporaryPassword_policy_witness:
  "\<exists>pw. GenerateTemporaryPassword sampleEnv = Some pw \<and> length pw = 16"
proof -
  have "GenerateTemporaryPassword sampleEnv = Some ''23456789ABCDEFGH''" by code_simp
  with GenerateTemporaryPassword_policy [OF sampleEnv_laws(2) this] show ?thesis by simp
qed

section \<open>One-time codes\<close>

lemma totpLoop_match:
  "totpLoop E code secret lst cur offs = Some (Some step) \<Longrightarrow>
   lst < step \<and> step - cur \<in> set offs \<and>
   e_totp_validate E code secret (fromUnix (step * 30)) = Some True"
  by (induction offs) (auto simp: Let_def split: if_splits option.splits)

text \<open>A one-time code is accepted only at a time step after the last one used, at most one step
  away from the clock, and only if the library accepts it for that step. So a caller that
  stores the step as the new counter never accepts a code for the same step again.\<close>

lemma ValidateTOTP_no_replay:
  assumes "ValidateTOTP E code secret lastCounter = Some (Some step)"
  shows "lastCounter < step \<and> \<bar>step - Unix (e_go_now E) div 30\<bar> \<le> 1 \<and>
    e_totp_validate E code secret (fromUnix (step * 30)) = Some True \<and>
    (\<forall>E' code' secret'. ValidateTOTP E' code' secret' step \<noteq> Some (Some step))"
proof -
  have "ValidateTOTP E' code' secret' step \<noteq> Some (Some step)" for E' :: "'b env" and code' secret'
    using totpLoop_match [of E' code' secret' step _ _ step] unfolding ValidateTOTP_def by blast
  moreover have "step - Unix (e_go_now E) div 30 \<in> set [0, -1, 1]"
    and "lastCounter < step" and "e_totp_validate E code secret (fromUnix (step * 30)) = Some True"
    using totpLoop_match assms unfolding ValidateTOTP_def by blast+
  ultimately show ?thesis by auto
qed

section \<open>Recovery codes\<close>

lemma recoveryLoop_sound:
  assumes "argon2_laws E"
  shows "recoveryLoop E fuel d ps hs = Some (Some (ps', hs')) \<Longrightarrow>
    distinct ps \<Longrightarrow> length ps \<le> 10 \<Longrightarrow>
    list_all2 (\<lambda>c h. VerifyPassword E c h = Some True) ps hs \<Longrightarrow>
    distinct ps' \<and> length ps' = 10 \<and> list_all2 (\<lambda>c h. VerifyPassword E c h = Some True) ps' hs'"
proof (induction fuel arbitrary: d ps hs)
  case 0
  then show ?case by (simp add: recoveryLoop.simps split: if_splits)
next
  case (Suc fuel)
  show ?case
  proof (cases "length ps \<ge> 10")
    case True
    with Suc.prems show ?thesis by (simp add: recoveryLoop.simps)
  next
    case False
    with Suc.prems(1) obtain code where code: "randomRecoveryCode E d = Some code"
      by (auto simp: recoveryLoop.simps split: option.splits)
    show ?thesis
    proof (cases "code \<in> set ps")
      case True
      with Suc False code show ?thesis by (simp add: recoveryLoop.simps [of E "Suc fuel"])
    next
      case fresh: False
      with Suc.prems(1) False code obtain h where h: "HashPassword E ''recovery.salt'' d code = Some h"
        by (auto simp: recoveryLoop.simps [of E "Suc fuel"] split: option.splits)
      have "VerifyPassword E code h = Some True"
        using VerifyPassword_HashPassword_accepts [OF assms h] .
      with Suc False code fresh h show ?thesis
        by (simp add: recoveryLoop.simps [of E "Suc fuel"] list_all2_appendI)
    qed
  qed
qed

text \<open>The codes of the first \<open>n\<close> draws.\<close>

definition drawnCodes :: "'k env \<Rightarrow> nat \<Rightarrow> nat \<Rightarrow> string set" where
  "drawnCodes E d n = (\<Union>i<n. set_option (randomRecoveryCode E (d + i)))"

lemma drawnCodes_Suc:
  "drawnCodes E d (Suc n) = set_option (randomRecoveryCode E d) \<union> drawnCodes E (Suc d) n"
  by (auto simp: drawnCodes_def lessThan_Suc_eq_insert_0)

lemma recoveryLoop_enough:
  "(\<And>i. i < fuel \<Longrightarrow> randomRecoveryCode E (d + i) \<noteq> None) \<Longrightarrow>
   (\<And>i c. i < fuel \<Longrightarrow> HashPassword E ''recovery.salt'' (d + i) c \<noteq> None) \<Longrightarrow>
   10 \<le> card (set ps \<union> drawnCodes E d fuel) \<Longrightarrow>
   \<exists>r. recoveryLoop E fuel d ps hs = Some (Some r)"
proof (induction fuel arbitrary: d ps hs)
  case 0
  then have "10 \<le> length ps"
    using card_length [of ps] by (simp add: drawnCodes_def)
  then show ?case by (simp add: recoveryLoop.simps)
next
  case (Suc fuel)
  obtain code where code: "randomRecoveryCode E d = Some code"
    using Suc.prems(1) [of 0] by auto
  obtain h where h: "HashPassword E ''recovery.salt'' d code = Some h"
    using Suc.prems(2) [of 0 code] by auto
  have p1: "\<And>i. i < fuel \<Longrightarrow> randomRecoveryCode E (Suc d + i) \<noteq> None"
    using Suc.prems(1) [of "Suc i" for i] by simp
  have p2: "\<And>i c. i < fuel \<Longrightarrow> HashPassword E ''recovery.salt'' (Suc d + i) c \<noteq> None"
    using Suc.prems(2) [of "Suc i" for i] by simp
  have c: "10 \<le> card (insert code (set ps) \<union> drawnCodes E (Suc d) fuel)"
    using Suc.prems(3) code by (simp add: drawnCodes_Suc insert_commute Un_insert_right)
  show ?case
  proof (cases "10 \<le> length ps")
    case True
    then show ?thesis by (simp add: recoveryLoop.simps)
  next
    case False
    show ?thesis
    proof (cases "code \<in> set ps")
      case True
      with c have "10 \<le> card (set ps \<union> drawnCodes E (Suc d) fuel)" by (simp add: insert_absorb)
      from Suc.IH [OF p1 p2 this] True False code show ?thesis
        by (simp add: recoveryLoop.simps [of E "Suc fuel"])
    next
      case fresh: False
      from c have "10 \<le> card (set (ps @ [code]) \<union> drawnCodes E (Suc d) fuel)" by simp
      from Suc.IH [OF p1 p2 this] fresh False code h show ?thesis
        by (simp add: recoveryLoop.simps [of E "Suc fuel"])
    qed
  qed
qed

text \<open>C37. Recovery codes: once the draws contain ten different codes the loop has returned, and what it
  returns is ten different codes together with hashes each of which verifies its own code.\<close>

theorem GenerateRecoveryCodes_correct:
  assumes "argon2_laws E"
    and "\<And>i. i < fuel \<Longrightarrow> randomRecoveryCode E i \<noteq> None"
    and "\<And>i c. i < fuel \<Longrightarrow> HashPassword E ''recovery.salt'' i c \<noteq> None"
    and "10 \<le> card (drawnCodes E 0 fuel)"
  shows "\<exists>codes hashes. GenerateRecoveryCodes E fuel = Some (Some (codes, hashes)) \<and>
    distinct codes \<and> length codes = 10 \<and>
    list_all2 (\<lambda>c h. VerifyPassword E c h = Some True) codes hashes"
proof -
  have "\<exists>r. recoveryLoop E fuel 0 [] [] = Some (Some r)"
    using assms(2-4) by (intro recoveryLoop_enough) simp_all
  then obtain codes hashes where r: "recoveryLoop E fuel 0 [] [] = Some (Some (codes, hashes))"
    by auto
  with recoveryLoop_sound [OF assms(1) r] show ?thesis
    unfolding GenerateRecoveryCodes_def by auto
qed

lemma codeHalf_hd: "0 < n \<Longrightarrow> hd (codeHalf w n) = recoveryCodeAlphabet ! (unat w mod 57)"
proof (cases n)
  case (Suc m)
  have l: "length recoveryCodeAlphabet = 57" by (simp add: recoveryCodeAlphabet_def)
  show ?thesis by (simp add: Suc l unat_mod)
qed simp

lemma codeHalf_nonempty: "0 < n \<Longrightarrow> codeHalf w n \<noteq> []"
  by (cases n) simp_all

definition sampleRecoveryCode :: "nat \<Rightarrow> string" where
  "sampleRecoveryCode i = the (randomRecoveryCode sampleEnv i)"

lemma sampleRecoveryCode_Some: "randomRecoveryCode sampleEnv i = Some (sampleRecoveryCode i)"
  by (simp add: sampleRecoveryCode_def randomRecoveryCode_def sampleEnv_def)

lemma sampleRecoveryCode_hd:
  assumes "i < 10"
  shows "hd (sampleRecoveryCode i) = recoveryCodeAlphabet ! ((8 + 2 * i) * 16843009 mod 57)"
proof -
  define c :: nat where "c = 8 + 2 * i"
  let ?w = "bigEndianUint32 (replicate 4 (char_of c))"
  have rep: "replicate 4 (char_of c) = [char_of c, char_of c, char_of c, (char_of c :: char)]"
    by (simp add: numeral_eq_Suc)
  have c: "of_char (char_of c :: char) = c"
    using assms by (simp add: of_char_of c_def)
  have "?w = of_nat (c * 16777216 + c * 65536 + c * 256 + c)"
    unfolding bigEndianUint32_def rep
    by (simp only: nth_Cons_0 nth_Cons_Suc c One_nat_def numeral_2_eq_2 numeral_3_eq_3)
  also have "c * 16777216 + c * 65536 + c * 256 + c = c * 16843009" by simp
  finally have w: "?w = of_nat (c * 16843009)" .
  have "c * 16843009 < 2 ^ 32" using assms by (simp add: c_def)
  then have "unat ?w = c * 16843009"
    unfolding w by (simp add: unat_of_nat take_bit_nat_eq_self del: of_nat_mult)
  moreover have "sampleRecoveryCode i = codeHalf ?w 4 @ ''-'' @
      codeHalf (bigEndianUint32 (replicate 4 (char_of (Suc c)))) 4"
    by (simp add: sampleRecoveryCode_def randomRecoveryCode_def sampleEnv_def c_def eval_nat_numeral)
  ultimately show ?thesis
    using codeHalf_hd [of 4 ?w] codeHalf_nonempty [of 4 ?w]
    by (simp only: c_def [symmetric] hd_append if_False zero_less_numeral simp_thms)
qed
lemma sampleRecoveryCode_inj: "inj_on sampleRecoveryCode {..<10}"
proof (rule inj_onI)
  fix i j
  assume ij: "i \<in> {..<10}" "j \<in> {..<10}" and "sampleRecoveryCode i = sampleRecoveryCode j"
  then have "recoveryCodeAlphabet ! ((8 + 2 * i) * 16843009 mod 57)
      = recoveryCodeAlphabet ! ((8 + 2 * j) * 16843009 mod 57)"
    using sampleRecoveryCode_hd [of i] sampleRecoveryCode_hd [of j] by simp
  moreover have "distinct recoveryCodeAlphabet" by (simp add: recoveryCodeAlphabet_def)
  moreover have "length recoveryCodeAlphabet = 57" by (simp add: recoveryCodeAlphabet_def)
  ultimately have "(8 + 2 * i) * 16843009 mod 57 = (8 + 2 * j) * 16843009 mod 57"
    using nth_eq_iff_index_eq [of recoveryCodeAlphabet] by (metis mod_less_divisor zero_less_numeral)
  then have "(8 + 2 * i) * 22 mod 57 = (8 + 2 * j) * 22 mod 57"
    using mod_mult_right_eq [of "8 + 2 * i" 16843009 57] mod_mult_right_eq [of "8 + 2 * j" 16843009 57]
    by simp
  moreover have "i \<in> {0, 1, 2, 3, 4, 5, 6, 7, 8, 9}" "j \<in> {0, 1, 2, 3, 4, 5, 6, 7, 8, 9}"
    using ij by auto
  ultimately show "i = j" by auto
qed

theorem GenerateRecoveryCodes_correct_witness:
  "\<exists>codes hashes. GenerateRecoveryCodes sampleEnv 10 = Some (Some (codes, hashes)) \<and>
    distinct codes \<and> length codes = 10"
proof -
  have "drawnCodes sampleEnv 0 10 = sampleRecoveryCode ` {..<10}"
    by (auto simp: drawnCodes_def sampleRecoveryCode_Some)
  then have "card (drawnCodes sampleEnv 0 10) = 10"
    by (simp only: card_image [OF sampleRecoveryCode_inj] card_lessThan)
  moreover have "HashPassword sampleEnv site i c \<noteq> None" for site i c
    by (simp add: HashPassword_def sampleEnv_def)
  ultimately show ?thesis
    using GenerateRecoveryCodes_correct [OF sampleEnv_laws(3), of 10]
    by (fastforce simp: sampleRecoveryCode_Some)
qed

end
