(* ===== verification/AuthStores.thy ===== *)
theory AuthStores
  imports Handlers Crypto
begin

text \<open>
  The two stores of \<^verbatim>\<open>internal/auth\<close>: recovery codes (\<^verbatim>\<open>recovery_code_store.go\<close>) and password
  reset tokens (\<^verbatim>\<open>password_reset_token_store.go\<close>). Only hashes are stored. The lemmas give the
  effect of every operation; the locale \<open>single_use\<close> is what the two stores share: a credential
  that was used is not handed out again.
\<close>

section \<open>Recovery codes\<close>

text \<open>\<open>Insert\<close> sends one batch, which PostgreSQL runs as a unit; the foreign key needs the user.\<close>

fun insertCodes :: "'k env \<Rightarrow> uuid \<Rightarrow> nat \<Rightarrow> bytes list \<Rightarrow> db \<Rightarrow> err + db" where
  "insertCodes E uid i [] d = Inr d"
| "insertCodes E uid i (h # hs) d =
     (let cid = e_new_uuid E (''totp_recovery_codes.id:'' @ showNat i) in
      if \<not> list_ex (\<lambda>u. u_ID u = uid) (db_users d) then Inl ErrDB
      else if list_ex (\<lambda>c. rc_ID c = cid) (db_recovery_codes d) then Inl ErrUnique
      else insertCodes E uid (Suc i) hs
             (d\<lparr>db_recovery_codes := db_recovery_codes d @
                 [\<lparr>rc_ID = cid, rc_UserID = uid, rc_CodeHash = h, rc_UsedAt = None, rc_CreatedAt = e_pg_now E\<rparr>]\<rparr>))"

definition RecoveryInsert :: "'k env \<Rightarrow> uuid \<Rightarrow> bytes list \<Rightarrow> tx \<Rightarrow> tx \<times> (err + unit)" where
  "RecoveryInsert E uid hashes t =
     (if hashes = [] then (t, Inr ())
      else stmt E ''recovery.Insert''
             (\<lambda>d. case insertCodes E uid 0 hashes d of Inl e \<Rightarrow> Inl e | Inr d' \<Rightarrow> Inr (d', ())) t)"

definition unusedOf :: "uuid \<Rightarrow> recovery_code \<Rightarrow> bool" where
  "unusedOf uid c = (rc_UserID c = uid \<and> rc_UsedAt c = None)"

definition ListUnused :: "'k env \<Rightarrow> uuid \<Rightarrow> tx \<Rightarrow> tx \<times> (err + recovery_code list)" where
  "ListUnused E uid t =
     query E ''recovery.ListUnused'' (\<lambda>d. sort_key rc_CreatedAt (filter (unusedOf uid) (db_recovery_codes d))) t"

definition CountUnused :: "'k env \<Rightarrow> uuid \<Rightarrow> tx \<Rightarrow> tx \<times> (err + nat)" where
  "CountUnused E uid t =
     query E ''recovery.CountUnused'' (\<lambda>d. length (filter (unusedOf uid) (db_recovery_codes d))) t"

definition updCodes :: "(recovery_code \<Rightarrow> bool) \<Rightarrow> (recovery_code \<Rightarrow> recovery_code) \<Rightarrow> db \<Rightarrow> db \<times> nat" where
  "updCodes p f d =
     (d\<lparr>db_recovery_codes := map (\<lambda>c. if p c then f c else c) (db_recovery_codes d)\<rparr>,
      length (filter p (db_recovery_codes d)))"

definition RecoveryMarkUsed :: "'k env \<Rightarrow> uuid \<Rightarrow> tx \<Rightarrow> tx \<times> (err + unit)" where
  "RecoveryMarkUsed E codeID t =
     needRow ErrRecoveryCodeUsed
       (stmt E ''recovery.MarkUsed''
         (\<lambda>d. Inr (updCodes (\<lambda>c. rc_ID c = codeID \<and> rc_UsedAt c = None)
                (\<lambda>c. c\<lparr>rc_UsedAt := Some (e_pg_now E)\<rparr>) d)) t)"

definition RecoveryDeleteAllForUser :: "'k env \<Rightarrow> uuid \<Rightarrow> tx \<Rightarrow> tx \<times> (err + nat)" where
  "RecoveryDeleteAllForUser E uid =
     stmt E ''recovery.DeleteAllForUser''
       (\<lambda>d. Inr (d\<lparr>db_recovery_codes := filter (\<lambda>c. rc_UserID c \<noteq> uid) (db_recovery_codes d)\<rparr>,
                 length (filter (\<lambda>c. rc_UserID c = uid) (db_recovery_codes d))))"

section \<open>Password reset tokens\<close>

record PasswordResetToken =
  pr_ID :: uuid
  pr_UserID :: uuid
  pr_ExpiresAt :: int
  pr_UsedAt :: "int option"
  pr_CreatedAt :: int

text \<open>\<open>NewTokenStore\<close> panics on a pepper of another length; the store is its pepper.\<close>

definition NewTokenStore :: "bytes \<Rightarrow> bytes option" where
  "NewTokenStore pepper = (if length pepper \<noteq> 32 then None else Some pepper)"

text \<open>The address is \<open>None\<close> when \<open>netip\<close> could not read it.\<close>

definition ResetInsert
  :: "'k env \<Rightarrow> bytes \<Rightarrow> uuid \<Rightarrow> string \<Rightarrow> int \<Rightarrow> string option \<Rightarrow> tx \<Rightarrow> tx \<times> (err + uuid)" where
  "ResetInsert E pepper uid plaintextToken ttl ip =
     stmt E ''reset.Insert''
       (\<lambda>d. let hash = HMACToken E plaintextToken pepper; rid = e_new_uuid E ''password_reset_tokens.id'' in
          if \<not> list_ex (\<lambda>u. u_ID u = uid) (db_users d) then Inl ErrDB
          else if list_ex (\<lambda>r. prt_TokenHash r = hash \<or> prt_ID r = rid) (db_reset_tokens d) then Inl ErrUnique
          else Inr (d\<lparr>db_reset_tokens := db_reset_tokens d @
                 [\<lparr>prt_ID = rid, prt_UserID = uid, prt_TokenHash = hash, prt_ExpiresAt = e_pg_now E + ttl,
                   prt_UsedAt = None, prt_CreatedAt = e_pg_now E, prt_IPAddress = ip\<rparr>]\<rparr>, rid))"

definition scanToken :: "reset_token \<Rightarrow> PasswordResetToken" where
  "scanToken r = \<lparr>pr_ID = prt_ID r, pr_UserID = prt_UserID r, pr_ExpiresAt = prt_ExpiresAt r,
                  pr_UsedAt = prt_UsedAt r, pr_CreatedAt = prt_CreatedAt r\<rparr>"

definition findToken :: "'k env \<Rightarrow> bytes \<Rightarrow> string \<Rightarrow> db \<Rightarrow> reset_token option" where
  "findToken E pepper plaintextToken d =
     find (\<lambda>r. prt_TokenHash r = HMACToken E plaintextToken pepper) (db_reset_tokens d)"

text \<open>With and without the row lock.\<close>

definition GetByTokenForUpdate :: "'k env \<Rightarrow> bytes \<Rightarrow> string \<Rightarrow> tx \<Rightarrow> tx \<times> (err + PasswordResetToken)" where
  "GetByTokenForUpdate E pepper plaintextToken t =
     needOne ErrResetTokenNotFound
       (query E ''reset.GetByTokenForUpdate'' (\<lambda>d. map_option scanToken (findToken E pepper plaintextToken d)) t)"

definition GetByToken :: "'k env \<Rightarrow> bytes \<Rightarrow> string \<Rightarrow> tx \<Rightarrow> tx \<times> (err + PasswordResetToken)" where
  "GetByToken E pepper plaintextToken t =
     needOne ErrResetTokenNotFound
       (query E ''reset.GetByToken'' (\<lambda>d. map_option scanToken (findToken E pepper plaintextToken d)) t)"

definition updTokens :: "(reset_token \<Rightarrow> bool) \<Rightarrow> (reset_token \<Rightarrow> reset_token) \<Rightarrow> db \<Rightarrow> db \<times> nat" where
  "updTokens p f d =
     (d\<lparr>db_reset_tokens := map (\<lambda>r. if p r then f r else r) (db_reset_tokens d)\<rparr>,
      length (filter p (db_reset_tokens d)))"

definition ResetMarkUsed :: "'k env \<Rightarrow> uuid \<Rightarrow> tx \<Rightarrow> tx \<times> (err + unit)" where
  "ResetMarkUsed E rid t =
     ignoreCount
       (stmt E ''reset.MarkUsed''
         (\<lambda>d. Inr (updTokens (\<lambda>r. prt_ID r = rid) (\<lambda>r. r\<lparr>prt_UsedAt := Some (e_pg_now E)\<rparr>) d)) t)"

definition outstanding :: "'k env \<Rightarrow> uuid \<Rightarrow> reset_token \<Rightarrow> bool" where
  "outstanding E uid r = (prt_UserID r = uid \<and> prt_UsedAt r = None \<and> e_pg_now E < prt_ExpiresAt r)"

definition InvalidateOutstandingForUser :: "'k env \<Rightarrow> uuid \<Rightarrow> tx \<Rightarrow> tx \<times> (err + nat)" where
  "InvalidateOutstandingForUser E uid =
     stmt E ''reset.InvalidateOutstanding''
       (\<lambda>d. Inr (updTokens (outstanding E uid) (\<lambda>r. r\<lparr>prt_UsedAt := Some (e_pg_now E)\<rparr>) d))"

section \<open>Effects\<close>

lemma insertCodes_Inr:
  "insertCodes E uid i hs d = Inr d' \<Longrightarrow>
     (\<exists>new. d' = d\<lparr>db_recovery_codes := db_recovery_codes d @ new\<rparr> \<and> map rc_CodeHash new = hs \<and>
            list_all (unusedOf uid) new)"
proof (induction hs arbitrary: i d)
  case (Cons h hs)
  define c where "c = \<lparr>rc_ID = e_new_uuid E (''totp_recovery_codes.id:'' @ showNat i), rc_UserID = uid,
      rc_CodeHash = h, rc_UsedAt = None, rc_CreatedAt = e_pg_now E\<rparr>"
  from Cons.prems have "insertCodes E uid (Suc i) hs (d\<lparr>db_recovery_codes := db_recovery_codes d @ [c]\<rparr>) = Inr d'"
    by (simp add: c_def Let_def split: if_splits)
  from Cons.IH [OF this] obtain new where "d' = d\<lparr>db_recovery_codes := db_recovery_codes d @ c # new\<rparr>"
    "map rc_CodeHash new = hs" "list_all (unusedOf uid) new" by auto
  then show ?case by (intro exI [of _ "c # new"]) (auto simp: c_def unusedOf_def list_all_iff)
qed (auto intro: exI [of _ "[]"])

lemma RecoveryMarkUsed_Inr:
  "RecoveryMarkUsed E cid t = (t', Inr u) \<Longrightarrow>
     (\<exists>c\<in>set (db_recovery_codes (tx_db t)). rc_ID c = cid \<and> rc_UsedAt c = None) \<and>
     tx_db t' = fst (updCodes (\<lambda>c. rc_ID c = cid \<and> rc_UsedAt c = None)
       (\<lambda>c. c\<lparr>rc_UsedAt := Some (e_pg_now E)\<rparr>) (tx_db t))"
  by (auto simp: RecoveryMarkUsed_def needRow_Inr stmt_Inr updCodes_def filter_empty_conv)

lemma RecoveryDeleteAll_Inr:
  "RecoveryDeleteAllForUser E uid t = (t', Inr n) \<Longrightarrow>
     \<not> tx_aborted t' \<and>
     tx_db t' = (tx_db t)\<lparr>db_recovery_codes := filter (\<lambda>c. rc_UserID c \<noteq> uid) (db_recovery_codes (tx_db t))\<rparr>"
  by (auto simp: RecoveryDeleteAllForUser_def stmt_Inr)

section \<open>Single use\<close>

text \<open>\<open>offered\<close> lists the credentials the store would still accept, \<open>burn\<close> uses one up.\<close>

locale single_use =
  fixes offered :: "'s \<Rightarrow> 'c set"
    and burn :: "'c \<Rightarrow> 's \<Rightarrow> 's \<times> (err + unit)"
  assumes burn_ok: "burn c s = (s', Inr ()) \<Longrightarrow> offered s' = offered s - {c}"
    and burn_only: "burn c s = (s', r) \<Longrightarrow> offered s' \<subseteq> offered s"
begin

text \<open>Once burnt, a credential is never offered again by burning others.\<close>

lemma burnt_stays:
  assumes "burn c s = (s', Inr ())" and "burn c' s' = (s'', r)"
  shows "c \<notin> offered s''"
  using burn_ok [OF assms(1)] burn_only [OF assms(2)] by blast

end

lemma stmt_update_db:
  "tx_db (fst (stmt E site (\<lambda>d. Inr (f d)) t)) = tx_db t \<or>
   tx_db (fst (stmt E site (\<lambda>d. Inr (f d)) t)) = fst (f (tx_db t))"
  by (cases "f (tx_db t)") (simp add: stmt_def)

lemma burn_rows:
  assumes "\<And>x. key x = c \<Longrightarrow> Q x \<Longrightarrow> P x" and "\<And>x. P x \<Longrightarrow> key x = c" and "\<And>x. \<not> Q (f x)"
  shows "key ` {x \<in> set (map (\<lambda>x. if P x then f x else x) xs). Q x} = key ` {x \<in> set xs. Q x} - {c}"
proof -
  have "{x \<in> set (map (\<lambda>x. if P x then f x else x) xs). Q x} = {x \<in> set xs. Q x \<and> \<not> P x}"
    using assms(3) by force
  also have "\<dots> = {x \<in> set xs. Q x \<and> key x \<noteq> c}" using assms(1,2) by blast
  finally show ?thesis by auto
qed

definition offeredCodes :: "tx \<Rightarrow> uuid set" where
  "offeredCodes t = rc_ID ` {c \<in> set (db_recovery_codes (tx_db t)). rc_UsedAt c = None}"

interpretation recovery_codes: single_use offeredCodes "RecoveryMarkUsed E" for E
proof
  fix c :: uuid and s s' :: tx
  assume "RecoveryMarkUsed E c s = (s', Inr ())"
  from RecoveryMarkUsed_Inr [OF this] have rows: "db_recovery_codes (tx_db s') =
      map (\<lambda>x. if rc_ID x = c \<and> rc_UsedAt x = None then x\<lparr>rc_UsedAt := Some (e_pg_now E)\<rparr> else x)
        (db_recovery_codes (tx_db s))"
    by (simp add: updCodes_def)
  show "offeredCodes s' = offeredCodes s - {c}"
    unfolding offeredCodes_def rows by (rule burn_rows) auto
next
  fix c :: uuid and s s' :: tx and r
  assume "RecoveryMarkUsed E c s = (s', r)"
  then have "s' = fst (RecoveryMarkUsed E c s)" by simp
  then consider "tx_db s' = tx_db s" | "tx_db s' = fst (updCodes (\<lambda>x. rc_ID x = c \<and> rc_UsedAt x = None)
      (\<lambda>x. x\<lparr>rc_UsedAt := Some (e_pg_now E)\<rparr>) (tx_db s))"
    unfolding RecoveryMarkUsed_def fst_wrappers using stmt_update_db by blast
  then show "offeredCodes s' \<subseteq> offeredCodes s"
    by cases (auto simp: offeredCodes_def updCodes_def split: if_splits)
qed

definition offeredTokens :: "tx \<Rightarrow> uuid set" where
  "offeredTokens t = prt_ID ` {r \<in> set (db_reset_tokens (tx_db t)). prt_UsedAt r = None}"

interpretation reset_tokens: single_use offeredTokens "ResetMarkUsed E" for E
proof
  fix c :: uuid and s s' :: tx
  assume "ResetMarkUsed E c s = (s', Inr ())"
  then have rows: "db_reset_tokens (tx_db s') =
      map (\<lambda>x. if prt_ID x = c then x\<lparr>prt_UsedAt := Some (e_pg_now E)\<rparr> else x) (db_reset_tokens (tx_db s))"
    by (auto simp: ResetMarkUsed_def ignoreCount_Inr stmt_Inr updTokens_def)
  show "offeredTokens s' = offeredTokens s - {c}"
    unfolding offeredTokens_def rows by (rule burn_rows) auto
next
  fix c :: uuid and s s' :: tx and r
  assume "ResetMarkUsed E c s = (s', r)"
  then have "s' = fst (ResetMarkUsed E c s)" by simp
  then consider "tx_db s' = tx_db s" | "tx_db s' = fst (updTokens (\<lambda>x. prt_ID x = c)
      (\<lambda>x. x\<lparr>prt_UsedAt := Some (e_pg_now E)\<rparr>) (tx_db s))"
    unfolding ResetMarkUsed_def fst_wrappers using stmt_update_db by blast
  then show "offeredTokens s' \<subseteq> offeredTokens s"
    by cases (auto simp: offeredTokens_def updTokens_def split: if_splits)
qed

end
