(* ===== verification/TokenIndex.thy ===== *)
theory TokenIndex
  imports Services
begin

text \<open>
  The data structure that the session store and the refresh token store share: every token has a
  document under its own key, and the tokens of one owner (a user, a refresh family) are listed
  in a set under the owner's key, so that all of them can be deleted at once.

  \<open>storedAt\<close> reads the documents off a key space and \<open>index_inv\<close> says that the index lists every
  token. The locale \<open>owner_index\<close> has what the two stores promise about their keys; its lemmas
  give the effect of the three pipelines (store and list, replace, delete an owner's tokens).
\<close>

definition storedAt :: "(string \<Rightarrow> string) \<Rightarrow> (string \<Rightarrow> bool) \<Rightarrow> (body \<Rightarrow> 'p option)
    \<Rightarrow> kspace \<Rightarrow> string \<Rightarrow> 'p option" where
  "storedAt tk valid dec m h =
     (if valid h then (case m (tk h) of Some (VStr b, _) \<Rightarrow> dec b | _ \<Rightarrow> None) else None)"

definition index_inv :: "(string \<Rightarrow> string) \<Rightarrow> (string \<Rightarrow> string) \<Rightarrow> (string \<Rightarrow> bool)
    \<Rightarrow> (body \<Rightarrow> 'p option) \<Rightarrow> ('p \<Rightarrow> string) \<Rightarrow> kspace \<Rightarrow> bool" where
  "index_inv tk ok valid dec owner m =
     ((\<forall>h p. storedAt tk valid dec m h = Some p \<longrightarrow>
         (\<exists>xs e. m (ok (owner p)) = Some (VSet xs, e) \<and> h \<in> set xs)) \<and>
      (\<forall>f v e. m (ok f) = Some (v, e) \<longrightarrow> (\<exists>xs. v = VSet xs \<and> list_all valid xs)) \<and>
      (\<forall>h v e. valid h \<longrightarrow> m (tk h) = Some (v, e) \<longrightarrow> (\<exists>b p. v = VStr b \<and> dec b = Some p)))"

text \<open>The tokens that the index lists under an owner, with the key function \<open>ok\<close>.\<close>

definition listedUnder :: "(string \<Rightarrow> string) \<Rightarrow> kspace \<Rightarrow> string \<Rightarrow> string set" where
  "listedUnder ok m f = (case m (ok f) of Some (VSet xs, e) \<Rightarrow> set xs | _ \<Rightarrow> {})"

locale owner_index =
  fixes tk ok :: "string \<Rightarrow> string"
    and valid :: "string \<Rightarrow> bool"
    and enc :: "'p \<Rightarrow> body"
    and dec :: "body \<Rightarrow> 'p option"
    and owner :: "'p \<Rightarrow> string"
  assumes keys_differ: "valid h \<Longrightarrow> tk h \<noteq> ok f"
    and tk_inj: "tk h = tk h' \<Longrightarrow> h = h'"
    and ok_inj: "ok f = ok f' \<Longrightarrow> f = f'"
    and dec_enc: "dec (enc p) = Some p"
begin

abbreviation "stored \<equiv> storedAt tk valid dec"
abbreviation "listed \<equiv> index_inv tk ok valid dec owner"

lemma keys_differ' [simp]: "valid h \<Longrightarrow> (tk h = ok f) = False" "valid h \<Longrightarrow> (ok f = tk h) = False"
  using keys_differ by metis+

lemma key_eqs [simp]: "(tk h = tk h') = (h = h')" "(ok f = ok f') = (f = f')"
  using tk_inj ok_inj by blast+

lemma invD:
  assumes "listed m"
  shows "stored m h = Some p \<Longrightarrow> \<exists>xs e. m (ok (owner p)) = Some (VSet xs, e) \<and> h \<in> set xs"
    and "m (ok f) = Some (v, e) \<Longrightarrow> \<exists>xs. v = VSet xs \<and> list_all valid xs"
    and "valid h' \<Longrightarrow> m (tk h') = Some (v', e') \<Longrightarrow> \<exists>b p. v' = VStr b \<and> dec b = Some p"
  using assms unfolding index_inv_def by blast+

lemma stored_Some:
  "stored m h = Some p \<longleftrightarrow> valid h \<and> (\<exists>b e. m (tk h) = Some (VStr b, e) \<and> dec b = Some p)"
  by (auto simp: storedAt_def split: option.splits vval.splits)

lemma stored_upd:
  shows "valid h \<Longrightarrow> stored (m(tk h \<mapsto> (VStr (enc p), e))) = (stored m)(h \<mapsto> p)"
    and "stored (m(ok f := x)) = stored m"
    and "valid h \<Longrightarrow> stored (m(tk h := None)) = (stored m)(h := None)"
  by (auto simp: storedAt_def fun_eq_iff dec_enc)

lemma stored_GET:
  assumes "listed m" and "valid h"
  shows "vk_exec (GET (tk h)) m =
    ((case m (tk h) of Some (VStr b, _) \<Rightarrow> RBody b | _ \<Rightarrow> RNil), m)"
    and "stored m h = None \<longleftrightarrow> m (tk h) = None"
  using invD(3) [OF assms] assms(2)
  by (auto simp: storedAt_def split: option.splits vval.splits)

text \<open>A document may change as long as the index lists it.\<close>

lemma inv_upd:
  assumes m: "listed m" and h: "valid h"
    and ys: "\<forall>xs e. m (ok (owner p)) = Some (VSet xs, e) \<longrightarrow> set xs \<subseteq> set ys"
            "h \<in> set ys" "list_all valid ys"
  shows "listed (m(tk h \<mapsto> (VStr (enc p), e1), ok (owner p) \<mapsto> (VSet ys, e2)))" (is "listed ?m")
proof -
  have st: "stored ?m = (stored m)(h \<mapsto> p)" using h by (simp add: stored_upd)
  have 1: "\<exists>xs e. ?m (ok (owner q)) = Some (VSet xs, e) \<and> h' \<in> set xs"
    if "stored ?m h' = Some q" for h' q
  proof (cases "h' = h")
    case True
    with that st ys(2) show ?thesis by simp
  next
    case False
    with that st have "stored m h' = Some q" by simp
    from invD(1) [OF m this] ys(1) h show ?thesis by auto
  qed
  have 2: "\<exists>xs. v = VSet xs \<and> list_all valid xs" if "?m (ok f) = Some (v, e)" for f v e
    using that invD(2) [OF m] ys(3) h by (auto split: if_splits)
  have 3: "\<exists>b q. v = VStr b \<and> dec b = Some q" if "valid h'" "?m (tk h') = Some (v, e)" for h' v e
    using that invD(3) [OF m, of h'] dec_enc by (auto split: if_splits)
  show ?thesis unfolding index_inv_def using 1 2 3 by blast
qed

lemma inv_replace:
  assumes m: "listed m" and p: "stored m h = Some p" and own: "owner q = owner p"
  shows "listed (m(tk h \<mapsto> (VStr (enc q), e)))"
proof -
  have h: "valid h" using p by (simp add: stored_Some)
  from invD(1) [OF m p] obtain xs e2 where xs: "m (ok (owner p)) = Some (VSet xs, e2)" "h \<in> set xs"
    by blast
  with invD(2) [OF m] have ok: "list_all valid xs" by auto
  have "listed (m(tk h \<mapsto> (VStr (enc q), e), ok (owner q) \<mapsto> (VSet xs, e2)))"
    by (rule inv_upd [OF m h]) (use xs ok own in auto)
  moreover have "m(tk h \<mapsto> (VStr (enc q), e), ok (owner q) \<mapsto> (VSet xs, e2)) = m(tk h \<mapsto> (VStr (enc q), e))"
    using xs(1) h own by (auto simp: fun_eq_iff)
  ultimately show ?thesis by simp
qed

lemma inv_expire:
  assumes "listed m" and "m (ok f) = Some (v, e)"
  shows "listed (m(ok f \<mapsto> (v, e')))"
  using assms unfolding index_inv_def stored_upd by (auto split: if_splits) fastforce+

text \<open>The pipeline \<open>SET\<close>, \<open>SADD\<close>, \<open>EXPIRE\<close> of the two \<open>Create\<close> operations.\<close>

lemma create_space:
  assumes m: "listed m" and h: "valid h" and ttl: "0 < ttl"
    and ex: "vk_execs [SET (tk h) (enc p) ttl, SADD (ok (owner p)) h, EXPIRE (ok (owner p)) ttl] m
             = (rs, m')"
  shows "\<not> pipeFailed rs \<and> listed m' \<and> stored m' = (stored m)(h \<mapsto> p) \<and>
    m' (tk h) = Some (VStr (enc p), Some ttl) \<and>
    (\<forall>h'. valid h' \<longrightarrow> h' \<noteq> h \<longrightarrow> m' (tk h') = m (tk h'))"
proof -
  let ?own = "ok (owner p)"
  have "\<exists>ys. \<not> pipeFailed rs \<and>
      m' = m(tk h \<mapsto> (VStr (enc p), Some ttl), ?own \<mapsto> (VSet ys, Some ttl)) \<and>
      (\<forall>xs e. m ?own = Some (VSet xs, e) \<longrightarrow> set xs \<subseteq> set ys) \<and> h \<in> set ys \<and> list_all valid ys"
  proof (cases "m ?own")
    case None
    then show ?thesis
      using ex ttl h by (intro exI [of _ "[h]"]) (auto simp: pipeFailed_def)
  next
    case (Some ve)
    then obtain xs e where "m ?own = Some (VSet xs, e)" "list_all valid xs"
      using invD(2) [OF m] by (cases ve) blast
    then show ?thesis
      using ex ttl h
      by (intro exI [of _ "if h \<in> set xs then xs else h # xs"])
         (auto simp: pipeFailed_def fun_upd_twist split: if_splits)
  qed
  then obtain ys where ys: "\<not> pipeFailed rs"
      "m' = m(tk h \<mapsto> (VStr (enc p), Some ttl), ?own \<mapsto> (VSet ys, Some ttl))"
      "\<forall>xs e. m ?own = Some (VSet xs, e) \<longrightarrow> set xs \<subseteq> set ys" "h \<in> set ys" "list_all valid ys" by blast
  have "listed m'" unfolding ys(2) by (rule inv_upd [OF m h ys(3,4,5)])
  then show ?thesis using ys(1) h by (simp add: ys(2) stored_upd)
qed

text \<open>Deleting all tokens of an owner. An index entry without a document does no harm.\<close>

lemma members_space:
  assumes "listed m" and "vk_exec (SMEMBERS (ok f)) m = (r, m')"
  shows "m' = m \<and> (\<exists>hs. r = RMembers hs \<and>
    (case m (ok f) of None \<Rightarrow> hs = [] | Some (v, e) \<Rightarrow> v = VSet hs))"
  using assms(2) invD(2) [OF assms(1), of f] by (auto split: option.splits prod.splits)

lemma revoke_space:
  assumes m: "listed m"
    and members: "case m (ok f) of None \<Rightarrow> hs = [] | Some (v, e) \<Rightarrow> v = VSet hs"
    and m': "m' = (\<lambda>k. if k \<in> set (map tk hs @ [ok f]) then None else m k)"
  shows "listed m' \<and> (\<forall>h p. stored m' h = Some p \<longrightarrow> stored m h = Some p \<and> owner p \<noteq> f) \<and>
    (\<forall>h. stored m' h = (if h \<in> set hs then None else stored m h))"
proof -
  have hs: "list_all valid hs" using members invD(2) [OF m, of f] by (auto split: option.splits)
  have st: "stored m h = Some p \<and> owner p \<noteq> f" if "stored m' h = Some p" for h p
  proof -
    from that have hm: "stored m h = Some p" and notin: "h \<notin> set hs"
      by (auto simp: m' stored_Some split: if_splits)
    with invD(1) [OF m hm] members have "owner p \<noteq> f" by auto
    with hm show ?thesis by simp
  qed
  have exact: "stored m' h = (if h \<in> set hs then None else stored m h)" for h
  proof (cases "valid h")
    case True
    then show ?thesis by (auto simp: storedAt_def m')
  qed (auto simp: storedAt_def)
  have own: "m' (ok g) = m (ok g)" if "g \<noteq> f" for g
    using that hs by (auto simp: m' list_all_iff)
  have 1: "\<exists>xs e. m' (ok (owner p)) = Some (VSet xs, e) \<and> h \<in> set xs" if "stored m' h = Some p" for h p
    using invD(1) [OF m, of h p] st [OF that] own by simp
  have 2: "\<exists>xs. v = VSet xs \<and> list_all valid xs" if "m' (ok g) = Some (v, e)" for g v e
    using that invD(2) [OF m] by (auto simp: m' split: if_splits)
  have 3: "\<exists>b q. v = VStr b \<and> dec b = Some q" if "valid h'" "m' (tk h') = Some (v, e)" for h' v e
    using that invD(3) [OF m, of h'] by (auto simp: m' split: if_splits)
  show ?thesis using 1 2 3 st exact unfolding index_inv_def by blast
qed

text \<open>The pipeline of \<open>Create\<close> lists the new token under its owner and nothing else anywhere.\<close>

lemma create_listed:
  assumes "listed m" and h: "valid h" and ttl: "0 < ttl"
    and ex: "vk_execs [SET (tk h) (enc p) ttl, SADD (ok (owner p)) h, EXPIRE (ok (owner p)) ttl] m = (rs, m')"
  shows "listedUnder ok m' f = (if f = owner p then insert h (listedUnder ok m f) else listedUnder ok m f)"
proof (cases "m (ok (owner p))")
  case None
  then show ?thesis using ex ttl h by (auto simp: listedUnder_def)
next
  case (Some ve)
  then obtain xs e where "m (ok (owner p)) = Some (VSet xs, e)" using invD(2) [OF assms(1)] by (cases ve) blast
  then show ?thesis using ex ttl h by (auto simp: listedUnder_def insert_absorb split: if_splits)
qed

text \<open>Deleting one token and its index entry (under any owner: other owners' entries stay).\<close>

lemma delete_space:
  assumes m: "listed m" and h: "valid h"
    and ex: "vk_execs [DEL (tk h), SREM (ok f) h] m = (rs, m')"
  shows "\<not> pipeFailed rs \<and> listed m' \<and> stored m' = (stored m)(h := None)"
proof -
  let ?own = "case m (ok f) of Some (VSet xs, e) \<Rightarrow>
      (let ys = filter (\<lambda>y. y \<noteq> h) xs in if ys = [] then None else Some (VSet ys, e)) | _ \<Rightarrow> None"
  have ty: "\<exists>xs. v = VSet xs \<and> list_all valid xs" if "m (ok g) = Some (v, e)" for g v e
    using invD(2) [OF m that] .
  have m': "\<not> pipeFailed rs" "m' = m(tk h := None, ok f := ?own)"
    using ex h ty [of f]
    by (auto simp: pipeFailed_def Let_def fun_eq_iff split: option.splits prod.splits vval.splits if_splits)
  have st: "stored m' = (stored m)(h := None)" using h by (simp add: m' stored_upd)
  have mem: "\<exists>ys e'. m' (ok g) = Some (VSet ys, e') \<and> h' \<in> set ys"
    if "m (ok g) = Some (VSet xs, e)" "h' \<in> set xs" "h' \<noteq> h" for g xs e h'
    using that h by (auto simp: m' Let_def filter_empty_conv)
  have 1: "\<exists>xs e. m' (ok (owner p)) = Some (VSet xs, e) \<and> h' \<in> set xs" if "stored m' h' = Some p" for h' p
  proof -
    from that st have "stored m h' = Some p" "h' \<noteq> h" by (auto split: if_splits)
    with invD(1) [OF m this(1)] mem show ?thesis by blast
  qed
  have 2: "\<exists>xs. v = VSet xs \<and> list_all valid xs" if "m' (ok g) = Some (v, e)" for g v e
    using that ty h
    by (fastforce simp: m' Let_def list_all_iff split: if_splits option.splits vval.splits)
  have 3: "\<exists>b q. v = VStr b \<and> dec b = Some q" if "valid h'" "m' (tk h') = Some (v, e)" for h' v e
    using that invD(3) [OF m, of h'] h by (auto simp: m' split: if_splits)
  show ?thesis using m'(1) st 1 2 3 unfolding index_inv_def by blast
qed

end

text \<open>A pipeline of deletions.\<close>

lemma vk_execs_del:
  "vk_execs (map DEL ks) m = (rs, m') \<Longrightarrow>
     \<not> pipeFailed rs \<and> m' = (\<lambda>k. if k \<in> set ks then None else m k)"
proof (induction ks arbitrary: m rs m')
  case (Cons k ks)
  then obtain r rs' where ex: "vk_execs (map DEL ks) (m(k := None)) = (rs', m')" and "rs = RInt r # rs'"
    by (auto split: prod.splits)
  with Cons.IH [OF ex] show ?case by (auto simp: pipeFailed_def)
qed (simp add: pipeFailed_def)

lemma index_inv_empty: "index_inv tk ok valid dec owner (\<lambda>k. None)"
  by (simp add: index_inv_def storedAt_def)

end
