(* ===== verification/Sessions.thy ===== *)
theory Sessions
  imports Tables TokenIndex
begin

text \<open>
  Package \<^verbatim>\<open>internal/session\<close>: the session store of \<^verbatim>\<open>store.go\<close>, the per-user and per-client
  cutoffs of \<^verbatim>\<open>revokebefore.go\<close> and the cookie.

  The locale \<open>session_store\<close> is the contract of the Go interface \<open>Store\<close> over a lookup
  \<open>live\<close> from tokens to sessions; \<open>valkey_session_store\<close> discharges it for the Valkey
  implementation. The index of a user's sessions is what makes \<open>DeleteAllForUser\<close> complete.
\<close>

section \<open>The session store\<close>

definition sessionKey :: "string \<Rightarrow> string" where
  "sessionKey token = ''session:'' @ token"

definition userSessionsKey :: "string \<Rightarrow> string" where
  "userSessionsKey userID = ''user_sessions:'' @ userID"

definition CreateWithPendingReturnTo
  :: "'k env \<Rightarrow> int \<Rightarrow> string \<Rightarrow> string \<Rightarrow> string \<Rightarrow> string \<Rightarrow> 'k \<Rightarrow> 'k \<times> string option" where
  "CreateWithPendingReturnTo E ttl userID ipAddress userAgent returnTo k =
     (case e_rand E ''session'' 0 32 of
        None \<Rightarrow> (k, None)
      | Some buf \<Rightarrow>
          (let token = base64RawURL buf; now = e_go_now E;
               sess = \<lparr>s_UserID = userID, s_CreatedAt = now, s_LastSeenAt = now,
                       s_IPAddress = ipAddress, s_UserAgent = userAgent, s_PendingReturnTo = returnTo\<rparr>
           in case pipeline E
                     [SET (sessionKey token) (JSession sess) ttl,
                      SADD (userSessionsKey userID) token,
                      EXPIRE (userSessionsKey userID) ttl] k of
                (rs, k') \<Rightarrow> (k', if pipeFailed rs then None else Some token)))"

definition sessionCreate
  :: "'k env \<Rightarrow> int \<Rightarrow> string \<Rightarrow> string \<Rightarrow> string \<Rightarrow> 'k \<Rightarrow> 'k \<times> string option" where
  "sessionCreate E ttl userID ipAddress userAgent k =
     CreateWithPendingReturnTo E ttl userID ipAddress userAgent [] k"

datatype 'a sessionResult = SessOk 'a | SessErrNotFound | SessErr

definition sessionGet :: "'k env \<Rightarrow> int \<Rightarrow> string \<Rightarrow> 'k \<Rightarrow> 'k \<times> Session sessionResult" where
  "sessionGet E ttl token k =
     (case e_valkey E (GET (sessionKey token)) k of
        (RNil, k1) \<Rightarrow> (k1, SessErrNotFound)
      | (RBody (JSession s), k1) \<Rightarrow>
          (let sess = s\<lparr>s_LastSeenAt := e_go_now E\<rparr>
           in case pipeline E [SET (sessionKey token) (JSession sess) ttl,
                               EXPIRE (userSessionsKey (s_UserID sess)) ttl] k1 of
                (_, k2) \<Rightarrow> (k2, SessOk sess))
      | (_, k1) \<Rightarrow> (k1, SessErr))"

definition sessionDelete :: "'k env \<Rightarrow> string \<Rightarrow> string \<Rightarrow> 'k \<Rightarrow> 'k \<times> bool" where
  "sessionDelete E userID token k =
     (case pipeline E [DEL (sessionKey token), SREM (userSessionsKey userID) token] k of
        (rs, k') \<Rightarrow> (k', \<not> pipeFailed rs))"

text \<open>The replies to the \<open>GET\<close> of every listed token: a missing session is skipped, any other
  failure makes the whole listing fail.\<close>

fun collectSessions :: "string list \<Rightarrow> vreply list \<Rightarrow> (string \<times> Session) list option" where
  "collectSessions (t # ts) (r # rs) =
     (case r of
        RNil \<Rightarrow> collectSessions ts rs
      | RBody (JSession s) \<Rightarrow> map_option (\<lambda>l. (t, s) # l) (collectSessions ts rs)
      | _ \<Rightarrow> None)"
| "collectSessions ts rs = Some []"

definition ListByUser :: "'k env \<Rightarrow> string \<Rightarrow> 'k \<Rightarrow> 'k \<times> (string \<times> Session) list option" where
  "ListByUser E userID k =
     (case e_valkey E (SMEMBERS (userSessionsKey userID)) k of
        (RMembers tokens, k1) \<Rightarrow>
          (if tokens = [] then (k1, Some [])
           else case pipeline E (map (\<lambda>t. GET (sessionKey t)) tokens) k1 of
                  (rs, k2) \<Rightarrow> (k2, collectSessions tokens rs))
      | (_, k1) \<Rightarrow> (k1, None))"

definition ClearPendingReturnTo :: "'k env \<Rightarrow> string \<Rightarrow> 'k \<Rightarrow> 'k \<times> unit sessionResult" where
  "ClearPendingReturnTo E token k =
     (case e_valkey E (GET (sessionKey token)) k of
        (RNil, k1) \<Rightarrow> (k1, SessErrNotFound)
      | (RBody (JSession s), k1) \<Rightarrow>
          (if s_PendingReturnTo s = [] then (k1, SessOk ())
           else case e_valkey E (SET_KEEPTTL (sessionKey token) (JSession (s\<lparr>s_PendingReturnTo := []\<rparr>))) k1 of
                  (r, k2) \<Rightarrow> (k2, if r = RErr then SessErr else SessOk ()))
      | (_, k1) \<Rightarrow> (k1, SessErr))"

definition DeleteAllForUser :: "'k env \<Rightarrow> string \<Rightarrow> 'k \<Rightarrow> 'k \<times> bool" where
  "DeleteAllForUser E userID k =
     (case e_valkey E (SMEMBERS (userSessionsKey userID)) k of
        (RMembers tokens, k1) \<Rightarrow>
          (case pipeline E (map (\<lambda>t. DEL (sessionKey t)) tokens @ [DEL (userSessionsKey userID)]) k1 of
             (rs, k2) \<Rightarrow> (k2, \<not> pipeFailed rs))
      | (_, k1) \<Rightarrow> (k1, False))"

section \<open>Cookies\<close>

record Cookie =
  ck_Name :: string
  ck_Value :: string
  ck_Path :: string
  ck_MaxAge :: int
  ck_HttpOnly :: bool
  ck_Secure :: bool
  ck_SameSiteLax :: bool

definition IsSecureURL :: "string \<Rightarrow> bool" where
  "IsSecureURL publicURL = hasPrefix publicURL ''https://''"

definition SetCookie :: "string \<Rightarrow> bool \<Rightarrow> Cookie" where
  "SetCookie token secure =
     \<lparr>ck_Name = ''schlass_session'', ck_Value = token, ck_Path = ''/'', ck_MaxAge = 86400,
      ck_HttpOnly = True, ck_Secure = secure, ck_SameSiteLax = True\<rparr>"

section \<open>Cutoffs\<close>

definition revokeBeforeTTL :: int where "revokeBeforeTTL = 30 * 24 * 3600 * second"

definition revokeBeforeKey :: "string \<Rightarrow> string" where
  "revokeBeforeKey userID = ''user:revoke_before:'' @ userID"

definition revokeBeforeClientKey :: "string \<Rightarrow> string" where
  "revokeBeforeClientKey clientID = ''client:revoke_before:'' @ clientID"

text \<open>Both variants write the decimal unix seconds and always renew the time to live.\<close>

definition RevokeBeforeSet :: "'k env \<Rightarrow> string \<Rightarrow> int \<Rightarrow> 'k \<Rightarrow> 'k \<times> bool" where
  "RevokeBeforeSet E userID t k =
     (case e_valkey E (SET (revokeBeforeKey userID) (Decimal (Unix t)) revokeBeforeTTL) k of
        (r, k') \<Rightarrow> (k', r \<noteq> RErr))"

definition RevokeBeforeSetNow :: "'k env \<Rightarrow> string \<Rightarrow> 'k \<Rightarrow> 'k \<times> bool" where
  "RevokeBeforeSetNow E userID k =
     RevokeBeforeSet E userID (truncateSecond (e_go_now E) + second) k"

datatype cutoff = Cutoff int | ErrRevokeBeforeNotSet | RevokeBeforeErr

definition readCutoff :: "vreply \<Rightarrow> cutoff" where
  "readCutoff r =
     (case r of
        RNil \<Rightarrow> ErrRevokeBeforeNotSet
      | RBody (Decimal secs) \<Rightarrow>
          if - (2 ^ 63) \<le> secs \<and> secs < 2 ^ 63 then Cutoff (fromUnix secs) else RevokeBeforeErr
      | _ \<Rightarrow> RevokeBeforeErr)"

definition RevokeBeforeGet :: "'k env \<Rightarrow> string \<Rightarrow> 'k \<Rightarrow> 'k \<times> cutoff" where
  "RevokeBeforeGet E userID k =
     (case e_valkey E (GET (revokeBeforeKey userID)) k of (r, k') \<Rightarrow> (k', readCutoff r))"

definition RevokeBeforeClientSet :: "'k env \<Rightarrow> string \<Rightarrow> int \<Rightarrow> 'k \<Rightarrow> 'k \<times> bool" where
  "RevokeBeforeClientSet E clientID t k =
     (case e_valkey E (SET (revokeBeforeClientKey clientID) (Decimal (Unix t)) revokeBeforeTTL) k of
        (r, k') \<Rightarrow> (k', r \<noteq> RErr))"

definition RevokeBeforeClientSetNow :: "'k env \<Rightarrow> string \<Rightarrow> 'k \<Rightarrow> 'k \<times> bool" where
  "RevokeBeforeClientSetNow E clientID k =
     RevokeBeforeClientSet E clientID (truncateSecond (e_go_now E) + second) k"

definition RevokeBeforeClientGet :: "'k env \<Rightarrow> string \<Rightarrow> 'k \<Rightarrow> 'k \<times> cutoff" where
  "RevokeBeforeClientGet E clientID k =
     (case e_valkey E (GET (revokeBeforeClientKey clientID)) k of (r, k') \<Rightarrow> (k', readCutoff r))"

section \<open>The contract of the session store\<close>

locale session_store =
  fixes live :: "'s \<Rightarrow> string \<Rightarrow> Session option"
    and good :: "'s \<Rightarrow> bool"
    and now :: int
    and create :: "string \<Rightarrow> string \<Rightarrow> string \<Rightarrow> string \<Rightarrow> 's \<Rightarrow> 's \<times> string option"
    and get :: "string \<Rightarrow> 's \<Rightarrow> 's \<times> Session sessionResult"
    and delete :: "string \<Rightarrow> string \<Rightarrow> 's \<Rightarrow> 's \<times> bool"
    and deleteAll :: "string \<Rightarrow> 's \<Rightarrow> 's \<times> bool"
    and list_by :: "string \<Rightarrow> 's \<Rightarrow> 's \<times> (string \<times> Session) list option"
    and clearPending :: "string \<Rightarrow> 's \<Rightarrow> 's \<times> unit sessionResult"
  assumes create_live: "good s \<Longrightarrow> create uid ip ua ret s = (s', Some tok) \<Longrightarrow> good s' \<and>
      live s' = (live s)(tok \<mapsto> \<lparr>s_UserID = uid, s_CreatedAt = now, s_LastSeenAt = now,
                                 s_IPAddress = ip, s_UserAgent = ua, s_PendingReturnTo = ret\<rparr>)"
    and get_live: "good s \<Longrightarrow> get tok s = (s', r) \<Longrightarrow> good s' \<and>
      (case live s tok of
         None \<Rightarrow> r = SessErrNotFound \<and> live s' = live s
       | Some x \<Rightarrow> r = SessOk (x\<lparr>s_LastSeenAt := now\<rparr>) \<and> live s' = (live s)(tok \<mapsto> x\<lparr>s_LastSeenAt := now\<rparr>))"
    and delete_live: "good s \<Longrightarrow> delete uid tok s = (s', b) \<Longrightarrow>
      good s' \<and> b \<and> live s' = (live s)(tok := None)"
    and deleteAll_live: "good s \<Longrightarrow> deleteAll uid s = (s', b) \<Longrightarrow> good s' \<and> b \<and>
      (\<forall>tok x. live s' tok = Some x \<longrightarrow> live s tok = Some x \<and> s_UserID x \<noteq> uid)"
    and list_live: "good s \<Longrightarrow> list_by uid s = (s', rl) \<Longrightarrow> good s' \<and> live s' = live s \<and>
      (\<exists>l. rl = Some l \<and> (\<forall>(tok, x) \<in> set l. live s tok = Some x) \<and>
           (\<forall>tok x. live s tok = Some x \<longrightarrow> s_UserID x = uid \<longrightarrow> (tok, x) \<in> set l))"
    and clearPending_live: "good s \<Longrightarrow> clearPending tok s = (s', rc) \<Longrightarrow> good s' \<and>
      (case live s tok of
         None \<Rightarrow> rc = SessErrNotFound \<and> live s' = live s
       | Some x \<Rightarrow> rc = SessOk () \<and> live s' = (live s)(tok \<mapsto> x\<lparr>s_PendingReturnTo := []\<rparr>))"
begin

text \<open>A new session can be read with its own token until it is deleted.\<close>

lemma create_get:
  assumes "good s" and "create uid ip ua ret s = (s1, Some tok)" and "get tok s1 = (s2, r)"
  shows "\<exists>x. r = SessOk x \<and> s_UserID x = uid \<and> s_PendingReturnTo x = ret"
  using create_live [OF assms(1,2)] get_live [OF _ assms(3)] by auto

text \<open>After \<open>deleteAll\<close> no token leads to a session of that user, and the listing is empty.\<close>

lemma deleteAll_get:
  assumes "good s" and "deleteAll uid s = (s1, b)" and "get tok s1 = (s2, r)"
  shows "r = SessErrNotFound \<or> (\<exists>x. r = SessOk x \<and> s_UserID x \<noteq> uid)"
proof -
  have "good s1" and d: "\<And>t x. live s1 t = Some x \<Longrightarrow> s_UserID x \<noteq> uid"
    using deleteAll_live [OF assms(1,2)] by auto
  from get_live [OF this(1) assms(3)] d show ?thesis by (cases "live s1 tok") auto
qed

end

section \<open>The Valkey implementation\<close>

definition decSession :: "body \<Rightarrow> Session option" where
  "decSession b = (case b of JSession s \<Rightarrow> Some s | _ \<Rightarrow> None)"

definition liveSession :: "kspace \<Rightarrow> string \<Rightarrow> Session option" where
  "liveSession = storedAt sessionKey (\<lambda>t. True) decSession"

definition session_inv :: "kspace \<Rightarrow> bool" where
  "session_inv = index_inv sessionKey userSessionsKey (\<lambda>t. True) decSession s_UserID"

lemma decSession_Some: "decSession b = Some p \<longleftrightarrow> b = JSession p"
  by (auto simp: decSession_def split: body.splits)

lemma session_keys_differ [key_disjoint]: "sessionKey t \<noteq> userSessionsKey u" "userSessionsKey u \<noteq> sessionKey t"
  by (simp_all add: sessionKey_def userSessionsKey_def)

interpretation sessions: owner_index sessionKey userSessionsKey "\<lambda>t. True" JSession decSession s_UserID
  rewrites "storedAt sessionKey (\<lambda>t. True) decSession = liveSession"
    and "index_inv sessionKey userSessionsKey (\<lambda>t. True) decSession s_UserID = session_inv"
  by unfold_locales
     (auto simp: sessionKey_def userSessionsKey_def decSession_def liveSession_def session_inv_def)

lemma liveSession_Some: "liveSession m t = Some s \<longleftrightarrow> (\<exists>e. m (sessionKey t) = Some (VStr (JSession s), e))"
  by (auto simp: sessions.stored_Some decSession_Some)

lemma liveSession_None: "session_inv m \<Longrightarrow> liveSession m t = None \<longleftrightarrow> m (sessionKey t) = None"
  by (rule sessions.stored_GET(2)) simp_all

text \<open>The sessions depend on their own keys only.\<close>

definition sessionFree :: "string \<Rightarrow> bool" where
  "sessionFree key = (\<forall>x. key \<noteq> sessionKey x \<and> key \<noteq> userSessionsKey x)"

lemma sessions_frame:
  assumes "\<And>k. k \<noteq> key \<Longrightarrow> m' k = m k" and "sessionFree key"
  shows "liveSession m' = liveSession m" and "session_inv m' = session_inv m"
proof -
  have eq: "m' (sessionKey x) = m (sessionKey x)" "m' (userSessionsKey x) = m (userSessionsKey x)" for x
    using assms unfolding sessionFree_def by metis+
  then show live: "liveSession m' = liveSession m" by (simp add: liveSession_def storedAt_def fun_eq_iff)
  show "session_inv m' = session_inv m"
    unfolding session_inv_def index_inv_def liveSession_def [symmetric] live eq ..
qed

text \<open>The reply to \<open>GET\<close>, and the two documents a session is replaced by.\<close>

lemma session_reply:
  assumes "session_inv m"
  shows "vk_exec (GET (sessionKey t)) m =
    (case liveSession m t of None \<Rightarrow> RNil | Some s \<Rightarrow> RBody (JSession s), m)"
  using liveSession_None [OF assms, of t] liveSession_Some [of m t "the (liveSession m t)"]
  by (cases "liveSession m t") auto

lemma collectSessions_space:
  assumes "session_inv m"
  shows "vk_execs (map (\<lambda>t. GET (sessionKey t)) ts) m = (rs, m') \<Longrightarrow> m' = m \<and>
    (\<exists>l. collectSessions ts rs = Some l \<and>
         set l = {(t, s) | t s. t \<in> set ts \<and> liveSession m t = Some s})"
proof (induction ts arbitrary: rs m')
  case Nil
  then show ?case by simp
next
  case (Cons t ts)
  obtain rs1 m1 where r1: "vk_execs (map (\<lambda>t. GET (sessionKey t)) ts) m = (rs1, m1)"
    by (cases rule: prod.exhaust)
  with Cons.prems have "rs = (case liveSession m t of None \<Rightarrow> RNil | Some s \<Rightarrow> RBody (JSession s)) # rs1" "m' = m1"
    using session_reply [OF assms] by (simp_all del: vk_exec.simps)
  with Cons.IH [OF r1] show ?case
    by (cases "liveSession m t") auto
qed

context valkey_service
begin

lemma sessions_kept:
  assumes "V c k = (r, k')" and "sessionFree (cmdKey c)"
  shows "liveSession (view k') = liveSession (view k)" and "session_inv (view k') = session_inv (view k)"
  using sessions_frame [of "cmdKey c" "view k'" "view k"] vk_exec_frame [OF serve [OF assms(1)]] assms(2) by simp_all

text \<open>Creating and deleting a session leaves the other keys alone.\<close>

lemma session_other_keys:
  assumes E: "e_valkey E = V" and free: "sessionFree key"
  shows "CreateWithPendingReturnTo E ttl uid ip ua ret k = (k', r) \<Longrightarrow> view k' key = view k key"
    and "sessionDelete E uid tok k = (k', b) \<Longrightarrow> view k' key = view k key"
    and "DeleteAllForUser E uid k = (k', b) \<Longrightarrow> view k' key = view k key"
proof -
  have ne: "key \<noteq> sessionKey t" "key \<noteq> userSessionsKey t" for t using free by (auto simp: sessionFree_def)
  note fr = pipeline_frame [OF E]
  show "CreateWithPendingReturnTo E ttl uid ip ua ret k = (k', r) \<Longrightarrow> view k' key = view k key"
    by (auto simp: CreateWithPendingReturnTo_def Let_def ne simp del: pipeline.simps dest!: fr [of _ _ _ _ key] split: option.splits prod.splits)
  show "sessionDelete E uid tok k = (k', b) \<Longrightarrow> view k' key = view k key"
    by (auto simp: sessionDelete_def ne simp del: pipeline.simps dest!: fr [of _ _ _ _ key] split: prod.splits)
  assume d: "DeleteAllForUser E uid k = (k', b)"
  obtain rep k1 where rep: "V (SMEMBERS (userSessionsKey uid)) k = (rep, k1)" by (cases rule: prod.exhaust)
  have k1: "view k1 key = view k key" using vk_exec_frame [OF serve [OF rep], of key] ne by simp
  show "view k' key = view k key"
  proof (cases rep)
    case (RMembers ts)
    obtain rs k2 where p: "pipeline E (map (\<lambda>t. DEL (sessionKey t)) ts @ [DEL (userSessionsKey uid)]) k1 = (rs, k2)"
      by (cases rule: prod.exhaust)
    have "view k2 key = view k1 key" by (rule fr [OF p]) (auto simp: ne)
    with d rep RMembers p k1 E show ?thesis by (simp add: DeleteAllForUser_def)
  qed (use d rep k1 E in \<open>auto simp: DeleteAllForUser_def\<close>)
qed

lemma session_create_live:
  assumes E: "e_valkey E = V" and inv: "session_inv (view k)" and ttl: "0 < ttl"
    and buf: "e_rand E ''session'' 0 32 = Some buf"
  shows "\<exists>k'. CreateWithPendingReturnTo E ttl uid ip ua ret k = (k', Some (base64RawURL buf)) \<and>
    session_inv (view k') \<and>
    liveSession (view k') = (liveSession (view k))(base64RawURL buf \<mapsto>
      \<lparr>s_UserID = uid, s_CreatedAt = e_go_now E, s_LastSeenAt = e_go_now E,
       s_IPAddress = ip, s_UserAgent = ua, s_PendingReturnTo = ret\<rparr>)"
proof -
  let ?s = "\<lparr>s_UserID = uid, s_CreatedAt = e_go_now E, s_LastSeenAt = e_go_now E,
       s_IPAddress = ip, s_UserAgent = ua, s_PendingReturnTo = ret\<rparr>"
  obtain rs k1 where pipe: "pipeline E [SET (sessionKey (base64RawURL buf)) (JSession ?s) ttl,
      SADD (userSessionsKey uid) (base64RawURL buf), EXPIRE (userSessionsKey uid) ttl] k = (rs, k1)"
    by (cases rule: prod.exhaust)
  have "\<not> pipeFailed rs \<and> session_inv (view k1) \<and>
      liveSession (view k1) = (liveSession (view k))(base64RawURL buf \<mapsto> ?s)"
    using sessions.create_space [OF inv TrueI ttl, of _ ?s] serve_pipeline [OF E pipe] by simp
  with buf pipe show ?thesis by (simp add: CreateWithPendingReturnTo_def Let_def)
qed

lemma session_get:
  assumes E: "e_valkey E = V" and inv: "session_inv (view k)" and ttl: "0 < ttl"
    and g: "sessionGet E ttl tok k = (k', r)"
  shows "session_inv (view k') \<and>
    (case liveSession (view k) tok of
       None \<Rightarrow> r = SessErrNotFound \<and> liveSession (view k') = liveSession (view k)
     | Some x \<Rightarrow> r = SessOk (x\<lparr>s_LastSeenAt := e_go_now E\<rparr>) \<and>
         liveSession (view k') = (liveSession (view k))(tok \<mapsto> x\<lparr>s_LastSeenAt := e_go_now E\<rparr>))"
proof -
  obtain rep k1 where rep: "V (GET (sessionKey tok)) k = (rep, k1)" by (cases rule: prod.exhaust)
  have k1: "view k1 = view k"
    and repv: "rep = (case liveSession (view k) tok of None \<Rightarrow> RNil | Some s \<Rightarrow> RBody (JSession s))"
    using serve [OF rep] session_reply [OF inv, of tok] by auto
  show ?thesis
  proof (cases "liveSession (view k) tok")
    case None
    with g rep repv k1 inv show ?thesis by (auto simp: sessionGet_def E)
  next
    case (Some x)
    let ?x = "x\<lparr>s_LastSeenAt := e_go_now E\<rparr>"
    obtain rs k2 where p: "pipeline E [SET (sessionKey tok) (JSession ?x) ttl,
        EXPIRE (userSessionsKey (s_UserID x)) ttl] k1 = (rs, k2)" by (cases rule: prod.exhaust)
    obtain xs e where own: "view k (userSessionsKey (s_UserID x)) = Some (VSet xs, e)"
      using sessions.invD(1) [OF inv Some] by blast
    have k2: "view k2 = (view k)(sessionKey tok \<mapsto> (VStr (JSession ?x), Some ttl),
        userSessionsKey (s_UserID x) \<mapsto> (VSet xs, Some ttl))"
      using serve_pipeline [OF E p] own ttl by (auto simp: k1 session_keys_differ)
    have i1: "session_inv ((view k)(sessionKey tok \<mapsto> (VStr (JSession ?x), Some ttl)))"
      by (rule sessions.inv_replace [OF inv Some]) simp
    have "session_inv (view k2)"
      unfolding k2 by (rule sessions.inv_expire [OF i1, of _ "VSet xs" e]) (simp add: own session_keys_differ)
    moreover have "liveSession (view k2) = (liveSession (view k))(tok \<mapsto> ?x)"
      unfolding k2 by (simp add: sessions.stored_upd)
    moreover have "k' = k2" "r = SessOk ?x"
      using g rep repv Some p by (auto simp: sessionGet_def E Let_def)
    ultimately show ?thesis using Some by simp
  qed
qed

lemma session_delete:
  assumes E: "e_valkey E = V" and inv: "session_inv (view k)" and d: "sessionDelete E uid tok k = (k', b)"
  shows "session_inv (view k') \<and> b \<and> liveSession (view k') = (liveSession (view k))(tok := None)"
proof -
  obtain rs k1 where p: "pipeline E [DEL (sessionKey tok), SREM (userSessionsKey uid) tok] k = (rs, k1)"
    by (cases rule: prod.exhaust)
  with sessions.delete_space [OF inv TrueI serve_pipeline [OF E p]] d show ?thesis
    by (simp add: sessionDelete_def)
qed

lemma session_list:
  assumes E: "e_valkey E = V" and inv: "session_inv (view k)" and l: "ListByUser E uid k = (k', r)"
  shows "view k' = view k \<and>
    (\<exists>l. r = Some l \<and> (\<forall>(tok, x) \<in> set l. liveSession (view k) tok = Some x) \<and>
       (\<forall>tok x. liveSession (view k) tok = Some x \<longrightarrow> s_UserID x = uid \<longrightarrow> (tok, x) \<in> set l))"
proof -
  obtain rep k1 where rep: "V (SMEMBERS (userSessionsKey uid)) k = (rep, k1)" by (cases rule: prod.exhaust)
  obtain ts where ts: "view k1 = view k" "rep = RMembers ts"
      "case view k (userSessionsKey uid) of None \<Rightarrow> ts = [] | Some (v, e) \<Rightarrow> v = VSet ts"
    using sessions.members_space [OF inv serve [OF rep]] by blast
  have listed: "tok \<in> set ts" if "liveSession (view k) tok = Some x" "s_UserID x = uid" for tok x
    using sessions.invD(1) [OF inv that(1)] that(2) ts(3) by auto
  obtain rs k2 where p: "pipeline E (map (\<lambda>t. GET (sessionKey t)) ts) k1 = (rs, k2)"
    by (cases rule: prod.exhaust)
  obtain l where c: "view k2 = view k" "collectSessions ts rs = Some l"
      "set l = {(t, s) | t s. t \<in> set ts \<and> liveSession (view k) t = Some s}"
    using collectSessions_space [OF inv serve_pipeline [OF E p, unfolded ts(1)]] by blast
  show ?thesis
  proof (cases "ts = []")
    case True
    with l rep ts(2) have "k' = k1" "r = Some []" by (auto simp: ListByUser_def E)
    moreover have "liveSession (view k) tok = Some x \<Longrightarrow> s_UserID x \<noteq> uid" for tok x
      using listed True by auto
    ultimately show ?thesis using ts(1) by simp
  next
    case False
    with l rep ts(2) p c have "k' = k2" "r = Some l" by (auto simp: ListByUser_def E)
    with c listed show ?thesis by auto
  qed
qed

lemma session_clearPending:
  assumes E: "e_valkey E = V" and inv: "session_inv (view k)"
    and cl: "ClearPendingReturnTo E tok k = (k', r)"
  shows "session_inv (view k') \<and>
    (case liveSession (view k) tok of
       None \<Rightarrow> r = SessErrNotFound \<and> liveSession (view k') = liveSession (view k)
     | Some x \<Rightarrow> r = SessOk () \<and>
         liveSession (view k') = (liveSession (view k))(tok \<mapsto> x\<lparr>s_PendingReturnTo := []\<rparr>))"
proof -
  obtain rep k1 where rep: "V (GET (sessionKey tok)) k = (rep, k1)" by (cases rule: prod.exhaust)
  have k1: "view k1 = view k"
    and repv: "rep = (case liveSession (view k) tok of None \<Rightarrow> RNil | Some s \<Rightarrow> RBody (JSession s))"
    using serve [OF rep] session_reply [OF inv, of tok] by auto
  show ?thesis
  proof (cases "liveSession (view k) tok")
    case None
    with cl rep repv k1 inv show ?thesis by (auto simp: ClearPendingReturnTo_def E)
  next
    case (Some x)
    let ?x = "x\<lparr>s_PendingReturnTo := []\<rparr>"
    show ?thesis
    proof (cases "s_PendingReturnTo x = []")
      case True
      then have "?x = x" by simp
      with True Some cl rep repv k1 inv show ?thesis
        by (auto simp: ClearPendingReturnTo_def E fun_upd_idem)
    next
      case False
      obtain q k2 where q: "V (SET_KEEPTTL (sessionKey tok) (JSession ?x)) k1 = (q, k2)"
        by (cases rule: prod.exhaust)
      define e where "e = (case view k (sessionKey tok) of None \<Rightarrow> None | Some (_, e) \<Rightarrow> e)"
      have k2: "q = ROk" "view k2 = (view k)(sessionKey tok \<mapsto> (VStr (JSession ?x), e))"
        using serve [OF q] k1 by (auto simp: e_def)
      have "k' = k2" "r = SessOk ()"
        using cl rep repv Some False q k2(1) by (auto simp: ClearPendingReturnTo_def E)
      with k2 Some sessions.inv_replace [OF inv Some, of ?x e] show ?thesis
        by (simp add: sessions.stored_upd)
    qed
  qed
qed

lemma session_deleteAll:
  assumes E: "e_valkey E = V" and inv: "session_inv (view k)" and d: "DeleteAllForUser E uid k = (k', b)"
  shows "session_inv (view k') \<and> b \<and>
    (\<forall>tok x. liveSession (view k') tok = Some x \<longrightarrow> liveSession (view k) tok = Some x \<and> s_UserID x \<noteq> uid)"
proof -
  let ?own = "userSessionsKey uid"
  obtain rep k1 where rep: "V (SMEMBERS ?own) k = (rep, k1)" by (cases rule: prod.exhaust)
  obtain ts where ts: "view k1 = view k" "rep = RMembers ts"
      "case view k ?own of None \<Rightarrow> ts = [] | Some (v, e) \<Rightarrow> v = VSet ts"
    using sessions.members_space [OF inv serve [OF rep]] by blast
  let ?cmds = "map (\<lambda>t. DEL (sessionKey t)) ts @ [DEL ?own]"
  have cmds: "?cmds = map DEL (map sessionKey ts @ [?own])" by simp
  obtain rs k2 where p: "pipeline E ?cmds k1 = (rs, k2)" by (cases rule: prod.exhaust)
  have "k' = k2" "b = (\<not> pipeFailed rs)"
    using d rep ts(2) p by (auto simp: DeleteAllForUser_def E)
  with vk_execs_del [OF serve_pipeline [OF E p, unfolded cmds ts(1)]]
    sessions.revoke_space [OF inv ts(3)] show ?thesis by simp
qed

end

text \<open>The contract holds on every server with the documented semantics, for a positive time to
  live.\<close>

lemma valkey_session_store:
  assumes srv: "valkey_service (e_valkey E) view" and ttl: "0 < ttl"
  shows "session_store (\<lambda>k. liveSession (view k)) (\<lambda>k. session_inv (view k)) (e_go_now E)
    (CreateWithPendingReturnTo E ttl) (sessionGet E ttl) (sessionDelete E) (DeleteAllForUser E)
    (ListByUser E) (ClearPendingReturnTo E)"
proof (unfold_locales, goal_cases)
  case (1 s uid ip ua ret s' tok)
  then obtain buf where buf: "e_rand E ''session'' 0 32 = Some buf"
    by (auto simp: CreateWithPendingReturnTo_def split: option.splits)
  from valkey_service.session_create_live [OF srv refl 1(1) ttl buf, of uid ip ua ret] 1(2)
  show ?case by auto
next
  case 2
  from valkey_service.session_get [OF srv refl 2(1) ttl 2(2)] show ?case .
next
  case 3
  from valkey_service.session_delete [OF srv refl 3] show ?case .
next
  case 4
  from valkey_service.session_deleteAll [OF srv refl 4] show ?case .
next
  case 5
  from valkey_service.session_list [OF srv refl 5] 5(1) show ?case by simp
next
  case 6
  from valkey_service.session_clearPending [OF srv refl 6] show ?case .
qed

text \<open>The router builds the store with a time to live of a day.\<close>

definition sessionTTL :: int where "sessionTTL = 24 * 3600 * second"

interpretation keyspace_sessions: session_store liveSession session_inv "e_go_now (E\<lparr>e_valkey := vk_exec\<rparr>)"
  "CreateWithPendingReturnTo (E\<lparr>e_valkey := vk_exec\<rparr>) sessionTTL" "sessionGet (E\<lparr>e_valkey := vk_exec\<rparr>) sessionTTL"
  "sessionDelete (E\<lparr>e_valkey := vk_exec\<rparr>)" "DeleteAllForUser (E\<lparr>e_valkey := vk_exec\<rparr>)"
  "ListByUser (E\<lparr>e_valkey := vk_exec\<rparr>)" "ClearPendingReturnTo (E\<lparr>e_valkey := vk_exec\<rparr>)" for E
  using valkey_session_store [of "E\<lparr>e_valkey := vk_exec\<rparr>" "\<lambda>m. m" sessionTTL] keyspace.valkey_service_axioms
  by (simp add: sessionTTL_def second_def)

end
