(* ===== verification/UsersAdmin.thy ===== *)
theory UsersAdmin
  imports AuthStores Sessions
begin

text \<open>
  User administration: the permissions of \<^verbatim>\<open>internal/users/permission.go\<close> and every handler of
  \<^verbatim>\<open>internal/users/handler.go\<close>. A handler takes the environment, the request, the user the session
  middleware put into the context (if any), the path and body values it reads, and the world.
  \<open>json.Decode\<close> is an argument: \<open>None\<close> is a body that does not decode.
\<close>

section \<open>Permissions\<close>

definition rolePermissions :: "string \<rightharpoonup> string list" where
  "rolePermissions = map_of
     [(''super_admin'',
       [''users.list'', ''users.read'', ''users.create'', ''users.update'', ''users.enable'', ''users.disable'',
        ''users.delete'', ''users.reset_password'', ''users.sessions.read'', ''users.sessions.terminate'',
        ''users.reset_mfa'', ''signing_keys.list'', ''signing_keys.rotate'', ''signing_keys.retire'',
        ''settings.read'', ''settings.write'', ''clients.list'', ''clients.read'', ''clients.create'',
        ''clients.update'', ''clients.disable'', ''clients.enable'', ''clients.rotate_secret'', ''clients.delete'']),
      (''user'', [])]"

definition PermissionsForRole :: "string \<Rightarrow> string list" where
  "PermissionsForRole role = (case rolePermissions role of None \<Rightarrow> [] | Some perms \<Rightarrow> perms)"

definition requireUser :: "User option \<Rightarrow> 'b response + User" where
  "requireUser cu =
     (case cu of None \<Rightarrow> Inl (WriteError 401 ''INVALID_SESSION'' ''Not authenticated.'') | Some u \<Rightarrow> Inr u)"

text \<open>The middleware around \<open>handler\<close>: it answers itself (\<open>Inl\<close>) or leaves the answer to it (\<open>Inr\<close>).\<close>

definition RequirePermission
  :: "string \<Rightarrow> User option \<Rightarrow> ('k world \<Rightarrow> 'k world \<times> 'r) \<Rightarrow> 'k world \<Rightarrow> 'k world \<times> (unit response + 'r)" where
  "RequirePermission perm cu handler w =
     (case requireUser cu of
        Inl e \<Rightarrow> (w, Inl e)
      | Inr user \<Rightarrow>
          if perm \<in> set (PermissionsForRole (u_Role user)) then apsnd Inr (handler w)
          else (w, Inl (WriteError 403 ''FORBIDDEN'' ''This action requires a different permission.'')))"

section \<open>Shared guards\<close>

definition parseUserID :: "'k env \<Rightarrow> string \<Rightarrow> 'b response + uuid" where
  "parseUserID E raw =
     (case e_uuid_parse E raw of
        None \<Rightarrow> Inl (WriteError 400 ''VALIDATION_ERROR'' ''Invalid user id.'')
      | Some uid \<Rightarrow> Inr uid)"

definition rejectSelfOp :: "User option \<Rightarrow> uuid \<Rightarrow> 'b response + unit" where
  "rejectSelfOp cu targetID =
     (case cu of
        None \<Rightarrow> Inl (WriteError 401 ''INVALID_SESSION'' ''Not authenticated.'')
      | Some current \<Rightarrow>
          if u_ID current = targetID
          then Inl (WriteError 400 ''CANNOT_OPERATE_ON_SELF'' ''You cannot perform this action on your own account.'')
          else Inr ())"

definition activeAdmin :: "User \<Rightarrow> bool" where
  "activeAdmin u = (u_Role u = ''super_admin'' \<and> u_Status u = ''active'')"

definition lockSuperAdminsForUpdate :: "'k env \<Rightarrow> tx \<Rightarrow> tx \<times> (err + unit)" where
  "lockSuperAdminsForUpdate E = query E ''users.lockSuperAdmins'' (\<lambda>d. ())"

definition remainingActiveSuperAdmins :: "'k env \<Rightarrow> tx \<Rightarrow> tx \<times> (err + nat)" where
  "remainingActiveSuperAdmins E =
     query E ''users.remainingActiveSuperAdmins'' (\<lambda>d. length (filter activeAdmin (db_users d)))"

definition enforceLastAdminLockout :: "'k env \<Rightarrow> tx \<Rightarrow> tx \<times> ('b response + unit)" where
  "enforceLastAdminLockout E t =
     (case remainingActiveSuperAdmins E t of
        (t1, Inl e) \<Rightarrow> (t1, Inl internalError)
      | (t1, Inr n) \<Rightarrow>
          (t1, if n = 0 then Inl (WriteError 400 ''LAST_ADMIN_LOCKOUT'' ''Cannot leave the system without an active super_admin.'')
               else Inr ()))"

definition userError :: "err \<Rightarrow> 'b response" where
  "userError e =
     (if e = ErrUserNotFound then WriteError 404 ''USER_NOT_FOUND'' ''User not found.'' else internalError)"

definition uniqueViolationAsEmailConflict :: "err \<Rightarrow> 'b response option" where
  "uniqueViolationAsEmailConflict e =
     (if e = ErrUnique then Some (WriteError 409 ''EMAIL_ALREADY_EXISTS'' ''A user with that email already exists.'')
      else None)"

definition conflictOr :: "(err \<Rightarrow> 'b response) \<Rightarrow> err \<Rightarrow> 'b response" where
  "conflictOr f e = (case uniqueViolationAsEmailConflict e of Some r \<Rightarrow> r | None \<Rightarrow> f e)"

text \<open>\<open>&current.ID\<close> on a nil user panics, and the deferred rollback runs.\<close>

definition derefUser :: "User option \<Rightarrow> (User \<Rightarrow> 'b response + 'c) \<Rightarrow> 'b response + 'c" where
  "derefUser cu k = (case cu of None \<Rightarrow> Inl PanicNil | Some u \<Rightarrow> k u)"

definition userAudit
  :: "'k env \<Rightarrow> request \<Rightarrow> string \<Rightarrow> User \<Rightarrow> uuid \<Rightarrow> (string \<times> metaval) list \<Rightarrow> tx \<Rightarrow> tx \<times> (err + unit)" where
  "userAudit E req event actor target meta =
     Log E (req_CorrelationID req) (adminEntry E req event actor ''user'' target meta)"

text \<open>Sessions first, then the cutoff; both failures are only logged.\<close>

definition revokeAccess :: "'k env \<Rightarrow> uuid \<Rightarrow> 'k \<Rightarrow> 'k" where
  "revokeAccess E uid k =
     fst (RevokeBeforeSetNow E (e_uuid_string E uid) (fst (DeleteAllForUser E (e_uuid_string E uid) k)))"

section \<open>Replies\<close>

record UserDTO =
  ud_ID :: string
  ud_Email :: string
  ud_Role :: string
  ud_Status :: string
  ud_ForcePasswordChange :: bool
  ud_CreatedAt :: int
  ud_UpdatedAt :: int
  ud_TOTPEnrolledAt :: "int option"
  ud_LastLoginAt :: "int option"

definition userDTO :: "'k env \<Rightarrow> User \<Rightarrow> UserDTO" where
  "userDTO E u =
     \<lparr>ud_ID = e_uuid_string E (u_ID u), ud_Email = u_Email u, ud_Role = u_Role u, ud_Status = u_Status u,
      ud_ForcePasswordChange = u_ForcePasswordChange u, ud_CreatedAt = u_CreatedAt u, ud_UpdatedAt = u_UpdatedAt u,
      ud_TOTPEnrolledAt = u_TOTPEnrolledAt u, ud_LastLoginAt = u_LastLoginAt u\<rparr>"

record SessionDTO =
  sd_Token :: string
  sd_CreatedAt :: int
  sd_LastSeenAt :: int
  sd_IPAddress :: string
  sd_UserAgent :: string

definition sessionDTO :: "string \<times> Session \<Rightarrow> SessionDTO" where
  "sessionDTO ts =
     \<lparr>sd_Token = fst ts, sd_CreatedAt = s_CreatedAt (snd ts), sd_LastSeenAt = s_LastSeenAt (snd ts),
      sd_IPAddress = s_IPAddress (snd ts), sd_UserAgent = s_UserAgent (snd ts)\<rparr>"

datatype usersBody =
    UsersPage "UserDTO list" nat int int     \<comment> \<open>users, total, limit, offset\<close>
  | CreatedUser UserDTO string               \<comment> \<open>with the temporary password\<close>
  | UserWithSessions UserDTO "SessionDTO list"
  | OneUser UserDTO
  | TemporaryPassword string
  | SessionsOf "SessionDTO list"

section \<open>Handlers\<close>

text \<open>\<open>strconv.Atoi\<close>: an optional sign and decimal digits that fit 64 bits.\<close>

definition atoi :: "string \<Rightarrow> int option" where
  "atoi s =
     (let neg = (s \<noteq> [] \<and> hd s = CHR ''-'');
          ds = (if s \<noteq> [] \<and> (hd s = CHR ''-'' \<or> hd s = CHR ''+'') then tl s else s);
          n = (if neg then - int (readNat ds) else int (readNat ds))
      in if ds = [] \<or> \<not> list_all isDigitByte ds \<or> n < - (2 ^ 63) \<or> 2 ^ 63 \<le> n then None else Some n)"

definition pageLimit :: "string \<Rightarrow> int" where
  "pageLimit v =
     (let limit = (case atoi v of Some n \<Rightarrow> if v \<noteq> [] \<and> n > 0 then n else 50 | None \<Rightarrow> 50)
      in if limit > 200 then 200 else limit)"

definition pageOffset :: "string \<Rightarrow> int" where
  "pageOffset v = (case atoi v of Some n \<Rightarrow> if v \<noteq> [] \<and> n \<ge> 0 then n else 0 | None \<Rightarrow> 0)"

definition UsersList :: "'k env \<Rightarrow> (string \<times> string) list \<Rightarrow> 'k world \<Rightarrow> 'k world \<times> usersBody response" where
  "UsersList E qry w =
     (let limit = pageLimit (formGet qry ''limit''); offset = pageOffset (formGet qry ''offset'')
      in case snd (UserList E \<lparr>lu_Limit = limit, lu_Offset = offset, lu_EmailSearch = formGet qry ''email''\<rparr>
                     (pool (w_db w))) of
           Inl e \<Rightarrow> (w, internalError)
         | Inr (us, n) \<Rightarrow> (w, WriteJSON 200 (UsersPage (map (userDTO E) us) n limit offset)))"

record createUserRequest =
  cur_Email :: string
  cur_Role :: string

definition validEmail :: "string \<Rightarrow> bool" where
  "validEmail email = (email \<noteq> [] \<and> contains email ''@'')"

definition createBody
  :: "'k env \<Rightarrow> request \<Rightarrow> User \<Rightarrow> string \<Rightarrow> string \<Rightarrow> string \<Rightarrow> tx \<Rightarrow> usersBody response + tx \<times> uuid" where
  "createBody E req current email role hash t =
     attempt (UserCreate E email hash role True t) (conflictOr fail500) (\<lambda>t newID.
     attempt (userAudit E req ''user.created'' current newID [(''email'', MStr email), (''role'', MStr role)] t) fail500 (\<lambda>t _.
     Inr (t, newID)))"

definition UsersCreate
  :: "'k env \<Rightarrow> request \<Rightarrow> User option \<Rightarrow> createUserRequest option \<Rightarrow> 'k world \<Rightarrow> 'k world \<times> usersBody response" where
  "UsersCreate E req cu body w =
     (case body of
        None \<Rightarrow> (w, WriteError 400 ''VALIDATION_ERROR'' ''Invalid request body.'')
      | Some b \<Rightarrow>
          if \<not> validEmail (cur_Email b) then (w, WriteError 400 ''VALIDATION_ERROR'' ''Invalid email.'')
          else let email = toLower (cur_Email b) in
          if \<not> roleOk (cur_Role b) then (w, WriteError 400 ''VALIDATION_ERROR'' ''role must be 'super_admin' or 'user'.'')
          else case GenerateTemporaryPassword E of
            None \<Rightarrow> (w, internalError)
          | Some tempPassword \<Rightarrow>
              (case HashPassword E ''users.Create'' 0 tempPassword of
                 None \<Rightarrow> (w, internalError)
               | Some hash \<Rightarrow>
                   orReturn w (requireUser cu) (\<lambda>current.
                     case inTx E ''users.Create'' (createBody E req current email (cur_Role b) hash) (w_db w) of
                       (d, Inl r) \<Rightarrow> (w\<lparr>w_db := d\<rparr>, r)
                     | (d, Inr newID) \<Rightarrow>
                         (w\<lparr>w_db := d\<rparr>,
                          case snd (UserGetByID E ''users.Create.refetch'' newID (pool d)) of
                            Inl e \<Rightarrow> internalError
                          | Inr fresh \<Rightarrow> WriteJSON 201 (CreatedUser (userDTO E fresh) tempPassword)))))"

definition UsersGet :: "'k env \<Rightarrow> string \<Rightarrow> 'k world \<Rightarrow> 'k world \<times> usersBody response" where
  "UsersGet E idStr w =
     orReturn w (parseUserID E idStr) (\<lambda>uid.
       case snd (UserGetByID E ''users.Get'' uid (pool (w_db w))) of
         Inl e \<Rightarrow> (w, userError e)
       | Inr u \<Rightarrow>
           (case ListByUser E (e_uuid_string E uid) (w_vk w) of
              (k, sessions) \<Rightarrow>
                (w\<lparr>w_vk := k\<rparr>,
                 WriteJSON 200 (UserWithSessions (userDTO E u)
                   (map sessionDTO (case sessions of None \<Rightarrow> [] | Some l \<Rightarrow> l))))))"

record updateUserRequest =
  uur_Email :: "string option"
  uur_Role :: "string option"

definition changedFields :: "updateUserRequest \<Rightarrow> User \<Rightarrow> (string \<times> metaval) list" where
  "changedFields b existing =
     (let change = (\<lambda>name old new.
            case new of None \<Rightarrow> []
            | Some v \<Rightarrow> if v \<noteq> old then [(name, MMap [(''from'', MStr old), (''to'', MStr v)])] else [])
      in change ''email'' (u_Email existing) (uur_Email b) @ change ''role'' (u_Role existing) (uur_Role b))"

text \<open>The transaction of \<open>Update\<close>, from the row it read to the audit entry; \<open>writeUpdate\<close> is the part
  after the read.\<close>

definition writeUpdate
  :: "'k env \<Rightarrow> request \<Rightarrow> User \<Rightarrow> uuid \<Rightarrow> updateUserRequest \<Rightarrow> User \<Rightarrow> tx \<Rightarrow> usersBody response + tx \<times> unit" where
  "writeUpdate E req current uid b existing t =
     (let newEmail = (case uur_Email b of None \<Rightarrow> u_Email existing | Some e \<Rightarrow> e);
          newRole = (case uur_Role b of None \<Rightarrow> u_Role existing | Some r \<Rightarrow> r);
          demoting = (u_Role existing = ''super_admin'' \<and> newRole \<noteq> ''super_admin'')
      in attempt (if demoting then lockSuperAdminsForUpdate E t else (t, Inr ())) fail500 (\<lambda>t _.
         attempt (UserUpdate E uid newEmail newRole t) (conflictOr userError) (\<lambda>t _.
         attempt (if demoting then enforceLastAdminLockout E t else (t, Inr ())) (\<lambda>r. r) (\<lambda>t _.
         attempt (userAudit E req ''user.updated'' current uid [(''changed_fields'', MMap (changedFields b existing))] t) fail500 (\<lambda>t _.
         Inr (t, ()))))))"

definition updateBody
  :: "'k env \<Rightarrow> request \<Rightarrow> User \<Rightarrow> uuid \<Rightarrow> updateUserRequest \<Rightarrow> tx \<Rightarrow> usersBody response + tx \<times> unit" where
  "updateBody E req current uid b t =
     attempt (UserGetByID E ''users.Update.get'' uid t) userError (\<lambda>t existing. writeUpdate E req current uid b existing t)"

definition validateUpdate :: "updateUserRequest \<Rightarrow> 'b response + updateUserRequest" where
  "validateUpdate b =
     (if uur_Email b = None \<and> uur_Role b = None
      then Inl (WriteError 400 ''VALIDATION_ERROR'' ''At least one of email or role is required.'')
      else if (case uur_Email b of None \<Rightarrow> False | Some e \<Rightarrow> \<not> validEmail e)
      then Inl (WriteError 400 ''VALIDATION_ERROR'' ''Invalid email.'')
      else if (case uur_Role b of None \<Rightarrow> False | Some r \<Rightarrow> \<not> roleOk r)
      then Inl (WriteError 400 ''VALIDATION_ERROR'' ''role must be 'super_admin' or 'user'.'')
      else Inr (b\<lparr>uur_Email := map_option toLower (uur_Email b)\<rparr>))"

definition UsersUpdate
  :: "'k env \<Rightarrow> request \<Rightarrow> User option \<Rightarrow> string \<Rightarrow> updateUserRequest option \<Rightarrow> 'k world \<Rightarrow> 'k world \<times> usersBody response" where
  "UsersUpdate E req cu idStr body w =
     orReturn w (parseUserID E idStr) (\<lambda>uid.
     case body of
       None \<Rightarrow> (w, WriteError 400 ''VALIDATION_ERROR'' ''Invalid request body.'')
     | Some b0 \<Rightarrow>
         orReturn w (validateUpdate b0) (\<lambda>b.
         orReturn w (if uur_Role b \<noteq> None then rejectSelfOp cu uid else Inr ()) (\<lambda>_.
         orReturn w (requireUser cu) (\<lambda>current.
           case inTx E ''users.Update'' (updateBody E req current uid b) (w_db w) of
             (d, Inl r) \<Rightarrow> (w\<lparr>w_db := d\<rparr>, r)
           | (d, Inr _) \<Rightarrow>
               (w\<lparr>w_db := d\<rparr>,
                case snd (UserGetByID E ''users.Update.refetch'' uid (pool d)) of
                  Inl e \<Rightarrow> internalError
                | Inr fresh \<Rightarrow> WriteJSON 200 (OneUser (userDTO E fresh)))))))"

definition disableBody :: "'k env \<Rightarrow> request \<Rightarrow> User \<Rightarrow> uuid \<Rightarrow> tx \<Rightarrow> usersBody response + tx \<times> unit" where
  "disableBody E req current uid t =
     attempt (lockSuperAdminsForUpdate E t) fail500 (\<lambda>t _.
     attempt (UserGetByID E ''users.Disable.get'' uid t) userError (\<lambda>t existing.
     attempt (UserSetStatus E uid ''disabled'' t) userError (\<lambda>t _.
     attempt (if u_Role existing = ''super_admin'' then enforceLastAdminLockout E t else (t, Inr ())) (\<lambda>r. r) (\<lambda>t _.
     attempt (userAudit E req ''user.disabled'' current uid
                [(''email'', MStr (u_Email existing)), (''role'', MStr (u_Role existing))] t) fail500 (\<lambda>t _.
     attempt (userAudit E req ''user.revoke_before_set'' current uid [(''reason'', MStr ''disable'')] t) fail500 (\<lambda>t _.
     Inr (t, ())))))))"

definition UsersDisable
  :: "'k env \<Rightarrow> request \<Rightarrow> User option \<Rightarrow> string \<Rightarrow> 'k world \<Rightarrow> 'k world \<times> usersBody response" where
  "UsersDisable E req cu idStr w =
     orReturn w (parseUserID E idStr) (\<lambda>uid.
     orReturn w (rejectSelfOp cu uid) (\<lambda>_.
     orReturn w (requireUser cu) (\<lambda>current.
       case inTx E ''users.Disable'' (disableBody E req current uid) (w_db w) of
         (d, Inl r) \<Rightarrow> (w\<lparr>w_db := d\<rparr>, r)
       | (d, Inr _) \<Rightarrow> (\<lparr>w_db = d, w_vk = revokeAccess E uid (w_vk w)\<rparr>, NoContent))))"

definition enableBody :: "'k env \<Rightarrow> request \<Rightarrow> User \<Rightarrow> uuid \<Rightarrow> tx \<Rightarrow> usersBody response + tx \<times> unit" where
  "enableBody E req current uid t =
     attempt (UserGetByID E ''users.Enable.get'' uid t) userError (\<lambda>t existing.
     attempt (UserSetStatus E uid ''active'' t) userError (\<lambda>t _.
     attempt (userAudit E req ''user.enabled'' current uid
                [(''email'', MStr (u_Email existing)), (''role'', MStr (u_Role existing))] t) fail500 (\<lambda>t _.
     Inr (t, ()))))"

definition UsersEnable
  :: "'k env \<Rightarrow> request \<Rightarrow> User option \<Rightarrow> string \<Rightarrow> 'k world \<Rightarrow> 'k world \<times> usersBody response" where
  "UsersEnable E req cu idStr w =
     orReturn w (parseUserID E idStr) (\<lambda>uid.
     orReturn w (requireUser cu) (\<lambda>current.
       case inTx E ''users.Enable'' (enableBody E req current uid) (w_db w) of
         (d, Inl r) \<Rightarrow> (w\<lparr>w_db := d\<rparr>, r)
       | (d, Inr _) \<Rightarrow> (w\<lparr>w_db := d\<rparr>, NoContent)))"

definition resetPasswordBody
  :: "'k env \<Rightarrow> request \<Rightarrow> User \<Rightarrow> uuid \<Rightarrow> string \<Rightarrow> tx \<Rightarrow> usersBody response + tx \<times> unit" where
  "resetPasswordBody E req current uid hash t =
     attempt (UserGetByID E ''users.ResetPassword.get'' uid t) userError (\<lambda>t existing.
     attempt (SetPasswordHash E uid hash True t) userError (\<lambda>t _.
     attempt (ClearLockoutForPasswordChange E uid t) fail500 (\<lambda>t _.
     attempt (userAudit E req ''user.password_reset'' current uid [(''email'', MStr (u_Email existing))] t) fail500 (\<lambda>t _.
     attempt (userAudit E req ''user.revoke_before_set'' current uid [(''reason'', MStr ''password_reset'')] t) fail500 (\<lambda>t _.
     Inr (t, ()))))))"

definition UsersResetPassword
  :: "'k env \<Rightarrow> request \<Rightarrow> User option \<Rightarrow> string \<Rightarrow> 'k world \<Rightarrow> 'k world \<times> usersBody response" where
  "UsersResetPassword E req cu idStr w =
     orReturn w (parseUserID E idStr) (\<lambda>uid.
     orReturn w (rejectSelfOp cu uid) (\<lambda>_.
     case GenerateTemporaryPassword E of
       None \<Rightarrow> (w, internalError)
     | Some tempPassword \<Rightarrow>
         (case HashPassword E ''users.ResetPassword'' 0 tempPassword of
            None \<Rightarrow> (w, internalError)
          | Some hash \<Rightarrow>
              orReturn w (requireUser cu) (\<lambda>current.
                case inTx E ''users.ResetPassword'' (resetPasswordBody E req current uid hash) (w_db w) of
                  (d, Inl r) \<Rightarrow> (w\<lparr>w_db := d\<rparr>, r)
                | (d, Inr _) \<Rightarrow>
                    (\<lparr>w_db = d, w_vk = revokeAccess E uid (w_vk w)\<rparr>, WriteJSON 200 (TemporaryPassword tempPassword))))))"

definition deleteBody :: "'k env \<Rightarrow> request \<Rightarrow> User \<Rightarrow> uuid \<Rightarrow> tx \<Rightarrow> usersBody response + tx \<times> unit" where
  "deleteBody E req current uid t =
     attempt (lockSuperAdminsForUpdate E t) fail500 (\<lambda>t _.
     attempt (UserGetByID E ''users.Delete.get'' uid t) userError (\<lambda>t target.
     attempt (UserDelete E uid t) userError (\<lambda>t _.
     attempt (if u_Role target = ''super_admin'' then enforceLastAdminLockout E t else (t, Inr ())) (\<lambda>r. r) (\<lambda>t _.
     attempt (PseudonymizeUser E uid t) fail500 (\<lambda>t rowsScrubbed.
     attempt (userAudit E req ''user.audit_pseudonymized'' current uid
                [(''rows_updated'', MInt (int rowsScrubbed))] t) fail500 (\<lambda>t _.
     attempt (userAudit E req ''user.deleted'' current uid
                [(''deleted_user_email'', MStr (u_Email target)), (''deleted_user_role'', MStr (u_Role target))] t) fail500 (\<lambda>t _.
     Inr (t, ()))))))))"

definition UsersDelete
  :: "'k env \<Rightarrow> request \<Rightarrow> User option \<Rightarrow> string \<Rightarrow> 'k world \<Rightarrow> 'k world \<times> usersBody response" where
  "UsersDelete E req cu idStr w =
     orReturn w (parseUserID E idStr) (\<lambda>uid.
     orReturn w (rejectSelfOp cu uid) (\<lambda>_.
     orReturn w (requireUser cu) (\<lambda>current.
       case inTx E ''users.Delete'' (deleteBody E req current uid) (w_db w) of
         (d, Inl r) \<Rightarrow> (w\<lparr>w_db := d\<rparr>, r)
       | (d, Inr _) \<Rightarrow>
           (\<lparr>w_db = d, w_vk = fst (DeleteAllForUser E (e_uuid_string E uid) (w_vk w))\<rparr>, NoContent))))"

definition UsersListSessions :: "'k env \<Rightarrow> string \<Rightarrow> 'k world \<Rightarrow> 'k world \<times> usersBody response" where
  "UsersListSessions E idStr w =
     orReturn w (parseUserID E idStr) (\<lambda>uid.
       case ListByUser E (e_uuid_string E uid) (w_vk w) of
         (k, None) \<Rightarrow> (w\<lparr>w_vk := k\<rparr>, internalError)
       | (k, Some l) \<Rightarrow> (w\<lparr>w_vk := k\<rparr>, WriteJSON 200 (SessionsOf (map sessionDTO l))))"

definition terminateAllBody
  :: "'k env \<Rightarrow> request \<Rightarrow> User option \<Rightarrow> uuid \<Rightarrow> nat \<Rightarrow> tx \<Rightarrow> usersBody response + tx \<times> unit" where
  "terminateAllBody E req cu uid beforeCount t =
     derefUser cu (\<lambda>current.
     attempt (userAudit E req ''user.sessions_terminated'' current uid
                [(''terminated_count'', MInt (int beforeCount))] t) fail500 (\<lambda>t _.
     attempt (userAudit E req ''user.revoke_before_set'' current uid [(''reason'', MStr ''sessions_terminated'')] t) fail500 (\<lambda>t _.
     Inr (t, ()))))"

definition UsersTerminateAllSessions
  :: "'k env \<Rightarrow> request \<Rightarrow> User option \<Rightarrow> string \<Rightarrow> 'k world \<Rightarrow> 'k world \<times> usersBody response" where
  "UsersTerminateAllSessions E req cu idStr w =
     orReturn w (parseUserID E idStr) (\<lambda>uid.
       case ListByUser E (e_uuid_string E uid) (w_vk w) of
         (k, sessions) \<Rightarrow>
           (case inTx E ''users.TerminateAllSessions''
                   (terminateAllBody E req cu uid (case sessions of None \<Rightarrow> 0 | Some l \<Rightarrow> length l)) (w_db w) of
              (d, Inl r) \<Rightarrow> (\<lparr>w_db = d, w_vk = k\<rparr>, r)
            | (d, Inr _) \<Rightarrow> (\<lparr>w_db = d, w_vk = revokeAccess E uid k\<rparr>, NoContent)))"

definition resetMFABody
  :: "'k env \<Rightarrow> request \<Rightarrow> User option \<Rightarrow> uuid \<Rightarrow> int \<Rightarrow> tx \<Rightarrow> usersBody response + tx \<times> unit" where
  "resetMFABody E req cu targetID enrolledAt t =
     attempt (RecoveryDeleteAllForUser E targetID t) fail500 (\<lambda>t deleted.
     attempt (ClearTOTP E targetID t) fail500 (\<lambda>t _.
     derefUser cu (\<lambda>acting.
     attempt (userAudit E req ''mfa.reset'' acting targetID
                [(''recovery_codes_burned'', MInt (int deleted)), (''was_enrolled_at'', MTime (Unix enrolledAt))] t) fail500 (\<lambda>t _.
     attempt (userAudit E req ''user.revoke_before_set'' acting targetID [(''reason'', MStr ''mfa_reset'')] t) fail500 (\<lambda>t _.
     Inr (t, ()))))))"

definition UsersResetMFA
  :: "'k env \<Rightarrow> request \<Rightarrow> User option \<Rightarrow> string \<Rightarrow> 'k world \<Rightarrow> 'k world \<times> usersBody response" where
  "UsersResetMFA E req cu idStr w =
     orReturn w (parseUserID E idStr) (\<lambda>targetID.
     orReturn w (rejectSelfOp cu targetID) (\<lambda>_.
     case snd (UserGetByID E ''users.ResetMFA.get'' targetID (pool (w_db w))) of
       Inl e \<Rightarrow> (w, userError e)
     | Inr target \<Rightarrow>
         (case u_TOTPEnrolledAt target of
            None \<Rightarrow> (w, WriteError 400 ''MFA_NOT_ENROLLED'' ''This user has not enrolled in MFA.'')
          | Some enrolledAt \<Rightarrow>
              (case inTx E ''users.ResetMFA'' (resetMFABody E req cu targetID enrolledAt) (w_db w) of
                 (d, Inl r) \<Rightarrow> (w\<lparr>w_db := d\<rparr>, r)
               | (d, Inr _) \<Rightarrow>
                   (\<lparr>w_db = d, w_vk = revokeAccess E targetID (w_vk w)\<rparr>,
                    case snd (UserGetByID E ''users.ResetMFA.refetch'' targetID (pool d)) of
                      Inl e \<Rightarrow> PanicNil
                    | Inr updated \<Rightarrow> WriteJSON 200 (OneUser (userDTO E updated)))))))"

definition terminateSessionBody
  :: "'k env \<Rightarrow> request \<Rightarrow> User option \<Rightarrow> uuid \<Rightarrow> string \<Rightarrow> tx \<Rightarrow> usersBody response + tx \<times> unit" where
  "terminateSessionBody E req cu uid token t =
     derefUser cu (\<lambda>current.
     attempt (userAudit E req ''session.terminated'' current uid [(''token_prefix'', MStr (take 8 token))] t) fail500 (\<lambda>t _.
     Inr (t, ())))"

definition UsersTerminateSession
  :: "'k env \<Rightarrow> request \<Rightarrow> User option \<Rightarrow> string \<Rightarrow> string \<Rightarrow> 'k world \<Rightarrow> 'k world \<times> usersBody response" where
  "UsersTerminateSession E req cu idStr token w =
     orReturn w (parseUserID E idStr) (\<lambda>uid.
     if token = [] then (w, WriteError 400 ''VALIDATION_ERROR'' ''Missing token.'')
     else case inTx E ''users.TerminateSession'' (terminateSessionBody E req cu uid token) (w_db w) of
            (d, Inl r) \<Rightarrow> (w\<lparr>w_db := d\<rparr>, r)
          | (d, Inr _) \<Rightarrow>
              (\<lparr>w_db = d, w_vk = fst (sessionDelete E (e_uuid_string E uid) token (w_vk w))\<rparr>, NoContent))"

end
