(* ===== verification/ClientStore.thy ===== *)
theory ClientStore
  imports Crypto UserStore
begin

text \<open>
  \<^verbatim>\<open>internal/clients/store.go\<close>: the operations on the \<open>clients\<close> table, the secret check with its
  rotation overlap and the redirect URI comparison. A Go slice that may be nil is an option here:
  nil reaches a \<open>NOT NULL\<close> column as \<open>NULL\<close>.
\<close>

section \<open>Operations\<close>

definition clientSelect
  :: "'k env \<Rightarrow> string \<Rightarrow> string \<Rightarrow> (Client \<Rightarrow> bool) \<Rightarrow> tx \<Rightarrow> tx \<times> (err + Client)" where
  "clientSelect E site cid ok t =
     (case e_uuid_parse E cid of
        None \<Rightarrow> (t, Inl ErrClientNotFound)
      | Some uid \<Rightarrow>
          needOne ErrClientNotFound
            (query E site (\<lambda>d. find (\<lambda>c. c_ID c = uid \<and> ok c) (db_clients d)) t))"

definition ClientGetByID :: "'k env \<Rightarrow> string \<Rightarrow> string \<Rightarrow> tx \<Rightarrow> tx \<times> (err + Client)" where
  "ClientGetByID E site cid t = clientSelect E site cid (\<lambda>c. c_Status c = ''active'') t"

definition GetByIDAny :: "'k env \<Rightarrow> string \<Rightarrow> tx \<Rightarrow> tx \<times> (err + Client)" where
  "GetByIDAny E cid t = clientSelect E ''clients.GetByIDAny'' cid (\<lambda>c. True) t"

definition GetByIDForUpdate :: "'k env \<Rightarrow> string \<Rightarrow> tx \<Rightarrow> tx \<times> (err + Client)" where
  "GetByIDForUpdate E cid t = clientSelect E ''clients.GetByIDForUpdate'' cid (\<lambda>c. True) t"

text \<open>The current secret first, then the previous one while the overlap window is open.\<close>

definition checkSecrets :: "'k env \<Rightarrow> string \<Rightarrow> Client \<Rightarrow> err + bool" where
  "checkSecrets E secret c =
     (let previous =
        (case (c_SecretHashPrevious c, c_SecretPreviousExpiresAt c) of
           (Some h, Some expires) \<Rightarrow>
             if e_go_now E < expires
             then (case VerifyPassword E secret h of None \<Rightarrow> Inl ErrCrypto | Some ok \<Rightarrow> Inr ok)
             else Inr False
         | _ \<Rightarrow> Inr False)
      in case c_SecretHash c of
           None \<Rightarrow> previous
         | Some h \<Rightarrow>
             (case VerifyPassword E secret h of
                None \<Rightarrow> Inl ErrCrypto
              | Some ok \<Rightarrow> if ok then Inr True else previous))"

definition VerifySecret :: "'k env \<Rightarrow> string \<Rightarrow> string \<Rightarrow> tx \<Rightarrow> tx \<times> (err + bool)" where
  "VerifySecret E cid secret t =
     (case ClientGetByID E ''clients.VerifySecret'' cid t of
        (t', Inl e) \<Rightarrow> (t', Inl e)
      | (t', Inr c) \<Rightarrow> (t', checkSecrets E secret c))"

definition ClientList :: "'k env \<Rightarrow> string \<Rightarrow> tx \<Rightarrow> tx \<times> (err + Client list)" where
  "ClientList E status t =
     (if status \<notin> {''active'', ''disabled'', ''all''} then (t, Inl ErrDB)
      else query E ''clients.List''
        (\<lambda>d. sort_key (\<lambda>c. - c_CreatedAt c)
               (filter (\<lambda>c. status = ''all'' \<or> c_Status c = status) (db_clients d))) t)"

definition ValidateRedirectURI :: "Client \<Rightarrow> string \<Rightarrow> bool" where
  "ValidateRedirectURI c presented = list_ex (\<lambda>r. r = presented) (c_RedirectURIs c)"

record CreateClientParams =
  cp_Name :: string
  cp_ClientType :: string
  cp_SecretHash :: string
  cp_RedirectURIs :: "string list option"
  cp_AllowedGrantTypes :: "string list option"
  cp_AllowedScopes :: "string list option"
  cp_TokenEndpointAuthMethod :: string
  cp_CreatedByUserID :: "uuid option"

text \<open>The check constraints of the table.\<close>

definition clientRowOk :: "Client \<Rightarrow> bool" where
  "clientRowOk c =
     ((c_ClientType c = ''public'' \<and> c_SecretHash c = None \<or>
       c_ClientType c = ''confidential'' \<and> c_SecretHash c \<noteq> None) \<and>
      (c_SecretHashPrevious c = None \<longleftrightarrow> c_SecretPreviousExpiresAt c = None) \<and>
      c_TokenEndpointAuthMethod c \<in> {''client_secret_post'', ''none''} \<and>
      statusOk (c_Status c))"

definition ClientCreate :: "'k env \<Rightarrow> CreateClientParams \<Rightarrow> tx \<Rightarrow> tx \<times> (err + Client)" where
  "ClientCreate E p =
     stmt E ''clients.Create''
       (\<lambda>d. case (cp_RedirectURIs p, cp_AllowedGrantTypes p, cp_AllowedScopes p) of
          (Some uris, Some grants, Some scopes) \<Rightarrow>
            (let c = \<lparr>c_ID = e_new_uuid E ''clients.id'', c_Name = cp_Name p,
                      c_ClientType = cp_ClientType p, c_SecretHash = Some (cp_SecretHash p),
                      c_SecretHashPrevious = None, c_SecretPreviousExpiresAt = None,
                      c_RedirectURIs = uris, c_AllowedGrantTypes = grants, c_AllowedScopes = scopes,
                      c_TokenEndpointAuthMethod = cp_TokenEndpointAuthMethod p,
                      c_Status = ''active'', c_DisabledAt = None,
                      c_CreatedByUserID = cp_CreatedByUserID p,
                      c_CreatedAt = e_pg_now E, c_UpdatedAt = e_pg_now E\<rparr>
             in if \<not> clientRowOk c then Inl ErrDB
                else if list_ex (\<lambda>x. c_ID x = c_ID c) (db_clients d) then Inl ErrUnique
                else if (case c_CreatedByUserID c of None \<Rightarrow> False
                         | Some u \<Rightarrow> \<not> list_ex (\<lambda>x. u_ID x = u) (db_users d)) then Inl ErrDB
                else Inr (d\<lparr>db_clients := db_clients d @ [c]\<rparr>, c))
        | _ \<Rightarrow> Inl ErrDB)"

record UpdateClientPatch =
  up_Name :: "string option"
  up_RedirectURIs :: "string list option"
  up_AllowedScopes :: "string list option"
  up_AllowedGrantTypes :: "string list option"

text \<open>\<open>UPDATE clients SET f WHERE id = \<dots> AND ok RETURNING\<close> the row.\<close>

definition updClient
  :: "uuid \<Rightarrow> (Client \<Rightarrow> bool) \<Rightarrow> (Client \<Rightarrow> Client) \<Rightarrow> db \<Rightarrow> err + (db \<times> Client option)" where
  "updClient uid ok f d =
     (case find (\<lambda>c. c_ID c = uid \<and> ok c) (db_clients d) of
        None \<Rightarrow> Inr (d, None)
      | Some c \<Rightarrow>
          if \<not> clientRowOk (f c) then Inl ErrDB
          else Inr (d\<lparr>db_clients := map (\<lambda>x. if c_ID x = uid \<and> ok x then f x else x) (db_clients d)\<rparr>,
                    Some (f c)))"

definition orElse :: "'a option \<Rightarrow> 'a \<Rightarrow> 'a" where
  "orElse p old = (case p of None \<Rightarrow> old | Some x \<Rightarrow> x)"

definition UpdateFields :: "'k env \<Rightarrow> string \<Rightarrow> UpdateClientPatch \<Rightarrow> tx \<Rightarrow> tx \<times> (err + Client)" where
  "UpdateFields E cid p t =
     (case e_uuid_parse E cid of
        None \<Rightarrow> (t, Inl ErrClientNotFound)
      | Some uid \<Rightarrow>
          needOne ErrClientNotFound
            (stmt E ''clients.UpdateFields''
              (updClient uid (\<lambda>c. True)
                 (\<lambda>c. c\<lparr>c_Name := orElse (up_Name p) (c_Name c),
                        c_RedirectURIs := orElse (up_RedirectURIs p) (c_RedirectURIs c),
                        c_AllowedScopes := orElse (up_AllowedScopes p) (c_AllowedScopes c),
                        c_AllowedGrantTypes := orElse (up_AllowedGrantTypes p) (c_AllowedGrantTypes c),
                        c_UpdatedAt := e_pg_now E\<rparr>)) t))"

definition RotateSecret
  :: "'k env \<Rightarrow> string \<Rightarrow> string \<Rightarrow> int \<Rightarrow> tx \<Rightarrow> tx \<times> (err + Client)" where
  "RotateSecret E cid newHash overlapTTL t =
     (case e_uuid_parse E cid of
        None \<Rightarrow> (t, Inl ErrClientNotFound)
      | Some uid \<Rightarrow>
          needOne ErrClientNotFound
            (stmt E ''clients.RotateSecret''
              (updClient uid (\<lambda>c. True)
                 (\<lambda>c. c\<lparr>c_SecretHashPrevious := c_SecretHash c,
                        c_SecretPreviousExpiresAt := Some (e_go_now E + overlapTTL),
                        c_SecretHash := Some newHash,
                        c_UpdatedAt := e_pg_now E\<rparr>)) t))"

definition foundRow :: "tx \<times> (err + 'a) \<Rightarrow> tx \<times> (err + unit)" where
  "foundRow r = (case r of (t, Inl e) \<Rightarrow> (t, Inl e) | (t, Inr x) \<Rightarrow> (t, Inr ()))"

definition ClientDisable :: "'k env \<Rightarrow> string \<Rightarrow> tx \<Rightarrow> tx \<times> (err + unit)" where
  "ClientDisable E cid t =
     (case e_uuid_parse E cid of
        None \<Rightarrow> (t, Inl ErrClientNotFound)
      | Some uid \<Rightarrow>
          foundRow (needOne ErrClientNotFound
            (stmt E ''clients.Disable''
              (updClient uid (\<lambda>c. c_Status c = ''active'')
                 (\<lambda>c. c\<lparr>c_Status := ''disabled'', c_DisabledAt := Some (e_pg_now E),
                        c_UpdatedAt := e_pg_now E\<rparr>)) t)))"

definition ClientEnable :: "'k env \<Rightarrow> string \<Rightarrow> tx \<Rightarrow> tx \<times> (err + unit)" where
  "ClientEnable E cid t =
     (case e_uuid_parse E cid of
        None \<Rightarrow> (t, Inl ErrClientNotFound)
      | Some uid \<Rightarrow>
          foundRow (needOne ErrClientNotFound
            (stmt E ''clients.Enable''
              (updClient uid (\<lambda>c. c_Status c = ''disabled'')
                 (\<lambda>c. c\<lparr>c_Status := ''active'', c_DisabledAt := None,
                        c_UpdatedAt := e_pg_now E\<rparr>)) t)))"

text \<open>The authorization codes of the client go with it.\<close>

definition ClientDelete :: "'k env \<Rightarrow> string \<Rightarrow> tx \<Rightarrow> tx \<times> (err + unit)" where
  "ClientDelete E cid t =
     (case e_uuid_parse E cid of
        None \<Rightarrow> (t, Inl ErrClientNotFound)
      | Some uid \<Rightarrow>
          needRow ErrClientNotFound
            (stmt E ''clients.Delete''
              (\<lambda>d. Inr (d\<lparr>db_clients := filter (\<lambda>c. c_ID c \<noteq> uid) (db_clients d),
                         db_codes := filter (\<lambda>a. ac_ClientID a \<noteq> uid) (db_codes d)\<rparr>,
                        length (filter (\<lambda>c. c_ID c = uid) (db_clients d)))) t))"

section \<open>Laws\<close>

lemma ClientGetByID_Inr:
  assumes "ClientGetByID E site cid t = (t', Inr c)"
  shows "t' = t \<and> c \<in> set (db_clients (tx_db t)) \<and> e_uuid_parse E cid = Some (c_ID c) \<and>
    c_Status c = ''active''"
  using assms
  by (auto simp: ClientGetByID_def clientSelect_def needOne_Inr query_Inr
      split: option.splits dest!: sym [of "Some c"] find_Some_D)

lemma ClientGetByID_db: "ClientGetByID E site cid t = (t', r) \<Longrightarrow> tx_db t' = tx_db t"
  by (auto simp: ClientGetByID_def clientSelect_def query_def stmt_def needOne_def
      split: option.splits prod.splits sum.splits if_splits)

lemma VerifySecret_True:
  assumes "VerifySecret E cid secret t = (t', Inr True)"
  shows "\<exists>c. c \<in> set (db_clients (tx_db t)) \<and> e_uuid_parse E cid = Some (c_ID c) \<and>
    c_Status c = ''active'' \<and> checkSecrets E secret c = Inr True \<and>
    (\<exists>h. VerifyPassword E secret h = Some True \<and>
       (c_SecretHash c = Some h \<or>
        c_SecretHashPrevious c = Some h \<and>
        (\<exists>x. c_SecretPreviousExpiresAt c = Some x \<and> e_go_now E < x)))"
proof -
  from assms obtain c where c: "ClientGetByID E ''clients.VerifySecret'' cid t = (t', Inr c)"
    and ok: "checkSecrets E secret c = Inr True"
    by (auto simp: VerifySecret_def split: prod.splits sum.splits)
  from ok have "\<exists>h. VerifyPassword E secret h = Some True \<and>
       (c_SecretHash c = Some h \<or> c_SecretHashPrevious c = Some h \<and>
        (\<exists>x. c_SecretPreviousExpiresAt c = Some x \<and> e_go_now E < x))"
    by (auto simp: checkSecrets_def Let_def split: option.splits if_splits)
  with ClientGetByID_Inr [OF c] ok show ?thesis by blast
qed

lemma ValidateRedirectURI_iff: "ValidateRedirectURI c u \<longleftrightarrow> u \<in> set (c_RedirectURIs c)"
  by (auto simp: ValidateRedirectURI_def list_ex_iff)

section \<open>Secret rotation\<close>

lemma VerifyPassword_clock [simp]: "VerifyPassword (E\<lparr>e_go_now := n\<rparr>) s h = VerifyPassword E s h"
  by (simp add: VerifyPassword_def split: option.splits)

text \<open>Rotating a client secret: the new secret is accepted at any time; a secret that is not the new
  one is judged by the hash that was current before the rotation as long as the overlap window is
  open, and rejected from its end on. The hash that was previous before the rotation plays no role
  any more.\<close>

lemma RotateSecret_overlap:
  assumes "RotateSecret E cid newHash overlapTTL t = (t', Inr c')"
  shows "\<exists>c \<in> set (db_clients (tx_db t)). c_ID c = c_ID c' \<and> c' \<in> set (db_clients (tx_db t')) \<and>
    (\<forall>n s. VerifyPassword E s newHash = Some True \<longrightarrow> checkSecrets (E\<lparr>e_go_now := n\<rparr>) s c' = Inr True) \<and>
    (\<forall>n s. VerifyPassword E s newHash = Some False \<longrightarrow>
       checkSecrets (E\<lparr>e_go_now := n\<rparr>) s c' =
         (case c_SecretHash c of
            Some h \<Rightarrow> if n < e_go_now E + overlapTTL
                       then (case VerifyPassword E s h of None \<Rightarrow> Inl ErrCrypto | Some ok \<Rightarrow> Inr ok)
                       else Inr False
          | None \<Rightarrow> Inr False))"
proof -
  let ?f = "\<lambda>c. c\<lparr>c_SecretHashPrevious := c_SecretHash c,
      c_SecretPreviousExpiresAt := Some (e_go_now E + overlapTTL),
      c_SecretHash := Some newHash, c_UpdatedAt := e_pg_now E\<rparr>"
  from assms obtain uid d where
    up: "updClient uid (\<lambda>c. True) ?f (tx_db t) = Inr (d, Some c')" and t': "t' = t\<lparr>tx_db := d\<rparr>"
    by (auto simp: RotateSecret_def needOne_Inr stmt_Inr split: option.splits)
  then obtain c where c: "c \<in> set (db_clients (tx_db t))" "c_ID c = uid" "c' = ?f c"
    and d: "db_clients d = map (\<lambda>x. if c_ID x = uid then ?f x else x) (db_clients (tx_db t))"
    by (auto simp: updClient_def split: option.splits if_splits dest: find_Some_D)
  have "c' \<in> set (db_clients (tx_db t'))"
    using c d t' by (auto simp: image_iff intro!: bexI [of _ c])
  with c show ?thesis
    by (auto simp: checkSecrets_def Let_def split: option.splits intro!: bexI [of _ c])
qed

definition sampleClient :: Client where
  "sampleClient = \<lparr>c_ID = 9, c_Name = ''app'', c_ClientType = ''confidential'',
     c_SecretHash = Some (phcEncode (replicate 16 (CHR ''s'')) (pad 32 (''secret'' @ replicate 16 (CHR ''s'')))),
     c_SecretHashPrevious = None, c_SecretPreviousExpiresAt = None,
     c_RedirectURIs = [''https://app/cb''], c_AllowedGrantTypes = [''authorization_code'', ''refresh_token''],
     c_AllowedScopes = [''openid'', ''profile'', ''offline_access''],
     c_TokenEndpointAuthMethod = ''client_secret_post'', c_Status = ''active'', c_DisabledAt = None,
     c_CreatedByUserID = None, c_CreatedAt = 0, c_UpdatedAt = 0\<rparr>"

lemma sampleSecret:
  "VerifyPassword sampleEnv pw (phcEncode (replicate 16 (CHR ''s'')) (pad 32 (''secret'' @ replicate 16 (CHR ''s''))))
     = Some (pad 32 (''secret'' @ replicate 16 (CHR ''s'')) = pad 32 (pw @ replicate 16 (CHR ''s'')))"
  by (simp add: VerifyPassword_def parsePHC_phcEncode) (simp add: sampleEnv_def)

lemma RotateSecret_overlap_witness:
  "\<exists>c'. snd (RotateSecret sampleEnv ''9'' (the (HashPassword sampleEnv ''s'' 0 ''new'')) (3600 * second)
            (pool (emptyDB\<lparr>db_clients := [sampleClient]\<rparr>))) = Inr c' \<and>
    checkSecrets (sampleEnv\<lparr>e_go_now := 2000 * second\<rparr>) ''new'' c' = Inr True"
proof -
  obtain h where h: "HashPassword sampleEnv ''s'' 0 ''new'' = Some h"
    by (simp add: HashPassword_def sampleEnv_def)
  have p: "e_uuid_parse sampleEnv ''9'' = Some 9"
    by (simp add: sampleEnv_def isDigitByte_def readNat_def digitVal_def)
  obtain t' c' where r: "RotateSecret sampleEnv ''9'' h (3600 * second)
      (pool (emptyDB\<lparr>db_clients := [sampleClient]\<rparr>)) = (t', Inr c')"
    by (simp add: RotateSecret_def p needOne_def stmt_def updClient_def clientRowOk_def sampleClient_def
        statusOk_def)
  have "VerifyPassword sampleEnv ''new'' h = Some True"
    by (rule VerifyPassword_HashPassword_accepts [OF sampleEnv_laws(3) h])
  with RotateSecret_overlap [OF r] r h show ?thesis by auto
qed

end
