(* ===== verification/ClientsAdmin.thy ===== *)
theory ClientsAdmin
  imports UsersAdmin ClientStore
begin

text \<open>
  Client administration: the input checks of \<^verbatim>\<open>internal/clients/validate.go\<close> and
  \<^verbatim>\<open>redirect_uri.go\<close> and every handler of \<^verbatim>\<open>internal/clients/handler.go\<close>. A check returns the text of
  its error, \<open>None\<close> when it passes. A JSON field that may be absent is an option.
\<close>

section \<open>Input checks\<close>

text \<open>\<open>%q\<close>: a double-quoted string with Go's escapes; bytes of printable runes outside ASCII are kept.\<close>

definition quoteByte :: "char \<Rightarrow> string" where
  "quoteByte c =
     (if c = CHR 0x22 then [bslash, CHR 0x22] else if c = bslash then [bslash, bslash]
      else if c = CHR 0x07 then [bslash, CHR ''a''] else if c = CHR 0x08 then [bslash, CHR ''b'']
      else if c = CHR 0x0C then [bslash, CHR ''f''] else if c = CHR 0x0A then [bslash, CHR ''n'']
      else if c = CHR 0x0D then [bslash, CHR ''r''] else if c = CHR 0x09 then [bslash, CHR ''t'']
      else if c = CHR 0x0B then [bslash, CHR ''v'']
      else if (of_char c :: nat) < 32 \<or> c = CHR 0x7F then [bslash, CHR ''x''] @ hexByte c
      else [c])"

definition goQuote :: "string \<Rightarrow> string" where
  "goQuote s = [CHR 0x22] @ concat (map quoteByte s) @ [CHR 0x22]"

definition clientNameMaxLen :: nat where "clientNameMaxLen = 100"

definition ValidateClientName :: "string \<Rightarrow> string + string" where
  "ValidateClientName raw =
     (let trimmed = trimSpace raw in
      if trimmed = [] then Inl ''client name is required''
      else if length trimmed > clientNameMaxLen
      then Inl (''client name must be '' @ showNat clientNameMaxLen @ '' characters or fewer'')
      else Inr trimmed)"

definition KnownScopes :: "string list" where
  "KnownScopes = [''openid'', ''profile'', ''email'', ''offline_access'']"

definition KnownGrantTypes :: "string list" where
  "KnownGrantTypes = [''authorization_code'', ''refresh_token'']"

fun scopesFrom :: "string list \<Rightarrow> string list \<Rightarrow> string option" where
  "scopesFrom seen [] = None"
| "scopesFrom seen (s # ss) =
     (if s = [] then Some ''scope entry cannot be empty''
      else if s \<notin> set KnownScopes then Some (''unknown scope '' @ goQuote s)
      else if s \<in> set seen then Some (''duplicate scope '' @ goQuote s)
      else scopesFrom (s # seen) ss)"

definition ValidateScopes :: "string list \<Rightarrow> string option" where
  "ValidateScopes ss = scopesFrom [] ss"

fun grantsFrom :: "string list \<Rightarrow> string list \<Rightarrow> string option" where
  "grantsFrom seen [] = None"
| "grantsFrom seen (g # gs) =
     (if g \<notin> set KnownGrantTypes then Some (''unknown grant type '' @ goQuote g)
      else if g \<in> set seen then Some (''duplicate grant type '' @ goQuote g)
      else grantsFrom (g # seen) gs)"

definition ValidateGrantTypes :: "string list \<Rightarrow> string option" where
  "ValidateGrantTypes gs = (if gs = [] then Some ''at least one grant type is required'' else grantsFrom [] gs)"

definition redirectURIMaxLen :: nat where "redirectURIMaxLen = 2048"

definition loopbackHosts :: "string list" where
  "loopbackHosts = [''localhost'', ''127.0.0.1'', ''[::1]'', ''::1'']"

definition ValidateRedirectURIInput :: "'k env \<Rightarrow> string \<Rightarrow> string option" where
  "ValidateRedirectURIInput E raw =
     (if raw = [] then Some ''redirect uri cannot be empty''
      else if length raw > redirectURIMaxLen
      then Some (''redirect uri exceeds '' @ showNat redirectURIMaxLen @ '' characters'')
      else if containsAny raw [CHR '' '', CHR 0x09, CHR 0x0D, CHR 0x0A] then Some ''redirect uri contains whitespace''
      else case e_url_parse E raw of
        None \<Rightarrow> Some (''redirect uri parse: '' @ e_url_error E raw)
      | Some u \<Rightarrow>
          if url_Scheme u = [] \<or> url_Host u = [] then Some ''redirect uri must include scheme and host''
          else if url_Fragment u \<noteq> [] \<or> contains raw ''#'' then Some ''redirect uri must not contain a fragment''
          else if contains (url_Host u) ''*'' \<or> contains (url_Path u) ''*'' then Some ''redirect uri must not contain wildcards''
          else if url_Scheme u = ''https'' then None
          else if url_Scheme u = ''http''
          then (if url_Hostname u \<in> set loopbackHosts then None
                else Some (''http redirect uri allowed only for loopback host (got '' @ goQuote (url_Hostname u) @ '')''))
          else Some (''redirect uri scheme must be https or http+loopback (got '' @ goQuote (url_Scheme u) @ '')''))"

fun firstError :: "('a \<Rightarrow> string option) \<Rightarrow> 'a list \<Rightarrow> string option" where
  "firstError f [] = None"
| "firstError f (x # xs) = (case f x of None \<Rightarrow> firstError f xs | Some e \<Rightarrow> Some e)"

section \<open>Requests and replies\<close>

record clientDTO =
  cd_ID :: string
  cd_Name :: string
  cd_ClientType :: string
  cd_RedirectURIs :: "string list"
  cd_AllowedGrantTypes :: "string list"
  cd_AllowedScopes :: "string list"
  cd_TokenEndpointAuthMethod :: string
  cd_Status :: string
  cd_DisabledAt :: "int option"
  cd_CreatedByUserID :: "string option"
  cd_CreatedAt :: int
  cd_UpdatedAt :: int

definition toClientDTO :: "'k env \<Rightarrow> Client \<Rightarrow> clientDTO" where
  "toClientDTO E c =
     \<lparr>cd_ID = e_uuid_string E (c_ID c), cd_Name = c_Name c, cd_ClientType = c_ClientType c,
      cd_RedirectURIs = c_RedirectURIs c, cd_AllowedGrantTypes = c_AllowedGrantTypes c,
      cd_AllowedScopes = c_AllowedScopes c, cd_TokenEndpointAuthMethod = c_TokenEndpointAuthMethod c,
      cd_Status = c_Status c, cd_DisabledAt = c_DisabledAt c,
      cd_CreatedByUserID = map_option (e_uuid_string E) (c_CreatedByUserID c),
      cd_CreatedAt = c_CreatedAt c, cd_UpdatedAt = c_UpdatedAt c\<rparr>"

datatype clientsBody =
    ClientsPage "clientDTO list"
  | OneClient clientDTO
  | ClientCreated string string clientDTO          \<comment> \<open>id, secret, client\<close>
  | SecretRotated string string int                \<comment> \<open>id, secret, end of the overlap\<close>

text \<open>What the strict decoder finds: a value, a body over the limit, a body that does not decode or
  has unknown fields, or a value followed by more content.\<close>

datatype 'a jsonBody = JsonOK 'a | JsonTooLarge | JsonInvalid | JsonExtra

definition strictJSON :: "'a jsonBody \<Rightarrow> 'b response + 'a" where
  "strictJSON b =
     (case b of
        JsonOK x \<Rightarrow> Inr x
      | JsonTooLarge \<Rightarrow> Inl (WriteError 413 ''VALIDATION_ERROR'' ''Request body too large.'')
      | JsonInvalid \<Rightarrow> Inl (WriteError 400 ''VALIDATION_ERROR'' ''Invalid request body.'')
      | JsonExtra \<Rightarrow> Inl (WriteError 400 ''VALIDATION_ERROR'' ''Request body contains extra content.''))"

record createClientReq =
  ccr_Name :: string
  ccr_ClientType :: string
  ccr_RedirectURIs :: "string list option"
  ccr_AllowedGrantTypes :: "string list option"
  ccr_AllowedScopes :: "string list option"

record patchClientReq =
  pcr_Name :: "string option"
  pcr_RedirectURIs :: "string list option"
  pcr_AllowedScopes :: "string list option"
  pcr_AllowedGrantTypes :: "string list option"

definition parseClientID :: "'k env \<Rightarrow> string \<Rightarrow> 'b response + string" where
  "parseClientID E raw =
     (case e_uuid_parse E raw of
        None \<Rightarrow> Inl (WriteError 400 ''VALIDATION_ERROR'' ''Invalid client id.'')
      | Some uid \<Rightarrow> Inr raw)"

definition clientSecretOverlapTTL :: int where "clientSecretOverlapTTL = 24 * 3600 * second"

definition generateClientSecret :: "'k env \<Rightarrow> string \<Rightarrow> string option" where
  "generateClientSecret E site = map_option base64RawURL (e_rand E site 0 32)"

text \<open>The target of the entry is the identifier as it was written in the path.\<close>

definition clientAudit
  :: "'k env \<Rightarrow> request \<Rightarrow> string \<Rightarrow> User \<Rightarrow> string \<Rightarrow> (string \<times> metaval) list \<Rightarrow> tx \<Rightarrow> tx \<times> (err + unit)" where
  "clientAudit E req event current target meta =
     Log E (req_CorrelationID req)
       \<lparr>en_EventType = event, en_ActorID = Some (u_ID current), en_ActorEmail = u_Email current,
        en_TargetType = ''client'', en_TargetID = target, en_ClientID = None,
        en_IPAddress = clientIP E req, en_Outcome = ''success'', en_Metadata = Some meta\<rparr>"

definition clientError :: "err \<Rightarrow> 'b response" where
  "clientError e =
     (if e = ErrClientNotFound then WriteError 404 ''clients.not_found'' ''Client not found.'' else internalError)"

definition badInput :: "string \<Rightarrow> string option \<Rightarrow> 'b response + unit" where
  "badInput code e = (case e of None \<Rightarrow> Inr () | Some msg \<Rightarrow> Inl (WriteError 400 code msg))"

section \<open>Handlers\<close>

definition GetList :: "'k env \<Rightarrow> (string \<times> string) list \<Rightarrow> 'k world \<Rightarrow> 'k world \<times> clientsBody response" where
  "GetList E qry w =
     (let status = (if formGet qry ''status'' = [] then ''active'' else formGet qry ''status'')
      in if status \<noteq> ''active'' \<and> status \<noteq> ''disabled'' \<and> status \<noteq> ''all''
         then (w, WriteError 400 ''VALIDATION_ERROR'' ''Invalid status filter.'')
         else case snd (ClientList E status (pool (w_db w))) of
           Inl e \<Rightarrow> (w, internalError)
         | Inr cs \<Rightarrow> (w, WriteJSON 200 (ClientsPage (map (toClientDTO E) cs))))"

definition GetOne :: "'k env \<Rightarrow> string \<Rightarrow> 'k world \<Rightarrow> 'k world \<times> clientsBody response" where
  "GetOne E idStr w =
     orReturn w (parseClientID E idStr) (\<lambda>cid.
       case snd (GetByIDAny E cid (pool (w_db w))) of
         Inl e \<Rightarrow> (w, clientError e)
       | Inr c \<Rightarrow> (w, WriteJSON 200 (OneClient (toClientDTO E c))))"

definition listOf :: "'a list option \<Rightarrow> 'a list" where
  "listOf xs = (case xs of None \<Rightarrow> [] | Some l \<Rightarrow> l)"

definition validateCreate :: "'k env \<Rightarrow> createClientReq \<Rightarrow> 'b response + string" where
  "validateCreate E b =
     (case ValidateClientName (ccr_Name b) of
        Inl msg \<Rightarrow> Inl (WriteError 400 ''clients.validation_error'' msg)
      | Inr name \<Rightarrow>
          if ccr_ClientType b \<noteq> ''confidential''
          then Inl (WriteError 400 ''clients.validation_error'' ''Only confidential clients are supported.'')
          else if listOf (ccr_RedirectURIs b) = []
          then Inl (WriteError 400 ''clients.validation_error'' ''At least one redirect_uri is required.'')
          else if length (listOf (ccr_RedirectURIs b)) > 10
          then Inl (WriteError 400 ''clients.validation_error'' ''Maximum 10 redirect URIs.'')
          else case firstError (ValidateRedirectURIInput E) (listOf (ccr_RedirectURIs b)) of
            Some msg \<Rightarrow> Inl (WriteError 400 ''clients.redirect_uri_invalid'' msg)
          | None \<Rightarrow>
              (case ValidateScopes (listOf (ccr_AllowedScopes b)) of
                 Some msg \<Rightarrow> Inl (WriteError 400 ''clients.scope_invalid'' msg)
               | None \<Rightarrow>
                   (case ValidateGrantTypes (listOf (ccr_AllowedGrantTypes b)) of
                      Some msg \<Rightarrow> Inl (WriteError 400 ''clients.grant_invalid'' msg)
                    | None \<Rightarrow> Inr name)))"

definition createClientBody
  :: "'k env \<Rightarrow> request \<Rightarrow> User \<Rightarrow> string \<Rightarrow> string \<Rightarrow> createClientReq \<Rightarrow> tx \<Rightarrow> clientsBody response + tx \<times> Client" where
  "createClientBody E req current name secretHash b t =
     attempt (ClientCreate E
                \<lparr>cp_Name = name, cp_ClientType = ccr_ClientType b, cp_SecretHash = secretHash,
                 cp_RedirectURIs = ccr_RedirectURIs b, cp_AllowedGrantTypes = ccr_AllowedGrantTypes b,
                 cp_AllowedScopes = ccr_AllowedScopes b, cp_TokenEndpointAuthMethod = ''client_secret_post'',
                 cp_CreatedByUserID = Some (u_ID current)\<rparr> t) fail500 (\<lambda>t c.
     attempt (clientAudit E req ''client.created'' current (e_uuid_string E (c_ID c))
                [(''name'', MStr (c_Name c)), (''client_type'', MStr (c_ClientType c)),
                 (''redirect_uris_count'', MInt (int (length (c_RedirectURIs c)))),
                 (''scopes'', MList (c_AllowedScopes c)), (''grants'', MList (c_AllowedGrantTypes c))] t) fail500 (\<lambda>t _.
     Inr (t, c)))"

definition PostCreate
  :: "'k env \<Rightarrow> request \<Rightarrow> User option \<Rightarrow> createClientReq jsonBody \<Rightarrow> 'k world \<Rightarrow> 'k world \<times> clientsBody response" where
  "PostCreate E req cu body w =
     orReturn w (requireUser cu) (\<lambda>current.
     orReturn w (strictJSON body) (\<lambda>b.
     orReturn w (validateCreate E b) (\<lambda>name.
     case generateClientSecret E ''clients.PostCreate'' of
       None \<Rightarrow> (w, internalError)
     | Some rawSecret \<Rightarrow>
         (case HashPassword E ''clients.PostCreate.salt'' 0 rawSecret of
            None \<Rightarrow> (w, internalError)
          | Some secretHash \<Rightarrow>
              (case inTx E ''clients.PostCreate'' (createClientBody E req current name secretHash b) (w_db w) of
                 (d, Inl r) \<Rightarrow> (w\<lparr>w_db := d\<rparr>, r)
               | (d, Inr c) \<Rightarrow>
                   (w\<lparr>w_db := d\<rparr>,
                    WriteJSON 201 (ClientCreated (e_uuid_string E (c_ID c)) rawSecret (toClientDTO E c))))))))"

definition validatePatch :: "'k env \<Rightarrow> patchClientReq \<Rightarrow> 'b response + patchClientReq" where
  "validatePatch E b =
     (case (case pcr_Name b of None \<Rightarrow> Inr None | Some n \<Rightarrow> map_sum id Some (ValidateClientName n)) of
        Inl msg \<Rightarrow> Inl (WriteError 400 ''clients.validation_error'' msg)
      | Inr name \<Rightarrow>
          if (case pcr_RedirectURIs b of None \<Rightarrow> False | Some us \<Rightarrow> us = [] \<or> length us > 10)
          then Inl (WriteError 400 ''clients.validation_error'' ''redirect_uris must have 1-10 entries.'')
          else case firstError (ValidateRedirectURIInput E) (listOf (pcr_RedirectURIs b)) of
            Some msg \<Rightarrow> Inl (WriteError 400 ''clients.redirect_uri_invalid'' msg)
          | None \<Rightarrow>
              (case (case pcr_AllowedScopes b of None \<Rightarrow> None | Some ss \<Rightarrow> ValidateScopes ss) of
                 Some msg \<Rightarrow> Inl (WriteError 400 ''clients.scope_invalid'' msg)
               | None \<Rightarrow>
                   (case (case pcr_AllowedGrantTypes b of None \<Rightarrow> None | Some gs \<Rightarrow> ValidateGrantTypes gs) of
                      Some msg \<Rightarrow> Inl (WriteError 400 ''clients.grant_invalid'' msg)
                    | None \<Rightarrow> Inr (b\<lparr>pcr_Name := name\<rparr>))))"

text \<open>One entry per changed field, in the order name, redirect URIs, scopes, grants.\<close>

definition auditIf
  :: "'k env \<Rightarrow> request \<Rightarrow> User \<Rightarrow> string \<Rightarrow> string \<Rightarrow> metaval \<Rightarrow> metaval \<Rightarrow> tx \<Rightarrow> tx \<times> (err + unit)" where
  "auditIf E req current cid event old new t =
     (if old \<noteq> new then clientAudit E req event current cid [(''from'', old), (''to'', new)] t else (t, Inr ()))"

definition patchBody
  :: "'k env \<Rightarrow> request \<Rightarrow> User \<Rightarrow> string \<Rightarrow> patchClientReq \<Rightarrow> tx \<Rightarrow> clientsBody response + tx \<times> Client" where
  "patchBody E req current cid b t =
     attempt (GetByIDForUpdate E cid t) clientError (\<lambda>t old.
     attempt (UpdateFields E cid
                \<lparr>up_Name = pcr_Name b, up_RedirectURIs = pcr_RedirectURIs b,
                 up_AllowedScopes = pcr_AllowedScopes b, up_AllowedGrantTypes = pcr_AllowedGrantTypes b\<rparr> t) fail500 (\<lambda>t updated.
     attempt (auditIf E req current cid ''client.name_updated'' (MStr (c_Name old)) (MStr (c_Name updated)) t) fail500 (\<lambda>t _.
     attempt (auditIf E req current cid ''client.redirect_uris_updated''
                (MList (c_RedirectURIs old)) (MList (c_RedirectURIs updated)) t) fail500 (\<lambda>t _.
     attempt (auditIf E req current cid ''client.scopes_updated''
                (MList (c_AllowedScopes old)) (MList (c_AllowedScopes updated)) t) fail500 (\<lambda>t _.
     attempt (auditIf E req current cid ''client.grants_updated''
                (MList (c_AllowedGrantTypes old)) (MList (c_AllowedGrantTypes updated)) t) fail500 (\<lambda>t _.
     Inr (t, updated)))))))"

definition PatchOne
  :: "'k env \<Rightarrow> request \<Rightarrow> User option \<Rightarrow> string \<Rightarrow> patchClientReq jsonBody \<Rightarrow> 'k world \<Rightarrow> 'k world \<times> clientsBody response" where
  "PatchOne E req cu idStr body w =
     orReturn w (requireUser cu) (\<lambda>current.
     orReturn w (parseClientID E idStr) (\<lambda>cid.
     orReturn w (strictJSON body) (\<lambda>b0.
     orReturn w (validatePatch E b0) (\<lambda>b.
       case inTx E ''clients.PatchOne'' (patchBody E req current cid b) (w_db w) of
         (d, Inl r) \<Rightarrow> (w\<lparr>w_db := d\<rparr>, r)
       | (d, Inr c) \<Rightarrow> (w\<lparr>w_db := d\<rparr>, WriteJSON 200 (OneClient (toClientDTO E c)))))))"

definition disableClientBody :: "'k env \<Rightarrow> request \<Rightarrow> User \<Rightarrow> string \<Rightarrow> tx \<Rightarrow> clientsBody response + tx \<times> unit" where
  "disableClientBody E req current cid t =
     attempt (ClientDisable E cid t)
       (\<lambda>e. if e = ErrClientNotFound then WriteError 404 ''clients.not_found'' ''Client not found or already disabled.''
            else internalError) (\<lambda>t _.
     attempt (clientAudit E req ''client.disabled'' current cid [] t) fail500 (\<lambda>t _.
     Inr (t, ())))"

definition PostDisable
  :: "'k env \<Rightarrow> request \<Rightarrow> User option \<Rightarrow> string \<Rightarrow> 'k world \<Rightarrow> 'k world \<times> clientsBody response" where
  "PostDisable E req cu idStr w =
     orReturn w (requireUser cu) (\<lambda>current.
     orReturn w (parseClientID E idStr) (\<lambda>cid.
       case inTx E ''clients.PostDisable'' (disableClientBody E req current cid) (w_db w) of
         (d, Inl r) \<Rightarrow> (w\<lparr>w_db := d\<rparr>, r)
       | (d, Inr _) \<Rightarrow> (w\<lparr>w_db := d\<rparr>, NoContent)))"

definition instantMeta :: "string \<Rightarrow> int option \<Rightarrow> (string \<times> metaval) list" where
  "instantMeta key at = (case at of None \<Rightarrow> [] | Some i \<Rightarrow> [(key, MInstant i)])"

definition enableClientBody :: "'k env \<Rightarrow> request \<Rightarrow> User \<Rightarrow> string \<Rightarrow> tx \<Rightarrow> clientsBody response + tx \<times> unit" where
  "enableClientBody E req current cid t =
     attempt (GetByIDAny E cid t) clientError (\<lambda>t old.
     attempt (ClientEnable E cid t)
       (\<lambda>e. if e = ErrClientNotFound then WriteError 409 ''clients.validation_error'' ''Client is not disabled.''
            else internalError) (\<lambda>t _.
     attempt (clientAudit E req ''client.enabled'' current cid (instantMeta ''previously_disabled_at'' (c_DisabledAt old)) t) fail500 (\<lambda>t _.
     Inr (t, ()))))"

definition PostEnable
  :: "'k env \<Rightarrow> request \<Rightarrow> User option \<Rightarrow> string \<Rightarrow> 'k world \<Rightarrow> 'k world \<times> clientsBody response" where
  "PostEnable E req cu idStr w =
     orReturn w (requireUser cu) (\<lambda>current.
     orReturn w (parseClientID E idStr) (\<lambda>cid.
       case inTx E ''clients.PostEnable'' (enableClientBody E req current cid) (w_db w) of
         (d, Inl r) \<Rightarrow> (w\<lparr>w_db := d\<rparr>, r)
       | (d, Inr _) \<Rightarrow> (w\<lparr>w_db := d\<rparr>, NoContent)))"

definition rotateSecretBody
  :: "'k env \<Rightarrow> request \<Rightarrow> User \<Rightarrow> string \<Rightarrow> string \<Rightarrow> tx \<Rightarrow> clientsBody response + tx \<times> Client" where
  "rotateSecretBody E req current cid secretHash t =
     attempt (GetByIDAny E cid t) clientError (\<lambda>t existing.
     if c_ClientType existing \<noteq> ''confidential''
     then Inl (WriteError 400 ''clients.client_type_locked'' ''Only confidential clients have secrets to rotate.'')
     else
     attempt (RotateSecret E cid secretHash clientSecretOverlapTTL t) fail500 (\<lambda>t rotated.
     attempt (clientAudit E req ''client.secret_rotated'' current cid
                (instantMeta ''previous_expires_at'' (c_SecretPreviousExpiresAt rotated)) t) fail500 (\<lambda>t _.
     Inr (t, rotated))))"

text \<open>The zero \<open>time.Time\<close>, the first of January of the year one.\<close>

definition zeroTime :: int where "zeroTime = - 62135596800 * second"

definition PostRotateSecret
  :: "'k env \<Rightarrow> request \<Rightarrow> User option \<Rightarrow> string \<Rightarrow> 'k world \<Rightarrow> 'k world \<times> clientsBody response" where
  "PostRotateSecret E req cu idStr w =
     orReturn w (requireUser cu) (\<lambda>current.
     orReturn w (parseClientID E idStr) (\<lambda>cid.
     case generateClientSecret E ''clients.PostRotateSecret'' of
       None \<Rightarrow> (w, internalError)
     | Some rawSecret \<Rightarrow>
         (case HashPassword E ''clients.PostRotateSecret.salt'' 0 rawSecret of
            None \<Rightarrow> (w, internalError)
          | Some secretHash \<Rightarrow>
              (case inTx E ''clients.PostRotateSecret'' (rotateSecretBody E req current cid secretHash) (w_db w) of
                 (d, Inl r) \<Rightarrow> (w\<lparr>w_db := d\<rparr>, r)
               | (d, Inr rotated) \<Rightarrow>
                   (w\<lparr>w_db := d\<rparr>,
                    WriteJSON 200 (SecretRotated cid rawSecret
                      (case c_SecretPreviousExpiresAt rotated of None \<Rightarrow> zeroTime | Some x \<Rightarrow> x)))))))"

definition deleteClientBody :: "'k env \<Rightarrow> request \<Rightarrow> User \<Rightarrow> string \<Rightarrow> tx \<Rightarrow> clientsBody response + tx \<times> unit" where
  "deleteClientBody E req current cid t =
     attempt (GetByIDAny E cid t) clientError (\<lambda>t old.
     attempt (ClientDelete E cid t) fail500 (\<lambda>t _.
     attempt (clientAudit E req ''client.deleted'' current cid
                ((''name'', MStr (c_Name old)) # instantMeta ''previously_disabled_at'' (c_DisabledAt old)) t) fail500 (\<lambda>t _.
     Inr (t, ()))))"

definition DeleteOne
  :: "'k env \<Rightarrow> request \<Rightarrow> User option \<Rightarrow> string \<Rightarrow> 'k world \<Rightarrow> 'k world \<times> clientsBody response" where
  "DeleteOne E req cu idStr w =
     orReturn w (requireUser cu) (\<lambda>current.
     orReturn w (parseClientID E idStr) (\<lambda>cid.
       case inTx E ''clients.DeleteOne'' (deleteClientBody E req current cid) (w_db w) of
         (d, Inl r) \<Rightarrow> (w\<lparr>w_db := d\<rparr>, r)
       | (d, Inr _) \<Rightarrow> (\<lparr>w_db = d, w_vk = fst (RevokeBeforeClientSetNow E cid (w_vk w))\<rparr>, NoContent)))"

end
