(* ===== verification/InstanceConfig.thy ===== *)
theory InstanceConfig
  imports Crypto Tables
begin

text \<open>
  Package \<^verbatim>\<open>internal/instanceconfig\<close>: typed access to the key/value table and the encryption of
  sensitive values. \<open>json.Unmarshal\<close> of \<open>null\<close> into a bool, int or string leaves the zero value
  and returns no error; \<open>Set\<close> is an \<open>UPDATE\<close>, so a key that the migration did not insert stays
  absent.
\<close>

section \<open>The store\<close>

definition configGet :: "'k env \<Rightarrow> string \<Rightarrow> tx \<Rightarrow> tx \<times> (err + json)" where
  "configGet E key t =
     (case query E (''config.Get:'' @ key) (\<lambda>d. map_of (db_config d) key) t of
        (t', Inl e) \<Rightarrow> (t', Inl e)
      | (t', Inr None) \<Rightarrow> (t', Inl ErrNoRows)
      | (t', Inr (Some v)) \<Rightarrow> (t', Inr v))"

definition GetBool :: "'k env \<Rightarrow> string \<Rightarrow> tx \<Rightarrow> tx \<times> (err + bool)" where
  "GetBool E key t =
     (case configGet E key t of
        (t', Inl e) \<Rightarrow> (t', Inl e)
      | (t', Inr raw) \<Rightarrow>
          (t', case raw of JBool b \<Rightarrow> Inr b | JNull \<Rightarrow> Inr False | _ \<Rightarrow> Inl ErrNotUnmarshalled))"

definition GetInt :: "'k env \<Rightarrow> string \<Rightarrow> tx \<Rightarrow> tx \<times> (err + int)" where
  "GetInt E key t =
     (case configGet E key t of
        (t', Inl e) \<Rightarrow> (t', Inl e)
      | (t', Inr raw) \<Rightarrow>
          (t', case raw of
                 JInt n \<Rightarrow> if - (2 ^ 63) \<le> n \<and> n < 2 ^ 63 then Inr n else Inl ErrNotUnmarshalled
               | JNull \<Rightarrow> Inr 0
               | _ \<Rightarrow> Inl ErrNotUnmarshalled))"

definition GetString :: "'k env \<Rightarrow> string \<Rightarrow> tx \<Rightarrow> tx \<times> (err + string)" where
  "GetString E key t =
     (case configGet E key t of
        (t', Inl e) \<Rightarrow> (t', Inl e)
      | (t', Inr raw) \<Rightarrow>
          (t', case raw of JStr s \<Rightarrow> Inr s | JNull \<Rightarrow> Inr [] | _ \<Rightarrow> Inl ErrNotUnmarshalled))"

definition IsNull :: "'k env \<Rightarrow> string \<Rightarrow> tx \<Rightarrow> tx \<times> (err + bool)" where
  "IsNull E key t =
     (case configGet E key t of
        (t', Inl e) \<Rightarrow> (t', Inl e)
      | (t', Inr raw) \<Rightarrow> (t', Inr (raw = JNull)))"

definition configSet :: "'k env \<Rightarrow> string \<Rightarrow> json \<Rightarrow> tx \<Rightarrow> tx \<times> (err + unit)" where
  "configSet E key v =
     stmt E (''config.Set:'' @ key)
       (\<lambda>d. Inr (d\<lparr>db_config := map (\<lambda>(k, old). if k = key then (k, v) else (k, old)) (db_config d)\<rparr>, ()))"

section \<open>The service\<close>

definition IsSetupComplete :: "'k env \<Rightarrow> tx \<Rightarrow> tx \<times> (err + bool)" where
  "IsSetupComplete E = GetBool E ''setup_complete''"

definition SetSetupComplete :: "'k env \<Rightarrow> tx \<Rightarrow> tx \<times> (err + unit)" where
  "SetSetupComplete E = configSet E ''setup_complete'' (JBool True)"

definition InstanceName :: "'k env \<Rightarrow> tx \<Rightarrow> tx \<times> (err + string)" where
  "InstanceName E t =
     (case IsNull E ''instance_name'' t of
        (t1, Inl e) \<Rightarrow> (t1, Inl e)
      | (t1, Inr isNull) \<Rightarrow> if isNull then (t1, Inr []) else GetString E ''instance_name'' t1)"

definition SetInstanceName :: "'k env \<Rightarrow> string \<Rightarrow> tx \<Rightarrow> tx \<times> (err + unit)" where
  "SetInstanceName E name = configSet E ''instance_name'' (JStr name)"

record PasswordPolicy =
  pp_MinLength :: int
  pp_RequireUpper :: bool
  pp_RequireDigit :: bool

definition readPasswordPolicy :: "'k env \<Rightarrow> tx \<Rightarrow> tx \<times> (err + PasswordPolicy)" where
  "readPasswordPolicy E t =
     (case GetInt E ''password_min_length'' t of
        (t1, Inl e) \<Rightarrow> (t1, Inl e)
      | (t1, Inr minLength) \<Rightarrow>
          (case GetBool E ''password_require_upper'' t1 of
             (t2, Inl e) \<Rightarrow> (t2, Inl e)
           | (t2, Inr upper) \<Rightarrow>
               (case GetBool E ''password_require_digit'' t2 of
                  (t3, Inl e) \<Rightarrow> (t3, Inl e)
                | (t3, Inr digit) \<Rightarrow>
                    (t3, Inr \<lparr>pp_MinLength = minLength, pp_RequireUpper = upper, pp_RequireDigit = digit\<rparr>))))"

definition AccessTokenTTLSecs :: "'k env \<Rightarrow> tx \<Rightarrow> tx \<times> (err + int)" where
  "AccessTokenTTLSecs E = GetInt E ''access_token_ttl_secs''"

definition RefreshTokenTTLSecs :: "'k env \<Rightarrow> tx \<Rightarrow> tx \<times> (err + int)" where
  "RefreshTokenTTLSecs E = GetInt E ''refresh_token_ttl_secs''"

definition encryptedValueAAD :: "string \<Rightarrow> bytes" where
  "encryptedValueAAD key = ''instance_config:'' @ key"

text \<open>\<open>base64.StdEncoding\<close> pads to a multiple of four and its decoder requires the padding.\<close>

definition base64Std :: "bytes \<Rightarrow> string" where
  "base64Std b = (let s = base64RawStd b in s @ replicate ((4 - length s mod 4) mod 4) (CHR ''=''))"

definition base64StdDecode :: "string \<Rightarrow> bytes option" where
  "base64StdDecode s =
     (let raw = trimRight s ''=''
      in if length s mod 4 = 0 \<and> length s - length raw \<le> 2
            \<and> length s - length raw = (4 - length raw mod 4) mod 4
         then b64DecodeRaw b64StdAlphabet raw else None)"

definition EncryptedValue :: "'k env \<Rightarrow> bytes \<Rightarrow> string \<Rightarrow> tx \<Rightarrow> tx \<times> (err + string)" where
  "EncryptedValue E encryptionKey key t =
     (case IsNull E key t of
        (t1, Inl e) \<Rightarrow> (t1, Inl e)
      | (t1, Inr isNull) \<Rightarrow>
          if isNull then (t1, Inr [])
          else (case GetString E key t1 of
                  (t2, Inl e) \<Rightarrow> (t2, Inl e)
                | (t2, Inr encoded) \<Rightarrow>
                    (case base64StdDecode encoded of
                       None \<Rightarrow> (t2, Inl ErrNotUnmarshalled)
                     | Some ciphertext \<Rightarrow>
                         (case Decrypt E ciphertext encryptionKey (encryptedValueAAD key) of
                            None \<Rightarrow> (t2, Inl ErrCrypto)
                          | Some plaintext \<Rightarrow> (t2, Inr plaintext)))))"

definition SetEncryptedValue :: "'k env \<Rightarrow> bytes \<Rightarrow> string \<Rightarrow> string \<Rightarrow> tx \<Rightarrow> tx \<times> (err + unit)" where
  "SetEncryptedValue E encryptionKey key plaintext t =
     (case Encrypt E plaintext encryptionKey (encryptedValueAAD key) of
        None \<Rightarrow> (t, Inl ErrCrypto)
      | Some ciphertext \<Rightarrow> configSet E key (JStr (base64Std ciphertext)) t)"

section \<open>Laws\<close>

lemma configGet_Inr:
  "configGet E key t = (t', Inr v) \<longleftrightarrow>
     \<not> tx_aborted t \<and> \<not> e_pg_fails E (PQuery (''config.Get:'' @ key)) \<and>
     map_of (db_config (tx_db t)) key = Some v \<and> t' = t"
  by (auto simp: configGet_def query_def stmt_def split: prod.splits sum.splits option.splits if_splits)

lemma configGet_db: "configGet E key t = (t', r) \<Longrightarrow> tx_db t' = tx_db t"
  by (auto simp: configGet_def dest: query_db split: prod.splits sum.splits option.splits)

lemma GetInt_db: "GetInt E key t = (t', r) \<Longrightarrow> tx_db t' = tx_db t"
  by (auto simp: GetInt_def dest: configGet_db split: prod.splits sum.splits)

lemma GetInt_Inr: "GetInt E key t = (t', Inr n) \<Longrightarrow> t' = t"
  by (auto simp: GetInt_def configGet_Inr split: prod.splits sum.splits)

lemma map_of_set:
  "map_of (map (\<lambda>(k, old). if k = key then (k, v) else (k, old)) xs) k'
     = (if k' = key \<and> map_of xs key \<noteq> None then Some v else map_of xs k')"
  by (induction xs) auto

lemma configSet_get:
  assumes "configSet E key v t = (t', Inr ())" and "map_of (db_config (tx_db t)) key \<noteq> None"
  shows "map_of (db_config (tx_db t')) = (map_of (db_config (tx_db t)))(key \<mapsto> v)" and "\<not> tx_aborted t'"
  using assms by (auto simp: configSet_def stmt_Inr map_of_set fun_eq_iff)

lemma b64Raw_mod4: "length (b64Raw A b) mod 4 \<noteq> 1"
  by (induction A b rule: b64Raw.induct) (simp_all add: Let_def)

lemma no_pad_in_b64: "CHR ''='' \<notin> set (base64RawStd b)"
proof -
  have "CHR ''='' \<notin> set b64StdAlphabet" by code_simp
  then show ?thesis
    using b64Nums_bound [of b] b64StdAlphabet_ok
    by (auto simp: base64RawStd_def b64Raw_Nums b64Alphabet_def list_all_iff)
qed

lemma dropWhile_none: "\<forall>x\<in>set xs. \<not> P x \<Longrightarrow> dropWhile P xs = xs"
  by (cases xs) auto

lemma trimRight_pad: "CHR ''='' \<notin> set s \<Longrightarrow> trimRight (s @ replicate n (CHR ''='')) ''='' = s"
proof -
  assume "CHR ''='' \<notin> set s"
  then have "dropWhile (\<lambda>c. c = CHR ''='') (rev s) = rev s" by (intro dropWhile_none) auto
  moreover have "dropWhile (\<lambda>c. c = CHR ''='') (replicate n (CHR ''='') @ rev s) = dropWhile (\<lambda>c. c = CHR ''='') (rev s)"
    by (rule dropWhile_append2) simp
  ultimately show ?thesis by (simp add: trimRight_def)
qed

lemma base64Std_decode: "base64StdDecode (base64Std b) = Some b"
proof -
  let ?s = "base64RawStd b"
  let ?n = "(4 - length ?s mod 4) mod 4"
  have m: "length ?s mod 4 \<noteq> 1" unfolding base64RawStd_def by (rule b64Raw_mod4)
  have "length ?s mod 4 < 4" by simp
  with m consider "length ?s mod 4 = 0" | "length ?s mod 4 = 2" | "length ?s mod 4 = 3" by linarith
  then have n: "?n \<le> 2 \<and> (length ?s + ?n) mod 4 = 0"
    by cases (simp_all, presburger+)
  have "trimRight (?s @ replicate ?n (CHR ''='')) ''='' = ?s"
    by (rule trimRight_pad [OF no_pad_in_b64])
  then show ?thesis
    using n base64RawStd_decode [of b] by (simp add: base64StdDecode_def base64Std_def Let_def)
qed

text \<open>An encrypted value is read back as it was.\<close>

lemma EncryptedValue_stored:
  assumes laws: "gcm_laws E" "rand_laws E" and ct: "Encrypt E plaintext kek (encryptedValueAAD key) = Some ct"
    and stored: "map_of (db_config d) key = Some (JStr (base64Std ct))" and up: "\<forall>c. \<not> e_pg_fails E c"
  shows "snd (EncryptedValue E kek key (pool d)) = Inr plaintext"
proof -
  have "configGet E key (pool d) = (pool d, Inr (JStr (base64Std ct)))" using up stored by (simp add: configGet_Inr)
  with Encrypt_opens [OF laws ct] show ?thesis by (simp add: EncryptedValue_def IsNull_def GetString_def base64Std_decode)
qed

end
