(* ===== verification/Validate.thy ===== *)
theory Validate
  imports InstanceConfig
begin

text \<open>
  Package \<^verbatim>\<open>internal/validate\<close>: the checks of e-mail addresses and of passwords against the policy
  of the instance. The result is the text of the error, or \<open>None\<close>.
\<close>

definition validateEmail :: "'k env \<Rightarrow> string \<Rightarrow> string option" where
  "validateEmail E email =
     (if email = [] then Some ''email is required''
      else if length email > 254 then Some ''email must not exceed 254 characters''
      else if list_ex (\<lambda>c. c = CHR '' '' \<or> c = CHR 0x09 \<or> c = CHR 0x0A \<or> c = CHR 0x0D) email
      then Some ''email must not contain whitespace''
      else if \<not> e_mail_parse E email then Some ''invalid email address''
      else None)"

text \<open>The length is that of the bytes; both character classes are those of Unicode.\<close>

definition validatePassword :: "'k env \<Rightarrow> string \<Rightarrow> PasswordPolicy \<Rightarrow> string option" where
  "validatePassword E p policy =
     (if int (length p) < pp_MinLength policy
      then Some (''password must be at least '' @ showInt (pp_MinLength policy) @ '' characters'')
      else if pp_RequireUpper policy \<and> \<not> e_any_upper E p
      then Some ''password must contain at least one uppercase letter''
      else if pp_RequireDigit policy \<and> \<not> e_any_digit E p
      then Some ''password must contain at least one digit''
      else None)"

lemma validatePassword_None:
  "validatePassword E p policy = None \<longleftrightarrow>
     pp_MinLength policy \<le> int (length p) \<and> (pp_RequireUpper policy \<longrightarrow> e_any_upper E p) \<and>
     (pp_RequireDigit policy \<longrightarrow> e_any_digit E p)"
  by (auto simp: validatePassword_def)

end
