(* ===== verification/RefreshStore.thy ===== *)
theory RefreshStore
  imports Crypto Tables TokenIndex
begin

text \<open>
  \<^verbatim>\<open>internal/oidc/refresh_store.go\<close>: refresh tokens in Valkey. A token is stored under the
  hash of its text, and the hashes of one family are collected in a set, so that reuse of a
  rotated token can delete the whole family.

  The locale \<open>refresh_store\<close> states the contract of the Go interface \<open>RefreshStore\<close> over a
  lookup \<open>stored\<close> from hashes to payloads; its lemmas are the rotation and reuse
  arguments of OAuth 2.1. The Valkey implementation satisfies it on any server that answers by
  the documented semantics (\<open>valkey_refresh_store\<close>).
\<close>

section \<open>Keys\<close>

definition refreshKeyPrefix :: string where "refreshKeyPrefix = ''oidc:refresh:''"
definition refreshFamilyKeyPrefix :: string where "refreshFamilyKeyPrefix = ''oidc:refresh:family:''"

definition sha256hexStr :: "'k env \<Rightarrow> string \<Rightarrow> string" where
  "sha256hexStr E s = hexEncode (e_sha256 E s)"

section \<open>Operations\<close>

definition refreshCreate :: "'k env \<Rightarrow> string \<Rightarrow> RefreshPayload \<Rightarrow> 'k \<Rightarrow> 'k \<times> string option" where
  "refreshCreate E site payload k =
     (let now = Unix (e_go_now E); ttlSecs = rp_Expires payload - now
      in if ttlSecs \<le> 0 then (k, None)
         else case e_rand E site 0 32 of
           None \<Rightarrow> (k, None)
         | Some buf \<Rightarrow>
             (let token = base64RawURL buf; hash = sha256hexStr E token;
                  ttl = ttlSecs * second;
                  family = refreshFamilyKeyPrefix @ rp_FamilyID payload
              in case pipeline E
                        [SET (refreshKeyPrefix @ hash) (JRefresh (payload\<lparr>rp_Used := False\<rparr>)) ttl,
                         SADD family hash,
                         EXPIRE family ttl] k of
                   (rs, k') \<Rightarrow> if pipeFailed rs then (k', None) else (k', Some token)))"

datatype consumeResult =
    Consumed RefreshPayload
  | ErrRefreshReuseDetected RefreshPayload
  | ErrRefreshUnknownOrExpired
  | ErrRefreshConsume

definition refreshConsume :: "'k env \<Rightarrow> string \<Rightarrow> 'k \<Rightarrow> 'k \<times> consumeResult" where
  "refreshConsume E rawToken k =
     (case e_valkey E (GET (refreshKeyPrefix @ sha256hexStr E rawToken)) k of
        (RNil, k') \<Rightarrow> (k', ErrRefreshUnknownOrExpired)
      | (RBody (JRefresh p), k') \<Rightarrow>
          (k', if rp_Used p then ErrRefreshReuseDetected p else Consumed p)
      | (_, k') \<Rightarrow> (k', ErrRefreshConsume))"

text \<open>\<open>MarkUsed\<close>: true is the nil error. go-redis returns a zero duration along with a
  transport error, so the test \<open>ttl <= 0\<close> also takes that case.\<close>

definition refreshMarkUsed :: "'k env \<Rightarrow> string \<Rightarrow> 'k \<Rightarrow> 'k \<times> bool" where
  "refreshMarkUsed E rawToken k =
     (let key = refreshKeyPrefix @ sha256hexStr E rawToken
      in case e_valkey E (TTL key) k of
           (reply, k1) \<Rightarrow>
             (let ttl = (case reply of RInt t \<Rightarrow> t | _ \<Rightarrow> 0)
              in if ttl \<le> 0 then (k1, True)
                 else case e_valkey E (GET key) k1 of
                     (RNil, k2) \<Rightarrow> (k2, True)
                   | (RBody (JRefresh p), k2) \<Rightarrow>
                       if rp_Used p then (k2, True)
                       else (case e_valkey E (SET key (JRefresh (p\<lparr>rp_Used := True\<rparr>)) ttl) k2 of
                               (r, k3) \<Rightarrow> (k3, r \<noteq> RErr))
                   | (_, k2) \<Rightarrow> (k2, False)))"

definition refreshRevokeFamily :: "'k env \<Rightarrow> string \<Rightarrow> 'k \<Rightarrow> 'k \<times> bool" where
  "refreshRevokeFamily E familyID k =
     (let setKey = refreshFamilyKeyPrefix @ familyID
      in case e_valkey E (SMEMBERS setKey) k of
           (RMembers hashes, k1) \<Rightarrow>
             (case pipeline E (map (\<lambda>h. DEL (refreshKeyPrefix @ h)) hashes @ [DEL setKey]) k1 of
                (rs, k2) \<Rightarrow> (k2, \<not> pipeFailed rs))
         | (_, k1) \<Rightarrow> (k1, False))"

definition refreshGet :: "'k env \<Rightarrow> string \<Rightarrow> 'k \<Rightarrow> 'k \<times> (err + RefreshPayload)" where
  "refreshGet E rawToken k =
     (case e_valkey E (GET (refreshKeyPrefix @ sha256hexStr E rawToken)) k of
        (RNil, k') \<Rightarrow> (k', Inl ErrNoRows)
      | (RBody (JRefresh p), k') \<Rightarrow> (k', Inr p)
      | (_, k') \<Rightarrow> (k', Inl ErrNotUnmarshalled))"

section \<open>The contract of the store\<close>

text \<open>
  \<open>stored s h\<close> is the payload under hash \<open>h\<close>, and \<open>lasting s h\<close> says that it has at least half a
  second to live (\<open>MarkUsed\<close> reads the remaining time in whole seconds and leaves a token with
  less alone). \<open>good\<close> is the representation invariant: every stored token is listed in its
  family.
\<close>

locale refresh_store =
  fixes hash :: "string \<Rightarrow> string"
    and stored :: "'s \<Rightarrow> string \<Rightarrow> RefreshPayload option"
    and lasting :: "'s \<Rightarrow> string \<Rightarrow> bool"
    and good :: "'s \<Rightarrow> bool"
    and create :: "string \<Rightarrow> RefreshPayload \<Rightarrow> 's \<Rightarrow> 's \<times> string option"
    and consume :: "string \<Rightarrow> 's \<Rightarrow> 's \<times> consumeResult"
    and markUsed :: "string \<Rightarrow> 's \<Rightarrow> 's \<times> bool"
    and revokeFamily :: "string \<Rightarrow> 's \<Rightarrow> 's \<times> bool"
  assumes create_stored: "good s \<Longrightarrow> create site p s = (s', Some tok) \<Longrightarrow>
      good s' \<and> stored s' = (stored s)(hash tok \<mapsto> p\<lparr>rp_Used := False\<rparr>) \<and>
      lasting s' (hash tok) \<and> (\<forall>h. h \<noteq> hash tok \<longrightarrow> lasting s' h = lasting s h)"
    and create_failed: "good s \<Longrightarrow> create site p s = (s', None) \<Longrightarrow> good s' \<and> stored s' = stored s"
    and consume_stored: "good s \<Longrightarrow> consume tok s = (s', r) \<Longrightarrow> good s' \<and> stored s' = stored s \<and>
      r = (case stored s (hash tok) of None \<Rightarrow> ErrRefreshUnknownOrExpired
           | Some p \<Rightarrow> if rp_Used p then ErrRefreshReuseDetected p else Consumed p)"
    and markUsed_stored: "good s \<Longrightarrow> markUsed tok s = (s', b) \<Longrightarrow>
      good s' \<and> b \<and>
      stored s' = (case stored s (hash tok) of None \<Rightarrow> stored s
                   | Some p \<Rightarrow> if lasting s (hash tok)
                               then (stored s)(hash tok \<mapsto> p\<lparr>rp_Used := True\<rparr>) else stored s)"
    and revokeFamily_stored: "good s \<Longrightarrow> revokeFamily fid s = (s', b) \<Longrightarrow>
      good s' \<and> b \<and>
      (\<forall>h p. stored s' h = Some p \<longrightarrow> stored s h = Some p \<and> rp_FamilyID p \<noteq> fid)"
begin

text \<open>A token just created can be consumed, and carries the payload it was created with.\<close>

lemma create_consume:
  assumes "good s" and "create site p s = (s1, Some tok)" and "consume tok s1 = (s2, r)"
  shows "r = Consumed (p\<lparr>rp_Used := False\<rparr>)"
  using create_stored [OF assms(1,2)] consume_stored [of s1 tok s2 r] assms(3) by auto

text \<open>Rotation: after the new token is created and the old one marked, the old token is
  recognised as reused and the new one is live.\<close>

lemma rotate:
  assumes "good s" and "stored s (hash old) = Some p0" and "lasting s (hash old)"
    and c: "create site p s = (s1, Some new)" and m: "markUsed old s1 = (s2, b)"
    and fresh: "hash new \<noteq> hash old"
  shows "good s2 \<and> stored s2 (hash old) = Some (p0\<lparr>rp_Used := True\<rparr>) \<and>
    stored s2 (hash new) = Some (p\<lparr>rp_Used := False\<rparr>)"
proof -
  have "good s1" and "stored s1 = (stored s)(hash new \<mapsto> p\<lparr>rp_Used := False\<rparr>)"
    and "lasting s1 (hash old)"
    using create_stored [OF assms(1) c] fresh assms(3) by auto
  with markUsed_stored [OF _ m] fresh assms(2) show ?thesis by auto
qed

text \<open>After a family is revoked no token of it can be consumed.\<close>

lemma revoke_dead:
  assumes "good s" and "revokeFamily fid s = (s1, b)"
  shows "good s1 \<and> (\<forall>h p. stored s1 h = Some p \<longrightarrow> rp_FamilyID p \<noteq> fid)"
  using revokeFamily_stored [OF assms] by blast

lemma consume_snd:
  assumes "good s"
  shows "snd (consume tok s) = (case stored s (hash tok) of None \<Rightarrow> ErrRefreshUnknownOrExpired
           | Some p \<Rightarrow> if rp_Used p then ErrRefreshReuseDetected p else Consumed p)"
  using consume_stored [OF assms prod.collapse [symmetric]] by simp

lemma rotation_reuse:
  assumes "good s" and "stored s (hash old) = Some p0" and "lasting s (hash old)"
    and c: "create site p s = (s1, Some new)" and fresh: "hash new \<noteq> hash old"
    and fam: "rp_FamilyID p = rp_FamilyID p0"
    and m: "markUsed old s1 = (s2, b)" and r: "revokeFamily (rp_FamilyID p0) s2 = (s3, b')"
  shows "snd (consume old s2) = ErrRefreshReuseDetected (p0\<lparr>rp_Used := True\<rparr>) \<and>
    snd (consume new s2) = Consumed (p\<lparr>rp_Used := False\<rparr>) \<and>
    (\<forall>tok q. stored s2 (hash tok) = Some q \<longrightarrow> rp_FamilyID q = rp_FamilyID p0 \<longrightarrow>
       snd (consume tok s3) = ErrRefreshUnknownOrExpired) \<and>
    snd (consume new s3) = ErrRefreshUnknownOrExpired"
proof -
  have s2: "good s2" "stored s2 (hash old) = Some (p0\<lparr>rp_Used := True\<rparr>)"
    "stored s2 (hash new) = Some (p\<lparr>rp_Used := False\<rparr>)"
    using rotate [OF assms(1-3) c m fresh] by auto
  have s3: "good s3"
    and sub: "\<And>h q. stored s3 h = Some q \<Longrightarrow> stored s2 h = Some q \<and> rp_FamilyID q \<noteq> rp_FamilyID p0"
    using revokeFamily_stored [OF s2(1) r] by blast+
  have dead: "snd (consume tok s3) = ErrRefreshUnknownOrExpired"
    if "stored s2 (hash tok) = Some q" "rp_FamilyID q = rp_FamilyID p0" for tok q
    using sub [of "hash tok"] that by (cases "stored s3 (hash tok)") (auto simp: consume_snd [OF s3])
  from s2 dead dead [OF s2(3)] fam show ?thesis by (simp add: consume_snd [OF s2(1)])
qed

end

section \<open>The Valkey implementation\<close>

text \<open>Key spaces: a hash has no colon, so token and family keys differ.\<close>

lemma colon_not_hex: "\<not> isHex (CHR '':'')" "\<not> isHex (CHR ''m'')"
  by (simp_all add: isHex_def)

lemma refresh_keys_differ [key_disjoint]:
  assumes "list_all isHex h"
  shows "refreshKeyPrefix @ h \<noteq> refreshFamilyKeyPrefix @ f"
    and "refreshFamilyKeyPrefix @ f \<noteq> refreshKeyPrefix @ h"
proof -
  show "refreshKeyPrefix @ h \<noteq> refreshFamilyKeyPrefix @ f"
  proof
    assume "refreshKeyPrefix @ h = refreshFamilyKeyPrefix @ f"
    then have "h = ''family:'' @ f"
      by (simp add: refreshKeyPrefix_def refreshFamilyKeyPrefix_def)
    with assms show False by (simp add: isHex_def)
  qed
  then show "refreshFamilyKeyPrefix @ f \<noteq> refreshKeyPrefix @ h" by metis
qed

lemma sha256hexStr_hex [simp]: "list_all isHex (sha256hexStr E s)"
  by (auto simp: sha256hexStr_def list_all_iff dest: hexEncode_digits)

text \<open>The lookup read off a key space, and the representation invariant.\<close>

definition decRefresh :: "body \<Rightarrow> RefreshPayload option" where
  "decRefresh b = (case b of JRefresh p \<Rightarrow> Some p | _ \<Rightarrow> None)"

definition storedRefresh :: "kspace \<Rightarrow> string \<Rightarrow> RefreshPayload option" where
  "storedRefresh = storedAt ((@) refreshKeyPrefix) (list_all isHex) decRefresh"

definition family_inv :: "kspace \<Rightarrow> bool" where
  "family_inv = index_inv ((@) refreshKeyPrefix) ((@) refreshFamilyKeyPrefix) (list_all isHex)
     decRefresh rp_FamilyID"

text \<open>The tokens the index lists under a family; \<open>family_own\<close> says that they are tokens of it.\<close>

definition familyTokens :: "kspace \<Rightarrow> string \<Rightarrow> string set" where
  "familyTokens = listedUnder ((@) refreshFamilyKeyPrefix)"

definition family_own :: "kspace \<Rightarrow> bool" where
  "family_own m = (\<forall>f h p. h \<in> familyTokens m f \<longrightarrow> storedRefresh m h = Some p \<longrightarrow> rp_FamilyID p = f)"

definition lastingRefresh :: "kspace \<Rightarrow> string \<Rightarrow> bool" where
  "lastingRefresh m h =
     (case m (refreshKeyPrefix @ h) of Some (_, Some t) \<Rightarrow> second \<le> 2 * t | _ \<Rightarrow> False)"

interpretation family: owner_index "(@) refreshKeyPrefix" "(@) refreshFamilyKeyPrefix"
  "list_all isHex" JRefresh decRefresh rp_FamilyID
  rewrites "storedAt ((@) refreshKeyPrefix) (list_all isHex) decRefresh = storedRefresh"
    and "index_inv ((@) refreshKeyPrefix) ((@) refreshFamilyKeyPrefix) (list_all isHex)
           decRefresh rp_FamilyID = family_inv"
  by unfold_locales (use refresh_keys_differ(1) in
      \<open>auto simp: decRefresh_def storedRefresh_def family_inv_def\<close>)

lemma decRefresh_Some: "decRefresh b = Some p \<longleftrightarrow> b = JRefresh p"
  by (auto simp: decRefresh_def split: body.splits)

lemma ttlReply_pos: "second \<le> 2 * t \<longleftrightarrow> 0 < ttlReply t"
proof -
  have "0 < ttlReply t \<longleftrightarrow> 1000 \<le> t div 10 ^ 6 + 500"
    by (simp add: ttlReply_def second_def zero_less_mult_iff pos_imp_zdiv_pos_iff)
  also have "\<dots> \<longleftrightarrow> 500 * 10 ^ 6 \<le> t"
    using div_mult_mod_eq [of t "10 ^ 6"] pos_mod_bound [of "10 ^ 6" t] pos_mod_sign [of "10 ^ 6" t]
    by simp linarith
  finally show ?thesis by (simp add: second_def)
qed

text \<open>The store satisfies the contract on every server with the documented semantics.\<close>

context valkey_service
begin

lemma refresh_create_live:
  assumes E: "e_valkey E = V" and inv: "family_inv (view k)"
    and exp: "Unix (e_go_now E) < rp_Expires p" and buf: "e_rand E site 0 32 = Some buf"
  defines "tok \<equiv> base64RawURL buf"
  shows "\<exists>k'. refreshCreate E site p k = (k', Some tok) \<and> family_inv (view k') \<and>
    storedRefresh (view k') = (storedRefresh (view k))(sha256hexStr E tok \<mapsto> p\<lparr>rp_Used := False\<rparr>) \<and>
    lastingRefresh (view k') (sha256hexStr E tok) \<and>
    (\<forall>h. list_all isHex h \<longrightarrow> h \<noteq> sha256hexStr E tok \<longrightarrow>
         lastingRefresh (view k') h = lastingRefresh (view k) h)"
proof -
  let ?ttl = "(rp_Expires p - Unix (e_go_now E)) * second" and ?p = "p\<lparr>rp_Used := False\<rparr>"
  obtain rs k1 where pipe: "pipeline E
      [SET (refreshKeyPrefix @ sha256hexStr E tok) (JRefresh ?p) ?ttl,
       SADD (refreshFamilyKeyPrefix @ rp_FamilyID p) (sha256hexStr E tok),
       EXPIRE (refreshFamilyKeyPrefix @ rp_FamilyID p) ?ttl] k = (rs, k1)" by (cases rule: prod.exhaust)
  have ttl: "0 < ?ttl" "second \<le> 2 * ?ttl" using exp by (simp_all add: second_def)
  have sp: "\<not> pipeFailed rs \<and> family_inv (view k1) \<and>
      storedRefresh (view k1) = (storedRefresh (view k))(sha256hexStr E tok \<mapsto> ?p) \<and>
      lastingRefresh (view k1) (sha256hexStr E tok) \<and>
      (\<forall>h'. list_all isHex h' \<longrightarrow> h' \<noteq> sha256hexStr E tok \<longrightarrow>
           lastingRefresh (view k1) h' = lastingRefresh (view k) h')"
    using family.create_space [OF inv sha256hexStr_hex ttl(1), of E tok ?p] serve_pipeline [OF E pipe] ttl(2)
    by (simp add: lastingRefresh_def)
  have "refreshCreate E site p k = (k1, Some tok)"
    using exp buf pipe sp by (simp add: refreshCreate_def Let_def tok_def)
  with sp show ?thesis by auto
qed

lemma refresh_create:
  assumes E: "e_valkey E = V" and inv: "family_inv (view k)"
    and "refreshCreate E site p k = (k', r)"
  shows "case r of None \<Rightarrow> k' = k
    | Some tok \<Rightarrow> family_inv (view k') \<and>
        storedRefresh (view k') = (storedRefresh (view k))(sha256hexStr E tok \<mapsto> p\<lparr>rp_Used := False\<rparr>) \<and>
        lastingRefresh (view k') (sha256hexStr E tok) \<and>
        (\<forall>h. list_all isHex h \<longrightarrow> h \<noteq> sha256hexStr E tok \<longrightarrow>
             lastingRefresh (view k') h = lastingRefresh (view k) h)"
proof (cases "rp_Expires p - Unix (e_go_now E) \<le> 0 \<or> e_rand E site 0 32 = None")
  case True
  with assms(3) have "r = None" "k' = k" by (auto simp: refreshCreate_def Let_def split: if_splits)
  then show ?thesis by simp
next
  case False
  then obtain buf where "e_rand E site 0 32 = Some buf" "Unix (e_go_now E) < rp_Expires p" by auto
  from refresh_create_live [OF E inv this(2,1)] assms(3) show ?thesis by auto
qed

lemma refresh_get:
  assumes E: "e_valkey E = V" and inv: "family_inv (view k)"
    and g: "V (GET (refreshKeyPrefix @ sha256hexStr E tok)) k = (r, k')"
  shows "view k' = view k \<and>
    r = (case storedRefresh (view k) (sha256hexStr E tok) of None \<Rightarrow> RNil | Some p \<Rightarrow> RBody (JRefresh p))"
  using serve [OF g] family.invD(3) [OF inv sha256hexStr_hex [of E tok]]
    family.stored_GET [OF inv sha256hexStr_hex [of E tok]]
  by (fastforce simp: family.stored_Some decRefresh_Some split: option.splits)

lemma refresh_consume:
  assumes E: "e_valkey E = V" and inv: "family_inv (view k)" and c: "refreshConsume E tok k = (k', r)"
  shows "view k' = view k \<and>
    r = (case storedRefresh (view k) (sha256hexStr E tok) of None \<Rightarrow> ErrRefreshUnknownOrExpired
         | Some p \<Rightarrow> if rp_Used p then ErrRefreshReuseDetected p else Consumed p)"
proof -
  obtain rep k1 where g: "V (GET (refreshKeyPrefix @ sha256hexStr E tok)) k = (rep, k1)"
    by (cases rule: prod.exhaust)
  with refresh_get [OF E inv g] c show ?thesis
    by (auto simp: refreshConsume_def E split: option.splits if_splits)
qed

lemma refresh_markUsed:
  assumes E: "e_valkey E = V" and inv: "family_inv (view k)" and mk: "refreshMarkUsed E tok k = (k', b)"
  defines "h \<equiv> sha256hexStr E tok"
  shows "family_inv (view k') \<and> b \<and>
    storedRefresh (view k') =
      (case storedRefresh (view k) h of None \<Rightarrow> storedRefresh (view k)
       | Some p \<Rightarrow> if lastingRefresh (view k) h then (storedRefresh (view k))(h \<mapsto> p\<lparr>rp_Used := True\<rparr>)
                   else storedRefresh (view k))"
proof -
  let ?key = "refreshKeyPrefix @ h"
  have hex: "list_all isHex h" by (simp add: h_def)
  obtain t k1 where t: "V (TTL ?key) k = (t, k1)" by (cases rule: prod.exhaust)
  then have k1: "view k1 = view k" and rep: "t = fst (vk_exec (TTL ?key) (view k))"
    using serve [OF t] by (auto split: option.splits prod.splits)
  obtain g k2 where g: "V (GET ?key) k1 = (g, k2)" by (cases rule: prod.exhaust)
  have k2: "view k2 = view k"
    and grep: "g = (case storedRefresh (view k) h of None \<Rightarrow> RNil | Some p \<Rightarrow> RBody (JRefresh p))"
    using refresh_get [OF E, of k1 tok g k2] g inv k1 by (simp_all add: h_def)
  show ?thesis
  proof (cases "storedRefresh (view k) h")
    case None
    then have "view k ?key = None" using family.stored_GET(2) [OF inv hex] by simp
    with rep have "t = RInt (-2)" by simp
    with mk t k1 inv None show ?thesis by (auto simp: refreshMarkUsed_def E h_def)
  next
    case (Some p)
    then obtain e where key: "view k ?key = Some (VStr (JRefresh p), e)"
      by (auto simp: family.stored_Some decRefresh_Some)
    show ?thesis
    proof (cases "lastingRefresh (view k) h")
      case False
      with key rep have "(case t of RInt x \<Rightarrow> x | _ \<Rightarrow> 0) \<le> 0"
        by (auto simp: lastingRefresh_def ttlReply_pos split: option.splits)
      with mk t k1 inv Some False show ?thesis by (auto simp: refreshMarkUsed_def E h_def Let_def)
    next
      case True
      with key obtain x where x: "e = Some x" "0 < ttlReply x"
        by (auto simp: lastingRefresh_def ttlReply_pos split: option.splits)
      with key rep have t': "t = RInt (ttlReply x)" by simp
      obtain s k3 where s: "V (SET ?key (JRefresh (p\<lparr>rp_Used := True\<rparr>)) (ttlReply x)) k2 = (s, k3)"
        by (cases rule: prod.exhaust)
      have k3: "s = ROk" "view k3 = (view k)(?key \<mapsto> (VStr (JRefresh (p\<lparr>rp_Used := True\<rparr>)), Some (ttlReply x)))"
        using serve [OF s] x k2 by auto
      have upd: "family_inv (view k3)" "storedRefresh (view k3) = (storedRefresh (view k))(h \<mapsto> p\<lparr>rp_Used := True\<rparr>)"
        using family.inv_replace [OF inv Some] family.stored_upd(1) [OF hex] by (simp_all add: k3)
      have same: "(storedRefresh (view k))(h \<mapsto> p\<lparr>rp_Used := True\<rparr>) = storedRefresh (view k)" if "rp_Used p"
        using Some that by (auto simp: fun_eq_iff)
      show ?thesis
        using mk t t' g grep Some s k3(1) upd x True inv k2 same
        by (auto simp: refreshMarkUsed_def E h_def [symmetric] Let_def split: if_splits)
    qed
  qed
qed

lemma refresh_revoke:
  assumes E: "e_valkey E = V" and inv: "family_inv (view k)" and rv: "refreshRevokeFamily E fid k = (k', b)"
  shows "family_inv (view k') \<and> b \<and>
    (\<forall>h p. storedRefresh (view k') h = Some p \<longrightarrow> storedRefresh (view k) h = Some p \<and> rp_FamilyID p \<noteq> fid) \<and>
    (\<forall>h. storedRefresh (view k') h = (if h \<in> familyTokens (view k) fid then None else storedRefresh (view k) h))"
proof -
  let ?fam = "refreshFamilyKeyPrefix @ fid"
  obtain r k1 where r: "V (SMEMBERS ?fam) k = (r, k1)" by (cases rule: prod.exhaust)
  obtain hs where hs: "r = RMembers hs" "view k1 = view k"
      "case view k ?fam of None \<Rightarrow> hs = [] | Some (v, e) \<Rightarrow> v = VSet hs"
    using family.members_space [OF inv serve [OF r]] by blast
  have fam: "familyTokens (view k) fid = set hs"
    using hs(3) by (simp add: familyTokens_def listedUnder_def split: option.splits prod.splits)
  let ?cmds = "map (\<lambda>h. DEL (refreshKeyPrefix @ h)) hs @ [DEL ?fam]"
  have cmds: "?cmds = map DEL (map ((@) refreshKeyPrefix) hs @ [?fam])" by simp
  obtain rs k2 where p: "pipeline E ?cmds k1 = (rs, k2)" by (cases rule: prod.exhaust)
  have "k' = k2" "b = (\<not> pipeFailed rs)"
    using rv r hs(1) p by (auto simp: refreshRevokeFamily_def E Let_def)
  with vk_execs_del [OF serve_pipeline [OF E p, unfolded cmds hs(2)]]
    family.revoke_space [OF inv hs(3)] show ?thesis by (simp add: fam)
qed

text \<open>Listing is exclusive in a store that was filled through \<open>Create\<close> with hashes that were not listed before.\<close>

lemma refresh_create_own:
  assumes E: "e_valkey E = V" and inv: "family_inv (view k)" and own: "family_own (view k)"
    and c: "refreshCreate E site p k = (k', Some tok)" and new: "\<And>f. sha256hexStr E tok \<notin> familyTokens (view k) f"
  shows "family_own (view k')"
proof -
  let ?h = "sha256hexStr E tok" and ?ttl = "(rp_Expires p - Unix (e_go_now E)) * second" and ?p = "p\<lparr>rp_Used := False\<rparr>"
  obtain rs where pipe: "pipeline E [SET (refreshKeyPrefix @ ?h) (JRefresh ?p) ?ttl, SADD (refreshFamilyKeyPrefix @ rp_FamilyID p) ?h,
      EXPIRE (refreshFamilyKeyPrefix @ rp_FamilyID p) ?ttl] k = (rs, k')" and pos: "0 < ?ttl"
    using c by (auto simp: refreshCreate_def Let_def second_def simp del: pipeline.simps split: if_splits option.splits prod.splits)
  note ex = serve_pipeline [OF E pipe]
  have st: "storedRefresh (view k') = (storedRefresh (view k))(?h \<mapsto> ?p)"
    using family.create_space [OF inv sha256hexStr_hex pos, of E tok ?p] ex by simp
  have li: "familyTokens (view k') f = (if f = rp_FamilyID p then insert ?h (familyTokens (view k) f) else familyTokens (view k) f)" for f
    using family.create_listed [OF inv sha256hexStr_hex pos, of E tok ?p] ex by (simp add: familyTokens_def)
  show ?thesis using own new unfolding family_own_def st li by (auto split: if_splits)
qed

end

lemma valkey_refresh_store:
  assumes "valkey_service (e_valkey E) view"
  shows "refresh_store (sha256hexStr E) (\<lambda>k. storedRefresh (view k))
    (\<lambda>k h. list_all isHex h \<and> lastingRefresh (view k) h) (\<lambda>k. family_inv (view k))
    (refreshCreate E) (refreshConsume E) (refreshMarkUsed E) (refreshRevokeFamily E)"
proof
  fix s site p s' tok
  assume "family_inv (view s)" "refreshCreate E site p s = (s', Some tok)"
  from valkey_service.refresh_create [OF assms refl this]
  show "family_inv (view s') \<and>
      storedRefresh (view s') = (storedRefresh (view s))(sha256hexStr E tok \<mapsto> p\<lparr>rp_Used := False\<rparr>) \<and>
      (list_all isHex (sha256hexStr E tok) \<and> lastingRefresh (view s') (sha256hexStr E tok)) \<and>
      (\<forall>h. h \<noteq> sha256hexStr E tok \<longrightarrow>
        (list_all isHex h \<and> lastingRefresh (view s') h) = (list_all isHex h \<and> lastingRefresh (view s) h))"
    by auto
next
  fix s site p s'
  assume "family_inv (view s)" "refreshCreate E site p s = (s', None)"
  from valkey_service.refresh_create [OF assms refl this] this(1)
  show "family_inv (view s') \<and> storedRefresh (view s') = storedRefresh (view s)" by simp
next
  fix s tok s' r
  assume "family_inv (view s)" "refreshConsume E tok s = (s', r)"
  from valkey_service.refresh_consume [OF assms refl this] this(1)
  show "family_inv (view s') \<and> storedRefresh (view s') = storedRefresh (view s) \<and>
      r = (case storedRefresh (view s) (sha256hexStr E tok) of None \<Rightarrow> ErrRefreshUnknownOrExpired
           | Some p \<Rightarrow> if rp_Used p then ErrRefreshReuseDetected p else Consumed p)" by simp
next
  fix s tok s' b
  assume "family_inv (view s)" "refreshMarkUsed E tok s = (s', b)"
  from valkey_service.refresh_markUsed [OF assms refl this]
  show "family_inv (view s') \<and> b \<and>
      storedRefresh (view s') = (case storedRefresh (view s) (sha256hexStr E tok) of
         None \<Rightarrow> storedRefresh (view s)
       | Some p \<Rightarrow> if list_all isHex (sha256hexStr E tok) \<and> lastingRefresh (view s) (sha256hexStr E tok)
                   then (storedRefresh (view s))(sha256hexStr E tok \<mapsto> p\<lparr>rp_Used := True\<rparr>)
                   else storedRefresh (view s))" by (simp split: option.splits)
next
  fix s fid s' b
  assume "family_inv (view s)" "refreshRevokeFamily E fid s = (s', b)"
  from valkey_service.refresh_revoke [OF assms refl this]
  show "family_inv (view s') \<and> b \<and>
      (\<forall>h p. storedRefresh (view s') h = Some p \<longrightarrow> storedRefresh (view s) h = Some p \<and> rp_FamilyID p \<noteq> fid)"
    by simp
qed

text \<open>In particular on the key space itself.\<close>

interpretation refreshes: refresh_store "sha256hexStr (E\<lparr>e_valkey := vk_exec\<rparr>)" storedRefresh
  "\<lambda>k h. list_all isHex h \<and> lastingRefresh k h" family_inv
  "refreshCreate (E\<lparr>e_valkey := vk_exec\<rparr>)" "refreshConsume (E\<lparr>e_valkey := vk_exec\<rparr>)"
  "refreshMarkUsed (E\<lparr>e_valkey := vk_exec\<rparr>)" "refreshRevokeFamily (E\<lparr>e_valkey := vk_exec\<rparr>)" for E
  using valkey_refresh_store [of "E\<lparr>e_valkey := vk_exec\<rparr>" "\<lambda>m. m"] keyspace.valkey_service_axioms
  by simp


section \<open>Rotation and reuse\<close>

lemma family_inv_empty: "family_inv (\<lambda>k. None)"
  unfolding family_inv_def by (rule index_inv_empty)

text \<open>C32. Refresh token rotation at the store, on any Valkey server with the documented semantics:
  after a new token of the same family is created and the presented one marked used, the old
  token is recognised as reused and the new one is accepted with the payload it was created with;
  and once the family is revoked neither of them, nor any other token of the family, is known to
  the store.\<close>

theorem refresh_rotation_reuse:
  assumes srv: "valkey_service (e_valkey E) view" and inv: "family_inv (view k)"
    and old: "storedRefresh (view k) (sha256hexStr E old) = Some p0"
      "lastingRefresh (view k) (sha256hexStr E old)"
    and create: "refreshCreate E site p k = (k1, Some new)"
      "sha256hexStr E new \<noteq> sha256hexStr E old" "rp_FamilyID p = rp_FamilyID p0"
    and mark: "refreshMarkUsed E old k1 = (k2, b)"
    and revoke: "refreshRevokeFamily E (rp_FamilyID p0) k2 = (k3, b')"
  shows "snd (refreshConsume E old k2) = ErrRefreshReuseDetected (p0\<lparr>rp_Used := True\<rparr>) \<and>
    snd (refreshConsume E new k2) = Consumed (p\<lparr>rp_Used := False\<rparr>) \<and>
    (\<forall>tok q. storedRefresh (view k2) (sha256hexStr E tok) = Some q \<longrightarrow> rp_FamilyID q = rp_FamilyID p0 \<longrightarrow>
       snd (refreshConsume E tok k3) = ErrRefreshUnknownOrExpired) \<and>
    snd (refreshConsume E new k3) = ErrRefreshUnknownOrExpired"
  using refresh_store.rotation_reuse [OF valkey_refresh_store [OF srv] inv old(1) _ create mark revoke]
    old(2) by simp

definition samplePayload :: RefreshPayload where
  "samplePayload = \<lparr>rp_UserID = ''7'', rp_ClientID = ''9'', rp_Scopes = [''openid'', ''offline_access''],
     rp_FamilyID = ''5'', rp_CreatedAt = 900, rp_Expires = 2000, rp_Used = False\<rparr>"

definition sampleToken :: "nat \<Rightarrow> string" where
  "sampleToken n = base64RawURL (replicate 32 (char_of n))"

lemma sampleToken_differ:
  assumes "a \<noteq> b" and "a < 256" and "b < 256"
  shows "sha256hexStr sampleEnv (sampleToken a) \<noteq> sha256hexStr sampleEnv (sampleToken b)"
proof
  assume "sha256hexStr sampleEnv (sampleToken a) = sha256hexStr sampleEnv (sampleToken b)"
  then have "hexEncode (sampleToken a) = hexEncode (sampleToken b)"
    by (simp add: sha256hexStr_def sampleEnv_def)
  then have "sampleToken a = sampleToken b" by (rule hexEncode_inj)
  then have "replicate 32 (char_of a :: char) = replicate 32 (char_of b)"
    unfolding sampleToken_def base64RawURL_def by (rule b64Raw_inj [OF b64URLAlphabet_ok])
  then have "char_of a = (char_of b :: char)" by (simp only: replicate_eq_replicate)
  then have "of_char (char_of a :: char) = (of_char (char_of b :: char) :: nat)" by (rule arg_cong)
  with assms show False by (simp add: of_char_of)
qed

lemma sampleCreate:
  assumes "family_inv k" and "length site = n"
  obtains k' where
    "refreshCreate sampleEnv site samplePayload k = (k', Some (sampleToken n))"
    "family_inv k'"
    "storedRefresh k' = (storedRefresh k)(sha256hexStr sampleEnv (sampleToken n)
       \<mapsto> samplePayload)"
    "lastingRefresh k' (sha256hexStr sampleEnv (sampleToken n))"
  using keyspace.refresh_create_live [of sampleEnv k samplePayload site] assms
  by (fastforce simp: sampleEnv_def samplePayload_def Unix_def second_def sampleToken_def)

theorem refresh_rotation_reuse_witness:
  "\<exists>k1 k2 k3 old new.
     refreshCreate sampleEnv ''new'' samplePayload k1 = (k2, Some new) \<and>
     snd (refreshConsume sampleEnv old (fst (refreshMarkUsed sampleEnv old k2)))
       = ErrRefreshReuseDetected (samplePayload\<lparr>rp_Used := True\<rparr>) \<and>
     refreshRevokeFamily sampleEnv ''5'' (fst (refreshMarkUsed sampleEnv old k2)) = (k3, True) \<and>
     snd (refreshConsume sampleEnv new k3) = ErrRefreshUnknownOrExpired"
proof -
  let ?old = "sampleToken 4" and ?new = "sampleToken 3"
  obtain k1 where k1: "family_inv k1" "lastingRefresh k1 (sha256hexStr sampleEnv ?old)"
    and st: "storedRefresh k1 = (storedRefresh (\<lambda>k. None))(sha256hexStr sampleEnv ?old \<mapsto> samplePayload)"
    by (rule sampleCreate [OF family_inv_empty, of "''code''" 4]) simp_all
  have st1: "storedRefresh k1 (sha256hexStr sampleEnv ?old) = Some samplePayload"
    unfolding st by (rule fun_upd_same)
  obtain k2 where k2: "refreshCreate sampleEnv ''new'' samplePayload k1 = (k2, Some ?new)" "family_inv k2"
    by (rule sampleCreate [OF k1(1), of "''new''" 3]) simp_all
  obtain k2' b where m: "refreshMarkUsed sampleEnv ?old k2 = (k2', b)" by (cases rule: prod.exhaust)
  obtain k3 b' where r: "refreshRevokeFamily sampleEnv ''5'' k2' = (k3, b')" by (cases rule: prod.exhaust)
  have ne: "sha256hexStr sampleEnv ?new \<noteq> sha256hexStr sampleEnv ?old"
    by (rule sampleToken_differ) simp_all
  have srv: "valkey_service (e_valkey sampleEnv) (\<lambda>m. m)"
    using keyspace.valkey_service_axioms by (simp add: sampleEnv_def)
  have fam: "rp_FamilyID samplePayload = ''5''" by (simp add: samplePayload_def)
  note rot = refresh_rotation_reuse [OF srv k1(1) st1 k1(2) k2(1) ne refl m, unfolded fam, OF r]
  have "family_inv k2'" using valkey_service.refresh_markUsed [OF srv refl k2(2) m] by simp
  then have "b'" using valkey_service.refresh_revoke [OF srv refl _ r] by simp
  with rot k2(1) m r show ?thesis
    by (intro exI [of _ k1] exI [of _ k2] exI [of _ k3] exI [of _ ?old] exI [of _ ?new])
       (simp only: fst_conv simp_thms)
qed

end
