(* ===== verification/SigningKeys.thy ===== *)
theory SigningKeys
  imports Crypto UserStore
begin

text \<open>
  Package \<^verbatim>\<open>internal/signingkeys\<close> with \<^verbatim>\<open>oidc/keys.go\<close> and \<^verbatim>\<open>oidc/jwks.go\<close>: the life of a signing
  key from active over retiring to retired. \<open>key_step\<close> collects the operations that change the
  table; the invariant \<open>keys_inv\<close> (at most one active key) holds in every state they reach.
\<close>

section \<open>Keys\<close>

definition signingKeyAAD :: bytes where "signingKeyAAD = ''signing_key:private_pem''"

definition GenerateKeyPair :: "'k env \<Rightarrow> string \<Rightarrow> (bytes \<times> bytes) option" where
  "GenerateKeyPair E site = e_rsa_generate E site"

definition WrapPrivateKey :: "'k env \<Rightarrow> bytes \<Rightarrow> bytes \<Rightarrow> bytes option" where
  "WrapPrivateKey E privatePEM kek =
     (if length kek \<noteq> 32 then None else Encrypt E privatePEM kek signingKeyAAD)"

definition UnwrapPrivateKey :: "'k env \<Rightarrow> bytes \<Rightarrow> bytes \<Rightarrow> bytes option" where
  "UnwrapPrivateKey E wrapped kek =
     (if length kek \<noteq> 32 then None else Decrypt E wrapped kek signingKeyAAD)"

record JWK =
  jwk_Kty :: string
  jwk_Use :: string
  jwk_Alg :: string
  jwk_Kid :: string
  jwk_N :: string
  jwk_E :: string

definition PublicPEMToJWK :: "'k env \<Rightarrow> string \<Rightarrow> bytes \<Rightarrow> JWK option" where
  "PublicPEMToJWK E kid publicPEM =
     (case e_rsa_public E publicPEM of
        None \<Rightarrow> None
      | Some (n, e) \<Rightarrow> Some \<lparr>jwk_Kty = ''RSA'', jwk_Use = ''sig'', jwk_Alg = ''RS256'', jwk_Kid = kid,
                              jwk_N = base64RawURL n, jwk_E = base64RawURL e\<rparr>)"

fun BuildJWKSet :: "'k env \<Rightarrow> SigningKey list \<Rightarrow> JWK list option" where
  "BuildJWKSet E [] = Some []"
| "BuildJWKSet E (k # ks) =
     (case PublicPEMToJWK E (e_uuid_string E (sk_ID k)) (sk_PublicKeyPEM k) of
        None \<Rightarrow> None
      | Some jwk \<Rightarrow> map_option (\<lambda>rest. jwk # rest) (BuildJWKSet E ks))"

section \<open>The store\<close>

definition keyStatusOk :: "string \<Rightarrow> bool" where
  "keyStatusOk s = (s = ''active'' \<or> s = ''retiring'' \<or> s = ''retired'')"

definition KeyInsert
  :: "'k env \<Rightarrow> bytes \<Rightarrow> bytes \<Rightarrow> string \<Rightarrow> tx \<Rightarrow> tx \<times> (err + uuid)" where
  "KeyInsert E publicPEM privateEncrypted status =
     stmt E ''signing_keys.Insert''
       (\<lambda>d. let kid = e_new_uuid E ''signing_keys.id'' in
          if \<not> keyStatusOk status then Inl ErrDB
          else if list_ex (\<lambda>k. sk_ID k = kid) (db_signing_keys d) then Inl ErrUnique
          else Inr (d\<lparr>db_signing_keys := db_signing_keys d @
                 [\<lparr>sk_ID = kid, sk_Algorithm = ''RS256'', sk_PublicKeyPEM = publicPEM,
                   sk_PrivateKeyEncrypted = privateEncrypted, sk_Status = status,
                   sk_CreatedAt = e_pg_now E, sk_RotatedAt = None\<rparr>]\<rparr>, kid))"

text \<open>Active keys first, then the retiring ones, each by age.\<close>

definition publishable :: "SigningKey list \<Rightarrow> SigningKey list" where
  "publishable ks =
     sort_key sk_CreatedAt (filter (\<lambda>k. sk_Status k = ''active'') ks) @
     sort_key sk_CreatedAt (filter (\<lambda>k. sk_Status k = ''retiring'') ks)"

definition ListPublishable :: "'k env \<Rightarrow> tx \<Rightarrow> tx \<times> (err + SigningKey list)" where
  "ListPublishable E = query E ''signing_keys.ListPublishable'' (\<lambda>d. publishable (db_signing_keys d))"

definition GetActive :: "'k env \<Rightarrow> tx \<Rightarrow> tx \<times> (err + SigningKey)" where
  "GetActive E t =
     needOne ErrNoRows
       (query E ''signing_keys.GetActive'' (\<lambda>d. find (\<lambda>k. sk_Status k = ''active'') (db_signing_keys d)) t)"

definition updKeys :: "(SigningKey \<Rightarrow> bool) \<Rightarrow> (SigningKey \<Rightarrow> SigningKey) \<Rightarrow> db \<Rightarrow> db" where
  "updKeys p f d = d\<lparr>db_signing_keys := map (\<lambda>k. if p k then f k else k) (db_signing_keys d)\<rparr>"

definition MarkRetiring :: "'k env \<Rightarrow> uuid \<Rightarrow> tx \<Rightarrow> tx \<times> (err + unit)" where
  "MarkRetiring E kid =
     stmt E ''signing_keys.MarkRetiring''
       (\<lambda>d. Inr (updKeys (\<lambda>k. sk_ID k = kid \<and> sk_Status k = ''active'')
                   (\<lambda>k. k\<lparr>sk_Status := ''retiring'', sk_RotatedAt := Some (e_pg_now E)\<rparr>) d, ()))"

definition MarkRetired :: "'k env \<Rightarrow> uuid \<Rightarrow> tx \<Rightarrow> tx \<times> (err + unit)" where
  "MarkRetired E kid =
     stmt E ''signing_keys.MarkRetired''
       (\<lambda>d. Inr (updKeys (\<lambda>k. sk_ID k = kid \<and> sk_Status k = ''retiring'')
                   (\<lambda>k. k\<lparr>sk_Status := ''retired''\<rparr>) d, ()))"

definition ListRetirable :: "'k env \<Rightarrow> int \<Rightarrow> tx \<Rightarrow> tx \<times> (err + uuid list)" where
  "ListRetirable E cutoff =
     query E ''signing_keys.ListRetirable''
       (\<lambda>d. map sk_ID (filter (\<lambda>k. sk_Status k = ''retiring'' \<and>
               (case sk_RotatedAt k of None \<Rightarrow> False | Some r \<Rightarrow> r < cutoff)) (db_signing_keys d)))"

section \<open>Bootstrap and the sweep\<close>

definition keyEntry :: "'k env \<Rightarrow> string \<Rightarrow> uuid \<Rightarrow> (string \<times> metaval) list option \<Rightarrow> Entry" where
  "keyEntry E event kid md =
     \<lparr>en_EventType = event, en_ActorID = None, en_ActorEmail = [], en_TargetType = ''signing_key'',
      en_TargetID = e_uuid_string E kid, en_ClientID = None, en_IPAddress = [],
      en_Outcome = ''success'', en_Metadata = md\<rparr>"

text \<open>True is the nil error.\<close>

definition Bootstrap :: "'k env \<Rightarrow> bytes \<Rightarrow> db \<Rightarrow> db \<times> bool" where
  "Bootstrap E encryptionKey d =
     (case snd (GetActive E (pool d)) of
        Inr k \<Rightarrow> (d, True)
      | Inl e \<Rightarrow>
          if e \<noteq> ErrNoRows then (d, False)
          else (case GenerateKeyPair E ''bootstrap'' of
             None \<Rightarrow> (d, False)
           | Some (pubPEM, privPEM) \<Rightarrow>
          (case WrapPrivateKey E privPEM encryptionKey of
             None \<Rightarrow> (d, False)
           | Some wrapped \<Rightarrow>
          (case beginTx E ''bootstrap'' d of
             None \<Rightarrow> (d, False)
           | Some t0 \<Rightarrow>
          (case KeyInsert E pubPEM wrapped ''active'' t0 of
             (t1, Inl e) \<Rightarrow> (d, False)
           | (t1, Inr kid) \<Rightarrow>
          (case Log E [] (keyEntry E ''oidc.signing_key.generated'' kid
                           (Some [(''algorithm'', MStr ''RS256''), (''key_size_bits'', MInt 2048)])) t1 of
             (t2, Inl e) \<Rightarrow> (d, False)
           | (t2, Inr _) \<Rightarrow> commitTx E ''bootstrap'' t2 d))))))"

text \<open>One transaction per key; the first failure ends the sweep.\<close>

fun sweepKeys :: "'k env \<Rightarrow> string \<Rightarrow> uuid list \<Rightarrow> db \<Rightarrow> db \<times> bool" where
  "sweepKeys E cid [] d = (d, True)"
| "sweepKeys E cid (kid # ids) d =
     (case beginTx E ''retireSweep'' d of
        None \<Rightarrow> (d, False)
      | Some t0 \<Rightarrow>
          (case MarkRetired E kid t0 of
             (t1, Inl e) \<Rightarrow> (d, False)
           | (t1, Inr _) \<Rightarrow>
               (case Log E cid (keyEntry E ''oidc.signing_key.retired'' kid None) t1 of
                  (t2, Inl e) \<Rightarrow> (d, False)
                | (t2, Inr _) \<Rightarrow>
                    (case commitTx E ''retireSweep'' t2 d of
                       (d', False) \<Rightarrow> (d', False)
                     | (d', True) \<Rightarrow> sweepKeys E cid ids d'))))"

definition RetireSweep :: "'k env \<Rightarrow> string \<Rightarrow> int \<Rightarrow> db \<Rightarrow> db \<times> bool" where
  "RetireSweep E cid cutoff d =
     (case snd (ListRetirable E cutoff (pool d)) of
        Inl e \<Rightarrow> (d, False)
      | Inr ids \<Rightarrow> sweepKeys E cid ids d)"

section \<open>The admin handler\<close>

text \<open>The transaction of \<open>Rotate\<close> after the active key has been read.\<close>

definition rotateTx
  :: "'k env \<Rightarrow> request \<Rightarrow> User \<Rightarrow> bytes \<Rightarrow> bytes \<Rightarrow> uuid \<Rightarrow> tx \<Rightarrow> db \<Rightarrow> db \<times> bool" where
  "rotateTx E req actor pubPEM wrapped current t d =
     (case MarkRetiring E current t of
        (t1, Inl e) \<Rightarrow> (d, False)
      | (t1, Inr _) \<Rightarrow>
          (case KeyInsert E pubPEM wrapped ''active'' t1 of
             (t2, Inl e) \<Rightarrow> (d, False)
           | (t2, Inr newID) \<Rightarrow>
               (case Log E (req_CorrelationID req)
                       \<lparr>en_EventType = ''oidc.signing_key.rotated'', en_ActorID = Some (u_ID actor),
                        en_ActorEmail = u_Email actor, en_TargetType = ''signing_key'',
                        en_TargetID = e_uuid_string E newID, en_ClientID = None,
                        en_IPAddress = clientIP E req, en_Outcome = ''success'',
                        en_Metadata = Some [(''previous_id'', MStr (e_uuid_string E current))]\<rparr> t2 of
                  (t3, Inl e) \<Rightarrow> (d, False)
                | (t3, Inr _) \<Rightarrow> commitTx E ''rotate'' t3 d)))"

definition rotateCutoff :: "'k env \<Rightarrow> int" where
  "rotateCutoff E = e_go_now E - (15 * 60 + 24 * 3600 + 30) * second"

definition Rotate
  :: "'k env \<Rightarrow> bytes \<Rightarrow> request \<Rightarrow> User option \<Rightarrow> db \<Rightarrow> db \<times> unit response" where
  "Rotate E encryptionKey req currentUser d =
     (case currentUser of
        None \<Rightarrow> (d, WriteError 401 ''INVALID_SESSION'' ''Not authenticated.'')
      | Some actor \<Rightarrow>
     (case GenerateKeyPair E ''rotate'' of
        None \<Rightarrow> (d, internalError)
      | Some (pubPEM, privPEM) \<Rightarrow>
     (case WrapPrivateKey E privPEM encryptionKey of
        None \<Rightarrow> (d, internalError)
      | Some wrapped \<Rightarrow>
     (case beginTx E ''rotate'' d of
        None \<Rightarrow> (d, internalError)
      | Some t0 \<Rightarrow>
     (case GetActive E t0 of
        (t1, Inl e) \<Rightarrow> (d, internalError)
      | (t1, Inr current) \<Rightarrow>
     (case rotateTx E req actor pubPEM wrapped (sk_ID current) t1 d of
        (d1, False) \<Rightarrow> (d1, internalError)
      | (d1, True) \<Rightarrow>
          (fst (RetireSweep E (req_CorrelationID req) (rotateCutoff E) d1), NoContent)))))))"

record signingKeyDTO =
  dto_KID :: string
  dto_Algorithm :: string
  dto_Status :: string
  dto_CreatedAt :: int
  dto_RotatedAt :: "int option"

definition KeyGetList :: "'k env \<Rightarrow> db \<Rightarrow> signingKeyDTO list response" where
  "KeyGetList E d =
     (case snd (ListPublishable E (pool d)) of
        Inl e \<Rightarrow> internalError
      | Inr keys \<Rightarrow>
          WriteJSON 200 (map (\<lambda>k. \<lparr>dto_KID = e_uuid_string E (sk_ID k), dto_Algorithm = sk_Algorithm k,
                                 dto_Status = sk_Status k, dto_CreatedAt = sk_CreatedAt k,
                                 dto_RotatedAt = sk_RotatedAt k\<rparr>) keys))"

definition EmergencyRetire
  :: "'k env \<Rightarrow> request \<Rightarrow> User option \<Rightarrow> string \<Rightarrow> db \<Rightarrow> db \<times> unit response" where
  "EmergencyRetire E req currentUser kidStr d =
     (case currentUser of
        None \<Rightarrow> (d, WriteError 401 ''INVALID_SESSION'' ''Not authenticated.'')
      | Some actor \<Rightarrow>
     (case e_uuid_parse E kidStr of
        None \<Rightarrow> (d, WriteError 400 ''VALIDATION_ERROR'' ''Invalid kid.'')
      | Some kid \<Rightarrow>
     (case beginTx E ''emergencyRetire'' d of
        None \<Rightarrow> (d, internalError)
      | Some t0 \<Rightarrow>
     (case query E ''signing_keys.SelectForUpdate''
             (\<lambda>d. map_option sk_Status (find (\<lambda>k. sk_ID k = kid) (db_signing_keys d))) t0 of
        (t1, Inl e) \<Rightarrow> (d, internalError)
      | (t1, Inr None) \<Rightarrow> (d, WriteError 404 ''SIGNING_KEY_NOT_FOUND'' ''Signing key not found.'')
      | (t1, Inr (Some status)) \<Rightarrow>
          if status = ''active''
          then (d, WriteError 409 ''CANNOT_RETIRE_ACTIVE_KEY''
                   ''Cannot retire the active signing key. Rotate first, then retire the demoted key.'')
          else if status = ''retired''
          then (d, WriteError 409 ''ALREADY_RETIRED'' ''Signing key is already retired.'')
          else if status \<noteq> ''retiring'' then (d, internalError)
          else (case MarkRetired E kid t1 of
                  (t2, Inl e) \<Rightarrow> (d, internalError)
                | (t2, Inr _) \<Rightarrow>
                    (case Log E (req_CorrelationID req)
                            \<lparr>en_EventType = ''oidc.signing_key.retired'', en_ActorID = Some (u_ID actor),
                             en_ActorEmail = u_Email actor, en_TargetType = ''signing_key'',
                             en_TargetID = e_uuid_string E kid, en_ClientID = None,
                             en_IPAddress = clientIP E req, en_Outcome = ''success'',
                             en_Metadata = Some [(''reason'', MStr ''emergency'')]\<rparr> t2 of
                       (t3, Inl e) \<Rightarrow> (d, internalError)
                     | (t3, Inr _) \<Rightarrow>
                         (case commitTx E ''emergencyRetire'' t3 d of
                            (d', False) \<Rightarrow> (d', internalError)
                          | (d', True) \<Rightarrow> (d', NoContent))))))))"

section \<open>The life cycle as a state machine\<close>

definition freshActive :: "SigningKey list \<Rightarrow> SigningKey \<Rightarrow> bool" where
  "freshActive ks n =
     (sk_ID n \<notin> sk_ID ` set ks \<and> sk_Status n = ''active'' \<and> sk_RotatedAt n = None)"

definition hasActive :: "SigningKey list \<Rightarrow> bool" where
  "hasActive ks = list_ex (\<lambda>k. sk_Status k = ''active'') ks"

text \<open>The changes of the table: a first key, a rotation, a retirement.\<close>

inductive keys_change :: "SigningKey list \<Rightarrow> SigningKey list \<Rightarrow> bool" where
  first: "\<not> hasActive ks \<Longrightarrow> freshActive ks n \<Longrightarrow> keys_change ks (ks @ [n])"
| rotate: "cur \<in> set ks \<Longrightarrow> sk_Status cur = ''active'' \<Longrightarrow> freshActive ks n \<Longrightarrow>
    keys_change ks
      (map (\<lambda>k. if sk_ID k = sk_ID cur \<and> sk_Status k = ''active''
                then k\<lparr>sk_Status := ''retiring'', sk_RotatedAt := Some at\<rparr> else k) ks @ [n])"
| retire: "keys_change ks
      (map (\<lambda>k. if sk_ID k = kid \<and> sk_Status k = ''retiring'' then k\<lparr>sk_Status := ''retired''\<rparr> else k) ks)"

text \<open>The legal transitions of one key.\<close>

definition keyTrans :: "SigningKey \<Rightarrow> SigningKey \<Rightarrow> bool" where
  "keyTrans k k' =
     ((sk_Status k = ''active'' \<and> (\<exists>at. k' = k\<lparr>sk_Status := ''retiring'', sk_RotatedAt := Some at\<rparr>)) \<or>
      (sk_Status k = ''retiring'' \<and> k' = k\<lparr>sk_Status := ''retired''\<rparr>))"

definition keys_inv :: "SigningKey list \<Rightarrow> bool" where
  "keys_inv ks =
     (distinct (map sk_ID ks) \<and> length (filter (\<lambda>k. sk_Status k = ''active'') ks) \<le> 1 \<and>
      list_all (\<lambda>k. keyStatusOk (sk_Status k) \<and> (sk_Status k \<noteq> ''active'' \<longrightarrow> sk_RotatedAt k \<noteq> None)) ks)"

lemma keys_inv_iff:
  "keys_inv ks \<longleftrightarrow> distinct (map sk_ID ks) \<and>
     (\<forall>a\<in>set ks. \<forall>b\<in>set ks. sk_Status a = ''active'' \<longrightarrow> sk_Status b = ''active'' \<longrightarrow> a = b) \<and>
     (\<forall>k\<in>set ks. keyStatusOk (sk_Status k) \<and> (sk_Status k \<noteq> ''active'' \<longrightarrow> sk_RotatedAt k \<noteq> None))"
  (is "_ \<longleftrightarrow> _ \<and> ?U \<and> _")
proof (cases "distinct (map sk_ID ks)")
  case True
  then have "distinct (filter (\<lambda>k. sk_Status k = ''active'') ks)" by (simp add: distinct_map)
  then have "length (filter (\<lambda>k. sk_Status k = ''active'') ks) = card {k \<in> set ks. sk_Status k = ''active''}"
    using distinct_card [of "filter (\<lambda>k. sk_Status k = ''active'') ks"] by simp
  moreover have "card {k \<in> set ks. sk_Status k = ''active''} \<le> 1 \<longleftrightarrow> ?U"
    unfolding One_nat_def by (subst card_le_Suc0_iff_eq) auto
  ultimately have eq: "length (filter (\<lambda>k. sk_Status k = ''active'') ks) \<le> 1 \<longleftrightarrow> ?U" by simp
  show ?thesis unfolding keys_inv_def eq list_all_iff by (rule refl)
qed (simp add: keys_inv_def)

lemma map_ids: "(\<And>k. sk_ID (f k) = sk_ID k) \<Longrightarrow> map sk_ID (map f ks) = map sk_ID ks"
  by simp

lemma keys_change_inv:
  assumes "keys_change ks ks'" and "keys_inv ks"
  shows "keys_inv ks'"
  using assms
proof (induction rule: keys_change.induct)
  case (first ks n)
  then show ?case
    by (auto simp: keys_inv_iff freshActive_def hasActive_def list_ex_iff keyStatusOk_def image_iff)
next
  case (rotate cur ks n at)
  define f where "f k = (if sk_ID k = sk_ID cur \<and> sk_Status k = ''active''
                then k\<lparr>sk_Status := ''retiring'', sk_RotatedAt := Some at\<rparr> else k)"
    for k :: SigningKey
  have ids: "map sk_ID (map f ks) = map sk_ID ks" by (rule map_ids) (simp add: f_def)
  have noact: "sk_Status (f k) \<noteq> ''active''"
    and fine: "keyStatusOk (sk_Status (f k)) \<and> sk_RotatedAt (f k) \<noteq> None" if "k \<in> set ks" for k
    using rotate that by (auto simp: keys_inv_iff f_def keyStatusOk_def)
  have n: "sk_ID n \<notin> set (map sk_ID ks)" "sk_Status n = ''active''"
    using rotate by (auto simp: freshActive_def)
  have "distinct (map sk_ID (map f ks @ [n]))"
    using rotate.prems n(1) by (simp only: map_append ids) (simp add: keys_inv_iff)
  moreover have "\<forall>a\<in>set (map f ks @ [n]). \<forall>b\<in>set (map f ks @ [n]).
      sk_Status a = ''active'' \<longrightarrow> sk_Status b = ''active'' \<longrightarrow> a = b"
    using noact by auto
  moreover have "\<forall>k\<in>set (map f ks @ [n]).
      keyStatusOk (sk_Status k) \<and> (sk_Status k \<noteq> ''active'' \<longrightarrow> sk_RotatedAt k \<noteq> None)"
    using fine n(2) by (auto simp: keyStatusOk_def)
  ultimately show ?case unfolding keys_inv_iff f_def by blast
next
  case (retire ks kid)
  define f where "f k = (if sk_ID k = kid \<and> sk_Status k = ''retiring'' then k\<lparr>sk_Status := ''retired''\<rparr> else k)"
    for k :: SigningKey
  have ids: "map sk_ID (map f ks) = map sk_ID ks" by (rule map_ids) (simp add: f_def)
  have act: "f k = k" if "sk_Status (f k) = ''active''" for k
    using that by (auto simp: f_def split: if_splits)
  have fine: "keyStatusOk (sk_Status (f k)) \<and> (sk_Status (f k) \<noteq> ''active'' \<longrightarrow> sk_RotatedAt (f k) \<noteq> None)"
    if "k \<in> set ks" for k
    using retire that by (auto simp: keys_inv_iff f_def keyStatusOk_def)
  have "a = b" if "a \<in> set (map f ks)" "b \<in> set (map f ks)" "sk_Status a = ''active''" "sk_Status b = ''active''" for a b
  proof -
    have "x \<in> set ks" if "x \<in> set (map f ks)" "sk_Status x = ''active''" for x
      using that act by fastforce
    with that have "a \<in> set ks" "b \<in> set ks" by blast+
    with retire that(3,4) show ?thesis by (simp add: keys_inv_iff)
  qed
  moreover have "\<forall>k\<in>set (map f ks).
      keyStatusOk (sk_Status k) \<and> (sk_Status k \<noteq> ''active'' \<longrightarrow> sk_RotatedAt k \<noteq> None)"
    using fine by auto
  moreover have "distinct (map sk_ID (map f ks))" using retire ids by (simp only: keys_inv_iff)
  ultimately show ?case unfolding keys_inv_iff f_def by blast
qed

lemma keys_change_active:
  assumes "keys_change ks ks'" and "hasActive ks"
  shows "hasActive ks'"
  using assms by (induction rule: keys_change.induct) (auto simp: hasActive_def freshActive_def list_ex_iff)

lemma keys_change_trans:
  assumes "keys_change ks ks'" and "k \<in> set ks"
  shows "\<exists>k'\<in>set ks'. keyTrans\<^sup>*\<^sup>* k k'"
  using assms
proof (induction rule: keys_change.induct)
  case (rotate cur ks n at)
  let ?f = "\<lambda>k. if sk_ID k = sk_ID cur \<and> sk_Status k = ''active''
                then k\<lparr>sk_Status := ''retiring'', sk_RotatedAt := Some at\<rparr> else k"
  have "keyTrans\<^sup>*\<^sup>* k (?f k)" by (auto simp: keyTrans_def intro!: r_into_rtranclp)
  moreover have "?f k \<in> set (map ?f ks @ [n])" using rotate.prems by (simp only: set_append set_map) blast
  ultimately show ?case by blast
next
  case (retire ks kid)
  let ?f = "\<lambda>k. if sk_ID k = kid \<and> sk_Status k = ''retiring'' then k\<lparr>sk_Status := ''retired''\<rparr> else k"
  have "keyTrans\<^sup>*\<^sup>* k (?f k)" by (auto simp: keyTrans_def intro!: r_into_rtranclp)
  moreover have "?f k \<in> set (map ?f ks)" using retire.prems by (simp only: set_map) blast
  ultimately show ?case by blast
qed auto

section \<open>The operations change the table only in these ways\<close>

abbreviation changes :: "SigningKey list \<Rightarrow> SigningKey list \<Rightarrow> bool" where
  "changes \<equiv> keys_change\<^sup>*\<^sup>*"

lemma GetActive_Inr:
  "GetActive E t = (t', Inr k) \<Longrightarrow>
     t' = t \<and> \<not> tx_aborted t \<and> k \<in> set (db_signing_keys (tx_db t)) \<and> sk_Status k = ''active''"
  using find_Some_D [of "\<lambda>k. sk_Status k = ''active''" "db_signing_keys (tx_db t)" k]
  by (auto simp: GetActive_def needOne_Inr query_Inr)

lemma GetActive_NoRows:
  "snd (GetActive E t) = Inl ErrNoRows \<Longrightarrow> \<not> hasActive (db_signing_keys (tx_db t))"
  by (auto simp: GetActive_def needOne_def query_def stmt_def hasActive_def list_ex_iff find_None_iff
      split: if_splits option.splits)

lemma KeyInsert_Inr:
  assumes "KeyInsert E pub priv ''active'' t = (t', Inr kid)"
  shows "\<exists>n. freshActive (db_signing_keys (tx_db t)) n \<and> sk_ID n = e_new_uuid E ''signing_keys.id'' \<and>
    db_signing_keys (tx_db t') = db_signing_keys (tx_db t) @ [n] \<and> \<not> tx_aborted t'"
  using assms
  by (auto simp: KeyInsert_def stmt_Inr Let_def freshActive_def list_ex_iff split: if_splits)

lemma Bootstrap_changes:
  assumes "Bootstrap E kek d = (d', b)"
  shows "changes (db_signing_keys d) (db_signing_keys d') \<and> (b \<longrightarrow> hasActive (db_signing_keys d'))"
proof (cases "d' = d \<and> (b \<longrightarrow> (\<exists>k. snd (GetActive E (pool d)) = Inr k))")
  case True
  then show ?thesis
    using GetActive_Inr [of E "pool d" "fst (GetActive E (pool d))"]
    by (cases "GetActive E (pool d)") (auto simp: hasActive_def list_ex_iff)
next
  case False
  with assms obtain pub w t1 kid t2 e where
    none: "snd (GetActive E (pool d)) = Inl ErrNoRows"
    and ins: "KeyInsert E pub w ''active'' (pool d) = (t1, Inr kid)"
    and log: "Log E [] e t1 = (t2, Inr ())" and c: "commitTx E ''bootstrap'' t2 d = (d', b)"
    by (auto simp: Bootstrap_def beginTx_Some split: sum.splits if_splits option.splits prod.splits)
  obtain n where n: "freshActive (db_signing_keys d) n" "db_signing_keys (tx_db t1) = db_signing_keys d @ [n]"
    using KeyInsert_Inr [OF ins] by auto
  with Log_tables(4) [OF log] have "db_signing_keys (tx_db t2) = db_signing_keys d @ [n]" by simp
  with c have "db_signing_keys d' = db_signing_keys d @ [n] \<or> (d' = d \<and> \<not> b)"
    by (auto simp: commitTx_def split: if_splits)
  moreover have "keys_change (db_signing_keys d) (db_signing_keys d @ [n])"
    using keys_change.first [OF _ n(1)] GetActive_NoRows [OF none] by simp
  ultimately show ?thesis
    using n(1) by (auto simp: hasActive_def freshActive_def)
qed

lemma MarkRetired_Inr:
  "MarkRetired E kid t = (t', Inr u) \<Longrightarrow>
     keys_change (db_signing_keys (tx_db t)) (db_signing_keys (tx_db t'))"
  by (auto simp: MarkRetired_def stmt_Inr updKeys_def intro: keys_change.retire)

lemma sweepKeys_changes:
  "sweepKeys E cid ids d = (d', b) \<Longrightarrow> changes (db_signing_keys d) (db_signing_keys d')"
proof (induction ids arbitrary: d)
  case (Cons kid ids)
  show ?case
  proof (cases "d' = d")
    case False
    with Cons.prems obtain t1 t2 d1 e where m: "MarkRetired E kid (pool d) = (t1, Inr ())"
      and log: "Log E cid e t1 = (t2, Inr ())" and c: "commitTx E ''retireSweep'' t2 d = (d1, True)"
      and rest: "sweepKeys E cid ids d1 = (d', b)"
      by (auto simp: beginTx_Some commitTx_def split: option.splits prod.splits sum.splits bool.splits if_splits)
    have "keys_change (db_signing_keys d) (db_signing_keys d1)"
      using MarkRetired_Inr [OF m] Log_tables(4) [OF log] c by (simp add: commitTx_True)
    then show ?thesis using Cons.IH [OF rest] by (rule converse_rtranclp_into_rtranclp)
  qed simp
qed simp

lemma RetireSweep_changes:
  "RetireSweep E cid cutoff d = (d', b) \<Longrightarrow> changes (db_signing_keys d) (db_signing_keys d')"
  by (auto simp: RetireSweep_def split: sum.splits dest: sweepKeys_changes)

lemma rotateTx_effect:
  assumes "rotateTx E req actor pub w cid t d = (d', True)"
  shows "\<exists>n. freshActive (db_signing_keys (tx_db t)) n \<and> sk_ID n = e_new_uuid E ''signing_keys.id'' \<and>
    db_signing_keys d' = map (\<lambda>k. if sk_ID k = cid \<and> sk_Status k = ''active''
      then k\<lparr>sk_Status := ''retiring'', sk_RotatedAt := Some (e_pg_now E)\<rparr> else k) (db_signing_keys (tx_db t)) @ [n]"
proof -
  from assms obtain t1 t2 t3 newID e where m: "MarkRetiring E cid t = (t1, Inr ())"
    and ins: "KeyInsert E pub w ''active'' t1 = (t2, Inr newID)"
    and log: "Log E (req_CorrelationID req) e t2 = (t3, Inr ())"
    and c: "commitTx E ''rotate'' t3 d = (d', True)"
    by (auto simp: rotateTx_def split: prod.splits sum.splits)
  let ?f = "\<lambda>k. if sk_ID k = cid \<and> sk_Status k = ''active''
                then k\<lparr>sk_Status := ''retiring'', sk_RotatedAt := Some (e_pg_now E)\<rparr> else k"
  have k1: "db_signing_keys (tx_db t1) = map ?f (db_signing_keys (tx_db t))"
    using m by (auto simp: MarkRetiring_def stmt_Inr updKeys_def)
  obtain n where n: "freshActive (db_signing_keys (tx_db t1)) n"
      "db_signing_keys (tx_db t2) = db_signing_keys (tx_db t1) @ [n]"
      "sk_ID n = e_new_uuid E ''signing_keys.id''"
    using KeyInsert_Inr [OF ins] by blast
  have "map sk_ID (map ?f ks) = map sk_ID ks" for ks by (rule map_ids) simp
  then have "sk_ID ` set (map ?f ks) = sk_ID ` set ks" for ks by (metis list.set_map)
  then have "freshActive (db_signing_keys (tx_db t)) n"
    using n(1) unfolding freshActive_def k1 by metis
  with n(2,3) k1 Log_tables(4) [OF log] c show ?thesis by (auto simp: commitTx_True)
qed

lemma rotateTx_changes:
  assumes "rotateTx E req actor pub w (sk_ID cur) t d = (d', b)"
    and "cur \<in> set (db_signing_keys (tx_db t))" "sk_Status cur = ''active''"
  shows "if b then keys_change (db_signing_keys (tx_db t)) (db_signing_keys d') else d' = d"
proof (cases b)
  case True
  with assms(1) have "rotateTx E req actor pub w (sk_ID cur) t d = (d', True)" by simp
  from rotateTx_effect [OF this] obtain n where "freshActive (db_signing_keys (tx_db t)) n"
    "db_signing_keys d' = map (\<lambda>k. if sk_ID k = sk_ID cur \<and> sk_Status k = ''active''
      then k\<lparr>sk_Status := ''retiring'', sk_RotatedAt := Some (e_pg_now E)\<rparr> else k) (db_signing_keys (tx_db t)) @ [n]"
    by blast
  with True keys_change.rotate [OF assms(2,3), of n "e_pg_now E"] show ?thesis by simp
next
  case False
  with assms(1) show ?thesis
    by (auto simp: rotateTx_def commitTx_def split: prod.splits sum.splits if_splits)
qed

lemma Rotate_changes:
  assumes "Rotate E kek req cu d = (d', r)"
  shows "changes (db_signing_keys d) (db_signing_keys d')"
proof (cases "d' = d")
  case False
  with assms obtain actor pub w cur t1 d1 b where ga: "GetActive E (pool d) = (t1, Inr cur)"
    and rt: "rotateTx E req actor pub w (sk_ID cur) t1 d = (d1, b)"
    and d': "if b then d' = fst (RetireSweep E (req_CorrelationID req) (rotateCutoff E) d1) else d' = d1"
    by (auto simp: Rotate_def beginTx_Some split: option.splits prod.splits sum.splits bool.splits if_splits)
  have t1: "t1 = pool d" "cur \<in> set (db_signing_keys d)" "sk_Status cur = ''active''"
    using GetActive_Inr [OF ga] by auto
  with rotateTx_changes [OF rt] d' False have "b" "keys_change (db_signing_keys d) (db_signing_keys d1)"
    by (auto split: if_splits)
  moreover have "changes (db_signing_keys d1) (db_signing_keys d')"
    using d' \<open>b\<close> RetireSweep_changes [OF prod.collapse [symmetric]] by simp
  ultimately show ?thesis by (simp add: converse_rtranclp_into_rtranclp)
qed simp

lemma EmergencyRetire_changes:
  assumes "EmergencyRetire E req cu kidStr d = (d', r)"
  shows "changes (db_signing_keys d) (db_signing_keys d')"
proof (cases "d' = d")
  case False
  with assms obtain kid t2 t3 e where m: "MarkRetired E kid (pool d) = (t2, Inr ())"
    and log: "Log E (req_CorrelationID req) e t2 = (t3, Inr ())"
    and c: "commitTx E ''emergencyRetire'' t3 d = (d', True)"
    by (auto simp: EmergencyRetire_def beginTx_Some query_Inr commitTx_def
        split: option.splits prod.splits sum.splits bool.splits if_splits)
  from MarkRetired_Inr [OF m] Log_tables(4) [OF log] c show ?thesis by (auto simp: commitTx_True)
qed simp

text \<open>One call of an operation that changes the table, in any of the environments \<open>Es\<close>.\<close>

inductive key_step :: "'k env set \<Rightarrow> db \<Rightarrow> db \<Rightarrow> bool" for Es where
  bootstrap: "E \<in> Es \<Longrightarrow> key_step Es d (fst (Bootstrap E kek d))"
| rotate: "E \<in> Es \<Longrightarrow> key_step Es d (fst (Rotate E kek req cu d))"
| emergency: "E \<in> Es \<Longrightarrow> key_step Es d (fst (EmergencyRetire E req cu kidStr d))"
| sweep: "E \<in> Es \<Longrightarrow> key_step Es d (fst (RetireSweep E cid cutoff d))"

lemma key_step_changes: "key_step Es d d' \<Longrightarrow> changes (db_signing_keys d) (db_signing_keys d')"
  by (induction rule: key_step.induct)
     (metis prod.collapse Bootstrap_changes Rotate_changes EmergencyRetire_changes RetireSweep_changes)+

lemma changes_inv:
  assumes "changes ks ks'"
  shows "(keys_inv ks \<longrightarrow> keys_inv ks') \<and> (hasActive ks \<longrightarrow> hasActive ks') \<and>
    (\<forall>k\<in>set ks. \<exists>k'\<in>set ks'. keyTrans\<^sup>*\<^sup>* k k')"
  using assms
proof (induction rule: rtranclp_induct)
  case (step y z)
  then show ?case
    using keys_change_inv keys_change_active keys_change_trans [OF step(2)]
    by (metis (no_types, lifting) rtranclp_trans)
qed auto

text \<open>C33. Signing keys: however bootstrap, rotations, emergency retirements and sweeps follow one
  another, one after the other, at most one key is active, ids stay unique, no key is lost, every
  key only moves from active over retiring to retired, and once there is an active key there is
  always one.\<close>

theorem signing_key_lifecycle:
  assumes "(key_step Es)\<^sup>*\<^sup>* d d'" and "keys_inv (db_signing_keys d)"
  shows "keys_inv (db_signing_keys d') \<and>
    (hasActive (db_signing_keys d) \<longrightarrow> hasActive (db_signing_keys d')) \<and>
    (\<forall>k\<in>set (db_signing_keys d). \<exists>k'\<in>set (db_signing_keys d'). keyTrans\<^sup>*\<^sup>* k k')"
proof -
  from assms(1) have "changes (db_signing_keys d) (db_signing_keys d')"
    by (induction rule: rtranclp_induct) (auto dest: key_step_changes)
  from changes_inv [OF this] assms(2) show ?thesis by blast
qed

definition sampleKEK :: bytes where "sampleKEK = replicate 32 (CHR ''k'')"

lemma sampleWrap: "\<exists>w. WrapPrivateKey sampleEnv pem sampleKEK = Some w"
  by (simp add: WrapPrivateKey_def sampleKEK_def Encrypt_def sealAESGCM_def newGCM_def sizes)

lemma sampleBootstrap:
  "\<exists>d k. Bootstrap sampleEnv sampleKEK emptyDB = (d, True) \<and> db_signing_keys d = [k]"
proof -
  obtain w where "WrapPrivateKey sampleEnv ''PRIV'' sampleKEK = Some w" using sampleWrap by blast
  moreover have "e_rsa_generate sampleEnv site = Some (''PUB'', ''PRIV'')" for site
    by (simp add: sampleEnv_def)
  ultimately show ?thesis
    by (simp add: Bootstrap_def GetActive_def needOne_def query_def stmt_def emptyDB_def GenerateKeyPair_def
        beginTx_def KeyInsert_def keyStatusOk_def Let_def Log_def keyEntry_def commitTx_def)
qed

theorem signing_key_lifecycle_witness:
  "\<exists>d. (key_step {sampleEnv})\<^sup>*\<^sup>* emptyDB d \<and> length (db_signing_keys d) = 1 \<and> keys_inv (db_signing_keys d)"
proof -
  obtain d k where b: "Bootstrap sampleEnv sampleKEK emptyDB = (d, True)" "db_signing_keys d = [k]"
    using sampleBootstrap by blast
  have s: "(key_step {sampleEnv})\<^sup>*\<^sup>* emptyDB d"
    using key_step.bootstrap [of sampleEnv "{sampleEnv}" emptyDB sampleKEK] b(1) by simp
  have "keys_inv (db_signing_keys emptyDB)" by (simp add: keys_inv_def emptyDB_def)
  from signing_key_lifecycle [OF s this] s b(2) show ?thesis by auto
qed

section \<open>Published keys outlive the tokens they signed\<close>

lemma sweepKeys_keeps:
  "sweepKeys E cid ids d = (d', b) \<Longrightarrow> k \<in> set (db_signing_keys d) \<Longrightarrow> sk_ID k \<notin> set ids \<Longrightarrow>
   k \<in> set (db_signing_keys d')"
proof (induction ids arbitrary: d)
  case (Cons kid ids)
  show ?case
  proof (cases "d' = d")
    case False
    with Cons.prems obtain t1 t2 d1 e where m: "MarkRetired E kid (pool d) = (t1, Inr ())"
      and log: "Log E cid e t1 = (t2, Inr ())" and c: "commitTx E ''retireSweep'' t2 d = (d1, True)"
      and rest: "sweepKeys E cid ids d1 = (d', b)"
      by (auto simp: beginTx_Some commitTx_def split: option.splits prod.splits sum.splits bool.splits if_splits)
    have "db_signing_keys d1 = map (\<lambda>k. if sk_ID k = kid \<and> sk_Status k = ''retiring''
        then k\<lparr>sk_Status := ''retired''\<rparr> else k) (db_signing_keys d)"
      using m Log_tables(4) [OF log] c by (auto simp: commitTx_True MarkRetired_def stmt_Inr updKeys_def)
    with Cons.prems(2,3) have "k \<in> set (db_signing_keys d1)" by force
    with Cons.IH [OF rest] Cons.prems(3) show ?thesis by simp
  qed (use Cons.prems in simp)
qed simp

lemma publishable_iff:
  "k \<in> set (publishable ks) \<longleftrightarrow> k \<in> set ks \<and> (sk_Status k = ''active'' \<or> sk_Status k = ''retiring'')"
  by (auto simp: publishable_def)

text \<open>C34. The sweep that follows a rotation never stops publishing a key while a token it signed can
  still be valid: a published key stays published if a token with it, issued before the key was
  rotated out and living at most fifteen minutes, a day and thirty seconds, has not expired.\<close>

theorem sweep_keeps_needed_keys:
  assumes inv: "keys_inv (db_signing_keys d)" and sweep: "RetireSweep E cid (rotateCutoff E) d = (d', b)"
    and k: "k \<in> set (publishable (db_signing_keys d))"
    and signed: "\<And>r. sk_RotatedAt k = Some r \<Longrightarrow> iat \<le> r"
    and live: "lifetime \<le> (15 * 60 + 24 * 3600 + 30) * second" "e_go_now E \<le> iat + lifetime"
  shows "k \<in> set (publishable (db_signing_keys d'))"
proof -
  have kd: "k \<in> set (db_signing_keys d)" using k by (simp add: publishable_iff)
  have "k \<in> set (db_signing_keys d')"
  proof (cases "snd (ListRetirable E (rotateCutoff E) (pool d))")
    case (Inl e)
    with sweep kd show ?thesis by (simp add: RetireSweep_def)
  next
    case (Inr ids)
    then have ids: "ids = map sk_ID (filter (\<lambda>k. sk_Status k = ''retiring'' \<and>
        (case sk_RotatedAt k of None \<Rightarrow> False | Some r \<Rightarrow> r < rotateCutoff E)) (db_signing_keys d))"
      by (auto simp: ListRetirable_def query_def stmt_def split: if_splits)
    have "sk_ID k \<notin> set ids"
    proof
      assume "sk_ID k \<in> set ids"
      then obtain k2 r where k2: "k2 \<in> set (db_signing_keys d)" "sk_ID k2 = sk_ID k"
          "sk_RotatedAt k2 = Some r" "r < rotateCutoff E"
        by (auto simp: ids split: option.splits)
      with inv kd have "k2 = k" by (auto simp: keys_inv_def distinct_map inj_on_def)
      with k2 signed live show False by (auto simp: rotateCutoff_def)
    qed
    moreover have "sweepKeys E cid ids d = (d', b)" using sweep Inr by (simp add: RetireSweep_def)
    ultimately show ?thesis using sweepKeys_keeps kd by blast
  qed
  with k show ?thesis by (simp add: publishable_iff)
qed

definition sampleKey :: "uuid \<Rightarrow> string \<Rightarrow> int option \<Rightarrow> SigningKey" where
  "sampleKey kid st rotated = \<lparr>sk_ID = kid, sk_Algorithm = ''RS256'', sk_PublicKeyPEM = ''PUB'',
     sk_PrivateKeyEncrypted = ''W'', sk_Status = st, sk_CreatedAt = 0, sk_RotatedAt = rotated\<rparr>"

theorem sweep_keeps_needed_keys_witness:
  "sampleKey 3 ''retiring'' (Some (900 * second)) \<in>
     set (publishable (db_signing_keys (fst (RetireSweep sampleEnv [] (rotateCutoff sampleEnv)
       (emptyDB\<lparr>db_signing_keys := [sampleKey 3 ''retiring'' (Some (900 * second))]\<rparr>)))))"
proof -
  let ?k = "sampleKey 3 ''retiring'' (Some (900 * second))"
  obtain d' b where s: "RetireSweep sampleEnv [] (rotateCutoff sampleEnv) (emptyDB\<lparr>db_signing_keys := [?k]\<rparr>) = (d', b)"
    by (cases rule: prod.exhaust)
  have "?k \<in> set (publishable (db_signing_keys d'))"
    by (rule sweep_keeps_needed_keys [OF _ s, of _ "800 * second" "900 * second"])
       (simp_all add: keys_inv_def publishable_iff sampleKey_def keyStatusOk_def second_def)
  with s show ?thesis by simp
qed

section \<open>Overlapping rotations\<close>

text \<open>Two rotations that overlap leave two active keys: when both have read the same active key
  before the first commits, the second finds no active row to demote, does not notice, and inserts
  its own key (nothing locks the row that \<open>GetActive\<close> reads, and the table has no uniqueness
  constraint on the active status).\<close>

lemma rotate_race_two_active:
  assumes cur: "cur \<in> set (db_signing_keys d)" "sk_Status cur = ''active''"
    and A: "rotateTx E1 req1 actor1 pub1 w1 (sk_ID cur) (pool d) d = (d1, True)"
    and B: "rotateTx E2 req2 actor2 pub2 w2 (sk_ID cur) (pool d1) d1 = (d2, True)"
    and inv: "keys_inv (db_signing_keys d)"
  shows "\<not> keys_inv (db_signing_keys d2)"
proof -
  obtain n1 where n1: "freshActive (db_signing_keys d) n1" "n1 \<in> set (db_signing_keys d1)"
    using rotateTx_effect [OF A] by auto
  have ne: "sk_ID n1 \<noteq> sk_ID cur" using n1(1) cur(1) by (auto simp: freshActive_def)
  obtain n2 where n2: "freshActive (db_signing_keys d1) n2" and
    d2: "db_signing_keys d2 = map (\<lambda>k. if sk_ID k = sk_ID cur \<and> sk_Status k = ''active''
      then k\<lparr>sk_Status := ''retiring'', sk_RotatedAt := Some (e_pg_now E2)\<rparr> else k) (db_signing_keys d1) @ [n2]"
    using rotateTx_effect [OF B] by auto
  have "n1 \<in> set (db_signing_keys d2)" using n1(2) ne unfolding d2 by force
  moreover have "n2 \<in> set (db_signing_keys d2)" by (simp add: d2)
  moreover have "n1 \<noteq> n2" using n1(2) n2 by (auto simp: freshActive_def)
  moreover have "sk_Status n1 = ''active''" "sk_Status n2 = ''active''"
    using n1(1) n2 by (simp_all add: freshActive_def)
  ultimately show ?thesis by (auto simp: keys_inv_iff)
qed

definition sampleRequest :: request where
  "sampleRequest = \<lparr>req_XFF = [], req_RemoteAddr = ''10.0.0.1'', req_CorrelationID = []\<rparr>"

text \<open>Without faults, and with a fresh id, the transaction commits.\<close>

lemma rotateTx_ok:
  assumes "\<not> tx_aborted t" and "\<And>c. \<not> e_pg_fails E c" and "e_inet_ok E (clientIP E req)"
    and fresh: "\<forall>k\<in>set (db_signing_keys (tx_db t)). sk_ID k \<noteq> e_new_uuid E ''signing_keys.id''"
  shows "\<exists>d'. rotateTx E req actor pub w cid t d = (d', True)"
proof -
  let ?f = "\<lambda>k. if sk_ID k = cid \<and> sk_Status k = ''active''
                then k\<lparr>sk_Status := ''retiring'', sk_RotatedAt := Some (e_pg_now E)\<rparr> else k"
  have "\<not> list_ex (\<lambda>k. sk_ID k = e_new_uuid E ''signing_keys.id'') (map ?f (db_signing_keys (tx_db t)))"
    using fresh by (auto simp: list_ex_iff)
  with assms(1-3) show ?thesis
    by (simp add: rotateTx_def MarkRetiring_def stmt_def updKeys_def KeyInsert_def keyStatusOk_def Let_def
        Log_def commitTx_def)
qed

end
