(* ===== verification/Oidc.thy ===== *)
theory Oidc
  imports RefreshStore SigningKeys
begin

text \<open>
  The protocol parts of package \<^verbatim>\<open>internal/oidc\<close> that need no server: PKCE, scopes and claims,
  signing and checking tokens, the \<open>return_to\<close> guard, authorize errors, correlation ids and the
  discovery document, and the two discovery endpoints of \<^verbatim>\<open>authserver/discovery.go\<close>.
\<close>

section \<open>PKCE\<close>

definition VerifyPKCE :: "'k env \<Rightarrow> string \<Rightarrow> string \<Rightarrow> bool" where
  "VerifyPKCE E challenge verifier =
     (if challenge = [] \<or> verifier = [] then False
      else base64RawURL (e_sha256 E verifier) = challenge)"

section \<open>Scopes and claims\<close>

definition scopesString :: "string list \<Rightarrow> string" where
  "scopesString s = joinWith '' '' s"

definition scopesHas :: "string list \<Rightarrow> string \<Rightarrow> bool" where
  "scopesHas s want = list_ex (\<lambda>v. v = want) s"

definition BuildAccessClaims
  :: "'k env \<Rightarrow> User \<Rightarrow> string \<Rightarrow> string \<Rightarrow> string \<Rightarrow> string list \<Rightarrow> int \<Rightarrow> int \<Rightarrow> AccessTokenClaims" where
  "BuildAccessClaims E user clientID issuer jti scopes now ttl =
     \<lparr>at_Issuer = issuer, at_Subject = e_uuid_string E (u_ID user), at_Audience = clientID,
      at_IssuedAt = Unix now, at_NotBefore = Unix now, at_Expires = Unix (now + ttl),
      at_JTI = jti, at_Scope = scopesString scopes\<rparr>"

definition BuildIDClaims
  :: "'k env \<Rightarrow> User \<Rightarrow> string \<Rightarrow> string \<Rightarrow> string \<Rightarrow> string \<Rightarrow> string list \<Rightarrow> int \<Rightarrow> int \<Rightarrow> int \<Rightarrow> IDTokenClaims" where
  "BuildIDClaims E user clientID issuer jti nonce scopes authTime now ttl =
     (let profile = scopesHas scopes ''profile''; email = scopesHas scopes ''email''
      in \<lparr>id_Issuer = issuer, id_Subject = e_uuid_string E (u_ID user), id_Audience = clientID,
          id_IssuedAt = Unix now, id_NotBefore = Unix now, id_Expires = Unix (now + ttl),
          id_JTI = jti, id_AuthTime = Unix authTime, id_Nonce = nonce,
          id_PreferredUsername = (if profile then u_Email user else []),
          id_UpdatedAt = (if profile then Unix (u_UpdatedAt user) else 0),
          id_Email = (if email then u_Email user else []),
          id_EmailVerified = (if email then Some True else None)\<rparr>)"

record UserInfoClaims =
  ui_Sub :: string
  ui_PreferredUsername :: string
  ui_UpdatedAt :: int
  ui_Email :: string
  ui_EmailVerified :: "bool option"

definition BuildUserInfoClaims :: "'k env \<Rightarrow> User \<Rightarrow> string list \<Rightarrow> UserInfoClaims" where
  "BuildUserInfoClaims E user scopes =
     (let profile = scopesHas scopes ''profile''; email = scopesHas scopes ''email''
      in \<lparr>ui_Sub = e_uuid_string E (u_ID user),
          ui_PreferredUsername = (if profile then u_Email user else []),
          ui_UpdatedAt = (if profile then Unix (u_UpdatedAt user) else 0),
          ui_Email = (if email then u_Email user else []),
          ui_EmailVerified = (if email then Some True else None)\<rparr>)"

section \<open>Tokens\<close>

text \<open>\<open>e_jwt_sign\<close> is \<open>ParsePrivatePEM\<close> followed by the library's RS256 signature.\<close>

definition signRS256 :: "'k env \<Rightarrow> claims \<Rightarrow> string \<Rightarrow> string \<Rightarrow> bytes \<Rightarrow> string option" where
  "signRS256 E c kid typ privatePEM =
     e_jwt_sign E \<lparr>jwt_alg = ''RS256'', jwt_typ = typ, jwt_kid = kid, jwt_claims = c\<rparr> privatePEM"

definition SignAccessToken :: "'k env \<Rightarrow> AccessTokenClaims \<Rightarrow> string \<Rightarrow> bytes \<Rightarrow> string option" where
  "SignAccessToken E c kid privatePEM = signRS256 E (AccessClaims c) kid ''at+jwt'' privatePEM"

definition SignIDToken :: "'k env \<Rightarrow> IDTokenClaims \<Rightarrow> string \<Rightarrow> bytes \<Rightarrow> string option" where
  "SignIDToken E c kid privatePEM = signRS256 E (IDClaims c) kid ''JWT'' privatePEM"

text \<open>The key function of \<open>jwt.Parse\<close> runs before the signature is checked, so every refusal of
  it is an error of the parse; claims are not validated here.\<close>

definition parseAndVerify
  :: "'k env \<Rightarrow> string \<Rightarrow> (string \<Rightarrow> bytes option) \<Rightarrow> string \<Rightarrow> claims option" where
  "parseAndVerify E raw lookup wantTyp =
     (case e_jwt_decode E raw of
        None \<Rightarrow> None
      | Some t \<Rightarrow>
          if jwt_alg t \<noteq> ''RS256'' then None
          else if jwt_typ t \<noteq> wantTyp then None
          else if jwt_kid t = [] then None
          else (case lookup (jwt_kid t) of
                  None \<Rightarrow> None
                | Some pubPEM \<Rightarrow> if e_jwt_verify E raw pubPEM then Some (jwt_claims t) else None))"

text \<open>\<open>mapToStruct\<close>: members the struct has not are dropped, missing ones stay empty.\<close>

fun toAccessClaims :: "claims \<Rightarrow> AccessTokenClaims" where
  "toAccessClaims (AccessClaims c) = c"
| "toAccessClaims (IDClaims c) =
     \<lparr>at_Issuer = id_Issuer c, at_Subject = id_Subject c, at_Audience = id_Audience c,
      at_IssuedAt = id_IssuedAt c, at_NotBefore = id_NotBefore c, at_Expires = id_Expires c,
      at_JTI = id_JTI c, at_Scope = []\<rparr>"

definition ParseAndVerifyAccessToken
  :: "'k env \<Rightarrow> string \<Rightarrow> (string \<Rightarrow> bytes option) \<Rightarrow> AccessTokenClaims option" where
  "ParseAndVerifyAccessToken E raw lookup =
     map_option toAccessClaims (parseAndVerify E raw lookup ''at+jwt'')"

fun toIDClaims :: "claims \<Rightarrow> IDTokenClaims" where
  "toIDClaims (IDClaims c) = c"
| "toIDClaims (AccessClaims c) =
     \<lparr>id_Issuer = at_Issuer c, id_Subject = at_Subject c, id_Audience = at_Audience c,
      id_IssuedAt = at_IssuedAt c, id_NotBefore = at_NotBefore c, id_Expires = at_Expires c,
      id_JTI = at_JTI c, id_AuthTime = 0, id_Nonce = [], id_PreferredUsername = [],
      id_UpdatedAt = 0, id_Email = [], id_EmailVerified = None\<rparr>"

definition ParseAndVerifyIDToken
  :: "'k env \<Rightarrow> string \<Rightarrow> (string \<Rightarrow> bytes option) \<Rightarrow> IDTokenClaims option" where
  "ParseAndVerifyIDToken E raw lookup = map_option toIDClaims (parseAndVerify E raw lookup ''JWT'')"

section \<open>The return\_to guard\<close>

definition SanitizeReturnTo :: "'k env \<Rightarrow> string \<Rightarrow> string \<Rightarrow> string option" where
  "SanitizeReturnTo E raw publicURL =
     (if raw = [] then None
      else case e_url_parse E raw of
        None \<Rightarrow> None
      | Some u \<Rightarrow>
          (case e_url_parse E publicURL of
             None \<Rightarrow> None
           | Some pub \<Rightarrow>
               if url_Scheme u \<noteq> [] \<and> url_Scheme u \<noteq> url_Scheme pub then None
               else if url_Host u \<noteq> [] \<and> url_Host u \<noteq> url_Host pub then None
               else if url_Path u \<noteq> ''/authorize'' then None
               else Some (url_Path u @ (if url_RawQuery u \<noteq> [] then ''?'' @ url_RawQuery u else []))))"

section \<open>Errors and correlation ids\<close>

record AuthorizeError =
  ae_Code :: string
  ae_Description :: string
  ae_RenderLocally :: bool

definition ErrInvalidClient :: "string \<Rightarrow> AuthorizeError" where
  "ErrInvalidClient desc = \<lparr>ae_Code = ''invalid_client'', ae_Description = desc, ae_RenderLocally = True\<rparr>"
definition ErrInvalidRedirectURI :: "string \<Rightarrow> AuthorizeError" where
  "ErrInvalidRedirectURI desc = \<lparr>ae_Code = ''invalid_redirect_uri'', ae_Description = desc, ae_RenderLocally = True\<rparr>"
definition ErrInvalidRequest :: "string \<Rightarrow> AuthorizeError" where
  "ErrInvalidRequest desc = \<lparr>ae_Code = ''invalid_request'', ae_Description = desc, ae_RenderLocally = False\<rparr>"
definition ErrInvalidScope :: "string \<Rightarrow> AuthorizeError" where
  "ErrInvalidScope desc = \<lparr>ae_Code = ''invalid_scope'', ae_Description = desc, ae_RenderLocally = False\<rparr>"
definition ErrUnsupportedResponseType :: "string \<Rightarrow> AuthorizeError" where
  "ErrUnsupportedResponseType desc =
     \<lparr>ae_Code = ''unsupported_response_type'', ae_Description = desc, ae_RenderLocally = False\<rparr>"
definition ErrLoginRequired :: AuthorizeError where
  "ErrLoginRequired = \<lparr>ae_Code = ''login_required'',
     ae_Description = ''End-User authentication is required.'', ae_RenderLocally = False\<rparr>"
definition ErrServerError :: "string \<Rightarrow> AuthorizeError" where
  "ErrServerError desc = \<lparr>ae_Code = ''server_error'', ae_Description = desc, ae_RenderLocally = True\<rparr>"

definition NewCorrelationID :: "'k env \<Rightarrow> string option" where
  "NewCorrelationID E = map_option (\<lambda>b. ''err_'' @ hexEncode b) (e_rand E ''correlation'' 0 16)"

section \<open>Discovery\<close>

record DiscoveryMetadata =
  md_Issuer :: string
  md_AuthorizationEndpoint :: string
  md_TokenEndpoint :: string
  md_UserInfoEndpoint :: string
  md_JWKSURI :: string
  md_ResponseTypesSupported :: "string list"
  md_GrantTypesSupported :: "string list"
  md_SubjectTypesSupported :: "string list"
  md_IDTokenSigningAlgValuesSupported :: "string list"
  md_ScopesSupported :: "string list"
  md_TokenEndpointAuthMethodsSupported :: "string list"
  md_ClaimsSupported :: "string list"
  md_CodeChallengeMethodsSupported :: "string list"

definition BuildDiscoveryMetadata :: "string \<Rightarrow> DiscoveryMetadata" where
  "BuildDiscoveryMetadata issuer =
     (let iss = trimRight issuer ''/''
      in \<lparr>md_Issuer = iss,
          md_AuthorizationEndpoint = iss @ ''/authorize'',
          md_TokenEndpoint = iss @ ''/token'',
          md_UserInfoEndpoint = iss @ ''/userinfo'',
          md_JWKSURI = iss @ ''/.well-known/jwks.json'',
          md_ResponseTypesSupported = [''code''],
          md_GrantTypesSupported = [''authorization_code'', ''refresh_token''],
          md_SubjectTypesSupported = [''public''],
          md_IDTokenSigningAlgValuesSupported = [''RS256''],
          md_ScopesSupported = [''openid'', ''profile'', ''email'', ''offline_access''],
          md_TokenEndpointAuthMethodsSupported = [''client_secret_post''],
          md_ClaimsSupported = [''sub'', ''iss'', ''aud'', ''iat'', ''exp'', ''nbf'', ''jti'', ''auth_time'',
             ''nonce'', ''scope'', ''preferred_username'', ''updated_at'', ''email'', ''email_verified''],
          md_CodeChallengeMethodsSupported = [''S256'']\<rparr>)"

definition GetConfiguration :: "string \<Rightarrow> DiscoveryMetadata response" where
  "GetConfiguration publicURL = WriteJSON 200 (BuildDiscoveryMetadata publicURL)"

definition GetJWKS :: "'k env \<Rightarrow> db \<Rightarrow> JWK list response" where
  "GetJWKS E d =
     (case snd (ListPublishable E (pool d)) of
        Inl e \<Rightarrow> internalError
      | Inr keys \<Rightarrow>
          (case BuildJWKSet E keys of
             None \<Rightarrow> internalError
           | Some jwks \<Rightarrow> WriteJSON 200 jwks))"

section \<open>Laws\<close>

text \<open>PKCE binds: once a verifier is accepted for a challenge, any other string is accepted for the
  same challenge exactly when it is non-empty and has the same SHA-256.\<close>

lemma VerifyPKCE_binds:
  assumes "VerifyPKCE E challenge v"
  shows "VerifyPKCE E challenge v' \<longleftrightarrow> v' \<noteq> [] \<and> e_sha256 E v' = e_sha256 E v"
proof -
  have c: "challenge \<noteq> []" "challenge = base64RawURL (e_sha256 E v)"
    using assms by (auto simp: VerifyPKCE_def split: if_splits)
  have "base64RawURL (e_sha256 E v') = challenge \<longleftrightarrow> e_sha256 E v' = e_sha256 E v"
    unfolding c(2) base64RawURL_def using b64Raw_inj [OF b64URLAlphabet_ok] by metis
  with c(1) show ?thesis by (simp add: VerifyPKCE_def)
qed

lemma VerifyPKCE_binds_witness:
  "VerifyPKCE sampleEnv (base64RawURL ''verifier'') ''verifier'' \<and>
   \<not> VerifyPKCE sampleEnv (base64RawURL ''verifier'') ''other''"
proof -
  have "VerifyPKCE sampleEnv (base64RawURL ''verifier'') ''verifier''"
    by (simp add: VerifyPKCE_def base64RawURL_def Let_def)
  with VerifyPKCE_binds [OF this, of "''other''"] show ?thesis by simp
qed

text \<open>Open redirect guard: whatever \<open>SanitizeReturnTo\<close> lets through is the local path
  \<open>/authorize\<close>, alone or followed by a query string, so it cannot name another host.\<close>

lemma SanitizeReturnTo_local:
  assumes "SanitizeReturnTo E raw publicURL = Some out"
  shows "out = ''/authorize'' \<or> (\<exists>q. q \<noteq> [] \<and> out = ''/authorize?'' @ q)"
  using assms by (auto simp: SanitizeReturnTo_def split: if_splits option.splits)

lemma SanitizeReturnTo_local_witness:
  "SanitizeReturnTo (sampleEnv\<lparr>e_url_parse := \<lambda>s. Some \<lparr>url_Scheme = [], url_Host = [], url_Hostname = [],
      url_Path = ''/authorize'', url_RawQuery = ''client_id=9'', url_Fragment = []\<rparr>\<rparr>)
     ''/authorize?client_id=9'' ''http://localhost:3000'' = Some ''/authorize?client_id=9'' \<and>
   (''/authorize?client_id=9'' = ''/authorize'' \<or> (\<exists>q. q \<noteq> [] \<and> ''/authorize?client_id=9'' = ''/authorize?'' @ q))"
  (is "?s = Some ?out \<and> _")
proof -
  have "?s = Some ?out" by (simp add: SanitizeReturnTo_def)
  with SanitizeReturnTo_local [OF this] show ?thesis by blast
qed

text \<open>The issuer that discovery announces is the configured public URL, which every token carries
  as its issuer, exactly when that URL does not end in a slash; with a trailing slash relying
  parties see an issuer that no token has.\<close>

lemma discovery_issuer:
  "md_Issuer (BuildDiscoveryMetadata publicURL) =
     at_Issuer (BuildAccessClaims E user cid publicURL jti scopes now ttl)
   \<longleftrightarrow> (\<nexists>base. publicURL = base @ ''/'')"
proof (cases publicURL rule: rev_cases)
  case (snoc xs x)
  have "rev (dropWhile (\<lambda>c. c = CHR ''/'') (rev xs)) \<noteq> xs @ [CHR ''/'']"
  proof
    assume "rev (dropWhile (\<lambda>c. c = CHR ''/'') (rev xs)) = xs @ [CHR ''/'']"
    then have "length (dropWhile (\<lambda>c. c = CHR ''/'') (rev xs)) = length (xs @ [CHR ''/''])"
      by (metis length_rev)
    with length_dropWhile_le [of "\<lambda>c. c = CHR ''/''" "rev xs"] show False by simp
  qed
  then show ?thesis
    by (auto simp: snoc BuildDiscoveryMetadata_def BuildAccessClaims_def trimRight_def Let_def)
qed (simp add: BuildDiscoveryMetadata_def BuildAccessClaims_def trimRight_def)

text \<open>Tokens: what is checked is what was signed.\<close>

lemma parseAndVerify_Some:
  "parseAndVerify E raw lookup typ = Some c \<longleftrightarrow>
     (\<exists>t pub. e_jwt_decode E raw = Some t \<and> jwt_alg t = ''RS256'' \<and> jwt_typ t = typ \<and> jwt_kid t \<noteq> [] \<and>
        lookup (jwt_kid t) = Some pub \<and> e_jwt_verify E raw pub \<and> jwt_claims t = c)"
  by (auto simp: parseAndVerify_def split: option.splits if_splits)

lemma BuildJWKSet_kids:
  "BuildJWKSet E ks = Some js \<Longrightarrow> map jwk_Kid js = map (\<lambda>k. e_uuid_string E (sk_ID k)) ks"
  by (induction ks arbitrary: js) (auto simp: PublicPEMToJWK_def split: option.splits prod.splits)

end
