(* ===== verification/Login.thy ===== *)
theory Login
  imports UsersAdmin Validate Oidc
begin

text \<open>
  The first-party session layer of \<^verbatim>\<open>internal/auth\<close>: the session middlewares, login, logout, the
  change of one's own password and the removal of the second factor (\<^verbatim>\<open>handler.go\<close>,
  \<^verbatim>\<open>middleware.go\<close>, \<^verbatim>\<open>optional_middleware.go\<close>, \<^verbatim>\<open>requests.go\<close>, \<^verbatim>\<open>user_dto.go\<close>). A handler answers with the
  cookies it sets and a response. What the login decides inside its transaction is a value of
  \<open>loginOutcome\<close>; the session, or the challenge, is created after the commit.
\<close>

section \<open>Requests and replies\<close>

record authRequest =
  aq_Origin :: string
  aq_UserAgent :: string
  aq_Cookies :: "(string \<times> string) list"
  aq_Req :: request

text \<open>\<open>r.Cookie\<close>: the first cookie of that name.\<close>

definition cookieOf :: "authRequest \<Rightarrow> string \<Rightarrow> string option" where
  "cookieOf req name = map_of (aq_Cookies req) name"

definition authIP :: "'k env \<Rightarrow> authRequest \<Rightarrow> string" where
  "authIP E req = clientIP E (aq_Req req)"

definition authLog :: "'k env \<Rightarrow> authRequest \<Rightarrow> Entry \<Rightarrow> tx \<Rightarrow> tx \<times> (err + unit)" where
  "authLog E req = Log E (req_CorrelationID (aq_Req req))"

text \<open>The fields of \<open>Handler\<close> that are not stores.\<close>

record authHandler =
  ah_PublicURL :: string
  ah_CookieSecure :: bool
  ah_DummyHash :: string
  ah_HIBP :: "string option"

definition NewHandler :: "'k env \<Rightarrow> string \<Rightarrow> string option \<Rightarrow> authHandler option" where
  "NewHandler E publicURL hibpChecker =
     map_option (\<lambda>dummy. \<lparr>ah_PublicURL = publicURL, ah_CookieSecure = IsSecureURL publicURL, ah_DummyHash = dummy,
                          ah_HIBP = hibpChecker\<rparr>)
       (HashPassword E ''auth.dummy'' 0 ''timing-defense-placeholder'')"

datatype authBody =
    AccountLocked int                        \<comment> \<open>\<open>retry_after_seconds\<close>\<close>
  | SignedIn UserDTO string                  \<comment> \<open>with \<open>redirect_to\<close>, absent when empty\<close>
  | EnrollmentRequired
  | TotpRequired
  | PasswordChanged string                   \<comment> \<open>with \<open>redirect_to\<close>\<close>
  | MfaDisabled
  | Me UserDTO bool "nat option"             \<comment> \<open>\<open>force_mfa_enrollment\<close>, unused recovery codes\<close>
  | EnrollmentSecret string string           \<comment> \<open>secret and provisioning URI\<close>
  | RecoveryCodes "string list"
  | EmptyObject
  | ResetOf string                           \<comment> \<open>the user id of a completed reset\<close>

type_synonym authReply = "Cookie list \<times> authBody response"

definition invalidBody :: "'b response" where
  "invalidBody = WriteError 400 ''VALIDATION_ERROR'' ''Invalid request body.''"

definition notAuthenticated :: "'b response" where
  "notAuthenticated = WriteError 401 ''INVALID_SESSION'' ''Not authenticated.''"

definition invalidCredentials :: "'b response" where
  "invalidCredentials = WriteError 401 ''INVALID_CREDENTIALS'' ''Invalid email or password.''"

text \<open>The audit entry about a user who acts on the own account.\<close>

definition selfEntry
  :: "'k env \<Rightarrow> string \<Rightarrow> string \<Rightarrow> User \<Rightarrow> string \<Rightarrow> (string \<times> metaval) list option \<Rightarrow> Entry" where
  "selfEntry E ip event u outcome meta =
     \<lparr>en_EventType = event, en_ActorID = Some (u_ID u), en_ActorEmail = u_Email u, en_TargetType = ''user'',
      en_TargetID = e_uuid_string E (u_ID u), en_ClientID = None, en_IPAddress = ip, en_Outcome = outcome,
      en_Metadata = meta\<rparr>"

text \<open>\<open>int(d.Seconds())\<close> truncates towards zero.\<close>

definition secondsLeft :: "int \<Rightarrow> int" where
  "secondsLeft d = (if d < 0 then - ((- d) div second) else d div second)"

section \<open>Middlewares\<close>

text \<open>A best-effort audit row, written on the pool: its failure is only logged.\<close>

definition poolLog :: "'k env \<Rightarrow> authRequest \<Rightarrow> Entry \<Rightarrow> db \<Rightarrow> db" where
  "poolLog E req entry d = tx_db (fst (authLog E req entry (pool d)))"

definition revokedEntry
  :: "'k env \<Rightarrow> authRequest \<Rightarrow> User option \<Rightarrow> uuid \<Rightarrow> (string \<times> metaval) list \<Rightarrow> Entry" where
  "revokedEntry E req actor uid meta =
     \<lparr>en_EventType = ''session.revoked'', en_ActorID = map_option u_ID actor,
      en_ActorEmail = (case actor of None \<Rightarrow> [] | Some u \<Rightarrow> u_Email u), en_TargetType = ''user'',
      en_TargetID = e_uuid_string E uid, en_ClientID = None, en_IPAddress = authIP E req,
      en_Outcome = ''success'', en_Metadata = Some meta\<rparr>"

text \<open>What the two middlewares share: from the value of the cookie to the user. A session that leads
  nowhere is deleted on the way.\<close>

datatype sessionCheck =
    SessionUser User
  | NoSession          \<comment> \<open>the store knows no such session\<close>
  | StoreDown
  | BadUserID
  | UserGone
  | LookupFailed
  | UserDisabled

definition checkSession
  :: "'k env \<Rightarrow> authRequest \<Rightarrow> (string \<times> metaval) list \<Rightarrow> string \<Rightarrow> 'k world \<Rightarrow> 'k world \<times> sessionCheck" where
  "checkSession E req mw token w =
     (case sessionGet E sessionTTL token (w_vk w) of
        (k, SessErrNotFound) \<Rightarrow> (w\<lparr>w_vk := k\<rparr>, NoSession)
      | (k, SessErr) \<Rightarrow> (w\<lparr>w_vk := k\<rparr>, StoreDown)
      | (k, SessOk sess) \<Rightarrow>
          (case e_uuid_parse E (s_UserID sess) of
             None \<Rightarrow> (w\<lparr>w_vk := fst (sessionDelete E (s_UserID sess) token k)\<rparr>, BadUserID)
           | Some uid \<Rightarrow>
               (case snd (UserGetByID E ''auth.Middleware'' uid (pool (w_db w))) of
                  Inl e \<Rightarrow>
                    if e = ErrUserNotFound
                    then (w\<lparr>w_vk := fst (sessionDelete E (s_UserID sess) token k),
                           w_db := poolLog E req (revokedEntry E req None uid ((''reason'', MStr ''user_not_found'') # mw)) (w_db w)\<rparr>,
                          UserGone)
                    else (w\<lparr>w_vk := k\<rparr>, LookupFailed)
                | Inr u \<Rightarrow>
                    if u_Status u = ''disabled''
                    then (w\<lparr>w_vk := fst (sessionDelete E (e_uuid_string E (u_ID u)) token k),
                           w_db := poolLog E req (revokedEntry E req (Some u) (u_ID u) ((''reason'', MStr ''user_disabled'') # mw)) (w_db w)\<rparr>,
                          UserDisabled)
                    else (w\<lparr>w_vk := k\<rparr>, SessionUser u))))"

fun middlewareError :: "sessionCheck \<Rightarrow> 'b response" where
  "middlewareError StoreDown = WriteError 503 ''SERVICE_UNAVAILABLE'' ''Service temporarily unavailable.''"
| "middlewareError LookupFailed = internalError"
| "middlewareError _ = notAuthenticated"

text \<open>\<open>handler\<close> is the wrapped handler, which finds the user in the context. The middleware answers
  itself (\<open>Inl\<close>) or leaves the answer to it (\<open>Inr\<close>).\<close>

definition Middleware
  :: "'k env \<Rightarrow> authRequest \<Rightarrow> (User \<Rightarrow> 'k world \<Rightarrow> 'k world \<times> 'r) \<Rightarrow> 'k world \<Rightarrow> 'k world \<times> (unit response + 'r)" where
  "Middleware E req handler w =
     (case cookieOf req ''schlass_session'' of
        None \<Rightarrow> (w, Inl notAuthenticated)
      | Some token \<Rightarrow>
          (case checkSession E req [] token w of
             (w1, SessionUser u) \<Rightarrow> apsnd Inr (handler u w1)
           | (w1, c) \<Rightarrow> (w1, Inl (middlewareError c))))"

definition clearSessionCookie :: Cookie where
  "clearSessionCookie =
     \<lparr>ck_Name = ''schlass_session'', ck_Value = [], ck_Path = ''/'', ck_MaxAge = -1, ck_HttpOnly = True,
      ck_Secure = False, ck_SameSiteLax = True\<rparr>"

text \<open>The optional middleware always calls the handler, with or without a user, and says which
  cookies it added.\<close>

definition OptionalMiddleware
  :: "'k env \<Rightarrow> authRequest \<Rightarrow> (User option \<Rightarrow> 'k world \<Rightarrow> 'r) \<Rightarrow> 'k world \<Rightarrow> Cookie list \<times> 'r" where
  "OptionalMiddleware E req handler w =
     (case cookieOf req ''schlass_session'' of
        None \<Rightarrow> ([], handler None w)
      | Some token \<Rightarrow>
          if token = [] then ([], handler None w)
          else (case checkSession E req [(''mw'', MStr ''optional'')] token w of
                  (w1, SessionUser u) \<Rightarrow> ([], handler (Some u) w1)
                | (w1, c) \<Rightarrow> (if c = StoreDown \<or> c = LookupFailed then [] else [clearSessionCookie], handler None w1)))"

section \<open>Login\<close>

definition maxEmailLen :: nat where "maxEmailLen = 320"
definition maxPasswordLen :: nat where "maxPasswordLen = 256"

record LoginRequest =
  lr_Email :: string
  lr_Password :: string
  lr_ReturnTo :: string

definition LoginValidate :: "LoginRequest \<Rightarrow> string option" where
  "LoginValidate r =
     (if lr_Email r = [] then Some ''email is required''
      else if length (lr_Email r) > maxEmailLen then Some ''email is too long''
      else if \<not> contains (lr_Email r) ''@'' then Some ''email is malformed''
      else if lr_Password r = [] then Some ''password is required''
      else if length (lr_Password r) > maxPasswordLen then Some ''password is too long''
      else None)"

datatype loginOutcome =
    Refused "authBody response"
  | SignInPending User       \<comment> \<open>the password has to be changed first\<close>
  | StartEnroll User
  | StartChallenge User
  | SignInNow User

definition lockedNow :: "'k env \<Rightarrow> User \<Rightarrow> bool" where
  "lockedNow E u = (case u_LockedUntil u of None \<Rightarrow> False | Some t \<Rightarrow> e_go_now E < t)"

definition loginUnknown :: "'k env \<Rightarrow> authRequest \<Rightarrow> string \<Rightarrow> tx \<Rightarrow> authBody response + tx \<times> loginOutcome" where
  "loginUnknown E req email t =
     attempt (authLog E req \<lparr>en_EventType = ''login.failed'', en_ActorID = None, en_ActorEmail = email,
                en_TargetType = ''user'', en_TargetID = [], en_ClientID = None, en_IPAddress = authIP E req,
                en_Outcome = ''failure'', en_Metadata = Some [(''reason'', MStr ''user_not_found'')]\<rparr> t) fail500 (\<lambda>t _.
     Inr (t, Refused invalidCredentials))"

definition loginFailed :: "'k env \<Rightarrow> authRequest \<Rightarrow> User \<Rightarrow> (string \<times> metaval) list \<Rightarrow> tx \<Rightarrow> tx \<times> (err + unit)" where
  "loginFailed E req u meta = authLog E req (selfEntry E (authIP E req) ''login.failed'' u ''failure'' (Some meta))"

definition loginLocked :: "'k env \<Rightarrow> authRequest \<Rightarrow> User \<Rightarrow> tx \<Rightarrow> authBody response + tx \<times> loginOutcome" where
  "loginLocked E req u t =
     attempt (loginFailed E req u [(''reason'', MStr ''locked'')] t) fail500 (\<lambda>t _.
     Inr (t, Refused (WriteJSON 401 (AccountLocked
            (case u_LockedUntil u of None \<Rightarrow> 0
             | Some l \<Rightarrow> if l - e_go_now E > 0 then secondsLeft (l - e_go_now E) else 0)))))"

definition loginWrong :: "'k env \<Rightarrow> authRequest \<Rightarrow> int \<Rightarrow> int \<Rightarrow> User \<Rightarrow> tx \<Rightarrow> authBody response + tx \<times> loginOutcome" where
  "loginWrong E req threshold durationSecs u t =
     (case IncrementFailedLogins E (u_ID u) threshold durationSecs t of
        (t, Inl e) \<Rightarrow>
          if e = ErrAlreadyLocked
          then attempt (loginFailed E req u [(''reason'', MStr ''locked_concurrent'')] t) fail500 (\<lambda>t _.
               Inr (t, Refused invalidCredentials))
          else Inl internalError
      | (t, Inr (newCount, locked)) \<Rightarrow>
          attempt (loginFailed E req u [(''reason'', MStr ''wrong_password''), (''failed_count'', MInt newCount)] t) fail500 (\<lambda>t _.
          attempt (if locked
                   then authLog E req (selfEntry E (authIP E req) ''account.locked'' u ''success''
                          (Some [(''threshold'', MInt threshold), (''duration_secs'', MInt durationSecs)])) t
                   else (t, Inr ())) fail500 (\<lambda>t _.
          Inr (t, Refused invalidCredentials))))"

definition loginSucceeded :: "'k env \<Rightarrow> authRequest \<Rightarrow> User \<Rightarrow> (string \<times> metaval) list option \<Rightarrow> tx \<Rightarrow> tx \<times> (err + unit)" where
  "loginSucceeded E req u meta = authLog E req (selfEntry E (authIP E req) ''login.succeeded'' u ''success'' meta)"

text \<open>The branch order of the source: a temporary password is rotated before the second factor is
  asked for.\<close>

definition loginBranch :: "'k env \<Rightarrow> authRequest \<Rightarrow> User \<Rightarrow> tx \<Rightarrow> authBody response + tx \<times> loginOutcome" where
  "loginBranch E req u t =
     (if u_ForcePasswordChange u
      then attempt (loginSucceeded E req u (Some [(''force_password_change_pending'', MBool True)]) t) fail500 (\<lambda>t _.
           attempt (SetLastLoginAt E (u_ID u) t) fail500 (\<lambda>t _.
           Inr (t, SignInPending u)))
      else attempt (GetBool E ''mfa_required'' t) fail500 (\<lambda>t mfaRequired.
           if mfaRequired \<and> u_TOTPEnrolledAt u = None then Inr (t, StartEnroll u)
           else if mfaRequired \<and> u_TOTPEnrolledAt u \<noteq> None then Inr (t, StartChallenge u)
           else attempt (loginSucceeded E req u None t) fail500 (\<lambda>t _.
                attempt (SetLastLoginAt E (u_ID u) t) fail500 (\<lambda>t _.
                Inr (t, SignInNow u)))))"

definition loginRight :: "'k env \<Rightarrow> authRequest \<Rightarrow> User \<Rightarrow> tx \<Rightarrow> authBody response + tx \<times> loginOutcome" where
  "loginRight E req u t =
     (case ResetFailedLogins E (u_ID u) t of
        (t, Inl e) \<Rightarrow>
          if e = ErrAlreadyLocked
          then attempt (UserGetByID E ''login.fresh'' (u_ID u) t) fail500 (\<lambda>t freshUser.
               attempt (loginFailed E req u [(''reason'', MStr ''locked_race'')] t) fail500 (\<lambda>t _.
               Inr (t, Refused (WriteJSON 401 (AccountLocked
                      (case u_LockedUntil freshUser of None \<Rightarrow> 0 | Some l \<Rightarrow> secondsLeft (l - e_go_now E)))))))
          else Inl internalError
      | (t, Inr _) \<Rightarrow> loginBranch E req u t)"

text \<open>The unknown address is answered after a verification against the dummy hash, whose result is
  dropped.\<close>

definition loginBody
  :: "'k env \<Rightarrow> authRequest \<Rightarrow> int \<Rightarrow> int \<Rightarrow> string \<Rightarrow> string \<Rightarrow> tx \<Rightarrow> authBody response + tx \<times> loginOutcome" where
  "loginBody E req threshold durationSecs email password t =
     (case UserGetByEmail E email t of
        (t, Inl e) \<Rightarrow> if e = ErrUserNotFound then loginUnknown E req email t else Inl internalError
      | (t, Inr u) \<Rightarrow>
          if lockedNow E u then loginLocked E req u t
          else (case VerifyPassword E password (u_PasswordHash u) of
                  None \<Rightarrow> Inl internalError
                | Some ok \<Rightarrow> if \<not> ok then loginWrong E req threshold durationSecs u t else loginRight E req u t))"

text \<open>The cookies of the second factor; \<open>SameSite\<close> is strict.\<close>

definition mfaCookie :: "string \<Rightarrow> string \<Rightarrow> int \<Rightarrow> bool \<Rightarrow> Cookie" where
  "mfaCookie name token maxAge secure =
     \<lparr>ck_Name = name, ck_Value = token, ck_Path = ''/'', ck_MaxAge = maxAge, ck_HttpOnly = True,
      ck_Secure = secure, ck_SameSiteLax = False\<rparr>"

definition enrollKey :: "string \<Rightarrow> string" where "enrollKey token = ''mfa:enroll:'' @ token"
definition challengeKey :: "string \<Rightarrow> string" where "challengeKey token = ''mfa:challenge:'' @ token"

definition optField :: "string \<Rightarrow> string \<Rightarrow> (string \<times> string) list" where
  "optField name v = (if v \<noteq> [] then [(name, v)] else [])"

text \<open>A hash with a time to live; that \<open>EXPIRE\<close> failed is not noticed.\<close>

definition putHash :: "'k env \<Rightarrow> string \<Rightarrow> (string \<times> string) list \<Rightarrow> int \<Rightarrow> 'k \<Rightarrow> 'k \<times> bool" where
  "putHash E key fvs ttl k =
     (case e_valkey E (HSET key fvs) k of
        (r, k1) \<Rightarrow> if r = RErr then (k1, False) else (snd (e_valkey E (EXPIRE key ttl) k1), True))"

definition startSecondFactor
  :: "'k env \<Rightarrow> authHandler \<Rightarrow> string \<Rightarrow> string \<Rightarrow> (string \<Rightarrow> string) \<Rightarrow> (string \<times> string) list \<Rightarrow> int \<Rightarrow> authBody
      \<Rightarrow> 'k world \<Rightarrow> 'k world \<times> authReply" where
  "startSecondFactor E h site cookie key fvs secs reply w =
     (case RandomToken E site 32 of
        None \<Rightarrow> (w, [], internalError)
      | Some token \<Rightarrow>
          (case putHash E (key token) fvs (secs * second) (w_vk w) of
             (k, False) \<Rightarrow> (w\<lparr>w_vk := k\<rparr>, [], internalError)
           | (k, True) \<Rightarrow> (w\<lparr>w_vk := k\<rparr>, [mfaCookie cookie token secs (ah_CookieSecure h)], WriteJSON 202 reply)))"

definition signIn
  :: "'k env \<Rightarrow> bool \<Rightarrow> authRequest \<Rightarrow> Cookie list \<Rightarrow> uuid \<Rightarrow> string \<Rightarrow> authBody \<Rightarrow> 'k world \<Rightarrow> 'k world \<times> authReply" where
  "signIn E secure req cookies uid pendingReturnTo reply w =
     (case CreateWithPendingReturnTo E sessionTTL (e_uuid_string E uid) (authIP E req) (aq_UserAgent req)
             pendingReturnTo (w_vk w) of
        (k, None) \<Rightarrow> (w\<lparr>w_vk := k\<rparr>, cookies, internalError)
      | (k, Some token) \<Rightarrow> (w\<lparr>w_vk := k\<rparr>, cookies @ [SetCookie token secure], WriteJSON 200 reply))"

fun finishLogin
  :: "'k env \<Rightarrow> authHandler \<Rightarrow> authRequest \<Rightarrow> string \<Rightarrow> loginOutcome \<Rightarrow> 'k world \<Rightarrow> 'k world \<times> authReply" where
  "finishLogin E h req returnTo (Refused r) w = (w, [], r)"
| "finishLogin E h req returnTo (SignInPending u) w =
     signIn E (ah_CookieSecure h) req [] (u_ID u) returnTo (SignedIn (userDTO E u) []) w"
| "finishLogin E h req returnTo (StartEnroll u) w =
     startSecondFactor E h ''mfa.enroll'' ''schlass_mfa_enroll'' enrollKey
       ((''user_id'', e_uuid_string E (u_ID u)) # optField ''return_to'' returnTo) 600 EnrollmentRequired w"
| "finishLogin E h req returnTo (StartChallenge u) w =
     startSecondFactor E h ''mfa.challenge'' ''schlass_mfa_challenge'' challengeKey
       ([(''user_id'', e_uuid_string E (u_ID u)), (''attempts_remaining'', showInt 5)] @ optField ''return_to'' returnTo)
       120 TotpRequired w"
| "finishLogin E h req returnTo (SignInNow u) w =
     signIn E (ah_CookieSecure h) req [] (u_ID u) [] (SignedIn (userDTO E u) returnTo) w"

definition cleanReturnTo :: "'k env \<Rightarrow> authHandler \<Rightarrow> string \<Rightarrow> string" where
  "cleanReturnTo E h raw =
     (if raw = [] then [] else case SanitizeReturnTo E raw (ah_PublicURL h) of None \<Rightarrow> [] | Some clean \<Rightarrow> clean)"

definition PostLogin
  :: "'k env \<Rightarrow> authHandler \<Rightarrow> authRequest \<Rightarrow> LoginRequest option \<Rightarrow> 'k world \<Rightarrow> 'k world \<times> authReply" where
  "PostLogin E h req body w =
     (if aq_Origin req \<noteq> ah_PublicURL h then (w, [], WriteError 403 ''INVALID_ORIGIN'' ''Request origin not allowed.'')
      else case body of
        None \<Rightarrow> (w, [], invalidBody)
      | Some b \<Rightarrow>
          (case LoginValidate b of
             Some msg \<Rightarrow> (w, [], WriteError 400 ''VALIDATION_ERROR'' msg)
           | None \<Rightarrow>
               (case snd (GetInt E ''lockout_threshold'' (pool (w_db w))) of
                  Inl e \<Rightarrow> (w, [], internalError)
                | Inr threshold \<Rightarrow>
                    (case snd (GetInt E ''lockout_duration_secs'' (pool (w_db w))) of
                       Inl e \<Rightarrow> (w, [], internalError)
                     | Inr durationSecs \<Rightarrow>
                         (case inTx E ''login'' (loginBody E req threshold durationSecs (toLower (lr_Email b)) (lr_Password b)) (w_db w) of
                            (d, Inl r) \<Rightarrow> (w\<lparr>w_db := d\<rparr>, [], r)
                          | (d, Inr out) \<Rightarrow> finishLogin E h req (cleanReturnTo E h (lr_ReturnTo b)) out (w\<lparr>w_db := d\<rparr>))))))"

section \<open>Logout\<close>

definition endSessionCookie :: "bool \<Rightarrow> Cookie" where
  "endSessionCookie secure = clearSessionCookie\<lparr>ck_Secure := secure\<rparr>"

definition logoutBody :: "'k env \<Rightarrow> authRequest \<Rightarrow> User \<Rightarrow> tx \<Rightarrow> authBody response + tx \<times> unit" where
  "logoutBody E req u t =
     attempt (authLog E req (selfEntry E (authIP E req) ''logout.completed'' u ''success'' None) t) fail500 (\<lambda>t _. Inr (t, ()))"

definition PostLogout
  :: "'k env \<Rightarrow> authHandler \<Rightarrow> authRequest \<Rightarrow> User option \<Rightarrow> 'k world \<Rightarrow> 'k world \<times> authReply" where
  "PostLogout E h req cu w =
     (case cu of
        None \<Rightarrow> (w, [], notAuthenticated)
      | Some u \<Rightarrow>
          (case inTx E ''logout'' (logoutBody E req u) (w_db w) of
             (d, Inl r) \<Rightarrow> (w\<lparr>w_db := d\<rparr>, [], r)
           | (d, Inr _) \<Rightarrow>
               (case cookieOf req ''schlass_session'' of
                  None \<Rightarrow> (w\<lparr>w_db := d\<rparr>, [endSessionCookie (ah_CookieSecure h)], NoContent)
                | Some token \<Rightarrow>
                    (case sessionDelete E (e_uuid_string E (u_ID u)) token (w_vk w) of
                       (k, False) \<Rightarrow> (w\<lparr>w_db := d, w_vk := k\<rparr>, [], internalError)
                     | (k, True) \<Rightarrow> (w\<lparr>w_db := d, w_vk := k\<rparr>, [endSessionCookie (ah_CookieSecure h)], NoContent)))))"

section \<open>Changing the own password\<close>

record changePasswordRequest =
  cpr_CurrentPassword :: string
  cpr_NewPassword :: string

definition selfAudit
  :: "'k env \<Rightarrow> authRequest \<Rightarrow> User \<Rightarrow> string \<Rightarrow> (string \<times> metaval) list option \<Rightarrow> tx \<Rightarrow> tx \<times> (err + unit)" where
  "selfAudit E req u event meta = authLog E req (selfEntry E (authIP E req) event u ''success'' meta)"

definition changePasswordBody :: "'k env \<Rightarrow> authRequest \<Rightarrow> User \<Rightarrow> string \<Rightarrow> tx \<Rightarrow> authBody response + tx \<times> unit" where
  "changePasswordBody E req current newHash t =
     attempt (SetPasswordHash E (u_ID current) newHash False t) fail500 (\<lambda>t _.
     attempt (selfAudit E req current ''password.changed'' None t) fail500 (\<lambda>t _.
     attempt (selfAudit E req current ''user.revoke_before_set'' (Some [(''reason'', MStr ''self_change_password'')]) t) fail500 (\<lambda>t _.
     Inr (t, ()))))"

text \<open>The checks of the new password: the policy of the instance, then the breach list, which lets a
  password pass when it cannot be asked.\<close>

definition breachedPassword :: "'k env \<Rightarrow> string option \<Rightarrow> string \<Rightarrow> authBody response option" where
  "breachedPassword E checker password =
     (if IsPwned E checker password = Some True
      then Some (WriteError 400 ''PASSWORD_BREACHED'' ''This password has appeared in a known data breach. Choose a different one.'')
      else None)"

definition vetPassword :: "'k env \<Rightarrow> string option \<Rightarrow> string \<Rightarrow> PasswordPolicy \<Rightarrow> authBody response option" where
  "vetPassword E checker password policy =
     (case validatePassword E password policy of
        Some msg \<Rightarrow> Some (WriteError 400 ''PASSWORD_POLICY_VIOLATION'' msg)
      | None \<Rightarrow> breachedPassword E checker password)"

text \<open>The pending return address is read from the session before anything else, which renews it.\<close>

definition readPending :: "'k env \<Rightarrow> authRequest \<Rightarrow> 'k \<Rightarrow> 'k \<times> string" where
  "readPending E req k =
     (case cookieOf req ''schlass_session'' of
        None \<Rightarrow> (k, [])
      | Some token \<Rightarrow>
          (case sessionGet E sessionTTL token k of
             (k1, SessOk sess) \<Rightarrow> (k1, s_PendingReturnTo sess)
           | (k1, _) \<Rightarrow> (k1, [])))"

definition rotateSession
  :: "'k env \<Rightarrow> authHandler \<Rightarrow> authRequest \<Rightarrow> User \<Rightarrow> string \<Rightarrow> 'k world \<Rightarrow> 'k world \<times> authReply" where
  "rotateSession E h req current pendingReturnTo w =
     (let uid = e_uuid_string E (u_ID current);
          k1 = fst (RevokeBeforeSetNow E uid (w_vk w));
          k2 = (case cookieOf req ''schlass_session'' of None \<Rightarrow> k1 | Some token \<Rightarrow> fst (sessionDelete E uid token k1))
      in signIn E (ah_CookieSecure h) req [] (u_ID current) [] (PasswordChanged pendingReturnTo) (w\<lparr>w_vk := k2\<rparr>))"

definition PostChangePassword
  :: "'k env \<Rightarrow> authHandler \<Rightarrow> authRequest \<Rightarrow> User option \<Rightarrow> changePasswordRequest option \<Rightarrow> 'k world \<Rightarrow> 'k world \<times> authReply" where
  "PostChangePassword E h req cu body w =
     (case cu of
        None \<Rightarrow> (w, [], notAuthenticated)
      | Some current \<Rightarrow>
          (case readPending E req (w_vk w) of
             (k, pendingReturnTo) \<Rightarrow>
               (let w = w\<lparr>w_vk := k\<rparr> in
                case body of
                  None \<Rightarrow> (w, [], invalidBody)
                | Some b \<Rightarrow>
                    (case VerifyPassword E (cpr_CurrentPassword b) (u_PasswordHash current) of
                       None \<Rightarrow> (w, [], internalError)
                     | Some ok \<Rightarrow>
                         if \<not> ok then (w, [], WriteError 400 ''WRONG_CURRENT_PASSWORD'' ''Current password is incorrect.'')
                         else case snd (readPasswordPolicy E (pool (w_db w))) of
                           Inl e \<Rightarrow> (w, [], internalError)
                         | Inr policy \<Rightarrow>
                             (case vetPassword E (ah_HIBP h) (cpr_NewPassword b) policy of
                                Some r \<Rightarrow> (w, [], r)
                              | None \<Rightarrow>
                                  (case HashPassword E ''auth.PostChangePassword'' 0 (cpr_NewPassword b) of
                                     None \<Rightarrow> (w, [], internalError)
                                   | Some newHash \<Rightarrow>
                                       (case inTx E ''auth.PostChangePassword'' (changePasswordBody E req current newHash) (w_db w) of
                                          (d, Inl r) \<Rightarrow> (w\<lparr>w_db := d\<rparr>, [], r)
                                        | (d, Inr _) \<Rightarrow> rotateSession E h req current pendingReturnTo (w\<lparr>w_db := d\<rparr>))))))))"

section \<open>Removing the second factor\<close>

definition disableMfaBody :: "'k env \<Rightarrow> authRequest \<Rightarrow> User \<Rightarrow> int \<Rightarrow> tx \<Rightarrow> authBody response + tx \<times> unit" where
  "disableMfaBody E req current enrolledAt t =
     attempt (RecoveryDeleteAllForUser E (u_ID current) t) fail500 (\<lambda>t deleted.
     attempt (ClearTOTP E (u_ID current) t) fail500 (\<lambda>t _.
     attempt (selfAudit E req current ''mfa.self_reset''
                (Some [(''recovery_codes_burned'', MInt (int deleted)), (''was_enrolled_at'', MTime (Unix enrolledAt))]) t) fail500 (\<lambda>t _.
     attempt (selfAudit E req current ''user.revoke_before_set'' (Some [(''reason'', MStr ''self_disable_mfa'')]) t) fail500 (\<lambda>t _.
     Inr (t, ())))))"

definition PostDisableMfa
  :: "'k env \<Rightarrow> authHandler \<Rightarrow> authRequest \<Rightarrow> User option \<Rightarrow> string option \<Rightarrow> 'k world \<Rightarrow> 'k world \<times> authReply" where
  "PostDisableMfa E h req cu body w =
     (case cu of
        None \<Rightarrow> (w, [], notAuthenticated)
      | Some current \<Rightarrow>
          (case body of
             None \<Rightarrow> (w, [], invalidBody)
           | Some currentPassword \<Rightarrow>
               (case u_TOTPEnrolledAt current of
                  None \<Rightarrow> (w, [], WriteError 400 ''MFA_NOT_ENROLLED'' ''Two-factor authentication is not enabled on this account.'')
                | Some enrolledAt \<Rightarrow>
                    (case snd (UserGetByID E ''auth.PostDisableMfa'' (u_ID current) (pool (w_db w))) of
                       Inl e \<Rightarrow> (w, [], internalError)
                     | Inr full \<Rightarrow>
                         (case VerifyPassword E currentPassword (u_PasswordHash full) of
                            None \<Rightarrow> (w, [], internalError)
                          | Some ok \<Rightarrow>
                              if \<not> ok then (w, [], WriteError 401 ''INVALID_CREDENTIALS'' ''Invalid password.'')
                              else case inTx E ''auth.PostDisableMfa'' (disableMfaBody E req current enrolledAt) (w_db w) of
                                (d, Inl r) \<Rightarrow> (w\<lparr>w_db := d\<rparr>, [], r)
                              | (d, Inr _) \<Rightarrow>
                                  (w\<lparr>w_db := d, w_vk := revokeAccess E (u_ID current) (w_vk w)\<rparr>,
                                   [endSessionCookie (ah_CookieSecure h)], WriteJSON 200 MfaDisabled))))))"

section \<open>The current user\<close>

text \<open>A configuration that cannot be read counts as a required second factor; a count that cannot be
  read is left out.\<close>

definition GetMe :: "'k env \<Rightarrow> User option \<Rightarrow> 'k world \<Rightarrow> authBody response" where
  "GetMe E cu w =
     (case cu of
        None \<Rightarrow> notAuthenticated
      | Some u \<Rightarrow>
          (let mfaRequired = (case snd (GetBool E ''mfa_required'' (pool (w_db w))) of Inl e \<Rightarrow> True | Inr b \<Rightarrow> b)
           in WriteJSON 200 (Me (userDTO E u) (mfaRequired \<and> u_TOTPEnrolledAt u = None)
                (if u_TOTPEnrolledAt u = None then None
                 else case snd (CountUnused E (u_ID u) (pool (w_db w))) of Inl e \<Rightarrow> None | Inr n \<Rightarrow> Some n))))"

end
