(* ===== verification/PasswordReset.thy ===== *)
theory PasswordReset
  imports Login
begin

text \<open>
  \<^verbatim>\<open>internal/auth/password_reset.go\<close>: the self-service reset. A request mails a one-time token to an
  active user who is no administrator and burns the earlier ones; a confirmation sets the new
  password and ends every session. The mails are sent by goroutines after the answer; a handler
  returns the ones it starts.
\<close>

section \<open>The handler\<close>

record resetHandler =
  rh_PublicURL :: string
  rh_DummyHash :: string
  rh_HIBP :: "string option"
  rh_Pepper :: bytes

datatype mailJob =
    ResetMail string string        \<comment> \<open>address and token\<close>
  | ChangedMail string

definition NewPasswordResetHandler :: "'k env \<Rightarrow> bytes \<Rightarrow> string \<Rightarrow> string option \<Rightarrow> resetHandler option" where
  "NewPasswordResetHandler E pepper publicURL hibpChecker =
     (case e_rand E ''reset.pad'' 0 16 of
        None \<Rightarrow> None
      | Some buf \<Rightarrow>
          map_option (\<lambda>dummy. \<lparr>rh_PublicURL = publicURL, rh_DummyHash = dummy, rh_HIBP = hibpChecker, rh_Pepper = pepper\<rparr>)
            (HashPassword E ''reset.dummy'' 0 (''dummy-for-timing-'' @ base64RawURL buf)))"

definition parseClientIPAddr :: "'k env \<Rightarrow> string \<Rightarrow> string option" where
  "parseClientIPAddr E s = (if s = [] then None else e_netip_parse E s)"

definition sha256Prefix :: "'k env \<Rightarrow> string \<Rightarrow> string" where
  "sha256Prefix E email = hexEncode (take 4 (e_sha256 E email))"

section \<open>Requesting a token\<close>

definition resetTTL :: int where "resetTTL = 30 * 60 * second"

definition requestBody :: "'k env \<Rightarrow> resetHandler \<Rightarrow> authRequest \<Rightarrow> User \<Rightarrow> string \<Rightarrow> tx \<Rightarrow> authBody response + tx \<times> unit" where
  "requestBody E h req u plaintextToken t =
     attempt (InvalidateOutstandingForUser E (u_ID u) t) fail500 (\<lambda>t _.
     attempt (ResetInsert E (rh_Pepper h) (u_ID u) plaintextToken resetTTL (parseClientIPAddr E (authIP E req)) t) fail500 (\<lambda>t tokenID.
     attempt (selfAudit E req u ''password_reset.requested''
                (Some [(''email_matched'', MBool True), (''token_id'', MStr (e_uuid_string E tokenID))]) t) fail500 (\<lambda>t _.
     Inr (t, ()))))"

text \<open>The row of a request that is not answered with a token, preceded by one more for an
  administrator.\<close>

definition adminBlocked :: "'k env \<Rightarrow> authRequest \<Rightarrow> User \<Rightarrow> db \<Rightarrow> db" where
  "adminBlocked E req u d =
     poolLog E req (selfEntry E (authIP E req) ''password_reset.admin_blocked'' u ''success''
       (Some [(''reason'', MStr ''super_admin_cannot_self_reset'')])) d"

definition unmatchedAudit :: "'k env \<Rightarrow> authRequest \<Rightarrow> string \<Rightarrow> db \<Rightarrow> db" where
  "unmatchedAudit E req email d =
     poolLog E req \<lparr>en_EventType = ''password_reset.requested'', en_ActorID = None, en_ActorEmail = [],
       en_TargetType = ''user'', en_TargetID = [], en_ClientID = None, en_IPAddress = authIP E req,
       en_Outcome = ''success'',
       en_Metadata = Some [(''email_matched'', MBool False), (''email_hash_prefix'', MStr (sha256Prefix E email))]\<rparr> d"

text \<open>Every branch writes its own answer; the errors of the transaction are only logged.\<close>

definition requestFor
  :: "'k env \<Rightarrow> resetHandler \<Rightarrow> authRequest \<Rightarrow> string \<Rightarrow> (err + User) \<Rightarrow> 'k world \<Rightarrow> ('k world \<times> mailJob list) \<times> authBody response" where
  "requestFor E h req email found w =
     (case found of
        Inl e \<Rightarrow>
          if e = ErrUserNotFound then ((w\<lparr>w_db := unmatchedAudit E req email (w_db w)\<rparr>, []), WriteJSON 200 EmptyObject)
          else ((w, []), WriteJSON 200 EmptyObject)
      | Inr u \<Rightarrow>
          if u_Status u \<noteq> ''active'' then ((w\<lparr>w_db := unmatchedAudit E req email (w_db w)\<rparr>, []), WriteJSON 200 EmptyObject)
          else if u_Role u = ''super_admin''
          then ((w\<lparr>w_db := unmatchedAudit E req email (adminBlocked E req u (w_db w))\<rparr>, []), WriteJSON 200 EmptyObject)
          else case e_rand E ''reset.token'' 0 32 of
            None \<Rightarrow> ((w, []), WriteJSON 200 EmptyObject)
          | Some raw \<Rightarrow>
              (case inTx E ''reset.request'' (requestBody E h req u (base64RawURL raw)) (w_db w) of
                 (d, Inl r) \<Rightarrow> ((w\<lparr>w_db := d\<rparr>, []), WriteJSON 200 EmptyObject)
               | (d, Inr _) \<Rightarrow> ((w\<lparr>w_db := d\<rparr>, [ResetMail (u_Email u) (base64RawURL raw)]), WriteJSON 200 EmptyObject)))"

definition PostRequest
  :: "'k env \<Rightarrow> resetHandler \<Rightarrow> authRequest \<Rightarrow> string option \<Rightarrow> 'k world \<Rightarrow> ('k world \<times> mailJob list) \<times> authBody response" where
  "PostRequest E h req body w =
     (case body of
        None \<Rightarrow> ((w, []), WriteJSON 200 EmptyObject)
      | Some raw \<Rightarrow>
          (let email = trimSpace (toLower raw)
           in if validateEmail E email \<noteq> None then ((w, []), WriteJSON 200 EmptyObject)
              else requestFor E h req email (snd (UserGetByEmail E email (pool (w_db w)))) w))"

section \<open>Confirming\<close>

text \<open>A refusal may come with an audit row on the pool, as the transaction is rolled back.\<close>

datatype confirmStop = Stop "authBody response" | StopAudited string "uuid option" "authBody response"

definition invalidToken :: "'b response" where
  "invalidToken = WriteError 400 ''INVALID_TOKEN'' ''Reset link is no longer valid.''"

definition stop500 :: "err \<Rightarrow> confirmStop" where
  "stop500 e = Stop internalError"

definition auditConfirmFailed :: "'k env \<Rightarrow> authRequest \<Rightarrow> string \<Rightarrow> uuid option \<Rightarrow> db \<Rightarrow> db" where
  "auditConfirmFailed E req reason uid d =
     poolLog E req \<lparr>en_EventType = ''password_reset.confirm_failed'', en_ActorID = uid, en_ActorEmail = [],
       en_TargetType = ''user'', en_TargetID = (case uid of None \<Rightarrow> [] | Some i \<Rightarrow> e_uuid_string E i), en_ClientID = None,
       en_IPAddress = authIP E req, en_Outcome = ''failure'', en_Metadata = Some [(''reason'', MStr reason)]\<rparr> d"

definition resetAudit
  :: "'k env \<Rightarrow> authRequest \<Rightarrow> uuid \<Rightarrow> string \<Rightarrow> (string \<times> metaval) list \<Rightarrow> tx \<Rightarrow> tx \<times> (err + unit)" where
  "resetAudit E req uid event meta =
     authLog E req \<lparr>en_EventType = event, en_ActorID = Some uid, en_ActorEmail = [], en_TargetType = ''user'',
       en_TargetID = e_uuid_string E uid, en_ClientID = None, en_IPAddress = authIP E req, en_Outcome = ''success'',
       en_Metadata = Some meta\<rparr>"

definition tokenSpent :: "'k env \<Rightarrow> PasswordResetToken \<Rightarrow> bool" where
  "tokenSpent E token = (pr_UsedAt token \<noteq> None \<or> pr_ExpiresAt token < e_go_now E)"

definition confirmWrites :: "'k env \<Rightarrow> authRequest \<Rightarrow> PasswordResetToken \<Rightarrow> string \<Rightarrow> tx \<Rightarrow> confirmStop + tx \<times> uuid" where
  "confirmWrites E req token hash t =
     attempt (SetPasswordHash E (pr_UserID token) hash False t) stop500 (\<lambda>t _.
     attempt (ClearLockoutForPasswordChange E (pr_UserID token) t) stop500 (\<lambda>t _.
     attempt (ResetMarkUsed E (pr_ID token) t) stop500 (\<lambda>t _.
     attempt (resetAudit E req (pr_UserID token) ''password_reset.completed'' [(''token_id'', MStr (e_uuid_string E (pr_ID token)))] t) stop500 (\<lambda>t _.
     attempt (resetAudit E req (pr_UserID token) ''user.revoke_before_set'' [(''reason'', MStr ''self_password_reset'')] t) stop500 (\<lambda>t _.
     Inr (t, pr_UserID token))))))"

definition confirmBody :: "'k env \<Rightarrow> resetHandler \<Rightarrow> authRequest \<Rightarrow> string \<Rightarrow> string \<Rightarrow> tx \<Rightarrow> confirmStop + tx \<times> uuid" where
  "confirmBody E h req plaintextToken password t =
     attempt (GetByTokenForUpdate E (rh_Pepper h) plaintextToken t)
       (\<lambda>e. if e = ErrResetTokenNotFound then StopAudited ''token_not_found'' None invalidToken else Stop internalError) (\<lambda>t token.
     if tokenSpent E token then Inl (StopAudited ''token_invalid'' (Some (pr_UserID token)) invalidToken)
     else attempt (readPasswordPolicy E t) stop500 (\<lambda>t policy.
       case validatePassword E password policy of
         Some msg \<Rightarrow> Inl (StopAudited ''policy_violation'' (Some (pr_UserID token)) (WriteError 400 ''PASSWORD_POLICY_VIOLATION'' msg))
       | None \<Rightarrow>
           (case breachedPassword E (rh_HIBP h) password of
              Some r \<Rightarrow> Inl (Stop r)
            | None \<Rightarrow>
                (case HashPassword E ''reset.confirm'' 0 password of
                   None \<Rightarrow> Inl (Stop internalError)
                 | Some hash \<Rightarrow> confirmWrites E req token hash t))))"

definition finishConfirm :: "'k env \<Rightarrow> uuid \<Rightarrow> 'k world \<Rightarrow> 'k world \<times> mailJob list \<times> authBody response" where
  "finishConfirm E uid w =
     (let k1 = fst (RevokeBeforeSetNow E (e_uuid_string E uid) (w_vk w));
          k2 = fst (DeleteAllForUser E (e_uuid_string E uid) k1)
      in (w\<lparr>w_vk := k2\<rparr>,
          case snd (GetEmail E uid (pool (w_db w))) of
            Inl e \<Rightarrow> []
          | Inr email \<Rightarrow> if email = [] then [] else [ChangedMail email],
          WriteJSON 200 (ResetOf (e_uuid_string E uid))))"

record confirmRequest =
  cfr_Token :: string
  cfr_Password :: string

definition PostConfirm
  :: "'k env \<Rightarrow> resetHandler \<Rightarrow> authRequest \<Rightarrow> confirmRequest option \<Rightarrow> 'k world \<Rightarrow> 'k world \<times> mailJob list \<times> authBody response" where
  "PostConfirm E h req body w =
     (case body of
        None \<Rightarrow> (w, [], invalidBody)
      | Some b \<Rightarrow>
          if cfr_Token b = [] then (w, [], invalidToken)
          else case beginTx E ''reset.confirm'' (w_db w) of
            None \<Rightarrow> (w, [], internalError)
          | Some t \<Rightarrow>
              (case confirmBody E h req (cfr_Token b) (cfr_Password b) t of
                 Inl (Stop r) \<Rightarrow> (w, [], r)
               | Inl (StopAudited reason uid r) \<Rightarrow> (w\<lparr>w_db := auditConfirmFailed E req reason uid (w_db w)\<rparr>, [], r)
               | Inr (t1, uid) \<Rightarrow>
                   (case commitTx E ''reset.confirm'' t1 (w_db w) of
                      (d, False) \<Rightarrow> (w\<lparr>w_db := d\<rparr>, [], internalError)
                    | (d, True) \<Rightarrow> finishConfirm E uid (w\<lparr>w_db := d\<rparr>))))"

definition PostValidate :: "'k env \<Rightarrow> resetHandler \<Rightarrow> string option \<Rightarrow> 'k world \<Rightarrow> authBody response" where
  "PostValidate E h body w =
     (case body of
        None \<Rightarrow> invalidBody
      | Some token \<Rightarrow>
          if token = [] then invalidToken
          else case snd (GetByToken E (rh_Pepper h) token (pool (w_db w))) of
            Inl e \<Rightarrow> if e = ErrResetTokenNotFound then invalidToken else internalError
          | Inr tok \<Rightarrow> if tokenSpent E tok then invalidToken else WriteJSON 200 EmptyObject)"

end
