(* ===== verification/SettingsAdmin.thy ===== *)
theory SettingsAdmin
  imports Handlers Validate
begin

text \<open>
  The settings of the instance: the snapshot of \<^verbatim>\<open>internal/instanceconfig/service.go\<close>, and the
  handlers and validators of \<^verbatim>\<open>internal/settings\<close>. A field of a request that may be absent is an
  \<open>option\<close>. A handler compares the request with the snapshot, and writes the fields that differ
  and one audit row for each of them in one transaction.
\<close>

section \<open>The snapshot\<close>

record GeneralView =
  gv_InstanceName :: string

record SecurityView =
  sv_MFARequired :: bool
  sv_PasswordMinLength :: int
  sv_PasswordRequireUpper :: bool
  sv_PasswordRequireDigit :: bool
  sv_LockoutThreshold :: int
  sv_LockoutDurationSecs :: int

record TokensView =
  tv_AccessTokenTTLSecs :: int
  tv_RefreshTokenTTLSecs :: int

record EmailView =
  ev_SMTPHost :: string
  ev_SMTPPort :: int
  ev_SMTPUsername :: string
  ev_SMTPPasswordSet :: bool
  ev_SMTPFrom :: string

record Settings =
  st_General :: GeneralView
  st_Security :: SecurityView
  st_Tokens :: TokensView
  st_Email :: EmailView

definition SetInt :: "'k env \<Rightarrow> string \<Rightarrow> int \<Rightarrow> tx \<Rightarrow> tx \<times> (err + unit)" where
  "SetInt E key value = configSet E key (JInt value)"

definition SetBool :: "'k env \<Rightarrow> string \<Rightarrow> bool \<Rightarrow> tx \<Rightarrow> tx \<times> (err + unit)" where
  "SetBool E key value = configSet E key (JBool value)"

definition SetString :: "'k env \<Rightarrow> string \<Rightarrow> string \<Rightarrow> tx \<Rightarrow> tx \<times> (err + unit)" where
  "SetString E key value = configSet E key (JStr value)"

text \<open>An ignored error: the getter has returned the zero value.\<close>

definition readOr :: "'a \<Rightarrow> tx \<times> (err + 'a) \<Rightarrow> 'a" where
  "readOr zero r = (case snd r of Inl e \<Rightarrow> zero | Inr v \<Rightarrow> v)"

definition readNullableString :: "'k env \<Rightarrow> string \<Rightarrow> db \<Rightarrow> string" where
  "readNullableString E key d =
     (if readOr False (IsNull E key (pool d)) then [] else readOr [] (GetString E key (pool d)))"

text \<open>\<open>Settings\<close> never returns an error. Every read runs on the pool.\<close>

definition readSettings :: "'k env \<Rightarrow> db \<Rightarrow> Settings" where
  "readSettings E d =
     \<lparr>st_General = \<lparr>gv_InstanceName = readOr [] (InstanceName E (pool d))\<rparr>,
      st_Security =
        \<lparr>sv_MFARequired = readOr False (GetBool E ''mfa_required'' (pool d)),
         sv_PasswordMinLength = readOr 0 (GetInt E ''password_min_length'' (pool d)),
         sv_PasswordRequireUpper = readOr False (GetBool E ''password_require_upper'' (pool d)),
         sv_PasswordRequireDigit = readOr False (GetBool E ''password_require_digit'' (pool d)),
         sv_LockoutThreshold = readOr 0 (GetInt E ''lockout_threshold'' (pool d)),
         sv_LockoutDurationSecs = readOr 0 (GetInt E ''lockout_duration_secs'' (pool d))\<rparr>,
      st_Tokens =
        \<lparr>tv_AccessTokenTTLSecs = readOr 0 (GetInt E ''access_token_ttl_secs'' (pool d)),
         tv_RefreshTokenTTLSecs = readOr 0 (GetInt E ''refresh_token_ttl_secs'' (pool d))\<rparr>,
      st_Email =
        \<lparr>ev_SMTPHost = readNullableString E ''smtp_host'' d,
         ev_SMTPPort = readOr 0 (GetInt E ''smtp_port'' (pool d)),
         ev_SMTPUsername = readNullableString E ''smtp_username'' d,
         ev_SMTPPasswordSet = (\<not> readOr False (IsNull E ''smtp_password'' (pool d))),
         ev_SMTPFrom = readNullableString E ''smtp_from'' d\<rparr>\<rparr>"

section \<open>Requests and their validation\<close>

record SecurityPatch =
  sp_MFARequired :: "bool option"
  sp_PasswordMinLength :: "int option"
  sp_PasswordRequireUpper :: "bool option"
  sp_PasswordRequireDigit :: "bool option"
  sp_LockoutThreshold :: "int option"
  sp_LockoutDurationSecs :: "int option"

record TokensPatch =
  tp_AccessTokenTTLSecs :: "int option"
  tp_RefreshTokenTTLSecs :: "int option"

record EmailPatch =
  ep_SMTPHost :: "string option"
  ep_SMTPPort :: "int option"
  ep_SMTPUsername :: "string option"
  ep_SMTPPassword :: "string option"
  ep_SMTPFrom :: "string option"

text \<open>The bytes that end a line of a mail header, or a string in C.\<close>

definition lineBreakers :: string where
  "lineBreakers = [CHR 0x0D, CHR 0x0A, CHR 0x00]"

text \<open>The result of a validator is the code of the error.\<close>

definition ValidateGeneralSettings :: "string \<Rightarrow> string option" where
  "ValidateGeneralSettings instanceName =
     (let name = trimSpace instanceName
      in if name = [] then Some ''INSTANCE_NAME_REQUIRED''
         else if length name > 64 then Some ''INSTANCE_NAME_TOO_LONG''
         else if containsAny name lineBreakers then Some ''INSTANCE_NAME_INVALID''
         else None)"

definition outOfRange :: "int \<Rightarrow> int \<Rightarrow> int option \<Rightarrow> bool" where
  "outOfRange lo hi p = (case p of None \<Rightarrow> False | Some v \<Rightarrow> v < lo \<or> v > hi)"

definition ValidateSecuritySettings :: "SecurityPatch \<Rightarrow> string option" where
  "ValidateSecuritySettings s =
     (if outOfRange 8 128 (sp_PasswordMinLength s) then Some ''PASSWORD_MIN_LENGTH_OUT_OF_RANGE''
      else if outOfRange 1 50 (sp_LockoutThreshold s) then Some ''LOCKOUT_THRESHOLD_OUT_OF_RANGE''
      else if outOfRange 60 86400 (sp_LockoutDurationSecs s) then Some ''LOCKOUT_DURATION_OUT_OF_RANGE''
      else None)"

definition ValidateTokenSettings :: "TokensPatch \<Rightarrow> string option" where
  "ValidateTokenSettings s =
     (if outOfRange 300 3600 (tp_AccessTokenTTLSecs s) then Some ''ACCESS_TOKEN_TTL_OUT_OF_RANGE''
      else if outOfRange 3600 604800 (tp_RefreshTokenTTLSecs s) then Some ''REFRESH_TOKEN_TTL_OUT_OF_RANGE''
      else None)"

text \<open>\<open>parsedName\<close> is the display name of an address that \<open>mail.ParseAddress\<close> accepts.\<close>

definition validateHost :: "string \<Rightarrow> string option" where
  "validateHost raw =
     (let h = trimSpace raw
      in if h = [] then Some ''SMTP_HOST_REQUIRED'' else if length h > 253 then Some ''SMTP_HOST_TOO_LONG'' else None)"

definition validateFrom :: "'k env \<Rightarrow> (string \<Rightarrow> string) \<Rightarrow> string \<Rightarrow> string option" where
  "validateFrom E parsedName raw =
     (let addr = trimSpace raw
      in if addr = [] then Some ''SMTP_FROM_REQUIRED''
         else if containsAny addr lineBreakers then Some ''SMTP_FROM_INVALID''
         else if \<not> e_mail_parse E addr then Some ''SMTP_FROM_INVALID''
         else if containsAny (parsedName addr) lineBreakers then Some ''SMTP_FROM_INVALID''
         else None)"

definition ValidateEmailSettings :: "'k env \<Rightarrow> (string \<Rightarrow> string) \<Rightarrow> EmailPatch \<Rightarrow> string option" where
  "ValidateEmailSettings E parsedName s =
     (case Option.bind (ep_SMTPHost s) validateHost of
        Some code \<Rightarrow> Some code
      | None \<Rightarrow>
          if outOfRange 1 65535 (ep_SMTPPort s) then Some ''SMTP_PORT_OUT_OF_RANGE''
          else if (case ep_SMTPUsername s of None \<Rightarrow> False | Some u \<Rightarrow> length u > 320) then Some ''SMTP_USERNAME_TOO_LONG''
          else Option.bind (ep_SMTPFrom s) (validateFrom E parsedName))"

section \<open>Changes\<close>

datatype newValue = NBool bool | NInt int | NStr string | NSecret string

record change =
  cg_key :: string
  cg_meta :: "(string \<times> metaval) list"
  cg_value :: newValue

text \<open>The closure \<open>write\<close> of a change.\<close>

fun writeChange :: "'k env \<Rightarrow> bytes \<Rightarrow> string \<Rightarrow> newValue \<Rightarrow> tx \<Rightarrow> tx \<times> (err + unit)" where
  "writeChange E encryptionKey key (NBool b) t = SetBool E key b t"
| "writeChange E encryptionKey key (NInt n) t = SetInt E key n t"
| "writeChange E encryptionKey key (NStr s) t = SetString E key s t"
| "writeChange E encryptionKey key (NSecret s) t = SetEncryptedValue E encryptionKey key s t"

definition changed :: "string \<Rightarrow> ('a \<Rightarrow> metaval) \<Rightarrow> ('a \<Rightarrow> newValue) \<Rightarrow> 'a option \<Rightarrow> 'a \<Rightarrow> change list" where
  "changed key m n new old =
     (case new of
        None \<Rightarrow> []
      | Some v \<Rightarrow>
          if v \<noteq> old
          then [\<lparr>cg_key = key, cg_meta = [(''old_value'', m old), (''new_value'', m v)], cg_value = n v\<rparr>] else [])"

definition securityChanges :: "SecurityPatch \<Rightarrow> SecurityView \<Rightarrow> change list" where
  "securityChanges s pre =
     changed ''mfa_required'' MBool NBool (sp_MFARequired s) (sv_MFARequired pre) @
     changed ''password_min_length'' MInt NInt (sp_PasswordMinLength s) (sv_PasswordMinLength pre) @
     changed ''password_require_upper'' MBool NBool (sp_PasswordRequireUpper s) (sv_PasswordRequireUpper pre) @
     changed ''password_require_digit'' MBool NBool (sp_PasswordRequireDigit s) (sv_PasswordRequireDigit pre) @
     changed ''lockout_threshold'' MInt NInt (sp_LockoutThreshold s) (sv_LockoutThreshold pre) @
     changed ''lockout_duration_secs'' MInt NInt (sp_LockoutDurationSecs s) (sv_LockoutDurationSecs pre)"

definition tokensChanges :: "TokensPatch \<Rightarrow> TokensView \<Rightarrow> change list" where
  "tokensChanges s pre =
     changed ''access_token_ttl_secs'' MInt NInt (tp_AccessTokenTTLSecs s) (tv_AccessTokenTTLSecs pre) @
     changed ''refresh_token_ttl_secs'' MInt NInt (tp_RefreshTokenTTLSecs s) (tv_RefreshTokenTTLSecs pre)"

definition emailChanges :: "EmailPatch \<Rightarrow> EmailView \<Rightarrow> change list" where
  "emailChanges s pre =
     changed ''smtp_host'' MStr NStr (map_option trimSpace (ep_SMTPHost s)) (ev_SMTPHost pre) @
     changed ''smtp_port'' MInt NInt (ep_SMTPPort s) (ev_SMTPPort pre) @
     changed ''smtp_username'' MStr NStr (ep_SMTPUsername s) (ev_SMTPUsername pre) @
     changed ''smtp_from'' MStr NStr (map_option trimSpace (ep_SMTPFrom s)) (ev_SMTPFrom pre) @
     (case ep_SMTPPassword s of
        None \<Rightarrow> []
      | Some v \<Rightarrow>
          if v = [] then []
          else [\<lparr>cg_key = ''smtp_password'', cg_meta = [(''changed'', MBool True)], cg_value = NSecret v\<rparr>])"

section \<open>Handlers\<close>

definition configEntry :: "'k env \<Rightarrow> request \<Rightarrow> User \<Rightarrow> string \<Rightarrow> (string \<times> metaval) list \<Rightarrow> Entry" where
  "configEntry E req actor key meta =
     \<lparr>en_EventType = ''config.'' @ key @ ''.changed'', en_ActorID = Some (u_ID actor), en_ActorEmail = u_Email actor,
      en_TargetType = ''instance_config'', en_TargetID = key, en_ClientID = None, en_IPAddress = clientIP E req,
      en_Outcome = ''success'', en_Metadata = Some meta\<rparr>"

datatype settingsBody =
    AllSettings Settings
  | GeneralBody GeneralView
  | SecurityBody SecurityView
  | TokensBody TokensView
  | EmailBody EmailView
  | Delivered string             \<comment> \<open>\<open>delivered_at\<close>\<close>

definition settingsNoSession :: "'b response" where
  "settingsNoSession = WriteError 401 ''INVALID_SESSION'' ''Not authenticated.''"

definition settingsBadBody :: "'b response" where
  "settingsBadBody = WriteError 400 ''VALIDATION_ERROR'' ''Invalid request body.''"

text \<open>The errors of this package carry a code and no message, so the text is the code.\<close>

definition writeValidationError :: "string \<Rightarrow> 'b response" where
  "writeValidationError code = WriteError 400 code code"

definition GetAll :: "'k env \<Rightarrow> db \<Rightarrow> settingsBody response" where
  "GetAll E d = WriteJSON 200 (AllSettings (readSettings E d))"

fun applyChanges
  :: "'k env \<Rightarrow> bytes \<Rightarrow> request \<Rightarrow> User \<Rightarrow> change list \<Rightarrow> tx \<Rightarrow> settingsBody response + tx \<times> unit" where
  "applyChanges E encryptionKey req actor [] t = Inr (t, ())"
| "applyChanges E encryptionKey req actor (c # cs) t =
     attempt (writeChange E encryptionKey (cg_key c) (cg_value c) t) fail500 (\<lambda>t _.
     attempt (Log E (req_CorrelationID req) (configEntry E req actor (cg_key c) (cg_meta c)) t) fail500 (\<lambda>t _.
     applyChanges E encryptionKey req actor cs t))"

text \<open>The tail the last three handlers share. \<open>view\<close> picks their part of the snapshot.\<close>

definition saveChanges
  :: "'k env \<Rightarrow> bytes \<Rightarrow> request \<Rightarrow> User \<Rightarrow> string \<Rightarrow> (Settings \<Rightarrow> settingsBody) \<Rightarrow> Settings \<Rightarrow> change list \<Rightarrow> db
      \<Rightarrow> db \<times> settingsBody response" where
  "saveChanges E encryptionKey req actor site view pre changes d =
     (if changes = [] then (d, WriteJSON 200 (view pre))
      else case inTx E site (applyChanges E encryptionKey req actor changes) d of
        (d', Inl r) \<Rightarrow> (d', r)
      | (d', Inr _) \<Rightarrow> (d', WriteJSON 200 (view (readSettings E d'))))"

definition generalBody
  :: "'k env \<Rightarrow> request \<Rightarrow> User \<Rightarrow> string \<Rightarrow> string \<Rightarrow> tx \<Rightarrow> settingsBody response + tx \<times> unit" where
  "generalBody E req actor oldName newName t =
     attempt (SetInstanceName E newName t) fail500 (\<lambda>t _.
     attempt (Log E (req_CorrelationID req)
                (configEntry E req actor ''instance_name'' [(''old_value'', MStr oldName), (''new_value'', MStr newName)]) t) fail500 (\<lambda>t _.
     Inr (t, ())))"

definition PatchGeneral
  :: "'k env \<Rightarrow> request \<Rightarrow> User option \<Rightarrow> string option \<Rightarrow> db \<Rightarrow> db \<times> settingsBody response" where
  "PatchGeneral E req cu body d =
     (case cu of
        None \<Rightarrow> (d, settingsNoSession)
      | Some actor \<Rightarrow>
          (case body of
             None \<Rightarrow> (d, settingsBadBody)
           | Some instanceName \<Rightarrow>
               (case ValidateGeneralSettings instanceName of
                  Some code \<Rightarrow> (d, writeValidationError code)
                | None \<Rightarrow>
                    (let newName = trimSpace instanceName in
                     case snd (InstanceName E (pool d)) of
                       Inl e \<Rightarrow> (d, internalError)
                     | Inr oldName \<Rightarrow>
                         if newName = oldName then (d, WriteJSON 200 (GeneralBody (st_General (readSettings E d))))
                         else case inTx E ''settings.PatchGeneral'' (generalBody E req actor oldName newName) d of
                           (d', Inl r) \<Rightarrow> (d', r)
                         | (d', Inr _) \<Rightarrow> (d', WriteJSON 200 (GeneralBody (st_General (readSettings E d'))))))))"

definition PatchSecurity
  :: "'k env \<Rightarrow> bytes \<Rightarrow> request \<Rightarrow> User option \<Rightarrow> SecurityPatch option \<Rightarrow> db \<Rightarrow> db \<times> settingsBody response" where
  "PatchSecurity E encryptionKey req cu body d =
     (case cu of
        None \<Rightarrow> (d, settingsNoSession)
      | Some actor \<Rightarrow>
          (case body of
             None \<Rightarrow> (d, settingsBadBody)
           | Some s \<Rightarrow>
               (case ValidateSecuritySettings s of
                  Some code \<Rightarrow> (d, writeValidationError code)
                | None \<Rightarrow>
                    (let pre = readSettings E d in
                     saveChanges E encryptionKey req actor ''settings.PatchSecurity'' (\<lambda>x. SecurityBody (st_Security x)) pre
                       (securityChanges s (st_Security pre)) d))))"

definition PatchTokens
  :: "'k env \<Rightarrow> bytes \<Rightarrow> request \<Rightarrow> User option \<Rightarrow> TokensPatch option \<Rightarrow> db \<Rightarrow> db \<times> settingsBody response" where
  "PatchTokens E encryptionKey req cu body d =
     (case cu of
        None \<Rightarrow> (d, settingsNoSession)
      | Some actor \<Rightarrow>
          (case body of
             None \<Rightarrow> (d, settingsBadBody)
           | Some s \<Rightarrow>
               (case ValidateTokenSettings s of
                  Some code \<Rightarrow> (d, writeValidationError code)
                | None \<Rightarrow>
                    (let pre = readSettings E d in
                     saveChanges E encryptionKey req actor ''settings.PatchTokens'' (\<lambda>x. TokensBody (st_Tokens x)) pre
                       (tokensChanges s (st_Tokens pre)) d))))"

definition PatchEmail
  :: "'k env \<Rightarrow> bytes \<Rightarrow> (string \<Rightarrow> string) \<Rightarrow> request \<Rightarrow> User option \<Rightarrow> EmailPatch option \<Rightarrow> db \<Rightarrow> db \<times> settingsBody response" where
  "PatchEmail E encryptionKey parsedName req cu body d =
     (case cu of
        None \<Rightarrow> (d, settingsNoSession)
      | Some actor \<Rightarrow>
          (case body of
             None \<Rightarrow> (d, settingsBadBody)
           | Some s \<Rightarrow>
               (case ValidateEmailSettings E parsedName s of
                  Some code \<Rightarrow> (d, writeValidationError code)
                | None \<Rightarrow>
                    (let pre = readSettings E d in
                     saveChanges E encryptionKey req actor ''settings.PatchEmail'' (\<lambda>x. EmailBody (st_Email x)) pre
                       (emailChanges s (st_Email pre)) d))))"

end
