(* ===== verification/Mail.thy ===== *)
theory Mail
  imports SettingsAdmin
begin

text \<open>
  \<^verbatim>\<open>internal/mail/mail.go\<close> and the test of the mail settings: the sender built from the stored
  configuration, the message, and the dialogue with the server. The templates, the clock and the
  server are parameters (\<open>mailEnv\<close>). An error is the text the code wraps it in.
\<close>

datatype smtpStep =
    Dial string
  | NewClient string
  | StartTLS string
  | AuthPlain string string string
  | MailFrom string
  | RcptTo string
  | Data
  | WriteBody string
  | CloseBody

record mailEnv =
  me_parse :: "string \<Rightarrow> string option"                                \<comment> \<open>the error of \<open>ParseFS\<close>\<close>
  me_render :: "string \<Rightarrow> (string \<times> string) list \<Rightarrow> string + string"     \<comment> \<open>error or text\<close>
  me_stamp :: string                                                  \<comment> \<open>the time in the boundary\<close>
  me_rfc3339 :: string
  me_starttls :: bool
  me_smtp :: "smtpStep \<Rightarrow> string option"                               \<comment> \<open>the error of a step\<close>

record Sender =
  sd_host :: string
  sd_port :: int
  sd_username :: string
  sd_password :: string
  sd_from :: string

datatype senderError = ErrSMTPConfigIncomplete | SenderError

definition NewSenderFromConfig :: "'k env \<Rightarrow> bytes \<Rightarrow> mailEnv \<Rightarrow> db \<Rightarrow> senderError + Sender" where
  "NewSenderFromConfig E encryptionKey M d =
     (let email = st_Email (readSettings E d)
      in if ev_SMTPHost email = [] \<or> ev_SMTPPort email = 0 \<or> ev_SMTPFrom email = [] then Inl ErrSMTPConfigIncomplete
         else case snd (EncryptedValue E encryptionKey ''smtp_password'' (pool d)) of
           Inl e \<Rightarrow> Inl SenderError
         | Inr pw \<Rightarrow>
             if me_parse M ''templates/*.html.tmpl'' \<noteq> None \<or> me_parse M ''templates/*.txt.tmpl'' \<noteq> None then Inl SenderError
             else Inr \<lparr>sd_host = ev_SMTPHost email, sd_port = ev_SMTPPort email, sd_username = ev_SMTPUsername email,
                        sd_password = pw, sd_from = ev_SMTPFrom email\<rparr>)"

section \<open>The message\<close>

definition crlf :: string where "crlf = [CHR 0x0D, CHR 0x0A]"

definition mailBoundary :: "mailEnv \<Rightarrow> string" where
  "mailBoundary M = ''schlass-'' @ me_stamp M"

definition mailMessage :: "string \<Rightarrow> string \<Rightarrow> string \<Rightarrow> string \<Rightarrow> string \<Rightarrow> string \<Rightarrow> string" where
  "mailMessage from to subject boundary html txt =
     ''From: '' @ from @ crlf @
     ''To: '' @ to @ crlf @
     ''Subject: '' @ subject @ crlf @
     ''MIME-Version: 1.0'' @ crlf @
     ''Content-Type: multipart/alternative; boundary='' @ boundary @ crlf @
     crlf @
     ''--'' @ boundary @ crlf @
     ''Content-Type: text/plain; charset=utf-8'' @ crlf @ crlf @
     txt @
     crlf @ ''--'' @ boundary @ crlf @
     ''Content-Type: text/html; charset=utf-8'' @ crlf @ crlf @
     html @
     crlf @ ''--'' @ boundary @ ''--'' @ crlf"

text \<open>The dialogue: the steps in their order, each with the prefix of its error.\<close>

definition smtpDialogue :: "mailEnv \<Rightarrow> Sender \<Rightarrow> string \<Rightarrow> string \<Rightarrow> (string \<times> smtpStep) list" where
  "smtpDialogue M s to msg =
     [(''dial smtp: '', Dial (sd_host s @ '':'' @ showInt (sd_port s))), (''smtp client: '', NewClient (sd_host s))] @
     (if me_starttls M then [(''starttls: '', StartTLS (sd_host s))] else []) @
     (if sd_username s \<noteq> [] then [(''auth: '', AuthPlain (sd_username s) (sd_password s) (sd_host s))] else []) @
     [(''mail from: '', MailFrom (sd_from s)), (''rcpt: '', RcptTo to), (''data: '', Data), (''write body: '', WriteBody msg),
      (''close body: '', CloseBody)]"

text \<open>What the server has on record: sender, recipients and message of the transaction, and whether the end of the data
  was acknowledged. A new \<^verbatim>\<open>MAIL\<close> command starts over.\<close>

record envelope =
  ve_From :: string
  ve_To :: "string list"
  ve_Data :: string
  ve_Accepted :: bool

fun smtpEffect :: "smtpStep \<Rightarrow> envelope \<Rightarrow> envelope" where
  "smtpEffect (MailFrom a) v = \<lparr>ve_From = a, ve_To = [], ve_Data = [], ve_Accepted = False\<rparr>"
| "smtpEffect (RcptTo a) v = v\<lparr>ve_To := ve_To v @ [a]\<rparr>"
| "smtpEffect (WriteBody b) v = v\<lparr>ve_Data := ve_Data v @ b\<rparr>"
| "smtpEffect CloseBody v = v\<lparr>ve_Accepted := True\<rparr>"
| "smtpEffect _ v = v"

fun runDialogue :: "mailEnv \<Rightarrow> (string \<times> smtpStep) list \<Rightarrow> envelope \<Rightarrow> string + envelope" where
  "runDialogue M [] v = Inr v"
| "runDialogue M ((what, step) # rest) v =
     (case me_smtp M step of Some e \<Rightarrow> Inl (what @ e) | None \<Rightarrow> runDialogue M rest (smtpEffect step v))"

definition noMail :: envelope where
  "noMail = \<lparr>ve_From = [], ve_To = [], ve_Data = [], ve_Accepted = False\<rparr>"

text \<open>The result is an error, or what the server has taken.\<close>

definition sendMail :: "mailEnv \<Rightarrow> Sender \<Rightarrow> string \<Rightarrow> string \<Rightarrow> string \<Rightarrow> string \<Rightarrow> string + envelope" where
  "sendMail M s to subject html txt =
     runDialogue M (smtpDialogue M s to (mailMessage (sd_from s) to subject (mailBoundary M) html txt)) noMail"

definition renderAndSend
  :: "mailEnv \<Rightarrow> Sender \<Rightarrow> string \<Rightarrow> string \<Rightarrow> string \<Rightarrow> (string \<times> string) list \<Rightarrow> string + envelope" where
  "renderAndSend M s to subject name vars =
     (case me_render M (name @ ''.html.tmpl'') vars of
        Inl e \<Rightarrow> Inl (''render html: '' @ e)
      | Inr html \<Rightarrow>
          (case me_render M (name @ ''.txt.tmpl'') vars of
             Inl e \<Rightarrow> Inl (''render text: '' @ e)
           | Inr txt \<Rightarrow> sendMail M s to subject html txt))"

definition TestConnection :: "mailEnv \<Rightarrow> Sender \<Rightarrow> string \<Rightarrow> string \<Rightarrow> string + envelope" where
  "TestConnection M s to instanceName =
     renderAndSend M s to (''Schlass SMTP test '' @ [CHR 0xE2, CHR 0x80, CHR 0x94] @ '' '' @ instanceName) ''test_connection''
       [(''InstanceName'', instanceName), (''SentAt'', me_rfc3339 M)]"

definition localPart :: "string \<Rightarrow> string" where
  "localPart to =
     (let before = takeWhile (\<lambda>c. c \<noteq> CHR ''@'') to in if before \<noteq> [] \<and> length before < length to then before else to)"

definition SendPasswordReset :: "mailEnv \<Rightarrow> Sender \<Rightarrow> string \<Rightarrow> string \<Rightarrow> string \<Rightarrow> string \<Rightarrow> string + envelope" where
  "SendPasswordReset M s to token instanceName publicURL =
     renderAndSend M s to (''Reset your '' @ instanceName @ '' password'') ''password_reset''
       [(''InstanceName'', instanceName), (''EmailLocalPart'', localPart to), (''ResetURL'', publicURL @ ''/reset-password/'' @ token)]"

definition SendPasswordChanged :: "mailEnv \<Rightarrow> Sender \<Rightarrow> string \<Rightarrow> string \<Rightarrow> string + envelope" where
  "SendPasswordChanged M s to instanceName =
     renderAndSend M s to (''Your '' @ instanceName @ '' password was changed'') ''password_changed''
       [(''InstanceName'', instanceName), (''EmailLocalPart'', localPart to)]"

section \<open>Testing the settings\<close>

definition categorizeSMTPError :: "string \<Rightarrow> string \<times> string" where
  "categorizeSMTPError s =
     (if contains s ''dial smtp'' then (''SMTP_DIAL_FAILED'', ''Could not reach the SMTP server. Check host and port.'')
      else if contains s ''starttls'' then (''SMTP_TLS_FAILED'', ''TLS handshake failed. Check the server certificate and port.'')
      else if contains s ''auth'' then (''SMTP_AUTH_FAILED'', ''SMTP authentication failed. Check username and password.'')
      else if contains s ''mail from'' \<or> contains s ''rcpt''
      then (''SMTP_ADDRESS_REJECTED'', ''The server rejected the sender or recipient address.'')
      else (''SMTP_DELIVERY_FAILED'', ''SMTP delivery failed. Check server logs for details.''))"

definition instanceNameOr :: "'k env \<Rightarrow> db \<Rightarrow> string" where
  "instanceNameOr E d =
     (let name = readOr [] (InstanceName E (pool d)) in if name = [] then ''Schlass'' else name)"

text \<open>With the mails that were sent.\<close>

definition TestEmail
  :: "'k env \<Rightarrow> bytes \<Rightarrow> mailEnv \<Rightarrow> User option \<Rightarrow> db \<Rightarrow> envelope list \<times> settingsBody response" where
  "TestEmail E encryptionKey M cu d =
     (case cu of
        None \<Rightarrow> ([], settingsNoSession)
      | Some actor \<Rightarrow>
          (case NewSenderFromConfig E encryptionKey M d of
             Inl e \<Rightarrow>
               ([], if e = ErrSMTPConfigIncomplete
                    then WriteError 400 ''SMTP_CONFIG_INCOMPLETE'' ''Complete and save the SMTP configuration before testing.''
                    else internalError)
           | Inr s \<Rightarrow>
               (case TestConnection M s (u_Email actor) (instanceNameOr E d) of
                  Inl e \<Rightarrow> ([], case categorizeSMTPError e of (code, msg) \<Rightarrow> WriteError 502 code msg)
                | Inr m \<Rightarrow> ([m], WriteJSON 200 (Delivered (me_rfc3339 M))))))"

end
