(* ===== verification/Setup.thy ===== *)
theory Setup
  imports ClientsAdmin PasswordReset Mail
begin

text \<open>
  What runs beside the requests of users: the first-boot wizard (\<^verbatim>\<open>internal/server/setup.go\<close> and
  \<^verbatim>\<open>setup_request.go\<close>), the client for development (\<^verbatim>\<open>bootstrap.go\<close>), the nightly sweeper
  (\<^verbatim>\<open>sweeper.go\<close>), the recovery command of the operator (\<^verbatim>\<open>internal/recovery/reset.go\<close>) and the
  mails that the password reset sends in the background. The wizard is split at its \<open>Begin\<close>: what it
  read before is a value, so that two of them can be interleaved.
\<close>

section \<open>The first-boot wizard\<close>

record SetupRequest =
  sr_Email :: string
  sr_Password :: string
  sr_ConfirmPassword :: string
  sr_InstanceName :: string

text \<open>Code and message of the error.\<close>

definition SetupValidate :: "'k env \<Rightarrow> SetupRequest \<Rightarrow> PasswordPolicy \<Rightarrow> (string \<times> string) option" where
  "SetupValidate E r policy =
     (case validateEmail E (sr_Email r) of
        Some msg \<Rightarrow> Some (''VALIDATION_ERROR'', msg)
      | None \<Rightarrow>
          (case validatePassword E (sr_Password r) policy of
             Some msg \<Rightarrow> Some (''PASSWORD_POLICY_VIOLATION'', msg)
           | None \<Rightarrow>
               if sr_Password r \<noteq> sr_ConfirmPassword r then Some (''VALIDATION_ERROR'', ''passwords do not match'')
               else if sr_InstanceName r = [] then Some (''VALIDATION_ERROR'', ''instance name is required'')
               else if length (sr_InstanceName r) > 128
               then Some (''VALIDATION_ERROR'', ''instance name must not exceed 128 characters'')
               else None))"

datatype setupBody = SetupRequired | SetupRedirect

definition setupComplete :: "'b response" where
  "setupComplete = WriteError 404 ''SETUP_ALREADY_COMPLETE'' ''Setup has already been completed.''"

definition GetSetup :: "'k env \<Rightarrow> db \<Rightarrow> setupBody response" where
  "GetSetup E d =
     (case snd (IsSetupComplete E (pool d)) of
        Inl e \<Rightarrow> internalError
      | Inr complete \<Rightarrow> if complete then setupComplete else WriteJSON 200 SetupRequired)"

text \<open>Up to the transaction: the request and the hash of its password.\<close>

definition setupPrepare
  :: "'k env \<Rightarrow> string option \<Rightarrow> SetupRequest option \<Rightarrow> db \<Rightarrow> setupBody response + SetupRequest \<times> string" where
  "setupPrepare E hibpChecker body d =
     (case snd (IsSetupComplete E (pool d)) of
        Inl e \<Rightarrow> Inl internalError
      | Inr complete \<Rightarrow>
          if complete then Inl setupComplete
          else case body of
            None \<Rightarrow> Inl (WriteError 400 ''VALIDATION_ERROR'' ''Invalid request body.'')
          | Some r \<Rightarrow>
              (case snd (readPasswordPolicy E (pool d)) of
                 Inl e \<Rightarrow> Inl internalError
               | Inr policy \<Rightarrow>
                   (case SetupValidate E r policy of
                      Some (code, msg) \<Rightarrow> Inl (WriteError 400 code msg)
                    | None \<Rightarrow>
                        if IsPwned E hibpChecker (sr_Password r) = Some True
                        then Inl (WriteError 400 ''PASSWORD_BREACHED''
                               ''This password has appeared in a known data breach. Choose a different one.'')
                        else case HashPassword E ''setup'' 0 (sr_Password r) of
                          None \<Rightarrow> Inl internalError
                        | Some passwordHash \<Rightarrow> Inr (r, passwordHash))))"

definition setupEntry :: "'k env \<Rightarrow> request \<Rightarrow> SetupRequest \<Rightarrow> uuid \<Rightarrow> Entry" where
  "setupEntry E req r uid =
     \<lparr>en_EventType = ''setup.completed'', en_ActorID = Some uid, en_ActorEmail = toLower (sr_Email r),
      en_TargetType = ''instance'', en_TargetID = ''setup'', en_ClientID = None, en_IPAddress = clientIP E req,
      en_Outcome = ''success'', en_Metadata = Some [(''instance_name'', MStr (sr_InstanceName r))]\<rparr>"

definition setupTx :: "'k env \<Rightarrow> request \<Rightarrow> SetupRequest \<Rightarrow> string \<Rightarrow> tx \<Rightarrow> setupBody response + tx \<times> unit" where
  "setupTx E req r passwordHash t =
     attempt (UserCreate E (toLower (sr_Email r)) passwordHash ''super_admin'' False t) fail500 (\<lambda>t uid.
     attempt (SetSetupComplete E t) fail500 (\<lambda>t _.
     attempt (SetInstanceName E (sr_InstanceName r) t) fail500 (\<lambda>t _.
     attempt (Log E (req_CorrelationID req) (setupEntry E req r uid) t) fail500 (\<lambda>t _.
     Inr (t, ())))))"

definition setupCommit :: "'k env \<Rightarrow> request \<Rightarrow> SetupRequest \<times> string \<Rightarrow> db \<Rightarrow> db \<times> setupBody response" where
  "setupCommit E req prepared d =
     (case inTx E ''setup'' (setupTx E req (fst prepared) (snd prepared)) d of
        (d', Inl r) \<Rightarrow> (d', r)
      | (d', Inr _) \<Rightarrow> (d', WriteJSON 200 SetupRedirect))"

definition PostSetup
  :: "'k env \<Rightarrow> string option \<Rightarrow> request \<Rightarrow> SetupRequest option \<Rightarrow> db \<Rightarrow> db \<times> setupBody response" where
  "PostSetup E hibpChecker req body d =
     (case setupPrepare E hibpChecker body d of Inl r \<Rightarrow> (d, r) | Inr prepared \<Rightarrow> setupCommit E req prepared d)"

section \<open>The client for development\<close>

definition devSeedClientName :: string where "devSeedClientName = ''dev-test-client''"

definition devRedirects :: "string \<Rightarrow> string list" where
  "devRedirects publicURL = [publicURL @ ''/oidc/dev-callback'']"

definition refreshDevClient :: "'k env \<Rightarrow> string \<Rightarrow> uuid \<Rightarrow> tx \<Rightarrow> tx \<times> (err + unit)" where
  "refreshDevClient E publicURL cid =
     stmt E ''dev-seed.refresh''
       (\<lambda>d. Inr (d\<lparr>db_clients := map (\<lambda>c. if c_ID c = cid
              then c\<lparr>c_RedirectURIs := devRedirects publicURL, c_AllowedGrantTypes := [''authorization_code'', ''refresh_token''],
                     c_AllowedScopes := [''openid'', ''profile'', ''email'', ''offline_access''],
                     c_TokenEndpointAuthMethod := ''client_secret_post'', c_Status := ''active'', c_UpdatedAt := e_pg_now E\<rparr>
              else c) (db_clients d)\<rparr>, ()))"

definition insertDevClient :: "'k env \<Rightarrow> string \<Rightarrow> string \<Rightarrow> tx \<Rightarrow> tx \<times> (err + uuid)" where
  "insertDevClient E publicURL secretHash =
     stmt E ''dev-seed.insert''
       (\<lambda>d. let c = \<lparr>c_ID = e_new_uuid E ''clients.id'', c_Name = devSeedClientName, c_ClientType = ''confidential'',
              c_SecretHash = Some secretHash, c_SecretHashPrevious = None, c_SecretPreviousExpiresAt = None,
              c_RedirectURIs = devRedirects publicURL, c_AllowedGrantTypes = [''authorization_code'', ''refresh_token''],
              c_AllowedScopes = [''openid'', ''profile'', ''email'', ''offline_access''],
              c_TokenEndpointAuthMethod = ''client_secret_post'', c_Status = ''active'', c_DisabledAt = None,
              c_CreatedByUserID = None, c_CreatedAt = e_pg_now E, c_UpdatedAt = e_pg_now E\<rparr>
          in if list_ex (\<lambda>x. c_ID x = c_ID c) (db_clients d) then Inl ErrUnique
             else Inr (d\<lparr>db_clients := db_clients d @ [c]\<rparr>, c_ID c))"

text \<open>True when it returned without an error.\<close>

definition SeedDevClient :: "'k env \<Rightarrow> string \<Rightarrow> string \<Rightarrow> string \<Rightarrow> db \<Rightarrow> db \<times> bool" where
  "SeedDevClient E dev secretOverride publicURL d =
     (if dev \<noteq> ''1'' then (d, True)
      else if hasPrefix publicURL ''https://'' then (d, True)
      else case snd (query E ''dev-seed.check'' (\<lambda>d. map_option c_ID (find (\<lambda>c. c_Name c = devSeedClientName) (db_clients d))) (pool d)) of
        Inl e \<Rightarrow> (d, False)
      | Inr (Some existingID) \<Rightarrow>
          (case refreshDevClient E publicURL existingID (pool d) of (t, r) \<Rightarrow> (tx_db t, r = Inr ()))
      | Inr None \<Rightarrow>
          (case (if secretOverride \<noteq> [] then Some secretOverride else map_option base64RawURL (e_rand E ''dev-seed'' 0 32)) of
             None \<Rightarrow> (d, False)
           | Some secret \<Rightarrow>
               (case HashPassword E ''dev-seed'' 0 secret of
                  None \<Rightarrow> (d, False)
                | Some secretHash \<Rightarrow>
                    (case insertDevClient E publicURL secretHash (pool d) of
                       (t, Inl e) \<Rightarrow> (tx_db t, False)
                     | (t, Inr cid) \<Rightarrow> (tx_db t, True)))))"

section \<open>The sweeper\<close>

definition sweepDay :: int where "sweepDay = 24 * 3600 * second"

definition sweepResetTokens :: "'k env \<Rightarrow> tx \<Rightarrow> tx \<times> (err + nat)" where
  "sweepResetTokens E =
     stmt E ''sweep.reset''
       (\<lambda>d. let old = (\<lambda>r. prt_ExpiresAt r < e_pg_now E - 30 * sweepDay)
            in Inr (d\<lparr>db_reset_tokens := filter (\<lambda>r. \<not> old r) (db_reset_tokens d)\<rparr>, length (filter old (db_reset_tokens d))))"

definition sweepAuthCodes :: "'k env \<Rightarrow> tx \<Rightarrow> tx \<times> (err + nat)" where
  "sweepAuthCodes E =
     stmt E ''sweep.codes''
       (\<lambda>d. let old = (\<lambda>r. ac_ExpiresAt r < e_pg_now E - 7 * sweepDay)
            in Inr (d\<lparr>db_codes := filter (\<lambda>r. \<not> old r) (db_codes d)\<rparr>, length (filter old (db_codes d))))"

definition sweepEntry :: "nat \<Rightarrow> nat \<Rightarrow> Entry" where
  "sweepEntry resets codes =
     \<lparr>en_EventType = ''password_reset.cleanup_swept'', en_ActorID = None, en_ActorEmail = ''system:sweeper'',
      en_TargetType = ''schedule'', en_TargetID = ''sweeper'', en_ClientID = None, en_IPAddress = [],
      en_Outcome = ''success'', en_Metadata = Some [(''reset_rows_deleted'', MInt (int resets)), (''auth_code_rows_deleted'', MInt (int codes))]\<rparr>"

definition sweepTx :: "'k env \<Rightarrow> tx \<Rightarrow> setupBody response + tx \<times> unit" where
  "sweepTx E t =
     attempt (sweepResetTokens E t) fail500 (\<lambda>t resets.
     attempt (sweepAuthCodes E t) fail500 (\<lambda>t codes.
     attempt (Log E [] (sweepEntry resets codes) t) fail500 (\<lambda>t _.
     Inr (t, ()))))"

text \<open>True when it returned without an error.\<close>

definition RunSweepOnce :: "'k env \<Rightarrow> db \<Rightarrow> db \<times> bool" where
  "RunSweepOnce E d = (case inTx E ''sweep'' (sweepTx E) d of (d', Inl r) \<Rightarrow> (d', False) | (d', Inr _) \<Rightarrow> (d', True))"

text \<open>What the loop selects on: a tick, with the world as it is then, or the end of the context.\<close>

datatype 'k sweepEvent = Tick "'k env" | CtxDone

fun sweeperLoop :: "'k sweepEvent list \<Rightarrow> db \<Rightarrow> db" where
  "sweeperLoop [] d = d"
| "sweeperLoop (CtxDone # evs) d = d"
| "sweeperLoop (Tick E # evs) d = sweeperLoop evs (fst (RunSweepOnce E d))"

definition StartSweeper :: "int \<Rightarrow> 'k sweepEvent list \<Rightarrow> db \<Rightarrow> db" where
  "StartSweeper interval evs d = (if interval \<le> 0 then d else sweeperLoop evs d)"

section \<open>The recovery command\<close>

text \<open>\<open>hkdf\<close> reads 32 bytes of the key derivation with the given key and info string.\<close>

definition DeriveTokenPepper :: "(bytes \<Rightarrow> string \<Rightarrow> bytes option) \<Rightarrow> bytes \<Rightarrow> bytes option" where
  "DeriveTokenPepper hkdf kek =
     (if length kek \<noteq> 32 then None else hkdf kek ''password_reset_token_hmac_pepper'')"

definition recoveryTokenTTL :: int where "recoveryTokenTTL = 3600 * second"

record invoker =
  iv_hostname :: string
  iv_osUser :: string
  iv_stdout :: bool              \<comment> \<open>the standard output takes the line\<close>

definition invokerInfo :: "invoker \<Rightarrow> metaval" where
  "invokerInfo iv = MMap [(''hostname'', MStr (iv_hostname iv)), (''os_user'', MStr (iv_osUser iv))]"

definition recoveryTx
  :: "'k env \<Rightarrow> invoker \<Rightarrow> bytes \<Rightarrow> User \<Rightarrow> string \<Rightarrow> tx \<Rightarrow> setupBody response + tx \<times> unit" where
  "recoveryTx E iv pepper u plaintext t =
     attempt (ResetInsert E pepper (u_ID u) plaintext recoveryTokenTTL None t) fail500 (\<lambda>t tokenID.
     attempt (Log E [] \<lparr>en_EventType = ''password_reset.recovery_issued'', en_ActorID = None, en_ActorEmail = ''system:recovery'',
                en_TargetType = ''user'', en_TargetID = e_uuid_string E (u_ID u), en_ClientID = None, en_IPAddress = [],
                en_Outcome = ''success'', en_Metadata = Some [(''token_id'', MStr (e_uuid_string E tokenID)),
                  (''target_email'', MStr (u_Email u)), (''invoker'', invokerInfo iv)]\<rparr> t) fail500 (\<lambda>t _.
     Inr (t, ())))"

text \<open>The line written to the standard output, or \<open>None\<close> for an error; writing it comes after the commit.\<close>

definition RecoveryExecute
  :: "'k env \<Rightarrow> (bytes \<Rightarrow> string \<Rightarrow> bytes option) \<Rightarrow> invoker \<Rightarrow> bytes \<Rightarrow> string \<Rightarrow> string \<Rightarrow> db \<Rightarrow> db \<times> string option" where
  "RecoveryExecute E hkdf iv encryptionKey publicURL email d =
     (case snd (UserGetByEmail E email (pool d)) of
        Inl e \<Rightarrow> (d, None)
      | Inr u \<Rightarrow>
          if u_Role u \<noteq> ''super_admin'' then (d, None)
          else case DeriveTokenPepper hkdf encryptionKey of
            None \<Rightarrow> (d, None)
          | Some pepper \<Rightarrow>
              (case e_rand E ''recovery'' 0 32 of
                 None \<Rightarrow> (d, None)
               | Some raw \<Rightarrow>
                   (case inTx E ''recovery'' (recoveryTx E iv pepper u (base64RawURL raw)) d of
                      (d', Inl r) \<Rightarrow> (d', None)
                    | (d', Inr _) \<Rightarrow>
                        (d', if iv_stdout iv
                             then Some (''Reset URL: '' @ trimRight publicURL ''/'' @ ''/reset-password/'' @ base64RawURL raw @ [CHR 0x0A])
                             else None))))"

text \<open>\<open>flagEmail\<close> is the parsed flag, \<open>config\<close> what \<open>Load\<close> returned.\<close>

definition RecoveryRun
  :: "'k env \<Rightarrow> (bytes \<Rightarrow> string \<Rightarrow> bytes option) \<Rightarrow> invoker \<Rightarrow> string option \<Rightarrow> string \<Rightarrow> (bytes \<times> string) option \<Rightarrow> db
      \<Rightarrow> db \<times> string option" where
  "RecoveryRun E hkdf iv flagEmail recoveryMode config d =
     (case flagEmail of
        None \<Rightarrow> (d, None)
      | Some email \<Rightarrow>
          if email = [] \<or> recoveryMode \<noteq> ''1'' then (d, None)
          else case config of
            None \<Rightarrow> (d, None)
          | Some (encryptionKey, publicURL) \<Rightarrow>
              RecoveryExecute E hkdf iv encryptionKey publicURL (toLower (trimSpace email)) d)"

section \<open>The mails of the password reset\<close>

text \<open>The goroutines of the handlers; they run when the handler has answered.\<close>

definition sendResetEmail
  :: "'k env \<Rightarrow> bytes \<Rightarrow> mailEnv \<Rightarrow> string \<Rightarrow> string \<Rightarrow> string \<Rightarrow> db \<Rightarrow> envelope option" where
  "sendResetEmail E encryptionKey M publicURL to token d =
     (case NewSenderFromConfig E encryptionKey M d of
        Inl e \<Rightarrow> None
      | Inr s \<Rightarrow> (case SendPasswordReset M s to token (instanceNameOr E d) publicURL of Inl e \<Rightarrow> None | Inr m \<Rightarrow> Some m))"

definition sendPasswordChangedEmail :: "'k env \<Rightarrow> bytes \<Rightarrow> mailEnv \<Rightarrow> string \<Rightarrow> db \<Rightarrow> envelope option" where
  "sendPasswordChangedEmail E encryptionKey M to d =
     (case NewSenderFromConfig E encryptionKey M d of
        Inl e \<Rightarrow> None
      | Inr s \<Rightarrow> (case SendPasswordChanged M s to (instanceNameOr E d) of Inl e \<Rightarrow> None | Inr m \<Rightarrow> Some m))"

definition deliverJob :: "'k env \<Rightarrow> bytes \<Rightarrow> mailEnv \<Rightarrow> string \<Rightarrow> mailJob \<Rightarrow> db \<Rightarrow> envelope option" where
  "deliverJob E encryptionKey M publicURL job d =
     (case job of
        ResetMail to token \<Rightarrow> sendResetEmail E encryptionKey M publicURL to token d
      | ChangedMail to \<Rightarrow> sendPasswordChangedEmail E encryptionKey M to d)"

end
