(* ===== verification/EnvConfig.thy ===== *)
theory EnvConfig
  imports ClientsAdmin
begin

text \<open>
  The process configuration of \<^verbatim>\<open>internal/config/env.go\<close>. \<open>getenv\<close> is the environment after
  \<^verbatim>\<open>godotenv\<close> has added what a \<^verbatim>\<open>.env\<close> file says; an unset variable reads as the empty string. Errors
  are values that carry what the message of the source prints.
\<close>

section \<open>Padded base64\<close>

text \<open>\<^verbatim>\<open>base64.StdEncoding.DecodeString\<close>: line breaks are skipped, and the padding must fill the last
  group of four.\<close>

definition b64DecodeStd :: "string \<Rightarrow> bytes option" where
  "b64DecodeStd s =
     (let cs = filter (\<lambda>c. c \<noteq> CHR 0x0A \<and> c \<noteq> CHR 0x0D) s;
          digits = takeWhile (\<lambda>c. c \<noteq> CHR ''='') cs; padding = drop (length digits) cs
      in if length cs mod 4 = 0 \<and> length padding \<le> 2 \<and> list_all (\<lambda>c. c = CHR ''='') padding
         then b64DecodeRaw b64StdAlphabet digits else None)"

section \<open>Loading\<close>

record Env =
  cfg_DatabaseURL :: string
  cfg_MigrationsDatabaseURL :: string
  cfg_ValkeyURL :: string
  cfg_EncryptionKey :: bytes
  cfg_Port :: string
  cfg_SchlassPublicURL :: string
  cfg_LoginRateLimit :: int
  cfg_MfaChallengeRateLimit :: int
  cfg_PasswordResetRateLimit :: int
  cfg_AuthorizeRateLimit :: int
  cfg_UserinfoRateLimit :: int
  cfg_TokenRateLimit :: int
  cfg_HIBPEnabled :: bool
  cfg_HIBPEndpoint :: string
  cfg_HIBPTimeoutMS :: int
  cfg_SweeperIntervalSecs :: int

datatype loadError =
    MissingVariables "string list"
  | KeyNotBase64
  | KeyLength nat
  | PublicURLParse string
  | PublicURLScheme string
  | PublicURLHost string
  | NotNonNegative string string    \<comment> \<open>variable and value\<close>
  | NotBooleanLike string

definition requiredVariables :: "string list" where
  "requiredVariables =
     [''SCHLASS_DATABASE_URL'', ''SCHLASS_MIGRATIONS_DATABASE_URL'', ''SCHLASS_VALKEY_URL'', ''SCHLASS_ENCRYPTION_KEY'']"

definition loadKey :: "string \<Rightarrow> loadError + bytes" where
  "loadKey encKeyB64 =
     (case b64DecodeStd encKeyB64 of
        None \<Rightarrow> Inl KeyNotBase64
      | Some key \<Rightarrow> if length key \<noteq> 32 then Inl (KeyLength (length key)) else Inr key)"

definition loadPublicURL :: "'k env \<Rightarrow> string \<Rightarrow> loadError + string" where
  "loadPublicURL E publicURL =
     (if publicURL = [] then Inr ''http://localhost:3000''
      else case e_url_parse E publicURL of
        None \<Rightarrow> Inl (PublicURLParse (e_url_error E publicURL))
      | Some u \<Rightarrow>
          if url_Scheme u \<noteq> ''http'' \<and> url_Scheme u \<noteq> ''https'' then Inl (PublicURLScheme publicURL)
          else if url_Host u = [] then Inl (PublicURLHost publicURL)
          else Inr publicURL)"

definition loadInt :: "(string \<Rightarrow> string) \<Rightarrow> string \<Rightarrow> int \<Rightarrow> loadError + int" where
  "loadInt getenv name dflt =
     (if getenv name = [] then Inr dflt
      else case atoi (getenv name) of
        None \<Rightarrow> Inl (NotNonNegative name (getenv name))
      | Some n \<Rightarrow> if n < 0 then Inl (NotNonNegative name (getenv name)) else Inr n)"

definition loadBool :: "string \<Rightarrow> loadError + bool" where
  "loadBool raw =
     (let v = toLower (trimSpace raw)
      in if raw = [] then Inr True
         else if v \<in> {''false'', ''0'', ''off'', ''no''} then Inr False
         else if v \<in> {''true'', ''1'', ''on'', ''yes''} then Inr True
         else Inl (NotBooleanLike raw))"

definition andThen :: "'e + 'a \<Rightarrow> ('a \<Rightarrow> 'e + 'b) \<Rightarrow> 'e + 'b" where
  "andThen x f = (case x of Inl e \<Rightarrow> Inl e | Inr v \<Rightarrow> f v)"

definition Load :: "'k env \<Rightarrow> (string \<Rightarrow> string) \<Rightarrow> loadError + Env" where
  "Load E getenv =
     (let missing = filter (\<lambda>v. getenv v = []) requiredVariables
      in if missing \<noteq> [] then Inl (MissingVariables missing)
         else
           andThen (loadKey (getenv ''SCHLASS_ENCRYPTION_KEY'')) (\<lambda>key.
           andThen (loadPublicURL E (getenv ''SCHLASS_PUBLIC_URL'')) (\<lambda>publicURL.
           andThen (loadInt getenv ''SCHLASS_LOGIN_RATE_LIMIT'' 5) (\<lambda>login.
           andThen (loadInt getenv ''SCHLASS_MFA_CHALLENGE_RATE_LIMIT'' 5) (\<lambda>mfa.
           andThen (loadInt getenv ''SCHLASS_PASSWORD_RESET_RATE_LIMIT'' 5) (\<lambda>reset.
           andThen (loadInt getenv ''SCHLASS_AUTHORIZE_RATE_LIMIT'' 60) (\<lambda>authorize.
           andThen (loadInt getenv ''SCHLASS_USERINFO_RATE_LIMIT'' 60) (\<lambda>userinfo.
           andThen (loadInt getenv ''SCHLASS_TOKEN_RATE_LIMIT'' 60) (\<lambda>token.
           andThen (loadBool (getenv ''SCHLASS_HIBP_ENABLED'')) (\<lambda>hibp.
           andThen (loadInt getenv ''SCHLASS_HIBP_TIMEOUT_MS'' 1500) (\<lambda>timeout.
           andThen (loadInt getenv ''SCHLASS_SWEEPER_INTERVAL_SECS'' 86400) (\<lambda>sweeper.
           Inr \<lparr>cfg_DatabaseURL = getenv ''SCHLASS_DATABASE_URL'',
                cfg_MigrationsDatabaseURL = getenv ''SCHLASS_MIGRATIONS_DATABASE_URL'',
                cfg_ValkeyURL = getenv ''SCHLASS_VALKEY_URL'', cfg_EncryptionKey = key,
                cfg_Port = (if getenv ''SCHLASS_PORT'' = [] then ''3000'' else getenv ''SCHLASS_PORT''),
                cfg_SchlassPublicURL = publicURL, cfg_LoginRateLimit = login, cfg_MfaChallengeRateLimit = mfa,
                cfg_PasswordResetRateLimit = reset, cfg_AuthorizeRateLimit = authorize, cfg_UserinfoRateLimit = userinfo,
                cfg_TokenRateLimit = token, cfg_HIBPEnabled = hibp,
                cfg_HIBPEndpoint = (if getenv ''SCHLASS_HIBP_ENDPOINT'' = [] then ''https://api.pwnedpasswords.com/range''
                                    else getenv ''SCHLASS_HIBP_ENDPOINT''),
                cfg_HIBPTimeoutMS = timeout, cfg_SweeperIntervalSecs = sweeper\<rparr>))))))))))))"

section \<open>What a loaded configuration is\<close>

definition in63 :: "int \<Rightarrow> bool" where
  "in63 n = (0 \<le> n \<and> n < 2 ^ 63)"

definition cfgOk :: "'k env \<Rightarrow> Env \<Rightarrow> bool" where
  "cfgOk E cfg =
     (length (cfg_EncryptionKey cfg) = 32 \<and> cfg_DatabaseURL cfg \<noteq> [] \<and> cfg_MigrationsDatabaseURL cfg \<noteq> [] \<and> cfg_ValkeyURL cfg \<noteq> [] \<and>
      cfg_Port cfg \<noteq> [] \<and> cfg_HIBPEndpoint cfg \<noteq> [] \<and>
      list_all in63 [cfg_LoginRateLimit cfg, cfg_MfaChallengeRateLimit cfg, cfg_PasswordResetRateLimit cfg, cfg_AuthorizeRateLimit cfg,
        cfg_UserinfoRateLimit cfg, cfg_TokenRateLimit cfg, cfg_HIBPTimeoutMS cfg, cfg_SweeperIntervalSecs cfg] \<and>
      (cfg_SchlassPublicURL cfg = ''http://localhost:3000'' \<or>
       (\<exists>u. e_url_parse E (cfg_SchlassPublicURL cfg) = Some u \<and> url_Scheme u \<in> {''http'', ''https''} \<and> url_Host u \<noteq> [])))"

lemma andThen_Inr [simp]: "andThen x f = Inr y \<longleftrightarrow> (\<exists>v. x = Inr v \<and> f v = Inr y)"
  by (cases x) (auto simp: andThen_def)

lemma loadInt_range: "loadInt getenv name n = Inr v \<Longrightarrow> in63 n \<Longrightarrow> in63 v"
  by (auto simp: loadInt_def atoi_def Let_def in63_def split: if_splits option.splits)

lemma loadPublicURL_web:
  "loadPublicURL E raw = Inr v \<Longrightarrow> v = ''http://localhost:3000'' \<or>
     (\<exists>u. e_url_parse E v = Some u \<and> url_Scheme u \<in> {''http'', ''https''} \<and> url_Host u \<noteq> [])"
  by (auto simp: loadPublicURL_def split: if_splits option.splits)

lemma loadKey_32: "loadKey raw = Inr key \<Longrightarrow> length key = 32"
  by (auto simp: loadKey_def split: if_splits option.splits)

lemma loadInt_defaults:
  "loadInt getenv name 5 = Inr v \<Longrightarrow> in63 v" "loadInt getenv name 60 = Inr v \<Longrightarrow> in63 v"
  "loadInt getenv name 1500 = Inr v \<Longrightarrow> in63 v" "loadInt getenv name 86400 = Inr v \<Longrightarrow> in63 v"
  by (erule loadInt_range, simp add: in63_def)+

lemma Load_required: "Load E getenv = Inr cfg \<Longrightarrow> v \<in> set requiredVariables \<Longrightarrow> getenv v \<noteq> []"
  by (auto simp: Load_def Let_def filter_empty_conv split: if_splits)

lemma Load_ok:
  assumes "Load E getenv = Inr cfg"
  shows "cfgOk E cfg"
proof -
  note req = Load_required [OF assms]
  have "getenv ''SCHLASS_DATABASE_URL'' \<noteq> []" "getenv ''SCHLASS_MIGRATIONS_DATABASE_URL'' \<noteq> []" "getenv ''SCHLASS_VALKEY_URL'' \<noteq> []"
    by (rule req, simp add: requiredVariables_def)+
  moreover from assms have "filter (\<lambda>v. getenv v = []) requiredVariables = []"
    by (simp add: Load_def Let_def split: if_splits)
  ultimately show ?thesis
    using assms unfolding Load_def Let_def cfgOk_def
    by (clarsimp simp del: set_simps) (intro conjI; (erule loadInt_defaults | erule loadKey_32 | drule loadPublicURL_web, simp)?)
qed

text \<open>A key in padded base64 is read back, so that the four required variables are enough to start.\<close>

lemma std_char: "c \<in> set (base64RawStd b) \<Longrightarrow> c \<noteq> CHR ''='' \<and> c \<noteq> CHR 0x0A \<and> c \<noteq> CHR 0x0D"
proof -
  assume "c \<in> set (base64RawStd b)"
  then have "c \<in> set b64StdAlphabet"
    using b64Nums_bound [of b] b64StdAlphabet_ok by (auto simp: base64RawStd_def b64Raw_Nums list_all_iff b64Alphabet_def)
  then show ?thesis by (auto simp: b64StdAlphabet_def)
qed

lemma b64DecodeStd_key:
  assumes "length key = 32"
  shows "b64DecodeStd (base64RawStd key @ ''='') = Some key"
proof -
  let ?b = "base64RawStd key"
  have f: "filter (\<lambda>c. c \<noteq> CHR 0x0A \<and> c \<noteq> CHR 0x0D) (?b @ ''='') = ?b @ ''=''"
    by (simp add: filter_id_conv) (use std_char in blast)
  have t: "takeWhile (\<lambda>c. c \<noteq> CHR ''='') (?b @ ''='') = ?b"
    by (subst takeWhile_append2) (use std_char in auto)
  have "length ?b = 43" using assms by (simp add: base64RawStd_def length_b64Raw)
  moreover have "b64DecodeRaw b64StdAlphabet ?b = Some key"
    unfolding base64RawStd_def by (rule b64_roundtrip) (rule b64StdAlphabet_ok)
  ultimately show ?thesis unfolding b64DecodeStd_def Let_def f t by simp
qed

definition minimalEnv :: "string \<Rightarrow> string \<Rightarrow> string \<Rightarrow> bytes \<Rightarrow> string \<Rightarrow> string" where
  "minimalEnv db mig vk key name =
     (case map_of [(''SCHLASS_DATABASE_URL'', db), (''SCHLASS_MIGRATIONS_DATABASE_URL'', mig), (''SCHLASS_VALKEY_URL'', vk),
                   (''SCHLASS_ENCRYPTION_KEY'', base64RawStd key @ ''='')] name of None \<Rightarrow> [] | Some v \<Rightarrow> v)"

lemma Load_minimal:
  assumes "db \<noteq> []" "mig \<noteq> []" "vk \<noteq> []" "length key = 32"
  shows "\<exists>cfg. Load E (minimalEnv db mig vk key) = Inr cfg \<and> cfg_EncryptionKey cfg = key \<and>
    cfg_LoginRateLimit cfg = 5 \<and> cfg_SweeperIntervalSecs cfg = 86400 \<and> cfg_HIBPEnabled cfg \<and> cfg_Port cfg = ''3000''"
  using assms
  by (simp add: Load_def Let_def minimalEnv_def requiredVariables_def loadInt_def loadBool_def loadPublicURL_def loadKey_def
      b64DecodeStd_key ex_bool_eq)

end
