(* ===== verification/RateLimit.thy ===== *)
theory RateLimit
  imports Login
begin

text \<open>
  The rate limiter of \<^verbatim>\<open>internal/middleware/ratelimit.go\<close>: a sorted set per client address holds one
  member per admitted request, scored by its time. The scores are floating-point numbers there; a Unix
  time in microseconds is below \<open>2\<^sup>5\<^sup>3\<close> until the year 2255, so the conversion is exact and they
  are integers here. The draw of \<^verbatim>\<open>rand.Int64\<close> is an argument.

  The main result is that of a sliding window: no window of that length admits more than the limit,
  whatever else the server does, when pipelines are cut off half-way, and although the key expires.
\<close>

section \<open>The limiter\<close>

record RateLimiter =
  rl_prefix :: string
  rl_limit :: int
  rl_window :: int
  rl_FailClosed :: bool

definition NewRateLimiter :: "string \<Rightarrow> int \<Rightarrow> int \<Rightarrow> RateLimiter" where
  "NewRateLimiter pre limit window =
     \<lparr>rl_prefix = pre, rl_limit = limit, rl_window = window, rl_FailClosed = False\<rparr>"

text \<open>The address the request is counted under: the first entry of \<^verbatim>\<open>X-Forwarded-For\<close> as it is
  spelled, or the host of the connection.\<close>

definition limiterIP :: "'k env \<Rightarrow> request \<Rightarrow> string" where
  "limiterIP E req =
     (if req_XFF req \<noteq> [] then takeWhile (\<lambda>c. c \<noteq> CHR '','') (req_XFF req)
      else case e_split_host_port E (req_RemoteAddr req) of None \<Rightarrow> req_RemoteAddr req | Some host \<Rightarrow> host)"

definition limiterKey :: "RateLimiter \<Rightarrow> string \<Rightarrow> string" where
  "limiterKey rl ip = rl_prefix rl @ '':'' @ ip"

definition nowMicro :: "'k env \<Rightarrow> int" where
  "nowMicro E = e_go_now E div 1000"

text \<open>\<open>Duration.Microseconds\<close> truncates towards zero.\<close>

definition microseconds :: "int \<Rightarrow> int" where
  "microseconds d = (if d < 0 then - ((- d) div 1000) else d div 1000)"

definition limiterMember :: "int \<Rightarrow> nat \<Rightarrow> string" where
  "limiterMember now draw = showInt now @ ''-'' @ showNat draw"

definition limiterCommands :: "'k env \<Rightarrow> RateLimiter \<Rightarrow> nat \<Rightarrow> string \<Rightarrow> vcmd list" where
  "limiterCommands E rl draw key =
     (let windowStartMicro = nowMicro E - microseconds (rl_window rl); member = limiterMember (nowMicro E) draw
      in [ZREMRANGEBYSCORE key windowStartMicro, ZADD key (nowMicro E) member, ZCARD key, EXPIRE key (rl_window rl * 2)])"

text \<open>\<open>None\<close> is an error of the pipeline; otherwise whether the request may pass and, if not, when to
  come back.\<close>

definition allow :: "'k env \<Rightarrow> RateLimiter \<Rightarrow> nat \<Rightarrow> string \<Rightarrow> 'k \<Rightarrow> 'k \<times> (bool \<times> int) option" where
  "allow E rl draw key k =
     (case pipeline E (limiterCommands E rl draw key) k of
        (rs, k1) \<Rightarrow>
          if pipeFailed rs then (k1, None)
          else let count = (case rs of [_, _, RInt n, _] \<Rightarrow> n | _ \<Rightarrow> 0)
               in if count > rl_limit rl
                  then (snd (e_valkey E (ZREM key (limiterMember (nowMicro E) draw)) k1), Some (False, rl_window rl))
                  else (k1, Some (True, 0)))"

datatype 'r limited =
    TooMany int             \<comment> \<open>429 with \<^verbatim>\<open>Retry-After\<close>\<close>
  | LimiterUnavailable      \<comment> \<open>503\<close>
  | Served 'r

definition rateLimit
  :: "'k env \<Rightarrow> RateLimiter \<Rightarrow> nat \<Rightarrow> request \<Rightarrow> ('k world \<Rightarrow> 'k world \<times> 'r) \<Rightarrow> 'k world \<Rightarrow> 'k world \<times> 'r limited" where
  "rateLimit E rl draw req handler w =
     (case allow E rl draw (limiterKey rl (limiterIP E req)) (w_vk w) of
        (k, None) \<Rightarrow>
          if rl_FailClosed rl then (w\<lparr>w_vk := k\<rparr>, LimiterUnavailable) else apsnd Served (handler (w\<lparr>w_vk := k\<rparr>))
      | (k, Some (True, _)) \<Rightarrow> apsnd Served (handler (w\<lparr>w_vk := k\<rparr>))
      | (k, Some (False, retryAfter)) \<Rightarrow> (w\<lparr>w_vk := k\<rparr>, TooMany (secondsLeft retryAfter)))"

section \<open>Members\<close>

definition entriesAt :: "kspace \<Rightarrow> string \<Rightarrow> (string \<times> int) set" where
  "entriesAt m key = (case m key of Some (VZSet z, _) \<Rightarrow> set z | _ \<Rightarrow> {})"

lemma showNat_no_dash: "CHR ''-'' \<notin> set (showNat n)"
  using showNat_digits [of n] by (auto simp: list_all_iff isDigitByte_def)

lemma limiterMember_inj: "limiterMember n d = limiterMember n' d' \<longleftrightarrow> n = n' \<and> d = d'"
proof
  have cut: "rev (takeWhile (\<lambda>c. c \<noteq> CHR ''-'') (rev (limiterMember a b))) = showNat b" for a b
    using showNat_no_dash [of b] by (simp add: limiterMember_def) (subst takeWhile_append2, auto)
  assume eq: "limiterMember n d = limiterMember n' d'"
  with cut [of n d] cut [of n' d'] have "showNat d = showNat d'" by simp
  moreover from this eq have "showInt n = showInt n'" by (simp add: limiterMember_def)
  ultimately show "n = n' \<and> d = d'" by (metis readNat_showNat readInt_showInt)
qed simp

text \<open>The three commands before the count, on a key space: members that have left the window go, and the
  new one comes in.\<close>

definition zsetOf :: "kspace \<Rightarrow> string \<Rightarrow> (string \<times> int) list" where
  "zsetOf m key = (case m key of Some (VZSet z, _) \<Rightarrow> z | _ \<Rightarrow> [])"

lemma entriesAt_zsetOf: "entriesAt m key = set (zsetOf m key)"
  by (simp add: entriesAt_def zsetOf_def split: option.splits prod.splits vval.splits)

lemma limiter_commands:
  assumes "vk_execs [ZREMRANGEBYSCORE key lo, ZADD key n me, ZCARD key, EXPIRE key t] m = (rs, m')"
    and "\<not> pipeFailed rs" and "0 < t"
  shows "\<exists>a b c. rs = [a, b, RInt (int (length (zsetOf m' key))), c] \<and>
    zsetOf m' key = (me, n) # filter (\<lambda>p. fst p \<noteq> me) (filter (\<lambda>p. lo < snd p) (zsetOf m key))"
  using assms
  by (cases "m key") (auto simp: pipeFailed_def zsetOf_def zsetKeep_def filter_empty_conv empty_filter_conv split: prod.splits vval.splits if_splits)

lemma limiter_ttl:
  assumes "vk_execs [ZREMRANGEBYSCORE key lo, ZADD key n me, ZCARD key, EXPIRE key t] m = (rs, m')"
    and "\<not> pipeFailed rs" and "0 < t"
  shows "\<exists>z. m' key = Some (z, Some t)"
  using assms by (cases "m key") (auto simp: pipeFailed_def zsetKeep_def split: prod.splits vval.splits if_splits)

text \<open>What a call of the limiter does to the set: the member of this call stays if the call is
  admitted, and then the set has at most \<open>limit\<close> members; no other member of the window is lost.\<close>

lemma allow_spec:
  assumes srv: "valkey_service (e_valkey E) view" and win: "0 < rl_window rl"
    and a: "allow E rl draw key k = (k', Some (ok, ra))"
  shows "{p \<in> entriesAt (view k) key. nowMicro E - microseconds (rl_window rl) < snd p \<and> fst p \<noteq> limiterMember (nowMicro E) draw}
      \<subseteq> entriesAt (view k') key" (is ?keeps)
    and "ok \<Longrightarrow> (limiterMember (nowMicro E) draw, nowMicro E) \<in> entriesAt (view k') key"
    and "ok \<Longrightarrow> int (card (entriesAt (view k') key)) \<le> rl_limit rl"
    and "view k' key = Some (v, e) \<Longrightarrow> e = Some (rl_window rl * 2)"
proof -
  let ?me = "limiterMember (nowMicro E) draw" and ?lo = "nowMicro E - microseconds (rl_window rl)"
  obtain rs k1 where p: "pipeline E [ZREMRANGEBYSCORE key ?lo, ZADD key (nowMicro E) ?me, ZCARD key, EXPIRE key (rl_window rl * 2)] k
      = (rs, k1)" by (cases rule: prod.exhaust)
  have al: "allow E rl draw key k = (if pipeFailed rs then (k1, None)
      else let count = (case rs of [_, _, RInt n, _] \<Rightarrow> n | _ \<Rightarrow> 0)
           in if count > rl_limit rl then (snd (e_valkey E (ZREM key ?me) k1), Some (False, rl_window rl)) else (k1, Some (True, 0)))"
    using p by (simp add: allow_def limiterCommands_def del: pipeline.simps)
  with a have f: "\<not> pipeFailed rs" by (auto split: if_splits)
  have ttl: "\<exists>z. view k1 key = Some (z, Some (rl_window rl * 2))"
    using limiter_ttl [OF valkey_service.serve_pipeline [OF srv refl p] f] win by simp
  from limiter_commands [OF valkey_service.serve_pipeline [OF srv refl p] f] win obtain x y c
    where rs: "rs = [x, y, RInt (int (length (zsetOf (view k1) key))), c]"
    and z: "zsetOf (view k1) key = (?me, nowMicro E) # filter (\<lambda>p. fst p \<noteq> ?me) (filter (\<lambda>p. ?lo < snd p) (zsetOf (view k) key))"
    by auto
  have full: "ok \<longrightarrow> k' = k1 \<and> int (length (zsetOf (view k1) key)) \<le> rl_limit rl"
    and over: "\<not> ok \<longrightarrow> k' = snd (e_valkey E (ZREM key ?me) k1)"
    using a f unfolding al rs by (auto simp: Let_def split: if_splits)
  have rem: "view (snd (e_valkey E (ZREM key ?me) k1)) key = Some (v', e') \<Longrightarrow> \<exists>z. view k1 key = Some (z, e')" for v' e'
    unfolding valkey_service.effect [OF srv] by (auto simp: zsetKeep_def split: option.splits prod.splits vval.splits if_splits)
  show "e = Some (rl_window rl * 2)" if "view k' key = Some (v, e)"
    using that ttl full over rem by (cases ok) auto
  have "zsetOf (view (snd (e_valkey E (ZREM key ?me) k1))) key = filter (\<lambda>p. fst p \<noteq> ?me) (zsetOf (view k1) key)"
    unfolding valkey_service.effect [OF srv] by (auto simp: zsetOf_def zsetKeep_def split: option.splits prod.splits vval.splits)
  with full over z show ?keeps by (cases ok) (auto simp: entriesAt_zsetOf)
  show "(?me, nowMicro E) \<in> entriesAt (view k') key" if ok using that full z by (simp add: entriesAt_zsetOf)
  show "int (card (entriesAt (view k') key)) \<le> rl_limit rl" if ok
    using that full card_length [of "zsetOf (view k1) key"] by (simp add: entriesAt_zsetOf)
qed

section \<open>Runs\<close>

text \<open>A run of the limiter for one address: the calls that were decided, the latest first, each with its
  time, its draw and whether it was admitted, the time of the last event, and the time at which Valkey
  drops the key, if it has a time to live (in microseconds, like the scores). The steps: a call that
  is decided; a call of which only the first \<open>n\<close> commands of the pipeline reached Valkey, so that the
  program sees an error (or, for \<open>n = 4\<close>, only the reply was lost); anything that leaves the key alone, as
  all other code does; and the expiry of the key, at its deadline or later.\<close>

definition deadline :: "bool \<Rightarrow> int option \<Rightarrow> int \<Rightarrow> (vval \<times> int option) option \<Rightarrow> int option" where
  "deadline renewed D now e =
     (case e of Some (_, Some t) \<Rightarrow> if renewed then Some (now + microseconds t) else D | _ \<Rightarrow> None)"

type_synonym limiterCall = "int \<times> nat \<times> bool"

inductive limiterRun
  :: "RateLimiter \<Rightarrow> string \<Rightarrow> ('k \<Rightarrow> kspace) \<Rightarrow> limiterCall list \<Rightarrow> int \<Rightarrow> int option \<Rightarrow> 'k \<Rightarrow> bool" for rl key view where
  start: "limiterRun rl key view [] T D k"
| call: "limiterRun rl key view h T D k \<Longrightarrow> T \<le> nowMicro E \<Longrightarrow> valkey_service (e_valkey E) view \<Longrightarrow>
    \<forall>c \<in> set h. (fst c, fst (snd c)) \<noteq> (nowMicro E, draw) \<Longrightarrow>
    allow E rl draw key k = (k', Some (ok, ra)) \<Longrightarrow>
    limiterRun rl key view ((nowMicro E, draw, ok) # h) (nowMicro E) (deadline True D (nowMicro E) (view k' key)) k'"
| cut: "limiterRun rl key view h T D k \<Longrightarrow> T \<le> nowMicro E \<Longrightarrow>
    \<forall>c \<in> set h. (fst c, fst (snd c)) \<noteq> (nowMicro E, draw) \<Longrightarrow>
    view k' = snd (vk_execs (take n (limiterCommands (E :: 'k env) rl draw key)) (view k)) \<Longrightarrow>
    limiterRun rl key view h (nowMicro E) (deadline (4 \<le> n) D (nowMicro E) (view k' key)) k'"
| other: "limiterRun rl key view h T D k \<Longrightarrow> T \<le> T' \<Longrightarrow> view k' key = view k key \<Longrightarrow>
    limiterRun rl key view h T' D k'"
| expire: "limiterRun rl key view h T (Some x) k \<Longrightarrow> T \<le> T' \<Longrightarrow> x \<le> T' \<Longrightarrow> view k' key = None \<Longrightarrow>
    limiterRun rl key view h T' None k'"

text \<open>The cut-off call: no member of the window is lost, and the deadline is the old one or a new one.\<close>

lemma cut_keeps:
  assumes "0 < rl_window rl" and "p \<in> entriesAt m key" "nowMicro E - microseconds (rl_window rl) < snd p"
    and "fst p \<noteq> limiterMember (nowMicro E) draw"
  shows "p \<in> entriesAt (snd (vk_execs (take n (limiterCommands E rl draw key)) m)) key"
proof -
  let ?lo = "nowMicro E - microseconds (rl_window rl)"
  from assms(2) obtain z e where z: "m key = Some (VZSet z, e)" "p \<in> set z"
    by (auto simp: entriesAt_def split: option.splits prod.splits vval.splits)
  have some: "filter (\<lambda>p. ?lo < snd p) z \<noteq> []" using z(2) assms(3) by (auto simp: filter_empty_conv)
  have cmds: "limiterCommands E rl draw key = [ZREMRANGEBYSCORE key ?lo, ZADD key (nowMicro E) (limiterMember (nowMicro E) draw),
      ZCARD key, EXPIRE key (rl_window rl * 2)]" by (simp add: limiterCommands_def)
  consider "n = 0" | "n = 1" | "n = 2" | "n = 3" | "4 \<le> n" by linarith
  then show ?thesis
    by cases (use z some assms in \<open>simp_all add: cmds zsetKeep_def entriesAt_def eval_nat_numeral\<close>)
qed

lemma cut_deadline:
  assumes "0 < rl_window rl" and "4 \<le> n"
    and "snd (vk_execs (take n (limiterCommands E rl draw key)) m) key = Some (v, e)"
  shows "e = Some (rl_window rl * 2)"
  using assms by (auto simp: limiterCommands_def Let_def split: prod.splits option.splits)

text \<open>The admitted calls in the window that ends at \<open>t\<close>.\<close>

definition admittedAt :: "RateLimiter \<Rightarrow> int \<Rightarrow> limiterCall list \<Rightarrow> limiterCall list" where
  "admittedAt rl t h = filter (\<lambda>(n, d, ok). ok \<and> t - microseconds (rl_window rl) < n \<and> n \<le> t) h"

definition entryOf :: "limiterCall \<Rightarrow> string \<times> int" where
  "entryOf c = (limiterMember (fst c) (fst (snd c)), fst c)"

text \<open>The invariant of a run.\<close>

definition runInv :: "RateLimiter \<Rightarrow> string \<Rightarrow> limiterCall list \<Rightarrow> int \<Rightarrow> int option \<Rightarrow> kspace \<Rightarrow> bool" where
  "runInv rl key h T D m =
     (distinct (map entryOf h) \<and> (\<forall>c \<in> set h. fst c \<le> T) \<and>
      entryOf ` set (admittedAt rl T h) \<subseteq> entriesAt m key \<and>
      (\<forall>x. D = Some x \<longrightarrow> (\<forall>c \<in> set h. fst c + microseconds (rl_window rl) \<le> x)) \<and>
      (\<forall>t. int (length (admittedAt rl t h)) \<le> max 0 (rl_limit rl)))"

lemma entryOf_inj: "entryOf c = entryOf c' \<longleftrightarrow> fst c = fst c' \<and> fst (snd c) = fst (snd c')"
  by (auto simp: entryOf_def limiterMember_inj)

lemma finite_entriesAt: "finite (entriesAt m key)"
  by (simp add: entriesAt_zsetOf)

lemma admitted_card:
  assumes "distinct (map entryOf h)"
  shows "length (admittedAt rl t h) = card (entryOf ` set (admittedAt rl t h))"
proof -
  have "distinct (map entryOf (admittedAt rl t h))"
    using assms unfolding admittedAt_def by (rule distinct_map_filter)
  from distinct_card [OF this] show ?thesis by simp
qed

text \<open>Later windows hold fewer of the calls made so far.\<close>

lemma admitted_later:
  assumes "\<forall>c \<in> set h. fst c \<le> T" and "T \<le> t"
  shows "set (admittedAt rl t h) \<subseteq> set (admittedAt rl T h)"
  using assms by (auto simp: admittedAt_def)

lemma runInv_later:
  assumes inv: "runInv rl key h T D m" and le: "T \<le> T'"
    and k: "\<And>c. c \<in> set (admittedAt rl T' h) \<Longrightarrow> entryOf c \<in> entriesAt m key \<Longrightarrow> entryOf c \<in> entriesAt m' key"
    and D: "\<And>x c. D' = Some x \<Longrightarrow> c \<in> set h \<Longrightarrow> fst c + microseconds (rl_window rl) \<le> x"
  shows "runInv rl key h T' D' m'"
proof -
  have "entryOf ` set (admittedAt rl T' h) \<subseteq> entriesAt m' key"
  proof
    fix p assume "p \<in> entryOf ` set (admittedAt rl T' h)"
    then obtain c where c: "c \<in> set (admittedAt rl T' h)" "p = entryOf c" by blast
    with admitted_later [OF _ le] inv have "p \<in> entriesAt m key" unfolding runInv_def by blast
    with c k show "p \<in> entriesAt m' key" by blast
  qed
  with inv le D show ?thesis unfolding runInv_def by fastforce
qed

lemma microseconds_double: "0 < w \<Longrightarrow> microseconds w \<le> microseconds (w * 2)"
  by (simp add: microseconds_def zdiv_mono1)

lemma deadline_renewed:
  assumes "deadline True D now stored = Some x" and "\<And>v e. stored = Some (v, e) \<Longrightarrow> e = Some (w * 2)"
  shows "x = now + microseconds (w * 2)"
  using assms by (auto simp: deadline_def split: option.splits prod.splits)

lemma runInv_cut:
  assumes inv: "runInv rl key h T D (view k)" and le: "T \<le> nowMicro E" and win: "0 < microseconds (rl_window rl)"
    and fresh: "\<forall>c \<in> set h. (fst c, fst (snd c)) \<noteq> (nowMicro E, draw)"
    and k': "view k' = snd (vk_execs (take n (limiterCommands E rl draw key)) (view k))"
  shows "runInv rl key h (nowMicro E) (deadline (4 \<le> n) D (nowMicro E) (view k' key)) (view k')"
proof (rule runInv_later [OF inv le])
  have pos: "0 < rl_window rl" using win by (simp add: microseconds_def split: if_splits)
  fix c
  assume c: "c \<in> set (admittedAt rl (nowMicro E) h)" "entryOf c \<in> entriesAt (view k) key"
  then have "nowMicro E - microseconds (rl_window rl) < snd (entryOf c)" "c \<in> set h" by (auto simp: admittedAt_def entryOf_def)
  moreover from \<open>c \<in> set h\<close> fresh have "fst (entryOf c) \<noteq> limiterMember (nowMicro E) draw" by (auto simp: entryOf_def limiterMember_inj)
  ultimately show "entryOf c \<in> entriesAt (view k') key" unfolding k' using cut_keeps [OF pos c(2)] by blast
next
  have pos: "0 < rl_window rl" using win by (simp add: microseconds_def split: if_splits)
  fix x c
  assume x: "deadline (4 \<le> n) D (nowMicro E) (view k' key) = Some x" and c: "c \<in> set h"
  show "fst c + microseconds (rl_window rl) \<le> x"
  proof (cases "4 \<le> n")
    case True
    with x have "deadline True D (nowMicro E) (view k' key) = Some x" by simp
    then have "x = nowMicro E + microseconds (rl_window rl * 2)"
      by (rule deadline_renewed) (unfold k', rule cut_deadline [OF pos True])
    moreover have "fst c \<le> nowMicro E" using inv le c unfolding runInv_def by force
    ultimately show ?thesis using microseconds_double [OF pos] by simp
  next
    case False
    with x have "D = Some x" by (auto simp: deadline_def split: option.splits)
    with inv c show ?thesis unfolding runInv_def by blast
  qed
qed

lemma runInv_call:
  assumes inv: "runInv rl key h T D (view k)" and le: "T \<le> nowMicro E" and srv: "valkey_service (e_valkey E) view"
    and fresh: "\<forall>c \<in> set h. (fst c, fst (snd c)) \<noteq> (nowMicro E, draw)" and win: "0 < microseconds (rl_window rl)"
    and a: "allow E rl draw key k = (k', Some (ok, ra))"
  shows "runInv rl key ((nowMicro E, draw, ok) # h) (nowMicro E) (deadline True D (nowMicro E) (view k' key)) (view k')"
proof -
  let ?now = "nowMicro E" and ?c = "(nowMicro E, draw, ok)" and ?h = "(nowMicro E, draw, ok) # h"
  have pos: "0 < rl_window rl" using win by (simp add: microseconds_def split: if_splits)
  note spec = allow_spec [OF srv pos a]
  have d: "distinct (map entryOf ?h)" using inv fresh unfolding runInv_def by (auto simp: entryOf_inj)
  have old: "\<forall>c \<in> set h. fst c \<le> ?now" using inv le unfolding runInv_def by force
  have kept: "entryOf ` set (admittedAt rl ?now h) \<subseteq> entriesAt (view k') key"
  proof
    fix p assume "p \<in> entryOf ` set (admittedAt rl ?now h)"
    then obtain c where c: "c \<in> set (admittedAt rl ?now h)" "p = entryOf c" by blast
    with admitted_later [OF _ le] inv have "p \<in> entriesAt (view k) key" unfolding runInv_def by blast
    moreover from c have "?now - microseconds (rl_window rl) < snd p" and "c \<in> set h" by (auto simp: admittedAt_def entryOf_def)
    moreover from \<open>c \<in> set h\<close> fresh c(2) have "fst p \<noteq> limiterMember ?now draw" by (auto simp: entryOf_def limiterMember_inj)
    ultimately show "p \<in> entriesAt (view k') key" using spec(1) by blast
  qed
  have now: "entryOf ` set (admittedAt rl ?now ?h) \<subseteq> entriesAt (view k') key"
    using kept spec(2) by (auto simp: admittedAt_def entryOf_def)
  have "int (length (admittedAt rl t ?h)) \<le> max 0 (rl_limit rl)" for t
  proof (cases "ok \<and> ?now \<le> t")
    case True
    have "length (admittedAt rl t ?h) = card (entryOf ` set (admittedAt rl t ?h))" by (rule admitted_card [OF d])
    also have "\<dots> \<le> card (entriesAt (view k') key)"
    proof (rule card_mono [OF finite_entriesAt])
      have "set (admittedAt rl t ?h) \<subseteq> set (admittedAt rl ?now ?h)"
        using old True by (intro admitted_later) simp_all
      with now show "entryOf ` set (admittedAt rl t ?h) \<subseteq> entriesAt (view k') key" by blast
    qed
    finally show ?thesis using spec(3) True by linarith
  next
    case False
    then have "admittedAt rl t ?h = admittedAt rl t h" by (auto simp: admittedAt_def)
    with inv show ?thesis by (simp add: runInv_def)
  qed
  moreover have "fst c + microseconds (rl_window rl) \<le> x"
    if "deadline True D ?now (view k' key) = Some x" "c \<in> set ?h" for x c
    using deadline_renewed [OF that(1) spec(4)] old that(2) microseconds_double [OF pos] by fastforce
  ultimately show ?thesis using d old now by (simp add: runInv_def)
qed

lemma limiterRun_inv:
  assumes "limiterRun rl key view h T D k" and "0 < microseconds (rl_window rl)"
  shows "runInv rl key h T D (view k)"
  using assms
proof (induction rule: limiterRun.induct)
  case (start T D k)
  then show ?case by (simp add: runInv_def admittedAt_def)
next
  case (call h T D k E draw k' ok ra)
  show ?case
    by (rule runInv_call [OF call.IH [OF call.prems] call.hyps(2) call.hyps(3) call.hyps(4) call.prems call.hyps(5)])
next
  case (cut h T D k E draw k' n)
  show ?case by (rule runInv_cut [OF cut.IH [OF cut.prems] cut.hyps(2) cut.prems cut.hyps(3,4)])
next
  case (other h T D k T' k')
  have "entriesAt (view k') key = entriesAt (view k) key" using other.hyps(3) by (simp add: entriesAt_def)
  then show ?case using other.IH [OF other.prems] unfolding runInv_def
    by (intro runInv_later [OF other.IH [OF other.prems] other.hyps(2), unfolded runInv_def]) auto
next
  case (expire h T x k T' k')
  note inv = expire.IH [OF expire.prems]
  show ?case
  proof (rule runInv_later [OF inv expire.hyps(2)])
    fix c assume "c \<in> set (admittedAt rl T' h)"
    then have "c \<in> set h" "T' - microseconds (rl_window rl) < fst c" by (auto simp: admittedAt_def)
    with inv expire.hyps(3) show "entryOf c \<in> entriesAt (view k') key" unfolding runInv_def by fastforce
  qed simp
qed

lemma rateLimit_served:
  assumes "rateLimit E rl draw req handler w = (w', Served x)" and "rl_FailClosed rl"
  shows "\<exists>k' ra. allow E rl draw (limiterKey rl (limiterIP E req)) (w_vk w) = (k', Some (True, ra)) \<and>
    handler (w\<lparr>w_vk := k'\<rparr>) = (w', x)"
proof -
  obtain k' r where a: "allow E rl draw (limiterKey rl (limiterIP E req)) (w_vk w) = (k', r)" by (cases rule: prod.exhaust)
  obtain w1 y where h: "handler (w\<lparr>w_vk := k'\<rparr>) = (w1, y)" by (cases rule: prod.exhaust)
  from assms a h show ?thesis by (auto simp: rateLimit_def split: option.splits prod.splits bool.splits)
qed

text \<open>The address is what the client says it is: a request with a fresh \<^verbatim>\<open>X-Forwarded-For\<close> header starts a
  window of its own, whatever was refused before.\<close>

lemma limiter_spoofed:
  assumes srv: "valkey_service (e_valkey E) view" and lim: "1 \<le> rl_limit rl" "0 < rl_window rl"
    and xff: "req_XFF req = ip" "ip \<noteq> []" "CHR '','' \<notin> set ip" and new: "view (w_vk w) (limiterKey rl ip) = None"
  shows "\<exists>k'. rateLimit E rl draw req handler w = apsnd Served (handler (w\<lparr>w_vk := k'\<rparr>))"
proof -
  let ?key = "limiterKey rl ip"
  have ip: "limiterIP E req = ip" using xff by (auto simp: limiterIP_def takeWhile_eq_all_conv)
  obtain rs k1 where p: "pipeline E [ZREMRANGEBYSCORE ?key (nowMicro E - microseconds (rl_window rl)),
      ZADD ?key (nowMicro E) (limiterMember (nowMicro E) draw), ZCARD ?key, EXPIRE ?key (rl_window rl * 2)] (w_vk w) = (rs, k1)"
    by (cases rule: prod.exhaust)
  from valkey_service.serve_pipeline [OF srv refl p] new lim(2) have "rs = [RInt 0, RInt 1, RInt 1, RInt 1]" by auto
  with p lim(1) have "allow E rl draw ?key (w_vk w) = (k1, Some (True, 0))"
    by (simp add: allow_def limiterCommands_def pipeFailed_def Let_def del: pipeline.simps)
  then show ?thesis by (auto simp: rateLimit_def ip)
qed

text \<open>C18. The limiter is a sliding window: among the calls for one address that it decides, with time that does not
  go back and no two calls drawing the same member, no window of the configured length admits more than the
  limit. Between and during the calls Valkey may serve anything else, pipelines may be cut off after any of
  their commands, and Valkey drops the key when the time to live that the last complete call gave it is
  over. With \<^verbatim>\<open>FailClosed\<close> only an admitted call reaches the handler, also when Valkey fails.\<close>

theorem limiter_bound:
  assumes "limiterRun rl key view h T D (k :: 'k)" and "0 < microseconds (rl_window rl)"
  shows "int (length (admittedAt rl t h)) \<le> max 0 (rl_limit rl) \<and>
    (\<forall>(E :: 'k env) draw req handler w w' (x :: 'r).
       rl_FailClosed rl \<longrightarrow> rateLimit E rl draw req handler w = (w', Served x) \<longrightarrow>
       (\<exists>k' ra. allow E rl draw (limiterKey rl (limiterIP E req)) (w_vk w) = (k', Some (True, ra)) \<and>
          handler (w\<lparr>w_vk := k'\<rparr>) = (w', x)))"
proof (intro conjI allI impI)
  show "int (length (admittedAt rl t h)) \<le> max 0 (rl_limit rl)" using limiterRun_inv [OF assms] by (simp add: runInv_def)
qed (rule rateLimit_served)

definition sampleLimiter :: RateLimiter where
  "sampleLimiter = (NewRateLimiter ''ratelimit:login'' 1 (60 * second))\<lparr>rl_FailClosed := True\<rparr>"

lemma sample_limiter_run:
  "\<exists>D k. limiterRun sampleLimiter ''ratelimit:login:1.2.3.4'' (\<lambda>m. m)
     [(nowMicro sampleEnv, 1, False), (nowMicro sampleEnv, 0, True)] (nowMicro sampleEnv) D k"
proof -
  let ?key = "''ratelimit:login:1.2.3.4''" and ?n = "nowMicro sampleEnv"
  define k1 :: kspace where "k1 = [?key \<mapsto> (VZSet [(limiterMember ?n 0, ?n)], Some (120 * second))]"
  have "allow sampleEnv sampleLimiter 0 ?key Map.empty = (k1, Some (True, 0))"
    by (simp add: allow_def limiterCommands_def sampleLimiter_def NewRateLimiter_def pipeFailed_def k1_def Let_def second_def)
  from limiterRun.call [OF limiterRun.start [where D = None] order_refl keyspace.valkey_service_axioms [folded sampleEnv_sel(1)] _ this]
  obtain D where one: "limiterRun sampleLimiter ?key (\<lambda>m. m) [(?n, 0, True)] ?n D k1" by simp
  obtain k2 where "allow sampleEnv sampleLimiter 1 ?key k1 = (k2, Some (False, 60 * second))"
    by (simp add: allow_def limiterCommands_def sampleLimiter_def NewRateLimiter_def pipeFailed_def k1_def Let_def second_def zsetKeep_def
        limiterMember_inj microseconds_def)
  from limiterRun.call [OF one order_refl keyspace.valkey_service_axioms [folded sampleEnv_sel(1)] _ this]
  show ?thesis by auto
qed

theorem limiter_bound_witness:
  "\<exists>h D k. limiterRun sampleLimiter ''ratelimit:login:1.2.3.4'' (\<lambda>m. m) h (nowMicro sampleEnv) D k \<and>
     map (snd \<circ> snd) h = [False, True] \<and> int (length (admittedAt sampleLimiter (nowMicro sampleEnv) h)) \<le> 1"
proof -
  obtain D k where run: "limiterRun sampleLimiter ''ratelimit:login:1.2.3.4'' (\<lambda>m. m)
     [(nowMicro sampleEnv, 1, False), (nowMicro sampleEnv, 0, True)] (nowMicro sampleEnv) D k" using sample_limiter_run by blast
  have "0 < microseconds (rl_window sampleLimiter)" "rl_limit sampleLimiter = 1"
    by (simp_all add: sampleLimiter_def NewRateLimiter_def microseconds_def second_def)
  with limiter_bound [OF run, of "nowMicro sampleEnv", THEN conjunct1] run show ?thesis
    by (intro exI conjI) (assumption | simp)+
qed

end
