(* ===== verification/Mfa.thy ===== *)
theory Mfa
  imports Login
begin

text \<open>
  \<^verbatim>\<open>internal/auth/mfa.go\<close>: enrolment of an authenticator and the second factor of a login. The state
  between two requests is a Valkey hash named by a short-lived cookie. The challenge counts its
  attempts down before it verifies anything.
\<close>

section \<open>Constants and helpers\<close>

record MFAHandler =
  mh_EncryptionKey :: bytes
  mh_SecureCookie :: bool

definition NewMFAHandler :: "bytes \<Rightarrow> string \<Rightarrow> MFAHandler" where
  "NewMFAHandler encryptionKey publicURL =
     \<lparr>mh_EncryptionKey = encryptionKey, mh_SecureCookie = IsSecureURL publicURL\<rparr>"

definition MfaEnrollCookieName :: string where "MfaEnrollCookieName = ''schlass_mfa_enroll''"
definition MfaChallengeCookieName :: string where "MfaChallengeCookieName = ''schlass_mfa_challenge''"
definition mfaEnrollTTL :: int where "mfaEnrollTTL = 10 * 60 * second"
definition mfaEnrollVerifyMaxAttempts :: int where "mfaEnrollVerifyMaxAttempts = 5"

definition totpSecretAAD :: "string \<Rightarrow> bytes" where
  "totpSecretAAD userID = ''user_totp_secret:'' @ userID"

text \<open>The dash of the messages, in UTF-8.\<close>

definition emDash :: string where "emDash = [CHR 0xE2, CHR 0x80, CHR 0x94]"

definition enrollExpired :: "string \<Rightarrow> 'b response" where
  "enrollExpired msg = WriteError 401 ''MFA_ENROLLMENT_EXPIRED'' msg"

definition alreadyEnrolled :: "'b response" where
  "alreadyEnrolled = WriteError 400 ''MFA_ALREADY_ENROLLED'' ''This account already has two-factor authentication enabled.''"

definition startAgain :: string where
  "startAgain = ''Enrollment session has expired '' @ emDash @ '' please start again.''"

text \<open>\<open>HGET\<close> as the handlers use it: an error, a missing key or field is the empty string.\<close>

definition hget :: "'k env \<Rightarrow> string \<Rightarrow> string \<Rightarrow> 'k \<Rightarrow> 'k \<times> string" where
  "hget E key field k = (case e_valkey E (HGET key field) k of (RField v, k1) \<Rightarrow> (k1, v) | (_, k1) \<Rightarrow> (k1, []))"

definition valkeyDel :: "'k env \<Rightarrow> string \<Rightarrow> 'k \<Rightarrow> 'k" where
  "valkeyDel E key k = snd (e_valkey E (DEL key) k)"

section \<open>Who is enrolling\<close>

record mfaEnrollContext =
  mec_UserID :: uuid
  mec_Email :: string
  mec_SessionAuthed :: bool
  mec_EnrollToken :: string

datatype enrollError = errNoEnrollAuth | errAlreadyEnrolled

definition enrollByCookie :: "'k env \<Rightarrow> authRequest \<Rightarrow> 'k world \<Rightarrow> 'k \<times> mfaEnrollContext option" where
  "enrollByCookie E req w =
     (case cookieOf req MfaEnrollCookieName of
        None \<Rightarrow> (w_vk w, None)
      | Some token \<Rightarrow>
          if token = [] then (w_vk w, None)
          else (case hget E (enrollKey token) ''user_id'' (w_vk w) of
                  (k, userIDStr) \<Rightarrow>
                    (k, if userIDStr = [] then None
                        else case e_uuid_parse E userIDStr of
                          None \<Rightarrow> None
                        | Some uid \<Rightarrow>
                            (case snd (UserGetByID E ''mfa.enroll.cookie'' uid (pool (w_db w))) of
                               Inl e \<Rightarrow> None
                             | Inr u \<Rightarrow> Some \<lparr>mec_UserID = uid, mec_Email = u_Email u, mec_SessionAuthed = False,
                                              mec_EnrollToken = token\<rparr>))))"

definition enrollBySession :: "'k env \<Rightarrow> authRequest \<Rightarrow> 'k world \<Rightarrow> 'k \<times> (enrollError + mfaEnrollContext)" where
  "enrollBySession E req w =
     (case cookieOf req ''schlass_session'' of
        None \<Rightarrow> (w_vk w, Inl errNoEnrollAuth)
      | Some token \<Rightarrow>
          if token = [] then (w_vk w, Inl errNoEnrollAuth)
          else (case sessionGet E sessionTTL token (w_vk w) of
                  (k, SessOk sess) \<Rightarrow>
                    (k, case e_uuid_parse E (s_UserID sess) of
                          None \<Rightarrow> Inl errNoEnrollAuth
                        | Some uid \<Rightarrow>
                            (case snd (UserGetByID E ''mfa.enroll.session'' uid (pool (w_db w))) of
                               Inl e \<Rightarrow> Inl errNoEnrollAuth
                             | Inr u \<Rightarrow>
                                 (case snd (GetBool E ''mfa_required'' (pool (w_db w))) of
                                    Inl e \<Rightarrow> Inl errNoEnrollAuth
                                  | Inr mfaRequired \<Rightarrow>
                                      if \<not> mfaRequired \<or> u_TOTPEnrolledAt u \<noteq> None then Inl errAlreadyEnrolled
                                      else Inr \<lparr>mec_UserID = uid, mec_Email = u_Email u, mec_SessionAuthed = True,
                                                mec_EnrollToken = []\<rparr>)))
                | (k, _) \<Rightarrow> (k, Inl errNoEnrollAuth)))"

definition resolveEnrollPrincipal :: "'k env \<Rightarrow> authRequest \<Rightarrow> 'k world \<Rightarrow> 'k \<times> (enrollError + mfaEnrollContext)" where
  "resolveEnrollPrincipal E req w =
     (case enrollByCookie E req w of
        (k, Some ctx) \<Rightarrow> (k, Inr ctx)
      | (k, None) \<Rightarrow> enrollBySession E req (w\<lparr>w_vk := k\<rparr>))"

section \<open>Enrolment\<close>

text \<open>The key of the enrolment and the cookies set for it; a session gets a new token.\<close>

definition enrollTarget
  :: "'k env \<Rightarrow> MFAHandler \<Rightarrow> mfaEnrollContext \<Rightarrow> 'k \<Rightarrow> 'k \<times> (string \<times> Cookie list) option" where
  "enrollTarget E h ctx k =
     (if mec_SessionAuthed ctx
      then case RandomToken E ''mfa.enroll.session'' 32 of
        None \<Rightarrow> (k, None)
      | Some token \<Rightarrow>
          (case putHash E (enrollKey token) [(''user_id'', e_uuid_string E (mec_UserID ctx))] mfaEnrollTTL k of
             (k1, False) \<Rightarrow> (k1, None)
           | (k1, True) \<Rightarrow>
               (snd (e_valkey E (HSET (enrollKey token) [(''session_authed'', ''1'')]) k1),
                Some (enrollKey token, [mfaCookie MfaEnrollCookieName token 600 (mh_SecureCookie h)])))
      else (k, Some (enrollKey (mec_EnrollToken ctx), [])))"

definition enrollIssuer :: "'k env \<Rightarrow> db \<Rightarrow> string" where
  "enrollIssuer E d =
     (case snd (InstanceName E (pool d)) of Inl e \<Rightarrow> ''Schlass'' | Inr name \<Rightarrow> if name = [] then ''Schlass'' else name)"

definition PostEnrollmentStart :: "'k env \<Rightarrow> MFAHandler \<Rightarrow> authRequest \<Rightarrow> 'k world \<Rightarrow> 'k world \<times> authReply" where
  "PostEnrollmentStart E h req w =
     (case resolveEnrollPrincipal E req w of
        (k, Inl e) \<Rightarrow>
          (w\<lparr>w_vk := k\<rparr>, [], if e = errAlreadyEnrolled then alreadyEnrolled
                             else enrollExpired ''Enrollment session has expired.'')
      | (k, Inr ctx) \<Rightarrow>
          (case enrollTarget E h ctx k of
             (k1, None) \<Rightarrow> (w\<lparr>w_vk := k1\<rparr>, [], internalError)
           | (k1, Some (key, cookies)) \<Rightarrow>
               (case snd (UserGetByID E ''mfa.enroll.start'' (mec_UserID ctx) (pool (w_db w))) of
                  Inl e \<Rightarrow> (w\<lparr>w_vk := k1\<rparr>, cookies, internalError)
                | Inr u \<Rightarrow>
                    if u_TOTPEnrolledAt u \<noteq> None then (w\<lparr>w_vk := k1\<rparr>, cookies, alreadyEnrolled)
                    else case GenerateTOTPSecret E of
                      None \<Rightarrow> (w\<lparr>w_vk := k1\<rparr>, cookies, internalError)
                    | Some secret \<Rightarrow>
                        (case putHash E key [(''secret_base32'', secret)] mfaEnrollTTL k1 of
                           (k2, False) \<Rightarrow> (w\<lparr>w_vk := k2\<rparr>, cookies, internalError)
                         | (k2, True) \<Rightarrow>
                             (w\<lparr>w_vk := k2\<rparr>, cookies,
                              case BuildProvisionURI E (enrollIssuer E (w_db w)) (mec_Email ctx) secret of
                                None \<Rightarrow> internalError
                              | Some uri \<Rightarrow> WriteJSON 200 (EnrollmentSecret secret uri))))))"

text \<open>\<open>None\<close> while the recovery codes are still being drawn (see \<^const>\<open>GenerateRecoveryCodes\<close>).\<close>

definition enrollVerified
  :: "'k env \<Rightarrow> nat \<Rightarrow> string \<Rightarrow> string \<Rightarrow> string \<Rightarrow> 'k \<Rightarrow> ('k \<times> authBody response) option" where
  "enrollVerified E fuel key secret code k =
     (case ValidateTOTP E code secret 0 of
        None \<Rightarrow> Some (k, internalError)
      | Some None \<Rightarrow> Some (k, WriteError 401 ''MFA_INVALID_CODE'' ''Invalid code.'')
      | Some (Some step) \<Rightarrow>
          (case GenerateRecoveryCodes E fuel of
             None \<Rightarrow> None
           | Some None \<Rightarrow> Some (k, internalError)
           | Some (Some (plaintext, hashes)) \<Rightarrow>
               Some (case e_valkey E (HSET key [(''recovery_hashes'', e_json_strings E hashes)]) k of
                       (r, k1) \<Rightarrow> (k1, if r = RErr then internalError else WriteJSON 200 (RecoveryCodes plaintext)))))"

definition PostEnrollmentVerify
  :: "'k env \<Rightarrow> nat \<Rightarrow> authRequest \<Rightarrow> string option \<Rightarrow> 'k world \<Rightarrow> ('k world \<times> authReply) option" where
  "PostEnrollmentVerify E fuel req body w =
     (case cookieOf req MfaEnrollCookieName of
        None \<Rightarrow> Some (w, [], enrollExpired ''Enrollment session has expired.'')
      | Some token \<Rightarrow>
          if token = [] then Some (w, [], enrollExpired ''Enrollment session has expired.'')
          else (case e_valkey E (HINCRBY (enrollKey token) ''verify_attempts'' 1) (w_vk w) of
                  (RInt attempts, k) \<Rightarrow>
                    if attempts > mfaEnrollVerifyMaxAttempts
                    then Some (w\<lparr>w_vk := valkeyDel E (enrollKey token) k\<rparr>, [],
                               enrollExpired (''Too many failed verification attempts '' @ emDash @ '' please start again.''))
                    else (case body of
                            None \<Rightarrow> Some (w\<lparr>w_vk := k\<rparr>, [], invalidBody)
                          | Some code \<Rightarrow>
                              if length code \<noteq> 6 then Some (w\<lparr>w_vk := k\<rparr>, [], WriteError 401 ''MFA_INVALID_CODE'' ''Invalid code.'')
                              else case hget E (enrollKey token) ''secret_base32'' k of
                                (k1, secret) \<Rightarrow>
                                  if secret = [] then Some (w\<lparr>w_vk := k1\<rparr>, [], enrollExpired startAgain)
                                  else map_option (\<lambda>(k2, r). (w\<lparr>w_vk := k2\<rparr>, [], r))
                                         (enrollVerified E fuel (enrollKey token) secret code k1))
                | (_, k) \<Rightarrow> Some (w\<lparr>w_vk := k\<rparr>, [], internalError)))"

definition completeBody
  :: "'k env \<Rightarrow> authRequest \<Rightarrow> uuid \<Rightarrow> bytes \<Rightarrow> bytes list \<Rightarrow> bool \<Rightarrow> tx \<Rightarrow> authBody response + tx \<times> User" where
  "completeBody E req uid encrypted hashes sessionAuthed t =
     attempt (SetTOTPEnrolled E uid encrypted t) fail500 (\<lambda>t _.
     attempt (RecoveryInsert E uid hashes t) fail500 (\<lambda>t _.
     attempt (UserGetByID E ''mfa.complete'' uid t) fail500 (\<lambda>t u.
     attempt (selfAudit E req (u\<lparr>u_ID := uid\<rparr>) ''mfa.enrollment_completed'' (Some [(''method'', MStr ''totp'')]) t) fail500 (\<lambda>t _.
     attempt (if sessionAuthed then (t, Inr ()) else SetLastLoginAt E uid t) fail500 (\<lambda>t _.
     Inr (t, u))))))"

text \<open>The fields of the enrolment, as \<open>/complete\<close> needs them.\<close>

definition hashField :: "(string \<times> string) list \<Rightarrow> string \<Rightarrow> string" where
  "hashField st f = (case map_of st f of None \<Rightarrow> [] | Some v \<Rightarrow> v)"

definition readEnrollment
  :: "'k env \<Rightarrow> MFAHandler \<Rightarrow> (string \<times> string) list \<Rightarrow> authBody response + (uuid \<times> bytes \<times> bytes list)" where
  "readEnrollment E h st =
     (let userIDStr = hashField st ''user_id''; secret = hashField st ''secret_base32'';
          hashesJSON = hashField st ''recovery_hashes''
      in if userIDStr = [] \<or> secret = [] \<or> hashesJSON = []
         then Inl (WriteError 400 ''MFA_ENROLLMENT_EXPIRED''
                (''Enrollment is not in a state to complete '' @ emDash @ '' please verify a code first.''))
         else case e_uuid_parse E userIDStr of
           None \<Rightarrow> Inl internalError
         | Some userID \<Rightarrow>
             (case e_json_readStrings E hashesJSON of
                None \<Rightarrow> Inl internalError
              | Some hashStrings \<Rightarrow>
                  if length hashStrings \<noteq> 10 then Inl internalError
                  else case Encrypt E secret (mh_EncryptionKey h) (totpSecretAAD (e_uuid_string E userID)) of
                    None \<Rightarrow> Inl internalError
                  | Some encrypted \<Rightarrow> Inr (userID, encrypted, hashStrings)))"

definition PostEnrollmentComplete
  :: "'k env \<Rightarrow> MFAHandler \<Rightarrow> authRequest \<Rightarrow> bool option \<Rightarrow> 'k world \<Rightarrow> 'k world \<times> authReply" where
  "PostEnrollmentComplete E h req body w =
     (case cookieOf req MfaEnrollCookieName of
        None \<Rightarrow> (w, [], enrollExpired ''Enrollment session has expired.'')
      | Some token \<Rightarrow>
          if token = [] then (w, [], enrollExpired ''Enrollment session has expired.'')
          else (case body of
                  None \<Rightarrow> (w, [], invalidBody)
                | Some acknowledged \<Rightarrow>
                    if \<not> acknowledged
                    then (w, [], WriteError 400 ''VALIDATION_ERROR'' ''You must acknowledge the recovery codes.'')
                    else case e_valkey E (HGETALL (enrollKey token)) (w_vk w) of
                      (rep, k) \<Rightarrow>
                        (let st = (case rep of RFields fs \<Rightarrow> fs | _ \<Rightarrow> []);
                             sessionAuthed = (hashField st ''session_authed'' = ''1'')
                         in if st = [] then (w\<lparr>w_vk := k\<rparr>, [], enrollExpired startAgain)
                            else case readEnrollment E h st of
                              Inl r \<Rightarrow> (w\<lparr>w_vk := k\<rparr>, [], r)
                            | Inr (uid, encrypted, hashes) \<Rightarrow>
                                (case inTx E ''mfa.complete'' (completeBody E req uid encrypted hashes sessionAuthed) (w_db w) of
                                   (d, Inl r) \<Rightarrow> (w\<lparr>w_db := d, w_vk := k\<rparr>, [], r)
                                 | (d, Inr u) \<Rightarrow>
                                     (let w1 = w\<lparr>w_db := d, w_vk := valkeyDel E (enrollKey token) k\<rparr>;
                                          clear = mfaCookie MfaEnrollCookieName [] (-1) (mh_SecureCookie h);
                                          reply = SignedIn (userDTO E u) (hashField st ''return_to'')
                                      in if sessionAuthed then (w1, [clear], WriteJSON 200 reply)
                                         else signIn E (mh_SecureCookie h) req [clear] uid [] reply w1)))))"

section \<open>The challenge\<close>

definition challengeExpired :: "'b response" where
  "challengeExpired =
     WriteError 401 ''MFA_CHALLENGE_EXPIRED'' (''Sign-in session expired '' @ emDash @ '' please sign in again.'')"

definition maxAttempts :: "'b response" where
  "maxAttempts =
     WriteError 401 ''MFA_CHALLENGE_MAX_ATTEMPTS'' (''Too many failed attempts '' @ emDash @ '' please sign in again.'')"

definition writeChallengeFailedAudit :: "'k env \<Rightarrow> authRequest \<Rightarrow> string \<Rightarrow> string \<Rightarrow> db \<Rightarrow> db" where
  "writeChallengeFailedAudit E req userID reason d =
     (case beginTx E ''mfa.challengeFailed'' d of
        None \<Rightarrow> d
      | Some t \<Rightarrow>
          (let actor = (if userID = [] then None else e_uuid_parse E userID);
               look = (case actor of
                         None \<Rightarrow> (t, [])
                       | Some uid \<Rightarrow>
                           (case UserGetByID E ''mfa.challengeFailed'' uid t of
                              (t1, Inl e) \<Rightarrow> (t1, [])
                            | (t1, Inr u) \<Rightarrow> (t1, u_Email u)))
           in case authLog E req \<lparr>en_EventType = ''mfa.challenge_failed'', en_ActorID = actor, en_ActorEmail = snd look,
                     en_TargetType = ''user'', en_TargetID = userID, en_ClientID = None, en_IPAddress = authIP E req,
                     en_Outcome = ''failure'', en_Metadata = Some [(''reason'', MStr reason)]\<rparr> (fst look) of
                (t2, Inl e) \<Rightarrow> d
              | (t2, Inr _) \<Rightarrow> fst (commitTx E ''mfa.challengeFailed'' t2 d)))"

text \<open>Every unused code is verified; the first match counts.\<close>

fun scanCodes :: "'k env \<Rightarrow> string \<Rightarrow> uuid option \<Rightarrow> recovery_code list \<Rightarrow> uuid option" where
  "scanCodes E plaintext matchedID [] = matchedID"
| "scanCodes E plaintext matchedID (c # cs) =
     (case VerifyPassword E plaintext (rc_CodeHash c) of
        None \<Rightarrow> scanCodes E plaintext matchedID cs
      | Some ok \<Rightarrow> scanCodes E plaintext (if ok \<and> matchedID = None then Some (rc_ID c) else matchedID) cs)"

definition recoveryBody :: "'k env \<Rightarrow> authRequest \<Rightarrow> User \<Rightarrow> uuid \<Rightarrow> tx \<Rightarrow> authBody response + tx \<times> unit" where
  "recoveryBody E req u matchedID t =
     attempt (RecoveryMarkUsed E matchedID t) fail500 (\<lambda>t _.
     attempt (selfAudit E req u ''login.succeeded'' None t) fail500 (\<lambda>t _.
     attempt (selfAudit E req u ''mfa.challenge_succeeded'' (Some [(''method'', MStr ''recovery_code'')]) t) fail500 (\<lambda>t _.
     attempt (selfAudit E req u ''mfa.recovery_code_used'' (Some [(''code_id'', MStr (e_uuid_string E matchedID))]) t) fail500 (\<lambda>t _.
     attempt (SetLastLoginAt E (u_ID u) t) fail500 (\<lambda>t _.
     Inr (t, ()))))))"

definition totpBody :: "'k env \<Rightarrow> authRequest \<Rightarrow> User \<Rightarrow> uuid \<Rightarrow> int \<Rightarrow> tx \<Rightarrow> authBody response + tx \<times> unit" where
  "totpBody E req u userID step t =
     attempt (AdvanceTOTPCounter E userID step t) fail500 (\<lambda>t _.
     attempt (selfAudit E req (u\<lparr>u_ID := userID\<rparr>) ''login.succeeded'' None t) fail500 (\<lambda>t _.
     attempt (selfAudit E req (u\<lparr>u_ID := userID\<rparr>) ''mfa.challenge_succeeded'' (Some [(''method'', MStr ''totp'')]) t) fail500 (\<lambda>t _.
     attempt (SetLastLoginAt E userID t) fail500 (\<lambda>t _.
     Inr (t, ())))))"

text \<open>What both ways do after the commit: the challenge is gone, the session is created.\<close>

definition passChallenge
  :: "'k env \<Rightarrow> MFAHandler \<Rightarrow> authRequest \<Rightarrow> User \<Rightarrow> uuid \<Rightarrow> string \<Rightarrow> string \<Rightarrow> 'k world \<Rightarrow> 'k world \<times> authReply" where
  "passChallenge E h req u uid key returnTo w =
     signIn E (mh_SecureCookie h) req [mfaCookie MfaChallengeCookieName [] (-1) (mh_SecureCookie h)] uid []
       (SignedIn (userDTO E u) returnTo) (w\<lparr>w_vk := valkeyDel E key (w_vk w)\<rparr>)"

definition verifyRecoveryCode
  :: "'k env \<Rightarrow> MFAHandler \<Rightarrow> authRequest \<Rightarrow> User \<Rightarrow> string \<Rightarrow> string \<Rightarrow> string \<Rightarrow> 'k world \<Rightarrow> 'k world \<times> authReply" where
  "verifyRecoveryCode E h req u plaintext key returnTo w =
     (case snd (ListUnused E (u_ID u) (pool (w_db w))) of
        Inl e \<Rightarrow> (w, [], internalError)
      | Inr codes \<Rightarrow>
          (case scanCodes E plaintext None codes of
             None \<Rightarrow>
               (w\<lparr>w_db := writeChallengeFailedAudit E req (e_uuid_string E (u_ID u)) ''invalid_recovery_code'' (w_db w)\<rparr>, [],
                WriteError 401 ''MFA_INVALID_RECOVERY_CODE'' ''Invalid recovery code.'')
           | Some matchedID \<Rightarrow>
               (case inTx E ''mfa.recovery'' (recoveryBody E req u matchedID) (w_db w) of
                  (d, Inl r) \<Rightarrow> (w\<lparr>w_db := d\<rparr>, [], r)
                | (d, Inr _) \<Rightarrow> passChallenge E h req u (u_ID u) key returnTo (w\<lparr>w_db := d\<rparr>))))"

definition invalidCode
  :: "'k env \<Rightarrow> authRequest \<Rightarrow> uuid \<Rightarrow> int \<Rightarrow> string \<Rightarrow> 'k world \<Rightarrow> 'k world \<times> authReply" where
  "invalidCode E req userID remaining key w =
     (w\<lparr>w_vk := (if remaining = 0 then valkeyDel E key (w_vk w) else w_vk w),
        w_db := writeChallengeFailedAudit E req (e_uuid_string E userID) ''invalid_code'' (w_db w)\<rparr>, [],
      WriteError 401 ''MFA_INVALID_CODE'' ''Invalid code.'')"

definition verifyTotp
  :: "'k env \<Rightarrow> MFAHandler \<Rightarrow> authRequest \<Rightarrow> User \<Rightarrow> uuid \<Rightarrow> string \<Rightarrow> int \<Rightarrow> string \<Rightarrow> string \<Rightarrow> 'k world \<Rightarrow> 'k world \<times> authReply" where
  "verifyTotp E h req u userID code remaining key returnTo w =
     (case Decrypt E (case u_TOTPSecretEncrypted u of None \<Rightarrow> [] | Some b \<Rightarrow> b) (mh_EncryptionKey h)
             (totpSecretAAD (e_uuid_string E (u_ID u))) of
        None \<Rightarrow> (w, [], internalError)
      | Some secret \<Rightarrow>
          (case ValidateTOTP E code secret (u_LastUsedTOTPCounter u) of
             None \<Rightarrow> (w, [], internalError)
           | Some None \<Rightarrow> invalidCode E req userID remaining key w
           | Some (Some step) \<Rightarrow>
               (case inTx E ''mfa.totp'' (totpBody E req u userID step) (w_db w) of
                  (d, Inl r) \<Rightarrow> (w\<lparr>w_db := d\<rparr>, [], r)
                | (d, Inr _) \<Rightarrow> passChallenge E h req u userID key returnTo (w\<lparr>w_db := d\<rparr>))))"

record challengeRequest =
  chr_Code :: string
  chr_RecoveryCode :: string

text \<open>From the attempt that was counted to the answer.\<close>

definition challengeChecked
  :: "'k env \<Rightarrow> MFAHandler \<Rightarrow> authRequest \<Rightarrow> challengeRequest \<Rightarrow> int \<Rightarrow> string \<Rightarrow> 'k world \<Rightarrow> 'k world \<times> authReply" where
  "challengeChecked E h req b remaining key w =
     (case hget E key ''user_id'' (w_vk w) of
        (k, userIDStr) \<Rightarrow>
          if userIDStr = [] then (w\<lparr>w_vk := k\<rparr>, [], challengeExpired)
          else case e_uuid_parse E userIDStr of
            None \<Rightarrow> (w\<lparr>w_vk := k\<rparr>, [], internalError)
          | Some userID \<Rightarrow>
              (case hget E key ''return_to'' k of
                 (k1, returnTo) \<Rightarrow>
                   (let w1 = w\<lparr>w_vk := k1\<rparr> in
                    case snd (UserGetByID E ''mfa.challenge'' userID (pool (w_db w))) of
                      Inl e \<Rightarrow> (w1, [], internalError)
                    | Inr u \<Rightarrow>
                        if chr_RecoveryCode b \<noteq> [] then verifyRecoveryCode E h req u (chr_RecoveryCode b) key returnTo w1
                        else if length (chr_Code b) \<noteq> 6 then invalidCode E req userID remaining key w1
                        else verifyTotp E h req u userID (chr_Code b) remaining key returnTo w1)))"

definition PostChallenge
  :: "'k env \<Rightarrow> MFAHandler \<Rightarrow> authRequest \<Rightarrow> challengeRequest option \<Rightarrow> 'k world \<Rightarrow> 'k world \<times> authReply" where
  "PostChallenge E h req body w =
     (case cookieOf req MfaChallengeCookieName of
        None \<Rightarrow> (w, [], challengeExpired)
      | Some token \<Rightarrow>
          if token = [] then (w, [], challengeExpired)
          else (case body of
                  None \<Rightarrow> (w, [], invalidBody)
                | Some b \<Rightarrow>
                    (case e_valkey E (HINCRBY (challengeKey token) ''attempts_remaining'' (-1)) (w_vk w) of
                       (RInt remaining, k) \<Rightarrow>
                         if remaining < 0
                         then (w\<lparr>w_vk := valkeyDel E (challengeKey token) k,
                                w_db := writeChallengeFailedAudit E req [] ''max_attempts'' (w_db w)\<rparr>, [], maxAttempts)
                         else challengeChecked E h req b remaining (challengeKey token) (w\<lparr>w_vk := k\<rparr>)
                     | (_, k) \<Rightarrow> (w\<lparr>w_vk := k\<rparr>, [], challengeExpired))))"

end
