(* ===== verification/Authorize.thy ===== *)
theory Authorize
  imports Oidc ClientStore Sessions
begin

text \<open>
  \<^verbatim>\<open>internal/authserver/authorize.go\<close> and \<^verbatim>\<open>authcode_store.go\<close>: the authorization endpoint and the
  store of authorization codes. The handler is split at the steps of the source: the checks that
  must not redirect, the request parameters, re-authentication, and the issue of the code. A
  response is the target of the 302 and whether the session cookie is cleared.
\<close>

section \<open>Authorization codes\<close>

definition AuthCodeInsert :: "'k env \<Rightarrow> AuthCodeRow \<Rightarrow> tx \<Rightarrow> tx \<times> (err + unit)" where
  "AuthCodeInsert E row =
     stmt E ''auth_codes.Insert''
       (\<lambda>d. if list_ex (\<lambda>c. ac_CodeHash c = ac_CodeHash row) (db_codes d) then Inl ErrUnique
            else if \<not> list_ex (\<lambda>c. c_ID c = ac_ClientID row) (db_clients d)
                  \<or> \<not> list_ex (\<lambda>u. u_ID u = ac_UserID row) (db_users d)
                  \<or> ac_CodeChallengeMethod row \<noteq> ''S256'' then Inl ErrDB
            else Inr (d\<lparr>db_codes := db_codes d @
                   [AuthCodeRow.extend row (auth_code.fields False (e_pg_now E))]\<rparr>, ()))"

definition codeUsable :: "'k env \<Rightarrow> string \<Rightarrow> auth_code \<Rightarrow> bool" where
  "codeUsable E codeHash c = (ac_CodeHash c = codeHash \<and> \<not> ac_Used c \<and> e_pg_now E < ac_ExpiresAt c)"

definition ConsumeOnce :: "'k env \<Rightarrow> string \<Rightarrow> tx \<Rightarrow> tx \<times> (err + auth_code)" where
  "ConsumeOnce E codeHash t =
     needOne ErrAuthCodeAlreadyUsed
       (stmt E ''auth_codes.ConsumeOnce''
         (\<lambda>d. Inr (d\<lparr>db_codes := map (\<lambda>c. if codeUsable E codeHash c then c\<lparr>ac_Used := True\<rparr> else c)
                                        (db_codes d)\<rparr>,
                   find (codeUsable E codeHash) (db_codes d))) t)"

definition LookupFamilyByCodeHash :: "'k env \<Rightarrow> string \<Rightarrow> tx \<Rightarrow> tx \<times> (err + uuid)" where
  "LookupFamilyByCodeHash E codeHash t =
     needOne ErrNoRows
       (query E ''auth_codes.LookupFamily''
         (\<lambda>d. map_option ac_FamilyID (find (\<lambda>c. ac_CodeHash c = codeHash) (db_codes d))) t)"

section \<open>Helpers\<close>

definition authCodeTTL :: int where "authCodeTTL = 60 * second"

definition containsString :: "string list \<Rightarrow> string \<Rightarrow> bool" where
  "containsString strs want = list_ex (\<lambda>v. v = want) strs"

definition truncateStr :: "string \<Rightarrow> nat \<Rightarrow> string" where
  "truncateStr s n = (if length s > n then take n s else s)"

text \<open>\<open>n = n*10 + uint64(c-'0')\<close> wraps at \<open>2 ^ 64\<close>.\<close>

fun parseUintLoop :: "64 word \<Rightarrow> string \<Rightarrow> 64 word option" where
  "parseUintLoop n [] = Some n"
| "parseUintLoop n (c # cs) =
     (if \<not> isDigitByte c then None
      else parseUintLoop (n * 10 + of_nat (digitVal c)) cs)"

definition parseUint :: "string \<Rightarrow> 64 word option" where
  "parseUint s = (if s = [] then None else parseUintLoop 0 s)"

definition sha256hex :: "'k env \<Rightarrow> bytes \<Rightarrow> string" where
  "sha256hex E b = hexEncode (e_sha256 E b)"

definition nonEmpty :: "string \<Rightarrow> string \<Rightarrow> string" where
  "nonEmpty a fallback = (if a \<noteq> [] then a else fallback)"

datatype authorizeResponse = Redirect string bool

text \<open>\<open>v.Encode()\<close> sorts by key; the keys are given in that order.\<close>

definition appendQuery :: "'k env \<Rightarrow> string \<Rightarrow> (string \<times> string) list \<Rightarrow> string" where
  "appendQuery E dest v =
     (if contains dest ''?'' then dest @ ''&'' @ e_url_encode E v else dest @ ''?'' @ e_url_encode E v)"

definition redirectError :: "'k env \<Rightarrow> string \<Rightarrow> string \<Rightarrow> AuthorizeError \<Rightarrow> authorizeResponse" where
  "redirectError E redirectURI state ae =
     Redirect (appendQuery E redirectURI
       ([(''error'', ae_Code ae)] @
        (if ae_Description ae \<noteq> [] then [(''error_description'', ae_Description ae)] else []) @
        (if state \<noteq> [] then [(''state'', state)] else []))) False"

definition authorizeBestEffortAudit :: "'k env \<Rightarrow> request \<Rightarrow> Entry \<Rightarrow> db \<Rightarrow> db" where
  "authorizeBestEffortAudit E req entry d = bestEffortAudit E ''authorize.audit'' (req_CorrelationID req) entry d"

definition renderLocalError
  :: "'k env \<Rightarrow> request \<Rightarrow> string \<Rightarrow> AuthorizeError \<Rightarrow> (string \<times> metaval) list \<Rightarrow> db \<Rightarrow> db \<times> authorizeResponse" where
  "renderLocalError E req userAgent ae extra d =
     (let corrID = (case NewCorrelationID E of None \<Rightarrow> ''err_unknown'' | Some c \<Rightarrow> c);
          md = extra @ [(''error_ref'', MStr corrID), (''oauth_error'', MStr (ae_Code ae)),
                        (''reason'', MStr (ae_Description ae)),
                        (''user_agent'', MStr (truncateStr userAgent 512))]
      in (authorizeBestEffortAudit E req
            \<lparr>en_EventType = ''oidc.authorize.invalid_request'', en_ActorID = None, en_ActorEmail = [],
             en_TargetType = ''authorize_request'', en_TargetID = [], en_ClientID = None,
             en_IPAddress = clientIP E req, en_Outcome = ''failure'', en_Metadata = Some md\<rparr> d,
          Redirect (''/oidc/error?ref='' @ corrID) False))"

section \<open>Request parameters\<close>

record authorizeParams =
  ap_State :: string
  ap_CodeChallenge :: string
  ap_Method :: string
  ap_Scopes :: "string list"
  ap_Prompt :: string
  ap_MaxAge :: int

definition maxAgeCap :: "64 word" where "maxAgeCap = (2 ^ 63 - 1) div 1000000000"

text \<open>Seconds, capped, as a duration.\<close>

definition maxAgeDuration :: "64 word \<Rightarrow> int" where
  "maxAgeDuration secs = int (unat (if secs > maxAgeCap then maxAgeCap else secs)) * second"

text \<open>An error carries the state to send back with it.\<close>

definition checkParams
  :: "(string \<times> string) list \<Rightarrow> Client \<Rightarrow> (string \<times> AuthorizeError) + authorizeParams" where
  "checkParams q client =
     (let state = formGet q ''state''; codeChallenge = formGet q ''code_challenge'';
          meth = formGet q ''code_challenge_method'';
          scopesStr = (if formGet q ''scope'' = [] then ''openid profile'' else formGet q ''scope'');
          scopes = GoStd.fields scopesStr; prompt = formGet q ''prompt'';
          maxAge = (if formGet q ''max_age'' = [] then Some 0
                    else map_option maxAgeDuration (parseUint (formGet q ''max_age'')))
      in if formGet q ''response_type'' \<noteq> ''code''
         then Inl (formGet q ''state'', ErrUnsupportedResponseType ''only 'code' supported'')
         else if state = [] then Inl ([], ErrInvalidRequest ''state is required'')
         else if codeChallenge = [] \<or> meth \<noteq> ''S256''
         then Inl (state, ErrInvalidRequest ''PKCE S256 required'')
         else if \<not> containsString scopes ''openid''
         then Inl (state, ErrInvalidScope ''openid scope required'')
         else case find (\<lambda>sc. \<not> containsString (c_AllowedScopes client) sc) scopes of
           Some sc \<Rightarrow> Inl (state, ErrInvalidScope (''scope not allowed for client: '' @ sc))
         | None \<Rightarrow>
             if contains prompt '' ''
             then Inl (state, ErrInvalidRequest ''combined prompt values not supported'')
             else if prompt \<noteq> [] \<and> prompt \<noteq> ''none'' \<and> prompt \<noteq> ''login''
             then Inl (state, ErrInvalidRequest ''unsupported prompt value'')
             else case maxAge of
               None \<Rightarrow> Inl (state, ErrInvalidRequest ''max_age invalid'')
             | Some ma \<Rightarrow>
                 Inr \<lparr>ap_State = state, ap_CodeChallenge = codeChallenge, ap_Method = meth,
                      ap_Scopes = scopes, ap_Prompt = prompt, ap_MaxAge = ma\<rparr>)"

section \<open>Re-authentication\<close>

record authorizeRequest =
  ar_Query :: "(string \<times> string) list"
  ar_Path :: string
  ar_RawQuery :: string
  ar_UserAgent :: string
  ar_Cookie :: "string option"
  ar_Req :: request

text \<open>The session read for \<open>max_age\<close> slides its life; a session that cannot be read counts as fresh
  enough.\<close>

definition needReauth
  :: "'k env \<Rightarrow> authorizeRequest \<Rightarrow> authorizeParams \<Rightarrow> User option \<Rightarrow> 'k \<Rightarrow> 'k \<times> bool" where
  "needReauth E r p user k =
     (if user = None \<or> ap_Prompt p = ''login'' then (k, True)
      else if ap_MaxAge p > 0
      then (case ar_Cookie r of
              None \<Rightarrow> (k, False)
            | Some c \<Rightarrow>
                (case sessionGet E sessionTTL c k of
                   (k', SessOk sess) \<Rightarrow> (k', e_go_now E - s_CreatedAt sess > ap_MaxAge p)
                 | (k', _) \<Rightarrow> (k', False)))
      else (k, False))"

definition forceLogin
  :: "'k env \<Rightarrow> authorizeRequest \<Rightarrow> string \<Rightarrow> authorizeParams \<Rightarrow> User option \<Rightarrow> 'k world \<Rightarrow>
      'k world \<times> authorizeResponse" where
  "forceLogin E r redirectURI p user w =
     (if ap_Prompt p = ''none'' then (w, redirectError E redirectURI (ap_State p) ErrLoginRequired)
      else (let login = ''/login?return_to='' @ e_url_queryEscape E (ar_Path r @ ''?'' @ ar_RawQuery r)
            in case user of
                 None \<Rightarrow> (w, Redirect login False)
               | Some u \<Rightarrow>
                   (let k1 = (case ar_Cookie r of
                                None \<Rightarrow> w_vk w
                              | Some c \<Rightarrow> fst (sessionDelete E (e_uuid_string E (u_ID u)) c (w_vk w)));
                        d1 = authorizeBestEffortAudit E (ar_Req r)
                               \<lparr>en_EventType = ''session.reauth_forced'', en_ActorID = Some (u_ID u),
                                en_ActorEmail = u_Email u, en_TargetType = ''user'',
                                en_TargetID = e_uuid_string E (u_ID u), en_ClientID = None,
                                en_IPAddress = clientIP E (ar_Req r), en_Outcome = ''success'',
                                en_Metadata = Some [(''reason'', MStr (''oidc_'' @ nonEmpty (ap_Prompt p) ''max_age''))]\<rparr>
                               (w_db w)
                    in (w\<lparr>w_db := d1, w_vk := k1\<rparr>, Redirect login True))))"

section \<open>Issuing the code\<close>

definition newCodeRow
  :: "'k env \<Rightarrow> string \<Rightarrow> Client \<Rightarrow> User \<Rightarrow> string \<Rightarrow> authorizeParams \<Rightarrow> string \<Rightarrow> AuthCodeRow" where
  "newCodeRow E codeHash client user redirectURI p nonce =
     \<lparr>ac_CodeHash = codeHash, ac_ClientID = c_ID client, ac_UserID = u_ID user,
      ac_RedirectURI = redirectURI, ac_Scopes = ap_Scopes p,
      ac_Nonce = (if nonce \<noteq> [] then Some nonce else None),
      ac_CodeChallenge = ap_CodeChallenge p, ac_CodeChallengeMethod = ap_Method p,
      ac_ExpiresAt = e_go_now E + authCodeTTL, ac_FamilyID = e_new_uuid E ''authorize.family''\<rparr>"

definition issueCode
  :: "'k env \<Rightarrow> authorizeRequest \<Rightarrow> string \<Rightarrow> Client \<Rightarrow> User \<Rightarrow> authorizeParams \<Rightarrow> db \<Rightarrow> db \<times> authorizeResponse" where
  "issueCode E r redirectURI client user p d =
     (let fail = (\<lambda>desc. (d, redirectError E redirectURI (ap_State p) (ErrServerError desc)))
      in case e_rand E ''authorize.code'' 0 32 of
           None \<Rightarrow> fail ''entropy''
         | Some buf \<Rightarrow>
      (let rawCode = base64RawURL buf; codeHash = sha256hex E rawCode;
           row = newCodeRow E codeHash client user redirectURI p (formGet (ar_Query r) ''nonce'')
       in case beginTx E ''authorize'' d of
            None \<Rightarrow> fail ''db begin''
          | Some t0 \<Rightarrow>
      (case AuthCodeInsert E row t0 of
         (t1, Inl e) \<Rightarrow> fail ''db insert''
       | (t1, Inr _) \<Rightarrow>
      (case Log E (req_CorrelationID (ar_Req r))
              \<lparr>en_EventType = ''oidc.authorize.succeeded'', en_ActorID = Some (u_ID user),
               en_ActorEmail = u_Email user, en_TargetType = ''client'',
               en_TargetID = e_uuid_string E (c_ID client), en_ClientID = None,
               en_IPAddress = clientIP E (ar_Req r), en_Outcome = ''success'',
               en_Metadata = Some [(''scopes'', MList (ap_Scopes p)),
                                   (''family_id'', MStr (e_uuid_string E (ac_FamilyID row)))]\<rparr> t1 of
         (t2, Inl e) \<Rightarrow> fail ''audit''
       | (t2, Inr _) \<Rightarrow>
      (case commitTx E ''authorize'' t2 d of
         (d', False) \<Rightarrow> (d', redirectError E redirectURI (ap_State p) (ErrServerError ''commit''))
       | (d', True) \<Rightarrow>
           (d', Redirect (appendQuery E redirectURI [(''code'', rawCode), (''state'', ap_State p)]) False))))))"

section \<open>The handler\<close>

text \<open>Without a user re-authentication is always needed, so the code is issued for a user; the
  empty redirect closes the case distinction and is never taken (\<open>needReauth_user\<close>).\<close>

definition AuthorizeHandle
  :: "'k env \<Rightarrow> authorizeRequest \<Rightarrow> User option \<Rightarrow> 'k world \<Rightarrow> 'k world \<times> authorizeResponse" where
  "AuthorizeHandle E r user w =
     (let q = ar_Query r; clientID = formGet q ''client_id''; redirectURI = formGet q ''redirect_uri'';
          raw = [(''client_id_raw'', MStr (truncateStr clientID 256)),
                 (''redirect_uri_raw'', MStr (truncateStr redirectURI 1024))];
          local = (\<lambda>ae extra. case renderLocalError E (ar_Req r) (ar_UserAgent r) ae extra (w_db w) of
                                (d', resp) \<Rightarrow> (w\<lparr>w_db := d'\<rparr>, resp))
      in if clientID = [] \<or> redirectURI = []
         then local (ErrInvalidRequest ''missing client_id or redirect_uri'') raw
         else case snd (ClientGetByID E ''authorize.GetByID'' clientID (pool (w_db w))) of
           Inl e \<Rightarrow> local (ErrInvalidClient ''unknown or disabled client'') raw
         | Inr client \<Rightarrow>
             if \<not> ValidateRedirectURI client redirectURI
             then local (ErrInvalidRedirectURI ''redirect_uri not registered for client'')
                    [(''client_id'', MStr (e_uuid_string E (c_ID client))),
                     (''redirect_uri_raw'', MStr (truncateStr redirectURI 1024))]
             else case checkParams q client of
               Inl (state, ae) \<Rightarrow> (w, redirectError E redirectURI state ae)
             | Inr p \<Rightarrow>
                 (case needReauth E r p user (w_vk w) of
                    (k1, True) \<Rightarrow> forceLogin E r redirectURI p user (w\<lparr>w_vk := k1\<rparr>)
                  | (k1, False) \<Rightarrow>
                      (case user of
                         None \<Rightarrow> (w, Redirect [] False)
                       | Some u \<Rightarrow>
                           (case issueCode E r redirectURI client u p (w_db w) of
                              (d', resp) \<Rightarrow> (w\<lparr>w_vk := k1, w_db := d'\<rparr>, resp)))))"

section \<open>Laws of the steps\<close>

lemma ConsumeOnce_Inr:
  assumes "ConsumeOnce E h t = (t', Inr row)"
  shows "row \<in> set (db_codes (tx_db t)) \<and> codeUsable E h row \<and> \<not> tx_aborted t' \<and>
    t' = t\<lparr>tx_db := (tx_db t)\<lparr>db_codes := map (\<lambda>c. if codeUsable E h c then c\<lparr>ac_Used := True\<rparr> else c)
                                          (db_codes (tx_db t))\<rparr>\<rparr>"
  using assms find_Some_D [of "codeUsable E h" "db_codes (tx_db t)" row]
  by (auto simp: ConsumeOnce_def needOne_Inr stmt_Inr)

text \<open>A consumed code cannot be consumed again.\<close>

lemma ConsumeOnce_once:
  assumes "ConsumeOnce E h t = (t', Inr row)"
  shows "find (codeUsable E' h) (db_codes (tx_db t')) = None \<or>
    (\<exists>c\<in>set (db_codes (tx_db t)). codeUsable E' h c \<and> \<not> codeUsable E h c)"
  using ConsumeOnce_Inr [OF assms]
  by (auto simp: find_None_iff codeUsable_def split: if_splits)

lemma needReauth_user: "needReauth E r p user k = (k', False) \<Longrightarrow> \<exists>u. user = Some u \<and> ap_Prompt p \<noteq> ''login''"
  by (auto simp: needReauth_def split: if_splits)

text \<open>What a query may be put after: \<open>?\<close>, or \<open>&\<close> where the address has a query already.\<close>

definition querySep :: "string \<Rightarrow> string" where
  "querySep uri = (if CHR ''?'' \<in> set uri then ''&'' else ''?'')"

lemma contains_char: "contains s [c] \<longleftrightarrow> c \<in> set s"
  by (induction s) (auto simp: hasPrefix_def)

lemma appendQuery_shape: "appendQuery E dest v = dest @ querySep dest @ e_url_encode E v"
  by (simp add: appendQuery_def querySep_def contains_char)

lemma redirectError_shape:
  "\<exists>v. redirectError E uri state ae = Redirect (uri @ querySep uri @ e_url_encode E v) False"
  unfolding redirectError_def appendQuery_shape by blast

lemma renderLocalError_resp:
  "\<exists>ref. snd (renderLocalError E req ua ae extra d) = Redirect (''/oidc/error?ref='' @ ref) False"
  by (simp add: renderLocalError_def Let_def)

lemma renderLocalError_codes [simp]: "db_codes (fst (renderLocalError E req ua ae extra d)) = db_codes d"
  by (simp add: renderLocalError_def Let_def authorizeBestEffortAudit_def)

lemma issueCode_shape:
  "\<exists>v. snd (issueCode E r uri client u p d) = Redirect (uri @ querySep uri @ e_url_encode E v) False"
  using redirectError_shape [of E uri] appendQuery_shape [of E uri]
  by (auto simp: issueCode_def Let_def split: option.splits prod.splits sum.splits bool.splits)

lemma forceLogin_shape:
  "(\<exists>v. snd (forceLogin E r uri p user w) = Redirect (uri @ querySep uri @ e_url_encode E v) False) \<or>
   (\<exists>ret c. snd (forceLogin E r uri p user w) = Redirect (''/login?return_to='' @ ret) c)"
  using redirectError_shape [of E uri "ap_State p" ErrLoginRequired]
  by (auto simp: forceLogin_def Let_def split: option.splits)

lemma forceLogin_codes [simp]:
  "db_codes (w_db (fst (forceLogin E r uri p user w))) = db_codes (w_db w)"
  by (auto simp: forceLogin_def Let_def authorizeBestEffortAudit_def split: option.splits)

text \<open>How the handler runs: an answer on this site, or past the client and redirect checks.\<close>

lemma AuthorizeHandle_cases:
  obtains (local_err) d' ref where
    "AuthorizeHandle E r user w = (w\<lparr>w_db := d'\<rparr>, Redirect (''/oidc/error?ref='' @ ref) False)"
    "db_codes d' = db_codes (w_db w)"
  | (params) client state ae where
    "snd (ClientGetByID E ''authorize.GetByID'' (formGet (ar_Query r) ''client_id'') (pool (w_db w))) = Inr client"
    "ValidateRedirectURI client (formGet (ar_Query r) ''redirect_uri'')"
    "AuthorizeHandle E r user w = (w, redirectError E (formGet (ar_Query r) ''redirect_uri'') state ae)"
  | (login) client p k1 where
    "snd (ClientGetByID E ''authorize.GetByID'' (formGet (ar_Query r) ''client_id'') (pool (w_db w))) = Inr client"
    "ValidateRedirectURI client (formGet (ar_Query r) ''redirect_uri'')"
    "checkParams (ar_Query r) client = Inr p" "needReauth E r p user (w_vk w) = (k1, True)"
    "AuthorizeHandle E r user w = forceLogin E r (formGet (ar_Query r) ''redirect_uri'') p user (w\<lparr>w_vk := k1\<rparr>)"
  | (issue) client p k1 u d' resp where
    "snd (ClientGetByID E ''authorize.GetByID'' (formGet (ar_Query r) ''client_id'') (pool (w_db w))) = Inr client"
    "ValidateRedirectURI client (formGet (ar_Query r) ''redirect_uri'')"
    "checkParams (ar_Query r) client = Inr p" "needReauth E r p user (w_vk w) = (k1, False)" "user = Some u"
    "issueCode E r (formGet (ar_Query r) ''redirect_uri'') client u p (w_db w) = (d', resp)"
    "AuthorizeHandle E r user w = (w\<lparr>w_vk := k1, w_db := d'\<rparr>, resp)"
proof -
  let ?cid = "formGet (ar_Query r) ''client_id''" and ?uri = "formGet (ar_Query r) ''redirect_uri''"
  let ?get = "snd (ClientGetByID E ''authorize.GetByID'' ?cid (pool (w_db w)))"
  have local: thesis
    if "AuthorizeHandle E r user w = (case renderLocalError E (ar_Req r) (ar_UserAgent r) ae extra (w_db w) of
          (d', resp) \<Rightarrow> (w\<lparr>w_db := d'\<rparr>, resp))" for ae extra
    using that local_err renderLocalError_resp [of E "ar_Req r" "ar_UserAgent r" ae extra "w_db w"]
      renderLocalError_codes [of E "ar_Req r" "ar_UserAgent r" ae extra "w_db w"]
    by (cases "renderLocalError E (ar_Req r) (ar_UserAgent r) ae extra (w_db w)") auto
  show thesis
  proof (cases "?cid = [] \<or> ?uri = []")
    case True
    then show thesis by (intro local) (simp add: AuthorizeHandle_def Let_def)
  next
    case c1: False
    show thesis
    proof (cases ?get)
      case (Inl e)
      with c1 show thesis by (intro local) (simp add: AuthorizeHandle_def Let_def)
    next
      case c2: (Inr client)
      show thesis
      proof (cases "ValidateRedirectURI client ?uri")
        case False
        with c1 c2 show thesis by (intro local) (simp add: AuthorizeHandle_def Let_def)
      next
        case c3: True
        show thesis
        proof (cases "checkParams (ar_Query r) client")
          case (Inl e)
          with c1 c2 c3 show thesis
            by (cases e) (auto intro!: params simp: AuthorizeHandle_def Let_def)
        next
          case c4: (Inr p)
          obtain k1 b where c5: "needReauth E r p user (w_vk w) = (k1, b)" by fastforce
          show thesis
          proof (cases b)
            case True
            with c1 c2 c3 c4 c5 show thesis by (intro login) (simp_all add: AuthorizeHandle_def Let_def)
          next
            case False
            with c5 have "needReauth E r p user (w_vk w) = (k1, False)" by simp
            from needReauth_user [OF this] obtain u where u: "user = Some u" by blast
            obtain d' resp where i: "issueCode E r ?uri client u p (w_db w) = (d', resp)" by fastforce
            with c1 c2 c3 c4 c5 u False show thesis
              by (intro issue) (simp_all add: AuthorizeHandle_def Let_def)
          qed
        qed
      qed
    qed
  qed
qed

section \<open>Redirects\<close>

lemma GetByID_pool:
  assumes "snd (ClientGetByID E site cid (pool d)) = Inr client"
  shows "client \<in> set (db_clients d) \<and> e_uuid_parse E cid = Some (c_ID client) \<and> c_Status client = ''active''"
  using assms ClientGetByID_Inr [of E site cid "pool d" _ client]
  by (cases "ClientGetByID E site cid (pool d)") auto

lemma AuthorizeHandle_dest:
  "case AuthorizeHandle E r user w of (w', Redirect dest clear) \<Rightarrow>
     hasPrefix dest ''/oidc/error?ref='' \<or> hasPrefix dest ''/login?return_to='' \<or>
     (\<exists>client \<in> set (db_clients (w_db w)). \<exists>uri v.
        e_uuid_parse E (formGet (ar_Query r) ''client_id'') = Some (c_ID client) \<and> c_Status client = ''active'' \<and>
        uri = formGet (ar_Query r) ''redirect_uri'' \<and> uri \<in> set (c_RedirectURIs client) \<and>
        dest = uri @ querySep uri @ e_url_encode E v)"
proof -
  let ?uri = "formGet (ar_Query r) ''redirect_uri''"
  have registered: ?thesis
    if "snd (ClientGetByID E ''authorize.GetByID'' (formGet (ar_Query r) ''client_id'') (pool (w_db w))) = Inr client"
      "ValidateRedirectURI client ?uri"
      "AuthorizeHandle E r user w = (w', Redirect (?uri @ querySep ?uri @ e_url_encode E v) c)" for client w' v c
    using GetByID_pool [OF that(1)] that(2) [unfolded ValidateRedirectURI_iff] that(3) by (simp, blast)
  show ?thesis
  proof (cases rule: AuthorizeHandle_cases [of E r user w])
    case local_err
    then show ?thesis by (simp add: hasPrefix_def)
  next
    case (params client state ae)
    obtain v where "redirectError E ?uri state ae = Redirect (?uri @ querySep ?uri @ e_url_encode E v) False"
      using redirectError_shape by blast
    then show ?thesis
      using registered [OF params(1,2), of w v False] unfolding params(3) by blast
  next
    case (login client p k1)
    then show ?thesis
      using registered [OF login(1,2), of "fst (AuthorizeHandle E r user w)" _ False]
        forceLogin_shape [of E r ?uri p user "w\<lparr>w_vk := k1\<rparr>"]
      by (cases "AuthorizeHandle E r user w") (auto simp: hasPrefix_def)
  next
    case (issue client p k1 u d' resp)
    then show ?thesis
      using registered [OF issue(1,2), of "fst (AuthorizeHandle E r user w)" _ False]
        issueCode_shape [of E r ?uri client u p "w_db w"]
      by (cases "AuthorizeHandle E r user w") auto
  qed
qed

text \<open>C28. The authorization endpoint never sends the browser to an address of the caller's choice: every
  answer redirects to this site's error page, to this site's login page, or to the requested redirect
  URI, which then is registered, letter by letter, for the active client named in the request, and is
  extended only by an encoded query: after a question mark, or after an ampersand where the registered
  address has a question mark already.\<close>

theorem authorize_redirect_safe:
  "case AuthorizeHandle E r user w of (w', Redirect dest clear) \<Rightarrow>
     hasPrefix dest ''/oidc/error?ref='' \<or> hasPrefix dest ''/login?return_to='' \<or>
     (\<exists>client \<in> set (db_clients (w_db w)). \<exists>uri v.
        e_uuid_parse E (formGet (ar_Query r) ''client_id'') = Some (c_ID client) \<and> c_Status client = ''active'' \<and>
        uri = formGet (ar_Query r) ''redirect_uri'' \<and> uri \<in> set (c_RedirectURIs client) \<and>
        dest = uri @ (if CHR ''?'' \<in> set uri then ''&'' else ''?'') @ e_url_encode E v)"
  using AuthorizeHandle_dest [where E = E and r = r and user = user and w = w] unfolding querySep_def .

section \<open>Issued codes\<close>

lemma issueCode_cases:
  assumes "issueCode E r uri client u p d = (d', resp)"
  shows "d' = d \<or>
    (\<exists>buf row. e_rand E ''authorize.code'' 0 32 = Some buf \<and>
       row = AuthCodeRow.extend (newCodeRow E (sha256hex E (base64RawURL buf)) client u uri p (formGet (ar_Query r) ''nonce''))
               (auth_code.fields False (e_pg_now E)) \<and>
       db_codes d' = db_codes d @ [row] \<and>
       (\<exists>al. db_audit_logs d' = db_audit_logs d @ [al] \<and> al_EventType al = ''oidc.authorize.succeeded'' \<and>
             al_ActorID al = Some (u_ID u)) \<and>
       resp = Redirect (appendQuery E uri [(''code'', base64RawURL buf), (''state'', ap_State p)]) False)"
proof (cases "d' = d")
  case False
  with assms obtain buf t1 t2 en where buf: "e_rand E ''authorize.code'' 0 32 = Some buf"
    and ins: "AuthCodeInsert E (newCodeRow E (sha256hex E (base64RawURL buf)) client u uri p (formGet (ar_Query r) ''nonce''))
                (pool d) = (t1, Inr ())"
    and log: "Log E (req_CorrelationID (ar_Req r)) en t1 = (t2, Inr ())"
    and en: "en_EventType en = ''oidc.authorize.succeeded''" "en_ActorID en = Some (u_ID u)"
    and c: "commitTx E ''authorize'' t2 d = (d', True)"
    and resp: "resp = Redirect (appendQuery E uri [(''code'', base64RawURL buf), (''state'', ap_State p)]) False"
    by (auto simp: issueCode_def Let_def beginTx_Some commitTx_def
        split: option.splits prod.splits sum.splits bool.splits if_splits)
  let ?row = "AuthCodeRow.extend (newCodeRow E (sha256hex E (base64RawURL buf)) client u uri p (formGet (ar_Query r) ''nonce''))
               (auth_code.fields False (e_pg_now E))"
  from ins have t1: "tx_db t1 = d\<lparr>db_codes := db_codes d @ [?row]\<rparr>"
    by (auto simp: AuthCodeInsert_def stmt_Inr split: if_splits)
  have d': "d' = tx_db t2" using c by (simp add: commitTx_True)
  have "db_codes d' = db_codes d @ [?row]" using Log_tables(3) [OF log] t1 d' by simp
  moreover have "\<exists>al. db_audit_logs d' = db_audit_logs d @ [al] \<and>
      al_EventType al = ''oidc.authorize.succeeded'' \<and> al_ActorID al = Some (u_ID u)"
    using Log_Inr [OF log] t1 d' en by (auto simp: auditRow_def)
  ultimately show ?thesis using buf resp by blast
qed simp

lemma checkParams_Inr:
  assumes "checkParams q client = Inr p"
  shows "ap_State p = formGet q ''state'' \<and> formGet q ''state'' \<noteq> [] \<and>
    ap_CodeChallenge p = formGet q ''code_challenge'' \<and> formGet q ''code_challenge'' \<noteq> [] \<and> ap_Method p = ''S256'' \<and>
    formGet q ''code_challenge_method'' = ''S256'' \<and> ''openid'' \<in> set (ap_Scopes p) \<and>
    set (ap_Scopes p) \<subseteq> set (c_AllowedScopes client) \<and> ap_Prompt p = formGet q ''prompt'' \<and>
    formGet q ''response_type'' = ''code'' \<and>
    ap_Scopes p = GoStd.fields (if formGet q ''scope'' = [] then ''openid profile'' else formGet q ''scope'')"
  using assms
  by (auto simp: checkParams_def Let_def containsString_def list_ex_iff find_None_iff
      split: if_splits option.splits)

text \<open>C31. A code is issued only in these circumstances, and then with exactly this row: the request is
  authenticated, the client is active and owns the redirect URI, the response type is \<open>code\<close>, a
  state and an S256 challenge are present, the scopes include \<open>openid\<close> and are all allowed for the
  client, and \<open>prompt\<close> is not \<open>login\<close>. The row is unused and expires after a minute; it stores only the
  hash of the 32 random bytes that the client gets as its code; its scopes are the requested ones, or
  \<open>openid profile\<close> where none are requested, its nonce the requested one, if there is one, and its token
  family is fresh from the generator. It is written together with its audit row.\<close>

theorem authorize_issues_code:
  assumes h: "AuthorizeHandle E r user w = (w', resp)" and new: "db_codes (w_db w') \<noteq> db_codes (w_db w)"
  shows "\<exists>u client uri scopes nonce buf rawCode. user = Some u \<and> client \<in> set (db_clients (w_db w)) \<and>
    c_Status client = ''active'' \<and> e_uuid_parse E (formGet (ar_Query r) ''client_id'') = Some (c_ID client) \<and>
    uri = formGet (ar_Query r) ''redirect_uri'' \<and> uri \<in> set (c_RedirectURIs client) \<and>
    formGet (ar_Query r) ''response_type'' = ''code'' \<and> formGet (ar_Query r) ''prompt'' \<noteq> ''login'' \<and>
    formGet (ar_Query r) ''state'' \<noteq> [] \<and> formGet (ar_Query r) ''code_challenge'' \<noteq> [] \<and>
    formGet (ar_Query r) ''code_challenge_method'' = ''S256'' \<and>
    scopes = GoStd.fields (if formGet (ar_Query r) ''scope'' = [] then ''openid profile'' else formGet (ar_Query r) ''scope'') \<and>
    ''openid'' \<in> set scopes \<and> set scopes \<subseteq> set (c_AllowedScopes client) \<and>
    nonce = formGet (ar_Query r) ''nonce'' \<and>
    e_rand E ''authorize.code'' 0 32 = Some buf \<and> rawCode = base64RawURL buf \<and>
    db_codes (w_db w') = db_codes (w_db w) @
      [\<lparr>ac_CodeHash = hexEncode (e_sha256 E rawCode), ac_ClientID = c_ID client, ac_UserID = u_ID u,
        ac_RedirectURI = uri, ac_Scopes = scopes, ac_Nonce = (if nonce = [] then None else Some nonce),
        ac_CodeChallenge = formGet (ar_Query r) ''code_challenge'', ac_CodeChallengeMethod = ''S256'',
        ac_ExpiresAt = e_go_now E + 60 * second, ac_FamilyID = e_new_uuid E ''authorize.family'',
        ac_Used = False, ac_CreatedAt = e_pg_now E\<rparr>] \<and>
    resp = Redirect (uri @ (if CHR ''?'' \<in> set uri then ''&'' else ''?'') @
             e_url_encode E [(''code'', rawCode), (''state'', formGet (ar_Query r) ''state'')]) False \<and>
    (\<exists>al. db_audit_logs (w_db w') = db_audit_logs (w_db w) @ [al] \<and>
          al_EventType al = ''oidc.authorize.succeeded'' \<and> al_ActorID al = Some (u_ID u))"
proof (cases rule: AuthorizeHandle_cases [of E r user w])
  case local_err
  with h new show ?thesis by auto
next
  case params
  with h new show ?thesis by auto
next
  case (login client p k1)
  with h have "w' = fst (forceLogin E r (formGet (ar_Query r) ''redirect_uri'') p user (w\<lparr>w_vk := k1\<rparr>))" by simp
  with new show ?thesis by simp
next
  case (issue client p k1 u d' resp')
  let ?uri = "formGet (ar_Query r) ''redirect_uri''"
  from h issue have w': "w' = w\<lparr>w_vk := k1, w_db := d'\<rparr>" "resp = resp'" by auto
  with new have "d' \<noteq> w_db w" by auto
  with issueCode_cases [OF issue(6)] w' obtain buf row al where
    buf: "e_rand E ''authorize.code'' 0 32 = Some buf" and row: "row = AuthCodeRow.extend (newCodeRow E (sha256hex E (base64RawURL buf)) client u ?uri p (formGet (ar_Query r) ''nonce''))
               (auth_code.fields False (e_pg_now E))"
    and codes: "db_codes d' = db_codes (w_db w) @ [row]"
    and al: "db_audit_logs d' = db_audit_logs (w_db w) @ [al]" "al_EventType al = ''oidc.authorize.succeeded''"
      "al_ActorID al = Some (u_ID u)"
    and resp: "resp = Redirect (appendQuery E ?uri [(''code'', base64RawURL buf), (''state'', ap_State p)]) False"
    by blast
  note params = checkParams_Inr [OF issue(3)]
  let ?scopes = "GoStd.fields (if formGet (ar_Query r) ''scope'' = [] then ''openid profile'' else formGet (ar_Query r) ''scope'')"
    and ?nonce = "formGet (ar_Query r) ''nonce''"
  have r: "row = \<lparr>ac_CodeHash = hexEncode (e_sha256 E (base64RawURL buf)), ac_ClientID = c_ID client, ac_UserID = u_ID u,
        ac_RedirectURI = ?uri, ac_Scopes = ?scopes, ac_Nonce = (if ?nonce = [] then None else Some ?nonce),
        ac_CodeChallenge = formGet (ar_Query r) ''code_challenge'', ac_CodeChallengeMethod = ''S256'',
        ac_ExpiresAt = e_go_now E + 60 * second, ac_FamilyID = e_new_uuid E ''authorize.family'',
        ac_Used = False, ac_CreatedAt = e_pg_now E\<rparr>"
    using params by (simp add: row newCodeRow_def AuthCodeRow.defs auth_code.defs authCodeTTL_def sha256hex_def)
  have answer: "resp = Redirect (?uri @ querySep ?uri @
      e_url_encode E [(''code'', base64RawURL buf), (''state'', formGet (ar_Query r) ''state'')]) False"
    using params unfolding resp appendQuery_shape by simp
  have added: "db_codes (w_db w') = db_codes (w_db w) @ [row]" "db_audit_logs (w_db w') = db_audit_logs (w_db w) @ [al]"
    using w'(1) codes al(1) by simp_all
  have scopes: "''openid'' \<in> set ?scopes" "set ?scopes \<subseteq> set (c_AllowedScopes client)"
    using params by metis+
  have prompt: "formGet (ar_Query r) ''prompt'' \<noteq> ''login''"
    using needReauth_user [OF issue(4)] params by auto
  note facts = GetByID_pool [OF issue(1)] issue(2) [unfolded ValidateRedirectURI_iff] issue(5) params scopes prompt buf
    added(1) [unfolded r] added(2) al(2,3) answer [unfolded querySep_def]
  show ?thesis
    by (insert facts, elim conjE, rule exI [of _ u], rule exI [of _ client], rule exI [of _ ?uri],
        rule exI [of _ ?scopes], rule exI [of _ ?nonce], rule exI [of _ buf],
        rule exI [of _ "base64RawURL buf"], intro conjI) (rule refl | assumption | blast)+
qed

definition sampleDB :: db where
  "sampleDB = emptyDB\<lparr>db_users := [sampleUser], db_clients := [sampleClient]\<rparr>"

definition sampleAuthorize :: "(string \<times> string) list \<Rightarrow> authorizeRequest" where
  "sampleAuthorize extra =
     \<lparr>ar_Query = extra @ [(''client_id'', ''9''), (''redirect_uri'', ''https://app/cb''), (''response_type'', ''code''),
                 (''state'', ''xyz''), (''code_challenge'', ''ch''), (''code_challenge_method'', ''S256''),
                 (''scope'', ''openid offline_access'')],
      ar_Path = ''/authorize'', ar_RawQuery = ''q'', ar_UserAgent = [], ar_Cookie = None, ar_Req = sampleRequest\<rparr>"

lemma sampleFields: "GoStd.fields ''openid offline_access'' = [''openid'', ''offline_access'']"
  by (simp add: GoStd.fields_def isSpaceByte_def)

lemma sampleParse9: "e_uuid_parse sampleEnv ''9'' = Some 9"
  by (simp add: sampleEnv_def isDigitByte_def readNat_def digitVal_def)

lemma sampleCheckParams:
  "checkParams (ar_Query (sampleAuthorize [])) sampleClient =
     Inr \<lparr>ap_State = ''xyz'', ap_CodeChallenge = ''ch'', ap_Method = ''S256'',
          ap_Scopes = [''openid'', ''offline_access''], ap_Prompt = [], ap_MaxAge = 0\<rparr>"
  by (simp add: checkParams_def sampleAuthorize_def formGet_def sampleFields containsString_def sampleClient_def Let_def)

lemma sampleIssue:
  "\<exists>w' resp. AuthorizeHandle sampleEnv (sampleAuthorize []) (Some sampleUser) \<lparr>w_db = sampleDB, w_vk = (\<lambda>k. None)\<rparr> = (w', resp) \<and>
     length (db_codes (w_db w')) = 1"
  using sampleCheckParams
  by (simp add: AuthorizeHandle_def Let_def ClientGetByID_def clientSelect_def sampleParse9 needOne_def query_def stmt_def
      sampleDB_def ValidateRedirectURI_def needReauth_def issueCode_def newCodeRow_def AuthCodeInsert_def beginTx_def
      Log_def commitTx_def clientIP_def extractClientIP_def sampleRequest_def sampleUser_def emptyDB_def
      sampleAuthorize_def formGet_def sampleClient_def)

theorem authorize_issues_code_witness:
  "\<exists>w' resp row. AuthorizeHandle sampleEnv (sampleAuthorize []) (Some sampleUser) \<lparr>w_db = sampleDB, w_vk = (\<lambda>k. None)\<rparr> = (w', resp) \<and>
     db_codes (w_db w') = [row] \<and> \<not> ac_Used row \<and> ac_UserID row = 7"
proof -
  obtain w' resp where h: "AuthorizeHandle sampleEnv (sampleAuthorize []) (Some sampleUser)
      \<lparr>w_db = sampleDB, w_vk = (\<lambda>k. None)\<rparr> = (w', resp)" and len: "length (db_codes (w_db w')) = 1"
    using sampleIssue by blast
  have old: "db_codes (w_db \<lparr>w_db = sampleDB, w_vk = (\<lambda>k. None)\<rparr>) = []" by (simp add: sampleDB_def emptyDB_def)
  have "db_codes (w_db w') \<noteq> db_codes (w_db \<lparr>w_db = sampleDB, w_vk = (\<lambda>k. None)\<rparr>)"
    unfolding old using len by auto
  from authorize_issues_code [OF h this] h old show ?thesis by (auto simp: sampleUser_def)
qed

section \<open>prompt=login\<close>

text \<open>A request with \<open>prompt=login\<close> never gets a code, however often the user logs in: an otherwise
  valid one is always answered with a redirect to the login page whose \<open>return_to\<close> is the very same
  request, so that coming back from the login starts over.\<close>

lemma prompt_login_loops:
  assumes "formGet (ar_Query r) ''prompt'' = ''login''"
    and "snd (ClientGetByID E ''authorize.GetByID'' (formGet (ar_Query r) ''client_id'') (pool (w_db w))) = Inr client"
    and "ValidateRedirectURI client (formGet (ar_Query r) ''redirect_uri'')"
    and "formGet (ar_Query r) ''client_id'' \<noteq> []" and "formGet (ar_Query r) ''redirect_uri'' \<noteq> []"
    and p: "checkParams (ar_Query r) client = Inr p"
  shows "db_codes (w_db (fst (AuthorizeHandle E r user w))) = db_codes (w_db w) \<and>
    (\<exists>clear. snd (AuthorizeHandle E r user w) =
       Redirect (''/login?return_to='' @ e_url_queryEscape E (ar_Path r @ ''?'' @ ar_RawQuery r)) clear)"
proof -
  have login: "ap_Prompt p = ''login''" using checkParams_Inr [OF p] assms(1) by simp
  have "AuthorizeHandle E r user w = forceLogin E r (formGet (ar_Query r) ''redirect_uri'') p user (w\<lparr>w_vk := w_vk w\<rparr>)"
    using assms login by (simp add: AuthorizeHandle_def Let_def needReauth_def)
  moreover have "\<exists>clear. snd (forceLogin E r uri p user w1) =
       Redirect (''/login?return_to='' @ e_url_queryEscape E (ar_Path r @ ''?'' @ ar_RawQuery r)) clear" for uri w1
    using login by (auto simp: forceLogin_def Let_def split: option.splits)
  ultimately show ?thesis by simp
qed

section \<open>max\_age\<close>

lemma parseUintLoop_eq:
  "parseUintLoop (of_nat n) s =
     (if list_all isDigitByte s then Some (of_nat (foldl (\<lambda>n c. n * 10 + digitVal c) n s)) else None)"
proof (induction s arbitrary: n)
  case (Cons c cs)
  have "(of_nat n * 10 + of_nat (digitVal c) :: 64 word) = of_nat (n * 10 + digitVal c)" by simp
  then show ?case using Cons.IH [of "n * 10 + digitVal c"] by (simp del: of_nat_add of_nat_mult)
qed simp

lemma maxAgeCap_bound: "unat (if secs > maxAgeCap then maxAgeCap else secs) \<le> unat maxAgeCap"
  by (auto simp: word_le_nat_alt not_less)

text \<open>\<open>parseUint\<close> accepts exactly the non-empty strings of decimal digits and returns their value
  modulo \<open>2\<^sup>6\<^sup>4\<close>: the cap on \<open>max_age\<close> keeps the duration within 63 bits, but it is applied
  after the wrap-around, so that \<open>max_age=18446744073709551616\<close> is read as 0, which means no limit.\<close>

lemma parseUint_wraps:
  "parseUint s = (if s \<noteq> [] \<and> list_all isDigitByte s then Some (of_nat (readNat s)) else None)
   \<and> 0 \<le> maxAgeDuration n \<and> maxAgeDuration n < 2 ^ 63
   \<and> map_option maxAgeDuration (parseUint ''18446744073709551616'') = Some 0"
proof (intro conjI)
  show "parseUint s = (if s \<noteq> [] \<and> list_all isDigitByte s then Some (of_nat (readNat s)) else None)"
    using parseUintLoop_eq [of 0 s] by (simp add: parseUint_def readNat_def)
  show "0 \<le> maxAgeDuration n" by (simp add: maxAgeDuration_def second_def)
  have "unat maxAgeCap = 9223372036" by (simp add: maxAgeCap_def)
  then have "int (unat (if n > maxAgeCap then maxAgeCap else n)) \<le> 9223372036"
    using maxAgeCap_bound [of n] by linarith
  moreover have "x * second < 2 ^ 63" if "x \<le> 9223372036" for x using that by (simp add: second_def)
  ultimately show "maxAgeDuration n < 2 ^ 63" unfolding maxAgeDuration_def by blast
  have z: "(18446744073709551616 :: 64 word) = 0" by code_simp
  have "parseUint ''18446744073709551616'' = Some 18446744073709551616"
    by (simp add: parseUint_def isDigitByte_def digitVal_def)
  then show "map_option maxAgeDuration (parseUint ''18446744073709551616'') = Some 0"
    unfolding z by (simp add: maxAgeDuration_def)
qed

end
