(* ===== verification/Token.thy ===== *)
theory Token
  imports Authorize InstanceConfig UserStore
begin

text \<open>
  \<^verbatim>\<open>internal/authserver/token.go\<close>: the token endpoint with its two grants. Both handlers are split
  at the steps of the source. In the authorization code grant everything after \<open>ConsumeOnce\<close> runs
  in one transaction; a refused exchange commits it, so that the code is burned together with its
  audit row, and an internal error rolls it back. In the refresh grant the Valkey store carries
  the state and the database only the audit row.
\<close>

section \<open>Requests and replies\<close>

record tokenResponse =
  tr_AccessToken :: string
  tr_TokenType :: string
  tr_ExpiresIn :: int
  tr_RefreshToken :: string
  tr_IDToken :: string
  tr_Scope :: string

datatype tokenReply = TokenError nat string string | TokenOK tokenResponse

record TokenHandler =
  th_publicURL :: string
  th_encryptionKey :: bytes
  th_tokenRateLimit :: int

text \<open>The body after \<open>ParseForm\<close>; \<open>None\<close> is a malformed or oversized one.\<close>

record tokenRequest =
  tq_Form :: "(string \<times> string) list option"
  tq_Req :: request

abbreviation postForm :: "tokenRequest \<Rightarrow> string \<Rightarrow> string" where
  "postForm r key \<equiv> formGet (case tq_Form r of None \<Rightarrow> [] | Some f \<Rightarrow> f) key"

section \<open>Helpers\<close>

definition intersectScopesAgainstClient :: "string list \<Rightarrow> string list \<Rightarrow> string list option" where
  "intersectScopesAgainstClient granted allowed =
     (let out = filter (\<lambda>s. s \<in> set allowed) granted in if out = [] then None else Some out)"

text \<open>The fixed window of one minute; the reply of \<open>EXPIRE\<close> is ignored, and an error of \<open>INCR\<close>
  lets the request pass.\<close>

definition rateLimitCheck :: "'k env \<Rightarrow> TokenHandler \<Rightarrow> string \<Rightarrow> 'k \<Rightarrow> 'k \<times> bool option" where
  "rateLimitCheck E h clientID k =
     (let key = ''ratelimit:oidc:token:'' @ clientID
      in case e_valkey E (INCR key) k of
           (RInt count, k1) \<Rightarrow>
             (let k2 = (if count = 1 then snd (e_valkey E (EXPIRE key (60 * second)) k1) else k1)
              in (k2, Some (count \<le> th_tokenRateLimit h)))
         | (_, k1) \<Rightarrow> (k1, None))"

text \<open>\<open>time.Duration(secs) * time.Second\<close> wraps at 64 bits; \<open>int(d.Seconds())\<close> truncates.\<close>

definition int64 :: "int \<Rightarrow> int" where
  "int64 n = (n + 2 ^ 63) mod 2 ^ 64 - 2 ^ 63"

definition wholeSeconds :: "int \<Rightarrow> int" where
  "wholeSeconds d = (if d < 0 then - (- d div second) else d div second)"

definition readTokenTTLs :: "'k env \<Rightarrow> tx \<Rightarrow> tx \<times> (err + int \<times> int)" where
  "readTokenTTLs E t =
     (case AccessTokenTTLSecs E t of
        (t1, Inl e) \<Rightarrow> (t1, Inl e)
      | (t1, Inr accessSecs) \<Rightarrow>
          (case RefreshTokenTTLSecs E t1 of
             (t2, Inl e) \<Rightarrow> (t2, Inl e)
           | (t2, Inr refreshSecs) \<Rightarrow> (t2, Inr (int64 (accessSecs * second), int64 (refreshSecs * second)))))"

definition writeBestEffortAudit :: "'k env \<Rightarrow> request \<Rightarrow> Entry \<Rightarrow> db \<Rightarrow> db" where
  "writeBestEffortAudit E req entry d = bestEffortAudit E ''token.audit'' (req_CorrelationID req) entry d"

definition uuidPtr :: "'k env \<Rightarrow> string \<Rightarrow> uuid option" where
  "uuidPtr E s = e_uuid_parse E s"

text \<open>The audit entries about an exchange all name the client as target.\<close>

definition clientEntry
  :: "'k env \<Rightarrow> request \<Rightarrow> string \<Rightarrow> uuid option \<Rightarrow> string \<Rightarrow> Client \<Rightarrow> string \<Rightarrow> (string \<times> metaval) list \<Rightarrow> Entry" where
  "clientEntry E req event actor email client outcome md =
     \<lparr>en_EventType = event, en_ActorID = actor, en_ActorEmail = email, en_TargetType = ''client'',
      en_TargetID = e_uuid_string E (c_ID client), en_ClientID = Some (c_ID client),
      en_IPAddress = clientIP E req, en_Outcome = outcome, en_Metadata = Some md\<rparr>"

section \<open>Client authentication\<close>

text \<open>The rate limit, the secret and the active client, as both grants check them; \<open>md\<close> is the
  metadata of the audit row of a failure.\<close>

definition authenticate
  :: "'k env \<Rightarrow> TokenHandler \<Rightarrow> request \<Rightarrow> (string \<times> metaval) list \<Rightarrow> string \<Rightarrow> string \<Rightarrow> 'k world \<Rightarrow>
      'k world \<times> (tokenReply + Client)" where
  "authenticate E h req md clientID clientSecret w =
     (case rateLimitCheck E h clientID (w_vk w) of
        (k1, allowed) \<Rightarrow>
          (let w1 = w\<lparr>w_vk := k1\<rparr>
           in if allowed = Some False
              then (w1, Inl (TokenError 429 ''invalid_request'' ''Rate limit exceeded for this client.''))
              else if snd (VerifySecret E clientID clientSecret (pool (w_db w))) \<noteq> Inr True
              then (w1\<lparr>w_db := writeBestEffortAudit E req
                       \<lparr>en_EventType = ''oidc.client.auth_failed'', en_ActorID = None, en_ActorEmail = [],
                        en_TargetType = ''client'', en_TargetID = clientID, en_ClientID = None,
                        en_IPAddress = clientIP E req, en_Outcome = ''failure'', en_Metadata = Some md\<rparr>
                       (w_db w)\<rparr>,
                    Inl (TokenError 401 ''invalid_client'' ''Client authentication failed.''))
              else case snd (ClientGetByID E ''token.GetByID'' clientID (pool (w_db w))) of
                Inl e \<Rightarrow> (w1, Inl (TokenError 401 ''invalid_client'' ''Client not found.''))
              | Inr client \<Rightarrow> (w1, Inr client)))"

definition codeClientAuth
  :: "'k env \<Rightarrow> TokenHandler \<Rightarrow> request \<Rightarrow> string \<Rightarrow> string \<Rightarrow> 'k world \<Rightarrow> 'k world \<times> (tokenReply + Client)" where
  "codeClientAuth E h req = authenticate E h req [(''reason'', MStr ''secret_verify_failed'')]"

definition refreshClientAuth
  :: "'k env \<Rightarrow> TokenHandler \<Rightarrow> request \<Rightarrow> string \<Rightarrow> string \<Rightarrow> 'k world \<Rightarrow> 'k world \<times> (tokenReply + Client)" where
  "refreshClientAuth E h req =
     authenticate E h req [(''reason'', MStr ''secret_verify_failed''), (''grant'', MStr ''refresh_token'')]"

section \<open>Authorization code grant\<close>

text \<open>A refused exchange: the audit row (its failure is only logged) and the commit that burns the
  code.\<close>

definition refuseCode
  :: "'k env \<Rightarrow> request \<Rightarrow> Entry \<Rightarrow> tokenReply \<Rightarrow> tx \<Rightarrow> db \<Rightarrow> db \<times> tokenReply" where
  "refuseCode E req entry reply t d =
     (case Log E (req_CorrelationID req) entry t of
        (t', _) \<Rightarrow>
          (case commitTx E ''token'' t' d of
             (d', False) \<Rightarrow> (d', TokenError 500 ''server_error'' ''Could not commit.'')
           | (d', True) \<Rightarrow> (d', reply)))"

text \<open>The entry and the reply of a failed check of client, redirect URI or verifier.\<close>

definition checkCodeBinding
  :: "'k env \<Rightarrow> tokenRequest \<Rightarrow> Client \<Rightarrow> auth_code \<Rightarrow> (Entry \<times> tokenReply) option" where
  "checkCodeBinding E r client row =
     (let entry = (\<lambda>event. clientEntry E (tq_Req r) event (Some (ac_UserID row)) [] client ''failure''
                       [(''family_id'', MStr (e_uuid_string E (ac_FamilyID row)))])
      in if ac_ClientID row \<noteq> c_ID client
         then Some (entry ''oidc.code.client_mismatch'', TokenError 400 ''invalid_grant'' ''Code / client mismatch.'')
         else if ac_RedirectURI row \<noteq> postForm r ''redirect_uri''
         then Some (entry ''oidc.code.redirect_mismatch'', TokenError 400 ''invalid_grant'' ''redirect_uri mismatch.'')
         else if \<not> VerifyPKCE E (ac_CodeChallenge row) (postForm r ''code_verifier'')
         then Some (entry ''oidc.code.pkce_mismatch'', TokenError 400 ''invalid_grant'' ''PKCE verifier mismatch.'')
         else None)"

text \<open>The user, the grant type and the scopes, re-validated at the exchange.\<close>

definition checkCodeUser
  :: "'k env \<Rightarrow> request \<Rightarrow> Client \<Rightarrow> auth_code \<Rightarrow> tx \<Rightarrow> tx \<times> ((Entry \<times> tokenReply) + User \<times> string list)" where
  "checkCodeUser E req client row t =
     (let fam = (''family_id'', MStr (e_uuid_string E (ac_FamilyID row)))
      in case UserGetByID E ''token.GetByID'' (ac_UserID row) t of
           (t1, Inl e) \<Rightarrow>
             (t1, Inl (clientEntry E req ''oidc.code.user_not_found'' (Some (ac_UserID row)) [] client ''failure''
                         [fam, (''user_id'', MStr (e_uuid_string E (ac_UserID row)))],
                       TokenError 400 ''invalid_grant'' ''User not found.''))
         | (t1, Inr u) \<Rightarrow>
             (t1, let entry = (\<lambda>event md. clientEntry E req event (Some (u_ID u)) (u_Email u) client ''failure'' md)
                  in if u_Status u \<noteq> ''active''
                     then Inl (entry ''oidc.code.user_disabled'' [fam],
                               TokenError 400 ''invalid_grant'' ''User not active.'')
                     else if \<not> list_ex (\<lambda>g. g = ''authorization_code'') (c_AllowedGrantTypes client)
                     then Inl (entry ''oidc.code.grant_removed'' [fam],
                               TokenError 400 ''unauthorized_client''
                                 ''authorization_code grant no longer allowed for this client'')
                     else case intersectScopesAgainstClient (ac_Scopes row) (c_AllowedScopes client) of
                       None \<Rightarrow>
                         Inl (entry ''oidc.code.scope_removed''
                                [fam, (''requested_scopes'', MList (ac_Scopes row)),
                                 (''allowed_scopes'', MList (c_AllowedScopes client))],
                              TokenError 400 ''invalid_scope'' ''requested scopes no longer allowed for this client'')
                     | Some scopes \<Rightarrow> Inr (u, scopes)))"

text \<open>The lives of the tokens, the signing key and the two signed tokens.\<close>

record minted =
  mt_AccessTTL :: int
  mt_RefreshTTL :: int
  mt_Access :: string
  mt_ID :: string
  mt_AccessJTI :: string
  mt_IDJTI :: string

definition signCodeTokens
  :: "'k env \<Rightarrow> TokenHandler \<Rightarrow> Client \<Rightarrow> auth_code \<Rightarrow> User \<Rightarrow> string list \<Rightarrow> tx \<Rightarrow> tx \<times> (tokenReply + minted)" where
  "signCodeTokens E h client row u scopes t =
     (case readTokenTTLs E t of
        (t1, Inl e) \<Rightarrow> (t1, Inl (TokenError 500 ''server_error'' ''Could not read token TTLs.''))
      | (t1, Inr (accessTTL, refreshTTL)) \<Rightarrow>
     (case GetActive E t1 of
        (t2, Inl e) \<Rightarrow> (t2, Inl (TokenError 500 ''server_error'' ''No active signing key.''))
      | (t2, Inr activeKey) \<Rightarrow>
          (t2, case UnwrapPrivateKey E (sk_PrivateKeyEncrypted activeKey) (th_encryptionKey h) of
             None \<Rightarrow> Inl (TokenError 500 ''server_error'' ''Signing failed.'')
           | Some privPEM \<Rightarrow>
          (let now = e_go_now E; cid = e_uuid_string E (c_ID client); kid = e_uuid_string E (sk_ID activeKey);
               jtiAccess = e_uuid_string E (e_new_uuid E ''token.access_jti'');
               jtiID = e_uuid_string E (e_new_uuid E ''token.id_jti'');
               authTime = ac_ExpiresAt row - authCodeTTL;
               nonce = (case ac_Nonce row of None \<Rightarrow> [] | Some n \<Rightarrow> n)
           in case SignAccessToken E (BuildAccessClaims E u cid (th_publicURL h) jtiAccess scopes now accessTTL) kid privPEM of
                None \<Rightarrow> Inl (TokenError 500 ''server_error'' ''Signing failed.'')
              | Some accessTok \<Rightarrow>
             (case SignIDToken E (BuildIDClaims E u cid (th_publicURL h) jtiID nonce scopes authTime now accessTTL) kid privPEM of
                None \<Rightarrow> Inl (TokenError 500 ''server_error'' ''Signing failed.'')
              | Some idTok \<Rightarrow>
                  Inr \<lparr>mt_AccessTTL = accessTTL, mt_RefreshTTL = refreshTTL, mt_Access = accessTok, mt_ID = idTok,
                       mt_AccessJTI = jtiAccess, mt_IDJTI = jtiID\<rparr>)))))"

text \<open>The refresh token, when \<open>offline_access\<close> was granted; it is stored before the commit.\<close>

definition mintRefresh
  :: "'k env \<Rightarrow> Client \<Rightarrow> auth_code \<Rightarrow> User \<Rightarrow> string list \<Rightarrow> minted \<Rightarrow> 'k \<Rightarrow> 'k \<times> string option" where
  "mintRefresh E client row u scopes m k =
     (if scopesHas scopes ''offline_access''
      then refreshCreate E ''token.refresh''
             \<lparr>rp_UserID = e_uuid_string E (u_ID u), rp_ClientID = e_uuid_string E (c_ID client),
              rp_Scopes = scopes, rp_FamilyID = e_uuid_string E (ac_FamilyID row),
              rp_CreatedAt = Unix (e_go_now E), rp_Expires = Unix (e_go_now E + mt_RefreshTTL m), rp_Used = False\<rparr> k
      else (k, Some []))"

definition tokenBody :: "minted \<Rightarrow> string \<Rightarrow> string list \<Rightarrow> tokenReply" where
  "tokenBody m refreshTok scopes =
     TokenOK \<lparr>tr_AccessToken = mt_Access m, tr_TokenType = ''Bearer'', tr_ExpiresIn = wholeSeconds (mt_AccessTTL m),
              tr_RefreshToken = refreshTok, tr_IDToken = mt_ID m, tr_Scope = scopesString scopes\<rparr>"

definition finishCode
  :: "'k env \<Rightarrow> request \<Rightarrow> Client \<Rightarrow> auth_code \<Rightarrow> User \<Rightarrow> string list \<Rightarrow> minted \<Rightarrow> tx \<Rightarrow> 'k world \<Rightarrow> 'k world \<times> tokenReply" where
  "finishCode E req client row u scopes m t w =
     (case mintRefresh E client row u scopes m (w_vk w) of
        (k1, None) \<Rightarrow> (w\<lparr>w_vk := k1\<rparr>, TokenError 500 ''server_error'' ''Could not mint refresh token.'')
      | (k1, Some refreshTok) \<Rightarrow>
     (case Log E (req_CorrelationID req)
             (clientEntry E req ''oidc.code.exchanged'' (Some (u_ID u)) (u_Email u) client ''success''
                [(''family_id'', MStr (e_uuid_string E (ac_FamilyID row))), (''scopes'', MList scopes),
                 (''access_jti'', MStr (mt_AccessJTI m)), (''id_jti'', MStr (mt_IDJTI m)),
                 (''refresh_issued'', MBool (refreshTok \<noteq> []))]) t of
        (t1, Inl e) \<Rightarrow> (w\<lparr>w_vk := k1\<rparr>, TokenError 500 ''server_error'' ''Audit failed.'')
      | (t1, Inr _) \<Rightarrow>
     (case commitTx E ''token'' t1 (w_db w) of
        (d', False) \<Rightarrow> (w\<lparr>w_vk := k1, w_db := d'\<rparr>, TokenError 500 ''server_error'' ''Commit failed.'')
      | (d', True) \<Rightarrow> (w\<lparr>w_vk := k1, w_db := d'\<rparr>, tokenBody m refreshTok scopes))))"

text \<open>\<open>handleCodeReplay\<close>.\<close>

definition handleCodeReplay :: "'k env \<Rightarrow> request \<Rightarrow> string \<Rightarrow> 'k world \<Rightarrow> 'k world \<times> tokenReply" where
  "handleCodeReplay E req codeHash w =
     (let reply = TokenError 400 ''invalid_grant'' ''Code already used.''
      in case snd (LookupFamilyByCodeHash E codeHash (pool (w_db w))) of
           Inl e \<Rightarrow> (w, reply)
         | Inr familyID \<Rightarrow>
             (let w1 = w\<lparr>w_vk := fst (refreshRevokeFamily E (e_uuid_string E familyID) (w_vk w))\<rparr>
              in case beginTx E ''token.replay'' (w_db w) of
                   None \<Rightarrow> (w1, reply)
                 | Some t \<Rightarrow>
                     (case Log E (req_CorrelationID req)
                             \<lparr>en_EventType = ''oidc.code.replay_detected'', en_ActorID = None, en_ActorEmail = [],
                              en_TargetType = ''authorization_code'', en_TargetID = [], en_ClientID = None,
                              en_IPAddress = clientIP E req, en_Outcome = ''failure'',
                              en_Metadata = Some [(''family_id'', MStr (e_uuid_string E familyID))]\<rparr> t of
                        (t1, _) \<Rightarrow> (w1\<lparr>w_db := fst (commitTx E ''token.replay'' t1 (w_db w))\<rparr>, reply))))"

text \<open>The part inside the transaction, from the consumed row on.\<close>

definition exchangeCode
  :: "'k env \<Rightarrow> TokenHandler \<Rightarrow> tokenRequest \<Rightarrow> Client \<Rightarrow> auth_code \<Rightarrow> tx \<Rightarrow> 'k world \<Rightarrow> 'k world \<times> tokenReply" where
  "exchangeCode E h r client row t w =
     (let refuse = (\<lambda>entry reply t. case refuseCode E (tq_Req r) entry reply t (w_db w) of
                                      (d', resp) \<Rightarrow> (w\<lparr>w_db := d'\<rparr>, resp))
      in case checkCodeBinding E r client row of
           Some (entry, reply) \<Rightarrow> refuse entry reply t
         | None \<Rightarrow>
             (case checkCodeUser E (tq_Req r) client row t of
                (t1, Inl (entry, reply)) \<Rightarrow> refuse entry reply t1
              | (t1, Inr (u, scopes)) \<Rightarrow>
                  (case signCodeTokens E h client row u scopes t1 of
                     (t2, Inl reply) \<Rightarrow> (w, reply)
                   | (t2, Inr m) \<Rightarrow> finishCode E (tq_Req r) client row u scopes m t2 w)))"

definition handleAuthorizationCode
  :: "'k env \<Rightarrow> TokenHandler \<Rightarrow> tokenRequest \<Rightarrow> 'k world \<Rightarrow> 'k world \<times> tokenReply" where
  "handleAuthorizationCode E h r w =
     (let clientID = postForm r ''client_id''; clientSecret = postForm r ''client_secret'';
          code = postForm r ''code''
      in if clientID = [] \<or> clientSecret = []
         then (w, TokenError 401 ''invalid_client'' ''Missing client credentials.'')
         else if code = [] \<or> postForm r ''redirect_uri'' = [] \<or> postForm r ''code_verifier'' = []
         then (w, TokenError 400 ''invalid_request'' ''Missing code, redirect_uri, or code_verifier.'')
         else case codeClientAuth E h (tq_Req r) clientID clientSecret w of
           (w1, Inl reply) \<Rightarrow> (w1, reply)
         | (w1, Inr client) \<Rightarrow>
             (case beginTx E ''token'' (w_db w1) of
                None \<Rightarrow> (w1, TokenError 500 ''server_error'' ''Could not begin transaction.'')
              | Some t \<Rightarrow>
                  (case ConsumeOnce E (sha256hex E code) t of
                     (t1, Inl e) \<Rightarrow>
                       if e = ErrAuthCodeAlreadyUsed then handleCodeReplay E (tq_Req r) (sha256hex E code) w1
                       else (w1, TokenError 500 ''server_error'' ''Could not consume authorization code.'')
                   | (t1, Inr row) \<Rightarrow> exchangeCode E h r client row t1 w1)))"

section \<open>Refresh token grant\<close>

text \<open>Reuse of a rotated token revokes its family.\<close>

definition refreshReuse
  :: "'k env \<Rightarrow> request \<Rightarrow> Client \<Rightarrow> RefreshPayload \<Rightarrow> 'k world \<Rightarrow> 'k world \<times> tokenReply" where
  "refreshReuse E req client p w =
     (w\<lparr>w_vk := fst (refreshRevokeFamily E (rp_FamilyID p) (w_vk w)),
        w_db := writeBestEffortAudit E req
          (clientEntry E req ''oidc.refresh.reuse_detected'' (uuidPtr E (rp_UserID p)) [] client ''failure''
             [(''family_id'', MStr (rp_FamilyID p))]) (w_db w)\<rparr>,
      TokenError 400 ''invalid_grant'' ''Refresh token already used (family revoked).'')"

text \<open>Client, grant type, scopes and user of a live token.\<close>

definition checkRefresh
  :: "'k env \<Rightarrow> Client \<Rightarrow> RefreshPayload \<Rightarrow> db \<Rightarrow> tokenReply + User \<times> string list" where
  "checkRefresh E client p d =
     (if rp_ClientID p \<noteq> e_uuid_string E (c_ID client)
      then Inl (TokenError 400 ''invalid_grant'' ''Refresh / client mismatch.'')
      else if \<not> list_ex (\<lambda>g. g = ''refresh_token'') (c_AllowedGrantTypes client)
      then Inl (TokenError 400 ''unauthorized_client'' ''refresh_token grant no longer allowed for this client'')
      else case intersectScopesAgainstClient (rp_Scopes p) (c_AllowedScopes client) of
        None \<Rightarrow> Inl (TokenError 400 ''invalid_scope'' ''requested scopes no longer allowed for this client'')
      | Some scopes \<Rightarrow>
          (case e_uuid_parse E (rp_UserID p) of
             None \<Rightarrow> Inl (TokenError 400 ''invalid_grant'' ''Refresh payload malformed.'')
           | Some uid \<Rightarrow>
               (case snd (UserGetByID E ''token.refresh.GetByID'' uid (pool d)) of
                  Inl e \<Rightarrow> Inl (TokenError 400 ''invalid_grant'' ''User not found.'')
                | Inr u \<Rightarrow> Inr (u, scopes))))"

text \<open>A disabled user and a cutoff later than the token's creation both revoke the family; an
  error of the cutoff lookup lets the request pass.\<close>

definition enforceUser
  :: "'k env \<Rightarrow> request \<Rightarrow> Client \<Rightarrow> RefreshPayload \<Rightarrow> User \<Rightarrow> 'k world \<Rightarrow> 'k world \<times> tokenReply option" where
  "enforceUser E req client p u w =
     (let revoke = (\<lambda>event md w. w\<lparr>w_vk := fst (refreshRevokeFamily E (rp_FamilyID p) (w_vk w)),
             w_db := writeBestEffortAudit E req
               (clientEntry E req event (Some (u_ID u)) (u_Email u) client ''failure''
                  ((''family_id'', MStr (rp_FamilyID p)) # md)) (w_db w)\<rparr>)
      in if u_Status u \<noteq> ''active''
         then (revoke ''oidc.refresh.user_disabled'' [] w,
               Some (TokenError 400 ''invalid_grant'' ''User not active.''))
         else case RevokeBeforeGet E (e_uuid_string E (u_ID u)) (w_vk w) of
           (k1, rb) \<Rightarrow>
             (case rb of
                Cutoff t \<Rightarrow>
                  if rp_CreatedAt p < Unix t
                  then (revoke ''user.revoke_before_enforced''
                          [(''refresh_created_at'', MInt (rp_CreatedAt p)), (''revoke_before'', MInt (Unix t))]
                          (w\<lparr>w_vk := k1\<rparr>),
                        Some (TokenError 400 ''invalid_grant'' ''Token revoked by user mutation.''))
                  else (w\<lparr>w_vk := k1\<rparr>, None)
              | _ \<Rightarrow> (w\<lparr>w_vk := k1\<rparr>, None)))"

definition signRefreshTokens
  :: "'k env \<Rightarrow> TokenHandler \<Rightarrow> Client \<Rightarrow> RefreshPayload \<Rightarrow> User \<Rightarrow> string list \<Rightarrow> db \<Rightarrow> tokenReply + minted" where
  "signRefreshTokens E h client p u scopes d =
     (case snd (readTokenTTLs E (pool d)) of
        Inl e \<Rightarrow> Inl (TokenError 500 ''server_error'' ''Could not read token TTLs.'')
      | Inr (accessTTL, refreshTTL) \<Rightarrow>
     (case snd (GetActive E (pool d)) of
        Inl e \<Rightarrow> Inl (TokenError 500 ''server_error'' ''No active signing key.'')
      | Inr activeKey \<Rightarrow>
     (case UnwrapPrivateKey E (sk_PrivateKeyEncrypted activeKey) (th_encryptionKey h) of
        None \<Rightarrow> Inl (TokenError 500 ''server_error'' ''Signing failed.'')
      | Some privPEM \<Rightarrow>
     (let now = e_go_now E; cid = e_uuid_string E (c_ID client); kid = e_uuid_string E (sk_ID activeKey);
          jtiAccess = e_uuid_string E (e_new_uuid E ''token.access_jti'');
          jtiID = e_uuid_string E (e_new_uuid E ''token.id_jti'');
          authTime = fromUnix (rp_CreatedAt p)
      in case SignAccessToken E (BuildAccessClaims E u cid (th_publicURL h) jtiAccess scopes now accessTTL) kid privPEM of
           None \<Rightarrow> Inl (TokenError 500 ''server_error'' ''Signing failed.'')
         | Some accessTok \<Rightarrow>
        (case SignIDToken E (BuildIDClaims E u cid (th_publicURL h) jtiID [] scopes authTime now accessTTL) kid privPEM of
           None \<Rightarrow> Inl (TokenError 500 ''server_error'' ''Signing failed.'')
         | Some idTok \<Rightarrow>
             Inr \<lparr>mt_AccessTTL = accessTTL, mt_RefreshTTL = refreshTTL, mt_Access = accessTok, mt_ID = idTok,
                  mt_AccessJTI = jtiAccess, mt_IDJTI = jtiID\<rparr>)))))"

text \<open>The payload of the successor keeps the family and the absolute expiry.\<close>

definition rotatedPayload
  :: "'k env \<Rightarrow> Client \<Rightarrow> RefreshPayload \<Rightarrow> User \<Rightarrow> string list \<Rightarrow> RefreshPayload" where
  "rotatedPayload E client p u scopes =
     \<lparr>rp_UserID = e_uuid_string E (u_ID u), rp_ClientID = e_uuid_string E (c_ID client),
      rp_Scopes = scopes, rp_FamilyID = rp_FamilyID p, rp_CreatedAt = Unix (e_go_now E),
      rp_Expires = rp_Expires p, rp_Used = False\<rparr>"

text \<open>The successor is stored, the presented token marked (a failure is only logged), and the
  audit row committed.\<close>

definition rotateRefresh
  :: "'k env \<Rightarrow> request \<Rightarrow> string \<Rightarrow> Client \<Rightarrow> RefreshPayload \<Rightarrow> User \<Rightarrow> string list \<Rightarrow> minted \<Rightarrow> 'k world \<Rightarrow>
      'k world \<times> tokenReply" where
  "rotateRefresh E req presented client p u scopes m w =
     (case refreshCreate E ''token.rotate'' (rotatedPayload E client p u scopes) (w_vk w) of
        (k1, None) \<Rightarrow> (w\<lparr>w_vk := k1\<rparr>, TokenError 400 ''invalid_grant'' ''Refresh token expired.'')
      | (k1, Some newRefresh) \<Rightarrow>
     (let w2 = w\<lparr>w_vk := fst (refreshMarkUsed E presented k1)\<rparr>
      in case beginTx E ''token.refresh'' (w_db w) of
           None \<Rightarrow> (w2, TokenError 500 ''server_error'' ''DB begin failed.'')
         | Some t \<Rightarrow>
        (case Log E (req_CorrelationID req)
                (clientEntry E req ''oidc.token.refreshed'' (Some (u_ID u)) (u_Email u) client ''success''
                   [(''family_id'', MStr (rp_FamilyID p)), (''scopes'', MList scopes),
                    (''new_access_jti'', MStr (mt_AccessJTI m)), (''new_id_jti'', MStr (mt_IDJTI m))]) t of
           (t1, Inl e) \<Rightarrow> (w2, TokenError 500 ''server_error'' ''Audit failed.'')
         | (t1, Inr _) \<Rightarrow>
        (case commitTx E ''token.refresh'' t1 (w_db w) of
           (d', False) \<Rightarrow> (w2\<lparr>w_db := d'\<rparr>, TokenError 500 ''server_error'' ''Commit failed.'')
         | (d', True) \<Rightarrow> (w2\<lparr>w_db := d'\<rparr>, tokenBody m newRefresh scopes)))))"

text \<open>From a consumed payload on.\<close>

definition exchangeRefresh
  :: "'k env \<Rightarrow> TokenHandler \<Rightarrow> request \<Rightarrow> string \<Rightarrow> Client \<Rightarrow> RefreshPayload \<Rightarrow> 'k world \<Rightarrow> 'k world \<times> tokenReply" where
  "exchangeRefresh E h req presented client p w =
     (case checkRefresh E client p (w_db w) of
        Inl reply \<Rightarrow> (w, reply)
      | Inr (u, scopes) \<Rightarrow>
          (case enforceUser E req client p u w of
             (w1, Some reply) \<Rightarrow> (w1, reply)
           | (w1, None) \<Rightarrow>
               (case signRefreshTokens E h client p u scopes (w_db w1) of
                  Inl reply \<Rightarrow> (w1, reply)
                | Inr m \<Rightarrow> rotateRefresh E req presented client p u scopes m w1)))"

definition handleRefreshToken
  :: "'k env \<Rightarrow> TokenHandler \<Rightarrow> tokenRequest \<Rightarrow> 'k world \<Rightarrow> 'k world \<times> tokenReply" where
  "handleRefreshToken E h r w =
     (let clientID = postForm r ''client_id''; clientSecret = postForm r ''client_secret'';
          presented = postForm r ''refresh_token''
      in if clientID = [] \<or> clientSecret = []
         then (w, TokenError 401 ''invalid_client'' ''Missing client credentials.'')
         else if presented = [] then (w, TokenError 400 ''invalid_request'' ''Missing refresh_token.'')
         else case refreshClientAuth E h (tq_Req r) clientID clientSecret w of
           (w1, Inl reply) \<Rightarrow> (w1, reply)
         | (w1, Inr client) \<Rightarrow>
             (case refreshConsume E presented (w_vk w1) of
                (k2, res) \<Rightarrow>
                  (let w2 = w1\<lparr>w_vk := k2\<rparr>
                   in case res of
                        ErrRefreshUnknownOrExpired \<Rightarrow>
                          (w2, TokenError 400 ''invalid_grant'' ''Refresh token invalid or expired.'')
                      | ErrRefreshReuseDetected p \<Rightarrow> refreshReuse E (tq_Req r) client p w2
                      | ErrRefreshConsume \<Rightarrow> (w2, TokenError 500 ''server_error'' ''Refresh lookup failed.'')
                      | Consumed p \<Rightarrow> exchangeRefresh E h (tq_Req r) presented client p w2)))"

section \<open>The endpoint\<close>

definition TokenHandle :: "'k env \<Rightarrow> TokenHandler \<Rightarrow> tokenRequest \<Rightarrow> 'k world \<Rightarrow> 'k world \<times> tokenReply" where
  "TokenHandle E h r w =
     (if tq_Form r = None then (w, TokenError 400 ''invalid_request'' ''Malformed form body.'')
      else if postForm r ''grant_type'' = ''authorization_code'' then handleAuthorizationCode E h r w
      else if postForm r ''grant_type'' = ''refresh_token'' then handleRefreshToken E h r w
      else (w, TokenError 400 ''unsupported_grant_type'' ''grant_type not supported.''))"

end
