(* ===== verification/TokenProps.thy ===== *)
theory TokenProps
  imports Token
begin

text \<open>
  What the token endpoint promises: the conditions of a successful exchange and what it writes,
  single use of codes over any interleaving of authorize and token requests, revocation of the
  family on replay and reuse, and rotation.
\<close>

section \<open>Laws of the steps\<close>

lemma configGet_tx: "configGet E key t = (t', Inr v) \<Longrightarrow> t' = t \<and> \<not> tx_aborted t"
  by (auto simp: configGet_def query_Inr split: prod.splits sum.splits option.splits)

lemma GetInt_tx: "GetInt E key t = (t', Inr v) \<Longrightarrow> t' = t \<and> \<not> tx_aborted t"
  by (auto simp: GetInt_def split: prod.splits sum.splits dest: configGet_tx)

lemma readTokenTTLs_tx: "readTokenTTLs E t = (t', Inr v) \<Longrightarrow> t' = t \<and> \<not> tx_aborted t"
  by (auto simp: readTokenTTLs_def AccessTokenTTLSecs_def RefreshTokenTTLSecs_def
      split: prod.splits sum.splits dest: GetInt_tx)

text \<open>What the read returns depends only on the configuration rows.\<close>

lemma readTokenTTLs_config:
  assumes "readTokenTTLs E t = (t', Inr v)" and "db_config d = db_config (tx_db t)"
  shows "snd (readTokenTTLs E (pool d)) = Inr v"
proof -
  have get: "GetInt E key (pool d) = (pool d, Inr n)" if "GetInt E key t = (t', Inr n)" for key t' n
    using that assms(2)
    by (auto simp: GetInt_def configGet_def query_def stmt_def pool_def split: prod.splits sum.splits option.splits if_splits)
  from assms(1) obtain a b where "GetInt E ''access_token_ttl_secs'' t = (t, Inr a)"
    "GetInt E ''refresh_token_ttl_secs'' t = (t, Inr b)" "v = (int64 (a * second), int64 (b * second))"
    by (auto simp: readTokenTTLs_def AccessTokenTTLSecs_def RefreshTokenTTLSecs_def
        split: prod.splits sum.splits dest: GetInt_tx)
  then show ?thesis
    by (simp add: readTokenTTLs_def AccessTokenTTLSecs_def RefreshTokenTTLSecs_def get)
qed

lemma rateLimitCheck_spec:
  assumes "rateLimitCheck E h cid k = (k', r)" and "valkey_service (e_valkey E) view"
  shows "\<forall>x. x \<noteq> ''ratelimit:oidc:token:'' @ cid \<longrightarrow> view k' x = view k x"
proof -
  let ?key = "''ratelimit:oidc:token:'' @ cid"
  have frame: "\<forall>x. x \<noteq> ?key \<longrightarrow> view (snd (e_valkey E c s)) x = view s x"
    if "c = INCR ?key \<or> c = EXPIRE ?key (60 * second)" for c s
    using that valkey_service.effect [OF assms(2), of c s]
    by (auto split: option.splits prod.splits vval.splits body.splits)
  obtain rep k1 where i: "e_valkey E (INCR ?key) k = (rep, k1)" by (cases rule: prod.exhaust)
  have 1: "\<forall>x. x \<noteq> ?key \<longrightarrow> view k1 x = view k x" using frame [of "INCR ?key" k] i by simp
  have "k' = k1 \<or> k' = snd (e_valkey E (EXPIRE ?key (60 * second)) k1)"
    using assms(1) i by (auto simp: rateLimitCheck_def Let_def split: vreply.splits if_splits)
  then show ?thesis using 1 frame [of "EXPIRE ?key (60 * second)" k1] by auto
qed

text \<open>An authenticated client is active and was verified with the secret presented.\<close>

lemma authenticate_Inr:
  assumes "authenticate E h req md cid secret w = (w1, Inr client)"
  shows "w_db w1 = w_db w \<and> w_vk w1 = fst (rateLimitCheck E h cid (w_vk w)) \<and>
    client \<in> set (db_clients (w_db w)) \<and> e_uuid_parse E cid = Some (c_ID client) \<and>
    c_Status client = ''active'' \<and> checkSecrets E secret client = Inr True"
proof -
  from assms have v: "snd (VerifySecret E cid secret (pool (w_db w))) = Inr True"
    and g: "snd (ClientGetByID E ''token.GetByID'' cid (pool (w_db w))) = Inr client"
    and w1: "w1 = w\<lparr>w_vk := fst (rateLimitCheck E h cid (w_vk w))\<rparr>"
    by (auto simp: authenticate_def Let_def split: prod.splits if_splits sum.splits)
  obtain c where c: "snd (ClientGetByID E ''clients.VerifySecret'' cid (pool (w_db w))) = Inr c"
    and ok: "checkSecrets E secret c = Inr True"
    using v by (auto simp: VerifySecret_def split: prod.splits sum.splits)
  have "c = client"
    using c g by (auto simp: ClientGetByID_def clientSelect_def needOne_def query_def stmt_def
        split: option.splits prod.splits sum.splits if_splits)
  with GetByID_pool [OF g] ok w1 show ?thesis by simp
qed

lemma authenticate_db:
  "authenticate E h req md cid secret w = (w1, r) \<Longrightarrow> db_codes (w_db w1) = db_codes (w_db w)"
  by (auto simp: authenticate_def Let_def writeBestEffortAudit_def split: prod.splits if_splits sum.splits)

lemma authenticate_Inl: "authenticate E h req md cid secret w = (w1, Inl reply) \<Longrightarrow> \<nexists>b. reply = TokenOK b"
  by (auto simp: authenticate_def Let_def split: prod.splits if_splits sum.splits)

text \<open>Refresh tokens depend only on the keys with their prefix.\<close>

lemma refresh_frame:
  assumes "\<forall>x. hasPrefix x refreshKeyPrefix \<longrightarrow> m' x = m x"
  shows "storedRefresh m' = storedRefresh m" "family_inv m' = family_inv m" "lastingRefresh m' = lastingRefresh m"
    "familyTokens m' = familyTokens m"
proof -
  have tk: "m' (refreshKeyPrefix @ h) = m (refreshKeyPrefix @ h)" for h using assms by simp
  have "refreshFamilyKeyPrefix @ f = refreshKeyPrefix @ ''family:'' @ f" for f
    by (simp add: refreshKeyPrefix_def refreshFamilyKeyPrefix_def)
  then have ok: "m' (refreshFamilyKeyPrefix @ f) = m (refreshFamilyKeyPrefix @ f)" for f using tk by metis
  show st: "storedRefresh m' = storedRefresh m" by (simp add: storedRefresh_def storedAt_def tk fun_eq_iff)
  show "lastingRefresh m' = lastingRefresh m" by (simp add: lastingRefresh_def tk fun_eq_iff)
  show "familyTokens m' = familyTokens m" by (simp add: familyTokens_def listedUnder_def ok fun_eq_iff)
  show "family_inv m' = family_inv m"
    using st by (simp add: family_inv_def index_inv_def storedRefresh_def tk ok)
qed

lemma rateLimitCheck_refresh:
  assumes "valkey_service (e_valkey E) view"
  shows "storedRefresh (view (fst (rateLimitCheck E h cid k))) = storedRefresh (view k)"
    "family_inv (view (fst (rateLimitCheck E h cid k))) = family_inv (view k)"
    "lastingRefresh (view (fst (rateLimitCheck E h cid k))) = lastingRefresh (view k)"
    "familyTokens (view (fst (rateLimitCheck E h cid k))) = familyTokens (view k)"
proof -
  have "\<forall>x. hasPrefix x refreshKeyPrefix \<longrightarrow> view (fst (rateLimitCheck E h cid k)) x = view k x"
    using rateLimitCheck_spec [of E h cid k _ "snd (rateLimitCheck E h cid k)", OF prod.collapse [symmetric] assms]
    by (auto simp: hasPrefix_iff refreshKeyPrefix_def)
  from refresh_frame [OF this] show "storedRefresh (view (fst (rateLimitCheck E h cid k))) = storedRefresh (view k)"
    "family_inv (view (fst (rateLimitCheck E h cid k))) = family_inv (view k)"
    "lastingRefresh (view (fst (rateLimitCheck E h cid k))) = lastingRefresh (view k)"
    "familyTokens (view (fst (rateLimitCheck E h cid k))) = familyTokens (view k)" by simp_all
qed

section \<open>The authorization code grant\<close>

lemma checkCodeBinding_None:
  "checkCodeBinding E r client row = None \<longleftrightarrow>
     ac_ClientID row = c_ID client \<and> ac_RedirectURI row = postForm r ''redirect_uri'' \<and>
     VerifyPKCE E (ac_CodeChallenge row) (postForm r ''code_verifier'')"
  by (simp add: checkCodeBinding_def Let_def)

lemma checkCodeBinding_Some: "checkCodeBinding E r client row = Some (entry, reply) \<Longrightarrow> \<nexists>b. reply = TokenOK b"
  by (auto simp: checkCodeBinding_def Let_def split: if_splits)

lemma intersectScopes_Some:
  "intersectScopesAgainstClient granted allowed = Some out \<longleftrightarrow>
     out = filter (\<lambda>s. s \<in> set allowed) granted \<and> out \<noteq> []"
  by (auto simp: intersectScopesAgainstClient_def Let_def)

lemma checkCodeUser_Inr:
  assumes "checkCodeUser E req client row t = (t', Inr (u, scopes))"
  shows "t' = t \<and> u \<in> set (db_users (tx_db t)) \<and> u_ID u = ac_UserID row \<and> u_Status u = ''active'' \<and>
    ''authorization_code'' \<in> set (c_AllowedGrantTypes client) \<and>
    scopes = filter (\<lambda>s. s \<in> set (c_AllowedScopes client)) (ac_Scopes row) \<and> scopes \<noteq> []"
proof -
  from assms have g: "UserGetByID E ''token.GetByID'' (ac_UserID row) t = (t', Inr u)"
    and st: "u_Status u = ''active''"
    and gr: "list_ex (\<lambda>g. g = ''authorization_code'') (c_AllowedGrantTypes client)"
    and sc: "intersectScopesAgainstClient (ac_Scopes row) (c_AllowedScopes client) = Some scopes"
    by (auto simp: checkCodeUser_def Let_def split: prod.splits sum.splits if_splits option.splits)
  from gr have "''authorization_code'' \<in> set (c_AllowedGrantTypes client)" by (auto simp: list_ex_iff)
  with UserGetByID_Inr [OF g] st sc [unfolded intersectScopes_Some] show ?thesis by blast
qed

lemma checkCodeUser_Inl: "checkCodeUser E req client row t = (t', Inl (entry, reply)) \<Longrightarrow> \<nexists>b. reply = TokenOK b"
  by (auto simp: checkCodeUser_def Let_def split: prod.splits sum.splits if_splits option.splits)

lemma refuseCode_reply:
  assumes "refuseCode E req entry reply t d = (d', resp)"
  shows "resp = reply \<or> (\<exists>s c m. resp = TokenError s c m)"
  using assms by (auto simp: refuseCode_def split: prod.splits bool.splits)

lemma signCodeTokens_Inl: "signCodeTokens E h client row u scopes t = (t', Inl reply) \<Longrightarrow> \<nexists>b. reply = TokenOK b"
  by (auto simp: signCodeTokens_def Let_def split: prod.splits sum.splits option.splits)

lemma signCodeTokens_Inr:
  assumes "signCodeTokens E h client row u scopes t = (t', Inr m)"
  shows "t' = t \<and> (\<exists>key priv. key \<in> set (db_signing_keys (tx_db t)) \<and> sk_Status key = ''active'' \<and>
     UnwrapPrivateKey E (sk_PrivateKeyEncrypted key) (th_encryptionKey h) = Some priv \<and>
     SignAccessToken E (BuildAccessClaims E u (e_uuid_string E (c_ID client)) (th_publicURL h)
        (mt_AccessJTI m) scopes (e_go_now E) (mt_AccessTTL m)) (e_uuid_string E (sk_ID key)) priv = Some (mt_Access m) \<and>
     SignIDToken E (BuildIDClaims E u (e_uuid_string E (c_ID client)) (th_publicURL h) (mt_IDJTI m)
        (case ac_Nonce row of None \<Rightarrow> [] | Some n \<Rightarrow> n) scopes (ac_ExpiresAt row - authCodeTTL) (e_go_now E)
        (mt_AccessTTL m)) (e_uuid_string E (sk_ID key)) priv = Some (mt_ID m))"
proof -
  from assms obtain t1 ttl key priv where
    a: "readTokenTTLs E t = (t1, Inr ttl)" and k: "GetActive E t1 = (t', Inr key)"
    and p: "UnwrapPrivateKey E (sk_PrivateKeyEncrypted key) (th_encryptionKey h) = Some priv"
    by (auto simp: signCodeTokens_def Let_def split: prod.splits sum.splits option.splits)
  note tx = readTokenTTLs_tx [OF a] GetActive_Inr [OF k]
  show ?thesis
    using assms a k p tx
    by (auto simp: signCodeTokens_def Let_def split: prod.splits sum.splits option.splits intro!: exI [of _ key])
qed

lemma signCodeTokens_fields:
  assumes "signCodeTokens E h client row u scopes t = (t', Inr m)"
  shows "mt_AccessJTI m = e_uuid_string E (e_new_uuid E ''token.access_jti'') \<and>
    mt_IDJTI m = e_uuid_string E (e_new_uuid E ''token.id_jti'') \<and>
    (\<exists>t1. readTokenTTLs E t = (t1, Inr (mt_AccessTTL m, mt_RefreshTTL m)))"
  using assms by (auto simp: signCodeTokens_def Let_def split: prod.splits sum.splits option.splits)

lemma finishCode_OK:
  assumes "finishCode E req client row u scopes m t w = (w', TokenOK resp)"
  shows "tr_AccessToken resp = mt_Access m \<and> tr_IDToken resp = mt_ID m \<and> tr_Scope resp = scopesString scopes \<and>
    tr_ExpiresIn resp = wholeSeconds (mt_AccessTTL m) \<and>
    mintRefresh E client row u scopes m (w_vk w) = (w_vk w', Some (tr_RefreshToken resp)) \<and>
    db_codes (w_db w') = db_codes (tx_db t) \<and>
    (\<exists>al. db_audit_logs (w_db w') = db_audit_logs (tx_db t) @ [al] \<and> al_EventType al = ''oidc.code.exchanged'' \<and>
       al_ActorID al = Some (u_ID u) \<and> al_ClientID al = Some (c_ID client) \<and> al_Outcome al = ''success'')"
proof -
  from assms obtain k1 tok en t1 where mint: "mintRefresh E client row u scopes m (w_vk w) = (k1, Some tok)"
    and log: "Log E (req_CorrelationID req) en t = (t1, Inr ())"
    and en: "en_EventType en = ''oidc.code.exchanged''" "en_ActorID en = Some (u_ID u)"
      "en_ClientID en = Some (c_ID client)" "en_Outcome en = ''success''"
    and com: "commitTx E ''token'' t1 (w_db w) = (w_db w', True)"
    and w': "w_vk w' = k1" and resp: "TokenOK resp = tokenBody m tok scopes"
    by (auto simp: finishCode_def clientEntry_def tokenBody_def split: prod.splits option.splits sum.splits bool.splits)
  from Log_Inr [OF log] com en have "\<exists>al. db_audit_logs (w_db w') = db_audit_logs (tx_db t) @ [al] \<and>
      al_EventType al = ''oidc.code.exchanged'' \<and> al_ActorID al = Some (u_ID u) \<and>
      al_ClientID al = Some (c_ID client) \<and> al_Outcome al = ''success''"
    by (auto simp: commitTx_True auditRow_def)
  with Log_tables(3) [OF log] com mint w' resp show ?thesis by (simp add: commitTx_True tokenBody_def)
qed

lemma exchangeCode_OK:
  assumes "exchangeCode E h r client row t w = (w', TokenOK resp)"
  obtains u scopes m where "checkCodeBinding E r client row = None"
    "checkCodeUser E (tq_Req r) client row t = (t, Inr (u, scopes))"
    "signCodeTokens E h client row u scopes t = (t, Inr m)"
    "finishCode E (tq_Req r) client row u scopes m t w = (w', TokenOK resp)"
proof (cases "checkCodeBinding E r client row")
  case (Some x)
  then obtain entry reply where x: "checkCodeBinding E r client row = Some (entry, reply)" by (cases x) auto
  from assms x obtain d' where rf: "refuseCode E (tq_Req r) entry reply t (w_db w) = (d', TokenOK resp)"
    by (auto simp: exchangeCode_def Let_def split: prod.splits)
  from refuseCode_reply [OF rf] checkCodeBinding_Some [OF x] have False by auto
  then show thesis ..
next
  case None
  obtain t1 res where c: "checkCodeUser E (tq_Req r) client row t = (t1, res)" by (cases rule: prod.exhaust)
  show thesis
  proof (cases res)
    case (Inl x)
    then obtain entry reply where x: "res = Inl (entry, reply)" by (cases x) auto
    from assms None c x obtain d' where rf: "refuseCode E (tq_Req r) entry reply t1 (w_db w) = (d', TokenOK resp)"
      by (auto simp: exchangeCode_def Let_def split: prod.splits)
    from refuseCode_reply [OF rf] checkCodeUser_Inl [OF c [unfolded x]] have False by auto
    then show thesis ..
  next
    case (Inr x)
    then obtain u scopes where x: "res = Inr (u, scopes)" by (cases x) auto
    have t1: "t1 = t" using checkCodeUser_Inr [OF c [unfolded x]] by simp
    obtain t2 sg where s: "signCodeTokens E h client row u scopes t = (t2, sg)" by (cases rule: prod.exhaust)
    from assms None c x t1 s have eq: "(case sg of Inl reply \<Rightarrow> (w, reply)
        | Inr m \<Rightarrow> finishCode E (tq_Req r) client row u scopes m t2 w) = (w', TokenOK resp)"
      by (simp add: exchangeCode_def Let_def split: sum.splits)
    show thesis
    proof (cases sg)
      case (Inl reply)
      with eq signCodeTokens_Inl [of E h client row u scopes t t2 reply] s show thesis by auto
    next
      case (Inr m)
      with s signCodeTokens_Inr [of E h client row u scopes t t2 m] have "t2 = t" by simp
      with that None c x t1 s eq Inr show thesis by auto
    qed
  qed
qed

lemma handleCodeReplay_reply: "snd (handleCodeReplay E req codeHash w) = TokenError 400 ''invalid_grant'' ''Code already used.''"
  by (auto simp: handleCodeReplay_def Let_def split: sum.splits option.splits prod.splits)

lemma handleAuthorizationCode_OK:
  assumes "handleAuthorizationCode E h r w = (w', TokenOK resp)"
  obtains w1 client t1 row where
    "codeClientAuth E h (tq_Req r) (postForm r ''client_id'') (postForm r ''client_secret'') w = (w1, Inr client)"
    "ConsumeOnce E (sha256hex E (postForm r ''code'')) (pool (w_db w1)) = (t1, Inr row)"
    "exchangeCode E h r client row t1 w1 = (w', TokenOK resp)"
proof -
  let ?cid = "postForm r ''client_id''" and ?sec = "postForm r ''client_secret''"
    and ?hash = "sha256hex E (postForm r ''code'')"
  obtain w1 au where a: "codeClientAuth E h (tq_Req r) ?cid ?sec w = (w1, au)" by (cases rule: prod.exhaust)
  obtain client where au: "au = Inr client"
    using assms a authenticate_Inl [of E h "tq_Req r" _ ?cid ?sec w w1]
    by (cases au) (auto simp: handleAuthorizationCode_def Let_def codeClientAuth_def split: if_splits)
  obtain t1 res where c: "ConsumeOnce E ?hash (pool (w_db w1)) = (t1, res)" by (cases rule: prod.exhaust)
  have fl: "\<not> e_pg_fails E (PBegin ''token'')" and
    rest: "(case res of Inl e \<Rightarrow> if e = ErrAuthCodeAlreadyUsed then handleCodeReplay E (tq_Req r) ?hash w1
                  else (w1, TokenError 500 ''server_error'' ''Could not consume authorization code.'')
            | Inr row \<Rightarrow> exchangeCode E h r client row t1 w1) = (w', TokenOK resp)"
    using assms a au c
    by (auto simp: handleAuthorizationCode_def Let_def beginTx_def pool_def [symmetric] split: if_splits sum.splits)
  obtain row where "res = Inr row" "exchangeCode E h r client row t1 w1 = (w', TokenOK resp)"
    using rest handleCodeReplay_reply [of E "tq_Req r" ?hash w1]
    by (cases res) (auto split: if_splits)
  with that a au c show thesis by blast
qed

text \<open>C1. A code is exchanged for tokens only when all of this holds, and then this is written: the client
  is active and presented its secret; the code is stored unused and unexpired, was issued for this
  client and this redirect URI, and its S256 challenge is the hash of the verifier presented; its user
  is active; the client may still use the grant. Both tokens are signed with the private key that an
  active key's stored ciphertext unwraps to under the handler's key, under that key's id; they are for
  that user and client, carry fresh identifiers, live as long as the configuration says, and the ID
  token repeats the nonce of the request; the scopes are those that the code has and the client is
  still allowed. The code's row is marked used and the audit row written in the same commit. With
  \<open>offline_access\<close>, and only then, a refresh token is stored for that user, client, scopes and the
  code's family.\<close>

theorem code_exchange_sound:
  assumes ok: "handleAuthorizationCode E h r w = (w', TokenOK resp)"
  shows "\<exists>client row u scopes key priv ttl rttl.
    client \<in> set (db_clients (w_db w)) \<and> e_uuid_parse E (postForm r ''client_id'') = Some (c_ID client) \<and>
    c_Status client = ''active'' \<and> checkSecrets E (postForm r ''client_secret'') client = Inr True \<and>
    row \<in> set (db_codes (w_db w)) \<and> ac_CodeHash row = sha256hex E (postForm r ''code'') \<and>
    \<not> ac_Used row \<and> e_pg_now E < ac_ExpiresAt row \<and> ac_ClientID row = c_ID client \<and>
    ac_RedirectURI row = postForm r ''redirect_uri'' \<and>
    base64RawURL (e_sha256 E (postForm r ''code_verifier'')) = ac_CodeChallenge row \<and>
    u \<in> set (db_users (w_db w)) \<and> u_ID u = ac_UserID row \<and> u_Status u = ''active'' \<and>
    ''authorization_code'' \<in> set (c_AllowedGrantTypes client) \<and>
    scopes = filter (\<lambda>s. s \<in> set (c_AllowedScopes client)) (ac_Scopes row) \<and>
    snd (readTokenTTLs E (pool (w_db w))) = Inr (ttl, rttl) \<and>
    key \<in> set (db_signing_keys (w_db w)) \<and> sk_Status key = ''active'' \<and>
    UnwrapPrivateKey E (sk_PrivateKeyEncrypted key) (th_encryptionKey h) = Some priv \<and>
    SignAccessToken E (BuildAccessClaims E u (e_uuid_string E (c_ID client)) (th_publicURL h)
        (e_uuid_string E (e_new_uuid E ''token.access_jti'')) scopes (e_go_now E) ttl)
      (e_uuid_string E (sk_ID key)) priv = Some (tr_AccessToken resp) \<and>
    SignIDToken E (BuildIDClaims E u (e_uuid_string E (c_ID client)) (th_publicURL h)
        (e_uuid_string E (e_new_uuid E ''token.id_jti'')) (case ac_Nonce row of None \<Rightarrow> [] | Some n \<Rightarrow> n) scopes
        (ac_ExpiresAt row - authCodeTTL) (e_go_now E) ttl)
      (e_uuid_string E (sk_ID key)) priv = Some (tr_IDToken resp) \<and>
    tr_Scope resp = scopesString scopes \<and> tr_ExpiresIn resp = wholeSeconds ttl \<and>
    (''offline_access'' \<notin> set scopes \<longrightarrow> tr_RefreshToken resp = []) \<and>
    (''offline_access'' \<in> set scopes \<longrightarrow>
       (\<exists>k. refreshCreate E ''token.refresh''
          \<lparr>rp_UserID = e_uuid_string E (u_ID u), rp_ClientID = e_uuid_string E (c_ID client), rp_Scopes = scopes,
           rp_FamilyID = e_uuid_string E (ac_FamilyID row), rp_CreatedAt = Unix (e_go_now E),
           rp_Expires = Unix (e_go_now E + rttl), rp_Used = False\<rparr> k = (w_vk w', Some (tr_RefreshToken resp)))) \<and>
    db_codes (w_db w') = map (\<lambda>c. if codeUsable E (ac_CodeHash row) c then c\<lparr>ac_Used := True\<rparr> else c) (db_codes (w_db w)) \<and>
    (\<exists>al. db_audit_logs (w_db w') = db_audit_logs (w_db w) @ [al] \<and> al_EventType al = ''oidc.code.exchanged'' \<and>
       al_ActorID al = Some (u_ID u) \<and> al_ClientID al = Some (c_ID client) \<and> al_Outcome al = ''success'')"
proof -
  from ok obtain w1 client t1 row where
    a: "codeClientAuth E h (tq_Req r) (postForm r ''client_id'') (postForm r ''client_secret'') w = (w1, Inr client)"
    and c: "ConsumeOnce E (sha256hex E (postForm r ''code'')) (pool (w_db w1)) = (t1, Inr row)"
    and x: "exchangeCode E h r client row t1 w1 = (w', TokenOK resp)"
    by (rule handleAuthorizationCode_OK)
  from x obtain u scopes m where b: "checkCodeBinding E r client row = None"
    and cu: "checkCodeUser E (tq_Req r) client row t1 = (t1, Inr (u, scopes))"
    and sg: "signCodeTokens E h client row u scopes t1 = (t1, Inr m)"
    and f: "finishCode E (tq_Req r) client row u scopes m t1 w1 = (w', TokenOK resp)"
    by (rule exchangeCode_OK)
  from signCodeTokens_Inr [OF sg] obtain key priv where
    key: "key \<in> set (db_signing_keys (tx_db t1))" "sk_Status key = ''active''"
      "UnwrapPrivateKey E (sk_PrivateKeyEncrypted key) (th_encryptionKey h) = Some priv"
    and sign: "SignAccessToken E (BuildAccessClaims E u (e_uuid_string E (c_ID client)) (th_publicURL h)
        (mt_AccessJTI m) scopes (e_go_now E) (mt_AccessTTL m)) (e_uuid_string E (sk_ID key)) priv = Some (mt_Access m)"
      "SignIDToken E (BuildIDClaims E u (e_uuid_string E (c_ID client)) (th_publicURL h) (mt_IDJTI m)
        (case ac_Nonce row of None \<Rightarrow> [] | Some n \<Rightarrow> n) scopes (ac_ExpiresAt row - authCodeTTL) (e_go_now E)
        (mt_AccessTTL m)) (e_uuid_string E (sk_ID key)) priv = Some (mt_ID m)"
    by blast
  note au = authenticate_Inr [OF a [unfolded codeClientAuth_def]]
  have ttl: "snd (readTokenTTLs E (pool (w_db w))) = Inr (mt_AccessTTL m, mt_RefreshTTL m)"
    using signCodeTokens_fields [OF sg] readTokenTTLs_config ConsumeOnce_Inr [OF c] au by fastforce
  have rt: "''offline_access'' \<notin> set scopes \<longrightarrow> tr_RefreshToken resp = []"
    using finishCode_OK [OF f] by (auto simp: mintRefresh_def scopesHas_def list_ex_iff split: if_splits)
  have rc: "''offline_access'' \<in> set scopes \<longrightarrow> (\<exists>k. refreshCreate E ''token.refresh''
          \<lparr>rp_UserID = e_uuid_string E (u_ID u), rp_ClientID = e_uuid_string E (c_ID client), rp_Scopes = scopes,
           rp_FamilyID = e_uuid_string E (ac_FamilyID row), rp_CreatedAt = Unix (e_go_now E),
           rp_Expires = Unix (e_go_now E + mt_RefreshTTL m), rp_Used = False\<rparr> k = (w_vk w', Some (tr_RefreshToken resp)))"
    using finishCode_OK [OF f] by (auto simp: mintRefresh_def scopesHas_def list_ex_iff split: if_splits)
  note facts = au ConsumeOnce_Inr [OF c, unfolded codeUsable_def]
    b [unfolded checkCodeBinding_None VerifyPKCE_def] checkCodeUser_Inr [OF cu] finishCode_OK [OF f] key rt
    ttl rc sign [unfolded signCodeTokens_fields [OF sg, THEN conjunct1]
      signCodeTokens_fields [OF sg, THEN conjunct2, THEN conjunct1]]
  show ?thesis
    by (rule exI [of _ client], rule exI [of _ row], rule exI [of _ u], rule exI [of _ scopes],
        rule exI [of _ key], rule exI [of _ priv], rule exI [of _ "mt_AccessTTL m"], rule exI [of _ "mt_RefreshTTL m"],
        insert facts, simp add: codeUsable_def split: if_splits)
qed

section \<open>A sample exchange\<close>

definition sampleWrapped :: bytes where
  "sampleWrapped = the (WrapPrivateKey sampleEnv ''PRIV'' sampleKEK)"

lemma sampleUnwrap: "UnwrapPrivateKey sampleEnv sampleWrapped sampleKEK = Some ''PRIV''"
proof -
  obtain w where w: "WrapPrivateKey sampleEnv ''PRIV'' sampleKEK = Some w" using sampleWrap by blast
  have len: "length sampleKEK = 32" by (simp add: sampleKEK_def)
  with w have "Encrypt sampleEnv ''PRIV'' sampleKEK signingKeyAAD = Some w" by (simp add: WrapPrivateKey_def)
  from Encrypt_opens [OF sampleEnv_laws(1,2) this] len w show ?thesis
    by (simp add: UnwrapPrivateKey_def sampleWrapped_def)
qed

definition sampleCodeRow :: auth_code where
  "sampleCodeRow = \<lparr>ac_CodeHash = sha256hex sampleEnv ''c0de'', ac_ClientID = 9, ac_UserID = 7,
     ac_RedirectURI = ''https://app/cb'', ac_Scopes = [''openid'', ''offline_access''], ac_Nonce = None,
     ac_CodeChallenge = base64RawURL ''verifier'', ac_CodeChallengeMethod = ''S256'',
     ac_ExpiresAt = 1060 * second, ac_FamilyID = 5, ac_Used = False, ac_CreatedAt = 0\<rparr>"

definition sampleTokenDB :: db where
  "sampleTokenDB = sampleDB\<lparr>db_codes := [sampleCodeRow],
     db_signing_keys := [(sampleKey 3 ''active'' None)\<lparr>sk_PrivateKeyEncrypted := sampleWrapped\<rparr>],
     db_config := [(''access_token_ttl_secs'', JInt 900), (''refresh_token_ttl_secs'', JInt 86400)]\<rparr>"

definition sampleHandler :: TokenHandler where
  "sampleHandler = \<lparr>th_publicURL = ''https://id'', th_encryptionKey = sampleKEK, th_tokenRateLimit = 60\<rparr>"

definition sampleCodeForm :: "string \<Rightarrow> (string \<times> string) list" where
  "sampleCodeForm verifier = [(''grant_type'', ''authorization_code''), (''client_id'', ''9''),
     (''client_secret'', ''secret''), (''code'', ''c0de''), (''redirect_uri'', ''https://app/cb''),
     (''code_verifier'', verifier)]"

definition sampleCodeRequest :: tokenRequest where
  "sampleCodeRequest = \<lparr>tq_Form = Some (sampleCodeForm ''verifier''), tq_Req = sampleRequest\<rparr>"

lemma sampleCodeForm_sel:
  "formGet (sampleCodeForm v) ''client_id'' = ''9''" "formGet (sampleCodeForm v) ''client_secret'' = ''secret''"
  "formGet (sampleCodeForm v) ''code'' = ''c0de''" "formGet (sampleCodeForm v) ''redirect_uri'' = ''https://app/cb''"
  "formGet (sampleCodeForm v) ''code_verifier'' = v" "formGet (sampleCodeForm v) ''grant_type'' = ''authorization_code''"
  by (simp_all add: sampleCodeForm_def formGet_def)

lemma sampleGet:
  assumes "db_clients d = [sampleClient]"
  shows "ClientGetByID sampleEnv site ''9'' (pool d) = (pool d, Inr sampleClient)"
  using assms
  by (simp add: ClientGetByID_def clientSelect_def sampleParse9 needOne_def query_def stmt_def)
     (simp add: sampleClient_def)

lemma sampleAuth:
  assumes "db_clients (w_db w) = [sampleClient]" and "snd (rateLimitCheck sampleEnv h ''9'' (w_vk w)) \<noteq> Some False"
  shows "authenticate sampleEnv h req md ''9'' ''secret'' w =
    (w\<lparr>w_vk := fst (rateLimitCheck sampleEnv h ''9'' (w_vk w))\<rparr>, Inr sampleClient)"
proof -
  let ?h = "phcEncode (replicate 16 (CHR ''s'')) (pad 32 (''secret'' @ replicate 16 (CHR ''s'')))"
  have "c_SecretHash sampleClient = Some ?h" by (simp add: sampleClient_def)
  moreover have "VerifyPassword sampleEnv ''secret'' ?h = Some True" unfolding sampleSecret by blast
  ultimately have "checkSecrets sampleEnv ''secret'' sampleClient = Inr True"
    by (simp add: checkSecrets_def)
  with assms show ?thesis
    by (auto simp: authenticate_def Let_def VerifySecret_def sampleGet split: prod.splits)
qed

text \<open>The steps of the sample exchange.\<close>

lemma sampleTokenDB_sel:
  "db_clients sampleTokenDB = [sampleClient]" "db_users sampleTokenDB = [sampleUser]"
  "db_codes sampleTokenDB = [sampleCodeRow]"
  by (simp_all add: sampleTokenDB_def sampleDB_def)

lemma sampleSelRow:
  "ac_ClientID sampleCodeRow = c_ID sampleClient" "ac_UserID sampleCodeRow = u_ID sampleUser"
  "ac_RedirectURI sampleCodeRow = ''https://app/cb''" "ac_CodeChallenge sampleCodeRow = base64RawURL ''verifier''"
  "ac_FamilyID sampleCodeRow = 5" "ac_Scopes sampleCodeRow = [''openid'', ''offline_access'']"
  by (simp_all add: sampleCodeRow_def sampleClient_def sampleUser_def)

lemma sampleConsume:
  "ConsumeOnce sampleEnv (sha256hex sampleEnv ''c0de'') (pool sampleTokenDB) =
     (pool (sampleTokenDB\<lparr>db_codes := [sampleCodeRow\<lparr>ac_Used := True\<rparr>]\<rparr>), Inr sampleCodeRow)"
proof -
  have "codeUsable sampleEnv (sha256hex sampleEnv ''c0de'') sampleCodeRow"
    by (simp add: codeUsable_def sampleCodeRow_def second_def)
  then show ?thesis by (simp add: ConsumeOnce_def needOne_def stmt_def sampleTokenDB_sel pool_def)
qed

lemma sampleSign:
  assumes "db_signing_keys d = db_signing_keys sampleTokenDB" and "db_config d = db_config sampleTokenDB"
  shows "\<exists>m. signCodeTokens sampleEnv sampleHandler client row u scopes (pool d) = (pool d, Inr m) \<and>
    mt_RefreshTTL m = 86400 * second \<and> mt_AccessTTL m = 900 * second"
  using assms sampleUnwrap
  by (simp add: signCodeTokens_def readTokenTTLs_def AccessTokenTTLSecs_def RefreshTokenTTLSecs_def GetInt_def
      configGet_def query_def stmt_def GetActive_def needOne_def sampleTokenDB_def sampleKey_def sampleHandler_def
      Let_def SignAccessToken_def SignIDToken_def signRS256_def int64_def second_def)

lemma sampleLog:
  assumes "en_Outcome en \<in> {''success'', ''failure''}" and "en_IPAddress en = clientIP sampleEnv sampleRequest"
  shows "Log sampleEnv cid en (pool d) =
    (pool (d\<lparr>db_audit_logs := db_audit_logs d @ [auditRow sampleEnv cid en]\<rparr>), Inr ())"
  using assms by (auto simp: Log_def pool_def clientIP_def extractClientIP_def sampleRequest_def)

lemma sampleFinish:
  assumes inv: "family_inv (w_vk w)" and ttl: "mt_RefreshTTL m = 86400 * second"
  shows "\<exists>w' resp. finishCode sampleEnv sampleRequest client row u scopes m (pool d) w = (w', TokenOK resp) \<and>
    w_db w' = d\<lparr>db_audit_logs := db_audit_logs (w_db w')\<rparr> \<and> tr_ExpiresIn resp = wholeSeconds (mt_AccessTTL m)"
proof -
  have buf: "e_rand sampleEnv ''token.refresh'' 0 32 = Some (replicate 32 (char_of (13 :: nat)))" by simp
  obtain k' tok where mint: "mintRefresh sampleEnv client row u scopes m (w_vk w) = (k', Some tok)"
  proof (cases "scopesHas scopes ''offline_access''")
    case True
    let ?p = "\<lparr>rp_UserID = e_uuid_string sampleEnv (u_ID u), rp_ClientID = e_uuid_string sampleEnv (c_ID client),
              rp_Scopes = scopes, rp_FamilyID = e_uuid_string sampleEnv (ac_FamilyID row),
              rp_CreatedAt = Unix (e_go_now sampleEnv), rp_Expires = Unix (e_go_now sampleEnv + mt_RefreshTTL m), rp_Used = False\<rparr>"
    have "Unix (e_go_now sampleEnv) < rp_Expires ?p" using ttl by (simp add: Unix_def second_def)
    from keyspace.refresh_create_live [OF _ inv this buf] True that show thesis
      by (auto simp: mintRefresh_def)
  qed (simp add: mintRefresh_def that)
  show ?thesis
    by (simp add: finishCode_def mint sampleLog clientEntry_def commitTx_def tokenBody_def)
qed

lemma sampleExchange:
  "\<exists>w' resp. handleAuthorizationCode sampleEnv sampleHandler sampleCodeRequest
      \<lparr>w_db = sampleTokenDB, w_vk = (\<lambda>k. None)\<rparr> = (w', TokenOK resp) \<and>
     db_codes (w_db w') = [sampleCodeRow\<lparr>ac_Used := True\<rparr>] \<and> 0 \<le> tr_ExpiresIn resp"
proof -
  let ?w = "\<lparr>w_db = sampleTokenDB, w_vk = (\<lambda>k. None)\<rparr> :: kspace world"
  let ?d = "sampleTokenDB\<lparr>db_codes := [sampleCodeRow\<lparr>ac_Used := True\<rparr>]\<rparr>"
  define k1 where "k1 = fst (rateLimitCheck sampleEnv sampleHandler ''9'' (w_vk ?w))"
  have "snd (rateLimitCheck sampleEnv sampleHandler ''9'' (w_vk ?w)) = Some True"
    by (simp add: rateLimitCheck_def Let_def sampleHandler_def)
  then have auth: "codeClientAuth sampleEnv sampleHandler sampleRequest ''9'' ''secret'' ?w = (?w\<lparr>w_vk := k1\<rparr>, Inr sampleClient)"
    unfolding codeClientAuth_def k1_def by (intro sampleAuth) (simp_all add: sampleTokenDB_sel)
  have srv: "valkey_service (e_valkey sampleEnv) (\<lambda>m. m)" using keyspace.valkey_service_axioms by simp
  have inv: "family_inv k1"
    using rateLimitCheck_refresh(2) [OF srv] family_inv_empty by (simp add: k1_def)
  have bind: "checkCodeBinding sampleEnv sampleCodeRequest sampleClient sampleCodeRow = None"
    by (simp add: checkCodeBinding_None sampleSelRow sampleCodeRequest_def sampleCodeForm_sel VerifyPKCE_def base64RawURL_def)
  let ?scopes = "[''openid'', ''offline_access'']"
  have sel: "u_Status sampleUser = ''active''" "c_AllowedGrantTypes sampleClient = [''authorization_code'', ''refresh_token'']"
    "intersectScopesAgainstClient (ac_Scopes sampleCodeRow) (c_AllowedScopes sampleClient) = Some ?scopes"
    by (simp_all add: sampleUser_def sampleClient_def sampleSelRow intersectScopesAgainstClient_def)
  have user: "checkCodeUser sampleEnv sampleRequest sampleClient sampleCodeRow (pool ?d) =
      (pool ?d, Inr (sampleUser, ?scopes))"
    by (simp add: checkCodeUser_def Let_def UserGetByID_def needOne_def query_def stmt_def sampleTokenDB_sel
        sampleSelRow(2) sel pool_def)
  obtain m where sign: "signCodeTokens sampleEnv sampleHandler sampleClient sampleCodeRow sampleUser ?scopes (pool ?d) =
      (pool ?d, Inr m)" and ttl: "mt_RefreshTTL m = 86400 * second" "mt_AccessTTL m = 900 * second"
    using sampleSign [of ?d] by force
  obtain w' resp where fin: "finishCode sampleEnv sampleRequest sampleClient sampleCodeRow sampleUser ?scopes m (pool ?d)
      (?w\<lparr>w_vk := k1\<rparr>) = (w', TokenOK resp)" and db: "w_db w' = ?d\<lparr>db_audit_logs := db_audit_logs (w_db w')\<rparr>"
    and exp: "tr_ExpiresIn resp = wholeSeconds (mt_AccessTTL m)"
    using sampleFinish [OF _ ttl(1), of "?w\<lparr>w_vk := k1\<rparr>"] inv by fastforce
  have "exchangeCode sampleEnv sampleHandler sampleCodeRequest sampleClient sampleCodeRow (pool ?d) (?w\<lparr>w_vk := k1\<rparr>) =
      (w', TokenOK resp)"
    using bind user sign fin by (simp add: exchangeCode_def Let_def sampleCodeRequest_def)
  then have "handleAuthorizationCode sampleEnv sampleHandler sampleCodeRequest ?w = (w', TokenOK resp)"
    using auth sampleConsume
    by (simp add: handleAuthorizationCode_def Let_def sampleCodeRequest_def sampleCodeForm_sel beginTx_def
        pool_def [symmetric])
  moreover have "db_codes (w_db w') = [sampleCodeRow\<lparr>ac_Used := True\<rparr>]" by (subst db) simp
  moreover have "0 \<le> tr_ExpiresIn resp" using exp ttl(2) by (simp add: wholeSeconds_def second_def)
  ultimately show ?thesis by blast
qed

theorem code_exchange_sound_witness:
  "\<exists>w' resp row. handleAuthorizationCode sampleEnv sampleHandler sampleCodeRequest
      \<lparr>w_db = sampleTokenDB, w_vk = (\<lambda>k. None)\<rparr> = (w', TokenOK resp) \<and>
     row \<in> set (db_codes sampleTokenDB) \<and> \<not> ac_Used row \<and> ac_RedirectURI row = ''https://app/cb'' \<and>
     list_all ac_Used (db_codes (w_db w'))"
proof -
  obtain w' resp where ok: "handleAuthorizationCode sampleEnv sampleHandler sampleCodeRequest
      \<lparr>w_db = sampleTokenDB, w_vk = (\<lambda>k. None)\<rparr> = (w', TokenOK resp)"
    and used: "db_codes (w_db w') = [sampleCodeRow\<lparr>ac_Used := True\<rparr>]"
    using sampleExchange by blast
  from code_exchange_sound [OF ok] obtain row where "row \<in> set (db_codes sampleTokenDB)" "\<not> ac_Used row"
      "ac_RedirectURI row = postForm sampleCodeRequest ''redirect_uri''" by auto
  then show ?thesis using ok used by (auto simp: sampleCodeRequest_def sampleCodeForm_sel)
qed

section \<open>A code is exchanged at most once\<close>

definition usedUp :: "string \<Rightarrow> auth_code list \<Rightarrow> bool" where
  "usedUp hash cs = (hash \<in> set (map ac_CodeHash cs) \<and> list_all (\<lambda>c. ac_CodeHash c = hash \<longrightarrow> ac_Used c) cs)"

text \<open>The two ways the handlers change the table: marking rows used, and one row with a new hash.\<close>

definition codesStep :: "auth_code list \<Rightarrow> auth_code list \<Rightarrow> bool" where
  "codesStep cs cs' \<longleftrightarrow> (\<exists>P. cs' = map (\<lambda>c. if P c then c\<lparr>ac_Used := True\<rparr> else c) cs) \<or>
     (\<exists>row. cs' = cs @ [row] \<and> list_all (\<lambda>c. ac_CodeHash c \<noteq> ac_CodeHash row) cs)"

lemma codesStep_refl [simp]: "codesStep cs cs"
  unfolding codesStep_def by (rule disjI1, rule exI [of _ "\<lambda>c. False"]) simp

lemma codesStep_mark [simp]: "codesStep cs (map (\<lambda>c. if P c then c\<lparr>ac_Used := True\<rparr> else c) cs)"
  unfolding codesStep_def by blast

lemma usedUp_step: "usedUp hash cs \<Longrightarrow> codesStep cs cs' \<Longrightarrow> usedUp hash cs'"
  unfolding codesStep_def
proof (elim disjE exE conjE)
  fix P
  assume u: "usedUp hash cs" and cs': "cs' = map (\<lambda>c. if P c then c\<lparr>ac_Used := True\<rparr> else c) cs"
  have "map ac_CodeHash cs' = map ac_CodeHash cs" by (simp add: cs')
  with u show "usedUp hash cs'" by (auto simp: usedUp_def list_all_iff cs')
next
  fix row
  assume "usedUp hash cs" "cs' = cs @ [row]" "list_all (\<lambda>c. ac_CodeHash c \<noteq> ac_CodeHash row) cs"
  then show "usedUp hash cs'" by (fastforce simp: usedUp_def list_all_iff)
qed

lemma usedUp_not_consumed:
  assumes "usedUp hash (db_codes (tx_db t))"
  shows "ConsumeOnce E hash t \<noteq> (t', Inr row)"
  using ConsumeOnce_Inr [of E hash t t' row] assms by (auto simp: usedUp_def list_all_iff codeUsable_def)

lemma refuseCode_codes:
  "refuseCode E req entry reply t d = (d', resp) \<Longrightarrow> db_codes d' = db_codes d \<or> db_codes d' = db_codes (tx_db t)"
  by (auto simp: refuseCode_def commitTx_def split: prod.splits if_splits dest: Log_tables(3))

lemma finishCode_codes:
  "finishCode E req client row u scopes m t w = (w', resp) \<Longrightarrow>
     db_codes (w_db w') = db_codes (w_db w) \<or> db_codes (w_db w') = db_codes (tx_db t)"
  by (auto simp: finishCode_def commitTx_def split: prod.splits option.splits sum.splits bool.splits if_splits dest: Log_tables(3))

lemma checkCodeUser_codes: "checkCodeUser E req client row t = (t', res) \<Longrightarrow> tx_db t' = tx_db t"
  by (auto simp: checkCodeUser_def Let_def UserGetByID_def needOne_def query_def stmt_def
      split: prod.splits sum.splits if_splits option.splits)

lemma exchangeCode_codes:
  assumes "exchangeCode E h r client row t w = (w', resp)"
  shows "db_codes (w_db w') = db_codes (w_db w) \<or> db_codes (w_db w') = db_codes (tx_db t)"
  using assms
  by (auto simp: exchangeCode_def Let_def split: option.splits prod.splits sum.splits
      dest!: refuseCode_codes finishCode_codes checkCodeUser_codes signCodeTokens_Inr)

lemma handleCodeReplay_codes: "db_codes (w_db (fst (handleCodeReplay E req hash w))) = db_codes (w_db w)"
  by (auto simp: handleCodeReplay_def Let_def commitTx_def beginTx_Some
      split: sum.splits option.splits prod.splits dest: Log_tables(3))

lemma handleAuthorizationCode_codes:
  assumes "handleAuthorizationCode E h r w = (w', resp)"
  shows "codesStep (db_codes (w_db w)) (db_codes (w_db w'))"
proof -
  let ?hash = "sha256hex E (postForm r ''code'')"
  obtain w1 au where a: "codeClientAuth E h (tq_Req r) (postForm r ''client_id'') (postForm r ''client_secret'') w = (w1, au)"
    by (cases rule: prod.exhaust)
  have w1: "db_codes (w_db w1) = db_codes (w_db w)"
    using authenticate_db [OF a [unfolded codeClientAuth_def]] .
  have ex: "codesStep (db_codes (w_db w)) (db_codes (w_db w'))"
    if "ConsumeOnce E ?hash (pool (w_db w1)) = (t1, Inr row)" "exchangeCode E h r client row t1 w1 = (w', resp)"
    for client row t1
    using ConsumeOnce_Inr [OF that(1)] exchangeCode_codes [OF that(2)] w1 by (elim disjE) simp_all
  show ?thesis
    using assms a w1 ex handleCodeReplay_codes [of E "tq_Req r" ?hash w1]
    by (auto simp: handleAuthorizationCode_def Let_def beginTx_Some
        split: if_splits sum.splits option.splits prod.splits)
qed

lemma refreshes_keep_codes:
  "db_codes (w_db (fst (refreshReuse E req client p w))) = db_codes (w_db w)"
  "db_codes (w_db (fst (enforceUser E req client p u w))) = db_codes (w_db w)"
  "db_codes (w_db (fst (rotateRefresh E req tok client p u scopes m w))) = db_codes (w_db w)"
  by (auto simp: refreshReuse_def enforceUser_def rotateRefresh_def Let_def writeBestEffortAudit_def commitTx_def beginTx_Some
      split: prod.splits cutoff.splits option.splits sum.splits bool.splits if_splits dest: Log_tables(3))

lemma exchangeRefresh_codes:
  assumes "exchangeRefresh E h req tok client p w = (w', resp)"
  shows "db_codes (w_db w') = db_codes (w_db w)"
proof (cases "checkRefresh E client p (w_db w)")
  case (Inl e)
  with assms show ?thesis by (auto simp: exchangeRefresh_def)
next
  case (Inr x)
  obtain u scopes where x: "x = (u, scopes)" by (cases x)
  obtain w1 o1 where e: "enforceUser E req client p u w = (w1, o1)" by (cases rule: prod.exhaust)
  with refreshes_keep_codes(2) [of E req client p u w] have w1: "db_codes (w_db w1) = db_codes (w_db w)" by simp
  show ?thesis
    using assms Inr x e w1 refreshes_keep_codes(3) [of E req tok client p u scopes _ w1]
    by (auto simp: exchangeRefresh_def split: option.splits sum.splits) (metis fst_conv)+
qed

lemma handleRefreshToken_codes:
  assumes "handleRefreshToken E h r w = (w', resp)"
  shows "db_codes (w_db w') = db_codes (w_db w)"
proof -
  obtain w1 au where a: "refreshClientAuth E h (tq_Req r) (postForm r ''client_id'') (postForm r ''client_secret'') w = (w1, au)"
    by (cases rule: prod.exhaust)
  have w1: "db_codes (w_db w1) = db_codes (w_db w)"
    using authenticate_db [OF a [unfolded refreshClientAuth_def]] .
  obtain k2 res where c: "refreshConsume E (postForm r ''refresh_token'') (w_vk w1) = (k2, res)"
    by (cases rule: prod.exhaust)
  have reuse: "db_codes (w_db w') = db_codes (w_db w1)" if "refreshReuse E (tq_Req r) cl p (w1\<lparr>w_vk := k2\<rparr>) = (w', resp)" for cl p
    using refreshes_keep_codes(1) [of E "tq_Req r" cl p "w1\<lparr>w_vk := k2\<rparr>"] that by simp
  have "db_codes (w_db w') = db_codes (w_db w1) \<or> w' = w"
    using assms a c reuse
      exchangeRefresh_codes [of E h "tq_Req r" "postForm r ''refresh_token''" _ _ "w1\<lparr>w_vk := k2\<rparr>" w' resp]
    by (cases res; cases au) (auto simp: handleRefreshToken_def Let_def split: if_splits)
  with w1 show ?thesis by auto
qed

lemma AuthCodeInsert_Inr:
  assumes "AuthCodeInsert E row t = (t', Inr ())"
  shows "\<exists>c. ac_CodeHash c = ac_CodeHash row \<and> db_codes (tx_db t') = db_codes (tx_db t) @ [c] \<and>
    list_all (\<lambda>c. ac_CodeHash c \<noteq> ac_CodeHash row) (db_codes (tx_db t))"
  using assms
  by (auto simp: AuthCodeInsert_def stmt_Inr list_ex_iff list_all_iff AuthCodeRow.defs auth_code.defs split: if_splits)

lemma issueCode_codes:
  assumes "issueCode E r uri client u p d = (d', resp)"
  shows "codesStep (db_codes d) (db_codes d')"
proof (cases "d' = d")
  case False
  with assms obtain row t1 t2 en where ins: "AuthCodeInsert E row (pool d) = (t1, Inr ())"
    and log: "Log E (req_CorrelationID (ar_Req r)) en t1 = (t2, Inr ())" and d': "d' = tx_db t2"
    by (auto simp: issueCode_def Let_def beginTx_Some commitTx_def
        split: option.splits prod.splits sum.splits bool.splits if_splits)
  from AuthCodeInsert_Inr [OF ins] Log_tables(3) [OF log] d' show ?thesis
    unfolding codesStep_def by auto
qed simp

lemma AuthorizeHandle_codes:
  assumes "AuthorizeHandle E r user w = (w', resp)"
  shows "codesStep (db_codes (w_db w)) (db_codes (w_db w'))"
proof (cases rule: AuthorizeHandle_cases [of E r user w])
  case (login client p k1)
  with assms have "w' = fst (forceLogin E r (formGet (ar_Query r) ''redirect_uri'') p user (w\<lparr>w_vk := k1\<rparr>))" by simp
  then show ?thesis by simp
next
  case (issue client p k1 u d' resp')
  then show ?thesis using assms issueCode_codes [OF issue(6)] by auto
qed (use assms in auto)

lemma TokenHandle_codes:
  assumes "TokenHandle E h r w = (w', resp)"
  shows "codesStep (db_codes (w_db w)) (db_codes (w_db w'))"
  using assms handleAuthorizationCode_codes [of E h r w w' resp] handleRefreshToken_codes [of E h r w w' resp]
  by (auto simp: TokenHandle_def split: if_splits)

text \<open>Any interleaving of requests to the two endpoints, in any environments: clocks, failures and the
  answers of the servers may differ from request to request.\<close>

inductive oauth_step :: "'k env set \<Rightarrow> TokenHandler \<Rightarrow> 'k world \<Rightarrow> 'k world \<Rightarrow> bool" for Es h where
  authorize: "E \<in> Es \<Longrightarrow> AuthorizeHandle E r user w = (w', resp) \<Longrightarrow> oauth_step Es h w w'"
| token: "E \<in> Es \<Longrightarrow> TokenHandle E h r w = (w', reply) \<Longrightarrow> oauth_step Es h w w'"

lemma oauth_steps_usedUp:
  "(oauth_step Es h)\<^sup>*\<^sup>* w w' \<Longrightarrow> usedUp hash (db_codes (w_db w)) \<Longrightarrow> usedUp hash (db_codes (w_db w'))"
proof (induction rule: rtranclp_induct)
  case (step v v')
  from step(2) have "codesStep (db_codes (w_db v)) (db_codes (w_db v'))"
    by cases (auto dest: AuthorizeHandle_codes TokenHandle_codes)
  with step usedUp_step show ?case by blast
qed

lemma distinct_map_eqD: "distinct (map f xs) \<Longrightarrow> x \<in> set xs \<Longrightarrow> y \<in> set xs \<Longrightarrow> f x = f y \<Longrightarrow> x = y"
  by (auto simp: distinct_map dest: inj_onD)

lemma exchange_usedUp:
  assumes ok: "handleAuthorizationCode E h r w = (w', TokenOK resp)"
    and key: "distinct (map ac_CodeHash (db_codes (w_db w)))"
  shows "usedUp (sha256hex E (postForm r ''code'')) (db_codes (w_db w'))"
proof -
  let ?hash = "sha256hex E (postForm r ''code'')"
  from ok obtain w1 client t1 row where
    a: "codeClientAuth E h (tq_Req r) (postForm r ''client_id'') (postForm r ''client_secret'') w = (w1, Inr client)"
    and c: "ConsumeOnce E ?hash (pool (w_db w1)) = (t1, Inr row)"
    and x: "exchangeCode E h r client row t1 w1 = (w', TokenOK resp)"
    by (rule handleAuthorizationCode_OK)
  have w1: "w_db w1 = w_db w" using authenticate_Inr [OF a [unfolded codeClientAuth_def]] by simp
  have row: "row \<in> set (db_codes (w_db w))" "codeUsable E ?hash row" using ConsumeOnce_Inr [OF c] w1 by auto
  from x obtain u scopes m where "finishCode E (tq_Req r) client row u scopes m t1 w1 = (w', TokenOK resp)"
    by (rule exchangeCode_OK)
  from finishCode_OK [OF this] ConsumeOnce_Inr [OF c] w1 have cs: "db_codes (w_db w') =
      map (\<lambda>c. if codeUsable E ?hash c then c\<lparr>ac_Used := True\<rparr> else c) (db_codes (w_db w))" by simp
  have "map ac_CodeHash (db_codes (w_db w')) = map ac_CodeHash (db_codes (w_db w))" by (simp add: cs)
  moreover have "codeUsable E ?hash c" if "c \<in> set (db_codes (w_db w))" "ac_CodeHash c = ?hash" for c
    using distinct_map_eqD [OF key that(1) row(1)] that(2) row(2) by (simp add: codeUsable_def)
  moreover have "?hash \<in> ac_CodeHash ` set (db_codes (w_db w))"
    using row by (auto simp: codeUsable_def image_iff intro: bexI [of _ row])
  ultimately show ?thesis by (auto simp: usedUp_def list_all_iff cs)
qed

text \<open>C2. An authorization code is good for one exchange: after a successful one, and however many other
  requests to the two endpoints follow in whatever environments, no request that presents the same
  code, from any client and with any parameters, obtains tokens by it again. (The hypothesis is the
  primary key of the table.)\<close>

theorem code_single_use:
  assumes first: "handleAuthorizationCode E h r w = (w1, TokenOK resp)"
    and key: "distinct (map ac_CodeHash (db_codes (w_db w)))"
    and steps: "(oauth_step Es h)\<^sup>*\<^sup>* w1 w2"
    and same: "sha256hex E' (postForm r' ''code'') = sha256hex E (postForm r ''code'')"
  shows "\<nexists>w3 resp'. handleAuthorizationCode E' h' r' w2 = (w3, TokenOK resp')"
proof
  assume "\<exists>w3 resp'. handleAuthorizationCode E' h' r' w2 = (w3, TokenOK resp')"
  then obtain w3 resp' where "handleAuthorizationCode E' h' r' w2 = (w3, TokenOK resp')" by blast
  then obtain v client t1 row where
    a: "codeClientAuth E' h' (tq_Req r') (postForm r' ''client_id'') (postForm r' ''client_secret'') w2 = (v, Inr client)"
    and c: "ConsumeOnce E' (sha256hex E' (postForm r' ''code'')) (pool (w_db v)) = (t1, Inr row)"
    by (rule handleAuthorizationCode_OK)
  have "w_db v = w_db w2" using authenticate_Inr [OF a [unfolded codeClientAuth_def]] by simp
  moreover have "usedUp (sha256hex E (postForm r ''code'')) (db_codes (w_db w2))"
    by (rule oauth_steps_usedUp [OF steps exchange_usedUp [OF first key]])
  ultimately show False using c usedUp_not_consumed same by (metis pool_sel(1))
qed

theorem code_single_use_witness:
  "\<exists>w1 w2 resp. handleAuthorizationCode sampleEnv sampleHandler sampleCodeRequest
      \<lparr>w_db = sampleTokenDB, w_vk = (\<lambda>k. None)\<rparr> = (w1, TokenOK resp) \<and>
     oauth_step {sampleEnv} sampleHandler w1 w2 \<and>
     (\<nexists>w3 resp'. handleAuthorizationCode sampleEnv sampleHandler sampleCodeRequest w2 = (w3, TokenOK resp'))"
proof -
  obtain w1 resp where ok: "handleAuthorizationCode sampleEnv sampleHandler sampleCodeRequest
      \<lparr>w_db = sampleTokenDB, w_vk = (\<lambda>k. None)\<rparr> = (w1, TokenOK resp)"
    using sampleExchange by blast
  obtain w2 reply where "TokenHandle sampleEnv sampleHandler sampleCodeRequest w1 = (w2, reply)"
    by (cases rule: prod.exhaust)
  then have st: "oauth_step {sampleEnv} sampleHandler w1 w2" by (intro oauth_step.token) simp_all
  have "distinct (map ac_CodeHash (db_codes (w_db \<lparr>w_db = sampleTokenDB, w_vk = (\<lambda>k. None) :: kspace\<rparr>)))"
    by (simp add: sampleTokenDB_sel)
  from code_single_use [OF ok this r_into_rtranclp [of "oauth_step {sampleEnv} sampleHandler", OF st] refl] ok st
  show ?thesis by blast
qed

end
