(* ===== verification/TokenRefresh.thy ===== *)
theory TokenRefresh
  imports TokenProps
begin

text \<open>
  Families of refresh tokens at the token endpoint: replay of a code and reuse of a rotated token
  revoke the family, rotation keeps family, expiry and scopes, and the effect of an audit row that
  the database refuses.
\<close>

section \<open>Replay of a code\<close>

text \<open>What is left of the store once a family is revoked: exactly the tokens that the index does not list
  under the family, among them none of the family and, when the index lists a token only under its own
  family, every token of every other family.\<close>

definition familyRevoked :: "kspace \<Rightarrow> string \<Rightarrow> kspace \<Rightarrow> bool" where
  "familyRevoked m fid m' \<longleftrightarrow> family_inv m' \<and>
     (\<forall>x. storedRefresh m' x = (if x \<in> familyTokens m fid then None else storedRefresh m x)) \<and>
     (\<forall>x q. storedRefresh m' x = Some q \<longrightarrow> storedRefresh m x = Some q \<and> rp_FamilyID q \<noteq> fid) \<and>
     (family_own m \<longrightarrow> (\<forall>x q. storedRefresh m x = Some q \<longrightarrow> rp_FamilyID q \<noteq> fid \<longrightarrow> storedRefresh m' x = Some q))"

lemma refresh_revoke_view:
  assumes "valkey_service (e_valkey E) view" and "family_inv (view k)"
    and "storedRefresh m = storedRefresh (view k)" "familyTokens m = familyTokens (view k)"
  shows "familyRevoked m fid (view (fst (refreshRevokeFamily E fid k)))"
proof -
  let ?m = "view (fst (refreshRevokeFamily E fid k))"
  have inv: "family_inv ?m" and gone: "\<And>x q. storedRefresh ?m x = Some q \<Longrightarrow> storedRefresh (view k) x = Some q \<and> rp_FamilyID q \<noteq> fid"
    and eq: "\<And>x. storedRefresh ?m x = (if x \<in> familyTokens (view k) fid then None else storedRefresh (view k) x)"
    using valkey_service.refresh_revoke [OF assms(1) refl assms(2) prod.collapse [symmetric]] by blast+
  have "storedRefresh ?m x = Some q"
    if "family_own m" "storedRefresh m x = Some q" "rp_FamilyID q \<noteq> fid" for x q
  proof -
    have "x \<notin> familyTokens m fid" using that by (auto simp: family_own_def)
    then show ?thesis using that eq [of x] assms(3,4) by simp
  qed
  then show ?thesis unfolding familyRevoked_def using inv gone eq unfolding assms(3,4) by blast
qed

lemma handleCodeReplay_vk:
  assumes "snd (LookupFamilyByCodeHash E hash (pool (w_db w))) = Inr fid"
  shows "w_vk (fst (handleCodeReplay E req hash w)) = fst (refreshRevokeFamily E (e_uuid_string E fid) (w_vk w))"
  using assms by (auto simp: handleCodeReplay_def Let_def split: option.splits prod.splits)

text \<open>C5. Replay of an authorization code: when an authenticated client presents a code whose row is
  already used (or expired), and Valkey and the two statements that look the code up answer, the reply
  is \<open>invalid_grant\<close> and the store is left with exactly the refresh tokens that are not of the family
  which the code started: none of that family, whoever holds it, and every token of every other
  family, unchanged. (When the lookup of the family fails, the handler revokes nothing.)\<close>

theorem code_replay_revokes_family:
  assumes srv: "valkey_service (e_valkey E) view" and inv: "family_inv (view (w_vk w))"
    and up: "\<not> e_pg_fails E (PBegin ''token'')" "\<not> e_pg_fails E (PQuery ''auth_codes.ConsumeOnce'')"
      "\<not> e_pg_fails E (PQuery ''auth_codes.LookupFamily'')"
    and given: "postForm r ''client_id'' \<noteq> []" "postForm r ''client_secret'' \<noteq> []" "postForm r ''code'' \<noteq> []"
      "postForm r ''redirect_uri'' \<noteq> []" "postForm r ''code_verifier'' \<noteq> []"
    and auth: "codeClientAuth E h (tq_Req r) (postForm r ''client_id'') (postForm r ''client_secret'') w = (w1, Inr client)"
    and row: "find (\<lambda>c. ac_CodeHash c = sha256hex E (postForm r ''code'')) (db_codes (w_db w)) = Some row"
    and spent: "list_all (\<lambda>c. \<not> codeUsable E (sha256hex E (postForm r ''code'')) c) (db_codes (w_db w))"
  shows "\<exists>w'. handleAuthorizationCode E h r w = (w', TokenError 400 ''invalid_grant'' ''Code already used.'') \<and>
    familyRevoked (view (w_vk w)) (e_uuid_string E (ac_FamilyID row)) (view (w_vk w'))"
proof -
  let ?hash = "sha256hex E (postForm r ''code'')"
  note a = authenticate_Inr [OF auth [unfolded codeClientAuth_def]]
  have "find (codeUsable E ?hash) (db_codes (w_db w)) = None"
    using spent by (simp add: find_None_iff list_all_iff)
  then obtain t where c: "ConsumeOnce E ?hash (pool (w_db w1)) = (t, Inl ErrAuthCodeAlreadyUsed)"
    using a up by (simp add: ConsumeOnce_def needOne_def stmt_def)
  have eq: "handleAuthorizationCode E h r w = handleCodeReplay E (tq_Req r) ?hash w1"
    using given auth c up by (simp add: handleAuthorizationCode_def Let_def beginTx_def pool_def [symmetric])
  have look: "snd (LookupFamilyByCodeHash E ?hash (pool (w_db w1))) = Inr (ac_FamilyID row)"
    using a row up by (simp add: LookupFamilyByCodeHash_def needOne_def query_def stmt_def)
  have vk: "w_vk (fst (handleCodeReplay E (tq_Req r) ?hash w1)) =
      fst (refreshRevokeFamily E (e_uuid_string E (ac_FamilyID row)) (w_vk w1))"
    by (rule handleCodeReplay_vk [OF look])
  have w1: "storedRefresh (view (w_vk w)) = storedRefresh (view (w_vk w1))" "family_inv (view (w_vk w1))"
    "familyTokens (view (w_vk w)) = familyTokens (view (w_vk w1))"
    using a rateLimitCheck_refresh [OF srv] inv by simp_all
  show ?thesis
    using refresh_revoke_view [OF srv w1(2,1,3)] handleCodeReplay_reply [of E "tq_Req r" ?hash w1] unfolding eq
    by (intro exI [of _ "fst (handleCodeReplay E (tq_Req r) ?hash w1)"]) (simp add: vk prod_eq_iff)
qed

section \<open>An audit row the database refuses\<close>

text \<open>C39. A refused exchange is meant to burn the code. It does not when the caller controls the audit
  row: with a forwarding header that is not an address, the insert of the audit row aborts the
  transaction, the commit fails, and the code presented with the wrong client, redirect URI or
  verifier stays usable.\<close>

theorem forged_address_keeps_code:
  assumes auth: "codeClientAuth E h (tq_Req r) (postForm r ''client_id'') (postForm r ''client_secret'') w = (w1, Inr client)"
    and given: "postForm r ''client_id'' \<noteq> []" "postForm r ''client_secret'' \<noteq> []" "postForm r ''code'' \<noteq> []"
      "postForm r ''redirect_uri'' \<noteq> []" "postForm r ''code_verifier'' \<noteq> []"
    and begin_ok: "\<not> e_pg_fails E (PBegin ''token'')"
    and row: "ConsumeOnce E (sha256hex E (postForm r ''code'')) (pool (w_db w1)) = (t1, Inr row)"
    and wrong: "checkCodeBinding E r client row \<noteq> None"
    and ip: "clientIP E (tq_Req r) \<noteq> []" "\<not> e_inet_ok E (clientIP E (tq_Req r))"
  shows "\<exists>w'. handleAuthorizationCode E h r w = (w', TokenError 500 ''server_error'' ''Could not commit.'') \<and>
    w_db w' = w_db w"
proof -
  note a = authenticate_Inr [OF auth [unfolded codeClientAuth_def]]
  from wrong obtain entry reply where b: "checkCodeBinding E r client row = Some (entry, reply)" by auto
  then have en: "en_IPAddress entry = clientIP E (tq_Req r)"
    by (auto simp: checkCodeBinding_def Let_def clientEntry_def split: if_splits)
  have "handleAuthorizationCode E h r w = exchangeCode E h r client row t1 w1"
    using given auth row begin_ok by (simp add: handleAuthorizationCode_def Let_def beginTx_def pool_def [symmetric])
  also have "\<dots> = (w1\<lparr>w_db := w_db w1\<rparr>, TokenError 500 ''server_error'' ''Could not commit.'')"
    using b ip en by (simp add: exchangeCode_def Let_def refuseCode_def Log_def)
  finally show ?thesis using a by simp
qed

section \<open>A sample store\<close>

text \<open>One refresh token of family 5, held by client 9 for user 7.\<close>

definition sampleStore :: "string \<Rightarrow> RefreshPayload \<Rightarrow> kspace" where
  "sampleStore tok p = (\<lambda>k. None)
     (refreshKeyPrefix @ sha256hexStr sampleEnv tok \<mapsto> (VStr (JRefresh p), Some (1000 * second)),
      refreshFamilyKeyPrefix @ rp_FamilyID p \<mapsto> (VSet [sha256hexStr sampleEnv tok], Some (1000 * second)))"

lemma sampleStore_laws:
  "family_inv (sampleStore tok p)"
  "storedRefresh (sampleStore tok p) = [sha256hexStr sampleEnv tok \<mapsto> p]"
  "lastingRefresh (sampleStore tok p) (sha256hexStr sampleEnv tok)"
proof -
  show "family_inv (sampleStore tok p)"
    using family.inv_upd [OF family_inv_empty, where h = "sha256hexStr sampleEnv tok" and p = p and
        ys = "[sha256hexStr sampleEnv tok]"]
    by (simp add: sampleStore_def)
  have "storedRefresh (\<lambda>k. None) = (\<lambda>h. None)" by (simp add: storedRefresh_def storedAt_def fun_eq_iff)
  then show "storedRefresh (sampleStore tok p) = [sha256hexStr sampleEnv tok \<mapsto> p]"
    by (simp add: sampleStore_def family.stored_upd)
  show "lastingRefresh (sampleStore tok p) (sha256hexStr sampleEnv tok)"
    by (simp add: lastingRefresh_def sampleStore_def refresh_keys_differ second_def)
qed

lemma sampleStore_revoked:
  assumes "familyRevoked (sampleStore tok p) (rp_FamilyID p) m"
  shows "storedRefresh m (sha256hexStr sampleEnv tok) = None"
proof (cases "storedRefresh m (sha256hexStr sampleEnv tok)")
  case (Some q)
  have "storedRefresh (sampleStore tok p) (sha256hexStr sampleEnv tok) = Some q \<and> rp_FamilyID q \<noteq> rp_FamilyID p"
    using assms Some unfolding familyRevoked_def by blast
  then show ?thesis by (auto simp: sampleStore_laws)
qed

lemma sampleStore_limit:
  "snd (rateLimitCheck sampleEnv sampleHandler ''9'' (sampleStore tok p)) = Some True"
proof -
  have "sampleStore tok p (''ratelimit:oidc:token:'' @ ''9'') = None"
    by (simp add: sampleStore_def refreshKeyPrefix_def refreshFamilyKeyPrefix_def)
  then show ?thesis by (simp add: rateLimitCheck_def Let_def sampleHandler_def)
qed

lemma sampleServer: "valkey_service (e_valkey sampleEnv) (\<lambda>m. m)"
  using keyspace.valkey_service_axioms by simp

lemma sampleCodeAuth:
  assumes "db_clients d = [sampleClient]"
  shows "\<exists>w1. codeClientAuth sampleEnv sampleHandler req ''9'' ''secret''
      \<lparr>w_db = d, w_vk = sampleStore tok p\<rparr> = (w1, Inr sampleClient) \<and> w_db w1 = d"
  unfolding codeClientAuth_def using assms sampleStore_limit
  by (subst sampleAuth) simp_all

theorem code_replay_revokes_family_witness:
  "\<exists>w'. handleAuthorizationCode sampleEnv sampleHandler sampleCodeRequest
      \<lparr>w_db = sampleTokenDB\<lparr>db_codes := [sampleCodeRow\<lparr>ac_Used := True\<rparr>]\<rparr>, w_vk = sampleStore ''t'' samplePayload\<rparr> =
      (w', TokenError 400 ''invalid_grant'' ''Code already used.'') \<and>
    storedRefresh (w_vk w') (sha256hexStr sampleEnv ''t'') = None"
proof -
  let ?d = "sampleTokenDB\<lparr>db_codes := [sampleCodeRow\<lparr>ac_Used := True\<rparr>]\<rparr>"
  let ?w = "\<lparr>w_db = ?d, w_vk = sampleStore ''t'' samplePayload\<rparr>"
  obtain w1 where a: "codeClientAuth sampleEnv sampleHandler (tq_Req sampleCodeRequest)
      (postForm sampleCodeRequest ''client_id'') (postForm sampleCodeRequest ''client_secret'') ?w = (w1, Inr sampleClient)"
    using sampleCodeAuth [of ?d sampleRequest "''t''" samplePayload]
    by (auto simp: sampleTokenDB_sel sampleCodeRequest_def sampleCodeForm_sel)
  have fam: "rp_FamilyID samplePayload = e_uuid_string sampleEnv (ac_FamilyID (sampleCodeRow\<lparr>ac_Used := True\<rparr>))"
    by (simp add: samplePayload_def sampleSelRow showNat.simps [of 5])
  have "\<exists>w'. handleAuthorizationCode sampleEnv sampleHandler sampleCodeRequest ?w =
        (w', TokenError 400 ''invalid_grant'' ''Code already used.'') \<and>
      familyRevoked (w_vk ?w) (e_uuid_string sampleEnv (ac_FamilyID (sampleCodeRow\<lparr>ac_Used := True\<rparr>))) (w_vk w')"
    by (rule code_replay_revokes_family [OF sampleServer _ _ _ _ _ _ _ _ _ a])
       (simp_all add: sampleStore_laws sampleCodeRequest_def sampleCodeForm_sel codeUsable_def sampleCodeRow_def)
  then obtain w' where "handleAuthorizationCode sampleEnv sampleHandler sampleCodeRequest ?w =
        (w', TokenError 400 ''invalid_grant'' ''Code already used.'')"
    and st: "familyRevoked (sampleStore ''t'' samplePayload) (rp_FamilyID samplePayload) (w_vk w')" unfolding fam by auto
  moreover have "storedRefresh (w_vk w') (sha256hexStr sampleEnv ''t'') = None"
    by (rule sampleStore_revoked [OF st])
  ultimately show ?thesis by blast
qed

definition sampleForged :: tokenRequest where
  "sampleForged = \<lparr>tq_Form = Some (sampleCodeForm ''guess''), tq_Req = sampleRequest\<lparr>req_XFF := ''garbage''\<rparr>\<rparr>"

lemma base64_guess: "base64RawURL ''guess'' \<noteq> base64RawURL ''verifier''"
  unfolding base64RawURL_def using b64Raw_inj [OF b64URLAlphabet_ok] by fastforce

theorem forged_address_keeps_code_witness:
  "\<exists>w'. handleAuthorizationCode sampleEnv sampleHandler sampleForged
      \<lparr>w_db = sampleTokenDB, w_vk = sampleStore ''t'' samplePayload\<rparr> =
      (w', TokenError 500 ''server_error'' ''Could not commit.'') \<and>
    db_codes (w_db w') = [sampleCodeRow] \<and> codeUsable sampleEnv (sha256hex sampleEnv ''c0de'') sampleCodeRow"
proof -
  let ?w = "\<lparr>w_db = sampleTokenDB, w_vk = sampleStore ''t'' samplePayload\<rparr>"
  obtain w1 where a: "codeClientAuth sampleEnv sampleHandler (tq_Req sampleForged)
      (postForm sampleForged ''client_id'') (postForm sampleForged ''client_secret'') ?w = (w1, Inr sampleClient)"
    and w1: "w_db w1 = sampleTokenDB"
    using sampleCodeAuth [of sampleTokenDB "tq_Req sampleForged" "''t''" samplePayload]
    by (auto simp: sampleTokenDB_sel sampleForged_def sampleCodeForm_sel)
  have c: "ConsumeOnce sampleEnv (sha256hex sampleEnv (postForm sampleForged ''code'')) (pool (w_db w1)) =
      (pool (sampleTokenDB\<lparr>db_codes := [sampleCodeRow\<lparr>ac_Used := True\<rparr>]\<rparr>), Inr sampleCodeRow)"
    using sampleConsume w1 by (simp add: sampleForged_def sampleCodeForm_sel)
  have "\<exists>w'. handleAuthorizationCode sampleEnv sampleHandler sampleForged ?w =
      (w', TokenError 500 ''server_error'' ''Could not commit.'') \<and> w_db w' = w_db ?w"
    by (rule forged_address_keeps_code [OF a _ _ _ _ _ _ c])
       (use base64_guess in \<open>simp_all add: sampleForged_def sampleCodeForm_sel checkCodeBinding_None
          VerifyPKCE_def sampleSelRow clientIP_def extractClientIP_def\<close>)
  then show ?thesis
    by (auto simp: sampleTokenDB_sel) (simp add: codeUsable_def sampleCodeRow_def second_def)
qed

section \<open>Rotation\<close>

lemma checkRefresh_Inr:
  assumes "checkRefresh E client p d = Inr (u, scopes)"
  shows "rp_ClientID p = e_uuid_string E (c_ID client) \<and> ''refresh_token'' \<in> set (c_AllowedGrantTypes client) \<and>
    scopes = filter (\<lambda>s. s \<in> set (c_AllowedScopes client)) (rp_Scopes p) \<and>
    e_uuid_parse E (rp_UserID p) = Some (u_ID u) \<and> u \<in> set (db_users d)"
proof -
  from assms obtain uid where c: "rp_ClientID p = e_uuid_string E (c_ID client)"
    and g: "list_ex (\<lambda>g. g = ''refresh_token'') (c_AllowedGrantTypes client)"
    and s: "intersectScopesAgainstClient (rp_Scopes p) (c_AllowedScopes client) = Some scopes"
    and i: "e_uuid_parse E (rp_UserID p) = Some uid"
    and u: "snd (UserGetByID E ''token.refresh.GetByID'' uid (pool d)) = Inr u"
    by (auto simp: checkRefresh_def split: if_splits option.splits sum.splits)
  from u UserGetByID_Inr [of E "''token.refresh.GetByID''" uid "pool d" _ u]
  have "u_ID u = uid" "u \<in> set (db_users d)"
    by (cases "UserGetByID E ''token.refresh.GetByID'' uid (pool d)", auto)+
  with c g s i show ?thesis by (auto simp: list_ex_iff intersectScopes_Some)
qed

lemma checkRefresh_Inl: "checkRefresh E client p d = Inl reply \<Longrightarrow> \<nexists>b. reply = TokenOK b"
  by (auto simp: checkRefresh_def split: if_splits option.splits sum.splits)

lemma RevokeBeforeGet_view:
  assumes "valkey_service (e_valkey E) view"
  shows "view (fst (RevokeBeforeGet E uid k)) = view k"
    and "snd (RevokeBeforeGet E uid k) = readCutoff (fst (vk_exec (GET (revokeBeforeKey uid)) (view k)))"
proof -
  have "view (snd (e_valkey E (GET (revokeBeforeKey uid)) k)) = view k"
    using valkey_service.effect [OF assms] by (simp split: option.splits prod.splits vval.splits)
  then show "view (fst (RevokeBeforeGet E uid k)) = view k" by (auto simp: RevokeBeforeGet_def split: prod.splits)
  show "snd (RevokeBeforeGet E uid k) = readCutoff (fst (vk_exec (GET (revokeBeforeKey uid)) (view k)))"
    using valkey_service.reply [OF assms, of "GET (revokeBeforeKey uid)" k]
    by (cases "e_valkey E (GET (revokeBeforeKey uid)) k") (simp add: RevokeBeforeGet_def)
qed

lemma enforceUser_None:
  assumes "enforceUser E req client p u w = (w1, None)"
  shows "u_Status u = ''active'' \<and> w_db w1 = w_db w \<and>
    w_vk w1 = fst (RevokeBeforeGet E (e_uuid_string E (u_ID u)) (w_vk w)) \<and>
    (\<forall>t. snd (RevokeBeforeGet E (e_uuid_string E (u_ID u)) (w_vk w)) = Cutoff t \<longrightarrow> Unix t \<le> rp_CreatedAt p)"
  using assms by (auto simp: enforceUser_def Let_def split: if_splits prod.splits cutoff.splits)

lemma enforceUser_Some: "enforceUser E req client p u w = (w1, Some reply) \<Longrightarrow> \<nexists>b. reply = TokenOK b"
  by (auto simp: enforceUser_def Let_def split: if_splits prod.splits cutoff.splits)

lemma signRefreshTokens_Inl: "signRefreshTokens E h client p u scopes d = Inl reply \<Longrightarrow> \<nexists>b. reply = TokenOK b"
  by (auto simp: signRefreshTokens_def Let_def split: sum.splits prod.splits option.splits)

lemma signRefreshTokens_Inr:
  assumes "signRefreshTokens E h client p u scopes d = Inr m"
  shows "\<exists>key priv. key \<in> set (db_signing_keys d) \<and> sk_Status key = ''active'' \<and>
     UnwrapPrivateKey E (sk_PrivateKeyEncrypted key) (th_encryptionKey h) = Some priv \<and>
     SignAccessToken E (BuildAccessClaims E u (e_uuid_string E (c_ID client)) (th_publicURL h)
        (e_uuid_string E (e_new_uuid E ''token.access_jti'')) scopes (e_go_now E) (mt_AccessTTL m))
        (e_uuid_string E (sk_ID key)) priv = Some (mt_Access m)"
proof -
  from assms obtain key priv where k: "snd (GetActive E (pool d)) = Inr key"
    and p: "UnwrapPrivateKey E (sk_PrivateKeyEncrypted key) (th_encryptionKey h) = Some priv"
    and s: "SignAccessToken E (BuildAccessClaims E u (e_uuid_string E (c_ID client)) (th_publicURL h)
        (e_uuid_string E (e_new_uuid E ''token.access_jti'')) scopes (e_go_now E) (mt_AccessTTL m))
        (e_uuid_string E (sk_ID key)) priv = Some (mt_Access m)"
    by (auto simp: signRefreshTokens_def Let_def split: prod.splits sum.splits option.splits)
  obtain t where "GetActive E (pool d) = (t, Inr key)" using k by (cases "GetActive E (pool d)") auto
  from GetActive_Inr [OF this] p s show ?thesis by auto
qed

lemma rotateRefresh_OK:
  assumes "rotateRefresh E req tok client p u scopes m w = (w', TokenOK resp)"
  obtains k1 where
    "refreshCreate E ''token.rotate'' (rotatedPayload E client p u scopes) (w_vk w) = (k1, Some (tr_RefreshToken resp))"
    "w_vk w' = fst (refreshMarkUsed E tok k1)" "tr_Scope resp = scopesString scopes" "tr_AccessToken resp = mt_Access m"
  using assms
  by (auto simp: rotateRefresh_def Let_def tokenBody_def split: prod.splits option.splits sum.splits bool.splits)

lemma exchangeRefresh_OK:
  assumes "exchangeRefresh E h req tok client p w = (w', TokenOK resp)"
  obtains u scopes w1 m where "checkRefresh E client p (w_db w) = Inr (u, scopes)"
    "enforceUser E req client p u w = (w1, None)"
    "signRefreshTokens E h client p u scopes (w_db w1) = Inr m"
    "rotateRefresh E req tok client p u scopes m w1 = (w', TokenOK resp)"
proof (cases "checkRefresh E client p (w_db w)")
  case (Inl e)
  with assms checkRefresh_Inl [OF Inl] show thesis by (auto simp: exchangeRefresh_def)
next
  case (Inr x)
  obtain u scopes where x: "x = (u, scopes)" by (cases x)
  obtain w1 o1 where e: "enforceUser E req client p u w = (w1, o1)" by (cases rule: prod.exhaust)
  have o1: "o1 = None"
  proof (cases o1)
    case (Some reply)
    with assms Inr x e enforceUser_Some [of E req client p u w w1 reply] show ?thesis
      by (auto simp: exchangeRefresh_def)
  qed simp
  obtain m where "signRefreshTokens E h client p u scopes (w_db w1) = Inr m"
      "rotateRefresh E req tok client p u scopes m w1 = (w', TokenOK resp)"
    using assms Inr x e o1 signRefreshTokens_Inl [of E h client p u scopes "w_db w1"]
    by (auto simp: exchangeRefresh_def split: sum.splits)
  with that Inr x e o1 show thesis by blast
qed

lemma handleRefreshToken_OK:
  assumes "handleRefreshToken E h r w = (w', TokenOK resp)"
  obtains w1 client k2 p where
    "refreshClientAuth E h (tq_Req r) (postForm r ''client_id'') (postForm r ''client_secret'') w = (w1, Inr client)"
    "refreshConsume E (postForm r ''refresh_token'') (w_vk w1) = (k2, Consumed p)"
    "exchangeRefresh E h (tq_Req r) (postForm r ''refresh_token'') client p (w1\<lparr>w_vk := k2\<rparr>) = (w', TokenOK resp)"
proof -
  obtain w1 au where a: "refreshClientAuth E h (tq_Req r) (postForm r ''client_id'') (postForm r ''client_secret'') w = (w1, au)"
    by (cases rule: prod.exhaust)
  obtain k2 res where c: "refreshConsume E (postForm r ''refresh_token'') (w_vk w1) = (k2, res)"
    by (cases rule: prod.exhaust)
  obtain client where au: "au = Inr client"
    using assms a authenticate_Inl [of E h "tq_Req r" _ _ _ w w1]
    by (cases au) (auto simp: handleRefreshToken_def Let_def refreshClientAuth_def split: if_splits)
  show thesis
    using assms a c au that
    by (cases res) (auto simp: handleRefreshToken_def Let_def refreshReuse_def split: if_splits)
qed

lemma rateLimitCheck_cutoff:
  assumes "valkey_service (e_valkey E) view"
  shows "vk_exec (GET (revokeBeforeKey uid)) (view (fst (rateLimitCheck E h cid k))) =
    (fst (vk_exec (GET (revokeBeforeKey uid)) (view k)), view (fst (rateLimitCheck E h cid k)))"
proof -
  have "view (fst (rateLimitCheck E h cid k)) (revokeBeforeKey uid) = view k (revokeBeforeKey uid)"
    using rateLimitCheck_spec [of E h cid k _ "snd (rateLimitCheck E h cid k)", OF prod.collapse [symmetric] assms]
    by (simp add: revokeBeforeKey_def)
  then show ?thesis by (simp split: option.splits prod.splits vval.splits)
qed

text \<open>What creating the successor and marking the presented token leaves in the store.\<close>

lemma rotation_store:
  assumes srv: "valkey_service (e_valkey E) view" and inv: "family_inv (view k)"
    and old: "storedRefresh (view k) (sha256hexStr E tok) = Some p0"
    and c: "refreshCreate E site p k = (k1, Some new)"
  defines "k2 \<equiv> fst (refreshMarkUsed E tok k1)" and "oh \<equiv> sha256hexStr E tok" and "n \<equiv> sha256hexStr E new"
  shows "family_inv (view k2) \<and> (n \<noteq> oh \<longrightarrow> storedRefresh (view k2) n = Some (p\<lparr>rp_Used := False\<rparr>)) \<and>
    (n \<noteq> oh \<longrightarrow> lastingRefresh (view k) oh \<longrightarrow> storedRefresh (view k2) oh = Some (p0\<lparr>rp_Used := True\<rparr>)) \<and>
    (\<forall>x. x \<noteq> n \<longrightarrow> x \<noteq> oh \<longrightarrow> storedRefresh (view k2) x = storedRefresh (view k) x)"
proof -
  note st = valkey_refresh_store [OF srv]
  obtain b where m: "refreshMarkUsed E tok k1 = (k2, b)" unfolding k2_def by (cases "refreshMarkUsed E tok k1") simp
  have c1: "family_inv (view k1)" "storedRefresh (view k1) = (storedRefresh (view k))(n \<mapsto> p\<lparr>rp_Used := False\<rparr>)"
    "\<forall>x. list_all isHex x \<longrightarrow> x \<noteq> n \<longrightarrow> lastingRefresh (view k1) x = lastingRefresh (view k) x"
    using refresh_store.create_stored [OF st inv c] by (auto simp: n_def)
  have m1: "family_inv (view k2)"
    "storedRefresh (view k2) = (case storedRefresh (view k1) oh of None \<Rightarrow> storedRefresh (view k1)
       | Some q \<Rightarrow> if list_all isHex oh \<and> lastingRefresh (view k1) oh
                   then (storedRefresh (view k1))(oh \<mapsto> q\<lparr>rp_Used := True\<rparr>) else storedRefresh (view k1))"
    using refresh_store.markUsed_stored [OF st c1(1) m] unfolding oh_def by blast+
  have hex: "list_all isHex oh" by (simp add: oh_def)
  show ?thesis
    using m1 c1 old hex unfolding oh_def [symmetric]
    by (auto split: option.splits if_splits)
qed

text \<open>C3. Refresh token rotation at the endpoint, when Valkey answers with the documented semantics: a
  refresh succeeds only for an authenticated, active client that owns the presented, unused token
  and may use the grant, and for an active user whose revocation cutoff is not later than the
  token's creation. The new access token is signed with the private key that an active key unwraps
  to; the successor keeps user, client, family and absolute expiry, and its scopes are those of the
  presented token that the client is still allowed. The presented token is not deleted: it stays
  stored, marked used, so that presenting it again is seen as reuse (it is marked when it has half a
  second left), and no other token of the store changes.\<close>

theorem refresh_rotation_sound:
  assumes srv: "valkey_service (e_valkey E) view" and inv: "family_inv (view (w_vk w))"
    and ok: "handleRefreshToken E h r w = (w', TokenOK resp)"
  shows "\<exists>client p u p' old new key priv ttl.
    old = sha256hexStr E (postForm r ''refresh_token'') \<and> new = sha256hexStr E (tr_RefreshToken resp) \<and>
    client \<in> set (db_clients (w_db w)) \<and> c_Status client = ''active'' \<and>
    checkSecrets E (postForm r ''client_secret'') client = Inr True \<and>
    storedRefresh (view (w_vk w)) old = Some p \<and> \<not> rp_Used p \<and>
    rp_ClientID p = e_uuid_string E (c_ID client) \<and> ''refresh_token'' \<in> set (c_AllowedGrantTypes client) \<and>
    u \<in> set (db_users (w_db w)) \<and> e_uuid_parse E (rp_UserID p) = Some (u_ID u) \<and> u_Status u = ''active'' \<and>
    (\<forall>t. readCutoff (fst (vk_exec (GET (revokeBeforeKey (e_uuid_string E (u_ID u)))) (view (w_vk w)))) = Cutoff t \<longrightarrow>
       Unix t \<le> rp_CreatedAt p) \<and>
    key \<in> set (db_signing_keys (w_db w)) \<and> sk_Status key = ''active'' \<and>
    UnwrapPrivateKey E (sk_PrivateKeyEncrypted key) (th_encryptionKey h) = Some priv \<and>
    SignAccessToken E (BuildAccessClaims E u (e_uuid_string E (c_ID client)) (th_publicURL h)
        (e_uuid_string E (e_new_uuid E ''token.access_jti'')) (rp_Scopes p') (e_go_now E) ttl)
      (e_uuid_string E (sk_ID key)) priv = Some (tr_AccessToken resp) \<and>
    rp_UserID p' = e_uuid_string E (u_ID u) \<and> rp_ClientID p' = rp_ClientID p \<and>
    rp_FamilyID p' = rp_FamilyID p \<and> rp_Expires p' = rp_Expires p \<and> rp_CreatedAt p' = Unix (e_go_now E) \<and>
    rp_Scopes p' = filter (\<lambda>s. s \<in> set (c_AllowedScopes client)) (rp_Scopes p) \<and>
    family_inv (view (w_vk w')) \<and> (new \<noteq> old \<longrightarrow> storedRefresh (view (w_vk w')) new = Some p') \<and>
    (new \<noteq> old \<longrightarrow> lastingRefresh (view (w_vk w)) old \<longrightarrow>
       storedRefresh (view (w_vk w')) old = Some (p\<lparr>rp_Used := True\<rparr>)) \<and>
    (\<forall>x. x \<noteq> new \<longrightarrow> x \<noteq> old \<longrightarrow> storedRefresh (view (w_vk w')) x = storedRefresh (view (w_vk w)) x)"
proof -
  let ?tok = "postForm r ''refresh_token''"
  from ok obtain w1 client k2 p where
    a: "refreshClientAuth E h (tq_Req r) (postForm r ''client_id'') (postForm r ''client_secret'') w = (w1, Inr client)"
    and c: "refreshConsume E ?tok (w_vk w1) = (k2, Consumed p)"
    and x: "exchangeRefresh E h (tq_Req r) ?tok client p (w1\<lparr>w_vk := k2\<rparr>) = (w', TokenOK resp)"
    by (rule handleRefreshToken_OK)
  from x obtain u scopes w3 m where cr: "checkRefresh E client p (w_db w1) = Inr (u, scopes)"
    and eu: "enforceUser E (tq_Req r) client p u (w1\<lparr>w_vk := k2\<rparr>) = (w3, None)"
    and sg: "signRefreshTokens E h client p u scopes (w_db w3) = Inr m"
    and rr: "rotateRefresh E (tq_Req r) ?tok client p u scopes m w3 = (w', TokenOK resp)"
    by (rule exchangeRefresh_OK) simp
  from rr obtain k4 where
    rc: "refreshCreate E ''token.rotate'' (rotatedPayload E client p u scopes) (w_vk w3) = (k4, Some (tr_RefreshToken resp))"
    and w': "w_vk w' = fst (refreshMarkUsed E ?tok k4)" and at: "tr_AccessToken resp = mt_Access m"
    by (rule rotateRefresh_OK)
  note auth = authenticate_Inr [OF a [unfolded refreshClientAuth_def]]
  have v1: "storedRefresh (view (w_vk w1)) = storedRefresh (view (w_vk w))" "family_inv (view (w_vk w1))"
    "lastingRefresh (view (w_vk w1)) = lastingRefresh (view (w_vk w))"
    using auth rateLimitCheck_refresh [OF srv] inv by simp_all
  have v2: "view k2 = view (w_vk w1)"
    and old: "Consumed p = (case storedRefresh (view (w_vk w1)) (sha256hexStr E ?tok) of None \<Rightarrow> ErrRefreshUnknownOrExpired
         | Some p \<Rightarrow> if rp_Used p then ErrRefreshReuseDetected p else Consumed p)"
    using valkey_service.refresh_consume [OF srv refl v1(2) c] by simp_all
  from old have old': "storedRefresh (view (w_vk w)) (sha256hexStr E ?tok) = Some p" "\<not> rp_Used p"
    by (auto simp: v1(1) split: option.splits if_splits)
  note en = enforceUser_None [OF eu]
  have v3: "view (w_vk w3) = view (w_vk w1)" using en RevokeBeforeGet_view(1) [OF srv] v2 by simp
  have cut: "\<forall>t. readCutoff (fst (vk_exec (GET (revokeBeforeKey (e_uuid_string E (u_ID u)))) (view (w_vk w)))) = Cutoff t \<longrightarrow>
       Unix t \<le> rp_CreatedAt p"
    using en RevokeBeforeGet_view(2) [OF srv, of "e_uuid_string E (u_ID u)" k2] v2 auth rateLimitCheck_cutoff [OF srv, of "e_uuid_string E (u_ID u)"]
    by simp
  have p': "rp_Used (rotatedPayload E client p u scopes) = False" by (simp add: rotatedPayload_def)
  note rot = rotation_store [OF srv _ _ rc, of ?tok p, unfolded v3 v1, OF v1(2) old'(1)]
  from signRefreshTokens_Inr [OF sg] obtain key priv where key: "key \<in> set (db_signing_keys (w_db w3))"
      "sk_Status key = ''active''" "UnwrapPrivateKey E (sk_PrivateKeyEncrypted key) (th_encryptionKey h) = Some priv"
      "SignAccessToken E (BuildAccessClaims E u (e_uuid_string E (c_ID client)) (th_publicURL h)
        (e_uuid_string E (e_new_uuid E ''token.access_jti'')) scopes (e_go_now E) (mt_AccessTTL m))
        (e_uuid_string E (sk_ID key)) priv = Some (tr_AccessToken resp)" using at by auto
  note facts = auth old' checkRefresh_Inr [OF cr] en cut rot [folded w'] key
  show ?thesis
    by (rule exI [of _ client], rule exI [of _ p], rule exI [of _ u], rule exI [of _ "rotatedPayload E client p u scopes"],
        rule exI [of _ "sha256hexStr E ?tok"], rule exI [of _ "sha256hexStr E (tr_RefreshToken resp)"],
        rule exI [of _ key], rule exI [of _ priv], rule exI [of _ "mt_AccessTTL m"],
        insert facts, simp add: rotatedPayload_def)
qed

section \<open>Reuse\<close>

text \<open>C4. Reuse detection at the endpoint: when an authenticated client presents a refresh token that was
  already rotated and Valkey answers, the reply is \<open>invalid_grant\<close> and the store is left with exactly
  the tokens that are not of its family: none of the family, the live successor included, and every
  token of every other family, unchanged.\<close>

theorem refresh_reuse_revokes_family:
  assumes srv: "valkey_service (e_valkey E) view" and inv: "family_inv (view (w_vk w))"
    and given: "postForm r ''client_id'' \<noteq> []" "postForm r ''client_secret'' \<noteq> []" "postForm r ''refresh_token'' \<noteq> []"
    and auth: "refreshClientAuth E h (tq_Req r) (postForm r ''client_id'') (postForm r ''client_secret'') w = (w1, Inr client)"
    and used: "storedRefresh (view (w_vk w)) (sha256hexStr E (postForm r ''refresh_token'')) = Some p" "rp_Used p"
  shows "\<exists>w'. handleRefreshToken E h r w =
      (w', TokenError 400 ''invalid_grant'' ''Refresh token already used (family revoked).'') \<and>
    familyRevoked (view (w_vk w)) (rp_FamilyID p) (view (w_vk w'))"
proof -
  let ?tok = "postForm r ''refresh_token''"
  note a = authenticate_Inr [OF auth [unfolded refreshClientAuth_def]]
  have w1: "storedRefresh (view (w_vk w1)) = storedRefresh (view (w_vk w))" "family_inv (view (w_vk w1))"
    "familyTokens (view (w_vk w1)) = familyTokens (view (w_vk w))"
    using a rateLimitCheck_refresh [OF srv] inv by simp_all
  obtain k2 res where c: "refreshConsume E ?tok (w_vk w1) = (k2, res)" by (cases rule: prod.exhaust)
  have k2: "view k2 = view (w_vk w1)" "res = ErrRefreshReuseDetected p"
    using valkey_service.refresh_consume [OF srv refl w1(2) c] used by (simp_all add: w1(1))
  have rev: "familyRevoked (view (w_vk w)) (rp_FamilyID p) (view (fst (refreshRevokeFamily E (rp_FamilyID p) k2)))"
    by (rule refresh_revoke_view [OF srv]) (simp_all add: k2 w1)
  have "handleRefreshToken E h r w = refreshReuse E (tq_Req r) client p (w1\<lparr>w_vk := k2\<rparr>)"
    using given auth c k2(2) by (simp add: handleRefreshToken_def Let_def)
  then show ?thesis using rev by (simp add: refreshReuse_def)
qed

section \<open>Sample refresh requests\<close>

definition sampleRefreshRequest :: tokenRequest where
  "sampleRefreshRequest = \<lparr>tq_Form = Some [(''grant_type'', ''refresh_token''), (''client_id'', ''9''),
     (''client_secret'', ''secret''), (''refresh_token'', ''t'')], tq_Req = sampleRequest\<rparr>"

lemma sampleRefreshRequest_sel:
  "postForm sampleRefreshRequest ''client_id'' = ''9''" "postForm sampleRefreshRequest ''client_secret'' = ''secret''"
  "postForm sampleRefreshRequest ''refresh_token'' = ''t''" "tq_Req sampleRefreshRequest = sampleRequest"
  by (simp_all add: sampleRefreshRequest_def formGet_def)

lemma sampleRefreshAuth:
  "refreshClientAuth sampleEnv sampleHandler req ''9'' ''secret'' \<lparr>w_db = sampleTokenDB, w_vk = sampleStore tok p\<rparr> =
    (\<lparr>w_db = sampleTokenDB, w_vk = fst (rateLimitCheck sampleEnv sampleHandler ''9'' (sampleStore tok p))\<rparr>, Inr sampleClient)"
  unfolding refreshClientAuth_def using sampleStore_limit
  by (subst sampleAuth) (simp_all add: sampleTokenDB_sel)

theorem refresh_reuse_revokes_family_witness:
  "\<exists>w'. handleRefreshToken sampleEnv sampleHandler sampleRefreshRequest
      \<lparr>w_db = sampleTokenDB, w_vk = sampleStore ''t'' (samplePayload\<lparr>rp_Used := True\<rparr>)\<rparr> =
      (w', TokenError 400 ''invalid_grant'' ''Refresh token already used (family revoked).'') \<and>
    storedRefresh (w_vk w') (sha256hexStr sampleEnv ''t'') = None"
proof -
  let ?p = "samplePayload\<lparr>rp_Used := True\<rparr>"
  let ?w = "\<lparr>w_db = sampleTokenDB, w_vk = sampleStore ''t'' ?p\<rparr>"
  have auth: "refreshClientAuth sampleEnv sampleHandler (tq_Req sampleRefreshRequest) (postForm sampleRefreshRequest ''client_id'')
      (postForm sampleRefreshRequest ''client_secret'') ?w =
      (\<lparr>w_db = sampleTokenDB, w_vk = fst (rateLimitCheck sampleEnv sampleHandler ''9'' (sampleStore ''t'' ?p))\<rparr>, Inr sampleClient)"
    unfolding sampleRefreshRequest_sel by (rule sampleRefreshAuth)
  have "\<exists>w'. handleRefreshToken sampleEnv sampleHandler sampleRefreshRequest ?w =
      (w', TokenError 400 ''invalid_grant'' ''Refresh token already used (family revoked).'') \<and>
      familyRevoked (w_vk ?w) (rp_FamilyID ?p) (w_vk w')"
    by (rule refresh_reuse_revokes_family [OF sampleServer _ _ _ _ auth])
       (simp_all add: sampleStore_laws sampleRefreshRequest_sel)
  then obtain w' where h: "handleRefreshToken sampleEnv sampleHandler sampleRefreshRequest ?w =
      (w', TokenError 400 ''invalid_grant'' ''Refresh token already used (family revoked).'')"
    and st: "familyRevoked (sampleStore ''t'' ?p) (rp_FamilyID ?p) (w_vk w')"
    by auto
  note sampleStore_revoked [OF st]
  with h show ?thesis by blast
qed

lemma sampleRefreshSign:
  "\<exists>m. signRefreshTokens sampleEnv sampleHandler client p u scopes sampleTokenDB = Inr m"
  using sampleUnwrap
  by (simp add: signRefreshTokens_def readTokenTTLs_def AccessTokenTTLSecs_def RefreshTokenTTLSecs_def GetInt_def
      configGet_def query_def stmt_def GetActive_def needOne_def sampleTokenDB_def sampleKey_def sampleHandler_def
      Let_def SignAccessToken_def SignIDToken_def signRS256_def)

lemma sampleCheckRefresh:
  "checkRefresh sampleEnv sampleClient samplePayload sampleTokenDB = Inr (sampleUser, [''openid'', ''offline_access''])"
proof -
  have "e_uuid_parse sampleEnv ''7'' = Some 7"
    by (simp add: sampleEnv_def isDigitByte_def readNat_def digitVal_def)
  then have "snd (UserGetByID sampleEnv ''token.refresh.GetByID'' 7 (pool sampleTokenDB)) = Inr sampleUser"
    by (simp add: UserGetByID_def needOne_def query_def stmt_def sampleTokenDB_sel) (simp add: sampleUser_def)
  moreover have "c_AllowedGrantTypes sampleClient = [''authorization_code'', ''refresh_token'']"
    "rp_ClientID samplePayload = showNat (c_ID sampleClient)" "rp_UserID samplePayload = ''7''"
    "intersectScopesAgainstClient (rp_Scopes samplePayload) (c_AllowedScopes sampleClient) = Some [''openid'', ''offline_access'']"
    by (simp_all add: sampleClient_def samplePayload_def showNat.simps [of 9] intersectScopesAgainstClient_def)
  ultimately show ?thesis using \<open>e_uuid_parse sampleEnv ''7'' = Some 7\<close> by (simp add: checkRefresh_def)
qed

lemma sampleRotate:
  assumes inv: "family_inv (w_vk w)" and "w_db w = sampleTokenDB"
  shows "\<exists>w' resp. rotateRefresh sampleEnv sampleRequest tok sampleClient samplePayload sampleUser scopes m w =
    (w', TokenOK resp) \<and> tr_RefreshToken resp = sampleToken 12"
proof -
  let ?p = "rotatedPayload sampleEnv sampleClient samplePayload sampleUser scopes"
  have exp: "Unix (e_go_now sampleEnv) < rp_Expires ?p"
    by (simp add: rotatedPayload_def samplePayload_def Unix_def second_def)
  have buf: "e_rand sampleEnv ''token.rotate'' 0 32 = Some (replicate 32 (char_of (12 :: nat)))" by simp
  obtain k' where "refreshCreate sampleEnv ''token.rotate'' ?p (w_vk w) = (k', Some (sampleToken 12))"
    using keyspace.refresh_create_live [OF sampleEnv_sel(1) inv exp buf] unfolding sampleToken_def by blast
  then show ?thesis
    by (simp add: rotateRefresh_def beginTx_def pool_def [symmetric] sampleLog clientEntry_def commitTx_def tokenBody_def)
qed

lemma sampleRefresh:
  "\<exists>w' resp. handleRefreshToken sampleEnv sampleHandler sampleRefreshRequest
      \<lparr>w_db = sampleTokenDB, w_vk = sampleStore ''t'' samplePayload\<rparr> = (w', TokenOK resp) \<and>
     tr_RefreshToken resp = sampleToken 12"
proof -
  let ?w = "\<lparr>w_db = sampleTokenDB, w_vk = sampleStore ''t'' samplePayload\<rparr>"
  define k1 where "k1 = fst (rateLimitCheck sampleEnv sampleHandler ''9'' (sampleStore ''t'' samplePayload))"
  let ?w1 = "\<lparr>w_db = sampleTokenDB, w_vk = k1\<rparr>"
  have auth: "refreshClientAuth sampleEnv sampleHandler sampleRequest ''9'' ''secret'' ?w = (?w1, Inr sampleClient)"
    unfolding k1_def by (rule sampleRefreshAuth)
  have k1: "family_inv k1" "storedRefresh k1 = [sha256hexStr sampleEnv ''t'' \<mapsto> samplePayload]"
    using rateLimitCheck_refresh [OF sampleServer] by (simp_all add: k1_def sampleStore_laws)
  obtain k2 res where c: "refreshConsume sampleEnv ''t'' k1 = (k2, res)" by (cases rule: prod.exhaust)
  have k2: "k2 = k1" "res = Consumed samplePayload"
    using keyspace.refresh_consume [OF _ k1(1) c] k1(2) by (simp_all add: samplePayload_def)
  have "k1 (revokeBeforeKey ''7'') = None"
    using rateLimitCheck_spec [OF _ sampleServer, of sampleHandler "''9''" "sampleStore ''t'' samplePayload" k1
        "snd (rateLimitCheck sampleEnv sampleHandler ''9'' (sampleStore ''t'' samplePayload))"]
    by (simp add: k1_def revokeBeforeKey_def sampleStore_def refreshKeyPrefix_def refreshFamilyKeyPrefix_def prod_eq_iff)
  moreover have "e_uuid_string sampleEnv (u_ID sampleUser) = ''7''" "u_Status sampleUser = ''active''"
    by (simp_all add: sampleUser_def showNat.simps [of 7])
  ultimately have "enforceUser sampleEnv sampleRequest sampleClient samplePayload sampleUser ?w1 = (?w1, None)"
    by (simp add: enforceUser_def Let_def RevokeBeforeGet_def readCutoff_def)
  moreover obtain m where "signRefreshTokens sampleEnv sampleHandler sampleClient samplePayload sampleUser
      [''openid'', ''offline_access''] sampleTokenDB = Inr m" using sampleRefreshSign by blast
  moreover obtain w' resp where "rotateRefresh sampleEnv sampleRequest ''t'' sampleClient samplePayload sampleUser
      [''openid'', ''offline_access''] m ?w1 = (w', TokenOK resp)" and new: "tr_RefreshToken resp = sampleToken 12"
    using sampleRotate [of ?w1] k1 by fastforce
  ultimately have "exchangeRefresh sampleEnv sampleHandler sampleRequest ''t'' sampleClient samplePayload ?w1 = (w', TokenOK resp)"
    by (simp add: exchangeRefresh_def sampleCheckRefresh)
  then have "handleRefreshToken sampleEnv sampleHandler sampleRefreshRequest ?w = (w', TokenOK resp)"
    using auth c k2 by (simp add: handleRefreshToken_def Let_def sampleRefreshRequest_sel)
  with new show ?thesis by blast
qed

theorem refresh_rotation_sound_witness:
  "\<exists>w' resp. handleRefreshToken sampleEnv sampleHandler sampleRefreshRequest
      \<lparr>w_db = sampleTokenDB, w_vk = sampleStore ''t'' samplePayload\<rparr> = (w', TokenOK resp) \<and>
     family_inv (w_vk w') \<and> (\<exists>p. storedRefresh (sampleStore ''t'' samplePayload) (sha256hexStr sampleEnv ''t'') = Some p \<and> \<not> rp_Used p)"
proof -
  obtain w' resp where ok: "handleRefreshToken sampleEnv sampleHandler sampleRefreshRequest
      \<lparr>w_db = sampleTokenDB, w_vk = sampleStore ''t'' samplePayload\<rparr> = (w', TokenOK resp)"
    using sampleRefresh by blast
  have inv: "family_inv (w_vk \<lparr>w_db = sampleTokenDB, w_vk = sampleStore ''t'' samplePayload\<rparr>)"
    by (simp add: sampleStore_laws)
  from refresh_rotation_sound [OF sampleServer inv ok] obtain p where
    "storedRefresh (sampleStore ''t'' samplePayload) (sha256hexStr sampleEnv (postForm sampleRefreshRequest ''refresh_token'')) = Some p"
    "\<not> rp_Used p" "family_inv (w_vk w')" by auto
  with ok show ?thesis unfolding sampleRefreshRequest_sel by blast
qed

end
