(* ===== verification/Bearer.thy ===== *)
theory Bearer
  imports TokenRefresh
begin

text \<open>
  \<^verbatim>\<open>internal/authserver/bearer_middleware.go\<close> and \<^verbatim>\<open>userinfo.go\<close>: access tokens on the way back.
  The middleware either answers with an error or passes the user and the claims on to the handler.
\<close>

section \<open>The middleware\<close>

definition bearerClockSkew :: int where "bearerClockSkew = 30 * second"

record BearerAuthDeps =
  bd_Valkey :: bool
  bd_Issuer :: string

datatype bearerResult = BearerError nat string string | BearerPass User AccessTokenClaims

definition extractBearerToken :: "string \<Rightarrow> string" where
  "extractBearerToken header =
     (if header = [] then []
      else case splitOnce (CHR '' '') header of
        (a, None) \<Rightarrow> []
      | (a, Some b) \<Rightarrow> if \<not> equalFold a ''Bearer'' then [] else trimSpace b)"

definition bearerLookup :: "'k env \<Rightarrow> db \<Rightarrow> string \<Rightarrow> bytes option" where
  "bearerLookup E d kid =
     (case snd (ListPublishable E (pool d)) of
        Inl e \<Rightarrow> None
      | Inr keys \<Rightarrow> map_option sk_PublicKeyPEM (find (\<lambda>k. e_uuid_string E (sk_ID k) = kid) keys))"

text \<open>The claims checks; the sums are those of \<open>int64\<close>.\<close>

definition checkClaims :: "'k env \<Rightarrow> BearerAuthDeps \<Rightarrow> AccessTokenClaims \<Rightarrow> bearerResult option" where
  "checkClaims E deps c =
     (let now = Unix (e_go_now E); skew = bearerClockSkew div second
      in if at_Issuer c \<noteq> bd_Issuer deps then Some (BearerError 401 ''invalid_token'' ''issuer mismatch'')
         else if at_Audience c = [] then Some (BearerError 401 ''invalid_token'' ''audience missing'')
         else if at_Expires c > 0 \<and> now > int64 (at_Expires c + skew)
         then Some (BearerError 401 ''invalid_token'' ''token expired'')
         else if at_NotBefore c > 0 \<and> int64 (now + skew) < at_NotBefore c
         then Some (BearerError 401 ''invalid_token'' ''token not yet valid'')
         else None)"

text \<open>The two cutoffs; an error of the lookup lets the token pass.\<close>

definition beforeCutoff :: "AccessTokenClaims \<Rightarrow> cutoff \<Rightarrow> bool" where
  "beforeCutoff c rb = (case rb of Cutoff t \<Rightarrow> at_IssuedAt c < Unix t | _ \<Rightarrow> False)"

definition checkCutoffs
  :: "'k env \<Rightarrow> BearerAuthDeps \<Rightarrow> AccessTokenClaims \<Rightarrow> User \<Rightarrow> 'k \<Rightarrow> 'k \<times> bearerResult" where
  "checkCutoffs E deps c u k =
     (if \<not> bd_Valkey deps then (k, BearerPass u c)
      else case RevokeBeforeGet E (e_uuid_string E (u_ID u)) k of
        (k1, rb) \<Rightarrow>
          if beforeCutoff c rb then (k1, BearerError 401 ''invalid_token'' ''token revoked'')
          else if at_Audience c = [] then (k1, BearerPass u c)
          else case RevokeBeforeClientGet E (at_Audience c) k1 of
            (k2, cb) \<Rightarrow>
              if beforeCutoff c cb
              then (k2, BearerError 401 ''invalid_token'' ''token revoked by client mutation'')
              else (k2, BearerPass u c))"

definition BearerAuth
  :: "'k env \<Rightarrow> BearerAuthDeps \<Rightarrow> string \<Rightarrow> 'k world \<Rightarrow> 'k world \<times> bearerResult" where
  "BearerAuth E deps header w =
     (let raw = extractBearerToken header
      in if raw = [] then (w, BearerError 401 ''invalid_token'' ''Bearer token missing'')
         else case ParseAndVerifyAccessToken E raw (bearerLookup E (w_db w)) of
           None \<Rightarrow> (w, BearerError 401 ''invalid_token'' ''signature or header invalid'')
         | Some c \<Rightarrow>
             (case checkClaims E deps c of
                Some e \<Rightarrow> (w, e)
              | None \<Rightarrow>
                  (case e_uuid_parse E (at_Subject c) of
                     None \<Rightarrow> (w, BearerError 401 ''invalid_token'' ''subject not a UUID'')
                   | Some uid \<Rightarrow>
                       (case snd (UserGetByID E ''bearer.GetByID'' uid (pool (w_db w))) of
                          Inl e \<Rightarrow>
                            (w, if e = ErrUserNotFound
                                then BearerError 401 ''invalid_token'' ''user no longer exists''
                                else BearerError 500 ''server_error'' ''lookup failed'')
                        | Inr u \<Rightarrow>
                            if u_Status u \<noteq> ''active''
                            then (w, BearerError 401 ''invalid_token'' ''user not active'')
                            else (case checkCutoffs E deps c u (w_vk w) of
                                    (k1, r) \<Rightarrow> (w\<lparr>w_vk := k1\<rparr>, r))))))"

section \<open>UserInfo\<close>

definition userinfoBestEffortAudit :: "'k env \<Rightarrow> request \<Rightarrow> Entry \<Rightarrow> db \<Rightarrow> db" where
  "userinfoBestEffortAudit E req entry d = bestEffortAudit E ''userinfo.audit'' (req_CorrelationID req) entry d"

datatype userinfoReply = UserInfoDenied bearerResult | UserInfoOK UserInfoClaims

definition UserInfoHandle
  :: "'k env \<Rightarrow> request \<Rightarrow> User \<Rightarrow> AccessTokenClaims \<Rightarrow> db \<Rightarrow> db \<times> UserInfoClaims" where
  "UserInfoHandle E req user c d =
     (let scopes = GoStd.fields (at_Scope c)
      in (userinfoBestEffortAudit E req
            \<lparr>en_EventType = ''oidc.userinfo.accessed'', en_ActorID = Some (u_ID user), en_ActorEmail = u_Email user,
             en_TargetType = ''client'', en_TargetID = at_Audience c, en_ClientID = None,
             en_IPAddress = clientIP E req, en_Outcome = ''success'',
             en_Metadata = Some [(''scopes'', MList scopes), (''jti'', MStr (at_JTI c))]\<rparr> d,
          BuildUserInfoClaims E user scopes))"

text \<open>The route: the middleware around the handler, so that both find what they look up in the
  context.\<close>

definition userinfoRoute
  :: "'k env \<Rightarrow> BearerAuthDeps \<Rightarrow> request \<Rightarrow> string \<Rightarrow> 'k world \<Rightarrow> 'k world \<times> userinfoReply" where
  "userinfoRoute E deps req header w =
     (case BearerAuth E deps header w of
        (w1, BearerError s e m) \<Rightarrow> (w1, UserInfoDenied (BearerError s e m))
      | (w1, BearerPass u c) \<Rightarrow>
          (case UserInfoHandle E req u c (w_db w1) of (d', body) \<Rightarrow> (w1\<lparr>w_db := d'\<rparr>, UserInfoOK body)))"

section \<open>What passes\<close>

lemma checkClaims_None:
  "checkClaims E deps c = None \<longleftrightarrow> at_Issuer c = bd_Issuer deps \<and> at_Audience c \<noteq> [] \<and>
     (at_Expires c > 0 \<longrightarrow> Unix (e_go_now E) \<le> int64 (at_Expires c + 30)) \<and>
     (at_NotBefore c > 0 \<longrightarrow> at_NotBefore c \<le> int64 (Unix (e_go_now E) + 30))"
  by (auto simp: checkClaims_def Let_def bearerClockSkew_def second_def)

lemma int64_id: "- (2 ^ 63) \<le> n \<Longrightarrow> n < 2 ^ 63 \<Longrightarrow> int64 n = n"
  by (simp add: int64_def mod_pos_pos_trivial)

lemma bearerLookup_Some:
  assumes "bearerLookup E d kid = Some pub"
  shows "\<exists>key \<in> set (db_signing_keys d). e_uuid_string E (sk_ID key) = kid \<and> sk_PublicKeyPEM key = pub \<and>
    (sk_Status key = ''active'' \<or> sk_Status key = ''retiring'')"
proof -
  from assms obtain keys key where "snd (ListPublishable E (pool d)) = Inr keys"
    and f: "find (\<lambda>k. e_uuid_string E (sk_ID k) = kid) keys = Some key" and "pub = sk_PublicKeyPEM key"
    by (auto simp: bearerLookup_def split: sum.splits)
  moreover from this have "keys = publishable (db_signing_keys d)"
    by (auto simp: ListPublishable_def query_def stmt_def split: if_splits)
  ultimately show ?thesis using find_Some_D [OF f] by (auto simp: publishable_iff)
qed

lemma BearerAuth_Pass:
  assumes "BearerAuth E deps header w = (w', BearerPass u c)"
  obtains raw where "raw = extractBearerToken header" "raw \<noteq> []"
    "ParseAndVerifyAccessToken E raw (bearerLookup E (w_db w)) = Some c" "checkClaims E deps c = None"
    "e_uuid_parse E (at_Subject c) = Some (u_ID u)" "u \<in> set (db_users (w_db w))" "u_Status u = ''active''"
    "checkCutoffs E deps c u (w_vk w) = (w_vk w', BearerPass u c)" "w_db w' = w_db w"
proof -
  let ?raw = "extractBearerToken header"
  have noPass: "checkClaims E deps x \<noteq> Some (BearerPass a b)" for x a b by (simp add: checkClaims_def Let_def)
  have same: "v = u' \<and> x = c'" if "checkCutoffs E deps x v k = (k', BearerPass u' c')" for x v k k' u' c'
    using that by (auto simp: checkCutoffs_def split: if_splits prod.splits)
  have raw: "?raw \<noteq> []" using assms by (auto simp: BearerAuth_def Let_def)
  obtain c0 where c0: "ParseAndVerifyAccessToken E ?raw (bearerLookup E (w_db w)) = Some c0"
    using assms raw by (cases "ParseAndVerifyAccessToken E ?raw (bearerLookup E (w_db w))") (simp_all add: BearerAuth_def)
  have cc: "checkClaims E deps c0 = None"
    using assms raw c0 noPass [of c0 u c] by (cases "checkClaims E deps c0") (auto simp: BearerAuth_def)
  obtain uid where uid: "e_uuid_parse E (at_Subject c0) = Some uid"
    using assms raw c0 cc by (cases "e_uuid_parse E (at_Subject c0)") (simp_all add: BearerAuth_def)
  obtain u0 where u0: "snd (UserGetByID E ''bearer.GetByID'' uid (pool (w_db w))) = Inr u0"
    using assms raw c0 cc uid
    by (cases "snd (UserGetByID E ''bearer.GetByID'' uid (pool (w_db w)))") (simp_all add: BearerAuth_def split: if_splits)
  have st: "u_Status u0 = ''active''"
    using assms raw c0 cc uid u0 by (cases "u_Status u0 = ''active''") (simp_all add: BearerAuth_def)
  obtain k1 where k1: "checkCutoffs E deps c0 u0 (w_vk w) = (k1, BearerPass u c)" "w' = w\<lparr>w_vk := k1\<rparr>"
    using assms raw c0 cc uid u0 st
    by (cases "checkCutoffs E deps c0 u0 (w_vk w)") (simp add: BearerAuth_def)
  note 1 = raw c0 cc uid u0 st k1
  from same [OF 1(7)] have eq: "u0 = u" "c0 = c" by simp_all
  have "u \<in> set (db_users (w_db w)) \<and> u_ID u = uid"
    using 1(5) UserGetByID_Inr [of E "''bearer.GetByID''" uid "pool (w_db w)" _ u0] eq
    by (cases "UserGetByID E ''bearer.GetByID'' uid (pool (w_db w))") auto
  with that [of ?raw] 1 eq show thesis by simp
qed

lemma RevokeBeforeClientGet_view:
  assumes "valkey_service (e_valkey E) view"
  shows "view (fst (RevokeBeforeClientGet E cid k)) = view k"
    and "snd (RevokeBeforeClientGet E cid k) = readCutoff (fst (vk_exec (GET (revokeBeforeClientKey cid)) (view k)))"
proof -
  have "view (snd (e_valkey E (GET (revokeBeforeClientKey cid)) k)) = view k"
    using valkey_service.effect [OF assms] by (simp split: option.splits prod.splits vval.splits)
  then show "view (fst (RevokeBeforeClientGet E cid k)) = view k" by (auto simp: RevokeBeforeClientGet_def split: prod.splits)
  show "snd (RevokeBeforeClientGet E cid k) = readCutoff (fst (vk_exec (GET (revokeBeforeClientKey cid)) (view k)))"
    using valkey_service.reply [OF assms, of "GET (revokeBeforeClientKey cid)" k]
    by (cases "e_valkey E (GET (revokeBeforeClientKey cid)) k") (simp add: RevokeBeforeClientGet_def)
qed

text \<open>The cutoff read for a key of the store.\<close>

abbreviation cutoffAt :: "kspace \<Rightarrow> string \<Rightarrow> cutoff" where
  "cutoffAt m key \<equiv> readCutoff (fst (vk_exec (GET key) m))"

lemma checkCutoffs_eq:
  assumes srv: "valkey_service (e_valkey E) view" and "bd_Valkey deps" and "at_Audience c \<noteq> []"
  shows "\<exists>k'. checkCutoffs E deps c u k =
    (k', if beforeCutoff c (cutoffAt (view k) (revokeBeforeKey (e_uuid_string E (u_ID u))))
         then BearerError 401 ''invalid_token'' ''token revoked''
         else if beforeCutoff c (cutoffAt (view k) (revokeBeforeClientKey (at_Audience c)))
         then BearerError 401 ''invalid_token'' ''token revoked by client mutation''
         else BearerPass u c)"
proof -
  let ?uid = "e_uuid_string E (u_ID u)"
  obtain k1 rb where r: "RevokeBeforeGet E ?uid k = (k1, rb)" by (cases rule: prod.exhaust)
  obtain k2 cb where c: "RevokeBeforeClientGet E (at_Audience c) k1 = (k2, cb)" by (cases rule: prod.exhaust)
  have "view k1 = view k" "rb = cutoffAt (view k) (revokeBeforeKey ?uid)"
    using RevokeBeforeGet_view [OF srv, of ?uid k] r by simp_all
  moreover have "cb = cutoffAt (view k1) (revokeBeforeClientKey (at_Audience c))"
    using RevokeBeforeClientGet_view [OF srv, of "at_Audience c" k1] c by simp
  ultimately show ?thesis using assms r c by (simp add: checkCutoffs_def)
qed


section \<open>Revocation\<close>

lemma RevokeBeforeSetNow_cutoff:
  assumes srv: "valkey_service (e_valkey E) view"
    and range: "- (2 ^ 63) \<le> Unix (e_go_now E) + 1" "Unix (e_go_now E) + 1 < 2 ^ 63"
    and set: "RevokeBeforeSetNow E uid k = (k', b)"
  shows "b \<and> cutoffAt (view k') (revokeBeforeKey uid) = Cutoff (fromUnix (Unix (e_go_now E) + 1))"
proof -
  let ?t = "truncateSecond (e_go_now E) + second"
  let ?cmd = "SET (revokeBeforeKey uid) (Decimal (Unix ?t)) revokeBeforeTTL"
  obtain r where v: "e_valkey E ?cmd k = (r, k')" and b: "b = (r \<noteq> RErr)"
    using set by (auto simp: RevokeBeforeSetNow_def RevokeBeforeSet_def split: prod.splits)
  have ttl: "0 < revokeBeforeTTL" by (simp add: revokeBeforeTTL_def second_def)
  with valkey_service.serve [OF srv v] have "r = ROk"
    "view k' = (view k)(revokeBeforeKey uid \<mapsto> (VStr (Decimal (Unix ?t)), Some revokeBeforeTTL))" by auto
  with b range show ?thesis by (simp add: readCutoff_def Unix_truncate_next)
qed

text \<open>Revoking a user cuts off exactly the past: after \<open>RevokeBeforeSetNow\<close>, as long as its key is in
  the store, every bearer token of the user that is still accepted, by any server and at any later
  time, was issued in a later second than the revocation; and the cutoff rejects no token issued in a
  later second.\<close>

lemma revocation_cuts_off:
  assumes srv: "valkey_service (e_valkey E) view" and same: "e_valkey E' = e_valkey E"
    and range: "- (2 ^ 63) \<le> Unix (e_go_now E) + 1" "Unix (e_go_now E) + 1 < 2 ^ 63"
    and set: "RevokeBeforeSetNow E (e_uuid_string E' (u_ID u)) k = (k', b)"
    and kept: "view (w_vk w) (revokeBeforeKey (e_uuid_string E' (u_ID u))) = view k' (revokeBeforeKey (e_uuid_string E' (u_ID u)))"
    and vk: "bd_Valkey deps"
  shows "(BearerAuth E' deps header w = (w', BearerPass u c) \<longrightarrow> Unix (e_go_now E) < at_IssuedAt c) \<and>
    (Unix (e_go_now E) < at_IssuedAt c \<longrightarrow>
       \<not> beforeCutoff c (snd (RevokeBeforeGet E' (e_uuid_string E' (u_ID u)) (w_vk w))))"
proof -
  let ?key = "revokeBeforeKey (e_uuid_string E' (u_ID u))"
  have srv': "valkey_service (e_valkey E') view" using srv same by simp
  have "cutoffAt (view (w_vk w)) ?key = cutoffAt (view k') ?key"
    using kept by (simp split: option.splits prod.splits vval.splits)
  with RevokeBeforeSetNow_cutoff [OF srv range set]
  have cut: "cutoffAt (view (w_vk w)) ?key = Cutoff (fromUnix (Unix (e_go_now E) + 1))" by simp
  have "Unix (e_go_now E) < at_IssuedAt c" if "BearerAuth E' deps header w = (w', BearerPass u c)"
    using that
  proof (rule BearerAuth_Pass)
    fix raw
    assume "checkClaims E' deps c = None" and ok: "checkCutoffs E' deps c u (w_vk w) = (w_vk w', BearerPass u c)"
    then have "at_Audience c \<noteq> []" by (simp add: checkClaims_None)
    from checkCutoffs_eq [OF srv' vk this, of u "w_vk w"] ok cut show ?thesis
      by (auto simp: beforeCutoff_def split: if_splits)
  qed
  moreover have "\<not> beforeCutoff c (snd (RevokeBeforeGet E' (e_uuid_string E' (u_ID u)) (w_vk w)))"
    if "Unix (e_go_now E) < at_IssuedAt c"
    using RevokeBeforeGet_view(2) [OF srv', of "e_uuid_string E' (u_ID u)" "w_vk w"] cut that
    by (simp add: beforeCutoff_def)
  ultimately show ?thesis by blast
qed

section \<open>From the code to the user\<close>

text \<open>Documented behaviour of the JWT library for a key pair: what was signed with the private key
  decodes to what was signed and verifies with the public key; a compact token is not empty and has
  no white space.\<close>

definition jwt_pair :: "'k env \<Rightarrow> bytes \<Rightarrow> bytes \<Rightarrow> bool" where
  "jwt_pair E priv pub = (\<forall>j raw. e_jwt_sign E j priv = Some raw \<longrightarrow>
     e_jwt_decode E raw = Some j \<and> e_jwt_verify E raw pub \<and> raw \<noteq> [] \<and> list_all (\<lambda>ch. \<not> isSpaceByte ch) raw)"

lemma finishCode_db:
  assumes "finishCode E req client row u scopes m t w = (w', TokenOK resp)"
  shows "db_users (w_db w') = db_users (tx_db t) \<and> db_signing_keys (w_db w') = db_signing_keys (tx_db t)"
  using assms
  by (auto simp: finishCode_def tokenBody_def commitTx_def
      split: prod.splits option.splits sum.splits bool.splits if_splits dest: Log_tables)

lemma trimSpace_none: "list_all (\<lambda>ch. \<not> isSpaceByte ch) s \<Longrightarrow> trimSpace s = s"
proof -
  have keep: "dropWhile isSpaceByte t = t" if "list_all (\<lambda>ch. \<not> isSpaceByte ch) t" for t
    using that by (cases t) auto
  assume "list_all (\<lambda>ch. \<not> isSpaceByte ch) s"
  then show ?thesis using keep [of s] keep [of "rev s"] by (simp add: trimSpace_def list_all_iff)
qed

lemma extractBearer: "list_all (\<lambda>ch. \<not> isSpaceByte ch) raw \<Longrightarrow> extractBearerToken (''Bearer '' @ raw) = raw"
  by (simp add: extractBearerToken_def splitOnce.simps equalFold_def trimSpace_none)

lemma find_only:
  assumes "x \<in> set xs" and "P x" and only: "\<And>y. y \<in> set xs \<Longrightarrow> P y \<Longrightarrow> y = x"
  shows "find P xs = Some x"
proof (cases "find P xs")
  case None
  with assms(1,2) show ?thesis by (simp add: find_None_iff)
next
  case (Some z)
  with find_Some_D [OF Some] only [of z] show ?thesis by simp
qed

lemma kid_lookup:
  assumes "uuid_laws E" and ids: "distinct (map sk_ID (db_signing_keys d))" and key: "key \<in> set (db_signing_keys d)"
    and st: "sk_Status key = ''active''" and up: "\<not> e_pg_fails E (PQuery ''signing_keys.ListPublishable'')"
  shows "bearerLookup E d (e_uuid_string E (sk_ID key)) = Some (sk_PublicKeyPEM key)"
proof -
  let ?ks = "publishable (db_signing_keys d)"
  have inj: "e_uuid_string E a = e_uuid_string E b \<longleftrightarrow> a = b" for a b
    using assms(1) by (metis uuid_laws_def option.inject)
  have "key \<in> set ?ks" using key st by (simp add: publishable_iff)
  moreover have "x = key" if "x \<in> set ?ks" "sk_ID x = sk_ID key" for x
    using distinct_map_eqD [OF ids, of x key] that key by (simp add: publishable_iff)
  ultimately have "find (\<lambda>k. e_uuid_string E (sk_ID k) = e_uuid_string E (sk_ID key)) ?ks = Some key"
    unfolding inj by (intro find_only) simp_all
  then show ?thesis using up by (simp add: bearerLookup_def ListPublishable_def query_def stmt_def)
qed

text \<open>A freshly minted access token passes the claims check.\<close>

lemma wholeSeconds_nonneg: "0 \<le> wholeSeconds d \<Longrightarrow> - second < d"
proof (cases "d < 0")
  case True
  assume "0 \<le> wholeSeconds d"
  with True have "(- d) div second \<le> 0" by (simp add: wholeSeconds_def)
  then have "- d < second" by (simp add: second_def)
  then show ?thesis by simp
qed (simp add: second_def)

lemma int64_less: "int64 n < 2 ^ 63"
  using pos_mod_bound [of "2 ^ 64" "n + 2 ^ 63"] by (simp add: int64_def)

lemma fresh_claims:
  assumes "bd_Issuer deps = issuer" and "cid \<noteq> []" and ttl: "- second < ttl" "ttl < 2 ^ 63"
    and now: "0 \<le> e_go_now E" "e_go_now E < 2 ^ 63"
  shows "checkClaims E deps (BuildAccessClaims E u cid issuer jti scopes (e_go_now E) ttl) = None"
proof -
  have "Unix (e_go_now E + (- 1) * second) \<le> Unix (e_go_now E + ttl)" using ttl by (intro Unix_mono) simp
  then have mono: "Unix (e_go_now E) - 1 \<le> Unix (e_go_now E + ttl)" by (simp only: Unix_add_seconds)
  have "Unix (e_go_now E + ttl) \<le> Unix (2 ^ 64)" using ttl now by (intro Unix_mono) simp
  then have hi: "Unix (e_go_now E + ttl) \<le> 18446744073" by (simp add: Unix_def second_def)
  have lo: "0 \<le> Unix (e_go_now E)" using Unix_mono [of 0 "e_go_now E"] now by (simp add: Unix_def)
  have "int64 (Unix (e_go_now E + ttl) + 30) = Unix (e_go_now E + ttl) + 30"
    "int64 (Unix (e_go_now E) + 30) = Unix (e_go_now E) + 30"
    using hi lo mono by (intro int64_id; simp)+
  then show ?thesis using assms(1,2) mono by (simp add: checkClaims_None BuildAccessClaims_def)
qed

lemma signCodeTokens_ttl:
  assumes "signCodeTokens E h client row u scopes t = (t', Inr m)"
  shows "mt_AccessTTL m < 2 ^ 63"
proof -
  from assms obtain t1 a b where r: "readTokenTTLs E t = (t1, Inr (a, b))" and m: "mt_AccessTTL m = a"
    by (auto simp: signCodeTokens_def Let_def split: prod.splits sum.splits option.splits)
  from r obtain n where "a = int64 n" unfolding readTokenTTLs_def by (auto split: prod.splits sum.splits)
  then have "a < 2 ^ 63" using int64_less by simp
  with m show ?thesis by simp
qed

text \<open>The middleware accepts a token whose signature verifies and whose claims are in order.\<close>

lemma BearerAuth_accepts:
  assumes srv: "valkey_service (e_valkey E) view" and vk: "bd_Valkey deps"
    and p: "ParseAndVerifyAccessToken E raw (bearerLookup E (w_db w)) = Some c"
    and raw: "extractBearerToken header = raw" "raw \<noteq> []"
    and cc: "checkClaims E deps c = None" and sub: "e_uuid_parse E (at_Subject c) = Some (u_ID u)"
    and u: "u \<in> set (db_users (w_db w))" "u_Status u = ''active''" "distinct (map u_ID (db_users (w_db w)))"
    and up: "\<not> e_pg_fails E (PQuery ''bearer.GetByID'')"
    and nocut: "\<not> beforeCutoff c (cutoffAt (view (w_vk w)) (revokeBeforeKey (e_uuid_string E (u_ID u))))"
      "\<not> beforeCutoff c (cutoffAt (view (w_vk w)) (revokeBeforeClientKey (at_Audience c)))"
  shows "\<exists>w'. BearerAuth E deps header w = (w', BearerPass u c) \<and> w_db w' = w_db w"
proof -
  have aud: "at_Audience c \<noteq> []" using cc by (simp add: checkClaims_None)
  obtain k' where k': "checkCutoffs E deps c u (w_vk w) = (k', BearerPass u c)"
    using checkCutoffs_eq [OF srv vk aud, of u "w_vk w"] nocut by auto
  have "find (\<lambda>x. u_ID x = u_ID u) (db_users (w_db w)) = Some u"
    by (rule find_unique [OF u(3,1) refl])
  then have g: "snd (UserGetByID E ''bearer.GetByID'' (u_ID u) (pool (w_db w))) = Inr u"
    using up by (simp add: UserGetByID_def needOne_def query_def stmt_def)
  show ?thesis using raw p cc sub g u(2) k' by (simp add: BearerAuth_def)
qed

text \<open>The exchange leaves the keys of the cutoffs alone.\<close>

lemma refreshCreate_frame:
  assumes srv: "valkey_service (e_valkey E) view" and c: "refreshCreate E site p k = (k', r)"
    and x: "\<not> hasPrefix x refreshKeyPrefix"
  shows "view k' x = view k x"
proof -
  have ne: "x \<noteq> refreshKeyPrefix @ y" "x \<noteq> refreshFamilyKeyPrefix @ y" for y
    using x by (auto simp: hasPrefix_iff refreshKeyPrefix_def refreshFamilyKeyPrefix_def)
  have one: "snd (vk_exec cmd m) x = m x"
    if "\<exists>y. cmd = SET (refreshKeyPrefix @ y) b t \<or> cmd = SADD (refreshFamilyKeyPrefix @ y) z \<or> cmd = EXPIRE (refreshFamilyKeyPrefix @ y) t"
    for cmd m b t z using that ne by (auto split: option.splits prod.splits vval.splits)
  have "k' = k \<or> (\<exists>rs y f b t. pipeline E [SET (refreshKeyPrefix @ y) b t, SADD (refreshFamilyKeyPrefix @ f) y,
      EXPIRE (refreshFamilyKeyPrefix @ f) t] k = (rs, k'))"
    using c by (auto simp: refreshCreate_def Let_def simp del: pipeline.simps split: if_splits option.splits prod.splits)
  then show ?thesis
  proof (elim disjE exE)
    fix rs y f b t
    assume "pipeline E [SET (refreshKeyPrefix @ y) b t, SADD (refreshFamilyKeyPrefix @ f) y,
      EXPIRE (refreshFamilyKeyPrefix @ f) t] k = (rs, k')"
    from valkey_service.serve_pipeline [OF srv refl this] one show ?thesis
      by (auto simp del: vk_exec.simps split: prod.splits) (metis snd_conv)
  qed simp
qed

lemma cutoff_keys: "\<not> hasPrefix (revokeBeforeKey x) refreshKeyPrefix" "\<not> hasPrefix (revokeBeforeClientKey x) refreshKeyPrefix"
  by (auto simp: hasPrefix_iff revokeBeforeKey_def revokeBeforeClientKey_def refreshKeyPrefix_def)

lemma exchange_keeps_cutoffs:
  assumes srv: "valkey_service (e_valkey E) view"
    and a: "codeClientAuth E h req cid sec w = (w1, Inr client)"
    and f: "finishCode E req client row u scopes m t w1 = (w', TokenOK resp)"
    and key: "key = revokeBeforeKey x \<or> key = revokeBeforeClientKey x"
  shows "view (w_vk w') key = view (w_vk w) key"
proof -
  have "key \<noteq> ''ratelimit:oidc:token:'' @ cid" using key by (auto simp: revokeBeforeKey_def revokeBeforeClientKey_def)
  then have "view (w_vk w1) key = view (w_vk w) key"
    using rateLimitCheck_spec [of E h cid "w_vk w" _ "snd (rateLimitCheck E h cid (w_vk w))", OF prod.collapse [symmetric] srv]
      authenticate_Inr [OF a [unfolded codeClientAuth_def]] by simp
  moreover have "view (w_vk w') key = view (w_vk w1) key"
    using finishCode_OK [OF f] refreshCreate_frame [OF srv, of _ _ "w_vk w1" "w_vk w'" _ key] cutoff_keys [of x] key
    by (auto simp: mintRefresh_def split: if_splits)
  ultimately show ?thesis by simp
qed

text \<open>C7. The flow ends where it should: the access token of a successful code exchange is accepted by the
  userinfo endpoint of the same server, and the answer is about the user the code was issued for.
  (Hypotheses: the key pairs of the table belong together, identifiers print and parse back, no
  cutoff is set, the configured life of access tokens is not negative and the clock is a 64-bit
  one.)\<close>

theorem code_token_accepted:
  assumes ok: "handleAuthorizationCode E h r w = (w', TokenOK resp)"
    and srv: "valkey_service (e_valkey E) view"
    and laws: "uuid_laws E" "\<forall>id. e_uuid_string E id \<noteq> []"
    and pairs: "\<forall>key \<in> set (db_signing_keys (w_db w)). \<forall>priv.
        UnwrapPrivateKey E (sk_PrivateKeyEncrypted key) (th_encryptionKey h) = Some priv \<longrightarrow> jwt_pair E priv (sk_PublicKeyPEM key)"
    and keys: "distinct (map sk_ID (db_signing_keys (w_db w)))" "distinct (map u_ID (db_users (w_db w)))"
    and up: "\<forall>site. \<not> e_pg_fails E (PQuery site)"
    and issuer: "bd_Issuer deps = th_publicURL h" and vk: "bd_Valkey deps"
    and nocut: "\<forall>id. view (w_vk w) (revokeBeforeKey id) = None \<and> view (w_vk w) (revokeBeforeClientKey id) = None"
    and ttl: "0 \<le> tr_ExpiresIn resp"
    and now: "0 \<le> e_go_now E" "e_go_now E < 2 ^ 63"
  shows "\<exists>row \<in> set (db_codes (w_db w)). ac_CodeHash row = sha256hex E (postForm r ''code'') \<and>
    (\<exists>w'' body. userinfoRoute E deps req (''Bearer '' @ tr_AccessToken resp) w' = (w'', UserInfoOK body) \<and>
       ui_Sub body = e_uuid_string E (ac_UserID row))"
proof -
  from ok obtain w1 client t1 row where
    a: "codeClientAuth E h (tq_Req r) (postForm r ''client_id'') (postForm r ''client_secret'') w = (w1, Inr client)"
    and c: "ConsumeOnce E (sha256hex E (postForm r ''code'')) (pool (w_db w1)) = (t1, Inr row)"
    and x: "exchangeCode E h r client row t1 w1 = (w', TokenOK resp)"
    by (rule handleAuthorizationCode_OK)
  from x obtain u scopes m where cu: "checkCodeUser E (tq_Req r) client row t1 = (t1, Inr (u, scopes))"
    and sg: "signCodeTokens E h client row u scopes t1 = (t1, Inr m)"
    and f: "finishCode E (tq_Req r) client row u scopes m t1 w1 = (w', TokenOK resp)"
    by (rule exchangeCode_OK)
  have t1: "db_users (tx_db t1) = db_users (w_db w)" "db_signing_keys (tx_db t1) = db_signing_keys (w_db w)"
    using ConsumeOnce_Inr [OF c] authenticate_Inr [OF a [unfolded codeClientAuth_def]] by auto
  have w': "db_users (w_db w') = db_users (w_db w)" "db_signing_keys (w_db w') = db_signing_keys (w_db w)"
    using finishCode_db [OF f] t1 by simp_all
  let ?cl = "BuildAccessClaims E u (e_uuid_string E (c_ID client)) (th_publicURL h) (mt_AccessJTI m) scopes
      (e_go_now E) (mt_AccessTTL m)"
  let ?raw = "tr_AccessToken resp"
  from signCodeTokens_Inr [OF sg] obtain key priv where
    key: "key \<in> set (db_signing_keys (w_db w))" "sk_Status key = ''active''"
      "UnwrapPrivateKey E (sk_PrivateKeyEncrypted key) (th_encryptionKey h) = Some priv"
    and sign: "SignAccessToken E ?cl (e_uuid_string E (sk_ID key)) priv = Some ?raw"
    using finishCode_OK [OF f] t1 by auto
  have jwt: "e_jwt_decode E ?raw = Some \<lparr>jwt_alg = ''RS256'', jwt_typ = ''at+jwt'', jwt_kid = e_uuid_string E (sk_ID key),
      jwt_claims = AccessClaims ?cl\<rparr>" "e_jwt_verify E ?raw (sk_PublicKeyPEM key)" "?raw \<noteq> []"
      "list_all (\<lambda>ch. \<not> isSpaceByte ch) ?raw"
    using pairs [rule_format, OF key(1,3)] sign by (auto simp: jwt_pair_def SignAccessToken_def signRS256_def)
  have look: "bearerLookup E (w_db w') (e_uuid_string E (sk_ID key)) = Some (sk_PublicKeyPEM key)"
    using kid_lookup [OF laws(1) _ _ key(2)] keys(1) key(1) up by (simp add: w')
  have p: "ParseAndVerifyAccessToken E ?raw (bearerLookup E (w_db w')) = Some ?cl"
    using jwt look laws(2) by (simp add: ParseAndVerifyAccessToken_def parseAndVerify_def)
  have "tr_ExpiresIn resp = wholeSeconds (mt_AccessTTL m)"
    using f by (auto simp: finishCode_def tokenBody_def split: prod.splits option.splits sum.splits bool.splits)
  then have cc: "checkClaims E deps ?cl = None"
    using wholeSeconds_nonneg [of "mt_AccessTTL m"] ttl signCodeTokens_ttl [OF sg] laws(2) now
    by (intro fresh_claims [OF issuer]) simp_all
  note u = checkCodeUser_Inr [OF cu]
  have none: "view (w_vk w') (revokeBeforeKey id) = None" "view (w_vk w') (revokeBeforeClientKey id) = None" for id
    using exchange_keeps_cutoffs [OF srv a f, of _ id] nocut by simp_all
  have cut: "\<not> beforeCutoff ?cl (cutoffAt (view (w_vk w')) (revokeBeforeKey (e_uuid_string E (u_ID u))))"
    "\<not> beforeCutoff ?cl (cutoffAt (view (w_vk w')) (revokeBeforeClientKey (at_Audience ?cl)))"
    by (simp_all add: none beforeCutoff_def readCutoff_def)
  have sub: "e_uuid_parse E (at_Subject ?cl) = Some (u_ID u)" using laws(1) by (simp add: BuildAccessClaims_def uuid_laws_def)
  obtain w2 where pass: "BearerAuth E deps (''Bearer '' @ ?raw) w' = (w2, BearerPass u ?cl)"
    using BearerAuth_accepts [OF srv vk p extractBearer [OF jwt(4)] jwt(3) cc sub _ _ _ _ cut] u t1 w' keys(2) up by auto
  have "\<exists>w'' body. userinfoRoute E deps req (''Bearer '' @ ?raw) w' = (w'', UserInfoOK body) \<and>
      ui_Sub body = e_uuid_string E (ac_UserID row)"
    using u unfolding userinfoRoute_def pass by (simp add: UserInfoHandle_def Let_def BuildUserInfoClaims_def)
  moreover have "row \<in> set (db_codes (w_db w))" "ac_CodeHash row = sha256hex E (postForm r ''code'')"
    using ConsumeOnce_Inr [OF c] authenticate_Inr [OF a [unfolded codeClientAuth_def]] by (auto simp: codeUsable_def)
  ultimately show ?thesis by blast
qed

section \<open>Samples\<close>

definition sampleDeps :: BearerAuthDeps where
  "sampleDeps = \<lparr>bd_Valkey = True, bd_Issuer = ''https://id''\<rparr>"

definition sampleAccess :: AccessTokenClaims where
  "sampleAccess = BuildAccessClaims sampleEnv sampleUser ''9'' ''https://id'' ''j'' [''openid''] (1000 * second) (900 * second)"

definition sampleBearerToken :: string where
  "sampleBearerToken = compactJWT \<lparr>jwt_alg = ''RS256'', jwt_typ = ''at+jwt'', jwt_kid = ''3'', jwt_claims = AccessClaims sampleAccess\<rparr>"

definition sampleHeader :: string where
  "sampleHeader = ''Bearer '' @ sampleBearerToken"

lemma sampleKeyID: "e_uuid_string sampleEnv 3 = ''3''" by (simp add: showNat.simps [of 3])

lemma sampleBearer:
  assumes "w_db w = sampleTokenDB"
    and "\<not> beforeCutoff sampleAccess (cutoffAt (w_vk w) (revokeBeforeKey (e_uuid_string sampleEnv (u_ID sampleUser))))"
    and "\<not> beforeCutoff sampleAccess (cutoffAt (w_vk w) (revokeBeforeClientKey (at_Audience sampleAccess)))"
  shows "\<exists>w'. BearerAuth sampleEnv sampleDeps sampleHeader w = (w', BearerPass sampleUser sampleAccess)"
proof -
  let ?key = "(sampleKey 3 ''active'' None)\<lparr>sk_PrivateKeyEncrypted := sampleWrapped\<rparr>"
  have key: "db_signing_keys sampleTokenDB = [?key]" by (simp add: sampleTokenDB_def)
  have "bearerLookup sampleEnv sampleTokenDB (e_uuid_string sampleEnv (sk_ID ?key)) = Some (sk_PublicKeyPEM ?key)"
    by (rule kid_lookup [OF sampleEnv_laws(4)]) (simp_all add: key sampleKey_def)
  then have "bearerLookup sampleEnv sampleTokenDB ''3'' = Some ''PUB''"
    using sampleKeyID by (simp add: sampleKey_def)
  then have p: "ParseAndVerifyAccessToken sampleEnv sampleBearerToken (bearerLookup sampleEnv (w_db w)) = Some sampleAccess"
    by (simp add: ParseAndVerifyAccessToken_def parseAndVerify_def sampleBearerToken_def assms(1))
  have cc: "checkClaims sampleEnv sampleDeps sampleAccess = None"
    by (simp add: checkClaims_None sampleDeps_def sampleAccess_def BuildAccessClaims_def Unix_def second_def int64_def)
  have plain: "sampleBearerToken \<noteq> []" "list_all (\<lambda>ch. \<not> isSpaceByte ch) sampleBearerToken"
    using compactJWT_plain by (simp_all add: sampleBearerToken_def)
  have sub: "e_uuid_parse sampleEnv (at_Subject sampleAccess) = Some (u_ID sampleUser)"
    by (simp add: sampleAccess_def BuildAccessClaims_def)
  have st: "u_Status sampleUser = ''active''" by (simp add: sampleUser_def)
  have "\<exists>w'. BearerAuth sampleEnv sampleDeps sampleHeader w = (w', BearerPass sampleUser sampleAccess) \<and> w_db w' = w_db w"
    by (rule BearerAuth_accepts [where view = "\<lambda>m. m", OF sampleServer _ p extractBearer [OF plain(2), folded sampleHeader_def] plain(1) cc sub _ st])
       (use assms in \<open>simp_all add: sampleDeps_def sampleTokenDB_sel\<close>)
  then show ?thesis by blast
qed


lemma sampleEnv_pair: "jwt_pair sampleEnv priv pub"
  using compactJWT_plain by (simp add: jwt_pair_def)

theorem code_token_accepted_witness:
  "\<exists>w' resp w'' body. handleAuthorizationCode sampleEnv sampleHandler sampleCodeRequest
      \<lparr>w_db = sampleTokenDB, w_vk = (\<lambda>k. None)\<rparr> = (w', TokenOK resp) \<and>
     userinfoRoute sampleEnv sampleDeps sampleRequest (''Bearer '' @ tr_AccessToken resp) w' = (w'', UserInfoOK body) \<and>
     ui_Sub body = e_uuid_string sampleEnv 7"
proof -
  let ?w = "\<lparr>w_db = sampleTokenDB, w_vk = (\<lambda>k. None)\<rparr> :: kspace world"
  obtain w' resp where ok: "handleAuthorizationCode sampleEnv sampleHandler sampleCodeRequest ?w = (w', TokenOK resp)"
    and exp: "0 \<le> tr_ExpiresIn resp"
    using sampleExchange by blast
  have "\<forall>id. e_uuid_string sampleEnv id \<noteq> []" using showNat_digits by simp
  from code_token_accepted [OF ok sampleServer sampleEnv_laws(4) this _ _ _ _ _ _ _ exp, of sampleDeps sampleRequest]
  obtain w'' body where "userinfoRoute sampleEnv sampleDeps sampleRequest (''Bearer '' @ tr_AccessToken resp) w' = (w'', UserInfoOK body)"
    "ui_Sub body = e_uuid_string sampleEnv (ac_UserID sampleCodeRow)"
    by (auto simp: sampleEnv_pair sampleTokenDB_sel sampleDeps_def sampleHandler_def second_def)
       (auto simp: sampleTokenDB_def)
  with ok show ?thesis by (auto simp: sampleCodeRow_def)
qed

end
