(* ===== verification/Patterns.thy ===== *)
theory Patterns
  imports Main
begin

text \<open>
  The path patterns of \<^verbatim>\<open>net/http\<close> and those that \<^verbatim>\<open>internal/server/router.go\<close> registers. No request matches
  two of them, so it does not matter in which order the multiplexer tries them. The check evaluates the
  whole table, which is why it stands in a theory of its own.
\<close>

datatype segment = Lit string | Wild string

fun segMatch :: "segment \<Rightarrow> string \<Rightarrow> bool" where
  "segMatch (Lit l) s = (l = s)"
| "segMatch (Wild n) s = (s \<noteq> [])"

text \<open>Two patterns overlap when some request can match both.\<close>

fun segOverlap :: "segment \<Rightarrow> segment \<Rightarrow> bool" where
  "segOverlap (Lit a) (Lit b) = (a = b)"
| "segOverlap _ _ = True"

definition patternOverlap :: "string \<times> segment list \<Rightarrow> string \<times> segment list \<Rightarrow> bool" where
  "patternOverlap r r' = (fst r = fst r' \<and> list_all2 segOverlap (snd r) (snd r'))"

text \<open>The patterns in the order of the table; \<open>Ownership\<close> shows that they are those of the routes.\<close>

definition routePatterns :: "(string \<times> segment list) list" where
  "routePatterns =
     [(''GET'', [Lit ''api'', Lit ''health'']),
      (''GET'', [Lit ''api'', Lit ''setup'']),
      (''POST'', [Lit ''api'', Lit ''setup'']),
      (''POST'', [Lit ''api'', Lit ''login'']),
      (''POST'', [Lit ''api'', Lit ''logout'']),
      (''GET'', [Lit ''api'', Lit ''me'']),
      (''POST'', [Lit ''api'', Lit ''change-password'']),
      (''POST'', [Lit ''api'', Lit ''me'', Lit ''mfa'', Lit ''disable'']),
      (''GET'', [Lit ''api'', Lit ''users'']),
      (''POST'', [Lit ''api'', Lit ''users'']),
      (''GET'', [Lit ''api'', Lit ''users'', Wild ''id'']),
      (''PATCH'', [Lit ''api'', Lit ''users'', Wild ''id'']),
      (''POST'', [Lit ''api'', Lit ''users'', Wild ''id'', Lit ''disable'']),
      (''POST'', [Lit ''api'', Lit ''users'', Wild ''id'', Lit ''enable'']),
      (''POST'', [Lit ''api'', Lit ''users'', Wild ''id'', Lit ''reset-password'']),
      (''POST'', [Lit ''api'', Lit ''users'', Wild ''id'', Lit ''reset-mfa'']),
      (''DELETE'', [Lit ''api'', Lit ''users'', Wild ''id'']),
      (''GET'', [Lit ''api'', Lit ''users'', Wild ''id'', Lit ''sessions'']),
      (''DELETE'', [Lit ''api'', Lit ''users'', Wild ''id'', Lit ''sessions'']),
      (''DELETE'', [Lit ''api'', Lit ''users'', Wild ''id'', Lit ''sessions'', Wild ''token'']),
      (''GET'', [Lit ''api'', Lit ''clients'']),
      (''POST'', [Lit ''api'', Lit ''clients'']),
      (''GET'', [Lit ''api'', Lit ''clients'', Wild ''id'']),
      (''PATCH'', [Lit ''api'', Lit ''clients'', Wild ''id'']),
      (''POST'', [Lit ''api'', Lit ''clients'', Wild ''id'', Lit ''disable'']),
      (''POST'', [Lit ''api'', Lit ''clients'', Wild ''id'', Lit ''enable'']),
      (''POST'', [Lit ''api'', Lit ''clients'', Wild ''id'', Lit ''rotate-secret'']),
      (''DELETE'', [Lit ''api'', Lit ''clients'', Wild ''id'']),
      (''GET'', [Lit ''api'', Lit ''admin'', Lit ''signing-keys'']),
      (''POST'', [Lit ''api'', Lit ''admin'', Lit ''signing-keys'', Lit ''rotate'']),
      (''POST'', [Lit ''api'', Lit ''admin'', Lit ''signing-keys'', Wild ''kid'', Lit ''retire-now'']),
      (''GET'', [Lit ''api'', Lit ''settings'']),
      (''PATCH'', [Lit ''api'', Lit ''settings'', Lit ''general'']),
      (''PATCH'', [Lit ''api'', Lit ''settings'', Lit ''security'']),
      (''PATCH'', [Lit ''api'', Lit ''settings'', Lit ''tokens'']),
      (''PATCH'', [Lit ''api'', Lit ''settings'', Lit ''email'']),
      (''POST'', [Lit ''api'', Lit ''settings'', Lit ''email'', Lit ''test'']),
      (''GET'', [Lit ''.well-known'', Lit ''openid-configuration'']),
      (''GET'', [Lit ''.well-known'', Lit ''jwks.json'']),
      (''POST'', [Lit ''api'', Lit ''mfa'', Lit ''enrollment'', Lit ''start'']),
      (''POST'', [Lit ''api'', Lit ''mfa'', Lit ''enrollment'', Lit ''verify'']),
      (''POST'', [Lit ''api'', Lit ''mfa'', Lit ''enrollment'', Lit ''complete'']),
      (''POST'', [Lit ''api'', Lit ''mfa'', Lit ''challenge'']),
      (''POST'', [Lit ''api'', Lit ''password-reset'', Lit ''request'']),
      (''POST'', [Lit ''api'', Lit ''password-reset'', Lit ''validate'']),
      (''POST'', [Lit ''api'', Lit ''password-reset'', Lit ''confirm'']),
      (''GET'', [Lit ''authorize'']),
      (''POST'', [Lit ''token'']),
      (''GET'', [Lit ''userinfo''])]"

text \<open>The comparison for evaluation, which stops at the first difference.\<close>

fun segsOverlap :: "segment list \<Rightarrow> segment list \<Rightarrow> bool" where
  "segsOverlap [] [] = True"
| "segsOverlap (a # p) (b # p') = (if segOverlap a b then segsOverlap p p' else False)"
| "segsOverlap _ _ = False"

lemma segsOverlap_iff: "segsOverlap p p' = list_all2 segOverlap p p'"
  by (induction p p' rule: segsOverlap.induct) auto

lemma patternOverlap_lazy:
  "patternOverlap r r' =
     (if length (snd r) = length (snd r') then if fst r = fst r' then segsOverlap (snd r) (snd r') else False else False)"
  by (auto simp: patternOverlap_def segsOverlap_iff dest: list_all2_lengthD)

lemma patterns_disjoint:
  "sorted_wrt (\<lambda>r r'. \<not> patternOverlap r r') routePatterns" "list_all (\<lambda>r. fst r \<noteq> ''HEAD'') routePatterns"
  unfolding patternOverlap_lazy by code_simp+

end
