(* ===== verification/Router.thy ===== *)
theory Router
  imports Setup EnvConfig RateLimit Mfa Bearer Patterns
begin

text \<open>
  The HTTP server as a whole: the routing table of \<^verbatim>\<open>internal/server/router.go\<close>, the health probe,
  request logging and security headers of \<^verbatim>\<open>internal/middleware\<close>, the fallback of \<^verbatim>\<open>internal/web\<close>
  and the start-up sequence of \<^verbatim>\<open>cmd/schlass/main.go\<close>.

  A request carries its method, its path as the multiplexer splits it (cleaned, and each segment
  unescaped), the parts of it the handlers read, and what \<^verbatim>\<open>json.Decode\<close> makes of its body for each type
  a handler decodes into. \<open>outside\<close> collects what the handlers ask of the rest of the system. The
  table \<open>routes\<close> lists the patterns with their handlers, in the order in which they are registered; no
  two of its patterns match the same request, so the precedence rules of the multiplexer do not matter (\<open>Patterns\<close>).
\<close>

section \<open>Requests and replies\<close>

record bodies =
  bd_setup :: "SetupRequest option"
  bd_login :: "LoginRequest option"
  bd_changePassword :: "changePasswordRequest option"
  bd_disableMfa :: "string option"
  bd_createUser :: "createUserRequest option"
  bd_updateUser :: "updateUserRequest option"
  bd_createClient :: "createClientReq jsonBody"
  bd_patchClient :: "patchClientReq jsonBody"
  bd_general :: "string option"
  bd_security :: "SecurityPatch option"
  bd_tokens :: "TokensPatch option"
  bd_email :: "EmailPatch option"
  bd_enrollCode :: "string option"
  bd_enrollSaved :: "bool option"
  bd_challenge :: "challengeRequest option"
  bd_resetRequest :: "string option"
  bd_resetValidate :: "string option"
  bd_resetConfirm :: "confirmRequest option"

record httpRequest =
  hq_Method :: string
  hq_Path :: string
  hq_Segments :: "string list"
  hq_RawQuery :: string
  hq_Query :: "(string \<times> string) list"
  hq_Form :: "(string \<times> string) list option"
  hq_Authorization :: string
  hq_Auth :: authRequest
  hq_Body :: bodies

record outside =
  os_Mail :: mailEnv
  os_ParsedName :: "string \<Rightarrow> string"
  os_Fuel :: nat                     \<comment> \<open>for the draws of the recovery codes\<close>
  os_Draw :: nat                     \<comment> \<open>\<^verbatim>\<open>rand.Int64\<close> of the rate limiter\<close>
  os_PgPing :: bool
  os_VkPing :: bool
  os_Asset :: "string \<Rightarrow> bool"       \<comment> \<open>the files embedded in the binary\<close>

datatype httpReply =
    Refusal "unit response"          \<comment> \<open>of the session or the permission middleware\<close>
  | Throttled int
  | LimiterDown
  | AuthReply "Cookie list" "authBody response"
  | ResetReply "mailJob list" "authBody response"
  | UsersReply "usersBody response"
  | ClientsReply "clientsBody response"
  | KeysReply "signingKeyDTO list response"
  | KeyChanged "unit response"
  | SettingsReply "settingsBody response"
  | TestMailReply "envelope list" "settingsBody response"
  | SetupReply "setupBody response"
  | DiscoveryReply "DiscoveryMetadata response"
  | JwksReply "JWK list response"
  | AuthorizeReply "Cookie list" authorizeResponse
  | TokenEndpoint tokenReply
  | UserinfoReply userinfoReply
  | HealthReply nat string string string   \<comment> \<open>status, overall, postgres, valkey\<close>
  | AssetReply string
  | NoReply                          \<comment> \<open>the recovery codes are still being drawn\<close>

section \<open>Health and assets\<close>

definition GetHealth :: "bool \<Rightarrow> bool \<Rightarrow> httpReply" where
  "GetHealth pgPing valkeyPing =
     (let pgStatus = (if pgPing then ''up'' else ''down''); valkeyStatus = (if valkeyPing then ''up'' else ''down'')
      in if pgStatus = ''down'' \<or> valkeyStatus = ''down'' then HealthReply 503 ''unhealthy'' pgStatus valkeyStatus
         else HealthReply 200 ''healthy'' pgStatus valkeyStatus)"

text \<open>A path without a file is answered with the start page, so that the application in the browser
  can route it.\<close>

definition SPAHandler :: "(string \<Rightarrow> bool) \<Rightarrow> string \<Rightarrow> httpReply" where
  "SPAHandler stat path =
     (let p = (if hasPrefix path ''/'' then tl path else path)
      in if p = [] then AssetReply path else if \<not> stat p then AssetReply ''/'' else AssetReply path)"

section \<open>Building the router\<close>

record router =
  rt_Cfg :: Env
  rt_Auth :: authHandler
  rt_Mfa :: MFAHandler
  rt_Reset :: resetHandler
  rt_HIBP :: "string option"

definition BuildRouter :: "'k env \<Rightarrow> (bytes \<Rightarrow> string \<Rightarrow> bytes option) \<Rightarrow> Env \<Rightarrow> string option \<Rightarrow> router option" where
  "BuildRouter E hkdf cfg hibpChecker =
     (case NewHandler E (cfg_SchlassPublicURL cfg) hibpChecker of
        None \<Rightarrow> None
      | Some authHandler \<Rightarrow>
     (case DeriveTokenPepper hkdf (cfg_EncryptionKey cfg) of
        None \<Rightarrow> None
      | Some resetPepper \<Rightarrow>
     (case NewPasswordResetHandler E resetPepper (cfg_SchlassPublicURL cfg) hibpChecker of
        None \<Rightarrow> None
      | Some resetHandler \<Rightarrow>
          Some \<lparr>rt_Cfg = cfg, rt_Auth = authHandler, rt_Mfa = NewMFAHandler (cfg_EncryptionKey cfg) (cfg_SchlassPublicURL cfg),
                rt_Reset = resetHandler, rt_HIBP = hibpChecker\<rparr>)))"

definition minute :: int where "minute = 60 * second"

definition setupGetRL :: "Env \<Rightarrow> RateLimiter" where
  "setupGetRL cfg = NewRateLimiter ''ratelimit:setup:get'' (if cfg_LoginRateLimit cfg < 10 then 10 else cfg_LoginRateLimit cfg) minute"

definition setupPostRL :: "Env \<Rightarrow> RateLimiter" where
  "setupPostRL cfg = NewRateLimiter ''ratelimit:setup:post'' (if cfg_LoginRateLimit cfg < 5 then 5 else cfg_LoginRateLimit cfg) minute"

definition loginRL :: "Env \<Rightarrow> RateLimiter" where
  "loginRL cfg = (NewRateLimiter ''ratelimit:login'' (cfg_LoginRateLimit cfg) minute)\<lparr>rl_FailClosed := True\<rparr>"

definition mfaChallengeRL :: "Env \<Rightarrow> RateLimiter" where
  "mfaChallengeRL cfg = (NewRateLimiter ''ratelimit:mfa'' (cfg_MfaChallengeRateLimit cfg) minute)\<lparr>rl_FailClosed := True\<rparr>"

definition passwordResetRL :: "Env \<Rightarrow> RateLimiter" where
  "passwordResetRL cfg =
     (NewRateLimiter ''ratelimit:password_reset'' (cfg_PasswordResetRateLimit cfg) minute)\<lparr>rl_FailClosed := True\<rparr>"

definition authorizeRL :: "Env \<Rightarrow> RateLimiter" where
  "authorizeRL cfg = NewRateLimiter ''ratelimit:authorize'' (cfg_AuthorizeRateLimit cfg) minute"

definition userinfoRL :: "Env \<Rightarrow> RateLimiter" where
  "userinfoRL cfg = NewRateLimiter ''ratelimit:userinfo'' (cfg_UserinfoRateLimit cfg) minute"

section \<open>Wrapping handlers\<close>

type_synonym 'k serving = "'k world \<Rightarrow> 'k world \<times> httpReply"

definition behindLimiter :: "'k env \<Rightarrow> outside \<Rightarrow> RateLimiter \<Rightarrow> httpRequest \<Rightarrow> 'k serving \<Rightarrow> 'k serving" where
  "behindLimiter E os rl q h w =
     (case rateLimit E rl (os_Draw os) (aq_Req (hq_Auth q)) h w of
        (w', TooMany retryAfter) \<Rightarrow> (w', Throttled retryAfter)
      | (w', LimiterUnavailable) \<Rightarrow> (w', LimiterDown)
      | (w', Served r) \<Rightarrow> (w', r))"

definition authMW :: "'k env \<Rightarrow> httpRequest \<Rightarrow> (User \<Rightarrow> 'k serving) \<Rightarrow> 'k serving" where
  "authMW E q h w =
     (case Middleware E (hq_Auth q) h w of (w', Inl e) \<Rightarrow> (w', Refusal e) | (w', Inr r) \<Rightarrow> (w', r))"

definition gated :: "'k env \<Rightarrow> httpRequest \<Rightarrow> string \<Rightarrow> (User \<Rightarrow> 'k serving) \<Rightarrow> 'k serving" where
  "gated E q perm h =
     authMW E q (\<lambda>u w. case RequirePermission perm (Some u) (h u) w of (w', Inl e) \<Rightarrow> (w', Refusal e) | (w', Inr r) \<Rightarrow> (w', r))"

text \<open>A handler that only uses the database, one that only reads, and the reply put into the common
  type.\<close>

definition onDB :: "(db \<Rightarrow> db \<times> 'r) \<Rightarrow> ('r \<Rightarrow> httpReply) \<Rightarrow> 'k serving" where
  "onDB f g w = (case f (w_db w) of (d, r) \<Rightarrow> (w\<lparr>w_db := d\<rparr>, g r))"

definition reading :: "('k world \<Rightarrow> httpReply) \<Rightarrow> 'k serving" where
  "reading f w = (w, f w)"

definition onWorld :: "('k world \<Rightarrow> 'k world \<times> 'r) \<Rightarrow> ('r \<Rightarrow> httpReply) \<Rightarrow> 'k serving" where
  "onWorld f g w = (case f w of (w', r) \<Rightarrow> (w', g r))"

definition cookieReply :: "authReply \<Rightarrow> httpReply" where
  "cookieReply r = AuthReply (fst r) (snd r)"

section \<open>The routing table\<close>

definition patternMatch :: "string \<Rightarrow> segment list \<Rightarrow> httpRequest \<Rightarrow> bool" where
  "patternMatch m p q =
     ((hq_Method q = m \<or> m = ''GET'' \<and> hq_Method q = ''HEAD'') \<and> list_all2 segMatch p (hq_Segments q))"

text \<open>\<^verbatim>\<open>r.PathValue\<close>.\<close>

definition pathValue :: "segment list \<Rightarrow> httpRequest \<Rightarrow> string \<Rightarrow> string" where
  "pathValue p q name = (case map_of (zip p (hq_Segments q)) (Wild name) of None \<Rightarrow> [] | Some v \<Rightarrow> v)"

type_synonym 'k route = "string \<times> segment list \<times> 'k serving"

abbreviation userPath :: "segment list \<Rightarrow> segment list" where
  "userPath rest \<equiv> [Lit ''api'', Lit ''users'', Wild ''id''] @ rest"

abbreviation clientPath :: "segment list \<Rightarrow> segment list" where
  "clientPath rest \<equiv> [Lit ''api'', Lit ''clients'', Wild ''id''] @ rest"

definition entryRoutes :: "'k env \<Rightarrow> outside \<Rightarrow> router \<Rightarrow> httpRequest \<Rightarrow> 'k route list" where
  "entryRoutes E os rt q =
     (let cfg = rt_Cfg rt; a = hq_Auth q; b = hq_Body q
      in [(''GET'', [Lit ''api'', Lit ''health''], reading (\<lambda>w. GetHealth (os_PgPing os) (os_VkPing os))),
          (''GET'', [Lit ''api'', Lit ''setup''],
             behindLimiter E os (setupGetRL cfg) q (reading (\<lambda>w. SetupReply (GetSetup E (w_db w))))),
          (''POST'', [Lit ''api'', Lit ''setup''],
             behindLimiter E os (setupPostRL cfg) q (onDB (PostSetup E (rt_HIBP rt) (aq_Req a) (bd_setup b)) SetupReply)),
          (''POST'', [Lit ''api'', Lit ''login''],
             behindLimiter E os (loginRL cfg) q (onWorld (PostLogin E (rt_Auth rt) a (bd_login b)) cookieReply))])"

definition publicRoutes :: "'k env \<Rightarrow> outside \<Rightarrow> router \<Rightarrow> httpRequest \<Rightarrow> 'k route list" where
  "publicRoutes E os rt q =
     (let cfg = rt_Cfg rt; a = hq_Auth q; req = aq_Req a; b = hq_Body q; publicURL = cfg_SchlassPublicURL cfg
      in [(''GET'', [Lit ''.well-known'', Lit ''openid-configuration''],
             reading (\<lambda>w. DiscoveryReply (GetConfiguration publicURL))),
          (''GET'', [Lit ''.well-known'', Lit ''jwks.json''], reading (\<lambda>w. JwksReply (GetJWKS E (w_db w)))),
          (''POST'', [Lit ''api'', Lit ''mfa'', Lit ''enrollment'', Lit ''start''],
             onWorld (PostEnrollmentStart E (rt_Mfa rt) a) cookieReply),
          (''POST'', [Lit ''api'', Lit ''mfa'', Lit ''enrollment'', Lit ''verify''],
             (\<lambda>w. case PostEnrollmentVerify E (os_Fuel os) a (bd_enrollCode b) w of
                     None \<Rightarrow> (w, NoReply) | Some (w', r) \<Rightarrow> (w', cookieReply r))),
          (''POST'', [Lit ''api'', Lit ''mfa'', Lit ''enrollment'', Lit ''complete''],
             onWorld (PostEnrollmentComplete E (rt_Mfa rt) a (bd_enrollSaved b)) cookieReply),
          (''POST'', [Lit ''api'', Lit ''mfa'', Lit ''challenge''],
             behindLimiter E os (mfaChallengeRL cfg) q (onWorld (PostChallenge E (rt_Mfa rt) a (bd_challenge b)) cookieReply)),
          (''POST'', [Lit ''api'', Lit ''password-reset'', Lit ''request''],
             behindLimiter E os (passwordResetRL cfg) q
               (\<lambda>w. case PostRequest E (rt_Reset rt) a (bd_resetRequest b) w of ((w', jobs), r) \<Rightarrow> (w', ResetReply jobs r))),
          (''POST'', [Lit ''api'', Lit ''password-reset'', Lit ''validate''],
             behindLimiter E os (passwordResetRL cfg) q
               (reading (\<lambda>w. ResetReply [] (PostValidate E (rt_Reset rt) (bd_resetValidate b) w)))),
          (''POST'', [Lit ''api'', Lit ''password-reset'', Lit ''confirm''],
             onWorld (PostConfirm E (rt_Reset rt) a (bd_resetConfirm b)) (\<lambda>(jobs, r). ResetReply jobs r)),
          (''GET'', [Lit ''authorize''],
             behindLimiter E os (authorizeRL cfg) q
               (\<lambda>w. case OptionalMiddleware E a
                            (\<lambda>u. AuthorizeHandle E
                               \<lparr>ar_Query = hq_Query q, ar_Path = hq_Path q, ar_RawQuery = hq_RawQuery q,
                                ar_UserAgent = aq_UserAgent a, ar_Cookie = cookieOf a ''schlass_session'', ar_Req = req\<rparr> u) w of
                       (cs, w', r) \<Rightarrow> (w', AuthorizeReply cs r))),
          (''POST'', [Lit ''token''],
             onWorld (TokenHandle E \<lparr>th_publicURL = publicURL, th_encryptionKey = cfg_EncryptionKey cfg,
                                     th_tokenRateLimit = cfg_TokenRateLimit cfg\<rparr>
                        \<lparr>tq_Form = hq_Form q, tq_Req = req\<rparr>) TokenEndpoint),
          (''GET'', [Lit ''userinfo''],
             behindLimiter E os (userinfoRL cfg) q
               (onWorld (userinfoRoute E \<lparr>bd_Valkey = True, bd_Issuer = publicURL\<rparr> req (hq_Authorization q)) UserinfoReply))])"

definition selfRoutes :: "'k env \<Rightarrow> router \<Rightarrow> httpRequest \<Rightarrow> 'k route list" where
  "selfRoutes E rt q =
     (let h = rt_Auth rt; a = hq_Auth q; b = hq_Body q
      in [(''POST'', [Lit ''api'', Lit ''logout''], authMW E q (\<lambda>u. onWorld (PostLogout E h a (Some u)) cookieReply)),
          (''GET'', [Lit ''api'', Lit ''me''], authMW E q (\<lambda>u. reading (\<lambda>w. AuthReply [] (GetMe E (Some u) w)))),
          (''POST'', [Lit ''api'', Lit ''change-password''],
             authMW E q (\<lambda>u. onWorld (PostChangePassword E h a (Some u) (bd_changePassword b)) cookieReply)),
          (''POST'', [Lit ''api'', Lit ''me'', Lit ''mfa'', Lit ''disable''],
             authMW E q (\<lambda>u. onWorld (PostDisableMfa E h a (Some u) (bd_disableMfa b)) cookieReply))])"

definition usersRoutes :: "'k env \<Rightarrow> httpRequest \<Rightarrow> 'k route list" where
  "usersRoutes E q =
     (let req = aq_Req (hq_Auth q); b = hq_Body q; uid = pathValue (userPath []) q ''id''
      in [(''GET'', [Lit ''api'', Lit ''users''], gated E q ''users.list'' (\<lambda>u. onWorld (UsersList E (hq_Query q)) UsersReply)),
          (''POST'', [Lit ''api'', Lit ''users''],
             gated E q ''users.create'' (\<lambda>u. onWorld (UsersCreate E req (Some u) (bd_createUser b)) UsersReply)),
          (''GET'', userPath [], gated E q ''users.read'' (\<lambda>u. onWorld (UsersGet E uid) UsersReply)),
          (''PATCH'', userPath [],
             gated E q ''users.update'' (\<lambda>u. onWorld (UsersUpdate E req (Some u) uid (bd_updateUser b)) UsersReply)),
          (''POST'', userPath [Lit ''disable''],
             gated E q ''users.disable'' (\<lambda>u. onWorld (UsersDisable E req (Some u) uid) UsersReply)),
          (''POST'', userPath [Lit ''enable''],
             gated E q ''users.enable'' (\<lambda>u. onWorld (UsersEnable E req (Some u) uid) UsersReply)),
          (''POST'', userPath [Lit ''reset-password''],
             gated E q ''users.reset_password'' (\<lambda>u. onWorld (UsersResetPassword E req (Some u) uid) UsersReply)),
          (''POST'', userPath [Lit ''reset-mfa''],
             gated E q ''users.reset_mfa'' (\<lambda>u. onWorld (UsersResetMFA E req (Some u) uid) UsersReply)),
          (''DELETE'', userPath [],
             gated E q ''users.delete'' (\<lambda>u. onWorld (UsersDelete E req (Some u) uid) UsersReply)),
          (''GET'', userPath [Lit ''sessions''],
             gated E q ''users.sessions.read'' (\<lambda>u. onWorld (UsersListSessions E uid) UsersReply)),
          (''DELETE'', userPath [Lit ''sessions''],
             gated E q ''users.sessions.terminate'' (\<lambda>u. onWorld (UsersTerminateAllSessions E req (Some u) uid) UsersReply)),
          (''DELETE'', userPath [Lit ''sessions'', Wild ''token''],
             gated E q ''users.sessions.terminate''
               (\<lambda>u. onWorld (UsersTerminateSession E req (Some u) uid
                               (pathValue (userPath [Lit ''sessions'', Wild ''token'']) q ''token'')) UsersReply))])"

definition clientsRoutes :: "'k env \<Rightarrow> httpRequest \<Rightarrow> 'k route list" where
  "clientsRoutes E q =
     (let req = aq_Req (hq_Auth q); b = hq_Body q; cid = pathValue (clientPath []) q ''id''
      in [(''GET'', [Lit ''api'', Lit ''clients''], gated E q ''clients.list'' (\<lambda>u. onWorld (GetList E (hq_Query q)) ClientsReply)),
          (''POST'', [Lit ''api'', Lit ''clients''],
             gated E q ''clients.create'' (\<lambda>u. onWorld (PostCreate E req (Some u) (bd_createClient b)) ClientsReply)),
          (''GET'', clientPath [], gated E q ''clients.read'' (\<lambda>u. onWorld (GetOne E cid) ClientsReply)),
          (''PATCH'', clientPath [],
             gated E q ''clients.update'' (\<lambda>u. onWorld (PatchOne E req (Some u) cid (bd_patchClient b)) ClientsReply)),
          (''POST'', clientPath [Lit ''disable''],
             gated E q ''clients.disable'' (\<lambda>u. onWorld (PostDisable E req (Some u) cid) ClientsReply)),
          (''POST'', clientPath [Lit ''enable''],
             gated E q ''clients.enable'' (\<lambda>u. onWorld (PostEnable E req (Some u) cid) ClientsReply)),
          (''POST'', clientPath [Lit ''rotate-secret''],
             gated E q ''clients.rotate_secret'' (\<lambda>u. onWorld (PostRotateSecret E req (Some u) cid) ClientsReply)),
          (''DELETE'', clientPath [],
             gated E q ''clients.delete'' (\<lambda>u. onWorld (DeleteOne E req (Some u) cid) ClientsReply))])"

definition instanceRoutes :: "'k env \<Rightarrow> outside \<Rightarrow> router \<Rightarrow> httpRequest \<Rightarrow> 'k route list" where
  "instanceRoutes E os rt q =
     (let req = aq_Req (hq_Auth q); b = hq_Body q; key = cfg_EncryptionKey (rt_Cfg rt);
          keys = [Lit ''api'', Lit ''admin'', Lit ''signing-keys'']; settings = [Lit ''api'', Lit ''settings'']
      in [(''GET'', keys, gated E q ''signing_keys.list'' (\<lambda>u. reading (\<lambda>w. KeysReply (KeyGetList E (w_db w))))),
          (''POST'', keys @ [Lit ''rotate''],
             gated E q ''signing_keys.rotate'' (\<lambda>u. onDB (Rotate E key req (Some u)) KeyChanged)),
          (''POST'', keys @ [Wild ''kid'', Lit ''retire-now''],
             gated E q ''signing_keys.retire''
               (\<lambda>u. onDB (EmergencyRetire E req (Some u) (pathValue (keys @ [Wild ''kid'', Lit ''retire-now'']) q ''kid'')) KeyChanged)),
          (''GET'', settings, gated E q ''settings.read'' (\<lambda>u. reading (\<lambda>w. SettingsReply (GetAll E (w_db w))))),
          (''PATCH'', settings @ [Lit ''general''],
             gated E q ''settings.write'' (\<lambda>u. onDB (PatchGeneral E req (Some u) (bd_general b)) SettingsReply)),
          (''PATCH'', settings @ [Lit ''security''],
             gated E q ''settings.write'' (\<lambda>u. onDB (PatchSecurity E key req (Some u) (bd_security b)) SettingsReply)),
          (''PATCH'', settings @ [Lit ''tokens''],
             gated E q ''settings.write'' (\<lambda>u. onDB (PatchTokens E key req (Some u) (bd_tokens b)) SettingsReply)),
          (''PATCH'', settings @ [Lit ''email''],
             gated E q ''settings.write'' (\<lambda>u. onDB (PatchEmail E key (os_ParsedName os) req (Some u) (bd_email b)) SettingsReply)),
          (''POST'', settings @ [Lit ''email'', Lit ''test''],
             gated E q ''settings.write''
               (\<lambda>u. reading (\<lambda>w. case TestEmail E key (os_Mail os) (Some u) (w_db w) of (sent, r) \<Rightarrow> TestMailReply sent r)))])"

definition routes :: "'k env \<Rightarrow> outside \<Rightarrow> router \<Rightarrow> httpRequest \<Rightarrow> 'k route list" where
  "routes E os rt q =
     entryRoutes E os rt q @ selfRoutes E rt q @ usersRoutes E q @ clientsRoutes E q @ instanceRoutes E os rt q @
     publicRoutes E os rt q"

definition muxServe :: "'k env \<Rightarrow> outside \<Rightarrow> router \<Rightarrow> httpRequest \<Rightarrow> 'k serving" where
  "muxServe E os rt q w =
     (case find (\<lambda>(m, p, h). patternMatch m p q) (routes E os rt q) of
        Some (m, p, h) \<Rightarrow> h w
      | None \<Rightarrow> (w, SPAHandler (os_Asset os) (hq_Path q)))"

section \<open>Logging and headers\<close>

definition redactLogPath :: "string \<Rightarrow> string" where
  "redactLogPath path = (if hasPrefix path ''/reset-password/'' then ''/reset-password/[redacted]'' else path)"

definition resetPaths :: "string list" where
  "resetPaths = [''/reset-password/'', ''/forgot-password'', ''/api/password-reset/'']"

definition isResetPath :: "string \<Rightarrow> bool" where
  "isResetPath path = list_ex (hasPrefix path) resetPaths"

definition SecurityHeaders :: "string \<Rightarrow> (string \<times> string) list" where
  "SecurityHeaders path =
     [(''Strict-Transport-Security'', ''max-age=63072000; includeSubDomains''),
      (''X-Content-Type-Options'', ''nosniff''), (''X-Frame-Options'', ''DENY''),
      (''Referrer-Policy'', if isResetPath path then ''no-referrer'' else ''strict-origin-when-cross-origin''),
      (''Content-Security-Policy'',
         ''default-src 'self'; script-src 'self'; style-src 'self'; img-src 'self' data:; font-src 'self'; connect-src 'self'; frame-ancestors 'none'' @ [CHR 0x27]),
      (''Permissions-Policy'', ''camera=(), microphone=(), geolocation=()'')]"

record logLine =
  ll_CorrelationID :: string
  ll_Method :: string
  ll_Path :: string
  ll_IP :: string

text \<open>The correlation id is drawn here and handed to the handlers; status and duration of the log line
  are left out.\<close>

definition RequestLogging
  :: "'k env \<Rightarrow> (httpRequest \<Rightarrow> 'k serving) \<Rightarrow> httpRequest \<Rightarrow> 'k world \<Rightarrow> 'k world \<times> httpReply \<times> logLine" where
  "RequestLogging E h q w =
     (let cid = e_uuid_string E (e_new_uuid E ''middleware.RequestLogging''); a = hq_Auth q
      in case h (q\<lparr>hq_Auth := a\<lparr>aq_Req := (aq_Req a)\<lparr>req_CorrelationID := cid\<rparr>\<rparr>\<rparr>) w of
           (w', r) \<Rightarrow>
             (w', r, \<lparr>ll_CorrelationID = cid, ll_Method = hq_Method q, ll_Path = redactLogPath (hq_Path q),
                      ll_IP = req_RemoteAddr (aq_Req a)\<rparr>))"

definition serveHTTP
  :: "'k env \<Rightarrow> outside \<Rightarrow> router \<Rightarrow> httpRequest \<Rightarrow> 'k world \<Rightarrow> 'k world \<times> (string \<times> string) list \<times> httpReply \<times> logLine" where
  "serveHTTP E os rt q w =
     (case RequestLogging E (muxServe E os rt) q w of (w', r, l) \<Rightarrow> (w', SecurityHeaders (hq_Path q), r, l))"

section \<open>Start-up\<close>

text \<open>\<open>main\<close> up to the point where the server listens: \<open>None\<close> is an exit with an error. The arguments say
  whether the migrations ran and the two connections were made.\<close>

definition startServer
  :: "'k env \<Rightarrow> (bytes \<Rightarrow> string \<Rightarrow> bytes option) \<Rightarrow> (string \<Rightarrow> string) \<Rightarrow> bool \<Rightarrow> bool \<Rightarrow> bool \<Rightarrow> db \<Rightarrow> db \<times> router option" where
  "startServer E hkdf getenv migrated pooled valkeyUp d =
     (case Load E getenv of
        Inl e \<Rightarrow> (d, None)
      | Inr cfg \<Rightarrow>
          if \<not> migrated \<or> \<not> pooled \<or> \<not> valkeyUp then (d, None)
          else case Bootstrap E (cfg_EncryptionKey cfg) d of
            (d1, False) \<Rightarrow> (d1, None)
          | (d1, True) \<Rightarrow>
              (case SeedDevClient E (getenv ''SCHLASS_DEV'') (getenv ''SCHLASS_DEV_SECRET'') (cfg_SchlassPublicURL cfg)
                      (fst (RetireSweep E [] (rotateCutoff E) d1)) of
                 (d2, False) \<Rightarrow> (d2, None)
               | (d2, True) \<Rightarrow>
                   (d2, if e_url_parse E (cfg_SchlassPublicURL cfg) = None then None
                        else BuildRouter E hkdf cfg (if cfg_HIBPEnabled cfg then Some (cfg_HIBPEndpoint cfg) else None))))"

end
