(* ===== verification/UsersProps.thy ===== *)
theory UsersProps
  imports UsersAdmin Bearer
begin

text \<open>
  What user administration guarantees. Every handler either changes nothing or commits one
  transaction; the committed bodies are analysed one by one and the results are put together for
  any sequence of calls: the last active administrator stays, every change has its audit row.
\<close>

section \<open>What a handler leaves behind\<close>

lemma user_failures [simp]: "failure (userError e)" "failure (conflictOr userError e)" "failure (conflictOr fail500 e)"
  by (auto simp: internalError_def fail500_def userError_def conflictOr_def uniqueViolationAsEmailConflict_def)

lemma enforce_failure: "enforceLastAdminLockout E t = (t', Inl r) \<Longrightarrow> failure r"
  by (auto simp: enforceLastAdminLockout_def split: prod.splits sum.splits if_splits)

lemmas bodies = createBody_def updateBody_def writeUpdate_def disableBody_def enableBody_def resetPasswordBody_def
  deleteBody_def terminateAllBody_def resetMFABody_def terminateSessionBody_def derefUser_def Let_def

text \<open>A body that stops answers with a failure.\<close>

lemma body_stops:
  "createBody E req c email role hash t = Inl r \<Longrightarrow> failure r"
  "updateBody E req c uid b t = Inl r \<Longrightarrow> failure r"
  "disableBody E req c uid t = Inl r \<Longrightarrow> failure r"
  "enableBody E req c uid t = Inl r \<Longrightarrow> failure r"
  "resetPasswordBody E req c uid hash t = Inl r \<Longrightarrow> failure r"
  "deleteBody E req c uid t = Inl r \<Longrightarrow> failure r"
  "terminateAllBody E req cu uid n t = Inl r \<Longrightarrow> failure r"
  "resetMFABody E req cu uid at t = Inl r \<Longrightarrow> failure r"
  "terminateSessionBody E req cu uid tok t = Inl r \<Longrightarrow> failure r"
  by (auto simp: bodies attempt_Inl dest!: enforce_failure split: if_splits option.splits)

lemmas handler_simps = orReturn_def parseUserID_def rejectSelfOp_def requireUser_def

section \<open>Committed transactions\<close>

text \<open>The body of a handler that ran to its end, on behalf of \<open>current\<close>.\<close>

inductive committed :: "'k env \<Rightarrow> request \<Rightarrow> User \<Rightarrow> tx \<Rightarrow> tx \<Rightarrow> bool" for E req current where
  create: "createBody E req current email role hash t = Inr (t', x) \<Longrightarrow> committed E req current t t'"
| update: "updateBody E req current uid b t = Inr (t', x) \<Longrightarrow> committed E req current t t'"
| disable: "disableBody E req current uid t = Inr (t', x) \<Longrightarrow> committed E req current t t'"
| enable: "enableBody E req current uid t = Inr (t', x) \<Longrightarrow> committed E req current t t'"
| reset: "resetPasswordBody E req current uid hash t = Inr (t', x) \<Longrightarrow> committed E req current t t'"
| delete: "deleteBody E req current uid t = Inr (t', x) \<Longrightarrow> committed E req current t t'"
| terminate: "terminateAllBody E req (Some current) uid n t = Inr (t', x) \<Longrightarrow> committed E req current t t'"
| mfa: "resetMFABody E req (Some current) uid at t = Inr (t', x) \<Longrightarrow> committed E req current t t'"
| session: "terminateSessionBody E req (Some current) uid tok t = Inr (t', x) \<Longrightarrow> committed E req current t t'"

text \<open>One call of any handler of the package.\<close>

inductive users_call :: "'k env \<Rightarrow> request \<Rightarrow> User option \<Rightarrow> 'k world \<Rightarrow> 'k world \<Rightarrow> bool" for E req cu where
  "users_call E req cu w (fst (UsersList E q w))"
| "users_call E req cu w (fst (UsersCreate E req cu b w))"
| "users_call E req cu w (fst (UsersGet E i w))"
| "users_call E req cu w (fst (UsersUpdate E req cu i u w))"
| "users_call E req cu w (fst (UsersDisable E req cu i w))"
| "users_call E req cu w (fst (UsersEnable E req cu i w))"
| "users_call E req cu w (fst (UsersResetPassword E req cu i w))"
| "users_call E req cu w (fst (UsersDelete E req cu i w))"
| "users_call E req cu w (fst (UsersListSessions E i w))"
| "users_call E req cu w (fst (UsersTerminateAllSessions E req cu i w))"
| "users_call E req cu w (fst (UsersResetMFA E req cu i w))"
| "users_call E req cu w (fst (UsersTerminateSession E req cu i tok w))"

definition changedBy :: "'k env \<Rightarrow> request \<Rightarrow> User option \<Rightarrow> db \<Rightarrow> db \<Rightarrow> bool" where
  "changedBy E req cu d d' =
     (d' = d \<or> (\<exists>current t. cu = Some current \<and> committed E req current (pool d) t \<and> d' = tx_db t))"

lemma changedBy_same [simp]: "changedBy E req cu d d"
  by (simp add: changedBy_def)

lemma changedBy_inTx:
  assumes "inTx E site f d = (d', r)"
    and "\<And>t a. f (pool d) = Inr (t, a) \<Longrightarrow> \<exists>current. cu = Some current \<and> committed E req current (pool d) t"
  shows "changedBy E req cu d d'"
  using assms(1) by (cases rule: inTx_cases) (use assms(2) in \<open>auto simp: changedBy_def\<close>)

lemma bodies_need_user:
  "terminateAllBody E req cu uid n t = Inr (t', x) \<Longrightarrow> \<exists>c. cu = Some c"
  "resetMFABody E req cu uid at t = Inr (t', x) \<Longrightarrow> \<exists>c. cu = Some c"
  "terminateSessionBody E req cu uid tok t = Inr (t', x) \<Longrightarrow> \<exists>c. cu = Some c"
  by (auto simp: terminateAllBody_def resetMFABody_def terminateSessionBody_def derefUser_def attempt_Inr split: option.splits)

lemma changedBy_bodies:
  "inTx E site (createBody E req c email role hash) d = (d', rc) \<Longrightarrow> changedBy E req (Some c) d d'"
  "inTx E site (updateBody E req c uid b) d = (d', r) \<Longrightarrow> changedBy E req (Some c) d d'"
  "inTx E site (disableBody E req c uid) d = (d', r) \<Longrightarrow> changedBy E req (Some c) d d'"
  "inTx E site (enableBody E req c uid) d = (d', r) \<Longrightarrow> changedBy E req (Some c) d d'"
  "inTx E site (resetPasswordBody E req c uid hash) d = (d', r) \<Longrightarrow> changedBy E req (Some c) d d'"
  "inTx E site (deleteBody E req c uid) d = (d', r) \<Longrightarrow> changedBy E req (Some c) d d'"
  "inTx E site (terminateAllBody E req cu uid n) d = (d', r) \<Longrightarrow> changedBy E req cu d d'"
  "inTx E site (resetMFABody E req cu uid at) d = (d', r) \<Longrightarrow> changedBy E req cu d d'"
  "inTx E site (terminateSessionBody E req cu uid tok) d = (d', r) \<Longrightarrow> changedBy E req cu d d'"
  by (erule changedBy_inTx, (frule bodies_need_user, erule exE)?, simp, blast intro: committed.intros)+

lemma users_call_changedBy:
  "users_call E req cu w w' \<Longrightarrow> changedBy E req cu (w_db w) (w_db w')"
proof (induction rule: users_call.induct)
  case (1 w q) then show ?case by (simp add: UsersList_def Let_def split: sum.splits prod.splits)
next
  case (2 w b) then show ?case
    by (auto simp: UsersCreate_def handler_simps Let_def dest: changedBy_bodies split: option.splits sum.splits prod.splits)
next
  case (3 w i) then show ?case
    by (auto simp: UsersGet_def handler_simps split: option.splits sum.splits prod.splits)
next
  case (4 w i u) then show ?case
    by (auto simp: UsersUpdate_def handler_simps dest: changedBy_bodies split: option.splits sum.splits prod.splits if_splits)
next
  case (5 w i) then show ?case
    by (auto simp: UsersDisable_def handler_simps dest: changedBy_bodies split: option.splits sum.splits prod.splits)
next
  case (6 w i) then show ?case
    by (auto simp: UsersEnable_def handler_simps dest: changedBy_bodies split: option.splits sum.splits prod.splits)
next
  case (7 w i) then show ?case
    by (auto simp: UsersResetPassword_def handler_simps dest: changedBy_bodies split: option.splits sum.splits prod.splits)
next
  case (8 w i) then show ?case
    by (auto simp: UsersDelete_def handler_simps dest: changedBy_bodies split: option.splits sum.splits prod.splits)
next
  case (9 w i) then show ?case
    by (auto simp: UsersListSessions_def handler_simps split: option.splits sum.splits prod.splits)
next
  case (10 w i) then show ?case
    by (auto simp: UsersTerminateAllSessions_def handler_simps dest: changedBy_bodies split: option.splits sum.splits prod.splits)
next
  case (11 w i) then show ?case
    by (auto simp: UsersResetMFA_def handler_simps dest: changedBy_bodies split: option.splits sum.splits prod.splits)
next
  case (12 w i tok) then show ?case
    by (auto simp: UsersTerminateSession_def handler_simps dest: changedBy_bodies split: option.splits sum.splits prod.splits)
qed

section \<open>The last active administrator\<close>

definition admin_inv :: "User list \<Rightarrow> bool" where
  "admin_inv us = (users_inv us \<and> list_ex activeAdmin us)"

lemma enforce_Inr:
  "enforceLastAdminLockout E t = (t', Inr x) \<Longrightarrow> t' = t \<and> list_ex activeAdmin (db_users (tx_db t))"
  by (auto simp: enforceLastAdminLockout_def remainingActiveSuperAdmins_def query_Inr list_ex_iff filter_empty_conv
      split: prod.splits sum.splits if_splits)

lemma lock_Inr: "lockSuperAdminsForUpdate E t = (t', Inr x) \<Longrightarrow> t' = t"
  by (auto simp: lockSuperAdminsForUpdate_def query_Inr)

lemma userAudit_Inr:
  "userAudit E req event actor uid meta t = (t', Inr x) \<Longrightarrow>
     db_users (tx_db t') = db_users (tx_db t) \<and>
     db_audit_logs (tx_db t') = db_audit_logs (tx_db t) @
       [auditRow E (req_CorrelationID req) (adminEntry E req event actor ''user'' uid meta)]"
  unfolding userAudit_def using Log_Inr by fastforce

text \<open>The rows after each statement of the store that the bodies run.\<close>

lemma UserCreate_rows:
  "UserCreate E email hash role f t = (t', Inr uid) \<Longrightarrow> \<exists>u. db_users (tx_db t') = db_users (tx_db t) @ [u]"
  by (auto simp: UserCreate_def stmt_Inr Let_def split: if_splits)

lemma UserUpdate_rows:
  "UserUpdate E uid email role t = (t', Inr x) \<Longrightarrow> db_users (tx_db t') =
     map (\<lambda>u. if u_ID u = uid then u\<lparr>u_Email := email, u_Role := role, u_UpdatedAt := e_pg_now E\<rparr> else u) (db_users (tx_db t))"
  by (auto simp: UserUpdate_def needRow_Inr stmt_Inr updUsers_def split: if_splits)

lemma UserSetStatus_rows:
  "UserSetStatus E uid st t = (t', Inr x) \<Longrightarrow> db_users (tx_db t') =
     map (\<lambda>u. if u_ID u = uid then u\<lparr>u_Status := st, u_UpdatedAt := e_pg_now E\<rparr> else u) (db_users (tx_db t))"
  by (auto simp: UserSetStatus_def needRow_Inr stmt_Inr updUsers_def split: if_splits)

lemma UserDelete_rows:
  "UserDelete E uid t = (t', Inr x) \<Longrightarrow> db_users (tx_db t') = filter (\<lambda>u. u_ID u \<noteq> uid) (db_users (tx_db t))"
  by (auto simp: UserDelete_def needRow_Inr stmt_Inr split: if_splits)

lemma SetPasswordHash_rows:
  "SetPasswordHash E uid hash f t = (t', Inr x) \<Longrightarrow> db_users (tx_db t') =
     map (\<lambda>u. if u_ID u = uid then u\<lparr>u_PasswordHash := hash, u_ForcePasswordChange := f, u_UpdatedAt := e_pg_now E\<rparr> else u)
       (db_users (tx_db t))"
  by (auto simp: SetPasswordHash_def needRow_Inr stmt_Inr updUsers_def)

lemma ClearLockout_rows:
  "ClearLockoutForPasswordChange E uid t = (t', Inr x) \<Longrightarrow> db_users (tx_db t') =
     map (\<lambda>u. if u_ID u = uid then u\<lparr>u_FailedLoginAttempts := 0, u_LockedUntil := None, u_UpdatedAt := e_pg_now E\<rparr> else u)
       (db_users (tx_db t))"
  by (auto simp: ClearLockoutForPasswordChange_def ignoreCount_Inr stmt_Inr updUsers_def)

lemma ClearTOTP_rows:
  "ClearTOTP E uid t = (t', Inr x) \<Longrightarrow> db_users (tx_db t') =
     map (\<lambda>u. if u_ID u = uid
              then u\<lparr>u_TOTPSecretEncrypted := None, u_TOTPEnrolledAt := None, u_LastUsedTOTPCounter := 0\<rparr> else u)
       (db_users (tx_db t))"
  by (auto simp: ClearTOTP_def ignoreCount_Inr stmt_Inr updUsers_def)

lemma RecoveryDeleteAll_rows:
  "RecoveryDeleteAllForUser E uid t = (t', Inr n) \<Longrightarrow> db_users (tx_db t') = db_users (tx_db t)"
  by (auto dest: RecoveryDeleteAll_Inr)

lemma Pseudonymize_rows:
  "PseudonymizeUser E uid t = (t', Inr n) \<Longrightarrow> db_users (tx_db t') = db_users (tx_db t)"
  by (auto simp: PseudonymizeUser_def stmt_Inr Let_def)

lemmas user_rows = UserCreate_rows UserUpdate_rows UserSetStatus_rows UserDelete_rows SetPasswordHash_rows
  ClearLockout_rows ClearTOTP_rows RecoveryDeleteAll_rows Pseudonymize_rows

text \<open>The constraints of the table survive every statement.\<close>

lemma rows_inv:
  assumes "users_inv (db_users (tx_db t))"
  shows "UserCreate E email hash role f t = (t', Inr uid) \<Longrightarrow> users_inv (db_users (tx_db t'))"
    and "UserUpdate E uid email role t = (t', Inr x) \<Longrightarrow> users_inv (db_users (tx_db t'))"
    and "UserSetStatus E uid st t = (t', Inr x) \<Longrightarrow> users_inv (db_users (tx_db t'))"
    and "UserDelete E uid t = (t', Inr x) \<Longrightarrow> users_inv (db_users (tx_db t'))"
  using UserCreate_inv [OF assms, of E email hash role f] UserUpdate_inv [OF assms, of E uid email role]
    UserSetStatus_inv [OF assms, of E uid st] UserDelete_inv [OF assms, of E uid]
  by auto

text \<open>A change of one row keeps an active administrator if the row stays one, or was none.\<close>

lemma keeps_admin:
  assumes "admin_inv us" and "find (\<lambda>u. u_ID u = uid) us = Some x" and "activeAdmin x \<Longrightarrow> activeAdmin (f x)"
  shows "list_ex activeAdmin (map (\<lambda>u. if u_ID u = uid then f u else u) us)"
proof -
  from assms(1) obtain a where a: "a \<in> set us" "activeAdmin a" by (auto simp: admin_inv_def list_ex_iff)
  have x: "x \<in> set us" "u_ID x = uid" using find_Some_D [OF assms(2)] by auto
  have "a = x" if "u_ID a = uid"
    using that x a(1) assms(1) by (auto simp: admin_inv_def users_inv_def distinct_map inj_on_def)
  then have "activeAdmin (if u_ID a = uid then f a else a)" using a(2) assms(3) by auto
  with a(1) show ?thesis unfolding list_ex_iff by fastforce
qed

lemma keeps_admin_others:
  assumes "admin_inv us" and "find (\<lambda>u. u_ID u = uid) us = Some x" and "\<not> activeAdmin x"
  shows "list_ex activeAdmin (filter (\<lambda>u. u_ID u \<noteq> uid) us)"
proof -
  from assms(1) obtain a where a: "a \<in> set us" "activeAdmin a" by (auto simp: admin_inv_def list_ex_iff)
  have "u_ID a \<noteq> uid"
    using find_Some_D [OF assms(2)] a assms by (auto simp: admin_inv_def users_inv_def distinct_map inj_on_def)
  with a show ?thesis by (auto simp: list_ex_iff)
qed

lemma keeps_admin_map:
  assumes "admin_inv us"
    and "\<And>u. u_ID (f u) = u_ID u \<and> u_Email (f u) = u_Email u \<and> u_Role (f u) = u_Role u \<and> u_Status (f u) = u_Status u"
  shows "admin_inv (map (\<lambda>u. if u_ID u = uid then f u else u) us)"
proof -
  have "users_inv (map (\<lambda>u. if u_ID u = uid then f u else u) us)"
    by (rule users_inv_map) (use assms in \<open>auto simp: admin_inv_def users_inv_def list_all_iff\<close>)
  moreover obtain a where a: "a \<in> set us" "activeAdmin a" using assms(1) by (auto simp: admin_inv_def list_ex_iff)
  have "activeAdmin (if u_ID a = uid then f a else a)" using a(2) assms(2) [of a] by (simp add: activeAdmin_def)
  with a(1) have "list_ex activeAdmin (map (\<lambda>u. if u_ID u = uid then f u else u) us)"
    unfolding list_ex_iff by fastforce
  ultimately show ?thesis by (simp add: admin_inv_def)
qed

lemma updateBody_admin:
  assumes "updateBody E req current uid b t = Inr (t', x)" and inv: "admin_inv (db_users (tx_db t))"
  shows "admin_inv (db_users (tx_db t'))"
proof -
  from assms(1) obtain t0 existing where g: "UserGetByID E ''users.Update.get'' uid t = (t0, Inr existing)"
    and wr: "writeUpdate E req current uid b existing t0 = Inr (t', x)"
    by (auto simp: updateBody_def attempt_Inr)
  define newRole where "newRole = (case uur_Role b of None \<Rightarrow> u_Role existing | Some r \<Rightarrow> r)"
  define newEmail where "newEmail = (case uur_Email b of None \<Rightarrow> u_Email existing | Some e \<Rightarrow> e)"
  define dem where "dem = (u_Role existing = ''super_admin'' \<and> newRole \<noteq> ''super_admin'')"
  from g have t0: "t0 = t" and f: "find (\<lambda>u. u_ID u = uid) (db_users (tx_db t)) = Some existing"
    using UserGetByID_Inr by blast+
  from wr obtain t1 t2 where lk: "(if dem then lockSuperAdminsForUpdate E t0 else (t0, Inr ())) = (t1, Inr ())"
    and up: "UserUpdate E uid newEmail newRole t1 = (t2, Inr ())"
    and en: "dem \<Longrightarrow> list_ex activeAdmin (db_users (tx_db t2))"
    and same: "db_users (tx_db t') = db_users (tx_db t2)"
    unfolding writeUpdate_def Let_def newRole_def [symmetric] newEmail_def [symmetric] dem_def [symmetric]
    by (auto simp: attempt_Inr split: if_splits dest!: enforce_Inr userAudit_Inr)
  have t1: "t1 = t" using lk t0 lock_Inr by (auto split: if_splits)
  have "users_inv (db_users (tx_db t2))" using rows_inv(2) up inv t1 by (auto simp: admin_inv_def)
  moreover have "list_ex activeAdmin (db_users (tx_db t2))"
  proof (cases dem)
    case False
    show ?thesis unfolding UserUpdate_rows [OF up] t1
      by (rule keeps_admin [OF inv f]) (use False in \<open>auto simp: dem_def activeAdmin_def\<close>)
  qed (use en in simp)
  ultimately show ?thesis by (simp add: admin_inv_def same)
qed

lemma disableBody_admin:
  assumes "disableBody E req current uid t = Inr (t', x)" and inv: "admin_inv (db_users (tx_db t))"
  shows "admin_inv (db_users (tx_db t'))"
proof -
  from assms(1) obtain t1 existing t2 where g: "UserGetByID E ''users.Disable.get'' uid t = (t1, Inr existing)"
    and st: "UserSetStatus E uid ''disabled'' t1 = (t2, Inr ())"
    and en: "u_Role existing = ''super_admin'' \<Longrightarrow> list_ex activeAdmin (db_users (tx_db t2))"
    and same: "db_users (tx_db t') = db_users (tx_db t2)"
    by (auto simp: disableBody_def attempt_Inr split: if_splits dest!: enforce_Inr userAudit_Inr lock_Inr)
  from g have t1: "t1 = t" and f: "find (\<lambda>u. u_ID u = uid) (db_users (tx_db t)) = Some existing"
    using UserGetByID_Inr by blast+
  have "users_inv (db_users (tx_db t2))" using rows_inv(3) st inv t1 by (auto simp: admin_inv_def)
  moreover have "list_ex activeAdmin (db_users (tx_db t2))"
  proof (cases "u_Role existing = ''super_admin''")
    case False
    show ?thesis unfolding UserSetStatus_rows [OF st] t1
      by (rule keeps_admin [OF inv f]) (use False in \<open>auto simp: activeAdmin_def\<close>)
  qed (use en in simp)
  ultimately show ?thesis by (simp add: admin_inv_def same)
qed

lemma deleteBody_admin:
  assumes "deleteBody E req current uid t = Inr (t', x)" and inv: "admin_inv (db_users (tx_db t))"
  shows "admin_inv (db_users (tx_db t'))"
proof -
  from assms(1) obtain t1 target t2 where g: "UserGetByID E ''users.Delete.get'' uid t = (t1, Inr target)"
    and del: "UserDelete E uid t1 = (t2, Inr ())"
    and en: "u_Role target = ''super_admin'' \<Longrightarrow> list_ex activeAdmin (db_users (tx_db t2))"
    and same: "db_users (tx_db t') = db_users (tx_db t2)"
    by (auto simp: deleteBody_def attempt_Inr split: if_splits
        dest!: enforce_Inr userAudit_Inr lock_Inr Pseudonymize_rows)
  from g have t1: "t1 = t" and f: "find (\<lambda>u. u_ID u = uid) (db_users (tx_db t)) = Some target"
    using UserGetByID_Inr by blast+
  have "users_inv (db_users (tx_db t2))" using rows_inv(4) del inv t1 by (auto simp: admin_inv_def)
  moreover have "list_ex activeAdmin (db_users (tx_db t2))"
  proof (cases "u_Role target = ''super_admin''")
    case False
    show ?thesis unfolding UserDelete_rows [OF del] t1
      by (rule keeps_admin_others [OF inv f]) (use False in \<open>auto simp: activeAdmin_def\<close>)
  qed (use en in simp)
  ultimately show ?thesis by (simp add: admin_inv_def same)
qed

lemma createBody_admin:
  assumes "createBody E req current email role hash t = Inr (t', x)" and inv: "admin_inv (db_users (tx_db t))"
  shows "admin_inv (db_users (tx_db t'))"
proof -
  from assms(1) obtain t1 where c: "UserCreate E email hash role True t = (t1, Inr x)"
    and same: "db_users (tx_db t') = db_users (tx_db t1)"
    by (auto simp: createBody_def attempt_Inr dest!: userAudit_Inr)
  have "users_inv (db_users (tx_db t1))" using rows_inv(1) c inv by (auto simp: admin_inv_def)
  with UserCreate_rows [OF c] inv same show ?thesis by (auto simp: admin_inv_def)
qed

lemma enableBody_admin:
  assumes "enableBody E req current uid t = Inr (t', x)" and inv: "admin_inv (db_users (tx_db t))"
  shows "admin_inv (db_users (tx_db t'))"
proof -
  from assms(1) obtain t1 existing t2 where g: "UserGetByID E ''users.Enable.get'' uid t = (t1, Inr existing)"
    and st: "UserSetStatus E uid ''active'' t1 = (t2, Inr ())"
    and same: "db_users (tx_db t') = db_users (tx_db t2)"
    by (auto simp: enableBody_def attempt_Inr dest!: userAudit_Inr)
  from g have t1: "t1 = t" and f: "find (\<lambda>u. u_ID u = uid) (db_users (tx_db t)) = Some existing"
    using UserGetByID_Inr by blast+
  have "list_ex activeAdmin (db_users (tx_db t2))" unfolding UserSetStatus_rows [OF st] t1
    by (rule keeps_admin [OF inv f]) (auto simp: activeAdmin_def)
  moreover have "users_inv (db_users (tx_db t2))" using rows_inv(3) st inv t1 by (auto simp: admin_inv_def)
  ultimately show ?thesis by (simp add: admin_inv_def same)
qed

text \<open>The other bodies leave role and status of every row alone.\<close>

lemma resetPasswordBody_rows:
  assumes "resetPasswordBody E req current uid hash t = Inr (t', x)"
  shows "db_users (tx_db t') =
    map (\<lambda>u. if u_ID u = uid then u\<lparr>u_PasswordHash := hash, u_ForcePasswordChange := True, u_FailedLoginAttempts := 0,
               u_LockedUntil := None, u_UpdatedAt := e_pg_now E\<rparr> else u) (db_users (tx_db t))"
proof -
  from assms obtain t1 existing t2 t3 where g: "UserGetByID E ''users.ResetPassword.get'' uid t = (t1, Inr existing)"
    and st: "SetPasswordHash E uid hash True t1 = (t2, Inr ())"
    and cl: "ClearLockoutForPasswordChange E uid t2 = (t3, Inr ())"
    and same: "db_users (tx_db t') = db_users (tx_db t3)"
    by (auto simp: resetPasswordBody_def attempt_Inr dest!: userAudit_Inr)
  from g have "t1 = t" using UserGetByID_Inr by blast
  with same show ?thesis unfolding ClearLockout_rows [OF cl] SetPasswordHash_rows [OF st] by simp
qed

lemma resetMFABody_rows:
  assumes "resetMFABody E req cu uid at t = Inr (t', x)"
  shows "db_users (tx_db t') =
    map (\<lambda>u. if u_ID u = uid
             then u\<lparr>u_TOTPSecretEncrypted := None, u_TOTPEnrolledAt := None, u_LastUsedTOTPCounter := 0\<rparr> else u)
      (db_users (tx_db t))"
  using assms
  by (auto simp: resetMFABody_def derefUser_def attempt_Inr
      dest!: userAudit_Inr ClearTOTP_rows RecoveryDeleteAll_rows split: option.splits)

lemma committed_admin:
  "committed E req current t t' \<Longrightarrow> admin_inv (db_users (tx_db t)) \<Longrightarrow> admin_inv (db_users (tx_db t'))"
proof (induction rule: committed.induct)
  case create then show ?case by (rule createBody_admin)
next
  case update then show ?case by (rule updateBody_admin)
next
  case disable then show ?case by (rule disableBody_admin)
next
  case enable then show ?case by (rule enableBody_admin)
next
  case reset then show ?case unfolding resetPasswordBody_rows [OF reset(1)] by (intro keeps_admin_map) auto
next
  case delete then show ?case by (rule deleteBody_admin)
next
  case terminate then show ?case
    by (auto simp: terminateAllBody_def derefUser_def attempt_Inr dest!: userAudit_Inr)
next
  case mfa then show ?case unfolding resetMFABody_rows [OF mfa(1)] by (intro keeps_admin_map) auto
next
  case session then show ?case
    by (auto simp: terminateSessionBody_def derefUser_def attempt_Inr dest!: userAudit_Inr)
qed

text \<open>Calls of any caller, in any of the environments \<open>Es\<close>.\<close>

inductive users_step :: "'k env set \<Rightarrow> 'k world \<Rightarrow> 'k world \<Rightarrow> bool" for Es where
  call: "E \<in> Es \<Longrightarrow> users_call E req cu w w' \<Longrightarrow> users_step Es w w'"

text \<open>C10. The last administrator cannot be locked out one call at a time: from a users table that
  satisfies its constraints and has an active \<open>super_admin\<close>, every sequence of calls of the user
  administration handlers, by any callers, whether they succeed or fail, leads to such a table
  again.\<close>

theorem last_admin_stays:
  assumes "(users_step Es)\<^sup>*\<^sup>* w w'" and "admin_inv (db_users (w_db w))"
  shows "admin_inv (db_users (w_db w'))"
  using assms
proof (induction rule: rtranclp_induct)
  case (step w1 w2)
  then obtain E req cu where "users_call E req cu w1 w2" by (auto elim: users_step.cases)
  from users_call_changedBy [OF this] step.IH [OF step.prems] show ?case
    using committed_admin by (fastforce simp: changedBy_def)
qed simp

section \<open>Audit\<close>

lemma ops_logs:
  "UserCreate E email hash role f t = (t', Inr uid) \<Longrightarrow> db_audit_logs (tx_db t') = db_audit_logs (tx_db t)"
  "UserUpdate E uid' email role t = (t', Inr x) \<Longrightarrow> db_audit_logs (tx_db t') = db_audit_logs (tx_db t)"
  "UserSetStatus E uid' st t = (t', Inr x) \<Longrightarrow> db_audit_logs (tx_db t') = db_audit_logs (tx_db t)"
  "UserDelete E uid' t = (t', Inr x) \<Longrightarrow> db_audit_logs (tx_db t') = db_audit_logs (tx_db t)"
  "SetPasswordHash E uid' hash f t = (t', Inr x) \<Longrightarrow> db_audit_logs (tx_db t') = db_audit_logs (tx_db t)"
  "ClearLockoutForPasswordChange E uid' t = (t', Inr x) \<Longrightarrow> db_audit_logs (tx_db t') = db_audit_logs (tx_db t)"
  "ClearTOTP E uid' t = (t', Inr x) \<Longrightarrow> db_audit_logs (tx_db t') = db_audit_logs (tx_db t)"
  "RecoveryDeleteAllForUser E uid' t = (t', Inr n) \<Longrightarrow> db_audit_logs (tx_db t') = db_audit_logs (tx_db t)"
  "UserGetByID E site uid' t = (t', Inr u) \<Longrightarrow> db_audit_logs (tx_db t') = db_audit_logs (tx_db t)"
  by (auto simp: UserCreate_def UserUpdate_def UserSetStatus_def UserDelete_def SetPasswordHash_def
      ClearLockoutForPasswordChange_def ClearTOTP_def RecoveryDeleteAllForUser_def UserGetByID_def
      needRow_Inr ignoreCount_Inr needOne_Inr query_Inr stmt_Inr updUsers_def Let_def split: if_splits)

lemma Pseudonymize_logs:
  "PseudonymizeUser E uid t = (t', Inr n) \<Longrightarrow>
     length (db_audit_logs (tx_db t')) = length (db_audit_logs (tx_db t)) \<and>
     map al_EventType (db_audit_logs (tx_db t')) = map al_EventType (db_audit_logs (tx_db t)) \<and>
     list_all (\<lambda>r. al_ActorID r = Some uid \<longrightarrow> al_ActorEmail r = pseudonym E uid) (db_audit_logs (tx_db t'))"
  by (auto simp: PseudonymizeUser_def stmt_Inr Let_def list_all_iff split: if_splits)

lemma userAudit_acted:
  "userAudit E req event current uid meta t = (t', Inr x) \<Longrightarrow>
     \<exists>r. db_audit_logs (tx_db t') = db_audit_logs (tx_db t) @ [r] \<and> actedAs current r"
  using userAudit_Inr [of E req event current uid meta t t' x] by (auto simp: actedAs_def adminEntry_row)

lemma committed_grown:
  "committed E req current t t' \<Longrightarrow> grown current (db_audit_logs (tx_db t)) (db_audit_logs (tx_db t'))"
proof (induction rule: committed.induct)
  case create then show ?case
    by (auto simp: createBody_def attempt_Inr dest!: userAudit_acted ops_logs intro: grown_one)
next
  case update then show ?case
    by (auto simp: updateBody_def writeUpdate_def Let_def attempt_Inr split: if_splits
        dest!: userAudit_acted ops_logs enforce_Inr lock_Inr intro: grown_one)
next
  case disable then show ?case
    by (auto simp: disableBody_def attempt_Inr split: if_splits
        dest!: userAudit_acted ops_logs enforce_Inr lock_Inr intro: grown_two)
next
  case enable then show ?case
    by (auto simp: enableBody_def attempt_Inr dest!: userAudit_acted ops_logs intro: grown_one)
next
  case reset then show ?case
    by (auto simp: resetPasswordBody_def attempt_Inr dest!: userAudit_acted ops_logs intro: grown_two)
next
  case delete then show ?case
    by (auto simp: deleteBody_def attempt_Inr split: if_splits
        dest!: userAudit_acted ops_logs enforce_Inr lock_Inr Pseudonymize_logs intro: grown_two)
next
  case terminate then show ?case
    by (auto simp: terminateAllBody_def derefUser_def attempt_Inr dest!: userAudit_acted intro: grown_two)
next
  case mfa then show ?case
    by (auto simp: resetMFABody_def derefUser_def attempt_Inr dest!: userAudit_acted ops_logs intro: grown_two)
next
  case session then show ?case
    by (auto simp: terminateSessionBody_def derefUser_def attempt_Inr dest!: userAudit_acted intro: grown_one)
qed

section \<open>The contract, for every handler\<close>

interpretation create_body: audited_body "createBody E req c email role hash" c "\<lambda>d. admin_inv (db_users d)" for E req c email role hash
  by unfold_locales (erule body_stops committed_grown [OF committed.create] committed_admin [OF committed.create], assumption?)+

interpretation update_body: audited_body "updateBody E req c uid b" c "\<lambda>d. admin_inv (db_users d)" for E req c uid b
  by unfold_locales (erule body_stops committed_grown [OF committed.update] committed_admin [OF committed.update], assumption?)+

interpretation disable_body: audited_body "disableBody E req c uid" c "\<lambda>d. admin_inv (db_users d)" for E req c uid
  by unfold_locales (erule body_stops committed_grown [OF committed.disable] committed_admin [OF committed.disable], assumption?)+

interpretation enable_body: audited_body "enableBody E req c uid" c "\<lambda>d. admin_inv (db_users d)" for E req c uid
  by unfold_locales (erule body_stops committed_grown [OF committed.enable] committed_admin [OF committed.enable], assumption?)+

interpretation reset_body: audited_body "resetPasswordBody E req c uid hash" c "\<lambda>d. admin_inv (db_users d)" for E req c uid hash
  by unfold_locales (erule body_stops committed_grown [OF committed.reset] committed_admin [OF committed.reset], assumption?)+

interpretation delete_body: audited_body "deleteBody E req c uid" c "\<lambda>d. admin_inv (db_users d)" for E req c uid
  by unfold_locales (erule body_stops committed_grown [OF committed.delete] committed_admin [OF committed.delete], assumption?)+

interpretation terminate_body: audited_body "terminateAllBody E req (Some c) uid n" c "\<lambda>d. admin_inv (db_users d)" for E req c uid n
  by unfold_locales (erule body_stops committed_grown [OF committed.terminate] committed_admin [OF committed.terminate], assumption?)+

interpretation mfa_body: audited_body "resetMFABody E req (Some c) uid at" c "\<lambda>d. admin_inv (db_users d)" for E req c uid at
  by unfold_locales (erule body_stops committed_grown [OF committed.mfa] committed_admin [OF committed.mfa], assumption?)+

interpretation session_body: audited_body "terminateSessionBody E req (Some c) uid tok" c "\<lambda>d. admin_inv (db_users d)" for E req c uid tok
  by unfold_locales (erule body_stops committed_grown [OF committed.session] committed_admin [OF committed.session], assumption?)+

text \<open>C35. No change without a trace: a call of any user administration handler either leaves the whole
  database as it was, or was made by an authenticated user and has, in the same commit, appended
  audit rows that name this user as the actor of a successful action.\<close>

theorem users_change_audited:
  assumes "users_call E req cu w w'"
  shows "w_db w' = w_db w \<or>
    (\<exists>current. cu = Some current \<and> grown current (db_audit_logs (w_db w)) (db_audit_logs (w_db w')))"
  using users_call_changedBy [OF assms] committed_grown by (fastforce simp: changedBy_def)

section \<open>Samples\<close>

definition sampleAdmin :: User where
  "sampleAdmin = sampleUser\<lparr>u_ID := 1, u_Email := ''root@x'', u_Role := ''super_admin''\<rparr>"

definition sampleBob :: User where
  "sampleBob = sampleUser\<lparr>u_ID := 2, u_Email := ''bob@x''\<rparr>"

definition sampleUsersDB :: db where
  "sampleUsersDB = emptyDB\<lparr>db_users := [sampleAdmin, sampleBob]\<rparr>"

definition sampleUsersWorld :: "kspace world" where
  "sampleUsersWorld = \<lparr>w_db = sampleUsersDB, w_vk = (\<lambda>k. None)\<rparr>"

lemma sample_id: "e_uuid_parse sampleEnv ''2'' = Some 2"
  using sampleEnv_sel(8) [of 2] by (simp add: showNat.simps [of 2])

lemma sampleUsers_sel [simp]:
  "w_db sampleUsersWorld = sampleUsersDB" "w_vk sampleUsersWorld = (\<lambda>k. None)"
  "db_users sampleUsersDB = [sampleAdmin, sampleBob]" "db_audit_logs sampleUsersDB = []"
  "db_codes sampleUsersDB = []" "db_recovery_codes sampleUsersDB = []" "db_reset_tokens sampleUsersDB = []" "db_clients sampleUsersDB = []"
  "u_ID sampleAdmin = 1" "u_ID sampleBob = 2" "u_Role sampleBob = ''user''" "u_Role sampleAdmin = ''super_admin''"
  "u_Status sampleAdmin = ''active''" "u_Status sampleBob = ''active''"
  by (simp_all add: sampleUsersWorld_def sampleUsersDB_def emptyDB_def sampleAdmin_def sampleBob_def sampleUser_def)

lemma sampleUsers_inv: "admin_inv (db_users (w_db sampleUsersWorld))"
  by (simp add: admin_inv_def users_inv_def activeAdmin_def roleOk_def statusOk_def)
     (simp add: sampleAdmin_def sampleBob_def toLower_def lowerByte_def)

lemmas admin_eval = handler_simps inTx_def beginTx_def commitTx_def attempt_def query_def stmt_def needOne_def needRow_def
  ignoreCount_def updUsers_def UserGetByID_def UserSetStatus_def userAudit_def Log_def adminEntry_def auditRow_def
  clientIP_def extractClientIP_def lockSuperAdminsForUpdate_def statusOk_def

lemma sample_disable:
  "\<exists>t. disableBody sampleEnv sampleRequest sampleAdmin 2 (pool sampleUsersDB) = Inr (t, ()) \<and> \<not> tx_aborted t \<and>
     db_users (tx_db t) = [sampleAdmin, sampleBob\<lparr>u_Status := ''disabled'', u_UpdatedAt := 1000 * second\<rparr>]"
  by (simp add: disableBody_def admin_eval sampleRequest_def)

lemma sample_disabled:
  "\<exists>d. inTx sampleEnv ''users.Disable'' (disableBody sampleEnv sampleRequest sampleAdmin 2) sampleUsersDB = (d, Inr ()) \<and>
     db_users d = [sampleAdmin, sampleBob\<lparr>u_Status := ''disabled'', u_UpdatedAt := 1000 * second\<rparr>]"
  using sample_disable by (auto simp: inTx_Inr)

lemma sample_call:
  "\<exists>w'. UsersDisable sampleEnv sampleRequest (Some sampleAdmin) ''2'' sampleUsersWorld = (w', NoContent) \<and>
     db_users (w_db w') = [sampleAdmin, sampleBob\<lparr>u_Status := ''disabled'', u_UpdatedAt := 1000 * second\<rparr>]"
  using sample_disabled sample_id by (auto simp: UsersDisable_def handler_simps)

theorem last_admin_stays_witness:
  "\<exists>w'. users_call sampleEnv sampleRequest (Some sampleAdmin) sampleUsersWorld w' \<and>
     db_users (w_db w') \<noteq> db_users (w_db sampleUsersWorld) \<and> admin_inv (db_users (w_db w'))"
proof -
  obtain w' where w': "UsersDisable sampleEnv sampleRequest (Some sampleAdmin) ''2'' sampleUsersWorld = (w', NoContent)"
    "db_users (w_db w') = [sampleAdmin, sampleBob\<lparr>u_Status := ''disabled'', u_UpdatedAt := 1000 * second\<rparr>]"
    using sample_call by blast
  have call: "users_call sampleEnv sampleRequest (Some sampleAdmin) sampleUsersWorld w'"
    using users_call.intros(5) [of sampleEnv sampleRequest "Some sampleAdmin" sampleUsersWorld "''2''"] w'(1) by simp
  then have "(users_step {sampleEnv})\<^sup>*\<^sup>* sampleUsersWorld w'" by (auto intro: users_step.call)
  from last_admin_stays [OF this sampleUsers_inv] call w'(2) show ?thesis
    by (auto simp: sampleBob_def sampleUser_def)
qed

theorem users_change_audited_witness:
  "\<exists>w'. users_call sampleEnv sampleRequest (Some sampleAdmin) sampleUsersWorld w' \<and>
     w_db w' \<noteq> w_db sampleUsersWorld \<and> grown sampleAdmin [] (db_audit_logs (w_db w'))"
proof -
  obtain w' where w': "UsersDisable sampleEnv sampleRequest (Some sampleAdmin) ''2'' sampleUsersWorld = (w', NoContent)"
    "db_users (w_db w') = [sampleAdmin, sampleBob\<lparr>u_Status := ''disabled'', u_UpdatedAt := 1000 * second\<rparr>]"
    using sample_call by blast
  have call: "users_call sampleEnv sampleRequest (Some sampleAdmin) sampleUsersWorld w'"
    using users_call.intros(5) [of sampleEnv sampleRequest "Some sampleAdmin" sampleUsersWorld "''2''"] w'(1) by simp
  have "w_db w' \<noteq> w_db sampleUsersWorld"
  proof
    assume "w_db w' = w_db sampleUsersWorld"
    with w'(2) show False by (simp add: sampleBob_def sampleUser_def)
  qed
  with users_change_audited [OF call] call show ?thesis by auto
qed

end
