(* ===== verification/UsersAccess.thy ===== *)
theory UsersAccess
  imports UsersProps Login
begin

text \<open>
  What an administrator's action means for the user it targets: a disabled user has no way in, a
  reset password is the one handed out and must be changed, a deleted user leaves only
  pseudonymised traces. The last section runs two updates interleaved the way PostgreSQL's default
  isolation level allows.
\<close>

section \<open>Sessions and cutoff\<close>

definition accessRevoked :: "'k env \<Rightarrow> ('k \<Rightarrow> kspace) \<Rightarrow> uuid \<Rightarrow> 'k \<Rightarrow> bool" where
  "accessRevoked E view uid k =
     ((\<forall>tok x. liveSession (view k) tok = Some x \<longrightarrow> s_UserID x \<noteq> e_uuid_string E uid) \<and>
      view k (revokeBeforeKey (e_uuid_string E uid)) = Some (VStr (Decimal (Unix (e_go_now E) + 1)), Some revokeBeforeTTL))"

lemma session_frame: "liveSession (m(revokeBeforeKey u := x)) = liveSession m"
  by (auto simp: liveSession_def storedAt_def fun_eq_iff sessionKey_def revokeBeforeKey_def)

lemma revokeAccess_view:
  assumes srv: "valkey_service (e_valkey E) view" and inv: "session_inv (view k)"
  shows "accessRevoked E view uid (revokeAccess E uid k)"
proof -
  let ?u = "e_uuid_string E uid" and ?t = "truncateSecond (e_go_now E) + second"
  obtain k1 b where d: "DeleteAllForUser E ?u k = (k1, b)" by (cases rule: prod.exhaust)
  obtain r k2 where v: "e_valkey E (SET (revokeBeforeKey ?u) (Decimal (Unix ?t)) revokeBeforeTTL) k1 = (r, k2)"
    by (cases rule: prod.exhaust)
  have k2: "revokeAccess E uid k = k2"
    using d v by (simp add: revokeAccess_def RevokeBeforeSetNow_def RevokeBeforeSet_def)
  have ttl: "0 < revokeBeforeTTL" by (simp add: revokeBeforeTTL_def second_def)
  with valkey_service.serve [OF srv v]
  have upd: "view k2 = (view k1)(revokeBeforeKey ?u \<mapsto> (VStr (Decimal (Unix ?t)), Some revokeBeforeTTL))" by auto
  have "\<forall>tok x. liveSession (view k1) tok = Some x \<longrightarrow> s_UserID x \<noteq> ?u"
    using valkey_service.session_deleteAll [OF srv refl inv d] by blast
  then show ?thesis
    unfolding k2 accessRevoked_def upd session_frame by (simp add: Unix_truncate_next)
qed

section \<open>Disabling a user\<close>

lemma UsersDisable_cases:
  assumes "UsersDisable E req cu idStr w = (w', r)"
  obtains (refused) "w' = w" "failure r"
  | (disabled) uid current t where "e_uuid_parse E idStr = Some uid" "cu = Some current" "u_ID current \<noteq> uid"
      "disableBody E req current uid (pool (w_db w)) = Inr (t, ())" "\<not> tx_aborted t"
      "w' = \<lparr>w_db = tx_db t, w_vk = revokeAccess E uid (w_vk w)\<rparr>" "r = NoContent"
proof (cases "\<exists>uid current. e_uuid_parse E idStr = Some uid \<and> cu = Some current \<and> u_ID current \<noteq> uid")
  case True
  then obtain uid current where g: "e_uuid_parse E idStr = Some uid" "cu = Some current" "u_ID current \<noteq> uid" by blast
  obtain d' x where tx: "inTx E ''users.Disable'' (disableBody E req current uid) (w_db w) = (d', x)"
    by (cases rule: prod.exhaust)
  from tx show ?thesis
  proof (cases rule: disable_body.run)
    case (rolled_back resp)
    with assms g tx that(1) show ?thesis by (simp add: UsersDisable_def handler_simps)
  next
    case (ran t a)
    with assms g tx that(2) [of uid current t] show ?thesis by (simp add: UsersDisable_def handler_simps)
  qed
next
  case False
  with assms that(1) show ?thesis
    by (auto simp: UsersDisable_def handler_simps split: option.splits if_splits)
qed

lemma disableBody_target: "disableBody E req current uid t = Inr (t', x) \<Longrightarrow> \<exists>u\<in>set (db_users (tx_db t)). u_ID u = uid"
  by (auto simp: disableBody_def attempt_Inr split: if_splits dest!: lock_Inr UserGetByID_Inr)

lemma disableBody_rows:
  assumes "disableBody E req current uid t = Inr (t', x)"
  shows "db_users (tx_db t') =
    map (\<lambda>u. if u_ID u = uid then u\<lparr>u_Status := ''disabled'', u_UpdatedAt := e_pg_now E\<rparr> else u) (db_users (tx_db t))"
  using assms
  by (auto simp: disableBody_def attempt_Inr split: if_splits
      dest!: enforce_Inr userAudit_Inr lock_Inr UserSetStatus_rows UserGetByID_Inr)

text \<open>The ways in: a session behind the middleware, a bearer token, a refresh token.\<close>

definition keptOut :: "'k env \<Rightarrow> uuid \<Rightarrow> 'k world \<Rightarrow> bool" where
  "keptOut E uid w =
     ((\<forall>req mw tok w2 u. checkSession E req mw tok w = (w2, SessionUser u) \<longrightarrow> u_ID u \<noteq> uid) \<and>
      (\<forall>deps header w2 u c. BearerAuth E deps header w = (w2, BearerPass u c) \<longrightarrow> u_ID u \<noteq> uid) \<and>
      (\<forall>h req tok client p w2 resp. exchangeRefresh E h req tok client p w = (w2, TokenOK resp) \<longrightarrow>
         e_uuid_parse E (rp_UserID p) \<noteq> Some uid))"

lemma checkSession_user:
  assumes "checkSession E req mw tok w = (w', SessionUser u)"
  shows "u \<in> set (db_users (w_db w)) \<and> u_Status u \<noteq> ''disabled''"
proof -
  from assms obtain uid where g: "snd (UserGetByID E ''auth.Middleware'' uid (pool (w_db w))) = Inr u" and st: "u_Status u \<noteq> ''disabled''"
    by (auto simp: checkSession_def split: prod.splits sessionResult.splits option.splits sum.splits if_splits)
  obtain t where "UserGetByID E ''auth.Middleware'' uid (pool (w_db w)) = (t, Inr u)"
    using g by (cases "UserGetByID E ''auth.Middleware'' uid (pool (w_db w))") auto
  from UserGetByID_Inr [OF this] st show ?thesis by simp
qed

lemma disabled_keptOut:
  assumes row: "\<forall>u\<in>set (db_users (w_db w)). u_ID u = uid \<longrightarrow> u_Status u = ''disabled''"
  shows "keptOut E uid w"
  unfolding keptOut_def
proof (intro conjI allI impI)
  fix req mw tok w2 u
  assume "checkSession E req mw tok w = (w2, SessionUser u)"
  from checkSession_user [OF this] row show "u_ID u \<noteq> uid" by blast
next
  fix deps header w2 u c
  assume "BearerAuth E deps header w = (w2, BearerPass u c)"
  then show "u_ID u \<noteq> uid" by (rule BearerAuth_Pass) (use row in auto)
next
  fix h req tok client p w2 resp
  assume "exchangeRefresh E h req tok client p w = (w2, TokenOK resp)"
  then obtain u scopes w1 where "checkRefresh E client p (w_db w) = Inr (u, scopes)" "enforceUser E req client p u w = (w1, None)"
    by (rule exchangeRefresh_OK) blast
  from checkRefresh_Inr [OF this(1)] enforceUser_None [OF this(2)] row
  show "e_uuid_parse E (rp_UserID p) \<noteq> Some uid" by auto
qed

text \<open>C11. Disabling a user cuts every way in: when \<open>Disable\<close> answers 204, the target was a user of the
  table and not the caller, exactly the target's row is now disabled, and from then on, in every state
  in which that row is still disabled and whatever Valkey and PostgreSQL do, the session middleware, the
  bearer middleware and the refresh grant admit nobody as this user. Removing the user's sessions from
  Valkey and writing the cutoff is best effort in the code; when Valkey answers, no session of the user
  is left in the store and the tokens are cut off up to the current second for the thirty days of the
  cutoff.\<close>

theorem disable_cuts_access:
  fixes E :: "'k env"
  assumes call: "UsersDisable E req cu idStr w = (w', NoContent)"
  shows "\<exists>uid current. e_uuid_parse E idStr = Some uid \<and> cu = Some current \<and> u_ID current \<noteq> uid \<and>
    (\<exists>u\<in>set (db_users (w_db w)). u_ID u = uid) \<and>
    db_users (w_db w') = map (\<lambda>u. if u_ID u = uid then u\<lparr>u_Status := ''disabled'', u_UpdatedAt := e_pg_now E\<rparr> else u) (db_users (w_db w)) \<and>
    (\<forall>(E' :: 'b env) w1. (\<forall>u\<in>set (db_users (w_db w1)). u_ID u = uid \<longrightarrow> u_Status u = ''disabled'') \<longrightarrow> keptOut E' uid w1) \<and>
    (\<forall>u\<in>set (db_users (w_db w')). u_ID u = uid \<longrightarrow> u_Status u = ''disabled'') \<and>
    (\<forall>view. valkey_service (e_valkey E) view \<longrightarrow> session_inv (view (w_vk w)) \<longrightarrow> accessRevoked E view uid (w_vk w'))"
  using call
proof (cases rule: UsersDisable_cases)
  case (disabled uid current t)
  have rows: "db_users (w_db w') = map (\<lambda>u. if u_ID u = uid then u\<lparr>u_Status := ''disabled'', u_UpdatedAt := e_pg_now E\<rparr> else u) (db_users (w_db w))"
    using disableBody_rows [OF disabled(4)] disabled(6) by simp
  have st: "\<forall>u\<in>set (db_users (w_db w')). u_ID u = uid \<longrightarrow> u_Status u = ''disabled''" unfolding rows by (simp add: ball_Un)
  have target: "\<exists>u\<in>set (db_users (w_db w)). u_ID u = uid" using disableBody_target [OF disabled(4)] by simp
  have "\<forall>view. valkey_service (e_valkey E) view \<longrightarrow> session_inv (view (w_vk w)) \<longrightarrow> accessRevoked E view uid (w_vk w')"
    using revokeAccess_view disabled(6) by auto
  moreover have "\<forall>(E' :: 'b env) w1. (\<forall>u\<in>set (db_users (w_db w1)). u_ID u = uid \<longrightarrow> u_Status u = ''disabled'') \<longrightarrow> keptOut E' uid w1"
    using disabled_keptOut by blast
  ultimately show ?thesis using disabled(1-3) rows st target
    by (intro exI [of _ uid] exI [of _ current] conjI) assumption+
qed simp

theorem disable_cuts_access_witness:
  "\<exists>w'. UsersDisable sampleEnv sampleRequest (Some sampleAdmin) ''2'' sampleUsersWorld = (w', NoContent) \<and>
     accessRevoked sampleEnv (\<lambda>m. m) 2 (w_vk w') \<and> keptOut sampleEnv 2 w'"
proof -
  obtain w' where w': "UsersDisable sampleEnv sampleRequest (Some sampleAdmin) ''2'' sampleUsersWorld = (w', NoContent)"
    using sample_call by blast
  have "session_inv (w_vk sampleUsersWorld)" by (simp add: session_inv_def index_inv_empty)
  with disable_cuts_access [OF w', where 'b = kspace] w' sample_id sampleServer show ?thesis by auto
qed

section \<open>Resetting a password\<close>

lemma UsersResetPassword_OK:
  assumes "UsersResetPassword E req cu idStr w = (w', WriteJSON 200 (TemporaryPassword pw))"
  obtains uid current hash t where "e_uuid_parse E idStr = Some uid" "cu = Some current" "u_ID current \<noteq> uid"
    "GenerateTemporaryPassword E = Some pw" "HashPassword E ''users.ResetPassword'' 0 pw = Some hash"
    "resetPasswordBody E req current uid hash (pool (w_db w)) = Inr (t, ())"
    "w' = \<lparr>w_db = tx_db t, w_vk = revokeAccess E uid (w_vk w)\<rparr>"
proof -
  have no: "x \<noteq> Inl (WriteJSON 200 (TemporaryPassword pw))" if "inTx E ''users.ResetPassword'' (resetPasswordBody E req c uid hash) d = (d', x)"
    for c uid hash d d' x using that by (cases rule: reset_body.run) auto
  obtain uid where uid: "e_uuid_parse E idStr = Some uid"
    using assms by (cases "e_uuid_parse E idStr") (simp_all add: UsersResetPassword_def handler_simps)
  obtain current where cu: "cu = Some current" "u_ID current \<noteq> uid"
    using assms uid by (cases cu) (auto simp: UsersResetPassword_def handler_simps split: if_splits)
  obtain tp where tp: "GenerateTemporaryPassword E = Some tp"
    using assms uid cu by (cases "GenerateTemporaryPassword E") (simp_all add: UsersResetPassword_def handler_simps internalError_def)
  obtain hash where hash: "HashPassword E ''users.ResetPassword'' 0 tp = Some hash"
    using assms uid cu tp by (cases "HashPassword E ''users.ResetPassword'' 0 tp")
      (simp_all add: UsersResetPassword_def handler_simps internalError_def)
  obtain d x where tx: "inTx E ''users.ResetPassword'' (resetPasswordBody E req current uid hash) (w_db w) = (d, x)"
    by (cases rule: prod.exhaust)
  then obtain a where x: "x = Inr a" and w': "w' = \<lparr>w_db = d, w_vk = revokeAccess E uid (w_vk w)\<rparr>" and pw: "tp = pw"
    using assms uid cu tp hash no [OF tx] by (cases x) (simp_all add: UsersResetPassword_def handler_simps)
  from tx [unfolded x] obtain t where "resetPasswordBody E req current uid hash (pool (w_db w)) = Inr (t, ())" "d = tx_db t"
    by (auto simp: inTx_Inr)
  with uid cu tp hash w' pw that [of uid current hash t] show thesis by simp
qed

text \<open>A reset password is the one that was handed out: when \<open>ResetPassword\<close> answers with a temporary
  password, it has the sixteen characters the policy asks for, the stored hash of the target accepts
  it, the target must change it and is no longer locked, the rows of all other users are untouched, and
  the sessions and tokens the target had are cut off.\<close>

lemma reset_password_works:
  assumes call: "UsersResetPassword E req cu idStr w = (w', WriteJSON 200 (TemporaryPassword pw))"
    and laws: "argon2_laws E" "rand_laws E"
    and srv: "valkey_service (e_valkey E) view" and inv: "session_inv (view (w_vk w))"
  shows "\<exists>uid f. e_uuid_parse E idStr = Some uid \<and> length pw = 16 \<and>
    db_users (w_db w') = map (\<lambda>u. if u_ID u = uid then f u else u) (db_users (w_db w)) \<and>
    (\<forall>u. VerifyPassword E pw (u_PasswordHash (f u)) = Some True \<and> u_ForcePasswordChange (f u) \<and>
         u_LockedUntil (f u) = None \<and> u_FailedLoginAttempts (f u) = 0 \<and> u_Role (f u) = u_Role u \<and>
         u_Status (f u) = u_Status u) \<and>
    accessRevoked E view uid (w_vk w')"
proof -
  from call obtain uid current hash t where g: "e_uuid_parse E idStr = Some uid"
    and tp: "GenerateTemporaryPassword E = Some pw" and hash: "HashPassword E ''users.ResetPassword'' 0 pw = Some hash"
    and b: "resetPasswordBody E req current uid hash (pool (w_db w)) = Inr (t, ())"
    and w': "w' = \<lparr>w_db = tx_db t, w_vk = revokeAccess E uid (w_vk w)\<rparr>"
    by (rule UsersResetPassword_OK)
  let ?f = "\<lambda>u. u\<lparr>u_PasswordHash := hash, u_ForcePasswordChange := True, u_FailedLoginAttempts := 0,
               u_LockedUntil := None, u_UpdatedAt := e_pg_now E\<rparr>"
  have "length pw = 16"
    using tp laws(2) tempPasswordAttempts_props unfolding GenerateTemporaryPassword_def by blast
  moreover have "VerifyPassword E pw hash = Some True" by (rule VerifyPassword_HashPassword_accepts [OF laws(1) hash])
  moreover have "db_users (w_db w') = map (\<lambda>u. if u_ID u = uid then ?f u else u) (db_users (w_db w))"
    using resetPasswordBody_rows [OF b] by (simp add: w')
  moreover have "accessRevoked E view uid (w_vk w')" using revokeAccess_view [OF srv inv] by (simp add: w')
  ultimately show ?thesis using g by (intro exI [of _ uid] exI [of _ ?f]) simp
qed

section \<open>Deleting a user\<close>

lemma UserDelete_refs:
  "UserDelete E uid t = (t', Inr x) \<Longrightarrow>
     (\<forall>c\<in>set (db_codes (tx_db t)). ac_UserID c \<noteq> uid) \<and>
     db_recovery_codes (tx_db t') = filter (\<lambda>c. rc_UserID c \<noteq> uid) (db_recovery_codes (tx_db t)) \<and>
     db_reset_tokens (tx_db t') = filter (\<lambda>r. prt_UserID r \<noteq> uid) (db_reset_tokens (tx_db t))"
  by (auto simp: UserDelete_def needRow_Inr stmt_Inr list_ex_iff filter_empty_conv split: if_splits)

lemma Pseudonymize_refs:
  "PseudonymizeUser E uid t = (t', Inr n) \<Longrightarrow> db_recovery_codes (tx_db t') = db_recovery_codes (tx_db t) \<and>
     db_reset_tokens (tx_db t') = db_reset_tokens (tx_db t)"
  by (auto simp: PseudonymizeUser_def stmt_Inr Let_def)

lemma userAudit_refs:
  "userAudit E req event actor uid meta t = (t', Inr x) \<Longrightarrow> db_recovery_codes (tx_db t') = db_recovery_codes (tx_db t) \<and>
     db_reset_tokens (tx_db t') = db_reset_tokens (tx_db t)"
  unfolding userAudit_def using Log_tables(6,7) by blast

lemma deleteBody_erases:
  assumes "deleteBody E req current uid t = Inr (t', x)" and "u_ID current \<noteq> uid"
  shows "(\<forall>c\<in>set (db_codes (tx_db t)). ac_UserID c \<noteq> uid) \<and> (\<forall>u\<in>set (db_users (tx_db t')). u_ID u \<noteq> uid) \<and>
    (\<forall>c\<in>set (db_recovery_codes (tx_db t')). rc_UserID c \<noteq> uid) \<and>
    (\<forall>r\<in>set (db_reset_tokens (tx_db t')). prt_UserID r \<noteq> uid) \<and>
    (\<forall>r\<in>set (db_audit_logs (tx_db t')). al_ActorID r = Some uid \<longrightarrow> al_ActorEmail r = pseudonym E uid)"
proof -
  from assms(1) obtain t1 target t2 t3 n t4 where g: "UserGetByID E ''users.Delete.get'' uid t = (t1, Inr target)"
    and del1: "UserDelete E uid t1 = (t2, Inr ())"
    and ps: "PseudonymizeUser E uid t2 = (t3, Inr n)"
    and a1: "userAudit E req ''user.audit_pseudonymized'' current uid [(''rows_updated'', MInt (int n))] t3 = (t4, Inr ())"
    and a2: "userAudit E req ''user.deleted'' current uid
        [(''deleted_user_email'', MStr (u_Email target)), (''deleted_user_role'', MStr (u_Role target))] t4 = (t', Inr ())"
    by (auto simp: deleteBody_def attempt_Inr split: if_splits
        dest!: enforce_Inr lock_Inr)
  have del: "UserDelete E uid t = (t2, Inr ())" using del1 UserGetByID_Inr [OF g] by simp
  from userAudit_acted [OF a1] userAudit_acted [OF a2] obtain r1 r2 where
    logs: "db_audit_logs (tx_db t') = db_audit_logs (tx_db t3) @ [r1, r2]" "actedAs current r1" "actedAs current r2" by auto
  have "\<forall>r\<in>set (db_audit_logs (tx_db t')). al_ActorID r = Some uid \<longrightarrow> al_ActorEmail r = pseudonym E uid"
    using Pseudonymize_logs [OF ps] logs assms(2) by (auto simp: list_all_iff actedAs_def)
  moreover have "db_users (tx_db t') = filter (\<lambda>u. u_ID u \<noteq> uid) (db_users (tx_db t))"
    using UserDelete_rows [OF del] Pseudonymize_rows [OF ps] userAudit_Inr [OF a1] userAudit_Inr [OF a2] by simp
  moreover have "db_recovery_codes (tx_db t') = filter (\<lambda>c. rc_UserID c \<noteq> uid) (db_recovery_codes (tx_db t))"
    "db_reset_tokens (tx_db t') = filter (\<lambda>r. prt_UserID r \<noteq> uid) (db_reset_tokens (tx_db t))"
    using UserDelete_refs [OF del] Pseudonymize_refs [OF ps] userAudit_refs [OF a1] userAudit_refs [OF a2] by simp_all
  ultimately show ?thesis using UserDelete_refs [OF del] by simp
qed

lemma deleteBody_resets:
  "deleteBody E req current uid t = Inr (t', x) \<Longrightarrow> db_reset_tokens (tx_db t') = filter (\<lambda>r. prt_UserID r \<noteq> uid) (db_reset_tokens (tx_db t))"
  by (auto simp: deleteBody_def attempt_Inr split: if_splits
      dest!: enforce_Inr lock_Inr UserGetByID_Inr UserDelete_refs Pseudonymize_refs userAudit_refs)

lemma UsersDelete_cases:
  assumes "UsersDelete E req cu idStr w = (w', r)"
  obtains (refused) "w' = w" "failure r"
  | (deleted) uid current t where "e_uuid_parse E idStr = Some uid" "cu = Some current" "u_ID current \<noteq> uid"
      "deleteBody E req current uid (pool (w_db w)) = Inr (t, ())"
      "w' = \<lparr>w_db = tx_db t, w_vk = fst (DeleteAllForUser E (e_uuid_string E uid) (w_vk w))\<rparr>" "r = NoContent"
proof (cases "\<exists>uid current. e_uuid_parse E idStr = Some uid \<and> cu = Some current \<and> u_ID current \<noteq> uid")
  case True
  then obtain uid current where g: "e_uuid_parse E idStr = Some uid" "cu = Some current" "u_ID current \<noteq> uid" by blast
  obtain d' x where tx: "inTx E ''users.Delete'' (deleteBody E req current uid) (w_db w) = (d', x)"
    by (cases rule: prod.exhaust)
  from tx show ?thesis
  proof (cases rule: delete_body.run)
    case (rolled_back resp)
    with assms g tx that(1) show ?thesis by (simp add: UsersDelete_def handler_simps)
  next
    case (ran t a)
    with assms g tx that(2) [of uid current t] show ?thesis by (simp add: UsersDelete_def handler_simps)
  qed
next
  case False
  with assms that(1) show ?thesis
    by (auto simp: UsersDelete_def handler_simps split: option.splits if_splits)
qed


section \<open>Samples\<close>

lemma sampleSessions_inv: "session_inv (w_vk sampleUsersWorld)"
  by (simp add: session_inv_def index_inv_empty)

lemma sample_delete:
  "\<exists>t. deleteBody sampleEnv sampleRequest sampleAdmin 2 (pool sampleUsersDB) = Inr (t, ()) \<and> \<not> tx_aborted t"
  by (simp add: deleteBody_def admin_eval sampleRequest_def UserDelete_def PseudonymizeUser_def Let_def)


lemma sample_temporary: "GenerateTemporaryPassword sampleEnv = Some ''23456789ABCDEFGH''" by code_simp

lemma sample_reset:
  "\<exists>w'. UsersResetPassword sampleEnv sampleRequest (Some sampleAdmin) ''2'' sampleUsersWorld =
     (w', WriteJSON 200 (TemporaryPassword ''23456789ABCDEFGH''))"
proof -
  obtain hash where hash: "HashPassword sampleEnv ''users.ResetPassword'' 0 ''23456789ABCDEFGH'' = Some hash"
    by (simp add: HashPassword_def)
  have "\<exists>t. resetPasswordBody sampleEnv sampleRequest sampleAdmin 2 hash (pool sampleUsersDB) = Inr (t, ()) \<and> \<not> tx_aborted t"
    by (simp add: resetPasswordBody_def admin_eval sampleRequest_def SetPasswordHash_def ClearLockoutForPasswordChange_def)
  then obtain d where "inTx sampleEnv ''users.ResetPassword'' (resetPasswordBody sampleEnv sampleRequest sampleAdmin 2 hash)
      sampleUsersDB = (d, Inr ())"
    by (auto simp: inTx_Inr)
  with hash show ?thesis
    unfolding UsersResetPassword_def by (simp add: handler_simps sample_id sample_temporary)
qed

section \<open>Two updates at once\<close>

definition samplePromoted :: User where
  "samplePromoted = sampleBob\<lparr>u_Role := ''super_admin'', u_UpdatedAt := 1000 * second\<rparr>"

definition setRole :: "string \<Rightarrow> updateUserRequest" where
  "setRole r = \<lparr>uur_Email = None, uur_Role = Some r\<rparr>"

lemma sample_one: "e_uuid_parse sampleEnv ''1'' = Some 1"
  using sampleEnv_sel(8) [of "Suc 0"] by (simp add: showNat.simps [of "Suc 0"])

lemmas update_eval = updateBody_def writeUpdate_def admin_eval UserUpdate_def enforceLastAdminLockout_def
  remainingActiveSuperAdmins_def emailTaken_def roleOk_def activeAdmin_def Let_def sampleRequest_def

lemma sample_promote:
  "\<exists>t. updateBody sampleEnv sampleRequest sampleAdmin 2 (setRole ''super_admin'') (pool sampleUsersDB) = Inr (t, ()) \<and>
     \<not> tx_aborted t \<and> db_users (tx_db t) = [sampleAdmin, samplePromoted]"
  by (simp add: update_eval setRole_def)
     (simp add: samplePromoted_def sampleAdmin_def sampleBob_def sampleUser_def toLower_def lowerByte_def)

lemma sample_demote:
  assumes "db_users d = [sampleAdmin, samplePromoted]"
  shows "\<exists>t. updateBody sampleEnv sampleRequest samplePromoted 1 (setRole ''user'') (pool d) = Inr (t, ()) \<and>
     \<not> tx_aborted t \<and> db_users (tx_db t) = [sampleAdmin\<lparr>u_Role := ''user'', u_UpdatedAt := 1000 * second\<rparr>, samplePromoted]"
  using assms by (simp add: update_eval setRole_def)
     (simp add: samplePromoted_def sampleAdmin_def sampleBob_def sampleUser_def toLower_def lowerByte_def)

lemma sample_rename:
  assumes "db_users d = [sampleAdmin\<lparr>u_Role := ''user'', u_UpdatedAt := 1000 * second\<rparr>, samplePromoted]"
  shows "\<exists>t. writeUpdate sampleEnv sampleRequest sampleAdmin 2 \<lparr>uur_Email = Some ''bob@y'', uur_Role = None\<rparr> sampleBob (pool d) =
     Inr (t, ()) \<and> \<not> tx_aborted t \<and> \<not> list_ex activeAdmin (db_users (tx_db t))"
  using assms by (simp add: update_eval setRole_def)
     (simp add: samplePromoted_def sampleAdmin_def sampleBob_def sampleUser_def toLower_def lowerByte_def)

lemma UsersUpdate_commits:
  assumes "e_uuid_parse sampleEnv i = Some uid" and "uid \<noteq> u_ID current" and "roleOk r"
    and "updateBody sampleEnv sampleRequest current uid (setRole r) (pool (w_db w)) = Inr (t, ())" and "\<not> tx_aborted t"
  shows "w_db (fst (UsersUpdate sampleEnv sampleRequest (Some current) i (Some (setRole r)) w)) = tx_db t"
proof -
  have "inTx sampleEnv ''users.Update'' (updateBody sampleEnv sampleRequest current uid (setRole r)) (w_db w) = (tx_db t, Inr ())"
    using assms(4,5) by (simp add: inTx_Inr)
  moreover have "validateUpdate (setRole r) = (Inr (setRole r) :: usersBody response + updateUserRequest)" using assms(3) by (simp add: validateUpdate_def setRole_def)
  ultimately show ?thesis using assms(1,2) by (simp add: UsersUpdate_def handler_simps setRole_def)
qed

text \<open>C40. The lockout check can be overtaken: \<open>Update\<close> writes back the role it read at the start of its
  transaction and takes the lock on the administrators only when that stale role says it demotes one.
  Three calls, interleaved as \<open>READ COMMITTED\<close> allows, leave no active administrator: a change of the
  address of Bob, who is a user, has read his row; meanwhile Bob is promoted, and Bob demotes the other
  administrator; then the first call writes the old role back, runs no check, and commits.\<close>

theorem update_race_no_admin:
  "\<exists>w1 w2 t. snd (UserGetByID sampleEnv ''users.Update.get'' 2 (pool (w_db sampleUsersWorld))) = Inr sampleBob \<and>
     fst (UsersUpdate sampleEnv sampleRequest (Some sampleAdmin) ''2'' (Some (setRole ''super_admin'')) sampleUsersWorld) = w1 \<and>
     fst (UsersUpdate sampleEnv sampleRequest (Some samplePromoted) ''1'' (Some (setRole ''user'')) w1) = w2 \<and>
     list_ex activeAdmin (db_users (w_db w2)) \<and>
     writeUpdate sampleEnv sampleRequest sampleAdmin 2 \<lparr>uur_Email = Some ''bob@y'', uur_Role = None\<rparr> sampleBob (pool (w_db w2)) =
       Inr (t, ()) \<and> \<not> tx_aborted t \<and> \<not> list_ex activeAdmin (db_users (tx_db t))"
proof -
  let ?w1 = "fst (UsersUpdate sampleEnv sampleRequest (Some sampleAdmin) ''2'' (Some (setRole ''super_admin'')) sampleUsersWorld)"
  let ?w2 = "fst (UsersUpdate sampleEnv sampleRequest (Some samplePromoted) ''1'' (Some (setRole ''user'')) ?w1)"
  obtain t1 where "updateBody sampleEnv sampleRequest sampleAdmin 2 (setRole ''super_admin'') (pool sampleUsersDB) = Inr (t1, ())"
    "\<not> tx_aborted t1" "db_users (tx_db t1) = [sampleAdmin, samplePromoted]" using sample_promote by blast
  then have u1: "db_users (w_db ?w1) = [sampleAdmin, samplePromoted]"
    using UsersUpdate_commits [OF sample_id, of sampleAdmin "''super_admin''" sampleUsersWorld t1] by (simp add: roleOk_def)
  obtain t2 where "updateBody sampleEnv sampleRequest samplePromoted 1 (setRole ''user'') (pool (w_db ?w1)) = Inr (t2, ())"
    "\<not> tx_aborted t2" "db_users (tx_db t2) = [sampleAdmin\<lparr>u_Role := ''user'', u_UpdatedAt := 1000 * second\<rparr>, samplePromoted]"
    using sample_demote [OF u1] by blast
  then have u2: "db_users (w_db ?w2) = [sampleAdmin\<lparr>u_Role := ''user'', u_UpdatedAt := 1000 * second\<rparr>, samplePromoted]"
    using UsersUpdate_commits [OF sample_one, of samplePromoted "''user''" ?w1 t2] by (simp add: roleOk_def samplePromoted_def)
  have "snd (UserGetByID sampleEnv ''users.Update.get'' 2 (pool (w_db sampleUsersWorld))) = Inr sampleBob"
    by (simp add: admin_eval)
  moreover have "list_ex activeAdmin (db_users (w_db ?w2))" unfolding u2 by (simp add: activeAdmin_def samplePromoted_def)
  ultimately show ?thesis using sample_rename [OF u2] by blast
qed

end
