(* ===== verification/LoginProps.thy ===== *)
theory LoginProps
  imports Login UsersAccess
begin

text \<open>
  What the first-party session layer guarantees: a new session is only handed out after the right
  password to an account that is not locked, wrong passwords lock the account, a changed password
  takes effect and ends the session it was changed in, the removal of the second factor ends all
  of them, and the middleware lets nobody pass but the owner of a live session.
\<close>

section \<open>Creating sessions\<close>

lemma mfa_keys_free [simp]: "sessionFree (enrollKey t)" "sessionFree (challengeKey t)" "sessionFree (revokeBeforeKey u)"
  by (simp_all add: sessionFree_def enrollKey_def challengeKey_def revokeBeforeKey_def sessionKey_def userSessionsKey_def)

definition newSession :: "'k env \<Rightarrow> authRequest \<Rightarrow> uuid \<Rightarrow> string \<Rightarrow> Session" where
  "newSession E req uid pending =
     \<lparr>s_UserID = e_uuid_string E uid, s_CreatedAt = e_go_now E, s_LastSeenAt = e_go_now E,
      s_IPAddress = authIP E req, s_UserAgent = aq_UserAgent req, s_PendingReturnTo = pending\<rparr>"

lemma signIn_db: "w_db (fst (signIn E secure req cs uid pend reply w)) = w_db w"
  by (auto simp: signIn_def split: prod.splits option.splits)

lemma sessionTTL_pos: "0 < sessionTTL"
  by (simp add: sessionTTL_def second_def)

lemma signIn_cases:
  assumes srv: "valkey_service (e_valkey E) view" and inv: "session_inv (view (w_vk w))"
    and s: "signIn E secure req cs uid pend reply w = (w', cs', r)"
  obtains (no_entropy) "w' = w" "cs' = cs" "r = internalError" "e_rand E ''session'' 0 32 = None"
  | (signed_in) tok where "session_inv (view (w_vk w'))" "w_db w' = w_db w" "cs' = cs @ [SetCookie tok secure]"
      "r = WriteJSON 200 reply"
      "liveSession (view (w_vk w')) = (liveSession (view (w_vk w)))(tok \<mapsto> newSession E req uid pend)"
proof (cases "e_rand E ''session'' 0 32")
  case None
  with s that(1) show ?thesis by (simp add: signIn_def CreateWithPendingReturnTo_def)
next
  case (Some buf)
  from valkey_service.session_create_live [OF srv refl inv sessionTTL_pos Some]
  obtain k' where "CreateWithPendingReturnTo E sessionTTL (e_uuid_string E uid) (authIP E req) (aq_UserAgent req) pend (w_vk w)
      = (k', Some (base64RawURL buf))" "session_inv (view k')"
    "liveSession (view k') = (liveSession (view (w_vk w)))(base64RawURL buf \<mapsto> newSession E req uid pend)"
    unfolding newSession_def by blast
  with s that(2) [of "base64RawURL buf"] show ?thesis by (auto simp: signIn_def)
qed

lemma putHash_sessions:
  assumes srv: "valkey_service (e_valkey E) view" and free: "sessionFree key" and p: "putHash E key fvs ttl k = (k', b)"
  shows "liveSession (view k') = liveSession (view k)" and "session_inv (view k') = session_inv (view k)"
proof -
  obtain r k1 where h: "e_valkey E (HSET key fvs) k = (r, k1)" by (cases rule: prod.exhaust)
  obtain r2 k2 where x: "e_valkey E (EXPIRE key ttl) k1 = (r2, k2)" by (cases rule: prod.exhaust)
  have "k' = k1 \<or> k' = k2" using p h x by (auto simp: putHash_def split: if_splits)
  with valkey_service.sessions_kept [OF srv h] valkey_service.sessions_kept [OF srv x] free
  show "liveSession (view k') = liveSession (view k)" "session_inv (view k') = session_inv (view k)" by auto
qed

lemma startSecondFactor_sessions:
  assumes srv: "valkey_service (e_valkey E) view" and free: "\<And>t. sessionFree (key t)"
    and s: "startSecondFactor E h site cookie key fvs secs reply w = (w', cs, r)"
  shows "liveSession (view (w_vk w')) = liveSession (view (w_vk w)) \<and> session_inv (view (w_vk w')) = session_inv (view (w_vk w)) \<and>
    w_db w' = w_db w"
proof (cases "RandomToken E site 32")
  case (Some token)
  obtain k b where p: "putHash E (key token) fvs (secs * second) (w_vk w) = (k, b)" by (cases rule: prod.exhaust)
  from putHash_sessions [OF srv free p] s Some p show ?thesis
    by (cases b) (auto simp: startSecondFactor_def)
qed (use s in \<open>simp add: startSecondFactor_def\<close>)

section \<open>What the login transaction decides\<close>

fun outUser :: "loginOutcome \<Rightarrow> User option" where
  "outUser (Refused r) = None"
| "outUser (SignInPending u) = Some u"
| "outUser (StartEnroll u) = Some u"
| "outUser (StartChallenge u) = Some u"
| "outUser (SignInNow u) = Some u"

lemma authLog_Inr:
  assumes "authLog E req en t = (t', Inr x)"
  shows "db_users (tx_db t') = db_users (tx_db t)" "db_config (tx_db t') = db_config (tx_db t)"
    "db_recovery_codes (tx_db t') = db_recovery_codes (tx_db t)" "db_reset_tokens (tx_db t') = db_reset_tokens (tx_db t)"
    "db_audit_logs (tx_db t') = db_audit_logs (tx_db t) @ [auditRow E (req_CorrelationID (aq_Req req)) en]"
  using assms Log_tables [of E "req_CorrelationID (aq_Req req)" en t t' "Inr x"]
    Log_Inr [of E "req_CorrelationID (aq_Req req)" en t t' x] by (auto simp: authLog_def)

lemma GetBool_Inr:
  "GetBool E key t = (t', Inr b) \<Longrightarrow> t' = t \<and>
     map_of (db_config (tx_db t)) key = Some (JBool b) \<or> \<not> b \<and> map_of (db_config (tx_db t)) key = Some JNull"
  by (auto simp: GetBool_def configGet_Inr split: prod.splits sum.splits json.splits)

text \<open>The instance asks for no second factor.\<close>

definition mfaOff :: "db \<Rightarrow> bool" where
  "mfaOff d = (map_of (db_config d) ''mfa_required'' \<in> {Some (JBool False), Some JNull})"

lemma loginRefusals:
  "loginUnknown E req email t = Inr (t', out) \<Longrightarrow> outUser out = None"
  "loginLocked E req u t = Inr (t', out) \<Longrightarrow> outUser out = None"
  "loginWrong E req th dur u t = Inr (t', out) \<Longrightarrow> outUser out = None"
  by (auto simp: loginUnknown_def loginLocked_def loginWrong_def attempt_Inr split: prod.splits sum.splits if_splits)

lemma ResetFailedLogins_Inr:
  "ResetFailedLogins E uid t = (t', Inr x) \<Longrightarrow>
     (\<exists>u\<in>set (db_users (tx_db t)). u_ID u = uid \<and> notLocked E u) \<and> db_config (tx_db t') = db_config (tx_db t) \<and>
     db_users (tx_db t') = map (\<lambda>u. if u_ID u = uid \<and> notLocked E u
       then u\<lparr>u_FailedLoginAttempts := 0, u_LockedUntil := None, u_UpdatedAt := e_pg_now E\<rparr> else u) (db_users (tx_db t))"
  by (auto simp: ResetFailedLogins_def needRow_Inr stmt_Inr updUsers_def filter_empty_conv)

lemma loginBranch_out:
  assumes "loginBranch E req u t = Inr (t', out)"
  shows "outUser out = Some u \<and>
    (out = SignInPending u \<and> u_ForcePasswordChange u \<or>
     out = StartEnroll u \<and> \<not> u_ForcePasswordChange u \<and> u_TOTPEnrolledAt u = None \<or>
     out = StartChallenge u \<and> \<not> u_ForcePasswordChange u \<and> u_TOTPEnrolledAt u \<noteq> None \<or>
     out = SignInNow u \<and> \<not> u_ForcePasswordChange u \<and> mfaOff (tx_db t))"
proof (cases "u_ForcePasswordChange u")
  case True
  with assms show ?thesis by (auto simp: loginBranch_def attempt_Inr)
next
  case False
  with assms obtain t1 b where g: "GetBool E ''mfa_required'' t = (t1, Inr b)" by (auto simp: loginBranch_def attempt_Inr)
  show ?thesis
  proof (cases b)
    case True
    with assms False g show ?thesis by (auto simp: loginBranch_def attempt_Inr split: if_splits)
  next
    case False
    with assms \<open>\<not> u_ForcePasswordChange u\<close> g have "out = SignInNow u" by (auto simp: loginBranch_def attempt_Inr)
    with GetBool_Inr [OF g] False \<open>\<not> u_ForcePasswordChange u\<close> show ?thesis by (auto simp: mfaOff_def)
  qed
qed

lemma UserGetByEmail_Inr:
  "UserGetByEmail E email t = (t', Inr u) \<Longrightarrow>
     t' = t \<and> u \<in> set (db_users (tx_db t)) \<and> u_Email u = email"
  using find_Some_D [of "\<lambda>u. u_Email u = email" "db_users (tx_db t)" u]
  by (auto simp: UserGetByEmail_def needOne_Inr query_Inr)

text \<open>Whoever gets past the transaction knew the password of an account that was not locked, by the
  clock of the program and by that of the database.\<close>

lemma loginBody_passed:
  assumes b: "loginBody E req th dur email pw t = Inr (t', out)" and o: "outUser out = Some u"
  shows "u \<in> set (db_users (tx_db t)) \<and> u_Email u = email \<and> \<not> lockedNow E u \<and>
    VerifyPassword E pw (u_PasswordHash u) = Some True \<and>
    (\<exists>x\<in>set (db_users (tx_db t)). u_ID x = u_ID u \<and> notLocked E x) \<and>
    (out = SignInPending u \<and> u_ForcePasswordChange u \<or>
     out = StartEnroll u \<and> \<not> u_ForcePasswordChange u \<and> u_TOTPEnrolledAt u = None \<or>
     out = StartChallenge u \<and> \<not> u_ForcePasswordChange u \<and> u_TOTPEnrolledAt u \<noteq> None \<or>
     out = SignInNow u \<and> \<not> u_ForcePasswordChange u \<and> mfaOff (tx_db t))"
proof -
  obtain t1 x where g: "UserGetByEmail E email t = (t1, x)" by (cases rule: prod.exhaust)
  obtain v where x: "x = Inr v"
    using b g o by (cases x) (auto simp: loginBody_def split: if_splits dest: loginRefusals)
  have v: "t1 = t" "v \<in> set (db_users (tx_db t))" "u_Email v = email"
    using UserGetByEmail_Inr g x by blast+
  have lk: "\<not> lockedNow E v"
    using b g x o loginRefusals(2) [of E req v t1 t' out] by (auto simp: loginBody_def)
  have pw: "VerifyPassword E pw (u_PasswordHash v) = Some True"
    using b g x o lk loginRefusals(3) [of E req th dur v t1 t' out] by (auto simp: loginBody_def split: option.splits if_splits)
  have right: "loginRight E req v t = Inr (t', out)" using b g x v lk pw by (simp add: loginBody_def)
  obtain t2 y where rs: "ResetFailedLogins E (u_ID v) t = (t2, y)" by (cases rule: prod.exhaust)
  have y: "y = Inr ()" using right rs o by (cases y) (auto simp: loginRight_def attempt_Inr split: if_splits)
  have br: "loginBranch E req v t2 = Inr (t', out)" using right rs y by (simp add: loginRight_def)
  from ResetFailedLogins_Inr [OF rs [unfolded y]] have nl: "\<exists>x\<in>set (db_users (tx_db t)). u_ID x = u_ID v \<and> notLocked E x"
    and cfg: "mfaOff (tx_db t2) = mfaOff (tx_db t)" by (auto simp: mfaOff_def)
  from loginBranch_out [OF br] o have "u = v" by auto
  with v lk pw nl loginBranch_out [OF br] cfg show ?thesis by simp
qed

lemma PostLogin_cases:
  assumes "PostLogin E h req body w = (w', cs, r)"
  obtains (refused) resp where "w' = w" "cs = []" "r = resp"
  | (ran) b th dur t out where "aq_Origin req = ah_PublicURL h" "body = Some b" "LoginValidate b = None"
      "loginBody E req th dur (toLower (lr_Email b)) (lr_Password b) (pool (w_db w)) = Inr (t, out)" "\<not> tx_aborted t"
      "snd (GetInt E ''lockout_threshold'' (pool (w_db w))) = Inr th"
      "snd (GetInt E ''lockout_duration_secs'' (pool (w_db w))) = Inr dur"
      "finishLogin E h req (cleanReturnTo E h (lr_ReturnTo b)) out (w\<lparr>w_db := tx_db t\<rparr>) = (w', cs, r)"
proof (cases "aq_Origin req = ah_PublicURL h \<and> (\<exists>b th dur. body = Some b \<and> LoginValidate b = None \<and>
    snd (GetInt E ''lockout_threshold'' (pool (w_db w))) = Inr th \<and>
    snd (GetInt E ''lockout_duration_secs'' (pool (w_db w))) = Inr dur)")
  case True
  then obtain b th dur where g: "aq_Origin req = ah_PublicURL h" "body = Some b" "LoginValidate b = None"
    "snd (GetInt E ''lockout_threshold'' (pool (w_db w))) = Inr th"
    "snd (GetInt E ''lockout_duration_secs'' (pool (w_db w))) = Inr dur" by blast
  obtain d x where tx: "inTx E ''login'' (loginBody E req th dur (toLower (lr_Email b)) (lr_Password b)) (w_db w) = (d, x)"
    by (cases rule: prod.exhaust)
  from tx show ?thesis
  proof (cases rule: inTx_cases)
    case (rolled_back resp)
    with assms g tx that(1) [of r] show ?thesis by (simp add: PostLogin_def)
  next
    case (committed t out)
    with assms g tx that(2) [of b th dur t out] show ?thesis by (simp add: PostLogin_def)
  qed
next
  case False
  with assms that(1) [of r] show ?thesis
    by (auto simp: PostLogin_def split: option.splits sum.splits if_splits)
qed

section \<open>A session means the right password\<close>

lemma finishLogin_new:
  assumes srv: "valkey_service (e_valkey E) view" and inv: "session_inv (view (w_vk w))"
    and f: "finishLogin E h req ret out w = (w', cs, r)"
  shows "session_inv (view (w_vk w')) \<and> w_db w' = w_db w \<and>
    (liveSession (view (w_vk w')) = liveSession (view (w_vk w)) \<or>
     (\<exists>u tok pend. (out = SignInPending u \<or> out = SignInNow u) \<and>
        liveSession (view (w_vk w')) = (liveSession (view (w_vk w)))(tok \<mapsto> newSession E req (u_ID u) pend)))"
proof (cases out)
  case (SignInPending u)
  with f have "signIn E (ah_CookieSecure h) req [] (u_ID u) ret (SignedIn (userDTO E u) []) w = (w', cs, r)" by simp
  from srv inv this show ?thesis by (cases rule: signIn_cases) (use inv SignInPending in auto)
next
  case (SignInNow u)
  with f have "signIn E (ah_CookieSecure h) req [] (u_ID u) [] (SignedIn (userDTO E u) ret) w = (w', cs, r)" by simp
  from srv inv this show ?thesis by (cases rule: signIn_cases) (use inv SignInNow in auto)
next
  case (StartEnroll u)
  with f startSecondFactor_sessions [OF srv mfa_keys_free(1)] inv show ?thesis by auto
next
  case (StartChallenge u)
  with f startSecondFactor_sessions [OF srv mfa_keys_free(2)] inv show ?thesis by auto
qed (use f inv in auto)

text \<open>C12. Login is sound: whenever \<open>PostLogin\<close> changes the sessions, it has added exactly one, the
  request came from the instance's own origin with an e-mail address and a password, the session
  belongs to the user with that address (in lower case), the password is the one of the stored hash,
  the account was not locked, neither by the clock of the program nor by that of the database, and
  either the user still has to change a temporary password or the instance asks for no second factor.\<close>

theorem login_sound:
  assumes call: "PostLogin E h req body w = (w', cs, r)"
    and srv: "valkey_service (e_valkey E) view" and inv: "session_inv (view (w_vk w))"
    and rows: "users_inv (db_users (w_db w))"
    and changed: "liveSession (view (w_vk w')) tok \<noteq> liveSession (view (w_vk w)) tok"
  shows "\<exists>b u pend. body = Some b \<and> aq_Origin req = ah_PublicURL h \<and> lr_Password b \<noteq> [] \<and>
    u \<in> set (db_users (w_db w)) \<and> u_Email u = toLower (lr_Email b) \<and>
    VerifyPassword E (lr_Password b) (u_PasswordHash u) = Some True \<and> \<not> lockedNow E u \<and> notLocked E u \<and>
    (u_ForcePasswordChange u \<or> mfaOff (w_db w)) \<and>
    liveSession (view (w_vk w')) = (liveSession (view (w_vk w)))(tok \<mapsto> newSession E req (u_ID u) pend)"
  using call
proof (cases rule: PostLogin_cases)
  case (ran b th dur t out)
  from finishLogin_new [OF srv _ ran(8)] inv changed obtain u tok' pend where
    o: "out = SignInPending u \<or> out = SignInNow u" and
    l: "liveSession (view (w_vk w')) = (liveSession (view (w_vk w)))(tok' \<mapsto> newSession E req (u_ID u) pend)" by auto
  with changed have "tok' = tok" by (auto split: if_splits)
  have p: "u \<in> set (db_users (w_db w))" "u_Email u = toLower (lr_Email b)" "\<not> lockedNow E u"
    "VerifyPassword E (lr_Password b) (u_PasswordHash u) = Some True"
    "\<exists>x\<in>set (db_users (w_db w)). u_ID x = u_ID u \<and> notLocked E x" "u_ForcePasswordChange u \<or> mfaOff (w_db w)"
    using loginBody_passed [OF ran(4), of u] o by auto
  then have "notLocked E u" using rows by (auto simp: users_inv_def distinct_map inj_on_def)
  moreover have "lr_Password b \<noteq> []" using ran(3) by (auto simp: LoginValidate_def split: if_splits)
  ultimately show ?thesis using p ran(1,2) l \<open>tok' = tok\<close> by blast
qed (use changed in simp)

section \<open>The right password gives a session\<close>

text \<open>No call to the database fails, and it can read the caller's address.\<close>

definition quiet :: "'k env \<Rightarrow> authRequest \<Rightarrow> bool" where
  "quiet E req = ((\<forall>c. \<not> e_pg_fails E c) \<and> (authIP E req = [] \<or> e_inet_ok E (authIP E req)))"

lemma authLog_quiet:
  assumes "quiet E req" and "\<not> tx_aborted t" and "en_IPAddress en = authIP E req" and "en_Outcome en \<in> {''success'', ''failure''}"
  obtains t' where "authLog E req en t = (t', Inr ())" "\<not> tx_aborted t'" "db_users (tx_db t') = db_users (tx_db t)"
    "db_config (tx_db t') = db_config (tx_db t)"
  using assms by (auto simp: authLog_def Log_def quiet_def)

lemma stmt_quiet:
  assumes "quiet E req" and "\<not> tx_aborted t"
  shows "stmt E site (\<lambda>d. Inr (updUsers p f d)) t = (t\<lparr>tx_db := fst (updUsers p f (tx_db t))\<rparr>, Inr (snd (updUsers p f (tx_db t))))"
  using assms by (auto simp: stmt_def quiet_def split: prod.splits)

lemma updUsers_count: "u \<in> set (db_users d) \<Longrightarrow> p u \<Longrightarrow> snd (updUsers p f d) \<noteq> 0"
  by (auto simp: updUsers_def filter_empty_conv)

lemma GetInt_quiet:
  "quiet E req \<Longrightarrow> map_of (db_config d) key = Some (JInt n) \<Longrightarrow> - (2 ^ 63) \<le> n \<and> n < 2 ^ 63 \<Longrightarrow>
     GetInt E key (pool d) = (pool d, Inr n)"
  by (simp add: GetInt_def configGet_def query_def stmt_def quiet_def pool_def)

lemma GetBool_quiet:
  "quiet E req \<Longrightarrow> \<not> tx_aborted t \<Longrightarrow> mfaOff (tx_db t) \<Longrightarrow> GetBool E ''mfa_required'' t = (t, Inr False)"
  by (auto simp: GetBool_def configGet_def query_def stmt_def quiet_def mfaOff_def)

lemma SetLastLoginAt_quiet:
  assumes q: "quiet E req" and t: "\<not> tx_aborted t" and u: "u \<in> set (db_users (tx_db t))"
  obtains t' where "SetLastLoginAt E (u_ID u) t = (t', Inr ())" "\<not> tx_aborted t'" "db_users (tx_db t') =
    map (\<lambda>x. if u_ID x = u_ID u then x\<lparr>u_LastLoginAt := Some (e_pg_now E), u_UpdatedAt := e_pg_now E\<rparr> else x) (db_users (tx_db t))"
proof -
  let ?f = "\<lambda>x. x\<lparr>u_LastLoginAt := Some (e_pg_now E), u_UpdatedAt := e_pg_now E\<rparr>"
  have "SetLastLoginAt E (u_ID u) t = (t\<lparr>tx_db := fst (updUsers (\<lambda>x. u_ID x = u_ID u) ?f (tx_db t))\<rparr>, Inr ())"
    using updUsers_count [OF u, of "\<lambda>x. u_ID x = u_ID u"] by (simp add: SetLastLoginAt_def stmt_quiet [OF q t] needRow_def)
  with t that show thesis by (simp add: updUsers_def)
qed

lemma ResetFailedLogins_quiet:
  assumes q: "quiet E req" and t: "\<not> tx_aborted t" and u: "u \<in> set (db_users (tx_db t))" "notLocked E u"
  obtains t' x where "ResetFailedLogins E (u_ID u) t = (t', Inr ())" "\<not> tx_aborted t'" "x \<in> set (db_users (tx_db t'))"
    "u_ID x = u_ID u" "db_config (tx_db t') = db_config (tx_db t)"
proof -
  let ?p = "\<lambda>x. u_ID x = u_ID u \<and> notLocked E x"
    and ?f = "\<lambda>x. x\<lparr>u_FailedLoginAttempts := 0, u_LockedUntil := None, u_UpdatedAt := e_pg_now E\<rparr>"
  let ?t = "t\<lparr>tx_db := fst (updUsers ?p ?f (tx_db t))\<rparr>"
  have "ResetFailedLogins E (u_ID u) t = (?t, Inr ())"
    using updUsers_count [OF u(1), of ?p] u(2) by (simp add: ResetFailedLogins_def stmt_quiet [OF q t] needRow_def)
  moreover have "?f u \<in> set (db_users (tx_db ?t))" using u by (force simp: updUsers_def)
  ultimately show thesis using t that [of ?t "?f u"] by (simp add: updUsers_def)
qed

lemma find_by_email:
  assumes "users_inv us" and "u \<in> set us"
  shows "find (\<lambda>x. u_Email x = u_Email u) us = Some u"
proof -
  have "x = u" if "x \<in> set us" "u_Email x = u_Email u" for x
    using assms that by (auto simp: users_inv_def distinct_map inj_on_def)
  with assms(2) show ?thesis by (induction us) auto
qed

lemma UserGetByEmail_quiet:
  "quiet E req \<Longrightarrow> users_inv (db_users d) \<Longrightarrow> u \<in> set (db_users d) \<Longrightarrow>
     UserGetByEmail E (u_Email u) (pool d) = (pool d, Inr u)"
  by (simp add: UserGetByEmail_def query_def stmt_def quiet_def find_by_email needOne_def pool_def)

lemma loginBody_quiet:
  assumes q: "quiet E req" and rows: "users_inv (db_users d)" and u: "u \<in> set (db_users d)"
    and open_: "\<not> lockedNow E u" "notLocked E u" and pw: "VerifyPassword E pw (u_PasswordHash u) = Some True"
    and plain: "\<not> u_ForcePasswordChange u" "mfaOff d"
  obtains t where "loginBody E req th dur (u_Email u) pw (pool d) = Inr (t, SignInNow u)" "\<not> tx_aborted t"
proof -
  from q open_(2) u obtain t1 x where t1: "ResetFailedLogins E (u_ID u) (pool d) = (t1, Inr ())" "\<not> tx_aborted t1"
    "x \<in> set (db_users (tx_db t1))" "u_ID x = u_ID u" "db_config (tx_db t1) = db_config d"
    using ResetFailedLogins_quiet [of E req "pool d" u] by auto
  have g: "GetBool E ''mfa_required'' t1 = (t1, Inr False)"
    using GetBool_quiet [OF q t1(2)] plain(2) t1(5) by (simp add: mfaOff_def)
  obtain t2 where t2: "loginSucceeded E req u None t1 = (t2, Inr ())" "\<not> tx_aborted t2" "db_users (tx_db t2) = db_users (tx_db t1)"
    unfolding loginSucceeded_def by (rule authLog_quiet [OF q t1(2)]) (auto simp: selfEntry_def)
  obtain t3 where t3: "SetLastLoginAt E (u_ID u) t2 = (t3, Inr ())" "\<not> tx_aborted t3"
    using SetLastLoginAt_quiet [OF q t2(2), of x] t1(3,4) t2(3) by auto
  have "loginBody E req th dur (u_Email u) pw (pool d) = Inr (t3, SignInNow u)"
    using UserGetByEmail_quiet [OF q rows u] open_(1) pw t1(1) g t2(1) t3(1) plain(1)
    by (simp add: loginBody_def loginRight_def loginBranch_def attempt_def)
  with t3(2) that show thesis by blast
qed

lemma PostLogin_plain:
  assumes q: "quiet E req" and srv: "valkey_service (e_valkey E) view" and inv: "session_inv (view (w_vk w))"
    and rows: "users_inv (db_users (w_db w))" and buf: "e_rand E ''session'' 0 32 = Some buf"
    and cfg: "map_of (db_config (w_db w)) ''lockout_threshold'' = Some (JInt th)" "- (2 ^ 63) \<le> th \<and> th < 2 ^ 63"
      "map_of (db_config (w_db w)) ''lockout_duration_secs'' = Some (JInt dur)" "- (2 ^ 63) \<le> dur \<and> dur < 2 ^ 63"
    and b: "aq_Origin req = ah_PublicURL h" "LoginValidate b = None"
    and u: "u \<in> set (db_users (w_db w))" "u_Email u = toLower (lr_Email b)"
      "VerifyPassword E (lr_Password b) (u_PasswordHash u) = Some True" "\<not> lockedNow E u" "notLocked E u"
    and plain: "\<not> u_ForcePasswordChange u" "mfaOff (w_db w)"
  shows "\<exists>w'. PostLogin E h req (Some b) w =
      (w', [SetCookie (base64RawURL buf) (ah_CookieSecure h)],
       WriteJSON 200 (SignedIn (userDTO E u) (cleanReturnTo E h (lr_ReturnTo b)))) \<and>
    session_inv (view (w_vk w')) \<and>
    liveSession (view (w_vk w')) = (liveSession (view (w_vk w)))(base64RawURL buf \<mapsto> newSession E req (u_ID u) [])"
proof -
  obtain t where t: "loginBody E req th dur (u_Email u) (lr_Password b) (pool (w_db w)) = Inr (t, SignInNow u)" "\<not> tx_aborted t"
    using loginBody_quiet [OF q rows u(1,4,5,3) plain] by blast
  have tx: "inTx E ''login'' (loginBody E req th dur (toLower (lr_Email b)) (lr_Password b)) (w_db w) = (tx_db t, Inr (SignInNow u))"
    using t q unfolding u(2) by (auto simp: inTx_Inr quiet_def)
  obtain w' cs r where s: "signIn E (ah_CookieSecure h) req [] (u_ID u) [] (SignedIn (userDTO E u) (cleanReturnTo E h (lr_ReturnTo b)))
      (w\<lparr>w_db := tx_db t\<rparr>) = (w', cs, r)" by (cases rule: prod_cases3)
  have call: "PostLogin E h req (Some b) w = (w', cs, r)"
    using b cfg GetInt_quiet [OF q] tx s by (simp add: PostLogin_def)
  obtain k' where k': "CreateWithPendingReturnTo E sessionTTL (e_uuid_string E (u_ID u)) (authIP E req) (aq_UserAgent req) [] (w_vk w)
      = (k', Some (base64RawURL buf))" "session_inv (view k')"
    "liveSession (view k') = (liveSession (view (w_vk w)))(base64RawURL buf \<mapsto> newSession E req (u_ID u) [])"
    using valkey_service.session_create_live [OF srv refl inv sessionTTL_pos buf] unfolding newSession_def by blast
  with s call show ?thesis by (auto simp: signIn_def)
qed

text \<open>C13. Login works: while Valkey and PostgreSQL answer and the caller's address is one, the right password of an
  account that is not locked and has no password change pending, on an instance that asks for no second
  factor, gives a session of that user under a fresh token, and the answer carries its cookie, the user
  and the sanitised return address. The setting alone decides: with \<open>mfa_required\<close> off, a user who has
  enrolled an authenticator gets the session without a challenge too.\<close>

theorem login_works:
  assumes q: "quiet E req" and srv: "valkey_service (e_valkey E) view" and inv: "session_inv (view (w_vk w))"
    and rows: "users_inv (db_users (w_db w))" and buf: "e_rand E ''session'' 0 32 = Some buf"
    and cfg: "map_of (db_config (w_db w)) ''lockout_threshold'' = Some (JInt th)" "- (2 ^ 63) \<le> th \<and> th < 2 ^ 63"
      "map_of (db_config (w_db w)) ''lockout_duration_secs'' = Some (JInt dur)" "- (2 ^ 63) \<le> dur \<and> dur < 2 ^ 63"
    and b: "aq_Origin req = ah_PublicURL h" "LoginValidate b = None"
    and u: "u \<in> set (db_users (w_db w))" "u_Email u = toLower (lr_Email b)"
      "VerifyPassword E (lr_Password b) (u_PasswordHash u) = Some True" "\<not> lockedNow E u" "notLocked E u"
    and plain: "\<not> u_ForcePasswordChange u" "mfaOff (w_db w)"
  shows "\<exists>w'. PostLogin E h req (Some b) w =
      (w', [SetCookie (base64RawURL buf) (ah_CookieSecure h)],
       WriteJSON 200 (SignedIn (userDTO E u) (cleanReturnTo E h (lr_ReturnTo b)))) \<and>
    session_inv (view (w_vk w')) \<and>
    liveSession (view (w_vk w')) = (liveSession (view (w_vk w)))(base64RawURL buf \<mapsto> newSession E req (u_ID u) [])"
  by (rule PostLogin_plain [OF assms])

section \<open>Lockout\<close>

lemma Increment_quiet:
  assumes q: "quiet E req" and t: "\<not> tx_aborted t" and rows: "users_inv (db_users (tx_db t))"
    and u: "u \<in> set (db_users (tx_db t))" "notLocked E u" "u_FailedLoginAttempts u + 1 < 2 ^ 31"
  obtains t' locked where "IncrementFailedLogins E (u_ID u) th dur t = (t', Inr (u_FailedLoginAttempts u + 1, locked))"
    "\<not> tx_aborted t'" "countFailure E th dur u \<in> set (db_users (tx_db t'))" "users_inv (db_users (tx_db t'))"
    "db_config (tx_db t') = db_config (tx_db t)"
proof -
  let ?p = "\<lambda>x. u_ID x = u_ID u \<and> notLocked E x" and ?f = "countFailure E th dur"
  let ?t = "t\<lparr>tx_db := fst (updUsers ?p ?f (tx_db t))\<rparr>"
  have f: "find ?p (db_users (tx_db t)) = Some u" using find_by_id [OF rows u(1), of "notLocked E"] u(2) by simp
  then obtain locked where r: "IncrementFailedLogins E (u_ID u) th dur t = (?t, Inr (u_FailedLoginAttempts u + 1, locked))"
    using q t u(3) by (simp add: IncrementFailedLogins_def stmt_def quiet_def needOne_def Let_def countFailure_def)
  have "?f u \<in> set (db_users (tx_db ?t))" using u by (force simp: updUsers_def)
  moreover have "users_inv (db_users (tx_db ?t))" using IncrementFailedLogins_inv [OF rows, of E "u_ID u" th dur] by (simp add: r)
  ultimately show thesis using that [of ?t locked] r t by (simp add: updUsers_def)
qed

text \<open>A login that reaches its transaction, and is refused there.\<close>

lemma PostLogin_refused:
  assumes q: "quiet E req"
    and cfg: "map_of (db_config (w_db w)) ''lockout_threshold'' = Some (JInt th)" "- (2 ^ 63) \<le> th \<and> th < 2 ^ 63"
      "map_of (db_config (w_db w)) ''lockout_duration_secs'' = Some (JInt dur)" "- (2 ^ 63) \<le> dur \<and> dur < 2 ^ 63"
    and b: "aq_Origin req = ah_PublicURL h" "LoginValidate b = None"
    and body: "loginBody E req th dur (toLower (lr_Email b)) (lr_Password b) (pool (w_db w)) = Inr (t, Refused r)" "\<not> tx_aborted t"
  shows "PostLogin E h req (Some b) w = (w\<lparr>w_db := tx_db t\<rparr>, [], r)"
proof -
  have "inTx E ''login'' (loginBody E req th dur (toLower (lr_Email b)) (lr_Password b)) (w_db w) = (tx_db t, Inr (Refused r))"
    using body q by (auto simp: inTx_Inr quiet_def)
  with b cfg GetInt_quiet [OF q] show ?thesis by (simp add: PostLogin_def)
qed

lemma loginBody_locked:
  assumes q: "quiet E req" and rows: "users_inv (db_users d)" and u: "u \<in> set (db_users d)" "u_LockedUntil u = Some l" "e_go_now E < l"
  obtains t where "loginBody E req th dur (u_Email u) pw (pool d) =
      Inr (t, Refused (WriteJSON 401 (AccountLocked (secondsLeft (l - e_go_now E)))))" "\<not> tx_aborted t"
    "db_users (tx_db t) = db_users d" "db_config (tx_db t) = db_config d"
proof -
  obtain t where t: "loginFailed E req u [(''reason'', MStr ''locked'')] (pool d) = (t, Inr ())" "\<not> tx_aborted t"
    "db_users (tx_db t) = db_users d" "db_config (tx_db t) = db_config d"
    using authLog_quiet [OF q, of "pool d" "selfEntry E (authIP E req) ''login.failed'' u ''failure'' (Some [(''reason'', MStr ''locked'')])"]
    by (auto simp: loginFailed_def selfEntry_def)
  with u UserGetByEmail_quiet [OF q rows u(1)] that [of t] show thesis
    by (simp add: loginBody_def lockedNow_def loginLocked_def attempt_def)
qed

lemma loginBody_wrong:
  assumes q: "quiet E req" and rows: "users_inv (db_users d)" and u: "u \<in> set (db_users d)" "u_FailedLoginAttempts u + 1 < 2 ^ 31"
    and open_: "\<not> lockedNow E u" "notLocked E u" and pw: "VerifyPassword E pw (u_PasswordHash u) = Some False"
  obtains t where "loginBody E req th dur (u_Email u) pw (pool d) = Inr (t, Refused invalidCredentials)" "\<not> tx_aborted t"
    "countFailure E th dur u \<in> set (db_users (tx_db t))" "users_inv (db_users (tx_db t))" "db_config (tx_db t) = db_config d"
proof -
  obtain t1 locked where t1: "IncrementFailedLogins E (u_ID u) th dur (pool d) = (t1, Inr (u_FailedLoginAttempts u + 1, locked))"
    "\<not> tx_aborted t1" "countFailure E th dur u \<in> set (db_users (tx_db t1))" "users_inv (db_users (tx_db t1))"
    "db_config (tx_db t1) = db_config d"
    using Increment_quiet [OF q, of "pool d" u th dur] rows u open_(2) by auto
  let ?m = "[(''reason'', MStr ''wrong_password''), (''failed_count'', MInt (u_FailedLoginAttempts u + 1))]"
  obtain t2 where t2: "loginFailed E req u ?m t1 = (t2, Inr ())" "\<not> tx_aborted t2" "db_users (tx_db t2) = db_users (tx_db t1)"
    "db_config (tx_db t2) = db_config (tx_db t1)"
    unfolding loginFailed_def by (rule authLog_quiet [OF q t1(2)]) (auto simp: selfEntry_def)
  let ?en = "selfEntry E (authIP E req) ''account.locked'' u ''success'' (Some [(''threshold'', MInt th), (''duration_secs'', MInt dur)])"
  obtain t3 where t3: "(if locked then authLog E req ?en t2 else (t2, Inr ())) = (t3, Inr ())" "\<not> tx_aborted t3"
    "db_users (tx_db t3) = db_users (tx_db t1)" "db_config (tx_db t3) = db_config d"
    by (cases locked) (use authLog_quiet [OF q t2(2), of ?en] t2 t1(5) in \<open>auto simp: selfEntry_def\<close>)
  have "loginBody E req th dur (u_Email u) pw (pool d) = Inr (t3, Refused invalidCredentials)"
    using UserGetByEmail_quiet [OF q rows u(1)] open_(1) pw t1(1) t2(1) t3(1)
    by (simp add: loginBody_def loginWrong_def attempt_def)
  with that t3 t1 show thesis by simp
qed

text \<open>What a login leaves of the rows of other accounts.\<close>

definition rowKept :: "User \<Rightarrow> uuid \<Rightarrow> tx \<Rightarrow> tx \<Rightarrow> bool" where
  "rowKept v uid t t' \<longleftrightarrow> db_config (tx_db t') = db_config (tx_db t) \<and>
     (users_inv (db_users (tx_db t)) \<longrightarrow> users_inv (db_users (tx_db t'))) \<and>
     (u_ID v \<noteq> uid \<longrightarrow> v \<in> set (db_users (tx_db t)) \<longrightarrow> v \<in> set (db_users (tx_db t')))"

lemma rowKept_refl: "rowKept v uid t t"
  by (simp add: rowKept_def)

lemma rowKept_trans [trans]: "rowKept v uid t t1 \<Longrightarrow> rowKept v uid t1 t2 \<Longrightarrow> rowKept v uid t t2"
  by (simp add: rowKept_def)

lemma rowKept_stmt:
  assumes "user_step {E} t (fst (stmt E site f t))"
    and "\<And>d r. f (tx_db t) = Inr (d, r) \<Longrightarrow> d = tx_db t \<or> d = fst (updUsers (\<lambda>u. u_ID u = uid \<and> p u) g (tx_db t))"
  shows "rowKept v uid t (fst (stmt E site f t))"
proof -
  let ?d = "tx_db (fst (stmt E site f t))"
  have "?d = tx_db t \<or> ?d = fst (updUsers (\<lambda>u. u_ID u = uid \<and> p u) g (tx_db t))"
    using stmt_db [of E site f t] assms(2) by blast
  then have "db_config ?d = db_config (tx_db t) \<and> (u_ID v \<noteq> uid \<longrightarrow> v \<in> set (db_users (tx_db t)) \<longrightarrow> v \<in> set (db_users ?d))"
    by (auto simp: updUsers_def)
  with user_step_inv [OF assms(1)] show ?thesis by (simp add: rowKept_def)
qed

lemma rowKept_ops:
  "rowKept v uid t (fst (IncrementFailedLogins E uid th dur t))"
  "rowKept v uid t (fst (ResetFailedLogins E uid t))"
  "rowKept v uid t (fst (SetLastLoginAt E uid t))"
proof -
  let ?reset = "\<lambda>u. u\<lparr>u_FailedLoginAttempts := 0, u_LockedUntil := None, u_UpdatedAt := e_pg_now E\<rparr>"
  let ?login = "\<lambda>u. u\<lparr>u_LastLoginAt := Some (e_pg_now E), u_UpdatedAt := e_pg_now E\<rparr>"
  show "rowKept v uid t (fst (IncrementFailedLogins E uid th dur t))"
    using user_step.increment [of E "{E}" t uid th dur] unfolding IncrementFailedLogins_def fst_wrappers
    by (rule rowKept_stmt [where p = "notLocked E" and g = "countFailure E th dur", OF _]) (auto simp: Let_def split: option.splits if_splits)
  show "rowKept v uid t (fst (ResetFailedLogins E uid t))"
    using user_step.reset [of E "{E}" t uid] unfolding ResetFailedLogins_def fst_wrappers
    by (rule rowKept_stmt [where p = "notLocked E" and g = ?reset, OF _]) (auto simp: prod_eq_iff)
  show "rowKept v uid t (fst (SetLastLoginAt E uid t))"
    using user_step.login [of E "{E}" t uid] unfolding SetLastLoginAt_def fst_wrappers
    by (rule rowKept_stmt [where p = "\<lambda>u. True" and g = ?login, OF _]) (auto simp: prod_eq_iff)
qed

lemma rowKept_authLog: "authLog E req en t = (t', Inr z) \<Longrightarrow> rowKept v uid t t'"
  by (simp add: rowKept_def authLog_Inr)

lemma rowKept_loginWrong:
  assumes "loginWrong E req th dur u t = Inr (t', out)"
  shows "rowKept v (u_ID u) t t'"
proof -
  obtain t1 x where i: "IncrementFailedLogins E (u_ID u) th dur t = (t1, x)" by (cases rule: prod.exhaust)
  have "rowKept v (u_ID u) t t1" using rowKept_ops(1) [of v "u_ID u" t E th dur] by (simp add: i)
  also have "rowKept v (u_ID u) t1 t'"
    using assms i
    by (auto simp: loginWrong_def loginFailed_def attempt_Inr split: sum.splits if_splits
        intro: rowKept_authLog rowKept_trans [OF rowKept_authLog rowKept_authLog])
  finally show ?thesis .
qed

lemma rowKept_signed:
  assumes "loginSucceeded E req u meta t = (t1, Inr x)" and "SetLastLoginAt E (u_ID u) t1 = (t', Inr y)"
  shows "rowKept v (u_ID u) t t'"
  using rowKept_authLog [OF assms(1) [unfolded loginSucceeded_def], of v "u_ID u"] rowKept_ops(3) [of v "u_ID u" t1 E]
  by (auto intro: rowKept_trans simp: assms(2))

lemma GetBool_same: "GetBool E key t = (t', Inr x) \<Longrightarrow> t' = t"
  by (auto simp: GetBool_def configGet_Inr split: prod.splits sum.splits json.splits)

lemma rowKept_loginRight:
  assumes "loginRight E req u t = Inr (t', out)"
  shows "rowKept v (u_ID u) t t'"
proof -
  obtain t1 x where i: "ResetFailedLogins E (u_ID u) t = (t1, x)" by (cases rule: prod.exhaust)
  have "rowKept v (u_ID u) t t1" using rowKept_ops(2) [of v "u_ID u" t E] by (simp add: i)
  also have "rowKept v (u_ID u) t1 t'"
  proof (cases x)
    case (Inl e)
    then show ?thesis using assms i
      by (auto simp: loginRight_def loginFailed_def attempt_Inr split: if_splits dest!: UserGetByID_Inr intro: rowKept_authLog)
  next
    case (Inr y)
    then have "loginBranch E req u t1 = Inr (t', out)" using assms i by (simp add: loginRight_def)
    then show ?thesis
      by (auto simp: loginBranch_def attempt_Inr rowKept_refl split: if_splits dest!: GetBool_same intro: rowKept_signed)
  qed
  finally show ?thesis .
qed

text \<open>An account that is locked by the program's clock.\<close>

lemma loginBody_on_locked:
  assumes b: "loginBody E req th dur email pw t = Inr (t', out)" and rows: "users_inv (db_users (tx_db t))"
    and v: "v \<in> set (db_users (tx_db t))" "lockedNow E v"
  shows "v \<in> set (db_users (tx_db t')) \<and> users_inv (db_users (tx_db t')) \<and> db_config (tx_db t') = db_config (tx_db t) \<and>
    (u_Email v = email \<longrightarrow> db_users (tx_db t') = db_users (tx_db t) \<and> outUser out = None)"
proof -
  obtain t1 x where g: "UserGetByEmail E email t = (t1, x)" by (cases rule: prod.exhaust)
  have t1: "tx_db t1 = tx_db t" using g by (metis UserGetByEmail_def fst_conv fst_wrappers(3) query_fst)
  show ?thesis
  proof (cases "\<exists>u. x = Inr u \<and> \<not> lockedNow E u")
    case True
    then obtain u where u: "x = Inr u" "\<not> lockedNow E u" by blast
    note row = UserGetByEmail_Inr [OF g [unfolded u(1)]]
    have "loginWrong E req th dur u t = Inr (t', out) \<or> loginRight E req u t = Inr (t', out)"
      using b g u row by (auto simp: loginBody_def split: option.splits if_splits)
    then have "rowKept v (u_ID u) t t'" using rowKept_loginWrong rowKept_loginRight by blast
    moreover have "u_ID v \<noteq> u_ID u" "toLower (u_Email v) \<noteq> toLower (u_Email u)"
      using rows v u(2) row by (auto simp: users_inv_def distinct_map inj_on_def)
    ultimately show ?thesis using rows v row by (auto simp: rowKept_def)
  next
    case False
    have "loginUnknown E req email t1 = Inr (t', out) \<or> (\<exists>u. loginLocked E req u t1 = Inr (t', out))"
      using b g False by (auto simp: loginBody_def split: sum.splits if_splits)
    then have "outUser out = None" "\<exists>en z. authLog E req en t1 = (t', Inr z)"
      using loginRefusals by (auto simp: loginUnknown_def loginLocked_def loginFailed_def attempt_Inr)
    with rows v t1 show ?thesis by (auto simp: authLog_Inr)
  qed
qed

lemma PostLogin_on_locked:
  assumes call: "PostLogin E h req body w = (w', cs, r)" and rows: "users_inv (db_users (w_db w))"
    and v: "v \<in> set (db_users (w_db w))" "lockedNow E v"
  shows "v \<in> set (db_users (w_db w')) \<and> users_inv (db_users (w_db w')) \<and> db_config (w_db w') = db_config (w_db w) \<and>
    (\<forall>b. body = Some b \<longrightarrow> toLower (lr_Email b) = u_Email v \<longrightarrow>
       cs = [] \<and> w_vk w' = w_vk w \<and> db_users (w_db w') = db_users (w_db w))"
  using call
proof (cases rule: PostLogin_cases)
  case (ran b th dur t out)
  have db: "w_db w' = tx_db t"
    using ran(8) by (cases out) (auto simp: signIn_def startSecondFactor_def split: prod.splits option.splits bool.splits)
  have none: "cs = [] \<and> w_vk w' = w_vk w" if "outUser out = None" using ran(8) that by (cases out) auto
  note kept = loginBody_on_locked [OF ran(4), of v]
  show ?thesis using kept rows v db none ran(2) by auto
qed (use rows v in auto)

text \<open>Any logins, by anybody, with any failures, while the lock lasts, and whatever leaves users and
  settings alone in between.\<close>

inductive login_step :: "'k env set \<Rightarrow> authHandler \<Rightarrow> int \<Rightarrow> 'k world \<Rightarrow> 'k world \<Rightarrow> bool" for Es h l where
  login: "E \<in> Es \<Longrightarrow> e_go_now E < l \<Longrightarrow> PostLogin E h req body w = (w', cs, r) \<Longrightarrow> login_step Es h l w w'"
| other: "db_users (w_db w') = db_users (w_db w) \<Longrightarrow> db_config (w_db w') = db_config (w_db w) \<Longrightarrow> login_step Es h l w w'"

lemma login_run_locked:
  assumes "(login_step Es h l)\<^sup>*\<^sup>* w w'" and "users_inv (db_users (w_db w))" and "v \<in> set (db_users (w_db w))" "u_LockedUntil v = Some l"
  shows "users_inv (db_users (w_db w')) \<and> v \<in> set (db_users (w_db w')) \<and> db_config (w_db w') = db_config (w_db w)"
  using assms(1)
proof (induction rule: rtranclp_induct)
  case (step w1 w2)
  from step.hyps(2) show ?case
  proof cases
    case (login E req body cs r)
    then have "lockedNow E v" using assms(4) by (simp add: lockedNow_def)
    with PostLogin_on_locked [OF login(3)] step.IH show ?thesis by auto
  qed (use step.IH in simp)
qed (use assms in simp)

text \<open>C14. Lockout stops a guessing attack: while PostgreSQL answers and accepts the caller's address, the
  failed login that brings the count to the threshold is answered like any wrong password and locks the
  account for the configured duration. Until that has passed, after any further logins for any accounts
  and with any failures in between, no login for the account, with the right password or a wrong one and
  whatever fails during it, sets a cookie, touches Valkey or changes the users table, and when PostgreSQL
  answers and accepts the address, the answer is that the account is locked, with the remaining time.
  (Both conditions on the address are needed: it comes from a header the client writes, and with one that
  is no address the failed login is not counted.)\<close>

theorem login_lockout:
  assumes q: "quiet E req" and rows: "users_inv (db_users (w_db w))"
    and cfg: "map_of (db_config (w_db w)) ''lockout_threshold'' = Some (JInt th)" "- (2 ^ 63) \<le> th \<and> th < 2 ^ 63"
      "map_of (db_config (w_db w)) ''lockout_duration_secs'' = Some (JInt dur)" "- (2 ^ 63) \<le> dur \<and> dur < 2 ^ 63"
    and b: "aq_Origin req = ah_PublicURL h" "LoginValidate b = None"
    and u: "u \<in> set (db_users (w_db w))" "u_Email u = toLower (lr_Email b)" "\<not> lockedNow E u" "notLocked E u"
    and wrong: "VerifyPassword E (lr_Password b) (u_PasswordHash u) = Some False"
    and count: "th \<le> u_FailedLoginAttempts u + 1" "u_FailedLoginAttempts u + 1 < 2 ^ 31"
    and l: "l = e_pg_now E + dur * second"
  shows "\<exists>w1. PostLogin E h req (Some b) w = (w1, [], invalidCredentials) \<and> w_vk w1 = w_vk w \<and>
    (\<forall>Es (E' :: 'k env) req' b' w2 w3 cs r. (login_step Es h l)\<^sup>*\<^sup>* w1 w2 \<longrightarrow> e_go_now E' < l \<longrightarrow>
       toLower (lr_Email b') = toLower (lr_Email b) \<longrightarrow> PostLogin E' h req' (Some b') w2 = (w3, cs, r) \<longrightarrow>
       cs = [] \<and> w_vk w3 = w_vk w2 \<and> db_users (w_db w3) = db_users (w_db w2) \<and>
       (quiet E' req' \<longrightarrow> aq_Origin req' = ah_PublicURL h \<longrightarrow> LoginValidate b' = None \<longrightarrow>
          r = WriteJSON 401 (AccountLocked (secondsLeft (l - e_go_now E')))))"
proof -
  obtain t where t: "loginBody E req th dur (u_Email u) (lr_Password b) (pool (w_db w)) = Inr (t, Refused invalidCredentials)"
    "\<not> tx_aborted t" "countFailure E th dur u \<in> set (db_users (tx_db t))" "users_inv (db_users (tx_db t))"
    "db_config (tx_db t) = db_config (w_db w)"
    using loginBody_wrong [OF q rows u(1) count(2) u(3,4) wrong] by metis
  let ?w1 = "w\<lparr>w_db := tx_db t\<rparr>" and ?v = "countFailure E th dur u"
  have v: "u_Email ?v = toLower (lr_Email b)" "u_LockedUntil ?v = Some l"
    using u(2) count(1) l by (simp_all add: countFailure_def)
  have first: "PostLogin E h req (Some b) w = (?w1, [], invalidCredentials)"
    by (rule PostLogin_refused [OF q cfg b]) (use t u(2) in simp_all)
  have later: "cs = [] \<and> w_vk w3 = w_vk w2 \<and> db_users (w_db w3) = db_users (w_db w2) \<and>
      (quiet E' req' \<longrightarrow> aq_Origin req' = ah_PublicURL h \<longrightarrow> LoginValidate b' = None \<longrightarrow>
         r = WriteJSON 401 (AccountLocked (secondsLeft (l - e_go_now E'))))"
    if a: "(login_step Es h l)\<^sup>*\<^sup>* ?w1 w2" "e_go_now E' < l" "toLower (lr_Email b') = toLower (lr_Email b)"
      "PostLogin E' h req' (Some b') w2 = (w3, cs, r)" for Es and E' :: "'k env" and req' b' w2 w3 cs r
  proof -
    have w2: "users_inv (db_users (w_db w2))" "?v \<in> set (db_users (w_db w2))" "db_config (w_db w2) = db_config (w_db w)"
      using login_run_locked [OF a(1) _ _ v(2)] t by auto
    have "lockedNow E' ?v" using v(2) a(2) by (simp add: lockedNow_def)
    from PostLogin_on_locked [OF a(4) w2(1,2) this] v(1) a(3)
    have "cs = [] \<and> w_vk w3 = w_vk w2 \<and> db_users (w_db w3) = db_users (w_db w2)" by simp
    moreover have "r = WriteJSON 401 (AccountLocked (secondsLeft (l - e_go_now E')))"
      if c: "quiet E' req'" "aq_Origin req' = ah_PublicURL h" "LoginValidate b' = None"
    proof -
      obtain t2 where t2: "loginBody E' req' th dur (u_Email ?v) (lr_Password b') (pool (w_db w2)) =
          Inr (t2, Refused (WriteJSON 401 (AccountLocked (secondsLeft (l - e_go_now E')))))" "\<not> tx_aborted t2"
        using loginBody_locked [OF c(1) w2(1,2) v(2) a(2)] by metis
      have "PostLogin E' h req' (Some b') w2 =
          (w2\<lparr>w_db := tx_db t2\<rparr>, [], WriteJSON 401 (AccountLocked (secondsLeft (l - e_go_now E'))))"
        by (rule PostLogin_refused [OF c(1) _ cfg(2) _ cfg(4) c(2,3)]) (use w2(3) cfg t2 v(1) a(3) in simp_all)
      with a(4) show ?thesis by simp
    qed
    ultimately show ?thesis by blast
  qed
  show ?thesis
    by (rule exI [of _ ?w1], rule conjI [OF first], rule conjI) (simp, intro allI impI, rule later)
qed

text \<open>With an address that PostgreSQL cannot read, the audit row of a wrong password aborts the
  transaction, the failure is not counted, and so no number of them locks the account.\<close>

lemma forged_address_not_counted:
  assumes ip: "authIP E req \<noteq> []" "\<not> e_inet_ok E (authIP E req)"
    and u: "UserGetByEmail E (toLower (lr_Email b)) (pool (w_db w)) = (pool (w_db w), Inr u)" "\<not> lockedNow E u"
      "VerifyPassword E (lr_Password b) (u_PasswordHash u) = Some False"
  shows "w_db (fst (PostLogin E h req (Some b) w)) = w_db w"
proof -
  obtain w' cs r where c: "PostLogin E h req (Some b) w = (w', cs, r)" by (cases rule: prod_cases3)
  have no: "authLog E req (selfEntry E (authIP E req) ev u oc md) t \<noteq> (t', Inr z)" for ev oc md t t' z
    using ip by (auto simp: authLog_def Log_def selfEntry_def split: if_splits)
  from c show ?thesis
  proof (cases rule: PostLogin_cases)
    case (ran b' th dur t out)
    then have "loginWrong E req th dur u (pool (w_db w)) = Inr (t, out)" using u by (auto simp: loginBody_def)
    then show ?thesis
      by (auto simp: loginWrong_def loginFailed_def attempt_Inr no split: prod.splits sum.splits if_splits)
  qed (use c in simp)
qed

section \<open>A sample\<close>

text \<open>A user with a password, and a request with it.\<close>

definition sampleHash :: string where
  "sampleHash = the (HashPassword sampleEnv ''sample'' 0 ''Correct1horse'')"

definition sampleMember :: User where
  "sampleMember = sampleUser\<lparr>u_PasswordHash := sampleHash, u_FailedLoginAttempts := 0\<rparr>"

definition sampleLoginWorld :: "kspace world" where
  "sampleLoginWorld = \<lparr>w_db = emptyDB\<lparr>db_users := [sampleMember],
     db_config := [(''lockout_threshold'', JInt 5), (''lockout_duration_secs'', JInt 900), (''mfa_required'', JBool False),
       (''password_min_length'', JInt 8), (''password_require_upper'', JBool True), (''password_require_digit'', JBool True)]\<rparr>,
     w_vk = (\<lambda>k. None)\<rparr>"

definition sampleAuthHandler :: authHandler where
  "sampleAuthHandler = \<lparr>ah_PublicURL = ''https://id.example.org'', ah_CookieSecure = True, ah_DummyHash = [], ah_HIBP = None\<rparr>"

definition sampleAuthRequest :: "(string \<times> string) list \<Rightarrow> authRequest" where
  "sampleAuthRequest cookies = \<lparr>aq_Origin = ''https://id.example.org'', aq_UserAgent = ''UA'', aq_Cookies = cookies,
     aq_Req = \<lparr>req_XFF = ''192.0.2.1'', req_RemoteAddr = [], req_CorrelationID = []\<rparr>\<rparr>"

definition sampleLogin :: LoginRequest where
  "sampleLogin = \<lparr>lr_Email = ''Ada@example.org'', lr_Password = ''Correct1horse'', lr_ReturnTo = []\<rparr>"

lemma sample_hash: "HashPassword sampleEnv ''sample'' 0 ''Correct1horse'' = Some sampleHash"
  by (simp add: sampleHash_def HashPassword_def sampleEnv_def)

lemma sample_password: "VerifyPassword sampleEnv ''Correct1horse'' sampleHash = Some True"
  by (rule VerifyPassword_HashPassword_accepts [OF sampleEnv_laws(3) sample_hash])

lemma sample_quiet: "quiet sampleEnv (sampleAuthRequest cs)"
  by (simp add: quiet_def authIP_def clientIP_def extractClientIP_def sampleAuthRequest_def)

lemma sample_users: "db_users (w_db sampleLoginWorld) = [sampleMember]"
  by (simp add: sampleLoginWorld_def)

lemma sample_rows: "users_inv (db_users (w_db sampleLoginWorld))"
  by (simp add: sample_users users_inv_def sampleMember_def sampleUser_def roleOk_def statusOk_def)

lemma sample_space: "session_inv (w_vk sampleLoginWorld)"
  by (simp add: sampleLoginWorld_def session_inv_def index_inv_empty)

lemma sample_lower: "toLower ''Ada@example.org'' = ''ada@example.org''"
  by code_simp

lemma sample_member:
  "u_Email sampleMember = toLower (lr_Email sampleLogin)" "u_PasswordHash sampleMember = sampleHash" "u_ID sampleMember = 7"
  "\<not> lockedNow sampleEnv sampleMember" "notLocked sampleEnv sampleMember" "\<not> u_ForcePasswordChange sampleMember"
  by (simp_all add: sampleMember_def sampleUser_def sampleLogin_def sample_lower lockedNow_def notLocked_def)

lemma sample_config:
  "map_of (db_config (w_db sampleLoginWorld)) ''lockout_threshold'' = Some (JInt 5)"
  "map_of (db_config (w_db sampleLoginWorld)) ''lockout_duration_secs'' = Some (JInt 900)" "mfaOff (w_db sampleLoginWorld)"
  by (simp_all add: sampleLoginWorld_def mfaOff_def)

lemma sample_login:
  "aq_Origin (sampleAuthRequest cs) = ah_PublicURL sampleAuthHandler" "LoginValidate sampleLogin = None"
  "lr_Password sampleLogin = ''Correct1horse''" "lr_ReturnTo sampleLogin = []"
  by (simp_all add: sampleAuthRequest_def sampleAuthHandler_def sampleLogin_def LoginValidate_def hasPrefix_def maxEmailLen_def maxPasswordLen_def)

abbreviation sampleBuf :: bytes where
  "sampleBuf \<equiv> replicate 32 (char_of (length ''session'' + 0))"

lemma sample_facts:
  "e_rand sampleEnv ''session'' 0 32 = Some sampleBuf" "sampleMember \<in> set (db_users (w_db sampleLoginWorld))"
  "VerifyPassword sampleEnv (lr_Password sampleLogin) (u_PasswordHash sampleMember) = Some True"
  "- (2 ^ 63) \<le> (5 :: int) \<and> (5 :: int) < 2 ^ 63" "- (2 ^ 63) \<le> (900 :: int) \<and> (900 :: int) < 2 ^ 63"
  by (simp, simp add: sample_users, simp only: sample_login(3) sample_member(2) sample_password, simp_all)

lemmas sample_ready = sample_quiet sampleServer sample_space sample_rows sample_facts(1) sample_config(1) sample_facts(4)
  sample_config(2) sample_facts(5) sample_login(1,2) sample_facts(2) sample_member(1) sample_facts(3) sample_member(4,5,6) sample_config(3)

theorem login_works_witness:
  "\<exists>w'. PostLogin sampleEnv sampleAuthHandler (sampleAuthRequest []) (Some sampleLogin) sampleLoginWorld =
     (w', [SetCookie (base64RawURL sampleBuf) True], WriteJSON 200 (SignedIn (userDTO sampleEnv sampleMember) [])) \<and>
     liveSession (w_vk w') (base64RawURL sampleBuf) = Some (newSession sampleEnv (sampleAuthRequest []) 7 [])"
  using login_works [where view = "\<lambda>m. m", OF sample_ready, of "[]"]
  by (auto simp: sample_login(4) cleanReturnTo_def sampleAuthHandler_def sample_member(3))

lemma sample_signed_in:
  obtains w' cs r tok where
    "PostLogin sampleEnv sampleAuthHandler (sampleAuthRequest []) (Some sampleLogin) sampleLoginWorld = (w', cs, r)"
    "liveSession (w_vk w') tok = Some (newSession sampleEnv (sampleAuthRequest []) 7 [])" "session_inv (w_vk w')"
  using PostLogin_plain [where view = "\<lambda>m. m", OF sample_ready, of "[]"] that unfolding sample_member(3) by (metis fun_upd_same)

theorem login_sound_witness:
  "\<exists>w' cs r tok. PostLogin sampleEnv sampleAuthHandler (sampleAuthRequest []) (Some sampleLogin) sampleLoginWorld = (w', cs, r) \<and>
     liveSession (w_vk w') tok \<noteq> liveSession (w_vk sampleLoginWorld) tok \<and> mfaOff (w_db sampleLoginWorld)"
proof -
  obtain w' cs r tok where
    c: "PostLogin sampleEnv sampleAuthHandler (sampleAuthRequest []) (Some sampleLogin) sampleLoginWorld = (w', cs, r)"
    and n: "liveSession (w_vk w') tok = Some (newSession sampleEnv (sampleAuthRequest []) 7 [])"
    by (rule sample_signed_in)
  have "liveSession (w_vk sampleLoginWorld) tok = None"
    by (simp add: sampleLoginWorld_def liveSession_def storedAt_def)
  then have new: "liveSession (w_vk w') tok \<noteq> liveSession (w_vk sampleLoginWorld) tok" using n by simp
  from login_sound [where view = "\<lambda>m. m", OF c sampleServer sample_space sample_rows new]
  obtain u where "u \<in> set (db_users (w_db sampleLoginWorld))" "u_ForcePasswordChange u \<or> mfaOff (w_db sampleLoginWorld)" by blast
  with c new sample_member(6) show ?thesis by (auto simp: sample_users)
qed

lemma sample_wrong: "VerifyPassword sampleEnv ''guess'' sampleHash = Some False"
proof -
  from VerifyPassword_of_HashPassword [OF sampleEnv_laws(3) sample_hash] obtain salt where
    "VerifyPassword sampleEnv ''guess'' sampleHash =
       Some (e_argon2id sampleEnv ''Correct1horse'' salt argon2Iterations argon2Memory argon2Parallelism argon2KeyLength
             = e_argon2id sampleEnv ''guess'' salt argon2Iterations argon2Memory argon2Parallelism argon2KeyLength)" by blast
  then show ?thesis by (simp add: sampleEnv_def pad_def argon2KeyLength_def)
qed

definition sampleGuess :: LoginRequest where
  "sampleGuess = \<lparr>lr_Email = ''Ada@example.org'', lr_Password = ''guess'', lr_ReturnTo = []\<rparr>"

definition sampleGuessWorld :: "kspace world" where
  "sampleGuessWorld = sampleLoginWorld\<lparr>w_db := (w_db sampleLoginWorld)\<lparr>db_users := [sampleMember\<lparr>u_FailedLoginAttempts := 4\<rparr>]\<rparr>\<rparr>"

theorem login_lockout_witness:
  "\<exists>w1 w2. PostLogin sampleEnv sampleAuthHandler (sampleAuthRequest []) (Some sampleGuess) sampleGuessWorld
       = (w1, [], invalidCredentials) \<and>
     PostLogin sampleEnv sampleAuthHandler (sampleAuthRequest []) (Some sampleLogin) w1
       = (w2, [], WriteJSON 401 (AccountLocked 900))"
proof -
  let ?u = "sampleMember\<lparr>u_FailedLoginAttempts := 4\<rparr>"
  have rows: "users_inv (db_users (w_db sampleGuessWorld))"
    by (simp add: sampleGuessWorld_def users_inv_def sampleMember_def sampleUser_def roleOk_def statusOk_def)
  have cfg: "map_of (db_config (w_db sampleGuessWorld)) ''lockout_threshold'' = Some (JInt 5)"
    "map_of (db_config (w_db sampleGuessWorld)) ''lockout_duration_secs'' = Some (JInt 900)"
    using sample_config by (simp_all add: sampleGuessWorld_def)
  have g: "LoginValidate sampleGuess = None" "lr_Password sampleGuess = ''guess''" "lr_Email sampleGuess = lr_Email sampleLogin"
    by (simp_all add: sampleGuess_def sampleLogin_def LoginValidate_def hasPrefix_def maxEmailLen_def maxPasswordLen_def)
  have u: "?u \<in> set (db_users (w_db sampleGuessWorld))" "u_Email ?u = toLower (lr_Email sampleGuess)"
    "\<not> lockedNow sampleEnv ?u" "notLocked sampleEnv ?u" "u_FailedLoginAttempts ?u = 4"
    using sample_member by (simp_all add: sampleGuessWorld_def g(3) lockedNow_def notLocked_def)
  have pw: "VerifyPassword sampleEnv (lr_Password sampleGuess) (u_PasswordHash ?u) = Some False"
    using sample_wrong sample_member(2) by (simp add: g(2))
  have "secondsLeft (1000 * second + 900 * second - 1000 * second) = 900" by (simp add: secondsLeft_def second_def)
  moreover have "5 \<le> u_FailedLoginAttempts ?u + 1" "u_FailedLoginAttempts ?u + 1 < 2 ^ 31" using u(5) by simp_all
  note login_lockout [OF sample_quiet rows cfg(1) sample_facts(4) cfg(2) sample_facts(5) sample_login(1) g(1) u(1-4) pw this refl, of "[]"]
  then obtain w1 where first: "PostLogin sampleEnv sampleAuthHandler (sampleAuthRequest []) (Some sampleGuess) sampleGuessWorld
       = (w1, [], invalidCredentials)"
    and later: "\<forall>Es (E' :: kspace env) req' b' w2 w3 cs r. (login_step Es sampleAuthHandler (e_pg_now sampleEnv + 900 * second))\<^sup>*\<^sup>* w1 w2 \<longrightarrow>
       e_go_now E' < e_pg_now sampleEnv + 900 * second \<longrightarrow>
       toLower (lr_Email b') = toLower (lr_Email sampleGuess) \<longrightarrow> PostLogin E' sampleAuthHandler req' (Some b') w2 = (w3, cs, r) \<longrightarrow>
       cs = [] \<and> w_vk w3 = w_vk w2 \<and> db_users (w_db w3) = db_users (w_db w2) \<and>
       (quiet E' req' \<longrightarrow> aq_Origin req' = ah_PublicURL sampleAuthHandler \<longrightarrow> LoginValidate b' = None \<longrightarrow>
          r = WriteJSON 401 (AccountLocked (secondsLeft (e_pg_now sampleEnv + 900 * second - e_go_now E'))))" by (elim exE conjE) (rule that)
  have time: "e_go_now sampleEnv < e_pg_now sampleEnv + 900 * second" by (simp add: second_def)
  obtain w3 cs r where c: "PostLogin sampleEnv sampleAuthHandler (sampleAuthRequest []) (Some sampleLogin) w1 = (w3, cs, r)"
    by (cases rule: prod_cases3)
  have "cs = [] \<and> r = WriteJSON 401 (AccountLocked (secondsLeft (1000 * second + 900 * second - 1000 * second)))"
    using later [rule_format, of "{}" w1 sampleEnv sampleLogin "sampleAuthRequest []" w3 cs r, OF rtranclp.rtrancl_refl time _ c]
      g(3) sample_quiet [of "[]"] sample_login(1,2) by simp
  ultimately show ?thesis using first c by auto
qed

section \<open>The middlewares\<close>

lemma poolLog_rows [simp]: "db_users (poolLog E req en d) = db_users d"
  unfolding poolLog_def authLog_def using Log_tables(1) [of E _ en "pool d"] by (metis pool_sel(1) prod.collapse)

text \<open>The abstract view: the user a session stands for.\<close>

definition sessionOwner :: "'k env \<Rightarrow> db \<Rightarrow> Session option \<Rightarrow> User option" where
  "sessionOwner E d sess =
     (case sess of None \<Rightarrow> None
      | Some s \<Rightarrow>
          (case e_uuid_parse E (s_UserID s) of None \<Rightarrow> None
           | Some uid \<Rightarrow>
               (case find (\<lambda>u. u_ID u = uid) (db_users d) of None \<Rightarrow> None
                | Some u \<Rightarrow> if u_Status u = ''disabled'' then None else Some u)))"

lemma UserGetByID_up:
  "\<not> e_pg_fails E (PQuery site) \<Longrightarrow> snd (UserGetByID E site uid (pool d)) =
     (case find (\<lambda>u. u_ID u = uid) (db_users d) of None \<Rightarrow> Inl ErrUserNotFound | Some u \<Rightarrow> Inr u)"
  by (simp add: UserGetByID_def query_def stmt_def needOne_def split: option.splits)

lemma checkSession_spec:
  assumes srv: "valkey_service (e_valkey E) view" and inv: "session_inv (view (w_vk w))"
    and up: "\<not> e_pg_fails E (PQuery ''auth.Middleware'')" and c: "checkSession E req mw token w = (w', c)"
  defines "live \<equiv> liveSession (view (w_vk w))" and "live' \<equiv> liveSession (view (w_vk w'))"
  shows "session_inv (view (w_vk w')) \<and> db_users (w_db w') = db_users (w_db w) \<and>
    (case sessionOwner E (w_db w) (live token) of
       Some u \<Rightarrow> c = SessionUser u \<and> w_db w' = w_db w \<and> live' = live(token \<mapsto> (the (live token))\<lparr>s_LastSeenAt := e_go_now E\<rparr>)
     | None \<Rightarrow> c \<in> {NoSession, BadUserID, UserGone, UserDisabled} \<and> live' = live(token := None))"
proof -
  obtain k r where g: "sessionGet E sessionTTL token (w_vk w) = (k, r)" by (cases rule: prod.exhaust)
  note got = valkey_service.session_get [OF srv refl inv sessionTTL_pos g, folded live_def]
  have del: "session_inv (view (fst (sessionDelete E uid token k)))"
    "liveSession (view (fst (sessionDelete E uid token k))) = (liveSession (view k))(token := None)" for uid
    using valkey_service.session_delete [OF srv refl conjunct1 [OF got]] by (cases "sessionDelete E uid token k"; simp)+
  show ?thesis
  proof (cases "live token")
    case None
    with got have "r = SessErrNotFound" "liveSession (view k) = live" by simp_all
    with None c g got show ?thesis by (auto simp: checkSession_def sessionOwner_def live'_def fun_upd_idem)
  next
    case (Some s)
    with got have r: "r = SessOk (s\<lparr>s_LastSeenAt := e_go_now E\<rparr>)"
      and k: "session_inv (view k)" "liveSession (view k) = live(token \<mapsto> s\<lparr>s_LastSeenAt := e_go_now E\<rparr>)" by simp_all
    show ?thesis
    proof (cases "e_uuid_parse E (s_UserID s)")
      case None
      with Some c g r k del show ?thesis by (auto simp: checkSession_def sessionOwner_def live'_def)
    next
      case (Some uid)
      with \<open>live token = Some s\<close> c g r k del show ?thesis
        by (auto simp: checkSession_def sessionOwner_def live'_def UserGetByID_up [OF up] split: option.splits if_splits)
    qed
  qed
qed

text \<open>C15. The session middleware implements the lookup it stands for: while Valkey and PostgreSQL answer, the wrapped
  handler runs exactly when the cookie names a live session whose user id is that of a user of the table who
  is not disabled, and then for that user, on the same database and with the session renewed. In every other
  case the answer is 401, the users are untouched, and the session the cookie named is gone. Nothing else is
  consulted: the revocation cutoff of the user is read by the bearer middleware and the refresh grant only.\<close>

theorem middleware_refines:
  assumes srv: "valkey_service (e_valkey E) view" and inv: "session_inv (view (w_vk w))"
    and up: "\<not> e_pg_fails E (PQuery ''auth.Middleware'')"
    and tok: "cookieOf req ''schlass_session'' = Some token"
    and m: "Middleware E req handler w = (w', r)"
  shows "case sessionOwner E (w_db w) (liveSession (view (w_vk w)) token) of
      Some u \<Rightarrow> (\<exists>w1 r'. r = Inr r' \<and> handler u w1 = (w', r') \<and> w_db w1 = w_db w \<and> session_inv (view (w_vk w1)) \<and>
        liveSession (view (w_vk w1)) = (liveSession (view (w_vk w)))
          (token \<mapsto> (the (liveSession (view (w_vk w)) token))\<lparr>s_LastSeenAt := e_go_now E\<rparr>))
    | None \<Rightarrow> r = Inl notAuthenticated \<and> db_users (w_db w') = db_users (w_db w) \<and> session_inv (view (w_vk w')) \<and>
        liveSession (view (w_vk w')) = (liveSession (view (w_vk w)))(token := None)"
proof -
  obtain w1 c where c: "checkSession E req [] token w = (w1, c)" by (cases rule: prod.exhaust)
  note spec = checkSession_spec [OF srv inv up c]
  show ?thesis
  proof (cases "sessionOwner E (w_db w) (liveSession (view (w_vk w)) token)")
    case None
    with spec have "c \<in> {NoSession, BadUserID, UserGone, UserDisabled}" by simp
    with m tok c have "w' = w1" "r = Inl notAuthenticated" by (auto simp: Middleware_def)
    with None spec show ?thesis by simp
  next
    case (Some u)
    with spec m tok c obtain r' where "r = Inr r'" "handler u w1 = (w', r')"
      by (cases "handler u w1") (auto simp: Middleware_def)
    with Some spec show ?thesis by auto
  qed
qed

theorem middleware_refines_witness:
  "\<exists>w tok w'. liveSession (w_vk w) tok \<noteq> None \<and>
     Middleware sampleEnv (sampleAuthRequest [(''schlass_session'', tok)]) (\<lambda>u w. (w, u_ID u)) w = (w', Inr 7)"
proof -
  obtain w cs r tok where c: "PostLogin sampleEnv sampleAuthHandler (sampleAuthRequest []) (Some sampleLogin) sampleLoginWorld = (w, cs, r)"
    and live: "liveSession (w_vk w) tok = Some (newSession sampleEnv (sampleAuthRequest []) 7 [])" and inv: "session_inv (w_vk w)"
    by (rule sample_signed_in)
  let ?w = "sampleLoginWorld\<lparr>w_vk := w_vk w\<rparr>" and ?req = "sampleAuthRequest [(''schlass_session'', tok)]"
  have own: "sessionOwner sampleEnv (w_db ?w) (liveSession (w_vk ?w) tok) = Some sampleMember"
    by (simp add: sessionOwner_def live newSession_def sample_users sample_member sampleMember_def sampleUser_def)
  have tok: "cookieOf ?req ''schlass_session'' = Some tok" by (simp add: cookieOf_def sampleAuthRequest_def)
  obtain w' r' where m: "Middleware sampleEnv ?req (\<lambda>u w. (w, u_ID u)) ?w = (w', r')" by (cases rule: prod.exhaust)
  from middleware_refines [where view = "\<lambda>m. m", OF sampleServer _ _ tok m] inv own have "r' = Inr 7"
    by (auto simp: sampleMember_def sampleUser_def)
  with m live show ?thesis by (intro exI [of _ ?w] exI [of _ tok] exI [of _ w']) simp
qed

end
