(* ===== verification/Frames.thy ===== *)
theory Frames
  imports Router TokenProps LoginProps
begin

text \<open>
  What the handlers that need no permission leave alone. An observation of the database that does not
  look at the audit log, the codes, recovery codes and reset tokens, and of a user only at identifier,
  address, role and status, is the locale \<open>observation\<close>; inside it, every statement, transaction body
  and handler of login, second factor, password reset, account changes and the OAuth endpoints is shown
  to keep the observed value. \<open>Authority\<close> instantiates it.
\<close>

section \<open>Observations\<close>

locale observation =
  fixes obs :: "db \<Rightarrow> 'o"
  assumes obs_logs [simp]: "obs (d\<lparr>db_audit_logs := l\<rparr>) = obs d"
    and obs_codes [simp]: "obs (d\<lparr>db_codes := c\<rparr>) = obs d"
    and obs_recovery [simp]: "obs (d\<lparr>db_recovery_codes := rc\<rparr>) = obs d"
    and obs_resets [simp]: "obs (d\<lparr>db_reset_tokens := rt\<rparr>) = obs d"
    and obs_users: "(\<And>u. u_ID (f u) = u_ID u \<and> u_Email (f u) = u_Email u \<and> u_Role (f u) = u_Role u \<and> u_Status (f u) = u_Status u) \<Longrightarrow>
      obs (d\<lparr>db_users := map f (db_users d)\<rparr>) = obs d"
begin

lemma stmt_obs:
  assumes "stmt E site f t = (t', r)" and "\<And>d d' a. f d = Inr (d', a) \<Longrightarrow> obs d' = obs d"
  shows "obs (tx_db t') = obs (tx_db t)"
  using assms by (auto simp: stmt_def split: if_splits sum.splits)

lemma query_obs: "query E site f t = (t', r) \<Longrightarrow> obs (tx_db t') = obs (tx_db t)"
  unfolding query_def by (erule stmt_obs) simp

lemma Log_obs: "Log E cid en t = (t', r) \<Longrightarrow> obs (tx_db t') = obs (tx_db t)"
  by (auto simp: Log_def split: if_splits)

lemma wrapped_obs:
  "needOne e x = (t', r) \<Longrightarrow> (\<And>y. x = (t', y) \<Longrightarrow> P) \<Longrightarrow> P"
  "needRow e z = (t', s) \<Longrightarrow> (\<And>y. z = (t', y) \<Longrightarrow> P) \<Longrightarrow> P"
  "ignoreCount z = (t', s) \<Longrightarrow> (\<And>y. z = (t', y) \<Longrightarrow> P) \<Longrightarrow> P"
  by (auto simp: needOne_def needRow_def ignoreCount_def split: prod.splits sum.splits option.splits)

lemma updUsers_obs:
  assumes "\<And>u. u_ID (f u) = u_ID u \<and> u_Email (f u) = u_Email u \<and> u_Role (f u) = u_Role u \<and> u_Status (f u) = u_Status u"
  shows "obs (fst (updUsers p f d)) = obs d"
  using assms unfolding updUsers_def by (simp add: obs_users)

text \<open>A statement that updates users in this way.\<close>

lemma user_stmt_obs:
  assumes "stmt E site (\<lambda>d. Inr (updUsers p f d)) t = (t', r)"
    and "\<And>u. u_ID (f u) = u_ID u \<and> u_Email (f u) = u_Email u \<and> u_Role (f u) = u_Role u \<and> u_Status (f u) = u_Status u"
  shows "obs (tx_db t') = obs (tx_db t)"
proof (rule stmt_obs [OF assms(1)])
  fix d d' and a :: nat
  assume "Inr (updUsers p f d) = (Inr (d', a) :: err + db \<times> nat)"
  then have "d' = fst (updUsers p f d)" by (metis fst_conv sum.inject(2))
  then show "obs d' = obs d" using updUsers_obs [OF assms(2)] by simp
qed

lemma users_obs:
  "UserGetByEmail E email t = (t', r1) \<Longrightarrow> obs (tx_db t') = obs (tx_db t)"
  "UserGetByID E site uid t = (t', r1) \<Longrightarrow> obs (tx_db t') = obs (tx_db t)"
  "ResetFailedLogins E uid t = (t', r2) \<Longrightarrow> obs (tx_db t') = obs (tx_db t)"
  "ClearLockoutForPasswordChange E uid t = (t', r2) \<Longrightarrow> obs (tx_db t') = obs (tx_db t)"
  "SetPasswordHash E uid hash force t = (t', r2) \<Longrightarrow> obs (tx_db t') = obs (tx_db t)"
  "SetTOTPEnrolled E uid enc t = (t', r2) \<Longrightarrow> obs (tx_db t') = obs (tx_db t)"
  "ClearTOTP E uid t = (t', r2) \<Longrightarrow> obs (tx_db t') = obs (tx_db t)"
  "AdvanceTOTPCounter E uid n t = (t', r2) \<Longrightarrow> obs (tx_db t') = obs (tx_db t)"
  "SetLastLoginAt E uid t = (t', r2) \<Longrightarrow> obs (tx_db t') = obs (tx_db t)"
  unfolding UserGetByEmail_def UserGetByID_def ResetFailedLogins_def ClearLockoutForPasswordChange_def SetPasswordHash_def
    SetTOTPEnrolled_def ClearTOTP_def AdvanceTOTPCounter_def SetLastLoginAt_def
  by (erule wrapped_obs, erule query_obs user_stmt_obs, simp?)+

lemma IncrementFailedLogins_obs: "IncrementFailedLogins E uid n s t = (t', r) \<Longrightarrow> obs (tx_db t') = obs (tx_db t)"
  unfolding IncrementFailedLogins_def
  by (erule wrapped_obs, erule stmt_obs)
    (auto simp: Let_def updUsers_obs countFailure_def split: option.splits if_splits)

lemma insertCodes_obs: "insertCodes E uid i hs d = Inr d' \<Longrightarrow> obs d' = obs d"
  by (induction hs arbitrary: i d) (auto simp: Let_def split: if_splits)

lemma auth_stores_obs:
  "RecoveryInsert E uid hs t = (t', r) \<Longrightarrow> obs (tx_db t') = obs (tx_db t)"
  "RecoveryMarkUsed E cid t = (t', r) \<Longrightarrow> obs (tx_db t') = obs (tx_db t)"
  "RecoveryDeleteAllForUser E uid t = (t', rn) \<Longrightarrow> obs (tx_db t') = obs (tx_db t)"
  "ResetInsert E pepper uid tok ttl ip t = (t', rn) \<Longrightarrow> obs (tx_db t') = obs (tx_db t)"
  "GetByTokenForUpdate E pepper tok t = (t', rt) \<Longrightarrow> obs (tx_db t') = obs (tx_db t)"
  "ResetMarkUsed E rid t = (t', r) \<Longrightarrow> obs (tx_db t') = obs (tx_db t)"
  "InvalidateOutstandingForUser E uid t = (t', rn) \<Longrightarrow> obs (tx_db t') = obs (tx_db t)"
  "AuthCodeInsert E row t = (t', r) \<Longrightarrow> obs (tx_db t') = obs (tx_db t)"
  "ConsumeOnce E h t = (t', rc) \<Longrightarrow> obs (tx_db t') = obs (tx_db t)"
proof -
  show "RecoveryInsert E uid hs t = (t', r) \<Longrightarrow> obs (tx_db t') = obs (tx_db t)"
    unfolding RecoveryInsert_def
    by (auto split: if_splits elim!: stmt_obs dest: insertCodes_obs split: sum.splits)
  show "RecoveryMarkUsed E cid t = (t', r) \<Longrightarrow> obs (tx_db t') = obs (tx_db t)"
    "ResetMarkUsed E rid t = (t', r) \<Longrightarrow> obs (tx_db t') = obs (tx_db t)"
    "GetByTokenForUpdate E pepper tok t = (t', rt) \<Longrightarrow> obs (tx_db t') = obs (tx_db t)"
    "ConsumeOnce E h t = (t', rc) \<Longrightarrow> obs (tx_db t') = obs (tx_db t)"
    unfolding RecoveryMarkUsed_def ResetMarkUsed_def GetByTokenForUpdate_def ConsumeOnce_def updCodes_def updTokens_def
    by (erule wrapped_obs, erule stmt_obs query_obs, (auto)?)+
  show "RecoveryDeleteAllForUser E uid t = (t', rn) \<Longrightarrow> obs (tx_db t') = obs (tx_db t)"
    "ResetInsert E pepper uid tok ttl ip t = (t', rn) \<Longrightarrow> obs (tx_db t') = obs (tx_db t)"
    "InvalidateOutstandingForUser E uid t = (t', rn) \<Longrightarrow> obs (tx_db t') = obs (tx_db t)"
    "AuthCodeInsert E row t = (t', r) \<Longrightarrow> obs (tx_db t') = obs (tx_db t)"
    unfolding RecoveryDeleteAllForUser_def ResetInsert_def InvalidateOutstandingForUser_def AuthCodeInsert_def updTokens_def
    by (erule stmt_obs, auto simp: Let_def split: if_splits)+
qed

lemma authLog_obs: "authLog E req en t = (t', r) \<Longrightarrow> obs (tx_db t') = obs (tx_db t)"
  unfolding authLog_def by (rule Log_obs)

lemma configGet_obs: "configGet E key t = (t', r) \<Longrightarrow> obs (tx_db t') = obs (tx_db t)"
  by (auto simp: configGet_def dest!: query_obs split: prod.splits sum.splits option.splits)

lemma getters_obs:
  "GetBool E key t = (t', rb) \<Longrightarrow> obs (tx_db t') = obs (tx_db t)"
  "GetInt E key t = (t', ri) \<Longrightarrow> obs (tx_db t') = obs (tx_db t)"
  by (auto simp: GetBool_def GetInt_def dest!: configGet_obs split: prod.splits sum.splits)

lemma config_obs:
  "GetBool E key t = (t', rb) \<Longrightarrow> obs (tx_db t') = obs (tx_db t)"
  "readPasswordPolicy E t = (t', rp) \<Longrightarrow> obs (tx_db t') = obs (tx_db t)"
  by (auto simp: readPasswordPolicy_def dest!: getters_obs split: prod.splits sum.splits)

lemmas ops_obs = Log_obs users_obs IncrementFailedLogins_obs auth_stores_obs authLog_obs config_obs

text \<open>A transaction that is rolled back changes nothing; one that commits leaves what its body left.\<close>

lemma inTx_obs:
  assumes "inTx E site f d = (d', r)" and "\<And>t a. f (pool d) = Inr (t, a) \<Longrightarrow> obs (tx_db t) = obs d"
  shows "obs d' = obs d"
  using assms by (auto elim!: inTx_cases)

lemma commitTx_obs: "commitTx E site t d = (d', b) \<Longrightarrow> obs (tx_db t) = obs d \<Longrightarrow> obs d' = obs d"
  by (auto simp: commitTx_def split: if_splits)

lemma bestEffortAudit_obs: "obs (bestEffortAudit E site cid en d) = obs d"
  by (auto simp: bestEffortAudit_def beginTx_Some commitTx_def dest!: Log_obs split: option.splits prod.splits sum.splits)

lemma poolLog_obs [simp]: "obs (poolLog E req en d) = obs d"
  unfolding poolLog_def using authLog_obs [of E req en "pool d"] by (cases "authLog E req en (pool d)") (simp add: pool_def)

section \<open>Login and the own account\<close>

lemma login_bodies_obs:
  "loginUnknown E req email t = Inr (t', out) \<Longrightarrow> obs (tx_db t') = obs (tx_db t)"
  "loginLocked E req u t = Inr (t', out) \<Longrightarrow> obs (tx_db t') = obs (tx_db t)"
  "loginWrong E req n s u t = Inr (t', out) \<Longrightarrow> obs (tx_db t') = obs (tx_db t)"
  "loginBranch E req u t = Inr (t', out) \<Longrightarrow> obs (tx_db t') = obs (tx_db t)"
  by (auto simp: loginUnknown_def loginLocked_def loginWrong_def loginBranch_def loginFailed_def loginSucceeded_def attempt_Inr
      dest!: ops_obs split: prod.splits sum.splits if_splits)

lemma loginBody_obs: "loginBody E req n s email pw t = Inr (t', out) \<Longrightarrow> obs (tx_db t') = obs (tx_db t)"
  by (auto simp: loginBody_def loginRight_def loginFailed_def attempt_Inr
      dest!: ops_obs login_bodies_obs split: prod.splits sum.splits if_splits option.splits)

lemma signIn_obs [simp]: "w_db (fst (signIn E secure req cs uid pend reply w)) = w_db w"
  by (auto simp: signIn_def split: prod.splits option.splits)

lemma finishLogin_db [simp]: "w_db (fst (finishLogin E h req ret out w)) = w_db w"
  by (cases out) (auto simp: startSecondFactor_def split: prod.splits option.splits bool.splits)

lemma pool_db [simp]: "tx_db (pool d) = d"
  by (simp add: pool_def)

lemma loginTx_obs: "inTx E site (loginBody E req n s email pw) d = (d', r) \<Longrightarrow> obs d' = obs d"
  by (erule inTx_obs) (auto dest: loginBody_obs)

lemma PostLogin_obs: "obs (w_db (fst (PostLogin E h req body w))) = obs (w_db w)"
  by (auto simp: PostLogin_def dest!: loginTx_obs split: option.splits sum.splits prod.splits)

lemma self_bodies_obs:
  "logoutBody E req u t = Inr (t', x) \<Longrightarrow> obs (tx_db t') = obs (tx_db t)"
  "changePasswordBody E req u hash t = Inr (t', x) \<Longrightarrow> obs (tx_db t') = obs (tx_db t)"
  "disableMfaBody E req u at t = Inr (t', x) \<Longrightarrow> obs (tx_db t') = obs (tx_db t)"
  by (auto simp: logoutBody_def changePasswordBody_def disableMfaBody_def selfAudit_def attempt_Inr dest!: ops_obs)

lemma self_tx_obs:
  "inTx E site (logoutBody E req u) d = (d', r) \<Longrightarrow> obs d' = obs d"
  "inTx E site (changePasswordBody E req u hash) d = (d', r) \<Longrightarrow> obs d' = obs d"
  "inTx E site (disableMfaBody E req u at) d = (d', r) \<Longrightarrow> obs d' = obs d"
  by (erule inTx_obs; drule self_bodies_obs; simp)+

lemma rotateSession_db [simp]: "w_db (fst (rotateSession E h req u pend w)) = w_db w"
  by (simp add: rotateSession_def Let_def)

lemma PostLogout_obs: "obs (w_db (fst (PostLogout E h req cu w))) = obs (w_db w)"
  by (auto simp: PostLogout_def dest!: self_tx_obs split: option.splits sum.splits prod.splits bool.splits)

lemma PostChangePassword_obs: "obs (w_db (fst (PostChangePassword E h req cu body w))) = obs (w_db w)"
  by (auto simp: PostChangePassword_def Let_def dest!: self_tx_obs split: option.splits sum.splits prod.splits)

lemma PostDisableMfa_obs: "obs (w_db (fst (PostDisableMfa E h req cu body w))) = obs (w_db w)"
  by (auto simp: PostDisableMfa_def dest!: self_tx_obs split: option.splits sum.splits prod.splits)

section \<open>The second factor\<close>

lemma mfa_bodies_obs:
  "completeBody E req uid enc hs authed t = Inr (t', u) \<Longrightarrow> obs (tx_db t') = obs (tx_db t)"
  "recoveryBody E req v cid t = Inr (t', x) \<Longrightarrow> obs (tx_db t') = obs (tx_db t)"
  "totpBody E req v uid n t = Inr (t', x) \<Longrightarrow> obs (tx_db t') = obs (tx_db t)"
  by (auto simp: completeBody_def recoveryBody_def totpBody_def selfAudit_def attempt_Inr dest!: ops_obs split: if_splits)

lemma mfa_tx_obs:
  "inTx E site (completeBody E req uid enc hs authed) d = (d', r1) \<Longrightarrow> obs d' = obs d"
  "inTx E site (recoveryBody E req v cid) d = (d', r2) \<Longrightarrow> obs d' = obs d"
  "inTx E site (totpBody E req v uid n) d = (d', r2) \<Longrightarrow> obs d' = obs d"
  by (erule inTx_obs; drule mfa_bodies_obs; simp)+

lemma writeChallengeFailedAudit_obs [simp]: "obs (writeChallengeFailedAudit E req userID reason d) = obs d"
proof -
  let ?actor = "if userID = [] then None else e_uuid_parse E userID"
  obtain t1 em where look: "(case ?actor of None \<Rightarrow> (pool d, [])
      | Some uid \<Rightarrow> (case UserGetByID E ''mfa.challengeFailed'' uid (pool d) of (t1, Inl e) \<Rightarrow> (t1, []) | (t1, Inr u) \<Rightarrow> (t1, u_Email u)))
      = (t1, em)" by (cases rule: prod.exhaust)
  have t1: "obs (tx_db t1) = obs d"
  proof (cases ?actor)
    case (Some uid)
    obtain t2 r where u: "UserGetByID E ''mfa.challengeFailed'' uid (pool d) = (t2, r)" by (cases rule: prod.exhaust)
    with look Some have "t1 = t2" by (cases r) simp_all
    with users_obs(2) [OF u] show ?thesis by simp
  qed (use look in auto)
  show ?thesis
  proof (cases "beginTx E ''mfa.challengeFailed'' d")
    case None
    then show ?thesis by (simp add: writeChallengeFailedAudit_def)
  next
    case (Some t)
    then have "t = pool d" by (simp add: beginTx_Some)
    obtain t2 r where l: "authLog E req \<lparr>en_EventType = ''mfa.challenge_failed'', en_ActorID = ?actor, en_ActorEmail = em,
        en_TargetType = ''user'', en_TargetID = userID, en_ClientID = None, en_IPAddress = authIP E req,
        en_Outcome = ''failure'', en_Metadata = Some [(''reason'', MStr reason)]\<rparr> t1 = (t2, r)" by (cases rule: prod.exhaust)
    have "writeChallengeFailedAudit E req userID reason d =
        (case r of Inl e \<Rightarrow> d | Inr _ \<Rightarrow> fst (commitTx E ''mfa.challengeFailed'' t2 d))"
      unfolding writeChallengeFailedAudit_def Let_def Some option.case \<open>t = pool d\<close> look fst_conv snd_conv l prod.case ..
    with authLog_obs [OF l] t1 show ?thesis by (cases r) (simp_all add: commitTx_def)
  qed
qed

lemma PostEnrollmentStart_obs: "obs (w_db (fst (PostEnrollmentStart E h req w))) = obs (w_db w)"
  by (auto simp: PostEnrollmentStart_def split: option.splits sum.splits prod.splits bool.splits)

lemma PostEnrollmentVerify_obs: "PostEnrollmentVerify E fuel req body w = Some (w', r) \<Longrightarrow> obs (w_db w') = obs (w_db w)"
  by (auto simp: PostEnrollmentVerify_def split: option.splits prod.splits vreply.splits if_splits)

lemma PostEnrollmentComplete_obs: "obs (w_db (fst (PostEnrollmentComplete E h req body w))) = obs (w_db w)"
  by (auto simp: PostEnrollmentComplete_def Let_def dest!: mfa_tx_obs split: option.splits sum.splits prod.splits)

lemma verify_obs:
  "obs (w_db (fst (verifyRecoveryCode E h req u code key ret w))) = obs (w_db w)"
  "obs (w_db (fst (verifyTotp E h req u uid code n key ret w))) = obs (w_db w)"
  "obs (w_db (fst (invalidCode E req uid n key w))) = obs (w_db w)"
  by (auto simp: verifyRecoveryCode_def verifyTotp_def invalidCode_def passChallenge_def dest!: mfa_tx_obs
      split: option.splits sum.splits prod.splits)

lemma PostChallenge_obs: "obs (w_db (fst (PostChallenge E h req body w))) = obs (w_db w)"
  by (auto simp: PostChallenge_def challengeChecked_def Let_def verify_obs split: option.splits sum.splits prod.splits vreply.splits)

section \<open>Password reset\<close>

lemma requestTx_obs: "inTx E site (requestBody E h req u tok) d = (d', r) \<Longrightarrow> obs d' = obs d"
  by (erule inTx_obs) (auto simp: requestBody_def selfAudit_def attempt_Inr dest!: ops_obs)

lemma PostRequest_obs: "obs (w_db (fst (fst (PostRequest E h req body w)))) = obs (w_db w)"
  by (auto simp: PostRequest_def requestFor_def Let_def unmatchedAudit_def adminBlocked_def dest!: requestTx_obs
      split: option.splits sum.splits prod.splits)

lemma confirmBody_obs: "confirmBody E h req tok pw t = Inr (t', uid) \<Longrightarrow> obs (tx_db t') = obs (tx_db t)"
  by (auto simp: confirmBody_def confirmWrites_def resetAudit_def attempt_Inr dest!: ops_obs split: if_splits option.splits)

lemma PostConfirm_obs: "obs (w_db (fst (PostConfirm E h req body w))) = obs (w_db w)"
  by (auto simp: PostConfirm_def beginTx_Some commitTx_def finishConfirm_def auditConfirmFailed_def Let_def dest!: confirmBody_obs
      split: option.splits sum.splits prod.splits confirmStop.splits bool.splits)

section \<open>The OAuth endpoints\<close>

lemma audits_obs [simp]:
  "obs (authorizeBestEffortAudit E req en d) = obs d" "obs (writeBestEffortAudit E req en d) = obs d"
  "obs (userinfoBestEffortAudit E req en d) = obs d"
  by (simp_all add: authorizeBestEffortAudit_def writeBestEffortAudit_def userinfoBestEffortAudit_def bestEffortAudit_obs)

lemma issueCode_obs: "issueCode E r uri client u p d = (d', resp) \<Longrightarrow> obs d' = obs d"
  by (auto simp: issueCode_def Let_def beginTx_Some commitTx_def dest!: ops_obs split: option.splits sum.splits prod.splits if_splits)

lemma renderLocalError_obs: "renderLocalError E req ua ae extra d = (d', resp) \<Longrightarrow> obs d' = obs d"
  by (auto simp: renderLocalError_def Let_def)

lemma AuthorizeHandle_obs: "obs (w_db (fst (AuthorizeHandle E r u w))) = obs (w_db w)"
proof -
  have "obs (w_db (fst (forceLogin E r uri p u v))) = obs (w_db v)" for uri p v
    by (auto simp: forceLogin_def Let_def split: option.splits)
  then show ?thesis
    by (auto simp: AuthorizeHandle_def Let_def dest!: renderLocalError_obs issueCode_obs
        split: option.splits sum.splits prod.splits bool.splits)
qed

lemma authenticate_obs: "authenticate E h req md cid secret w = (w', r) \<Longrightarrow> obs (w_db w') = obs (w_db w)"
  by (auto simp: authenticate_def Let_def split: prod.splits sum.splits if_splits)

lemma refuseCode_obs: "refuseCode E req en reply t d = (d', r) \<Longrightarrow> obs (tx_db t) = obs d \<Longrightarrow> obs d' = obs d"
  by (auto simp: refuseCode_def commitTx_def dest!: Log_obs split: prod.splits if_splits)

lemma finishCode_obs: "obs (tx_db t) = obs (w_db w) \<Longrightarrow> obs (w_db (fst (finishCode E req client row u scopes m t w))) = obs (w_db w)"
  by (auto simp: finishCode_def commitTx_def dest!: Log_obs split: prod.splits option.splits sum.splits bool.splits)

lemma handleCodeReplay_obs: "obs (w_db (fst (handleCodeReplay E req hash w))) = obs (w_db w)"
  by (auto simp: handleCodeReplay_def Let_def commitTx_def beginTx_Some dest!: Log_obs
      split: sum.splits option.splits prod.splits)

lemma exchangeCode_obs:
  assumes "obs (tx_db t) = obs (w_db w)"
  shows "obs (w_db (fst (exchangeCode E h r client row t w))) = obs (w_db w)"
  using assms
  by (auto simp: exchangeCode_def Let_def finishCode_obs dest!: checkCodeUser_codes signCodeTokens_Inr refuseCode_obs
      split: option.splits prod.splits sum.splits)

lemma handleAuthorizationCode_obs: "obs (w_db (fst (handleAuthorizationCode E h r w))) = obs (w_db w)"
  by (auto simp: handleAuthorizationCode_def Let_def beginTx_Some codeClientAuth_def handleCodeReplay_obs exchangeCode_obs
      dest!: authenticate_obs auth_stores_obs(9) split: option.splits prod.splits sum.splits)

lemma refresh_steps_obs:
  "obs (w_db (fst (refreshReuse E req client p w))) = obs (w_db w)"
  "enforceUser E req client p u w = (w', x) \<Longrightarrow> obs (w_db w') = obs (w_db w)"
  "obs (w_db (fst (rotateRefresh E req tok client p u scopes m w))) = obs (w_db w)"
  by (auto simp: refreshReuse_def enforceUser_def rotateRefresh_def Let_def commitTx_def beginTx_Some dest!: Log_obs
      split: prod.splits cutoff.splits option.splits sum.splits bool.splits if_splits)

lemma exchangeRefresh_obs: "obs (w_db (fst (exchangeRefresh E h req tok client p w))) = obs (w_db w)"
  by (auto simp: exchangeRefresh_def refresh_steps_obs dest!: refresh_steps_obs(2) split: sum.splits prod.splits option.splits)

lemma handleRefreshToken_obs: "obs (w_db (fst (handleRefreshToken E h r w))) = obs (w_db w)"
  by (auto simp: handleRefreshToken_def Let_def refreshClientAuth_def refresh_steps_obs exchangeRefresh_obs
      dest!: authenticate_obs split: sum.splits prod.splits consumeResult.splits)

lemma TokenHandle_obs: "obs (w_db (fst (TokenHandle E h r w))) = obs (w_db w)"
  by (simp add: TokenHandle_def handleAuthorizationCode_obs handleRefreshToken_obs)

lemma userinfoRoute_obs: "obs (w_db (fst (userinfoRoute E deps req hdr w))) = obs (w_db w)"
  by (auto simp: userinfoRoute_def UserInfoHandle_def BearerAuth_def Let_def split: prod.splits option.splits sum.splits bearerResult.splits)

end

end
