(* ===== verification/SelfService.thy ===== *)
theory SelfService
  imports LoginProps PasswordReset
begin

text \<open>
  What users change about their own account: the password, with the old one or with a mailed token, and
  the second factor. Each of these ends sessions and cuts off tokens, and each needs a proof of who asks.
\<close>

section \<open>Changing the own password\<close>

lemma selfAudit_Inr:
  "selfAudit E req u event meta t = (t', Inr x) \<Longrightarrow> db_users (tx_db t') = db_users (tx_db t) \<and>
     db_recovery_codes (tx_db t') = db_recovery_codes (tx_db t) \<and> db_reset_tokens (tx_db t') = db_reset_tokens (tx_db t)"
  unfolding selfAudit_def by (simp add: authLog_Inr)

definition newPassword :: "'k env \<Rightarrow> string \<Rightarrow> User \<Rightarrow> User" where
  "newPassword E hash u = u\<lparr>u_PasswordHash := hash, u_ForcePasswordChange := False, u_UpdatedAt := e_pg_now E\<rparr>"

lemma changePasswordBody_rows:
  "changePasswordBody E req current hash t = Inr (t', x) \<Longrightarrow> db_users (tx_db t') =
     map (\<lambda>u. if u_ID u = u_ID current then newPassword E hash u else u) (db_users (tx_db t))"
  by (auto simp: changePasswordBody_def attempt_Inr newPassword_def dest!: selfAudit_Inr SetPasswordHash_rows)

lemma readPending_sessions:
  assumes srv: "valkey_service (e_valkey E) view" and inv: "session_inv (view k)" and p: "readPending E req k = (k', ret)"
  shows "session_inv (view k') \<and>
    (\<forall>t. cookieOf req ''schlass_session'' \<noteq> Some t \<longrightarrow> liveSession (view k') t = liveSession (view k) t)"
proof (cases "cookieOf req ''schlass_session''")
  case (Some token)
  obtain k1 r where g: "sessionGet E sessionTTL token k = (k1, r)" by (cases rule: prod.exhaust)
  with p Some have "k' = k1" by (auto simp: readPending_def split: sessionResult.splits)
  with valkey_service.session_get [OF srv refl inv sessionTTL_pos g] Some show ?thesis
    by (auto split: option.splits)
qed (use p inv in \<open>simp add: readPending_def\<close>)

lemma RevokeBeforeSetNow_view:
  assumes srv: "valkey_service (e_valkey E) view"
  shows "view (fst (RevokeBeforeSetNow E u k)) =
    (view k)(revokeBeforeKey u \<mapsto> (VStr (Decimal (Unix (e_go_now E) + 1)), Some revokeBeforeTTL))"
proof -
  let ?t = "truncateSecond (e_go_now E) + second"
  obtain r k2 where v: "e_valkey E (SET (revokeBeforeKey u) (Decimal (Unix ?t)) revokeBeforeTTL) k = (r, k2)"
    by (cases rule: prod.exhaust)
  have "0 < revokeBeforeTTL" by (simp add: revokeBeforeTTL_def second_def)
  with valkey_service.serve [OF srv v]
  have "view k2 = (view k)(revokeBeforeKey u \<mapsto> (VStr (Decimal (Unix ?t)), Some revokeBeforeTTL))" by auto
  moreover have "fst (RevokeBeforeSetNow E u k) = k2" using v by (simp add: RevokeBeforeSetNow_def RevokeBeforeSet_def)
  ultimately show ?thesis by (simp add: Unix_truncate_next)
qed

lemma session_inv_frame: "session_inv (m(revokeBeforeKey u := x)) = session_inv m"
  by (rule sessions_frame(2) [of "revokeBeforeKey u"]) simp_all

lemma rotateSession_signed_in:
  assumes srv: "valkey_service (e_valkey E) view" and inv: "session_inv (view (w_vk w))"
    and s: "rotateSession E h req current ret w = (w', cs, WriteJSON 200 reply)"
  defines "uid \<equiv> e_uuid_string E (u_ID current)"
  shows "\<exists>tok. cs = [SetCookie tok (ah_CookieSecure h)] \<and> w_db w' = w_db w \<and> session_inv (view (w_vk w')) \<and> reply = PasswordChanged ret \<and>
    liveSession (view (w_vk w')) =
      (case cookieOf req ''schlass_session'' of None \<Rightarrow> liveSession (view (w_vk w))
       | Some old \<Rightarrow> (liveSession (view (w_vk w)))(old := None))(tok \<mapsto> newSession E req (u_ID current) []) \<and>
    view (w_vk w') (revokeBeforeKey uid) = Some (VStr (Decimal (Unix (e_go_now E) + 1)), Some revokeBeforeTTL)"
proof -
  define k1 where "k1 = fst (RevokeBeforeSetNow E uid (w_vk w))"
  define k2 where "k2 = (case cookieOf req ''schlass_session'' of None \<Rightarrow> k1 | Some token \<Rightarrow> fst (sessionDelete E uid token k1))"
  have k1: "session_inv (view k1)" "liveSession (view k1) = liveSession (view (w_vk w))"
    "view k1 (revokeBeforeKey uid) = Some (VStr (Decimal (Unix (e_go_now E) + 1)), Some revokeBeforeTTL)"
    using inv unfolding k1_def RevokeBeforeSetNow_view [OF srv] session_inv_frame session_frame by simp_all
  have k2: "session_inv (view k2)" "liveSession (view k2) = (case cookieOf req ''schlass_session'' of None \<Rightarrow> liveSession (view (w_vk w))
       | Some old \<Rightarrow> (liveSession (view (w_vk w)))(old := None))" "view k2 (revokeBeforeKey uid) = view k1 (revokeBeforeKey uid)"
    using k1 valkey_service.session_delete [OF srv refl k1(1), of uid]
      valkey_service.session_other_keys(2) [OF srv refl mfa_keys_free(3), of uid _ k1]
    by (auto simp: k2_def split: option.splits) (metis prod.collapse)+
  have sg: "signIn E (ah_CookieSecure h) req [] (u_ID current) [] (PasswordChanged ret) (w\<lparr>w_vk := k2\<rparr>) = (w', cs, WriteJSON 200 reply)"
    using s unfolding rotateSession_def Let_def k1_def k2_def uid_def .
  have key: "view (w_vk w') (revokeBeforeKey uid) = view k2 (revokeBeforeKey uid)"
    using sg valkey_service.session_other_keys(1) [OF srv refl mfa_keys_free(3)]
    by (auto simp: signIn_def split: prod.splits option.splits)
  have inv2: "session_inv (view (w_vk (w\<lparr>w_vk := k2\<rparr>)))" using k2 by simp
  from srv inv2 sg show ?thesis
  proof (cases rule: signIn_cases)
    case no_entropy
    then show ?thesis by (simp add: internalError_def)
  next
    case (signed_in tok)
    with k1(3) k2 key show ?thesis by (intro exI [of _ tok]) simp
  qed
qed

lemma PostChangePassword_OK:
  assumes call: "PostChangePassword E h req (Some current) body w = (w', cs, WriteJSON 200 reply)"
  obtains b k ret policy hash t where "body = Some b" "readPending E req (w_vk w) = (k, ret)"
    "VerifyPassword E (cpr_CurrentPassword b) (u_PasswordHash current) = Some True"
    "snd (readPasswordPolicy E (pool (w_db w))) = Inr policy" "vetPassword E (ah_HIBP h) (cpr_NewPassword b) policy = None"
    "HashPassword E ''auth.PostChangePassword'' 0 (cpr_NewPassword b) = Some hash"
    "changePasswordBody E req current hash (pool (w_db w)) = Inr (t, ())"
    "rotateSession E h req current ret (w\<lparr>w_vk := k, w_db := tx_db t\<rparr>) = (w', cs, WriteJSON 200 reply)"
proof -
  obtain k ret where p: "readPending E req (w_vk w) = (k, ret)" by (cases rule: prod.exhaust)
  obtain b where b: "body = Some b" using call p by (cases body) (auto simp: PostChangePassword_def Let_def invalidBody_def)
  have pw: "VerifyPassword E (cpr_CurrentPassword b) (u_PasswordHash current) = Some True"
    using call p b by (cases "VerifyPassword E (cpr_CurrentPassword b) (u_PasswordHash current)")
      (auto simp: PostChangePassword_def Let_def internalError_def split: if_splits)
  obtain policy where pol: "snd (readPasswordPolicy E (pool (w_db w))) = Inr policy"
    using call p b pw by (cases "snd (readPasswordPolicy E (pool (w_db w)))") (auto simp: PostChangePassword_def Let_def internalError_def)
  have vet: "vetPassword E (ah_HIBP h) (cpr_NewPassword b) policy = None"
    using call p b pw pol by (auto simp: PostChangePassword_def Let_def vetPassword_def breachedPassword_def split: option.splits if_splits)
  obtain hash where hash: "HashPassword E ''auth.PostChangePassword'' 0 (cpr_NewPassword b) = Some hash"
    using call p b pw pol vet by (cases "HashPassword E ''auth.PostChangePassword'' 0 (cpr_NewPassword b)")
      (auto simp: PostChangePassword_def Let_def internalError_def)
  obtain d x where tx: "inTx E ''auth.PostChangePassword'' (changePasswordBody E req current hash) (w_db w) = (d, x)"
    by (cases rule: prod.exhaust)
  have stops: "failure r" if "changePasswordBody E req current hash t = Inl r" for t r
    using that by (auto simp: changePasswordBody_def attempt_Inl)
  from tx show thesis
  proof (cases rule: inTx_cases)
    case (rolled_back resp)
    with tx stops have "failure resp" by (auto simp: inTx_def split: option.splits sum.splits prod.splits bool.splits)
    with call p b pw pol vet hash tx rolled_back show thesis by (simp add: PostChangePassword_def Let_def)
  next
    case (committed t a)
    with call p b pw pol vet hash tx that [of b k ret policy hash t] show thesis by (simp add: PostChangePassword_def Let_def)
  qed
qed

text \<open>C19. Changing the own password, while Valkey answers: a success means that the current password was right and the
  new one satisfies the policy of the instance and was not found in a breach; from then on the new password is
  the one of the user's row, no change is pending, and no other row was touched. Tokens issued up to the
  current second are cut off, the session of the request is replaced by a new one, whose cookie the answer
  sets, and every other session, also the user's own ones elsewhere, stays as it was: only tokens are cut off,
  not the user's other sessions.\<close>

theorem change_password_works:
  assumes call: "PostChangePassword E h req (Some current) body w = (w', cs, WriteJSON 200 reply)"
    and laws: "argon2_laws E" and srv: "valkey_service (e_valkey E) view" and inv: "session_inv (view (w_vk w))"
  shows "\<exists>b policy hash tok. body = Some b \<and>
    VerifyPassword E (cpr_CurrentPassword b) (u_PasswordHash current) = Some True \<and>
    snd (readPasswordPolicy E (pool (w_db w))) = Inr policy \<and> validatePassword E (cpr_NewPassword b) policy = None \<and>
    IsPwned E (ah_HIBP h) (cpr_NewPassword b) \<noteq> Some True \<and>
    db_users (w_db w') = map (\<lambda>u. if u_ID u = u_ID current then newPassword E hash u else u) (db_users (w_db w)) \<and>
    VerifyPassword E (cpr_NewPassword b) hash = Some True \<and>
    view (w_vk w') (revokeBeforeKey (e_uuid_string E (u_ID current))) =
      Some (VStr (Decimal (Unix (e_go_now E) + 1)), Some revokeBeforeTTL) \<and>
    cs = [SetCookie tok (ah_CookieSecure h)] \<and> session_inv (view (w_vk w')) \<and>
    (\<forall>t. liveSession (view (w_vk w')) t =
      (if t = tok then Some (newSession E req (u_ID current) [])
       else if cookieOf req ''schlass_session'' = Some t then None
       else liveSession (view (w_vk w)) t))"
proof -
  from call obtain b k ret policy hash t where g: "body = Some b" "readPending E req (w_vk w) = (k, ret)"
    "VerifyPassword E (cpr_CurrentPassword b) (u_PasswordHash current) = Some True"
    "snd (readPasswordPolicy E (pool (w_db w))) = Inr policy" "vetPassword E (ah_HIBP h) (cpr_NewPassword b) policy = None"
    "HashPassword E ''auth.PostChangePassword'' 0 (cpr_NewPassword b) = Some hash"
    "changePasswordBody E req current hash (pool (w_db w)) = Inr (t, ())"
    "rotateSession E h req current ret (w\<lparr>w_vk := k, w_db := tx_db t\<rparr>) = (w', cs, WriteJSON 200 reply)"
    by (rule PostChangePassword_OK)
  note pend = readPending_sessions [OF srv inv g(2)]
  have inv1: "session_inv (view (w_vk (w\<lparr>w_vk := k, w_db := tx_db t\<rparr>)))" using pend by simp
  have sel: "w_vk (w\<lparr>w_vk := k, w_db := tx_db t\<rparr>) = k" "w_db (w\<lparr>w_vk := k, w_db := tx_db t\<rparr>) = tx_db t" by simp_all
  from rotateSession_signed_in [OF srv inv1 g(8), unfolded sel] obtain tok where
    r: "cs = [SetCookie tok (ah_CookieSecure h)]" "w_db w' = tx_db t" "session_inv (view (w_vk w'))"
      "liveSession (view (w_vk w')) = (case cookieOf req ''schlass_session'' of None \<Rightarrow> liveSession (view k)
         | Some old \<Rightarrow> (liveSession (view k))(old := None))(tok \<mapsto> newSession E req (u_ID current) [])"
      "view (w_vk w') (revokeBeforeKey (e_uuid_string E (u_ID current))) =
         Some (VStr (Decimal (Unix (e_go_now E) + 1)), Some revokeBeforeTTL)" by blast
  have vet: "validatePassword E (cpr_NewPassword b) policy = None" "IsPwned E (ah_HIBP h) (cpr_NewPassword b) \<noteq> Some True"
    using g(5) by (auto simp: vetPassword_def breachedPassword_def split: option.splits if_splits)
  have "liveSession (view (w_vk w')) t' = (if t' = tok then Some (newSession E req (u_ID current) [])
       else if cookieOf req ''schlass_session'' = Some t' then None else liveSession (view (w_vk w)) t')" for t'
    using pend by (auto simp: r(4) split: option.splits)
  with g vet r changePasswordBody_rows [OF g(7)] VerifyPassword_HashPassword_accepts [OF laws g(6)] show ?thesis
    by (intro exI [of _ b] exI [of _ policy] exI [of _ hash] exI [of _ tok]) simp
qed

definition samplePassword :: changePasswordRequest where
  "samplePassword = \<lparr>cpr_CurrentPassword = ''Correct1horse'', cpr_NewPassword = ''Battery2staple''\<rparr>"

lemma sample_policy:
  "snd (readPasswordPolicy sampleEnv (pool (w_db sampleLoginWorld))) =
     Inr \<lparr>pp_MinLength = 8, pp_RequireUpper = True, pp_RequireDigit = True\<rparr>"
  by (simp add: readPasswordPolicy_def GetInt_def GetBool_def configGet_def query_def stmt_def sampleLoginWorld_def)

lemma sample_vet:
  "vetPassword sampleEnv None ''Battery2staple'' \<lparr>pp_MinLength = 8, pp_RequireUpper = True, pp_RequireDigit = True\<rparr> = None"
  by (simp add: vetPassword_def breachedPassword_def validatePassword_def IsPwned_def sampleEnv_def isDigitByte_def)

lemma sample_changed:
  obtains w' cs reply where "PostChangePassword sampleEnv sampleAuthHandler (sampleAuthRequest []) (Some sampleMember)
      (Some samplePassword) sampleLoginWorld = (w', cs, WriteJSON 200 reply)"
proof -
  let ?req = "sampleAuthRequest []"
  obtain hash where hash: "HashPassword sampleEnv ''auth.PostChangePassword'' 0 ''Battery2staple'' = Some hash"
    by (simp add: HashPassword_def sampleEnv_def)
  obtain t where t: "changePasswordBody sampleEnv ?req sampleMember hash (pool (w_db sampleLoginWorld)) = Inr (t, ())" "\<not> tx_aborted t"
    by (simp add: changePasswordBody_def attempt_def SetPasswordHash_def stmt_def updUsers_def needRow_def sample_users
        selfAudit_def authLog_def Log_def selfEntry_def authIP_def clientIP_def extractClientIP_def sampleAuthRequest_def)
  have tx: "inTx sampleEnv ''auth.PostChangePassword'' (changePasswordBody sampleEnv ?req sampleMember hash) (w_db sampleLoginWorld)
      = (tx_db t, Inr ())" using t by (auto simp: inTx_Inr)
  let ?w = "sampleLoginWorld\<lparr>w_db := tx_db t\<rparr>"
  obtain w' cs r where rs: "rotateSession sampleEnv sampleAuthHandler ?req sampleMember [] ?w = (w', cs, r)" by (cases rule: prod_cases3)
  have pend: "readPending sampleEnv ?req (w_vk sampleLoginWorld) = (w_vk sampleLoginWorld, [])"
    by (simp add: readPending_def cookieOf_def sampleAuthRequest_def)
  have call: "PostChangePassword sampleEnv sampleAuthHandler ?req (Some sampleMember) (Some samplePassword) sampleLoginWorld = (w', cs, r)"
    using pend sample_password sample_policy sample_vet hash tx rs
    by (simp add: PostChangePassword_def samplePassword_def sample_member sampleAuthHandler_def)
  let ?k = "fst (RevokeBeforeSetNow sampleEnv (e_uuid_string sampleEnv (u_ID sampleMember)) (w_vk sampleLoginWorld))"
  have "session_inv ?k"
    using RevokeBeforeSetNow_view [OF sampleServer] sample_space by (simp only: session_inv_frame)
  then have inv: "session_inv (w_vk (?w\<lparr>w_vk := ?k\<rparr>))" by simp
  have "signIn sampleEnv True ?req [] (u_ID sampleMember) [] (PasswordChanged []) (?w\<lparr>w_vk := ?k\<rparr>) = (w', cs, r)"
    using rs by (simp add: rotateSession_def Let_def cookieOf_def sampleAuthRequest_def sampleAuthHandler_def)
  with sampleServer inv have "\<exists>reply. r = WriteJSON 200 reply"
    by (cases rule: signIn_cases [where view = "\<lambda>m. m"]) auto
  with call that show thesis by blast
qed

theorem change_password_works_witness:
  "\<exists>w' cs reply hash. PostChangePassword sampleEnv sampleAuthHandler (sampleAuthRequest []) (Some sampleMember)
      (Some samplePassword) sampleLoginWorld = (w', cs, WriteJSON 200 reply) \<and>
     db_users (w_db w') = [newPassword sampleEnv hash sampleMember] \<and> VerifyPassword sampleEnv ''Battery2staple'' hash = Some True"
proof -
  obtain w' cs reply where c: "PostChangePassword sampleEnv sampleAuthHandler (sampleAuthRequest []) (Some sampleMember)
      (Some samplePassword) sampleLoginWorld = (w', cs, WriteJSON 200 reply)" by (rule sample_changed)
  from change_password_works [where view = "\<lambda>m. m", OF c sampleEnv_laws(3) sampleServer sample_space] obtain hash where
    "db_users (w_db w') = [newPassword sampleEnv hash sampleMember]" "VerifyPassword sampleEnv ''Battery2staple'' hash = Some True"
    by (auto simp: sample_users samplePassword_def)
  with c show ?thesis by blast
qed

section \<open>Removing the second factor\<close>

definition withoutTOTP :: "User \<Rightarrow> User" where
  "withoutTOTP u = u\<lparr>u_TOTPSecretEncrypted := None, u_TOTPEnrolledAt := None, u_LastUsedTOTPCounter := 0\<rparr>"

lemma disableMfaBody_rows:
  "disableMfaBody E req current at t = Inr (t', x) \<Longrightarrow>
     db_users (tx_db t') = map (\<lambda>u. if u_ID u = u_ID current then withoutTOTP u else u) (db_users (tx_db t)) \<and>
     db_recovery_codes (tx_db t') = filter (\<lambda>c. rc_UserID c \<noteq> u_ID current) (db_recovery_codes (tx_db t))"
  by (auto simp: disableMfaBody_def attempt_Inr withoutTOTP_def ClearTOTP_def ignoreCount_Inr stmt_Inr updUsers_def
      dest!: selfAudit_Inr RecoveryDeleteAll_Inr)

lemma PostDisableMfa_OK:
  assumes call: "PostDisableMfa E h req (Some current) body w = (w', cs, WriteJSON 200 reply)"
  obtains pw at full t where "body = Some pw" "u_TOTPEnrolledAt current = Some at"
    "snd (UserGetByID E ''auth.PostDisableMfa'' (u_ID current) (pool (w_db w))) = Inr full"
    "VerifyPassword E pw (u_PasswordHash full) = Some True"
    "disableMfaBody E req current at (pool (w_db w)) = Inr (t, ())"
    "w_db w' = tx_db t" "w_vk w' = revokeAccess E (u_ID current) (w_vk w)"
proof -
  obtain pw where b: "body = Some pw" using call by (cases body) (auto simp: PostDisableMfa_def invalidBody_def)
  obtain at where at: "u_TOTPEnrolledAt current = Some at"
    using call b by (cases "u_TOTPEnrolledAt current") (auto simp: PostDisableMfa_def)
  obtain full where full: "snd (UserGetByID E ''auth.PostDisableMfa'' (u_ID current) (pool (w_db w))) = Inr full"
    using call b at by (cases "snd (UserGetByID E ''auth.PostDisableMfa'' (u_ID current) (pool (w_db w)))")
      (auto simp: PostDisableMfa_def internalError_def)
  have pw: "VerifyPassword E pw (u_PasswordHash full) = Some True"
    using call b at full by (cases "VerifyPassword E pw (u_PasswordHash full)")
      (auto simp: PostDisableMfa_def internalError_def split: if_splits)
  obtain d x where tx: "inTx E ''auth.PostDisableMfa'' (disableMfaBody E req current at) (w_db w) = (d, x)"
    by (cases rule: prod.exhaust)
  have stops: "failure r" if "disableMfaBody E req current at t = Inl r" for t r
    using that by (auto simp: disableMfaBody_def attempt_Inl)
  from tx show thesis
  proof (cases rule: inTx_cases)
    case (rolled_back resp)
    with tx stops have "failure resp" by (auto simp: inTx_def split: option.splits sum.splits prod.splits bool.splits)
    with call b at full pw tx rolled_back show thesis by (simp add: PostDisableMfa_def)
  next
    case (committed t a)
    with call b at full pw tx that [of pw at full t] show thesis by (auto simp: PostDisableMfa_def)
  qed
qed

text \<open>Removing the own second factor: a success means that the user had one and knew the password that is
  stored now; the shared secret, its counter and all recovery codes of the user are gone, no other row has
  changed, no session of the user is left and the user's tokens are cut off.\<close>

lemma disable_mfa_works:
  assumes call: "PostDisableMfa E h req (Some current) body w = (w', cs, WriteJSON 200 reply)"
    and srv: "valkey_service (e_valkey E) view" and inv: "session_inv (view (w_vk w))"
  shows "\<exists>pw full. body = Some pw \<and> u_TOTPEnrolledAt current \<noteq> None \<and>
    find (\<lambda>u. u_ID u = u_ID current) (db_users (w_db w)) = Some full \<and>
    VerifyPassword E pw (u_PasswordHash full) = Some True \<and>
    db_users (w_db w') = map (\<lambda>u. if u_ID u = u_ID current then withoutTOTP u else u) (db_users (w_db w)) \<and>
    db_recovery_codes (w_db w') = filter (\<lambda>c. rc_UserID c \<noteq> u_ID current) (db_recovery_codes (w_db w)) \<and>
    accessRevoked E view (u_ID current) (w_vk w')"
proof -
  from call obtain pw at full t where g: "body = Some pw" "u_TOTPEnrolledAt current = Some at"
    "snd (UserGetByID E ''auth.PostDisableMfa'' (u_ID current) (pool (w_db w))) = Inr full"
    "VerifyPassword E pw (u_PasswordHash full) = Some True" "disableMfaBody E req current at (pool (w_db w)) = Inr (t, ())"
    "w_db w' = tx_db t" "w_vk w' = revokeAccess E (u_ID current) (w_vk w)"
    by (rule PostDisableMfa_OK)
  have "find (\<lambda>u. u_ID u = u_ID current) (db_users (w_db w)) = Some full"
    using g(3) UserGetByID_Inr [of E "''auth.PostDisableMfa''" "u_ID current" "pool (w_db w)" _ full]
    by (cases "UserGetByID E ''auth.PostDisableMfa'' (u_ID current) (pool (w_db w))") auto
  with g disableMfaBody_rows [OF g(5)] revokeAccess_view [OF srv inv] show ?thesis
    by (intro exI [of _ pw] exI [of _ full]) simp
qed

definition sampleEnrolled :: User where
  "sampleEnrolled = sampleMember\<lparr>u_TOTPEnrolledAt := Some 0, u_TOTPSecretEncrypted := Some ''secret''\<rparr>"

definition sampleEnrolledWorld :: "kspace world" where
  "sampleEnrolledWorld = sampleLoginWorld\<lparr>w_db := (w_db sampleLoginWorld)\<lparr>db_users := [sampleEnrolled]\<rparr>\<rparr>"

lemma sample_enrolled: "u_ID sampleEnrolled = 7" "u_PasswordHash sampleEnrolled = sampleHash" "u_TOTPEnrolledAt sampleEnrolled = Some 0"
  using sample_member by (simp_all add: sampleEnrolled_def)

section \<open>Password reset\<close>

lemma finishConfirm_revokes:
  assumes srv: "valkey_service (e_valkey E) view" and inv: "session_inv (view (w_vk w))" and f: "finishConfirm E uid w = (w', ms, r)"
  shows "accessRevoked E view uid (w_vk w') \<and> w_db w' = w_db w \<and> r = WriteJSON 200 (ResetOf (e_uuid_string E uid))"
proof -
  let ?u = "e_uuid_string E uid"
  define k1 where "k1 = fst (RevokeBeforeSetNow E ?u (w_vk w))"
  obtain k2 b where d: "DeleteAllForUser E ?u k1 = (k2, b)" by (cases rule: prod.exhaust)
  have k1: "session_inv (view k1)" "view k1 (revokeBeforeKey ?u) = Some (VStr (Decimal (Unix (e_go_now E) + 1)), Some revokeBeforeTTL)"
    using inv unfolding k1_def RevokeBeforeSetNow_view [OF srv] session_inv_frame by simp_all
  have "w_vk w' = k2" "w_db w' = w_db w" "r = WriteJSON 200 (ResetOf ?u)"
    using f d by (auto simp: finishConfirm_def Let_def k1_def)
  with valkey_service.session_deleteAll [OF srv refl k1(1) d]
    valkey_service.session_other_keys(3) [OF srv refl mfa_keys_free(3) d] k1(2)
  show ?thesis by (auto simp: accessRevoked_def)
qed

definition resetUser :: "'k env \<Rightarrow> string \<Rightarrow> User \<Rightarrow> User" where
  "resetUser E hash u = (newPassword E hash u)\<lparr>u_FailedLoginAttempts := 0, u_LockedUntil := None\<rparr>"

lemma resetAudit_Inr:
  "resetAudit E req uid event meta t = (t', Inr x) \<Longrightarrow> db_users (tx_db t') = db_users (tx_db t) \<and>
     db_reset_tokens (tx_db t') = db_reset_tokens (tx_db t)"
  unfolding resetAudit_def by (simp add: authLog_Inr)

lemma confirmWrites_rows:
  assumes "confirmWrites E req token hash t = Inr (t', uid)"
  shows "uid = pr_UserID token"
    and "db_users (tx_db t') = map (\<lambda>u. if u_ID u = uid then resetUser E hash u else u) (db_users (tx_db t))"
    and "db_reset_tokens (tx_db t') =
      map (\<lambda>r. if prt_ID r = pr_ID token then r\<lparr>prt_UsedAt := Some (e_pg_now E)\<rparr> else r) (db_reset_tokens (tx_db t))"
proof -
  from assms obtain t1 t2 t3 where s: "SetPasswordHash E (pr_UserID token) hash False t = (t1, Inr ())"
    "ClearLockoutForPasswordChange E (pr_UserID token) t1 = (t2, Inr ())" "ResetMarkUsed E (pr_ID token) t2 = (t3, Inr ())"
    and u: "uid = pr_UserID token" and rest: "db_users (tx_db t') = db_users (tx_db t3)" "db_reset_tokens (tx_db t') = db_reset_tokens (tx_db t3)"
    by (auto simp: confirmWrites_def attempt_Inr dest!: resetAudit_Inr)
  show "uid = pr_UserID token" by (rule u)
  have "db_users (tx_db t3) = db_users (tx_db t2)"
    "db_reset_tokens (tx_db t3) = map (\<lambda>r. if prt_ID r = pr_ID token then r\<lparr>prt_UsedAt := Some (e_pg_now E)\<rparr> else r) (db_reset_tokens (tx_db t2))"
    using s(3) by (auto simp: ResetMarkUsed_def ignoreCount_Inr stmt_Inr updTokens_def)
  moreover have "db_reset_tokens (tx_db t2) = db_reset_tokens (tx_db t)"
    using s(1,2) by (auto simp: SetPasswordHash_def ClearLockoutForPasswordChange_def needRow_Inr ignoreCount_Inr stmt_Inr updUsers_def)
  ultimately show "db_reset_tokens (tx_db t') =
      map (\<lambda>r. if prt_ID r = pr_ID token then r\<lparr>prt_UsedAt := Some (e_pg_now E)\<rparr> else r) (db_reset_tokens (tx_db t))"
    and "db_users (tx_db t') = map (\<lambda>u. if u_ID u = uid then resetUser E hash u else u) (db_users (tx_db t))"
    using rest u ClearLockout_rows [OF s(2)] SetPasswordHash_rows [OF s(1)]
    by (auto simp: resetUser_def newPassword_def)
qed

lemma GetByTokenForUpdate_Inr:
  "GetByTokenForUpdate E pepper tok t = (t', Inr x) \<Longrightarrow> t' = t \<and> (\<exists>row. findToken E pepper tok (tx_db t) = Some row \<and> x = scanToken row)"
  by (cases "findToken E pepper tok (tx_db t)") (auto simp: GetByTokenForUpdate_def needOne_Inr query_Inr)

lemma readPasswordPolicy_Inr: "readPasswordPolicy E t = (t', Inr policy) \<Longrightarrow> t' = t"
  by (auto simp: readPasswordPolicy_def GetInt_def GetBool_def configGet_Inr split: prod.splits sum.splits json.splits if_splits)

lemma confirmBody_Inr:
  assumes "confirmBody E h req tok pw t = Inr (t', uid)"
  obtains row policy hash where "findToken E (rh_Pepper h) tok (tx_db t) = Some row" "\<not> tokenSpent E (scanToken row)"
    "readPasswordPolicy E t = (t, Inr policy)" "validatePassword E pw policy = None" "IsPwned E (rh_HIBP h) pw \<noteq> Some True"
    "HashPassword E ''reset.confirm'' 0 pw = Some hash" "confirmWrites E req (scanToken row) hash t = Inr (t', uid)"
proof -
  from assms obtain t1 x where g: "GetByTokenForUpdate E (rh_Pepper h) tok t = (t1, Inr x)" by (auto simp: confirmBody_def attempt_Inr)
  then obtain row where row: "t1 = t" "findToken E (rh_Pepper h) tok (tx_db t) = Some row" "x = scanToken row"
    using GetByTokenForUpdate_Inr by blast
  have fresh: "\<not> tokenSpent E (scanToken row)" using assms g row by (auto simp: confirmBody_def attempt_Inr)
  from assms g row fresh obtain t2 policy where p: "readPasswordPolicy E t = (t2, Inr policy)" by (auto simp: confirmBody_def attempt_Inr)
  have t2: "t2 = t" using readPasswordPolicy_Inr [OF p] .
  from assms g row fresh p t2 have "validatePassword E pw policy = None" "breachedPassword E (rh_HIBP h) pw = None"
    "\<exists>hash. HashPassword E ''reset.confirm'' 0 pw = Some hash \<and> confirmWrites E req (scanToken row) hash t = Inr (t', uid)"
    by (auto simp: confirmBody_def attempt_Inr split: option.splits)
  with row fresh p t2 that show thesis by (auto simp: breachedPassword_def split: if_splits)
qed

text \<open>Whatever stops the confirmation, the answer is a failure.\<close>

definition stopsWith :: "authBody response \<Rightarrow> confirmStop \<Rightarrow> bool" where
  "stopsWith r x = (x = Stop r \<or> (\<exists>m i. x = StopAudited m i r))"

lemma attempt_stops:
  assumes "attempt x onErr k = Inl s" and "\<And>e. \<exists>r. failure r \<and> stopsWith r (onErr e)"
    and "\<And>t y. x = (t, Inr y) \<Longrightarrow> k t y = Inl s \<Longrightarrow> \<exists>r. failure r \<and> stopsWith r s"
  shows "\<exists>r. failure r \<and> stopsWith r s"
  using assms by (auto simp: attempt_Inl)

lemma stop500_stops: "\<exists>r. failure r \<and> stopsWith r (stop500 e)"
  by (auto simp: stopsWith_def stop500_def)

lemma confirmWrites_stops: "confirmWrites E req token hash t = Inl s \<Longrightarrow> \<exists>r. failure r \<and> stopsWith r s"
  unfolding confirmWrites_def by (elim attempt_stops) (simp_all add: stop500_stops)

lemma confirmBody_stops:
  assumes "confirmBody E h req tok pw t = Inl s"
  shows "\<exists>r. failure r \<and> stopsWith r s"
  using assms unfolding confirmBody_def
proof (elim attempt_stops, goal_cases)
  case (1 e)
  then show ?case by (auto simp: stopsWith_def invalidToken_def)
next
  case (2 t token)
  show ?case
  proof (cases "tokenSpent E token")
    case True
    with 2 show ?thesis by (auto simp: stopsWith_def invalidToken_def)
  next
    case False
    with 2(2) have "attempt (readPasswordPolicy E t) stop500 (\<lambda>t policy.
       case validatePassword E pw policy of
         Some msg \<Rightarrow> Inl (StopAudited ''policy_violation'' (Some (pr_UserID token)) (WriteError 400 ''PASSWORD_POLICY_VIOLATION'' msg))
       | None \<Rightarrow>
           (case breachedPassword E (rh_HIBP h) pw of
              Some r \<Rightarrow> Inl (Stop r)
            | None \<Rightarrow>
                (case HashPassword E ''reset.confirm'' 0 pw of
                   None \<Rightarrow> Inl (Stop internalError)
                 | Some hash \<Rightarrow> confirmWrites E req token hash t))) = Inl s" by simp
    then show ?thesis
      by (rule attempt_stops)
         (auto simp: stop500_stops [unfolded stopsWith_def] stopsWith_def breachedPassword_def
            split: option.splits if_splits dest: confirmWrites_stops [unfolded stopsWith_def])
  qed
qed

lemma PostConfirm_OK:
  assumes call: "PostConfirm E h req body w = (w', ms, WriteJSON 200 reply)"
  obtains b t uid where "body = Some b" "cfr_Token b \<noteq> []" "confirmBody E h req (cfr_Token b) (cfr_Password b) (pool (w_db w)) = Inr (t, uid)"
    "finishConfirm E uid (w\<lparr>w_db := tx_db t\<rparr>) = (w', ms, WriteJSON 200 reply)"
proof -
  obtain b where b: "body = Some b" using call by (cases body) (auto simp: PostConfirm_def invalidBody_def)
  have tok: "cfr_Token b \<noteq> []" using call b by (auto simp: PostConfirm_def invalidToken_def)
  have beg: "beginTx E ''reset.confirm'' (w_db w) = Some (pool (w_db w))"
    using call b tok by (cases "beginTx E ''reset.confirm'' (w_db w)") (auto simp: PostConfirm_def internalError_def beginTx_Some)
  obtain t uid where body: "confirmBody E h req (cfr_Token b) (cfr_Password b) (pool (w_db w)) = Inr (t, uid)"
  proof (cases "confirmBody E h req (cfr_Token b) (cfr_Password b) (pool (w_db w))")
    case (Inl x)
    then obtain r where "failure r" "stopsWith r x" using confirmBody_stops by blast
    with call b tok beg Inl show ?thesis by (auto simp: PostConfirm_def stopsWith_def)
  qed (use that in auto)
  obtain d ok where cm: "commitTx E ''reset.confirm'' t (w_db w) = (d, ok)" by (cases rule: prod.exhaust)
  have "ok" using call b tok beg body cm by (cases ok) (auto simp: PostConfirm_def internalError_def)
  with cm have "d = tx_db t" by (simp add: commitTx_True)
  with call b tok beg body cm \<open>ok\<close> that show thesis by (auto simp: PostConfirm_def)
qed

text \<open>A spent token does nothing but an audit row.\<close>

lemma PostConfirm_spent:
  assumes spent: "\<forall>row. findToken E (rh_Pepper h) (cfr_Token b) (w_db w) = Some row \<longrightarrow> tokenSpent E (scanToken row)"
    and call: "PostConfirm E h req (Some b) w = (w', ms, r)"
  shows "failure r \<and> db_users (w_db w') = db_users (w_db w) \<and> w_vk w' = w_vk w"
proof -
  have "failure r \<and> w' = w \<and> ms = []" if "cfr_Token b = [] \<or> beginTx E ''reset.confirm'' (w_db w) = None"
    using call that by (auto simp: PostConfirm_def invalidToken_def split: if_splits)
  moreover have "failure r \<and> db_users (w_db w') = db_users (w_db w) \<and> w_vk w' = w_vk w"
    if n: "cfr_Token b \<noteq> []" and beg: "beginTx E ''reset.confirm'' (w_db w) = Some t" for t
  proof -
    have t: "t = pool (w_db w)" using beg by (simp add: beginTx_Some)
    obtain x where x: "confirmBody E h req (cfr_Token b) (cfr_Password b) t = Inl x"
      "x = Stop internalError \<or> (\<exists>m i. x = StopAudited m i invalidToken)"
    proof (cases "GetByTokenForUpdate E (rh_Pepper h) (cfr_Token b) t")
      case (Pair t1 y)
      show ?thesis
      proof (cases y)
        case (Inl e)
        with Pair that show ?thesis by (auto simp: confirmBody_def attempt_def split: if_splits)
      next
        case (Inr token)
        with Pair GetByTokenForUpdate_Inr spent t have "tokenSpent E token" by fastforce
        with Pair Inr that show ?thesis by (auto simp: confirmBody_def attempt_def)
      qed
    qed
    with call n beg show ?thesis
      by (auto simp: PostConfirm_def auditConfirmFailed_def invalidToken_def)
  qed
  ultimately show ?thesis by (cases "beginTx E ''reset.confirm'' (w_db w)") auto
qed

lemma findToken_map:
  assumes "findToken E pepper tok d = Some row" and "e_hmac_sha256 E' = e_hmac_sha256 E"
    and "db_reset_tokens d' = map f (db_reset_tokens d)" and "\<And>r. prt_TokenHash (f r) = prt_TokenHash r"
  shows "findToken E' pepper tok d' = Some (f row)"
proof -
  have "find p (map f rs) = map_option f (find p rs)" if "\<And>r. p (f r) = p r" for p rs
    using that by (induction rs) auto
  with assms show ?thesis by (simp add: findToken_def HMACToken_def)
qed

lemma Invalidate_Inr:
  "InvalidateOutstandingForUser E uid t = (t', Inr n) \<Longrightarrow> db_users (tx_db t') = db_users (tx_db t) \<and>
     db_reset_tokens (tx_db t') =
       map (\<lambda>r. if outstanding E uid r then r\<lparr>prt_UsedAt := Some (e_pg_now E)\<rparr> else r) (db_reset_tokens (tx_db t))"
  by (auto simp: InvalidateOutstandingForUser_def stmt_Inr updTokens_def)

lemma ResetInsert_Inr:
  assumes "ResetInsert E pepper uid tok ttl ip t = (t', Inr rid)"
  obtains row where "db_reset_tokens (tx_db t') = db_reset_tokens (tx_db t) @ [row]" "db_users (tx_db t') = db_users (tx_db t)"
    "prt_TokenHash row = HMACToken E tok pepper" "prt_UserID row = uid" "prt_UsedAt row = None" "prt_ExpiresAt row = e_pg_now E + ttl"
    "\<forall>r\<in>set (db_reset_tokens (tx_db t)). prt_TokenHash r \<noteq> HMACToken E tok pepper"
  using assms that by (auto simp: ResetInsert_def stmt_Inr Let_def list_ex_iff split: if_splits)

lemma requestBody_rows:
  assumes "requestBody E h req u tok t = Inr (t', x)"
  obtains row old where "db_reset_tokens (tx_db t') = old @ [row]" "db_users (tx_db t') = db_users (tx_db t)"
    "findToken E (rh_Pepper h) tok (tx_db t') = Some row" "prt_UserID row = u_ID u" "prt_UsedAt row = None"
    "prt_ExpiresAt row = e_pg_now E + resetTTL" "\<forall>r\<in>set old. \<not> outstanding E (u_ID u) r"
proof -
  from assms obtain t1 n t2 rid where i: "InvalidateOutstandingForUser E (u_ID u) t = (t1, Inr n)"
    and ins: "ResetInsert E (rh_Pepper h) (u_ID u) tok resetTTL (parseClientIPAddr E (authIP E req)) t1 = (t2, Inr rid)"
    and a: "db_users (tx_db t') = db_users (tx_db t2)" "db_reset_tokens (tx_db t') = db_reset_tokens (tx_db t2)"
    by (auto simp: requestBody_def attempt_Inr dest!: selfAudit_Inr)
  from ins obtain row where row: "db_reset_tokens (tx_db t2) = db_reset_tokens (tx_db t1) @ [row]" "db_users (tx_db t2) = db_users (tx_db t1)"
    "prt_TokenHash row = HMACToken E tok (rh_Pepper h)" "prt_UserID row = u_ID u" "prt_UsedAt row = None"
    "prt_ExpiresAt row = e_pg_now E + resetTTL" "\<forall>r\<in>set (db_reset_tokens (tx_db t1)). prt_TokenHash r \<noteq> HMACToken E tok (rh_Pepper h)"
    by (rule ResetInsert_Inr)
  have "find (\<lambda>r. prt_TokenHash r = HMACToken E tok (rh_Pepper h)) (xs @ [row]) = Some row"
    if "\<forall>r\<in>set xs. prt_TokenHash r \<noteq> HMACToken E tok (rh_Pepper h)" for xs
    using that row(3) by (induction xs) auto
  then have "findToken E (rh_Pepper h) tok (tx_db t') = Some row" using row(1,7) a by (simp add: findToken_def)
  moreover have "\<forall>r\<in>set (db_reset_tokens (tx_db t1)). \<not> outstanding E (u_ID u) r"
    using Invalidate_Inr [OF i] by (auto simp: outstanding_def)
  moreover have "db_users (tx_db t1) = db_users (tx_db t)" using Invalidate_Inr [OF i] by blast
  ultimately show thesis by (intro that [of "db_reset_tokens (tx_db t1)" row]) (simp_all only: row a)
qed

lemma poolLog_resets [simp]: "db_reset_tokens (poolLog E req en d) = db_reset_tokens d"
  unfolding poolLog_def authLog_def using Log_tables(7) [of E _ en "pool d"] by (metis pool_sel(1) prod.collapse)

text \<open>The answer, and what no request changes.\<close>

lemma PostRequest_frame:
  assumes call: "PostRequest E h req body w = ((w', ms), r)"
  shows "r = WriteJSON 200 EmptyObject" "db_users (w_db w') = db_users (w_db w)" "w_vk w' = w_vk w"
    "ms = [] \<Longrightarrow> db_reset_tokens (w_db w') = db_reset_tokens (w_db w)"
proof -
  have tx: "db_users d = db_users (w_db w) \<and> (x = Inl resp \<longrightarrow> d = w_db w)"
    if "inTx E ''reset.request'' (requestBody E h req u tok) (w_db w) = (d, x)" for u tok d x resp
    using that by (cases rule: inTx_cases) (auto elim: requestBody_rows)
  note defs = PostRequest_def requestFor_def Let_def unmatchedAudit_def adminBlocked_def
  show "r = WriteJSON 200 EmptyObject" "w_vk w' = w_vk w"
    using call by (auto simp: defs split: option.splits sum.splits prod.splits if_splits)
  show "db_users (w_db w') = db_users (w_db w)"
    using call by (auto simp: defs dest: tx split: option.splits sum.splits prod.splits if_splits)
  show "db_reset_tokens (w_db w') = db_reset_tokens (w_db w)" if "ms = []"
    using call that by (auto simp: defs dest: tx split: option.splits sum.splits prod.splits if_splits)
qed

lemma PostRequest_mail:
  assumes call: "PostRequest E h req body w = ((w', ms), r)" and mail: "ms \<noteq> []" and laws: "rand_laws E"
  shows "\<exists>raw u tok old row. body = Some raw \<and> u \<in> set (db_users (w_db w)) \<and> u_Email u = trimSpace (toLower raw) \<and>
      u_Status u = ''active'' \<and> u_Role u \<noteq> ''super_admin'' \<and> ms = [ResetMail (u_Email u) tok] \<and>
      db_reset_tokens (w_db w') = old @ [row] \<and>
      findToken E (rh_Pepper h) tok (w_db w') = Some row \<and> prt_UserID row = u_ID u \<and>
      (\<forall>x\<in>set old. \<not> outstanding E (u_ID u) x) \<and>
      (\<forall>E' :: 'k env. e_hmac_sha256 E' = e_hmac_sha256 E \<longrightarrow> \<not> e_pg_fails E' (PQuery ''reset.GetByToken'') \<longrightarrow>
         e_go_now E' \<le> e_pg_now E + 30 * 60 * second \<longrightarrow> PostValidate E' h (Some tok) w' = WriteJSON 200 EmptyObject)"
proof -
  obtain raw where raw: "body = Some raw" using call mail by (cases body) (auto simp: PostRequest_def)
  let ?email = "trimSpace (toLower raw)"
  have f: "requestFor E h req ?email (snd (UserGetByEmail E ?email (pool (w_db w)))) w = ((w', ms), r)"
    using call mail raw by (auto simp: PostRequest_def Let_def split: if_splits)
  obtain t1 y where g: "UserGetByEmail E ?email (pool (w_db w)) = (t1, y)" by (cases rule: prod.exhaust)
  obtain u where y: "y = Inr u" using f g mail by (cases y) (auto simp: requestFor_def split: if_splits)
  have u: "u \<in> set (db_users (w_db w))" "u_Email u = ?email" using UserGetByEmail_Inr [OF g [unfolded y]] by auto
  have st: "u_Status u = ''active''" "u_Role u \<noteq> ''super_admin''" using f g y mail by (auto simp: requestFor_def split: if_splits)
  obtain buf where buf: "e_rand E ''reset.token'' 0 32 = Some buf"
    using f g y mail st by (cases "e_rand E ''reset.token'' 0 32") (auto simp: requestFor_def)
  let ?tok = "base64RawURL buf"
  obtain d x where tx: "inTx E ''reset.request'' (requestBody E h req u ?tok) (w_db w) = (d, x)" by (cases rule: prod.exhaust)
  obtain t where body: "requestBody E h req u ?tok (pool (w_db w)) = Inr (t, ())" and w': "w_db w' = tx_db t"
    and ms: "ms = [ResetMail (u_Email u) ?tok]"
  proof -
    from tx show thesis
    proof (cases rule: inTx_cases)
      case (rolled_back resp)
      with f g y st buf tx mail show ?thesis by (simp add: requestFor_def)
    next
      case (committed t a)
      with f g y st buf tx that [of t] show ?thesis by (auto simp: requestFor_def)
    qed
  qed
  from body obtain row old where rows: "db_reset_tokens (tx_db t) = old @ [row]" "db_users (tx_db t) = db_users (w_db w)"
    "findToken E (rh_Pepper h) ?tok (tx_db t) = Some row" "prt_UserID row = u_ID u" "prt_UsedAt row = None"
    "prt_ExpiresAt row = e_pg_now E + resetTTL" "\<forall>x\<in>set old. \<not> outstanding E (u_ID u) x"
    by (rule requestBody_rows) simp
  have "length buf = 32" using buf laws by (auto simp: rand_laws_def)
  then have ne: "?tok \<noteq> []" using length_b64Raw [of b64URLAlphabet buf] by (auto simp: base64RawURL_def)
  have "PostValidate E' h (Some ?tok) w' = WriteJSON 200 EmptyObject"
    if a: "e_hmac_sha256 E' = e_hmac_sha256 E" "\<not> e_pg_fails E' (PQuery ''reset.GetByToken'')" "e_go_now E' \<le> e_pg_now E + 30 * 60 * second"
    for E' :: "'k env"
  proof -
    have "findToken E' (rh_Pepper h) ?tok (w_db w') = Some row" using rows(3) a(1) w' by (simp add: findToken_def HMACToken_def)
    then show ?thesis using ne a(2,3) rows(5,6)
      by (simp add: PostValidate_def GetByToken_def query_def stmt_def needOne_def tokenSpent_def scanToken_def resetTTL_def)
  qed
  then have "\<forall>E' :: 'k env. e_hmac_sha256 E' = e_hmac_sha256 E \<longrightarrow> \<not> e_pg_fails E' (PQuery ''reset.GetByToken'') \<longrightarrow>
      e_go_now E' \<le> e_pg_now E + 30 * 60 * second \<longrightarrow> PostValidate E' h (Some ?tok) w' = WriteJSON 200 EmptyObject" by blast
  then show ?thesis unfolding w' using raw u st ms rows(1,3,4,7) by blast
qed


definition sampleReset :: resetHandler where
  "sampleReset = \<lparr>rh_PublicURL = ''https://id.example.org'', rh_DummyHash = [], rh_HIBP = None, rh_Pepper = ''pepper''\<rparr>"

lemmas sample_audit = selfAudit_def authLog_def Log_def selfEntry_def authIP_def clientIP_def extractClientIP_def sampleAuthRequest_def


definition sampleTokenRow :: reset_token where
  "sampleTokenRow = \<lparr>prt_ID = 21, prt_UserID = 7, prt_TokenHash = HMACToken sampleEnv ''link'' ''pepper'', prt_ExpiresAt = 2000 * second,
     prt_UsedAt = None, prt_CreatedAt = 900 * second, prt_IPAddress = None\<rparr>"

definition sampleResetWorld :: "kspace world" where
  "sampleResetWorld = sampleLoginWorld\<lparr>w_db := (w_db sampleLoginWorld)\<lparr>db_reset_tokens := [sampleTokenRow]\<rparr>\<rparr>"

definition sampleConfirm :: confirmRequest where
  "sampleConfirm = \<lparr>cfr_Token = ''link'', cfr_Password = ''Battery2staple''\<rparr>"

lemma sample_confirmed:
  obtains w' ms where "PostConfirm sampleEnv sampleReset (sampleAuthRequest []) (Some sampleConfirm) sampleResetWorld
      = (w', ms, WriteJSON 200 (ResetOf (showNat 7)))"
proof -
  let ?req = "sampleAuthRequest []" and ?pol = "\<lparr>pp_MinLength = 8, pp_RequireUpper = True, pp_RequireDigit = True\<rparr>"
  let ?d = "w_db sampleResetWorld"
  have rows: "db_users ?d = [sampleMember]" "db_reset_tokens ?d = [sampleTokenRow]" by (simp_all add: sampleResetWorld_def sample_users)
  have f: "findToken sampleEnv ''pepper'' ''link'' ?d = Some sampleTokenRow" by (simp add: findToken_def rows sampleTokenRow_def)
  have pol: "readPasswordPolicy sampleEnv (pool ?d) = (pool ?d, Inr ?pol)"
    by (simp add: readPasswordPolicy_def GetInt_def GetBool_def configGet_def query_def stmt_def sampleLoginWorld_def sampleResetWorld_def)
  obtain hash where hash: "HashPassword sampleEnv ''reset.confirm'' 0 ''Battery2staple'' = Some hash"
    by (simp add: HashPassword_def sampleEnv_def)
  have vet: "validatePassword sampleEnv ''Battery2staple'' ?pol = None" "breachedPassword sampleEnv None ''Battery2staple'' = None"
    using sample_vet by (auto simp: vetPassword_def split: option.splits)
  obtain t where t: "confirmWrites sampleEnv ?req (scanToken sampleTokenRow) hash (pool ?d) = Inr (t, 7)" "\<not> tx_aborted t"
    by (simp add: confirmWrites_def attempt_def SetPasswordHash_def ClearLockoutForPasswordChange_def ResetMarkUsed_def stmt_def updUsers_def
        updTokens_def needRow_def ignoreCount_def rows sample_member scanToken_def sampleTokenRow_def resetAudit_def sample_audit)
  have g: "GetByTokenForUpdate sampleEnv ''pepper'' ''link'' (pool ?d) = (pool ?d, Inr (scanToken sampleTokenRow))"
    by (simp add: GetByTokenForUpdate_def query_def stmt_def needOne_def f)
  have "\<not> tokenSpent sampleEnv (scanToken sampleTokenRow)" by (simp add: tokenSpent_def scanToken_def sampleTokenRow_def second_def)
  with g pol vet hash t have body: "confirmBody sampleEnv sampleReset ?req ''link'' ''Battery2staple'' (pool ?d) = Inr (t, 7)"
    by (simp add: confirmBody_def attempt_def sampleReset_def)
  obtain w' ms r where fin: "finishConfirm sampleEnv 7 (sampleResetWorld\<lparr>w_db := tx_db t\<rparr>) = (w', ms, r)" by (cases rule: prod_cases3)
  then have "r = WriteJSON 200 (ResetOf (showNat 7))" by (simp add: finishConfirm_def Let_def)
  with fin body t(2) that [of w' ms] show thesis
    by (simp add: PostConfirm_def sampleConfirm_def beginTx_def commitTx_def pool_def)
qed

end
