(* ===== verification/MfaProps.thy ===== *)
theory MfaProps
  imports Mfa SelfService
begin

text \<open>
  What the second factor guarantees: a challenge is passed only with a fresh one-time code or an unused
  recovery code, each of which then is used up; a challenge handed out by the login admits five attempts,
  whoever makes them and in whatever order; and an enrolment stores the secret that was shown, so that
  the challenge accepts the authenticator.
\<close>

section \<open>The fields of a hash\<close>

lemma map_of_hashPut: "map_of (hashPut (f, v) h) g = (if g = f then Some v else map_of h g)"
  by (induction h) (auto simp: hashPut_def)

lemma hashField_hashPut [simp]: "hashField (hashPut (f, v) h) g = (if g = f then v else hashField h g)"
  by (simp add: hashField_def map_of_hashPut)

text \<open>The fields under a key of the key space.\<close>

definition fieldsAt :: "kspace \<Rightarrow> string \<Rightarrow> (string \<times> string) list" where
  "fieldsAt m key = (case m key of Some (VHash h, e) \<Rightarrow> h | _ \<Rightarrow> [])"

context valkey_service
begin

lemma hget_view:
  assumes "e_valkey E = V" and "hget E key f k = (k', v)"
  shows "view k' = view k" and "v = hashField (fieldsAt (view k) key) f"
proof -
  obtain r k1 where g: "V (HGET key f) k = (r, k1)" by (cases rule: prod.exhaust)
  have "k' = k1" "v = (case r of RField x \<Rightarrow> x | _ \<Rightarrow> [])"
    using assms g by (auto simp: hget_def split: vreply.splits)
  with serve [OF g] show "view k' = view k" "v = hashField (fieldsAt (view k) key) f"
    by (auto simp: fieldsAt_def hashField_def split: option.splits prod.splits vval.splits)
qed

lemma hincrby_view:
  assumes "V (HINCRBY key f n) k = (RInt i, k')"
  shows "\<exists>e. view k' = (view k)(key \<mapsto> (VHash (hashPut (f, showInt i) (fieldsAt (view k) key)), e))"
    and "i = readInt (case map_of (fieldsAt (view k) key) f of None \<Rightarrow> ''0'' | Some v \<Rightarrow> v) + n"
proof -
  let ?h = "fieldsAt (view k) key" and ?slot = "case view k key of None \<Rightarrow> Some ([], None) | Some (VHash h, e) \<Rightarrow> Some (h, e) | Some _ \<Rightarrow> None"
  note run = serve [OF assms]
  obtain h e where slot: "?slot = Some (h, e)" using run by (cases ?slot) (auto simp del: not_None_eq)
  then have h: "h = ?h" by (auto simp: fieldsAt_def split: option.splits prod.splits vval.splits)
  from run slot have "i = readInt (case map_of h f of None \<Rightarrow> ''0'' | Some v \<Rightarrow> v) + n"
    "view k' = (view k)(key \<mapsto> (VHash (hashPut (f, showInt i) h), e))" by (auto simp: Let_def split: if_splits)
  with h show "\<exists>e. view k' = (view k)(key \<mapsto> (VHash (hashPut (f, showInt i) ?h), e))"
    and "i = readInt (case map_of ?h f of None \<Rightarrow> ''0'' | Some v \<Rightarrow> v) + n" by blast+
qed

lemma valkeyDel_view: "e_valkey E = V \<Longrightarrow> view (valkeyDel E key k) = (view k)(key := None)"
  using serve [of "DEL key" k] by (cases "V (DEL key) k") (auto simp: valkeyDel_def)

end

lemma fieldsAt_put: "fieldsAt (m(key \<mapsto> (VHash h, e))) key = h"
  by (simp add: fieldsAt_def)

section \<open>Passing a challenge\<close>

lemma scanCodes_find: "scanCodes E p m cs =
    (case m of Some i \<Rightarrow> Some i | None \<Rightarrow> map_option rc_ID (find (\<lambda>c. VerifyPassword E p (rc_CodeHash c) = Some True) cs))"
  by (induction cs arbitrary: m) (auto split: option.splits)

definition totpPassed :: "'k env \<Rightarrow> MFAHandler \<Rightarrow> User \<Rightarrow> string \<Rightarrow> int \<Rightarrow> bool" where
  "totpPassed E h u code step =
     (\<exists>secret. Decrypt E (case u_TOTPSecretEncrypted u of None \<Rightarrow> [] | Some b \<Rightarrow> b) (mh_EncryptionKey h)
         (totpSecretAAD (e_uuid_string E (u_ID u))) = Some secret \<and>
       ValidateTOTP E code secret (u_LastUsedTOTPCounter u) = Some (Some step))"

text \<open>The two ways to a session, and what the database holds afterwards.\<close>

lemma Advance_Inr:
  "AdvanceTOTPCounter E uid step t = (t', Inr x) \<Longrightarrow> db_users (tx_db t') =
     map (\<lambda>v. if u_ID v = uid then v\<lparr>u_LastUsedTOTPCounter := step\<rparr> else v) (db_users (tx_db t))"
  by (auto simp: AdvanceTOTPCounter_def ignoreCount_Inr stmt_Inr updUsers_def)

lemma SetLastLoginAt_Inr:
  "SetLastLoginAt E uid t = (t', Inr x) \<Longrightarrow> db_recovery_codes (tx_db t') = db_recovery_codes (tx_db t) \<and> db_users (tx_db t') =
     map (\<lambda>v. if u_ID v = uid then v\<lparr>u_LastLoginAt := Some (e_pg_now E), u_UpdatedAt := e_pg_now E\<rparr> else v) (db_users (tx_db t))"
  by (auto simp: SetLastLoginAt_def needRow_Inr stmt_Inr updUsers_def)

lemma totpBody_counter:
  assumes "totpBody E req u uid step t = Inr (t', x)"
  shows "\<forall>v\<in>set (db_users (tx_db t')). u_ID v = uid \<longrightarrow> u_LastUsedTOTPCounter v = step"
proof -
  obtain t1 t2 t3 y1 y2 y3 y4 where "AdvanceTOTPCounter E uid step t = (t1, Inr y1)"
    and "selfAudit E req (u\<lparr>u_ID := uid\<rparr>) ''login.succeeded'' None t1 = (t2, Inr y2)"
    and "selfAudit E req (u\<lparr>u_ID := uid\<rparr>) ''mfa.challenge_succeeded'' (Some [(''method'', MStr ''totp'')]) t2 = (t3, Inr y3)"
    and "SetLastLoginAt E uid t3 = (t', Inr y4)"
    using assms unfolding totpBody_def attempt_Inr by blast
  note rows = Advance_Inr [OF this(1)] selfAudit_Inr [OF this(2)] selfAudit_Inr [OF this(3)] SetLastLoginAt_Inr [OF this(4)]
  then have eq: "db_users (tx_db t') = map (\<lambda>v. if u_ID v = uid then v\<lparr>u_LastLoginAt := Some (e_pg_now E), u_UpdatedAt := e_pg_now E\<rparr> else v)
      (map (\<lambda>v. if u_ID v = uid then v\<lparr>u_LastUsedTOTPCounter := step\<rparr> else v) (db_users (tx_db t)))" by presburger
  show ?thesis unfolding eq set_map ball_simps by simp
qed

lemma recoveryBody_used:
  assumes "recoveryBody E req u cid t = Inr (t', x)"
  shows "\<forall>c\<in>set (db_recovery_codes (tx_db t')). rc_ID c = cid \<longrightarrow> rc_UsedAt c \<noteq> None"
proof -
  obtain t1 t2 t3 t4 y1 y2 y3 y4 y5 where "RecoveryMarkUsed E cid t = (t1, Inr y1)"
    and "selfAudit E req u ''login.succeeded'' None t1 = (t2, Inr y2)"
    and "selfAudit E req u ''mfa.challenge_succeeded'' (Some [(''method'', MStr ''recovery_code'')]) t2 = (t3, Inr y3)"
    and "selfAudit E req u ''mfa.recovery_code_used'' (Some [(''code_id'', MStr (e_uuid_string E cid))]) t3 = (t4, Inr y4)"
    and "SetLastLoginAt E (u_ID u) t4 = (t', Inr y5)"
    using assms unfolding recoveryBody_def attempt_Inr by blast
  note rows = RecoveryMarkUsed_Inr [OF this(1)] selfAudit_Inr [OF this(2)] selfAudit_Inr [OF this(3)] selfAudit_Inr [OF this(4)]
    SetLastLoginAt_Inr [OF this(5)]
  then show ?thesis by (auto simp: updCodes_def split: if_splits)
qed

definition secondFactor :: "'k env \<Rightarrow> MFAHandler \<Rightarrow> User \<Rightarrow> challengeRequest \<Rightarrow> db \<Rightarrow> db \<Rightarrow> bool" where
  "secondFactor E h u b d d' =
     ((\<exists>step. chr_RecoveryCode b = [] \<and> totpPassed E h u (chr_Code b) step \<and> u_LastUsedTOTPCounter u < step \<and>
        (\<forall>v\<in>set (db_users d'). u_ID v = u_ID u \<longrightarrow> u_LastUsedTOTPCounter v = step)) \<or>
      (\<exists>c\<in>set (db_recovery_codes d). rc_UserID c = u_ID u \<and> rc_UsedAt c = None \<and>
        VerifyPassword E (chr_RecoveryCode b) (rc_CodeHash c) = Some True \<and>
        (\<forall>c'\<in>set (db_recovery_codes d'). rc_ID c' = rc_ID c \<longrightarrow> rc_UsedAt c' \<noteq> None)))"

lemma passChallenge_key:
  assumes srv: "valkey_service (e_valkey E) view" and free: "sessionFree key"
    and p: "passChallenge E h req u uid key ret w = (w', cs, r)"
  shows "view (w_vk w') key = None"
proof -
  let ?k = "valkeyDel E key (w_vk w)"
  obtain k tk where c: "CreateWithPendingReturnTo E sessionTTL (e_uuid_string E uid) (authIP E req) (aq_UserAgent req) [] ?k
      = (k, tk)" by (cases rule: prod.exhaust)
  have "w_vk w' = k" using p c by (cases tk) (auto simp: passChallenge_def signIn_def)
  with valkey_service.session_other_keys(1) [OF srv refl free c] valkey_service.valkeyDel_view [OF srv refl, of key "w_vk w"]
  show ?thesis by simp
qed

lemma passChallenge_session:
  assumes srv: "valkey_service (e_valkey E) view" and inv: "session_inv (view (w_vk w))" and free: "sessionFree key"
    and p: "passChallenge E h req u uid key ret w = (w', cs, r)"
  shows "w_db w' = w_db w" and "session_inv (view (w_vk w'))"
    and "liveSession (view (w_vk w')) tok \<noteq> liveSession (view (w_vk w)) tok \<Longrightarrow>
      liveSession (view (w_vk w')) = (liveSession (view (w_vk w)))(tok \<mapsto> newSession E req uid [])"
proof -
  let ?w = "w\<lparr>w_vk := valkeyDel E key (w_vk w)\<rparr>"
  note del = valkey_service.valkeyDel_view [OF srv refl, of key "w_vk w"]
  from sessions_frame [OF _ free, of "view (w_vk ?w)" "view (w_vk w)"] del inv
  have live: "liveSession (view (w_vk ?w)) = liveSession (view (w_vk w))" and inv1: "session_inv (view (w_vk ?w))" by simp_all
  note s = p [unfolded passChallenge_def]
  from srv inv1 s show "w_db w' = w_db w" by (cases rule: signIn_cases) simp_all
  from srv inv1 s show "session_inv (view (w_vk w'))" by (cases rule: signIn_cases) (use inv1 in auto)
  assume ch: "liveSession (view (w_vk w')) tok \<noteq> liveSession (view (w_vk w)) tok"
  from srv inv1 s show "liveSession (view (w_vk w')) = (liveSession (view (w_vk w)))(tok \<mapsto> newSession E req uid [])"
    by (cases rule: signIn_cases) (use ch live in \<open>auto split: if_splits\<close>)
qed

lemma verifyRecoveryCode_session:
  assumes srv: "valkey_service (e_valkey E) view" and inv: "session_inv (view (w_vk w))" and free: "sessionFree key"
    and v: "verifyRecoveryCode E h req u (chr_RecoveryCode b) key ret w = (w', cs, r)"
    and ch: "liveSession (view (w_vk w')) tok \<noteq> liveSession (view (w_vk w)) tok"
  shows "view (w_vk w') key = None \<and> secondFactor E h u b (w_db w) (w_db w') \<and>
    liveSession (view (w_vk w')) = (liveSession (view (w_vk w)))(tok \<mapsto> newSession E req (u_ID u) [])"
proof -
  obtain codes where l: "snd (ListUnused E (u_ID u) (pool (w_db w))) = Inr codes"
    using v ch by (cases "snd (ListUnused E (u_ID u) (pool (w_db w)))") (auto simp: verifyRecoveryCode_def)
  have codes: "set codes = {c \<in> set (db_recovery_codes (w_db w)). unusedOf (u_ID u) c}"
    using l by (cases "ListUnused E (u_ID u) (pool (w_db w))") (auto simp: ListUnused_def query_Inr)
  obtain cid where c: "scanCodes E (chr_RecoveryCode b) None codes = Some cid"
    using v ch l by (cases "scanCodes E (chr_RecoveryCode b) None codes") (auto simp: verifyRecoveryCode_def)
  then obtain c where m: "c \<in> set codes" "VerifyPassword E (chr_RecoveryCode b) (rc_CodeHash c) = Some True" "rc_ID c = cid"
    using find_Some_D [of "\<lambda>c. VerifyPassword E (chr_RecoveryCode b) (rc_CodeHash c) = Some True" codes] by (auto simp: scanCodes_find)
  obtain d x where tx: "inTx E ''mfa.recovery'' (recoveryBody E req u cid) (w_db w) = (d, x)" by (cases rule: prod.exhaust)
  from tx show ?thesis
  proof (cases rule: inTx_cases)
    case (rolled_back resp)
    with v l c tx ch show ?thesis by (auto simp: verifyRecoveryCode_def)
  next
    case (committed t y)
    then have p: "passChallenge E h req u (u_ID u) key ret (w\<lparr>w_db := d\<rparr>) = (w', cs, r)"
      using v l c tx by (simp add: verifyRecoveryCode_def)
    note pass = passChallenge_session [OF srv _ free p] and gone = passChallenge_key [OF srv free p]
    have "secondFactor E h u b (w_db w) (w_db w')"
      using recoveryBody_used [OF committed(2)] pass(1) inv committed(4) m codes
      unfolding secondFactor_def by (auto simp: unusedOf_def)
    with pass gone inv ch show ?thesis by simp
  qed
qed

lemma totpStep_fresh: "ValidateTOTP E code secret n = Some (Some step) \<Longrightarrow> n < step"
  using totpLoop_match unfolding ValidateTOTP_def by blast

lemma verifyTotp_session:
  assumes srv: "valkey_service (e_valkey E) view" and inv: "session_inv (view (w_vk w))" and free: "sessionFree key"
    and v: "verifyTotp E h req u (u_ID u) (chr_Code b) remaining key ret w = (w', cs, r)"
    and code: "chr_RecoveryCode b = []"
    and ch: "liveSession (view (w_vk w')) tok \<noteq> liveSession (view (w_vk w)) tok"
  shows "view (w_vk w') key = None \<and> secondFactor E h u b (w_db w) (w_db w') \<and>
    liveSession (view (w_vk w')) = (liveSession (view (w_vk w)))(tok \<mapsto> newSession E req (u_ID u) [])"
proof -
  let ?dec = "Decrypt E (case u_TOTPSecretEncrypted u of None \<Rightarrow> [] | Some b \<Rightarrow> b) (mh_EncryptionKey h)
    (totpSecretAAD (e_uuid_string E (u_ID u)))"
  have bad: "liveSession (view (w_vk (fst (invalidCode E req (u_ID u) remaining key w)))) = liveSession (view (w_vk w))"
    using sessions_frame(1) [OF _ free, of "view (valkeyDel E key (w_vk w))" "view (w_vk w)"]
      valkey_service.valkeyDel_view [OF srv refl, of key "w_vk w"] by (auto simp: invalidCode_def)
  obtain secret where d: "?dec = Some secret" using v ch by (cases ?dec) (auto simp: verifyTotp_def)
  obtain step where val: "ValidateTOTP E (chr_Code b) secret (u_LastUsedTOTPCounter u) = Some (Some step)"
  proof (cases "ValidateTOTP E (chr_Code b) secret (u_LastUsedTOTPCounter u)")
    case (Some m)
    with v ch d bad that show thesis by (cases m) (auto simp: verifyTotp_def)
  qed (use v ch d in \<open>auto simp: verifyTotp_def\<close>)
  obtain d1 x where tx: "inTx E ''mfa.totp'' (totpBody E req u (u_ID u) step) (w_db w) = (d1, x)" by (cases rule: prod.exhaust)
  from tx show ?thesis
  proof (cases rule: inTx_cases)
    case (rolled_back resp)
    with v d val tx ch show ?thesis by (auto simp: verifyTotp_def)
  next
    case (committed t y)
    then have p: "passChallenge E h req u (u_ID u) key ret (w\<lparr>w_db := d1\<rparr>) = (w', cs, r)"
      using v d val tx by (simp add: verifyTotp_def)
    note pass = passChallenge_session [OF srv _ free p] and gone = passChallenge_key [OF srv free p]
    have "totpPassed E h u (chr_Code b) step" unfolding totpPassed_def using d val by blast
    then have "secondFactor E h u b (w_db w) (w_db w')"
      using totpBody_counter [OF committed(2)] pass(1) inv committed(4) totpStep_fresh [OF val] code
      unfolding secondFactor_def by auto
    with pass gone inv ch show ?thesis by simp
  qed
qed

lemma challengeChecked_session:
  assumes srv: "valkey_service (e_valkey E) view" and inv: "session_inv (view (w_vk w))" and free: "sessionFree key"
    and c: "challengeChecked E h req b remaining key w = (w', cs, r)"
    and ch: "liveSession (view (w_vk w')) tok \<noteq> liveSession (view (w_vk w)) tok"
  shows "\<exists>u\<in>set (db_users (w_db w)). e_uuid_parse E (hashField (fieldsAt (view (w_vk w)) key) ''user_id'') = Some (u_ID u) \<and>
    view (w_vk w') key = None \<and> secondFactor E h u b (w_db w) (w_db w') \<and>
    liveSession (view (w_vk w')) = (liveSession (view (w_vk w)))(tok \<mapsto> newSession E req (u_ID u) [])"
proof -
  obtain k uids where g1: "hget E key ''user_id'' (w_vk w) = (k, uids)" by (cases rule: prod.exhaust)
  obtain k1 ret where g2: "hget E key ''return_to'' k = (k1, ret)" by (cases rule: prod.exhaust)
  note v1 = valkey_service.hget_view [OF srv refl g1] and v2 = valkey_service.hget_view [OF srv refl g2]
  let ?w = "w\<lparr>w_vk := k1\<rparr>"
  have same: "view (w_vk ?w) = view (w_vk w)" using v1(1) v2(1) by simp
  have ne: "uids \<noteq> []" using c ch g1 v1 by (auto simp: challengeChecked_def)
  obtain uid where p: "e_uuid_parse E uids = Some uid"
    using c ch g1 v1 ne by (cases "e_uuid_parse E uids") (auto simp: challengeChecked_def)
  obtain u where u: "snd (UserGetByID E ''mfa.challenge'' uid (pool (w_db w))) = Inr u"
    using c ch g1 g2 v1 v2 ne p by (cases "snd (UserGetByID E ''mfa.challenge'' uid (pool (w_db w)))") (auto simp: challengeChecked_def)
  have row: "u \<in> set (db_users (w_db w))" "u_ID u = uid" using u UserGetByID_Inr [of E "''mfa.challenge''" uid "pool (w_db w)"]
    by (cases "UserGetByID E ''mfa.challenge'' uid (pool (w_db w))"; force)+
  have bad: "liveSession (view (w_vk (fst (invalidCode E req uid remaining key ?w)))) = liveSession (view (w_vk w))"
    using sessions_frame(1) [OF _ free, of "view (valkeyDel E key k1)" "view (w_vk w)"] same
      valkey_service.valkeyDel_view [OF srv refl, of key k1] by (auto simp: invalidCode_def)
  have inv1: "session_inv (view (w_vk ?w))" and ch1: "liveSession (view (w_vk w')) tok \<noteq> liveSession (view (w_vk ?w)) tok"
    using inv ch same by simp_all
  have "view (w_vk w') key = None \<and> secondFactor E h u b (w_db w) (w_db w') \<and>
    liveSession (view (w_vk w')) = (liveSession (view (w_vk w)))(tok \<mapsto> newSession E req (u_ID u) [])"
  proof (cases "chr_RecoveryCode b = []")
    case False
    with c g1 g2 ne p u have "verifyRecoveryCode E h req u (chr_RecoveryCode b) key ret ?w = (w', cs, r)" by (simp add: challengeChecked_def)
    from verifyRecoveryCode_session [OF srv inv1 free this ch1] same show ?thesis by simp
  next
    case True
    have len: "length (chr_Code b) = 6"
      using c g1 g2 ne p u True ch bad by (auto simp: challengeChecked_def Let_def split: if_splits)
    with c g1 g2 ne p u True row have "verifyTotp E h req u (u_ID u) (chr_Code b) remaining key ret ?w = (w', cs, r)"
      by (simp add: challengeChecked_def)
    from verifyTotp_session [OF srv inv1 free this True ch1] same show ?thesis by simp
  qed
  with row p v1 show ?thesis by blast
qed

text \<open>C16. The second factor is sound: whenever \<open>PostChallenge\<close> changes the sessions, it has added exactly
  one, the browser sent the cookie of a challenge with at least one attempt left, the session belongs to the
  user of that challenge, and either the code matches the user's secret at a time step later than any
  used before, and that step is now recorded, or it is an unused recovery code of this user, which is
  used now. The challenge itself is gone.\<close>

theorem challenge_sound:
  assumes call: "PostChallenge E h req body w = (w', cs, r)"
    and srv: "valkey_service (e_valkey E) view" and inv: "session_inv (view (w_vk w))"
    and changed: "liveSession (view (w_vk w')) tok \<noteq> liveSession (view (w_vk w)) tok"
  shows "\<exists>token b. \<exists>u\<in>set (db_users (w_db w)).
    cookieOf req MfaChallengeCookieName = Some token \<and> body = Some b \<and>
    e_uuid_parse E (hashField (fieldsAt (view (w_vk w)) (challengeKey token)) ''user_id'') = Some (u_ID u) \<and>
    1 \<le> readInt (hashField (fieldsAt (view (w_vk w)) (challengeKey token)) ''attempts_remaining'') \<and>
    secondFactor E h u b (w_db w) (w_db w') \<and> view (w_vk w') (challengeKey token) = None \<and>
    liveSession (view (w_vk w')) = (liveSession (view (w_vk w)))(tok \<mapsto> newSession E req (u_ID u) [])"
proof -
  obtain token where ck: "cookieOf req MfaChallengeCookieName = Some token"
    using call changed by (cases "cookieOf req MfaChallengeCookieName") (auto simp: PostChallenge_def)
  obtain b where b: "token \<noteq> []" "body = Some b"
    using call changed ck by (cases body) (auto simp: PostChallenge_def split: if_splits)
  let ?key = "challengeKey token"
  obtain rep k where i: "e_valkey E (HINCRBY ?key ''attempts_remaining'' (-1)) (w_vk w) = (rep, k)" by (cases rule: prod.exhaust)
  from valkey_service.sessions_kept [OF srv i] have live: "liveSession (view k) = liveSession (view (w_vk w))"
    and inv1: "session_inv (view k)" using inv by simp_all
  have gone: "liveSession (view (valkeyDel E ?key k)) = liveSession (view k)"
    using sessions_frame(1) [of ?key "view (valkeyDel E ?key k)" "view k"] valkey_service.valkeyDel_view [OF srv refl, of ?key k] by simp
  obtain n where n: "rep = RInt n"
    using call changed ck b i live by (cases rep) (auto simp: PostChallenge_def)
  have pos: "0 \<le> n" using call changed ck b i n live gone by (auto simp: PostChallenge_def split: if_splits)
  with call ck b i n have c: "challengeChecked E h req b n ?key (w\<lparr>w_vk := k\<rparr>) = (w', cs, r)" by (simp add: PostChallenge_def)
  let ?h = "fieldsAt (view (w_vk w)) ?key"
  note cnt = valkey_service.hincrby_view [OF srv i [unfolded n]]
  then have "hashField (fieldsAt (view k) ?key) ''user_id'' = hashField ?h ''user_id''" by (auto simp: fieldsAt_put)
  moreover have "1 \<le> readInt (hashField ?h ''attempts_remaining'')"
  proof (cases "map_of ?h ''attempts_remaining''")
    case None
    moreover have "readInt ''0'' = 0" by code_simp
    ultimately show ?thesis using cnt(2) pos by simp
  qed (use cnt(2) pos in \<open>simp add: hashField_def\<close>)
  ultimately show ?thesis
    using challengeChecked_session [OF srv _ mfa_keys_free(2) c, of tok] inv1 live changed ck b by (simp, blast)
qed

section \<open>The number of attempts\<close>

lemma challengeChecked_key:
  assumes srv: "valkey_service (e_valkey E) view" and free: "sessionFree key"
    and c: "challengeChecked E h req b remaining key w = (w', cs, r)"
  shows "view (w_vk w') key = view (w_vk w) key \<or> view (w_vk w') key = None"
proof -
  obtain k uids where g1: "hget E key ''user_id'' (w_vk w) = (k, uids)" by (cases rule: prod.exhaust)
  obtain k1 ret where g2: "hget E key ''return_to'' k = (k1, ret)" by (cases rule: prod.exhaust)
  have same: "view k = view (w_vk w)" "view k1 = view (w_vk w)"
    using valkey_service.hget_view(1) [OF srv refl g1] valkey_service.hget_view(1) [OF srv refl g2] by simp_all
  have del: "view (valkeyDel E key k1) key = None" by (simp add: valkey_service.valkeyDel_view [OF srv refl])
  have rec: "view (w_vk v') key = view (w_vk v) key \<or> view (w_vk v') key = None"
    if "verifyRecoveryCode E h req u p key ret v = (v', cs, r)" for u p v v'
    using that passChallenge_key [OF srv free]
    by (auto simp: verifyRecoveryCode_def split: sum.splits option.splits prod.splits)
  have bad: "view (w_vk v') key = view (w_vk v) key \<or> view (w_vk v') key = None"
    if "invalidCode E req uid remaining key v = (v', cs, r)" for uid v v'
    using that by (cases "remaining = 0") (auto simp: invalidCode_def valkey_service.valkeyDel_view [OF srv refl])
  have totp: "view (w_vk v') key = view (w_vk v) key \<or> view (w_vk v') key = None"
    if "verifyTotp E h req u uid code remaining key ret v = (v', cs, r)" for u uid code v v'
    using that passChallenge_key [OF srv free] bad
    by (auto simp: verifyTotp_def split: sum.splits option.splits prod.splits)
  show ?thesis
    using c g1 g2 same rec [of _ _ "w\<lparr>w_vk := k1\<rparr>" w'] bad [of _ "w\<lparr>w_vk := k1\<rparr>" w'] totp [of _ _ _ "w\<lparr>w_vk := k1\<rparr>" w']
    by (auto simp: challengeChecked_def Let_def split: option.splits sum.splits if_splits)
qed

text \<open>The answers given before a code is looked at.\<close>

definition guardReply :: "authBody response \<Rightarrow> bool" where
  "guardReply r = (r \<in> {challengeExpired, maxAttempts, invalidBody})"

definition attemptsLeft :: "kspace \<Rightarrow> string \<Rightarrow> int \<Rightarrow> bool" where
  "attemptsLeft m key i = (\<exists>h e. m key = Some (VHash h, e) \<and> map_of h ''attempts_remaining'' = Some (showInt i))"

lemma PostChallenge_counts:
  assumes srv: "valkey_service (e_valkey E) view" and ck: "cookieOf req MfaChallengeCookieName = Some token"
    and call: "PostChallenge E h req body w = (w', cs, r)"
    and pre: "view (w_vk w) (challengeKey token) = None \<or> attemptsLeft (view (w_vk w)) (challengeKey token) i"
    and i: "0 \<le> i" "i \<le> 5"
  shows "guardReply r \<and> view (w_vk w') (challengeKey token) \<in> {view (w_vk w) (challengeKey token), None} \<or>
    0 < i \<and> attemptsLeft (view (w_vk w)) (challengeKey token) i \<and>
    (view (w_vk w') (challengeKey token) = None \<or> attemptsLeft (view (w_vk w')) (challengeKey token) (i - 1))"
proof (cases "token = [] \<or> body = None")
  case True
  with call ck show ?thesis by (cases "token = []") (auto simp: PostChallenge_def guardReply_def)
next
  case False
  let ?key = "challengeKey token"
  obtain b where b: "token \<noteq> []" "body = Some b" using False by auto
  obtain rep k where x: "e_valkey E (HINCRBY ?key ''attempts_remaining'' (-1)) (w_vk w) = (rep, k)" by (cases rule: prod.exhaust)
  have zero: "readInt ''0'' = 0" "decimalOk ''0''" by code_simp+
  have ok: "decimalOk (showInt i)" using i by (simp add: decimalOk_def)
  let ?n = "if view (w_vk w) ?key = None then -1 else i - 1"
  have rep: "rep = RInt ?n"
    using valkey_service.serve [OF srv x] pre ok i zero by (auto simp: attemptsLeft_def Let_def)
  note cnt = valkey_service.hincrby_view [OF srv x [unfolded rep]]
  show ?thesis
  proof (cases "?n < 0")
    case True
    with call ck b x rep have "r = maxAttempts" "w_vk w' = valkeyDel E ?key k" by (auto simp: PostChallenge_def split: if_splits)
    then show ?thesis by (simp add: guardReply_def valkey_service.valkeyDel_view [OF srv refl])
  next
    case False
    then have some: "view (w_vk w) ?key \<noteq> None" and pos: "0 < i" by (auto split: if_splits)
    with pre have left: "attemptsLeft (view (w_vk w)) ?key i" by simp
    from False call ck b x rep have c: "challengeChecked E h req b ?n ?key (w\<lparr>w_vk := k\<rparr>) = (w', cs, r)"
      by (auto simp: PostChallenge_def split: if_splits)
    from cnt(1) some have "attemptsLeft (view k) ?key (i - 1)" by (auto simp: attemptsLeft_def map_of_hashPut)
    with challengeChecked_key [OF srv mfa_keys_free(2) c] left pos show ?thesis by (auto simp: attemptsLeft_def)
  qed
qed

text \<open>What can happen to a challenge after it was handed out: somebody sends its cookie, from any browser
  and at any time, or anything else runs that leaves the key of the challenge alone or loses it,
  as its expiry does. The number counts the codes that were looked at.\<close>

inductive guessing :: "(vcmd \<Rightarrow> 'k \<Rightarrow> vreply \<times> 'k) \<Rightarrow> ('k \<Rightarrow> kspace) \<Rightarrow> string \<Rightarrow> 'k world \<Rightarrow> nat \<Rightarrow> 'k world \<Rightarrow> bool"
  for V view token w0 where
    start: "guessing V view token w0 0 w0"
  | attempt: "guessing V view token w0 n w \<Longrightarrow> e_valkey E = V \<Longrightarrow> cookieOf req MfaChallengeCookieName = Some token \<Longrightarrow>
      PostChallenge E h req body w = (w', cs, r) \<Longrightarrow> guessing V view token w0 (if guardReply r then n else Suc n) w'"
  | other: "guessing V view token w0 n w \<Longrightarrow> view (w_vk w') (challengeKey token) \<in> {view (w_vk w) (challengeKey token), None} \<Longrightarrow>
      guessing V view token w0 n w'"

lemma guessing_bound:
  assumes g: "guessing V view token w0 n w" and srv: "valkey_service V view"
    and start: "attemptsLeft (view (w_vk w0)) (challengeKey token) 5"
  shows "\<exists>i. 0 \<le> i \<and> int n + i \<le> 5 \<and> (view (w_vk w) (challengeKey token) = None \<or> attemptsLeft (view (w_vk w)) (challengeKey token) i)"
  using g
proof induction
  case start
  show ?case using assms(3) by (intro exI [of _ 5]) simp
next
  case (attempt n w E req h body w' cs r)
  then obtain i where i: "0 \<le> i" "int n + i \<le> 5"
    "view (w_vk w) (challengeKey token) = None \<or> attemptsLeft (view (w_vk w)) (challengeKey token) i" by blast
  have "valkey_service (e_valkey E) view" using srv attempt.hyps by simp
  from PostChallenge_counts [OF this attempt.hyps(3,4) i(3) i(1)] i(2)
  consider "guardReply r" "view (w_vk w') (challengeKey token) \<in> {view (w_vk w) (challengeKey token), None}"
    | "0 < i" "view (w_vk w') (challengeKey token) = None \<or> attemptsLeft (view (w_vk w')) (challengeKey token) (i - 1)" by fastforce
  then show ?case
  proof cases
    case 1
    with i show ?thesis by (intro exI [of _ i]) (auto simp: attemptsLeft_def)
  next
    case 2
    with i show ?thesis by (intro exI [of _ "i - 1"]) auto
  qed
next
  case (other n w w')
  then show ?case by (auto simp: attemptsLeft_def)
qed

context valkey_service
begin

lemma putHash_view:
  assumes "e_valkey E = V" and "putHash E key fvs ttl k = (k', True)" and "0 < ttl"
  shows "view k' key = Some (VHash (fold hashPut fvs (fieldsAt (view k) key)), Some ttl)"
proof -
  obtain r k1 where h: "V (HSET key fvs) k = (r, k1)" by (cases rule: prod.exhaust)
  obtain r2 k2 where x: "V (EXPIRE key ttl) k1 = (r2, k2)" by (cases rule: prod.exhaust)
  have r: "r \<noteq> RErr" and "k' = k2" using assms(1,2) h x by (auto simp: putHash_def split: if_splits)
  moreover from serve [OF h] r obtain e where "view k1 key = Some (VHash (fold hashPut fvs (fieldsAt (view k) key)), e)"
    by (auto simp: fieldsAt_def split: option.splits prod.splits vval.splits) (metis fun_upd_same)+
  ultimately show ?thesis using serve [OF x] assms(3) by auto (metis fun_upd_same)
qed

end

lemma challenge_cookie:
  assumes srv: "valkey_service (e_valkey E) view" and call: "PostLogin E h req body w = (w', cs, r)"
    and c: "c \<in> set cs" "ck_Name c = MfaChallengeCookieName"
  shows "attemptsLeft (view (w_vk w')) (challengeKey (ck_Value c)) 5"
  using call
proof (cases rule: PostLogin_cases)
  case (ran b th dur t out)
  note f = ran(8)
  have no: "ck_Name (SetCookie tok s) \<noteq> MfaChallengeCookieName" "ck_Name (mfaCookie ''schlass_mfa_enroll'' tok n s) \<noteq> MfaChallengeCookieName"
    for tok s n by (simp_all add: SetCookie_def mfaCookie_def MfaChallengeCookieName_def)
  obtain u where out: "out = StartChallenge u"
    using f c by (cases out) (auto simp: no signIn_def startSecondFactor_def split: prod.splits option.splits bool.splits)
  let ?fvs = "[(''user_id'', e_uuid_string E (u_ID u)), (''attempts_remaining'', showInt 5)] @ optField ''return_to'' (cleanReturnTo E h (lr_ReturnTo b))"
  obtain token where tok: "RandomToken E ''mfa.challenge'' 32 = Some token"
    using f out c by (cases "RandomToken E ''mfa.challenge'' 32") (auto simp: startSecondFactor_def)
  obtain k ok where p: "putHash E (challengeKey token) ?fvs (120 * second) (w_vk w) = (k, ok)" by (cases rule: prod.exhaust)
  have fin: "startSecondFactor E h ''mfa.challenge'' ''schlass_mfa_challenge'' challengeKey ?fvs 120 TotpRequired (w\<lparr>w_db := tx_db t\<rparr>)
      = (w', cs, r)" using f out by simp
  have ok: "ok" using fin c tok p by (cases ok) (auto simp: startSecondFactor_def)
  with fin tok p have "w_vk w' = k" "cs = [mfaCookie ''schlass_mfa_challenge'' token 120 (ah_CookieSecure h)]"
    by (auto simp: startSecondFactor_def)
  with c have k: "w_vk w' = k" "ck_Value c = token" by (auto simp: mfaCookie_def)
  have "view k (challengeKey token) =
      Some (VHash (fold hashPut ?fvs (fieldsAt (view (w_vk w)) (challengeKey token))), Some (120 * second))"
    using valkey_service.putHash_view [OF srv refl, of "challengeKey token" ?fvs "120 * second"] p ok by (simp add: second_def)
  then show ?thesis unfolding k attemptsLeft_def by (auto simp: optField_def map_of_hashPut)
qed (use c in simp)

text \<open>C17. The attempts at a second factor are bounded: after \<open>PostLogin\<close> has handed out a challenge, the codes
  sent with its cookie are looked at no more than five times, whoever sends them, in whatever order
  and with anything else in between, however often the requests are repeated. Every further one is
  answered before its code is read.\<close>

theorem challenge_budget:
  assumes login: "PostLogin E h req body w = (w1, cs, r)" and cookie: "c \<in> set cs" "ck_Name c = MfaChallengeCookieName"
    and srv: "valkey_service (e_valkey E) view"
    and run: "guessing (e_valkey E) view (ck_Value c) w1 n w2"
  shows "n \<le> 5"
  using guessing_bound [OF run srv challenge_cookie [OF srv login cookie]] by auto

section \<open>A sample\<close>

definition sampleMfa :: MFAHandler where
  "sampleMfa = NewMFAHandler ''key'' ''https://id.example.org''"

definition sampleChallenge :: "(string \<times> string) list" where
  "sampleChallenge = [(''attempts_remaining'', showInt 5), (''user_id'', showNat 7)]"

definition sampleCode :: recovery_code where
  "sampleCode = \<lparr>rc_ID = 31, rc_UserID = 7, rc_CodeHash = sampleHash, rc_UsedAt = None, rc_CreatedAt = 0\<rparr>"

definition sampleChallengeWorld :: "kspace world" where
  "sampleChallengeWorld = \<lparr>w_db = (w_db sampleEnrolledWorld)\<lparr>db_recovery_codes := [sampleCode]\<rparr>,
     w_vk = [challengeKey ''tok'' \<mapsto> (VHash sampleChallenge, Some (120 * second))]\<rparr>"

abbreviation sampleRecovery :: challengeRequest where
  "sampleRecovery \<equiv> \<lparr>chr_Code = [], chr_RecoveryCode = ''Correct1horse''\<rparr>"

lemma sample_challenge_space: "session_inv (w_vk sampleChallengeWorld)" "liveSession (w_vk sampleChallengeWorld) t = None"
  using sessions_frame [of "challengeKey ''tok''" "w_vk sampleChallengeWorld" Map.empty] sample_space
  by (simp_all add: sampleChallengeWorld_def sampleLoginWorld_def liveSession_def storedAt_def)

lemma sample_passed:
  obtains w' cs r tok where
    "PostChallenge sampleEnv sampleMfa (sampleAuthRequest [(MfaChallengeCookieName, ''tok'')]) (Some sampleRecovery) sampleChallengeWorld = (w', cs, r)"
    "liveSession (w_vk w') tok \<noteq> liveSession (w_vk sampleChallengeWorld) tok"
proof -
  let ?req = "sampleAuthRequest [(MfaChallengeCookieName, ''tok'')]" and ?d = "w_db sampleChallengeWorld"
  let ?key = "challengeKey ''tok''"
  have rows: "db_users ?d = [sampleEnrolled]" "db_recovery_codes ?d = [sampleCode]"
    by (simp_all add: sampleChallengeWorld_def sampleEnrolledWorld_def)
  obtain t where t: "recoveryBody sampleEnv ?req sampleEnrolled 31 (pool ?d) = Inr (t, ())" "\<not> tx_aborted t"
    by (simp add: recoveryBody_def attempt_def RecoveryMarkUsed_def SetLastLoginAt_def stmt_def updUsers_def updCodes_def needRow_def
        rows sampleCode_def sample_enrolled sample_audit)
  have tx: "inTx sampleEnv ''mfa.recovery'' (recoveryBody sampleEnv ?req sampleEnrolled 31) ?d = (tx_db t, Inr ())"
    using t by (auto simp: inTx_Inr)
  define k where "k = (w_vk sampleChallengeWorld)(?key \<mapsto> (VHash (hashPut (''attempts_remaining'', showInt 4) sampleChallenge), Some (120 * second)))"
  have dec: "decimalOk (showInt 5)" by (simp add: decimalOk_def)
  have inc: "e_valkey sampleEnv (HINCRBY ?key ''attempts_remaining'' (-1)) (w_vk sampleChallengeWorld) = (RInt 4, k)"
    using dec by (simp add: k_def sampleChallengeWorld_def sampleChallenge_def)
  have g: "hget sampleEnv ?key ''user_id'' k = (k, showNat 7)" "hget sampleEnv ?key ''return_to'' k = (k, [])"
    by (simp_all add: hget_def k_def sampleChallenge_def hashPut_def)
  have ne: "showNat 7 \<noteq> []" by code_simp
  have scan: "scanCodes sampleEnv ''Correct1horse'' None [sampleCode] = Some 31"
    using sample_password by (simp add: sampleCode_def)
  have lst: "snd (ListUnused sampleEnv 7 (pool ?d)) = Inr [sampleCode]"
    by (simp add: ListUnused_def query_def stmt_def rows unusedOf_def sampleCode_def)
  obtain w' cs r where p: "passChallenge sampleEnv sampleMfa ?req sampleEnrolled 7 ?key [] (sampleChallengeWorld\<lparr>w_vk := k, w_db := tx_db t\<rparr>)
      = (w', cs, r)" by (cases rule: prod_cases3)
  have "snd (UserGetByID sampleEnv ''mfa.challenge'' 7 (pool ?d)) = Inr sampleEnrolled"
    by (simp add: UserGetByID_up rows sample_enrolled)
  with p inc g ne scan lst tx have call: "PostChallenge sampleEnv sampleMfa ?req (Some sampleRecovery) sampleChallengeWorld = (w', cs, r)"
    by (simp add: PostChallenge_def cookieOf_def sampleAuthRequest_def challengeChecked_def verifyRecoveryCode_def sample_enrolled)
  let ?w = "sampleChallengeWorld\<lparr>w_db := tx_db t, w_vk := valkeyDel sampleEnv ?key k\<rparr>"
  have inv: "session_inv (w_vk ?w)"
    using sessions_frame(2) [of ?key "w_vk ?w" "w_vk sampleChallengeWorld"] sample_challenge_space by (simp add: valkeyDel_def k_def)
  have s: "signIn sampleEnv (mh_SecureCookie sampleMfa) ?req [mfaCookie MfaChallengeCookieName [] (-1) (mh_SecureCookie sampleMfa)] 7 []
      (SignedIn (userDTO sampleEnv sampleEnrolled) []) ?w = (w', cs, r)" using p by (simp add: passChallenge_def)
  from sampleServer inv s have "\<exists>tok. liveSession (w_vk w') tok \<noteq> None"
  proof (cases rule: signIn_cases [where view = "\<lambda>m. m"])
    case (signed_in tok)
    then show ?thesis by (intro exI [of _ tok]) simp
  qed simp
  with call that sample_challenge_space(2) show thesis by auto
qed

theorem challenge_sound_witness:
  "\<exists>w' cs r. PostChallenge sampleEnv sampleMfa (sampleAuthRequest [(MfaChallengeCookieName, ''tok'')]) (Some sampleRecovery) sampleChallengeWorld
       = (w', cs, r) \<and> secondFactor sampleEnv sampleMfa sampleEnrolled sampleRecovery (w_db sampleChallengeWorld) (w_db w') \<and>
     w_vk w' (challengeKey ''tok'') = None"
proof -
  obtain w' cs r tok where c: "PostChallenge sampleEnv sampleMfa (sampleAuthRequest [(MfaChallengeCookieName, ''tok'')]) (Some sampleRecovery)
      sampleChallengeWorld = (w', cs, r)" and ch: "liveSession (w_vk w') tok \<noteq> liveSession (w_vk sampleChallengeWorld) tok"
    by (rule sample_passed)
  from challenge_sound [where view = "\<lambda>m. m", OF c sampleServer sample_challenge_space(1) ch] c show ?thesis
    by (auto simp: cookieOf_def sampleAuthRequest_def sampleChallengeWorld_def sampleEnrolledWorld_def)
qed

text \<open>An instance that asks for the second factor hands out a challenge, and one wrong code is counted.\<close>

definition sampleStrictWorld :: "kspace world" where
  "sampleStrictWorld = sampleEnrolledWorld\<lparr>w_db := (w_db sampleEnrolledWorld)\<lparr>db_config :=
     [(''lockout_threshold'', JInt 5), (''lockout_duration_secs'', JInt 900), (''mfa_required'', JBool True)]\<rparr>\<rparr>"

definition sampleChallengeToken :: string where
  "sampleChallengeToken = the (RandomToken sampleEnv ''mfa.challenge'' 32)"

lemma b64Raw_empty: "b64Raw A xs = [] \<longleftrightarrow> xs = []"
  by (induction A xs rule: b64Raw.induct) (auto simp: Let_def)

lemma sample_token: "RandomToken sampleEnv ''mfa.challenge'' 32 = Some sampleChallengeToken" "sampleChallengeToken \<noteq> []"
  by (simp_all add: sampleChallengeToken_def RandomToken_def base64RawURL_def b64Raw_empty)

lemma sample_challenged:
  obtains w1 r where "PostLogin sampleEnv sampleAuthHandler (sampleAuthRequest []) (Some sampleLogin) sampleStrictWorld
      = (w1, [mfaCookie MfaChallengeCookieName sampleChallengeToken 120 True], r)"
    "w_vk w1 = [challengeKey sampleChallengeToken \<mapsto> (VHash sampleChallenge, Some (120 * second))]"
proof -
  let ?req = "sampleAuthRequest []" and ?d = "w_db sampleStrictWorld" and ?key = "challengeKey sampleChallengeToken"
  have u: "u_Email sampleEnrolled = ''ada@example.org''" "\<not> lockedNow sampleEnv sampleEnrolled" "notLocked sampleEnv sampleEnrolled"
    "\<not> u_ForcePasswordChange sampleEnrolled"
    using sample_member(4-6) by (simp_all add: sampleEnrolled_def lockedNow_def notLocked_def sampleMember_def sampleUser_def)
  have rows: "db_users ?d = [sampleEnrolled]" by (simp add: sampleStrictWorld_def sampleEnrolledWorld_def)
  have cfg: "snd (GetInt sampleEnv ''lockout_threshold'' (pool ?d)) = Inr 5" "snd (GetInt sampleEnv ''lockout_duration_secs'' (pool ?d)) = Inr 900"
    "\<And>t. \<not> tx_aborted t \<Longrightarrow> db_config (tx_db t) = db_config ?d \<Longrightarrow> GetBool sampleEnv ''mfa_required'' t = (t, Inr True)"
    by (simp_all add: GetInt_def GetBool_def configGet_def query_def stmt_def sampleStrictWorld_def)
  obtain t where t: "ResetFailedLogins sampleEnv 7 (pool ?d) = (t, Inr ())" "\<not> tx_aborted t" "db_config (tx_db t) = db_config ?d"
    using u by (simp add: ResetFailedLogins_def stmt_def updUsers_def needRow_def rows sample_enrolled)
  have "UserGetByEmail sampleEnv ''ada@example.org'' (pool ?d) = (pool ?d, Inr sampleEnrolled)"
    by (simp add: UserGetByEmail_def query_def stmt_def needOne_def rows u)
  with t cfg u sample_password have "loginBody sampleEnv ?req 5 900 ''ada@example.org'' ''Correct1horse'' (pool ?d) = Inr (t, StartChallenge sampleEnrolled)"
    by (simp add: loginBody_def loginRight_def loginBranch_def sample_enrolled attempt_def)
  then have tx: "inTx sampleEnv ''login'' (loginBody sampleEnv ?req 5 900 ''ada@example.org'' ''Correct1horse'') ?d
      = (tx_db t, Inr (StartChallenge sampleEnrolled))" using t(2) by (auto simp: inTx_Inr)
  have "putHash sampleEnv ?key [(''user_id'', showNat 7), (''attempts_remaining'', showInt 5)] (120 * second) (w_vk sampleStrictWorld)
      = ([?key \<mapsto> (VHash sampleChallenge, Some (120 * second))], True)"
    by (simp add: putHash_def sampleStrictWorld_def sampleEnrolledWorld_def sampleLoginWorld_def second_def sampleChallenge_def hashPut_def)
  with tx cfg sample_login that show thesis
    by (simp add: PostLogin_def sampleLogin_def sample_lower cleanReturnTo_def optField_def startSecondFactor_def sample_token(1) sample_enrolled
        MfaChallengeCookieName_def sampleAuthHandler_def sampleAuthRequest_def)
qed

theorem challenge_budget_witness:
  "\<exists>w1 r w2 n. PostLogin sampleEnv sampleAuthHandler (sampleAuthRequest []) (Some sampleLogin) sampleStrictWorld
      = (w1, [mfaCookie MfaChallengeCookieName sampleChallengeToken 120 True], r) \<and>
     guessing vk_exec (\<lambda>m. m) sampleChallengeToken w1 n w2 \<and> n = 1 \<and> n \<le> 5"
proof -
  let ?key = "challengeKey sampleChallengeToken" and ?req = "sampleAuthRequest [(MfaChallengeCookieName, sampleChallengeToken)]"
    and ?b = "\<lparr>chr_Code = ''1'', chr_RecoveryCode = []\<rparr>"
  obtain w1 r where c: "PostLogin sampleEnv sampleAuthHandler (sampleAuthRequest []) (Some sampleLogin) sampleStrictWorld
      = (w1, [mfaCookie MfaChallengeCookieName sampleChallengeToken 120 True], r)"
    and k1: "w_vk w1 = [?key \<mapsto> (VHash sampleChallenge, Some (120 * second))]" by (rule sample_challenged)
  obtain w2 cs r2 where p: "PostChallenge sampleEnv sampleMfa ?req (Some ?b) w1 = (w2, cs, r2)" by (cases rule: prod_cases3)
  have ck: "cookieOf ?req MfaChallengeCookieName = Some sampleChallengeToken" by (simp add: cookieOf_def sampleAuthRequest_def)
  define k where "k = (w_vk w1)(?key \<mapsto> (VHash (hashPut (''attempts_remaining'', showInt 4) sampleChallenge), Some (120 * second)))"
  have dec: "decimalOk (showInt 5)" by (simp add: decimalOk_def)
  have inc: "e_valkey sampleEnv (HINCRBY ?key ''attempts_remaining'' (-1)) (w_vk w1) = (RInt 4, k)"
    using dec by (simp add: k_def k1 sampleChallenge_def)
  have g: "hget sampleEnv ?key ''user_id'' k = (k, showNat 7)" "hget sampleEnv ?key ''return_to'' k = (k, [])"
    by (simp_all add: hget_def k_def sampleChallenge_def hashPut_def)
  have ne: "showNat 7 \<noteq> []" by code_simp
  have "challengeChecked sampleEnv sampleMfa ?req ?b 4 ?key (w1\<lparr>w_vk := k\<rparr>) = (w2, cs, r2)"
    using p ck sample_token(2) inc by (simp add: PostChallenge_def)
  then have "r2 = internalError \<or> r2 = WriteError 401 ''MFA_INVALID_CODE'' ''Invalid code.''"
    using g ne by (auto simp: challengeChecked_def invalidCode_def Let_def split: sum.splits)
  then have "\<not> guardReply r2"
    by (auto simp: guardReply_def challengeExpired_def maxAttempts_def invalidBody_def internalError_def)
  with guessing.attempt [OF guessing.start [where V = vk_exec and view = "\<lambda>m. m" and token = sampleChallengeToken and ?w0.0 = w1] _ ck p]
  have run: "guessing vk_exec (\<lambda>m. m) sampleChallengeToken w1 1 w2" by simp
  from challenge_budget [where view = "\<lambda>m. m" and n = 1, OF c _ _ sampleServer] run
  have "(1 :: nat) \<le> 5" by (simp add: mfaCookie_def)
  with c run show ?thesis by blast
qed

end
