(* ===== verification/SettingsProps.thy ===== *)
theory SettingsProps
  imports Setup MfaProps
begin

text \<open>
  What the settings guarantee: the table of the configuration keeps its types and its bounds whatever
  the handlers are asked for, a change takes effect exactly as asked and leaves one audit row per
  field, and the password of the mail server is read back by the sender and never logged. The
  mails built from such a configuration have the headers the code means and no others.
\<close>

section \<open>The types and bounds of the configuration\<close>

definition isBool :: "json \<Rightarrow> bool" where
  "isBool v = (case v of JBool b \<Rightarrow> True | _ \<Rightarrow> False)"

definition intIn :: "int \<Rightarrow> int \<Rightarrow> json \<Rightarrow> bool" where
  "intIn lo hi v = (case v of JInt n \<Rightarrow> lo \<le> n \<and> n \<le> hi | _ \<Rightarrow> False)"

definition strWith :: "(string \<Rightarrow> bool) \<Rightarrow> json \<Rightarrow> bool" where
  "strWith p v = (case v of JStr s \<Rightarrow> p s | _ \<Rightarrow> False)"

definition orNull :: "(json \<Rightarrow> bool) \<Rightarrow> json \<Rightarrow> bool" where
  "orNull p v = (v = JNull \<or> p v)"

definition configSchema :: "(string \<times> (json \<Rightarrow> bool)) list" where
  "configSchema =
     [(''mfa_required'', isBool), (''lockout_threshold'', intIn 1 50), (''lockout_duration_secs'', intIn 60 86400),
      (''password_min_length'', intIn 8 128), (''password_require_upper'', isBool), (''password_require_digit'', isBool),
      (''access_token_ttl_secs'', intIn 300 3600), (''refresh_token_ttl_secs'', intIn 3600 604800),
      (''smtp_host'', orNull (strWith (\<lambda>s. s \<noteq> [] \<and> length s \<le> 253))), (''smtp_port'', orNull (intIn 1 65535)),
      (''smtp_username'', orNull (strWith (\<lambda>s. length s \<le> 320))), (''smtp_password'', orNull (strWith (\<lambda>s. True))),
      (''smtp_from'', orNull (strWith (\<lambda>s. s \<noteq> [] \<and> \<not> containsAny s lineBreakers))),
      (''instance_name'', orNull (strWith (\<lambda>s. s \<noteq> [] \<and> length s \<le> 128))), (''setup_complete'', isBool)]"

definition configOk :: "(string \<times> json) list \<Rightarrow> bool" where
  "configOk cfg = list_all (\<lambda>(k, p). case map_of cfg k of None \<Rightarrow> False | Some v \<Rightarrow> p v) configSchema"

text \<open>What the migration inserts.\<close>

definition seedConfig :: "(string \<times> json) list" where
  "seedConfig =
     [(''mfa_required'', JBool True), (''lockout_threshold'', JInt 5), (''lockout_duration_secs'', JInt 900),
      (''password_min_length'', JInt 12), (''password_require_upper'', JBool True), (''password_require_digit'', JBool True),
      (''access_token_ttl_secs'', JInt 900), (''refresh_token_ttl_secs'', JInt 86400), (''smtp_host'', JNull),
      (''smtp_port'', JNull), (''smtp_username'', JNull), (''smtp_password'', JNull), (''smtp_from'', JNull),
      (''instance_name'', JNull), (''setup_complete'', JBool False)]"

lemma seedConfig_ok: "configOk seedConfig"
  by (simp add: configOk_def configSchema_def seedConfig_def isBool_def intIn_def orNull_def)

lemma configOk_at: "configOk cfg \<Longrightarrow> (k, p) \<in> set configSchema \<Longrightarrow> \<exists>v. map_of cfg k = Some v \<and> p v"
  unfolding configOk_def list_all_iff by (fastforce split: option.splits)

lemma configOk_present: "configOk cfg \<Longrightarrow> k \<in> fst ` set configSchema \<Longrightarrow> map_of cfg k \<noteq> None"
  using configOk_at by fastforce

lemma configSet_ok:
  assumes "configSet E key v t = (t', Inr x)" and "configOk (db_config (tx_db t))" and "\<forall>p. (key, p) \<in> set configSchema \<longrightarrow> p v"
  shows "configOk (db_config (tx_db t'))"
proof -
  have cfg: "db_config (tx_db t') = map (\<lambda>(k, old). if k = key then (k, v) else (k, old)) (db_config (tx_db t))"
    using assms(1) by (auto simp: configSet_def stmt_Inr)
  have "\<exists>w. map_of (db_config (tx_db t')) k = Some w \<and> p w" if kp: "(k, p) \<in> set configSchema" for k p
    using configOk_at [OF assms(2) kp] assms(3) kp unfolding cfg map_of_set by (cases "k = key") auto
  then show ?thesis unfolding configOk_def list_all_iff by (fastforce split: option.splits)
qed

text \<open>A change that any of the validators lets pass.\<close>

definition storable :: "string \<Rightarrow> newValue \<Rightarrow> bool" where
  "storable key nv =
     (\<forall>p. (key, p) \<in> set configSchema \<longrightarrow>
        (case nv of NBool b \<Rightarrow> p (JBool b) | NInt n \<Rightarrow> p (JInt n) | NStr s \<Rightarrow> p (JStr s) | NSecret s \<Rightarrow> \<forall>x. p (JStr x)))"

lemma writeChange_ok:
  assumes "writeChange E ek key nv t = (t', Inr x)" and "configOk (db_config (tx_db t))" and "storable key nv"
  shows "configOk (db_config (tx_db t'))"
proof (cases nv)
  case (NSecret s)
  with assms(1) obtain c where "configSet E key (JStr (base64Std c)) t = (t', Inr x)"
    by (auto simp: SetEncryptedValue_def split: option.splits)
  from configSet_ok [OF this assms(2)] assms(3) NSecret show ?thesis by (auto simp: storable_def)
qed (use assms configSet_ok [OF _ assms(2)] in \<open>auto simp: storable_def SetBool_def SetInt_def SetString_def\<close>)

lemma Log_config: "Log E cid en t = (t', r) \<Longrightarrow> db_config (tx_db t') = db_config (tx_db t)"
  by (rule Log_tables)

lemma applyChanges_ok:
  "applyChanges E ek req actor cs t = Inr (t', x) \<Longrightarrow> configOk (db_config (tx_db t)) \<Longrightarrow>
     \<forall>c\<in>set cs. storable (cg_key c) (cg_value c) \<Longrightarrow> configOk (db_config (tx_db t'))"
proof (induction cs arbitrary: t)
  case (Cons c cs)
  from Cons.prems(1) obtain t1 y1 t2 y2 where w: "writeChange E ek (cg_key c) (cg_value c) t = (t1, Inr y1)"
    and l: "Log E (req_CorrelationID req) (configEntry E req actor (cg_key c) (cg_meta c)) t1 = (t2, Inr y2)"
    and r: "applyChanges E ek req actor cs t2 = Inr (t', x)" by (auto simp: attempt_Inr)
  have "configOk (db_config (tx_db t2))"
    using writeChange_ok [OF w Cons.prems(2)] Cons.prems(3) Log_config [OF l] by simp
  with Cons.IH [OF r] Cons.prems(3) show ?case by simp
qed simp

lemma saveChanges_ok:
  assumes "saveChanges E ek req actor site view pre cs d = (d', r)" and "configOk (db_config d)"
    and "\<forall>c\<in>set cs. storable (cg_key c) (cg_value c)"
  shows "configOk (db_config d')"
proof (cases "cs = []")
  case False
  obtain d1 x where tx: "inTx E site (applyChanges E ek req actor cs) d = (d1, x)" by (cases rule: prod.exhaust)
  have "d' = d1" using assms(1) False tx by (cases x) (auto simp: saveChanges_def)
  with tx show ?thesis
    by (cases rule: inTx_cases) (use assms(2,3) applyChanges_ok [of E ek req actor cs "pool d"] in auto)
qed (use assms in \<open>simp add: saveChanges_def\<close>)

lemma changed_set: "c \<in> set (changed key m n new old) \<Longrightarrow> \<exists>v. new = Some v \<and> v \<noteq> old \<and> cg_key c = key \<and> cg_value c = n v"
  by (auto simp: changed_def split: option.splits if_splits)

lemma securityChanges_ok: "ValidateSecuritySettings s = None \<Longrightarrow> \<forall>c\<in>set (securityChanges s pre). storable (cg_key c) (cg_value c)"
  by (auto simp: ValidateSecuritySettings_def outOfRange_def securityChanges_def storable_def configSchema_def isBool_def intIn_def
      dest!: changed_set split: if_splits)

lemma tokensChanges_ok: "ValidateTokenSettings s = None \<Longrightarrow> \<forall>c\<in>set (tokensChanges s pre). storable (cg_key c) (cg_value c)"
  by (auto simp: ValidateTokenSettings_def outOfRange_def tokensChanges_def storable_def configSchema_def intIn_def
      dest!: changed_set split: if_splits)

lemma emailChanges_ok:
  assumes "ValidateEmailSettings E nm s = None"
  shows "\<forall>c\<in>set (emailChanges s pre). storable (cg_key c) (cg_value c)"
proof -
  have host: "trimSpace h \<noteq> [] \<and> length (trimSpace h) \<le> 253" if "ep_SMTPHost s = Some h" for h
    using assms that by (auto simp: ValidateEmailSettings_def validateHost_def Let_def split: if_splits option.splits)
  have sender: "trimSpace f \<noteq> [] \<and> \<not> containsAny (trimSpace f) lineBreakers" if "ep_SMTPFrom s = Some f" for f
    using assms that by (auto simp: ValidateEmailSettings_def validateFrom_def Let_def split: if_splits option.splits)
  have rest: "\<not> outOfRange 1 65535 (ep_SMTPPort s)" "ep_SMTPUsername s = Some u \<Longrightarrow> length u \<le> 320" for u
    using assms by (auto simp: ValidateEmailSettings_def split: if_splits option.splits)
  show ?thesis
    using host sender rest
    by (auto simp: outOfRange_def emailChanges_def storable_def configSchema_def intIn_def orNull_def strWith_def
        dest!: changed_set split: if_splits option.splits)
qed

lemma SetInstanceName_ok:
  "SetInstanceName E name t = (t', Inr x) \<Longrightarrow> configOk (db_config (tx_db t)) \<Longrightarrow> name \<noteq> [] \<Longrightarrow> length name \<le> 128 \<Longrightarrow>
     configOk (db_config (tx_db t'))"
  by (rule configSet_ok [of E "''instance_name''" "JStr name" t t' x])
    (auto simp: SetInstanceName_def configSchema_def orNull_def strWith_def)

lemma SetSetupComplete_ok:
  "SetSetupComplete E t = (t', Inr x) \<Longrightarrow> configOk (db_config (tx_db t)) \<Longrightarrow> configOk (db_config (tx_db t'))"
  by (rule configSet_ok [of E "''setup_complete''" "JBool True" t t' x]) (auto simp: SetSetupComplete_def configSchema_def isBool_def)

lemma generalBody_ok:
  "generalBody E req actor old new t = Inr (t', x) \<Longrightarrow> configOk (db_config (tx_db t)) \<Longrightarrow> new \<noteq> [] \<Longrightarrow> length new \<le> 64 \<Longrightarrow>
     configOk (db_config (tx_db t'))"
  by (auto simp: generalBody_def attempt_Inr dest!: Log_config SetInstanceName_ok)

lemma UserCreate_config: "UserCreate E email hash role f t = (t', Inr uid) \<Longrightarrow> db_config (tx_db t') = db_config (tx_db t)"
  by (auto simp: UserCreate_def stmt_Inr Let_def split: if_splits)

lemma setupTx_ok:
  "setupTx E req r hash t = Inr (t', x) \<Longrightarrow> configOk (db_config (tx_db t)) \<Longrightarrow> sr_InstanceName r \<noteq> [] \<Longrightarrow>
     length (sr_InstanceName r) \<le> 128 \<Longrightarrow> configOk (db_config (tx_db t'))"
  by (auto simp: setupTx_def attempt_Inr dest!: UserCreate_config SetSetupComplete_ok SetInstanceName_ok Log_config)

lemma PatchGeneral_ok:
  assumes "PatchGeneral E req cu body d = (d', r)" and "configOk (db_config d)"
  shows "configOk (db_config d')"
proof (cases "\<exists>actor name old. cu = Some actor \<and> body = Some name \<and> ValidateGeneralSettings name = None \<and>
    snd (InstanceName E (pool d)) = Inr old \<and> trimSpace name \<noteq> old")
  case True
  then obtain actor name old where g: "cu = Some actor" "body = Some name" "ValidateGeneralSettings name = None"
    "snd (InstanceName E (pool d)) = Inr old" "trimSpace name \<noteq> old" by blast
  then have v: "trimSpace name \<noteq> []" "length (trimSpace name) \<le> 64"
    by (auto simp: ValidateGeneralSettings_def Let_def split: if_splits)
  obtain d1 x where tx: "inTx E ''settings.PatchGeneral'' (generalBody E req actor old (trimSpace name)) d = (d1, x)"
    by (cases rule: prod.exhaust)
  have "d' = d1" using assms(1) g tx by (cases x) (auto simp: PatchGeneral_def Let_def)
  with tx show ?thesis
    by (cases rule: inTx_cases) (use assms(2) v generalBody_ok [of E req actor old "trimSpace name" "pool d"] in auto)
next
  case False
  with assms show ?thesis by (auto simp: PatchGeneral_def Let_def split: option.splits sum.splits if_splits)
qed

lemma PostSetup_ok:
  assumes "PostSetup E hibp req body d = (d', r)" and "configOk (db_config d)"
  shows "configOk (db_config d')"
proof (cases "setupPrepare E hibp body d")
  case (Inr p)
  obtain q hash where p: "p = (q, hash)" by (cases p)
  have v: "sr_InstanceName q \<noteq> []" "length (sr_InstanceName q) \<le> 128"
    using Inr p by (auto simp: setupPrepare_def SetupValidate_def split: sum.splits option.splits if_splits prod.splits)
  obtain d1 x where tx: "inTx E ''setup'' (setupTx E req q hash) d = (d1, x)" by (cases rule: prod.exhaust)
  have "d' = d1" using assms(1) Inr p tx by (cases x) (auto simp: PostSetup_def setupCommit_def)
  with tx show ?thesis
    by (cases rule: inTx_cases) (use assms(2) v setupTx_ok [of E req q hash "pool d"] in auto)
qed (use assms in \<open>simp add: PostSetup_def\<close>)

text \<open>Everything that writes the configuration: the wizard and the four handlers, with any request, by
  anybody, and with any behaviour of the services.\<close>

inductive config_step :: "'k env set \<Rightarrow> db \<Rightarrow> db \<Rightarrow> bool" for Es where
    wizard: "E \<in> Es \<Longrightarrow> config_step Es d (fst (PostSetup E hibp req sbody d))"
  | general: "E \<in> Es \<Longrightarrow> config_step Es d (fst (PatchGeneral E req cu gbody d))"
  | security: "E \<in> Es \<Longrightarrow> config_step Es d (fst (PatchSecurity E ek req cu secbody d))"
  | tokens: "E \<in> Es \<Longrightarrow> config_step Es d (fst (PatchTokens E ek req cu tbody d))"
  | email: "E \<in> Es \<Longrightarrow> config_step Es d (fst (PatchEmail E ek nm req cu ebody d))"
  | other: "db_config d' = db_config d \<Longrightarrow> config_step Es d d'"

lemma Patch_ok:
  assumes "configOk (db_config d)"
  shows "configOk (db_config (fst (PatchSecurity E ek req cu sb d)))" "configOk (db_config (fst (PatchTokens E ek req cu tb d)))"
    "configOk (db_config (fst (PatchEmail E ek nm req cu eb d)))"
proof -
  note keep = saveChanges_ok [OF prod.collapse [symmetric] assms]
  show "configOk (db_config (fst (PatchSecurity E ek req cu sb d)))" "configOk (db_config (fst (PatchTokens E ek req cu tb d)))"
    "configOk (db_config (fst (PatchEmail E ek nm req cu eb d)))"
    using assms
    by (auto simp: PatchSecurity_def PatchTokens_def PatchEmail_def Let_def split: option.splits
        intro!: keep securityChanges_ok tokensChanges_ok emailChanges_ok)
qed

lemma config_step_ok: "config_step Es d d' \<Longrightarrow> configOk (db_config d) \<Longrightarrow> configOk (db_config d')"
  by (induction rule: config_step.induct)
    (auto intro: Patch_ok PatchGeneral_ok [OF prod.collapse [symmetric]] PostSetup_ok [OF prod.collapse [symmetric]])

text \<open>C22. The configuration is well typed: from what the migration inserts, whatever is sent to the wizard and to
  the handlers of the settings, in whatever order and however the services fail, every key keeps
  its type and its bounds. In particular the threshold and the duration of the lockout, the length
  of passwords and the lifetimes of the tokens stay in their ranges.\<close>

theorem config_typed:
  assumes "(config_step Es)\<^sup>*\<^sup>* d d'" and "db_config d = seedConfig"
  shows "configOk (db_config d')"
  using assms by (induction rule: rtranclp_induct) (auto intro: config_step_ok simp: seedConfig_ok)

definition sampleSettings :: db where
  "sampleSettings = emptyDB\<lparr>db_config := seedConfig\<rparr>"

abbreviation sampleShortTokens :: TokensPatch where
  "sampleShortTokens \<equiv> \<lparr>tp_AccessTokenTTLSecs = Some 600, tp_RefreshTokenTTLSecs = None\<rparr>"

theorem config_typed_witness:
  "configOk (db_config (fst (PatchTokens sampleEnv [] (aq_Req (sampleAuthRequest [])) (Some sampleMember) (Some sampleShortTokens) sampleSettings)))"
proof -
  have "config_step {sampleEnv} sampleSettings
      (fst (PatchTokens sampleEnv [] (aq_Req (sampleAuthRequest [])) (Some sampleMember) (Some sampleShortTokens) sampleSettings))"
    by (rule config_step.tokens) simp
  then show ?thesis by (intro config_typed [OF r_into_rtranclp]) (auto simp: sampleSettings_def)
qed

section \<open>What a change does\<close>

text \<open>The value a change stores; the encryption may fail.\<close>

fun storedValue :: "'k env \<Rightarrow> bytes \<Rightarrow> string \<Rightarrow> newValue \<Rightarrow> json option" where
  "storedValue E ek key (NBool b) = Some (JBool b)"
| "storedValue E ek key (NInt n) = Some (JInt n)"
| "storedValue E ek key (NStr s) = Some (JStr s)"
| "storedValue E ek key (NSecret s) = map_option (\<lambda>c. JStr (base64Std c)) (Encrypt E s ek (encryptedValueAAD key))"

text \<open>No table but the configuration and the log differs.\<close>

definition configOnly :: "db \<Rightarrow> db \<Rightarrow> bool" where
  "configOnly d d' =
     (db_users d' = db_users d \<and> db_clients d' = db_clients d \<and> db_codes d' = db_codes d \<and> db_signing_keys d' = db_signing_keys d \<and>
      db_recovery_codes d' = db_recovery_codes d \<and> db_reset_tokens d' = db_reset_tokens d)"

lemma configOnly_trans: "configOnly d d' \<Longrightarrow> configOnly d' d'' \<Longrightarrow> configOnly d d''"
  by (simp add: configOnly_def)

lemma Log_configOnly:
  "Log E cid en t = (t', Inr x) \<Longrightarrow> configOnly (tx_db t) (tx_db t') \<and> db_config (tx_db t') = db_config (tx_db t) \<and>
     db_audit_logs (tx_db t') = db_audit_logs (tx_db t) @ [auditRow E cid en]"
  by (auto simp: Log_def configOnly_def split: if_splits)

lemma writeChange_Inr:
  assumes "writeChange E ek key nv t = (t', Inr x)" and "map_of (db_config (tx_db t)) key \<noteq> None"
  shows "configOnly (tx_db t) (tx_db t') \<and> db_audit_logs (tx_db t') = db_audit_logs (tx_db t) \<and>
    (\<exists>v. storedValue E ek key nv = Some v \<and> map_of (db_config (tx_db t')) = (map_of (db_config (tx_db t)))(key \<mapsto> v))"
proof -
  obtain v where v: "storedValue E ek key nv = Some v" "configSet E key v t = (t', Inr x)"
    using assms(1) by (cases nv) (auto simp: SetBool_def SetInt_def SetString_def SetEncryptedValue_def split: option.splits)
  from v(2) have "configOnly (tx_db t) (tx_db t')" "db_audit_logs (tx_db t') = db_audit_logs (tx_db t)"
    by (auto simp: configSet_def stmt_Inr configOnly_def)
  with v configSet_get(1) [of E key v t t'] assms(2) show ?thesis by auto
qed

definition changeRows :: "'k env \<Rightarrow> request \<Rightarrow> User \<Rightarrow> change list \<Rightarrow> audit_row list" where
  "changeRows E req actor cs = map (\<lambda>c. auditRow E (req_CorrelationID req) (configEntry E req actor (cg_key c) (cg_meta c))) cs"

text \<open>The database after all changes: the log has one row more for each of them, and the configuration
  differs at their keys.\<close>

definition applied :: "'k env \<Rightarrow> bytes \<Rightarrow> request \<Rightarrow> User \<Rightarrow> change list \<Rightarrow> db \<Rightarrow> db \<Rightarrow> bool" where
  "applied E ek req actor cs d d' =
     (configOnly d d' \<and> db_audit_logs d' = db_audit_logs d @ changeRows E req actor cs \<and>
      (\<forall>c\<in>set cs. storedValue E ek (cg_key c) (cg_value c) \<noteq> None \<and>
         map_of (db_config d') (cg_key c) = storedValue E ek (cg_key c) (cg_value c)) \<and>
      (\<forall>k. k \<notin> cg_key ` set cs \<longrightarrow> map_of (db_config d') k = map_of (db_config d) k))"

lemma applied_other: "applied E ek req actor cs d d' \<Longrightarrow> k \<notin> set (map cg_key cs) \<Longrightarrow> map_of (db_config d') k = map_of (db_config d) k"
  by (simp add: applied_def)

lemma applyChanges_exact:
  "applyChanges E ek req actor cs t = Inr (t', x) \<Longrightarrow> \<forall>c\<in>set cs. map_of (db_config (tx_db t)) (cg_key c) \<noteq> None \<Longrightarrow>
     distinct (map cg_key cs) \<Longrightarrow> applied E ek req actor cs (tx_db t) (tx_db t')"
proof (induction cs arbitrary: t)
  case Nil
  then show ?case by (simp add: applied_def changeRows_def configOnly_def)
next
  case (Cons c cs)
  from Cons.prems(1) obtain t1 y1 t2 y2 where w: "writeChange E ek (cg_key c) (cg_value c) t = (t1, Inr y1)"
    and l: "Log E (req_CorrelationID req) (configEntry E req actor (cg_key c) (cg_meta c)) t1 = (t2, Inr y2)"
    and r: "applyChanges E ek req actor cs t2 = Inr (t', x)" by (auto simp: attempt_Inr)
  obtain v where v: "storedValue E ek (cg_key c) (cg_value c) = Some v"
    "map_of (db_config (tx_db t1)) = (map_of (db_config (tx_db t)))(cg_key c \<mapsto> v)" "configOnly (tx_db t) (tx_db t1)"
    "db_audit_logs (tx_db t1) = db_audit_logs (tx_db t)"
    using writeChange_Inr [OF w] Cons.prems(2) by auto
  note l' = Log_configOnly [OF l]
  have "\<forall>c'\<in>set cs. map_of (db_config (tx_db t2)) (cg_key c') \<noteq> None" using Cons.prems(2) l' v(2) by simp
  from Cons.IH [OF r this] Cons.prems(3) have ih: "applied E ek req actor cs (tx_db t2) (tx_db t')" by simp
  have "configOnly (tx_db t) (tx_db t')" using v(3) l' ih configOnly_trans unfolding applied_def by blast
  with ih l' v Cons.prems(3) show ?case by (auto simp: applied_def changeRows_def)
qed

text \<open>The transaction of a change keeps the contract of the administration handlers.\<close>

lemma applyChanges_stops: "applyChanges E ek req actor cs t = Inl r \<Longrightarrow> failure r"
  by (induction cs arbitrary: t) (auto simp: attempt_Inl)

lemma writeChange_logs: "writeChange E ek key nv t = (t', Inr x) \<Longrightarrow> db_audit_logs (tx_db t') = db_audit_logs (tx_db t)"
  by (cases nv) (auto simp: SetBool_def SetInt_def SetString_def SetEncryptedValue_def configSet_def stmt_Inr split: option.splits)

lemma applyChanges_logs:
  "applyChanges E ek req actor cs t = Inr (t', x) \<Longrightarrow> db_audit_logs (tx_db t') = db_audit_logs (tx_db t) @ changeRows E req actor cs"
  by (induction cs arbitrary: t) (auto simp: attempt_Inr changeRows_def dest!: writeChange_logs Log_configOnly)

interpretation settings_change: audited_body "applyChanges E ek req actor (c # cs)" actor "\<lambda>d. True" for E ek req actor c cs
proof
  fix t r assume "applyChanges E ek req actor (c # cs) t = Inl r"
  then show "failure r" by (rule applyChanges_stops)
next
  fix t t' x assume "applyChanges E ek req actor (c # cs) t = Inr (t', x)"
  from applyChanges_logs [OF this]
  show "grown actor (db_audit_logs (tx_db t)) (db_audit_logs (tx_db t'))"
    unfolding grown_def
    by (intro exI [of _ "db_audit_logs (tx_db t)"] exI [of _ "changeRows E req actor (c # cs)"])
      (auto simp: changeRows_def actedAs_def auditRow_def configEntry_def list_all_iff)
qed

lemma saveChanges_saved:
  assumes s: "saveChanges E ek req actor site view (readSettings E d) cs d = (d', WriteJSON 200 b)"
    and keys: "\<forall>c\<in>set cs. map_of (db_config d) (cg_key c) \<noteq> None" "distinct (map cg_key cs)"
  shows "applied E ek req actor cs d d'" and "b = view (readSettings E d')"
proof -
  have "applied E ek req actor cs d d' \<and> b = view (readSettings E d')"
  proof (cases cs)
    case Nil
    with s show ?thesis by (auto simp: saveChanges_def applied_def changeRows_def configOnly_def)
  next
    case (Cons c cs1)
    obtain d1 x where tx: "inTx E site (applyChanges E ek req actor (c # cs1)) d = (d1, x)" by (cases rule: prod.exhaust)
    from tx show ?thesis
    proof (cases rule: settings_change.run)
      case (rolled_back resp)
      with s tx Cons show ?thesis by (auto simp: saveChanges_def)
    next
      case (ran t y)
      from applyChanges_exact [OF ran(2)] keys Cons ran(4) have "applied E ek req actor cs d d1" by simp
      with s tx Cons ran show ?thesis by (auto simp: saveChanges_def)
    qed
  qed
  then show "applied E ek req actor cs d d'" "b = view (readSettings E d')" by simp_all
qed

section \<open>The security settings\<close>

definition pick :: "'a option \<Rightarrow> 'a \<Rightarrow> 'a" where
  "pick new old = (case new of None \<Rightarrow> old | Some v \<Rightarrow> v)"

definition mergeSecurity :: "SecurityPatch \<Rightarrow> SecurityView \<Rightarrow> SecurityView" where
  "mergeSecurity s v =
     \<lparr>sv_MFARequired = pick (sp_MFARequired s) (sv_MFARequired v),
      sv_PasswordMinLength = pick (sp_PasswordMinLength s) (sv_PasswordMinLength v),
      sv_PasswordRequireUpper = pick (sp_PasswordRequireUpper s) (sv_PasswordRequireUpper v),
      sv_PasswordRequireDigit = pick (sp_PasswordRequireDigit s) (sv_PasswordRequireDigit v),
      sv_LockoutThreshold = pick (sp_LockoutThreshold s) (sv_LockoutThreshold v),
      sv_LockoutDurationSecs = pick (sp_LockoutDurationSecs s) (sv_LockoutDurationSecs v)\<rparr>"

text \<open>What the getters read from a table that keeps its schema, while the database answers.\<close>

lemma read_config:
  assumes "\<forall>c. \<not> e_pg_fails E c"
  shows "map_of (db_config d) key = Some (JBool b) \<Longrightarrow> readOr False (GetBool E key (pool d)) = b"
    and "map_of (db_config d) key = Some (JInt n) \<Longrightarrow> - (2 ^ 63) \<le> n \<Longrightarrow> n < 2 ^ 63 \<Longrightarrow> readOr 0 (GetInt E key (pool d)) = n"
  using assms by (simp_all add: readOr_def GetBool_def GetInt_def configGet_def query_def stmt_def)

lemma getters_cong:
  assumes "map_of (db_config d') k = map_of (db_config d) k"
  shows "readOr zi (GetInt E k (pool d')) = readOr zi (GetInt E k (pool d))" and "readOr zb (GetBool E k (pool d')) = readOr zb (GetBool E k (pool d))"
    and "readOr zs (GetString E k (pool d')) = readOr zs (GetString E k (pool d))" and "readOr zb (IsNull E k (pool d')) = readOr zb (IsNull E k (pool d))"
    and "readNullableString E k d' = readNullableString E k d"
  using assms by (simp_all add: readNullableString_def readOr_def GetInt_def GetBool_def GetString_def IsNull_def configGet_def query_def stmt_def
      split: option.splits)

lemma InstanceName_cong:
  "map_of (db_config d') ''instance_name'' = map_of (db_config d) ''instance_name'' \<Longrightarrow>
     snd (InstanceName E (pool d')) = snd (InstanceName E (pool d))"
  by (simp add: InstanceName_def GetString_def IsNull_def configGet_def query_def stmt_def split: option.splits)

lemma general_cong:
  "map_of (db_config d') ''instance_name'' = map_of (db_config d) ''instance_name'' \<Longrightarrow> st_General (readSettings E d') = st_General (readSettings E d)"
  using InstanceName_cong [of d' d E] by (simp add: readSettings_def readOr_def)

lemma tokens_cong:
  assumes "map_of (db_config d') ''access_token_ttl_secs'' = map_of (db_config d) ''access_token_ttl_secs''"
    and "map_of (db_config d') ''refresh_token_ttl_secs'' = map_of (db_config d) ''refresh_token_ttl_secs''"
  shows "st_Tokens (readSettings E d') = st_Tokens (readSettings E d)"
  by (simp add: readSettings_def getters_cong(1) [OF assms(1)] getters_cong(1) [OF assms(2)])

lemma email_cong:
  assumes "map_of (db_config d') ''smtp_host'' = map_of (db_config d) ''smtp_host''"
    and "map_of (db_config d') ''smtp_port'' = map_of (db_config d) ''smtp_port''"
    and "map_of (db_config d') ''smtp_username'' = map_of (db_config d) ''smtp_username''"
    and "map_of (db_config d') ''smtp_password'' = map_of (db_config d) ''smtp_password''"
    and "map_of (db_config d') ''smtp_from'' = map_of (db_config d) ''smtp_from''"
  shows "st_Email (readSettings E d') = st_Email (readSettings E d)"
  by (simp add: readSettings_def getters_cong(1) [OF assms(2)] getters_cong(4) [OF assms(4)] getters_cong(5) [OF assms(1)]
      getters_cong(5) [OF assms(3)] getters_cong(5) [OF assms(5)])

text \<open>One field: it has the new value if there is one.\<close>

definition onlyChange :: "change list \<Rightarrow> string \<Rightarrow> change list \<Rightarrow> bool" where
  "onlyChange cs key ch = (filter (\<lambda>c. cg_key c = key) cs = ch)"

lemma field_value:
  assumes a: "applied E ek req actor cs d d'" and only: "onlyChange cs key (changed key m n new old)"
    and old: "map_of (db_config d) key = Some (j old)" and j: "\<And>v. storedValue E ek key (n v) = Some (j v)"
  shows "map_of (db_config d') key = Some (j (pick new old))"
proof (cases "changed key m n new old")
  case Nil
  then have "key \<notin> cg_key ` set cs" using only by (auto simp: onlyChange_def filter_empty_conv)
  with a old Nil show ?thesis by (auto simp: applied_def pick_def changed_def split: option.splits if_splits)
next
  case (Cons c rest)
  then have "c \<in> set (filter (\<lambda>c. cg_key c = key) cs)" using only by (simp add: onlyChange_def)
  moreover obtain v where "new = Some v" "cg_value c = n v" using changed_set [of c key m n new old] Cons by auto
  ultimately show ?thesis using a j by (auto simp: applied_def pick_def)
qed

lemma changed_filter: "filter (\<lambda>c. cg_key c = k) (changed key m n new old) = (if k = key then changed key m n new old else [])"
  by (auto simp: changed_def split: option.splits)

lemma isBool_iff: "isBool v \<longleftrightarrow> (\<exists>b. v = JBool b)"
  by (cases v) (auto simp: isBool_def)

lemma intIn_iff: "intIn lo hi v \<longleftrightarrow> (\<exists>n. v = JInt n \<and> lo \<le> n \<and> n \<le> hi)"
  by (cases v) (auto simp: intIn_def)

lemma configOk_bool: "configOk cfg \<Longrightarrow> (k, isBool) \<in> set configSchema \<Longrightarrow> \<exists>b. map_of cfg k = Some (JBool b)"
  using configOk_at [of cfg k isBool] by (auto simp: isBool_iff)

lemma configOk_int: "configOk cfg \<Longrightarrow> (k, intIn lo hi) \<in> set configSchema \<Longrightarrow> \<exists>n. map_of cfg k = Some (JInt n) \<and> lo \<le> n \<and> n \<le> hi"
  using configOk_at [of cfg k "intIn lo hi"] by (auto simp: intIn_iff)

lemma bool_field:
  assumes up: "\<forall>c. \<not> e_pg_fails E c" and a: "applied E ek req actor cs d d'" and ok: "configOk (db_config d)"
    and k: "(key, isBool) \<in> set configSchema"
    and only: "onlyChange cs key (changed key MBool NBool new (readOr False (GetBool E key (pool d))))"
  shows "readOr False (GetBool E key (pool d')) = pick new (readOr False (GetBool E key (pool d)))"
proof -
  obtain b where b: "map_of (db_config d) key = Some (JBool b)" using configOk_bool [OF ok k] by blast
  note old = read_config(1) [OF up b]
  from field_value [where j = JBool, OF a only [unfolded old] b] old show ?thesis using read_config(1) [OF up] by simp
qed

lemma int_field:
  assumes up: "\<forall>c. \<not> e_pg_fails E c" and a: "applied E ek req actor cs d d'" and ok: "configOk (db_config d)"
    and k: "(key, intIn lo hi) \<in> set configSchema" and w: "- (2 ^ 63) \<le> lo" "hi < 2 ^ 63" and new: "\<not> outOfRange lo hi new"
    and only: "onlyChange cs key (changed key MInt NInt new (readOr 0 (GetInt E key (pool d))))"
  shows "readOr 0 (GetInt E key (pool d')) = pick new (readOr 0 (GetInt E key (pool d)))"
proof -
  obtain n where n: "map_of (db_config d) key = Some (JInt n)" "lo \<le> n" "n \<le> hi" using configOk_int [OF ok k] by blast
  have old: "readOr 0 (GetInt E key (pool d)) = n" using read_config(2) [OF up n(1)] n w by simp
  have "- (2 ^ 63) \<le> pick new n \<and> pick new n < 2 ^ 63" using new n w by (auto simp: pick_def outOfRange_def split: option.splits)
  with field_value [where j = JInt, OF a only [unfolded old] n(1)] old show ?thesis using read_config(2) [OF up] by simp
qed

lemma securityChanges_filter:
  "onlyChange (securityChanges s pre) ''mfa_required'' (changed ''mfa_required'' MBool NBool (sp_MFARequired s) (sv_MFARequired pre))"
  "onlyChange (securityChanges s pre) ''password_min_length'' (changed ''password_min_length'' MInt NInt (sp_PasswordMinLength s) (sv_PasswordMinLength pre))"
  "onlyChange (securityChanges s pre) ''password_require_upper'' (changed ''password_require_upper'' MBool NBool (sp_PasswordRequireUpper s) (sv_PasswordRequireUpper pre))"
  "onlyChange (securityChanges s pre) ''password_require_digit'' (changed ''password_require_digit'' MBool NBool (sp_PasswordRequireDigit s) (sv_PasswordRequireDigit pre))"
  "onlyChange (securityChanges s pre) ''lockout_threshold'' (changed ''lockout_threshold'' MInt NInt (sp_LockoutThreshold s) (sv_LockoutThreshold pre))"
  "onlyChange (securityChanges s pre) ''lockout_duration_secs'' (changed ''lockout_duration_secs'' MInt NInt (sp_LockoutDurationSecs s) (sv_LockoutDurationSecs pre))"
  by (simp_all add: onlyChange_def securityChanges_def changed_filter)

lemma changed_keys: "map cg_key (changed key m n new old) = (if changed key m n new old = [] then [] else [key])"
  by (auto simp: changed_def split: option.splits)

definition securityKeys :: "string list" where
  "securityKeys = [''mfa_required'', ''password_min_length'', ''password_require_upper'', ''password_require_digit'',
     ''lockout_threshold'', ''lockout_duration_secs'']"

lemma securityChanges_keys:
  "distinct (map cg_key (securityChanges s pre))"
  "set (map cg_key (securityChanges s pre)) \<subseteq> set securityKeys"
  by (simp_all add: securityChanges_def changed_keys securityKeys_def)

lemma security_sel:
  "sv_MFARequired (st_Security (readSettings E d)) = readOr False (GetBool E ''mfa_required'' (pool d))"
  "sv_PasswordMinLength (st_Security (readSettings E d)) = readOr 0 (GetInt E ''password_min_length'' (pool d))"
  "sv_PasswordRequireUpper (st_Security (readSettings E d)) = readOr False (GetBool E ''password_require_upper'' (pool d))"
  "sv_PasswordRequireDigit (st_Security (readSettings E d)) = readOr False (GetBool E ''password_require_digit'' (pool d))"
  "sv_LockoutThreshold (st_Security (readSettings E d)) = readOr 0 (GetInt E ''lockout_threshold'' (pool d))"
  "sv_LockoutDurationSecs (st_Security (readSettings E d)) = readOr 0 (GetInt E ''lockout_duration_secs'' (pool d))"
  by (simp_all add: readSettings_def)

lemma security_merged:
  assumes up: "\<forall>c. \<not> e_pg_fails E c" and ok: "configOk (db_config d)" and valid: "ValidateSecuritySettings s = None"
    and a: "applied E ek req actor (securityChanges s (st_Security (readSettings E d))) d d'"
  shows "st_Security (readSettings E d') = mergeSecurity s (st_Security (readSettings E d))"
proof -
  note only = securityChanges_filter [of s "st_Security (readSettings E d)", unfolded security_sel [of E d]]
    and bf = bool_field [OF up a [unfolded security_sel] ok] and nf = int_field [OF up a [unfolded security_sel] ok]
  have ranges: "\<not> outOfRange 8 128 (sp_PasswordMinLength s)" "\<not> outOfRange 1 50 (sp_LockoutThreshold s)"
    "\<not> outOfRange 60 86400 (sp_LockoutDurationSecs s)" using valid by (auto simp: ValidateSecuritySettings_def split: if_splits)
  have sv: "sv = \<lparr>sv_MFARequired = sv_MFARequired sv, sv_PasswordMinLength = sv_PasswordMinLength sv,
      sv_PasswordRequireUpper = sv_PasswordRequireUpper sv, sv_PasswordRequireDigit = sv_PasswordRequireDigit sv,
      sv_LockoutThreshold = sv_LockoutThreshold sv, sv_LockoutDurationSecs = sv_LockoutDurationSecs sv\<rparr>" for sv :: SecurityView
    by simp
  show ?thesis
    by (subst sv [of "st_Security (readSettings E d')"])
      (simp add: mergeSecurity_def security_sel bf [OF _ only(1)] nf [OF _ _ _ ranges(1) only(2)] bf [OF _ only(3)] bf [OF _ only(4)]
        nf [OF _ _ _ ranges(2) only(5)] nf [OF _ _ _ ranges(3) only(6)] configSchema_def)
qed

text \<open>What the log is meant to say of a change from \<open>old\<close> to \<open>new\<close>: one row for each field that differs, in the order of
  the form, with the actor and both values.\<close>

definition securityDiff :: "SecurityView \<Rightarrow> SecurityView \<Rightarrow> (string \<times> metaval \<times> metaval) list" where
  "securityDiff old new =
     filter (\<lambda>(key, a, b). a \<noteq> b)
       [(''mfa_required'', MBool (sv_MFARequired old), MBool (sv_MFARequired new)),
        (''password_min_length'', MInt (sv_PasswordMinLength old), MInt (sv_PasswordMinLength new)),
        (''password_require_upper'', MBool (sv_PasswordRequireUpper old), MBool (sv_PasswordRequireUpper new)),
        (''password_require_digit'', MBool (sv_PasswordRequireDigit old), MBool (sv_PasswordRequireDigit new)),
        (''lockout_threshold'', MInt (sv_LockoutThreshold old), MInt (sv_LockoutThreshold new)),
        (''lockout_duration_secs'', MInt (sv_LockoutDurationSecs old), MInt (sv_LockoutDurationSecs new))]"

definition settingRow :: "'k env \<Rightarrow> request \<Rightarrow> User \<Rightarrow> string \<times> metaval \<times> metaval \<Rightarrow> audit_row" where
  "settingRow E req actor = (\<lambda>(key, a, b). auditRow E (req_CorrelationID req)
     \<lparr>en_EventType = ''config.'' @ key @ ''.changed'', en_ActorID = Some (u_ID actor), en_ActorEmail = u_Email actor,
      en_TargetType = ''instance_config'', en_TargetID = key, en_ClientID = None, en_IPAddress = clientIP E req,
      en_Outcome = ''success'', en_Metadata = Some [(''old_value'', a), (''new_value'', b)]\<rparr>)"

lemma changed_row:
  assumes "\<And>x y. m x = m y \<longleftrightarrow> x = y"
  shows "changeRows E req actor (changed key m n new old) =
    map (settingRow E req actor) (filter (\<lambda>(key, a, b). a \<noteq> b) [(key, m old, m (pick new old))])"
  using assms by (auto simp: changeRows_def changed_def pick_def settingRow_def configEntry_def split: option.splits)

lemma security_rows:
  "changeRows E req actor (securityChanges s pre) = map (settingRow E req actor) (securityDiff pre (mergeSecurity s pre))"
proof -
  have app: "changeRows E req actor (xs @ ys) = changeRows E req actor xs @ changeRows E req actor ys" for xs ys
    by (simp add: changeRows_def)
  have inj: "\<And>x y. MBool x = MBool y \<longleftrightarrow> x = y" "\<And>x y. MInt x = MInt y \<longleftrightarrow> x = y" by simp_all
  show ?thesis
    unfolding securityChanges_def app changed_row [of MBool, OF inj(1)] changed_row [of MInt, OF inj(2)] securityDiff_def
    by (simp add: mergeSecurity_def)
qed

text \<open>A read of the settings that fails counts as the zero value, so a requested change to that value is dropped and the
  answer is still 200.\<close>

lemma patch_dropped_silently:
  assumes "e_pg_fails E (PQuery (''config.Get:'' @ ''mfa_required''))"
    and "s = \<lparr>sp_MFARequired = Some False, sp_PasswordMinLength = None, sp_PasswordRequireUpper = None,
      sp_PasswordRequireDigit = None, sp_LockoutThreshold = None, sp_LockoutDurationSecs = None\<rparr>"
  shows "\<exists>b. PatchSecurity E ek req (Some actor) (Some s) d = (d, WriteJSON 200 b)"
proof -
  have "sv_MFARequired (st_Security (readSettings E d)) = False"
    using assms(1) by (simp add: security_sel readOr_def GetBool_def configGet_def query_def stmt_def)
  then have "securityChanges s (st_Security (readSettings E d)) = []" by (simp add: securityChanges_def changed_def assms(2))
  moreover have "ValidateSecuritySettings s = None" by (simp add: ValidateSecuritySettings_def outOfRange_def assms(2))
  ultimately show ?thesis by (simp add: PatchSecurity_def saveChanges_def Let_def)
qed

text \<open>C23. A change of the security settings does what it was asked for, while PostgreSQL answers: when \<open>PatchSecurity\<close>
  answers 200, the fields of the request have their new values, every other setting has its old one, the
  answer shows the new values, the log has grown by one row for each setting whose value is another one
  than before, with the actor and both values, and by no other, and no other table has changed.\<close>

theorem patch_security_exact:
  assumes call: "PatchSecurity E ek req (Some actor) (Some s) d = (d', WriteJSON 200 b)"
    and ok: "configOk (db_config d)" and up: "\<forall>c. \<not> e_pg_fails E c"
  shows "readSettings E d' = (readSettings E d)\<lparr>st_Security := mergeSecurity s (st_Security (readSettings E d))\<rparr> \<and>
    b = SecurityBody (st_Security (readSettings E d')) \<and>
    db_audit_logs d' = db_audit_logs d @
      map (settingRow E req actor) (securityDiff (st_Security (readSettings E d)) (st_Security (readSettings E d'))) \<and>
    configOnly d d'"
proof -
  let ?pre = "readSettings E d" and ?cs = "securityChanges s (st_Security (readSettings E d))"
  have valid: "ValidateSecuritySettings s = None" using call by (auto simp: PatchSecurity_def writeValidationError_def split: option.splits)
  have save: "saveChanges E ek req actor ''settings.PatchSecurity'' (\<lambda>x. SecurityBody (st_Security x)) ?pre ?cs d = (d', WriteJSON 200 b)"
    using call valid by (simp add: PatchSecurity_def Let_def)
  have "map_of (db_config d) (cg_key c) \<noteq> None" if "c \<in> set ?cs" for c
    by (rule configOk_present [OF ok]) (use that securityChanges_keys(2) [of s "st_Security ?pre"] in \<open>auto simp: configSchema_def securityKeys_def\<close>)
  then have present: "\<forall>c\<in>set ?cs. map_of (db_config d) (cg_key c) \<noteq> None" by blast
  note saved = saveChanges_saved [OF save present securityChanges_keys(1)]
  have other: "map_of (db_config d') k = map_of (db_config d) k" if "k \<notin> set securityKeys" for k
    by (rule applied_other [OF saved(1)]) (use that securityChanges_keys(2) [of s "st_Security ?pre"] in blast)
  have "st_General (readSettings E d') = st_General ?pre" by (rule general_cong; rule other; simp add: securityKeys_def)
  moreover have "st_Tokens (readSettings E d') = st_Tokens ?pre" by (rule tokens_cong; rule other; simp add: securityKeys_def)
  moreover have "st_Email (readSettings E d') = st_Email ?pre" by (rule email_cong; rule other; simp add: securityKeys_def)
  ultimately have "readSettings E d' = ?pre\<lparr>st_Security := mergeSecurity s (st_Security ?pre)\<rparr>"
    using security_merged [OF up ok valid saved(1)] by simp
  then show ?thesis using saved by (simp add: applied_def security_rows)
qed

definition sampleSecurity :: SecurityPatch where
  "sampleSecurity = \<lparr>sp_MFARequired = Some False, sp_PasswordMinLength = Some 12, sp_PasswordRequireUpper = None,
     sp_PasswordRequireDigit = None, sp_LockoutThreshold = Some 3, sp_LockoutDurationSecs = None\<rparr>"

lemma sample_settings_ok: "configOk (db_config sampleSettings)"
  by (simp add: sampleSettings_def seedConfig_ok)

lemma sample_up: "\<forall>c. \<not> e_pg_fails sampleEnv c"
  by simp

lemma sample_security_read: "st_Security (readSettings sampleEnv sampleSettings) =
    \<lparr>sv_MFARequired = True, sv_PasswordMinLength = 12, sv_PasswordRequireUpper = True, sv_PasswordRequireDigit = True,
     sv_LockoutThreshold = 5, sv_LockoutDurationSecs = 900\<rparr>"
  by (simp add: readSettings_def readOr_def GetBool_def GetInt_def configGet_def query_def stmt_def sampleSettings_def seedConfig_def)

theorem patch_security_exact_witness:
  "\<exists>d' b. PatchSecurity sampleEnv [] (aq_Req (sampleAuthRequest [])) (Some sampleMember) (Some sampleSecurity) sampleSettings
       = (d', WriteJSON 200 b) \<and>
     sv_LockoutThreshold (st_Security (readSettings sampleEnv d')) = 3 \<and> length (db_audit_logs d') = 2"
proof -
  let ?req = "aq_Req (sampleAuthRequest [])" and ?cs = "securityChanges sampleSecurity (st_Security (readSettings sampleEnv sampleSettings))"
  have cs: "?cs = [\<lparr>cg_key = ''mfa_required'', cg_meta = [(''old_value'', MBool True), (''new_value'', MBool False)], cg_value = NBool False\<rparr>,
      \<lparr>cg_key = ''lockout_threshold'', cg_meta = [(''old_value'', MInt 5), (''new_value'', MInt 3)], cg_value = NInt 3\<rparr>]"
    by (simp add: sample_security_read securityChanges_def changed_def sampleSecurity_def)
  obtain t where t: "applyChanges sampleEnv [] ?req sampleMember ?cs (pool sampleSettings) = Inr (t, ())" "\<not> tx_aborted t"
    unfolding cs by (simp add: attempt_def SetBool_def SetInt_def configSet_def stmt_def Log_def configEntry_def clientIP_def
        extractClientIP_def sampleAuthRequest_def)
  have "inTx sampleEnv ''settings.PatchSecurity'' (applyChanges sampleEnv [] ?req sampleMember ?cs) sampleSettings = (tx_db t, Inr ())"
    using t by (auto simp: inTx_Inr)
  moreover have "?cs \<noteq> []" using cs by simp
  moreover have "ValidateSecuritySettings sampleSecurity = None" by (simp add: ValidateSecuritySettings_def outOfRange_def sampleSecurity_def)
  ultimately obtain b where c: "PatchSecurity sampleEnv [] ?req (Some sampleMember) (Some sampleSecurity) sampleSettings = (tx_db t, WriteJSON 200 b)"
    by (simp add: PatchSecurity_def saveChanges_def Let_def)
  from patch_security_exact [OF c sample_settings_ok sample_up] have
    m: "st_Security (readSettings sampleEnv (tx_db t)) = mergeSecurity sampleSecurity (st_Security (readSettings sampleEnv sampleSettings))"
    and l: "db_audit_logs (tx_db t) = db_audit_logs sampleSettings @ map (settingRow sampleEnv ?req sampleMember)
      (securityDiff (st_Security (readSettings sampleEnv sampleSettings)) (st_Security (readSettings sampleEnv (tx_db t))))" by simp_all
  have "db_audit_logs sampleSettings = []" by (simp add: sampleSettings_def emptyDB_def)
  then have "length (db_audit_logs (tx_db t)) = 2"
    using l by (simp add: m sample_security_read securityDiff_def mergeSecurity_def pick_def sampleSecurity_def)
  moreover have "sv_LockoutThreshold (st_Security (readSettings sampleEnv (tx_db t))) = 3"
    using m by (simp add: mergeSecurity_def pick_def sampleSecurity_def)
  ultimately show ?thesis using c by blast
qed

section \<open>The password of the mail server\<close>

definition emailKeys :: "string list" where
  "emailKeys = [''smtp_host'', ''smtp_port'', ''smtp_username'', ''smtp_from'', ''smtp_password'']"

lemma emailChanges_keys:
  "distinct (map cg_key (emailChanges s pre))" "set (map cg_key (emailChanges s pre)) \<subseteq> set emailKeys"
  by (auto simp: emailChanges_def changed_keys emailKeys_def split: option.splits)

lemma emailChanges_secret:
  "c \<in> set (emailChanges s pre) \<Longrightarrow> cg_key c = ''smtp_password'' \<Longrightarrow>
     \<exists>pw. ep_SMTPPassword s = Some pw \<and> pw \<noteq> [] \<and> c = \<lparr>cg_key = ''smtp_password'', cg_meta = [(''changed'', MBool True)], cg_value = NSecret pw\<rparr>"
  by (auto simp: emailChanges_def dest!: changed_set split: option.splits if_splits)

text \<open>C24. The password of the mail server: when \<open>PatchEmail\<close> answers 200 to a request with a password, the sender that is
  built from the configuration afterwards uses exactly this password; with an empty or absent one the stored password stays
  as it is. The audit rows are the same for every other password, so they tell nothing about it.\<close>

theorem smtp_password_kept:
  assumes call: "PatchEmail E ek nm req (Some actor) (Some s) d = (d', WriteJSON 200 b)"
    and ok: "configOk (db_config d)" and up: "\<forall>c. \<not> e_pg_fails E c" and laws: "gcm_laws E" "rand_laws E"
  shows "(\<forall>pw. ep_SMTPPassword s = Some pw \<and> pw \<noteq> [] \<longrightarrow> snd (EncryptedValue E ek ''smtp_password'' (pool d')) = Inr pw \<and>
       (\<forall>sender. NewSenderFromConfig E ek M d' = Inr sender \<longrightarrow> sd_password sender = pw)) \<and>
    (ep_SMTPPassword s \<in> {None, Some []} \<longrightarrow>
       snd (EncryptedValue E ek ''smtp_password'' (pool d')) = snd (EncryptedValue E ek ''smtp_password'' (pool d))) \<and>
    db_audit_logs d' = db_audit_logs d @ changeRows E req actor (emailChanges s (st_Email (readSettings E d))) \<and>
    (\<forall>pw pw'. ep_SMTPPassword s = Some pw \<and> pw \<noteq> [] \<and> pw' \<noteq> [] \<longrightarrow>
       changeRows E req actor (emailChanges s (st_Email (readSettings E d))) =
       changeRows E req actor (emailChanges (s\<lparr>ep_SMTPPassword := Some pw'\<rparr>) (st_Email (readSettings E d))))"
proof -
  let ?pre = "readSettings E d" and ?cs = "emailChanges s (st_Email (readSettings E d))"
  have valid: "ValidateEmailSettings E nm s = None" using call by (auto simp: PatchEmail_def writeValidationError_def split: option.splits)
  have save: "saveChanges E ek req actor ''settings.PatchEmail'' (\<lambda>x. EmailBody (st_Email x)) ?pre ?cs d = (d', WriteJSON 200 b)"
    using call valid by (simp add: PatchEmail_def Let_def)
  have "map_of (db_config d) (cg_key c) \<noteq> None" if "c \<in> set ?cs" for c
    by (rule configOk_present [OF ok]) (use that emailChanges_keys(2) [of s "st_Email ?pre"] in \<open>auto simp: configSchema_def emailKeys_def\<close>)
  then have present: "\<forall>c\<in>set ?cs. map_of (db_config d) (cg_key c) \<noteq> None" by blast
  note a = saveChanges_saved(1) [OF save present emailChanges_keys(1)]
  have new: "snd (EncryptedValue E ek ''smtp_password'' (pool d')) = Inr pw" if pw: "ep_SMTPPassword s = Some pw" "pw \<noteq> []" for pw
  proof -
    let ?c = "\<lparr>cg_key = ''smtp_password'', cg_meta = [(''changed'', MBool True)], cg_value = NSecret pw\<rparr>"
    have "?c \<in> set ?cs" using pw by (simp add: emailChanges_def)
    with a have st: "storedValue E ek (cg_key ?c) (cg_value ?c) \<noteq> None" "map_of (db_config d') (cg_key ?c) = storedValue E ek (cg_key ?c) (cg_value ?c)"
      unfolding applied_def by blast+
    then obtain ct where "Encrypt E pw ek (encryptedValueAAD ''smtp_password'') = Some ct" "map_of (db_config d') ''smtp_password'' = Some (JStr (base64Std ct))"
      by auto
    with EncryptedValue_stored [OF laws _ _ up] show ?thesis by blast
  qed
  have old: "snd (EncryptedValue E ek ''smtp_password'' (pool d')) = snd (EncryptedValue E ek ''smtp_password'' (pool d))"
    if "ep_SMTPPassword s \<in> {None, Some []}"
  proof -
    have "cg_key c \<noteq> ''smtp_password''" if "c \<in> set ?cs" for c
      using emailChanges_secret [OF that] \<open>ep_SMTPPassword s \<in> {None, Some []}\<close> by force
    then have "''smtp_password'' \<notin> set (map cg_key ?cs)" by force
    from applied_other [OF a this] up show ?thesis
      by (simp add: EncryptedValue_def IsNull_def GetString_def configGet_def query_def stmt_def split: option.splits json.splits)
  qed
  have "sd_password sender = pw" if "ep_SMTPPassword s = Some pw" "pw \<noteq> []" "NewSenderFromConfig E ek M d' = Inr sender" for pw sender
    using new [OF that(1,2)] that(3) by (auto simp: NewSenderFromConfig_def Let_def split: if_splits)
  moreover have "changeRows E req actor ?cs = changeRows E req actor (emailChanges (s\<lparr>ep_SMTPPassword := Some pw'\<rparr>) (st_Email ?pre))"
    if "ep_SMTPPassword s = Some pw" "pw \<noteq> []" "pw' \<noteq> []" for pw pw'
    using that by (simp add: changeRows_def emailChanges_def)
  ultimately show ?thesis using old new a unfolding applied_def by blast
qed

definition sampleEmail :: EmailPatch where
  "sampleEmail = \<lparr>ep_SMTPHost = Some ''mx'', ep_SMTPPort = Some 25, ep_SMTPUsername = None, ep_SMTPPassword = Some ''pw'',
     ep_SMTPFrom = Some ''a@b''\<rparr>"

definition sampleMail :: mailEnv where
  "sampleMail = \<lparr>me_parse = (\<lambda>p. None), me_render = (\<lambda>name vars. Inr name), me_stamp = ''20250101000000.000'', me_rfc3339 = ''2025-01-01T00:00:00Z'',
     me_starttls = True, me_smtp = (\<lambda>step. None)\<rparr>"

abbreviation sampleKek :: bytes where
  "sampleKek \<equiv> replicate 32 (CHR ''k'')"

lemma sample_email_read: "st_Email (readSettings sampleEnv sampleSettings) =
    \<lparr>ev_SMTPHost = [], ev_SMTPPort = 0, ev_SMTPUsername = [], ev_SMTPPasswordSet = False, ev_SMTPFrom = []\<rparr>"
  by (simp add: readSettings_def readNullableString_def IsNull_def readOr_def GetBool_def GetInt_def configGet_def query_def stmt_def
      sampleSettings_def seedConfig_def)

lemma sample_mail_set:
  obtains d' b where "PatchEmail sampleEnv sampleKek (\<lambda>a. []) (aq_Req (sampleAuthRequest [])) (Some sampleMember) (Some sampleEmail) sampleSettings
    = (d', WriteJSON 200 b)"
    "map_of (db_config d') ''smtp_host'' = Some (JStr ''mx'')" "map_of (db_config d') ''smtp_port'' = Some (JInt 25)"
    "map_of (db_config d') ''smtp_from'' = Some (JStr ''a@b'')"
proof -
  let ?req = "aq_Req (sampleAuthRequest [])" and ?cs = "emailChanges sampleEmail (st_Email (readSettings sampleEnv sampleSettings))"
  have tr: "trimSpace ''mx'' = ''mx''" "trimSpace ''a@b'' = ''a@b''" by code_simp+
  have cs: "?cs = [\<lparr>cg_key = ''smtp_host'', cg_meta = [(''old_value'', MStr []), (''new_value'', MStr ''mx'')], cg_value = NStr ''mx''\<rparr>,
      \<lparr>cg_key = ''smtp_port'', cg_meta = [(''old_value'', MInt 0), (''new_value'', MInt 25)], cg_value = NInt 25\<rparr>,
      \<lparr>cg_key = ''smtp_from'', cg_meta = [(''old_value'', MStr []), (''new_value'', MStr ''a@b'')], cg_value = NStr ''a@b''\<rparr>,
      \<lparr>cg_key = ''smtp_password'', cg_meta = [(''changed'', MBool True)], cg_value = NSecret ''pw''\<rparr>]"
    by (simp add: sample_email_read emailChanges_def changed_def sampleEmail_def tr)
  obtain ct where ct: "Encrypt sampleEnv ''pw'' sampleKek (encryptedValueAAD ''smtp_password'') = Some ct"
    by (simp add: Encrypt_def sealAESGCM_def newGCM_def sizes)
  obtain t where t: "applyChanges sampleEnv sampleKek ?req sampleMember ?cs (pool sampleSettings) = Inr (t, ())" "\<not> tx_aborted t"
    unfolding cs by (simp add: attempt_def SetInt_def SetString_def SetEncryptedValue_def ct configSet_def stmt_def Log_def configEntry_def clientIP_def
        extractClientIP_def sampleAuthRequest_def)
  have tx: "inTx sampleEnv ''settings.PatchEmail'' (applyChanges sampleEnv sampleKek ?req sampleMember ?cs) sampleSettings = (tx_db t, Inr ())"
    using t by (auto simp: inTx_Inr)
  have valid: "ValidateEmailSettings sampleEnv (\<lambda>a. []) sampleEmail = None"
    by (simp add: ValidateEmailSettings_def validateHost_def validateFrom_def sampleEmail_def tr outOfRange_def containsAny_def lineBreakers_def
        sampleEnv_def hasPrefix_def)
  have "?cs \<noteq> []" using cs by simp
  with tx valid obtain b where c: "PatchEmail sampleEnv sampleKek (\<lambda>a. []) ?req (Some sampleMember) (Some sampleEmail) sampleSettings = (tx_db t, WriteJSON 200 b)"
    by (simp add: PatchEmail_def saveChanges_def Let_def)
  have keys: "\<forall>c\<in>set ?cs. map_of (db_config (tx_db (pool sampleSettings))) (cg_key c) \<noteq> None"
    unfolding cs by (simp add: sampleSettings_def seedConfig_def)
  from applyChanges_exact [OF t(1) keys emailChanges_keys(1)] have a: "\<forall>c\<in>set ?cs. map_of (db_config (tx_db t)) (cg_key c) =
      storedValue sampleEnv sampleKek (cg_key c) (cg_value c)" by (auto simp: applied_def)
  show thesis by (rule that [OF c]) (use a cs in \<open>simp_all\<close>)
qed

theorem smtp_password_kept_witness:
  "\<exists>d' b sender. PatchEmail sampleEnv sampleKek (\<lambda>a. []) (aq_Req (sampleAuthRequest [])) (Some sampleMember) (Some sampleEmail) sampleSettings
       = (d', WriteJSON 200 b) \<and> NewSenderFromConfig sampleEnv sampleKek sampleMail d' = Inr sender \<and> sd_password sender = ''pw''"
proof -
  obtain d' b where c: "PatchEmail sampleEnv sampleKek (\<lambda>a. []) (aq_Req (sampleAuthRequest [])) (Some sampleMember) (Some sampleEmail) sampleSettings
    = (d', WriteJSON 200 b)" and v: "map_of (db_config d') ''smtp_host'' = Some (JStr ''mx'')" "map_of (db_config d') ''smtp_port'' = Some (JInt 25)"
    "map_of (db_config d') ''smtp_from'' = Some (JStr ''a@b'')" by (rule sample_mail_set)
  note kept = smtp_password_kept [OF c sample_settings_ok sample_up sampleEnv_laws(1,2), of sampleMail]
  have s: "ep_SMTPPassword sampleEmail = Some ''pw''" by (simp add: sampleEmail_def)
  have pw: "snd (EncryptedValue sampleEnv sampleKek ''smtp_password'' (pool d')) = Inr ''pw''" using kept s by simp
  obtain sender where "NewSenderFromConfig sampleEnv sampleKek sampleMail d' = Inr sender"
    by (simp add: NewSenderFromConfig_def readSettings_def readNullableString_def IsNull_def readOr_def GetInt_def GetString_def configGet_def
        query_def stmt_def v pw sampleMail_def)
  with kept s c show ?thesis by auto
qed

end
