(* ===== verification/SetupProps.thy ===== *)
theory SetupProps
  imports SettingsProps
begin

text \<open>
  What holds around the requests: the wizard runs once, unless two of them overlap; a mail has the
  headers that were meant, unless the wizard put a line break into the name of the instance; the
  sweeper removes only what has long expired; and the recovery command gives an administrator, and
  nobody else, a link that the password reset accepts.
\<close>

section \<open>The headers of a mail\<close>

text \<open>A reader of the message: the lines before the first empty one.\<close>

fun takeLine :: "string \<Rightarrow> string \<times> string" where
  "takeLine [] = ([], [])"
| "takeLine [c] = ([c], [])"
| "takeLine (c # c' # rest) =
     (if c = CHR 0x0D \<and> c' = CHR 0x0A then ([], rest)
      else case takeLine (c' # rest) of (l, r) \<Rightarrow> (c # l, r))"

lemma takeLine_length: "takeLine s = (l, r) \<Longrightarrow> l \<noteq> [] \<Longrightarrow> length r < length s"
proof (induction s arbitrary: l r rule: takeLine.induct)
  case (3 c c' rest)
  show ?case
  proof (cases "c = CHR 0x0D \<and> c' = CHR 0x0A")
    case False
    obtain l' r' where t: "takeLine (c' # rest) = (l', r')" by (cases rule: prod.exhaust)
    have "length r' \<le> length (c' # rest)"
    proof (cases "l' = []")
      case True
      with t show ?thesis by (cases rest) (auto split: if_splits prod.splits)
    next
      case ne: False
      with "3.IH" [OF _ t ne] False show ?thesis by simp
    qed
    with "3.prems" False t show ?thesis by simp
  qed (use "3.prems" in auto)
qed auto

function headerLines :: "string \<Rightarrow> string list" where
  "headerLines s = (case takeLine s of (l, r) \<Rightarrow> if l = [] then [] else l # headerLines r)"
  by pat_completeness auto

termination
  by (relation "measure length") (auto dest: takeLine_length [OF sym])

declare headerLines.simps [simp del]

lemma takeLine_crlf: "CHR 0x0D \<notin> set l \<Longrightarrow> takeLine (l @ crlf @ rest) = (l, rest)"
proof (induction l)
  case (Cons c l)
  then obtain c' rest' where "l @ crlf @ rest = c' # rest'" by (cases l) (auto simp: crlf_def)
  with Cons show ?case by auto
qed (simp add: crlf_def)

lemma headerLines_line: "CHR 0x0D \<notin> set l \<Longrightarrow> l \<noteq> [] \<Longrightarrow> headerLines (l @ crlf @ rest) = l # headerLines rest"
  by (subst headerLines.simps) (simp add: takeLine_crlf)

lemma headerLines_end: "headerLines (crlf @ rest) = []"
  using takeLine_crlf [of "[]" rest] by (subst headerLines.simps) simp

lemma mailMessage_headers:
  assumes "CHR 0x0D \<notin> set from" "CHR 0x0D \<notin> set to" "CHR 0x0D \<notin> set subject" "CHR 0x0D \<notin> set boundary"
  shows "headerLines (mailMessage from to subject boundary html txt) =
    [''From: '' @ from, ''To: '' @ to, ''Subject: '' @ subject, ''MIME-Version: 1.0'',
     ''Content-Type: multipart/alternative; boundary='' @ boundary]"
proof -
  note line = headerLines_line [of "''From: '' @ from"] headerLines_line [of "''To: '' @ to"] headerLines_line [of "''Subject: '' @ subject"]
    headerLines_line [of "''MIME-Version: 1.0''"] headerLines_line [of "''Content-Type: multipart/alternative; boundary='' @ boundary"]
  show ?thesis unfolding mailMessage_def using assms line headerLines_end by simp
qed

lemma clean_CR: "\<not> containsAny s lineBreakers \<Longrightarrow> CHR 0x0D \<notin> set s"
  by (auto simp: containsAny_def lineBreakers_def list_ex_iff)

lemma sendMail_Inr:
  assumes "sendMail M sd to subject html txt = Inr v"
  shows "v = \<lparr>ve_From = sd_from sd, ve_To = [to], ve_Data = mailMessage (sd_from sd) to subject (mailBoundary M) html txt, ve_Accepted = True\<rparr>"
  using assms by (auto simp: sendMail_def smtpDialogue_def noMail_def split: option.splits if_splits)

lemma renderAndSend_Inr:
  "renderAndSend M sd to subject name vars = Inr v \<Longrightarrow>
     \<exists>html txt. me_render M (name @ ''.html.tmpl'') vars = Inr html \<and> me_render M (name @ ''.txt.tmpl'') vars = Inr txt \<and>
       v = \<lparr>ve_From = sd_from sd, ve_To = [to], ve_Data = mailMessage (sd_from sd) to subject (mailBoundary M) html txt, ve_Accepted = True\<rparr>"
  by (auto simp: renderAndSend_def split: sum.splits dest!: sendMail_Inr)

lemma NewSender_from:
  assumes "NewSenderFromConfig E ek M d = Inr sd" and "configOk (db_config d)"
  shows "\<not> containsAny (sd_from sd) lineBreakers" and "sd_from sd = ev_SMTPFrom (st_Email (readSettings E d))"
proof -
  show eq: "sd_from sd = ev_SMTPFrom (st_Email (readSettings E d))"
    using assms(1) by (auto simp: NewSenderFromConfig_def Let_def split: if_splits sum.splits)
  obtain v where v: "map_of (db_config d) ''smtp_from'' = Some v" "orNull (strWith (\<lambda>s. s \<noteq> [] \<and> \<not> containsAny s lineBreakers)) v"
    using configOk_at [OF assms(2), of "''smtp_from''" "orNull (strWith (\<lambda>s. s \<noteq> [] \<and> \<not> containsAny s lineBreakers))"]
    by (auto simp: configSchema_def)
  have no: "\<not> containsAny [] lineBreakers" by (simp add: containsAny_def)
  have "\<not> containsAny (readNullableString E ''smtp_from'' d) lineBreakers"
    using v no by (cases v) (auto simp: readNullableString_def readOr_def GetString_def configGet_def query_def stmt_def orNull_def strWith_def)
  then show "\<not> containsAny (sd_from sd) lineBreakers" unfolding eq by (simp add: readSettings_def)
qed

text \<open>C27. A reset mail goes to the address it is meant for, carries its link, and has exactly the headers of the code: when
  the mail server has taken the mail, the dialogue named the configured sender and this one recipient, and the message
  is the one rendered from the templates with the link of the public address and the token. With a sender address that
  the settings accepted, and a recipient and an instance name without line breaks, a reader finds the five header lines
  and no other, whatever the templates and the token contain.\<close>

theorem reset_mail_headers:
  assumes sent: "sendResetEmail E ek M publicURL to token d = Some v"
    and ok: "configOk (db_config d)" and clean: "\<not> containsAny to lineBreakers" "\<not> containsAny (instanceNameOr E d) lineBreakers"
    and stamp: "CHR 0x0D \<notin> set (me_stamp M)"
  shows "ve_Accepted v \<and> ve_From v = ev_SMTPFrom (st_Email (readSettings E d)) \<and> ve_To v = [to] \<and>
    headerLines (ve_Data v) =
      [''From: '' @ ev_SMTPFrom (st_Email (readSettings E d)), ''To: '' @ to,
       ''Subject: Reset your '' @ instanceNameOr E d @ '' password'', ''MIME-Version: 1.0'',
       ''Content-Type: multipart/alternative; boundary='' @ mailBoundary M] \<and>
    (\<exists>vars html txt. vars = [(''InstanceName'', instanceNameOr E d), (''EmailLocalPart'', localPart to),
         (''ResetURL'', publicURL @ ''/reset-password/'' @ token)] \<and>
       me_render M ''password_reset.html.tmpl'' vars = Inr html \<and> me_render M ''password_reset.txt.tmpl'' vars = Inr txt \<and>
       ve_Data v = mailMessage (ve_From v) to (''Reset your '' @ instanceNameOr E d @ '' password'') (mailBoundary M) html txt)"
proof -
  obtain sd where sd: "NewSenderFromConfig E ek M d = Inr sd"
    and send: "SendPasswordReset M sd to token (instanceNameOr E d) publicURL = Inr v"
    using sent by (auto simp: sendResetEmail_def split: sum.splits)
  let ?sub = "''Reset your '' @ instanceNameOr E d @ '' password''"
  let ?vars = "[(''InstanceName'', instanceNameOr E d), (''EmailLocalPart'', localPart to), (''ResetURL'', publicURL @ ''/reset-password/'' @ token)]"
  from renderAndSend_Inr [OF send [unfolded SendPasswordReset_def]] obtain html body where
    r: "me_render M (''password_reset'' @ ''.html.tmpl'') ?vars = Inr html" "me_render M (''password_reset'' @ ''.txt.tmpl'') ?vars = Inr body"
    and v: "v = \<lparr>ve_From = sd_from sd, ve_To = [to], ve_Data = mailMessage (sd_from sd) to ?sub (mailBoundary M) html body, ve_Accepted = True\<rparr>"
    by blast
  have "CHR 0x0D \<notin> set ?sub" "CHR 0x0D \<notin> set (mailBoundary M)"
    using clean_CR [OF clean(2)] stamp by (auto simp: mailBoundary_def)
  then have hl: "headerLines (ve_Data v) = [''From: '' @ sd_from sd, ''To: '' @ to, ''Subject: '' @ ?sub, ''MIME-Version: 1.0'',
      ''Content-Type: multipart/alternative; boundary='' @ mailBoundary M]"
    using mailMessage_headers [OF clean_CR [OF NewSender_from(1) [OF sd ok]] clean_CR [OF clean(1)], of ?sub "mailBoundary M" html body]
    by (simp add: v)
  have "\<exists>vars html txt. vars = ?vars \<and>
       me_render M ''password_reset.html.tmpl'' vars = Inr html \<and> me_render M ''password_reset.txt.tmpl'' vars = Inr txt \<and>
       ve_Data v = mailMessage (ve_From v) to ?sub (mailBoundary M) html txt"
    using r by (intro exI [of _ ?vars] exI [of _ html] exI [of _ body]) (simp add: v)
  then show ?thesis using hl NewSender_from(2) [OF sd ok] by (simp add: v)
qed

section \<open>The wizard\<close>

lemma setupPrepare_Inr:
  assumes "setupPrepare E hibp body d = Inr (r, hash)"
  shows "body = Some r" "snd (IsSetupComplete E (pool d)) = Inr False" "HashPassword E ''setup'' 0 (sr_Password r) = Some hash"
    "\<exists>policy. snd (readPasswordPolicy E (pool d)) = Inr policy \<and> SetupValidate E r policy = None"
  using assms by (auto simp: setupPrepare_def split: sum.splits option.splits if_splits prod.splits)

lemma setupTx_Inr:
  assumes "setupTx E req r hash t = Inr (t', x)" and "map_of (db_config (tx_db t)) ''setup_complete'' \<noteq> None"
  obtains u where "db_users (tx_db t') = db_users (tx_db t) @ [u]" "u_Email u = toLower (sr_Email r)" "u_PasswordHash u = hash"
    "u_Role u = ''super_admin''" "u_Status u = ''active''" "map_of (db_config (tx_db t')) ''setup_complete'' = Some (JBool True)"
proof -
  obtain t1 uid t2 y2 t3 y3 y4 where c: "UserCreate E (toLower (sr_Email r)) hash ''super_admin'' False t = (t1, Inr uid)"
    and s: "SetSetupComplete E t1 = (t2, Inr y2)" and n: "SetInstanceName E (sr_InstanceName r) t2 = (t3, Inr y3)"
    and l: "Log E (req_CorrelationID req) (setupEntry E req r uid) t3 = (t', Inr y4)"
    using assms(1) unfolding setupTx_def attempt_Inr by blast
  from c obtain u where u: "db_users (tx_db t1) = db_users (tx_db t) @ [u]" "u_Email u = toLower (sr_Email r)" "u_PasswordHash u = hash"
    "u_Role u = ''super_admin''" "u_Status u = ''active''" by (auto simp: UserCreate_def stmt_Inr Let_def split: if_splits)
  have "map_of (db_config (tx_db t2)) ''setup_complete'' = Some (JBool True)"
    using configSet_get(1) [OF s [unfolded SetSetupComplete_def, simplified]] assms(2) UserCreate_config [OF c] by simp
  moreover have "map_of (db_config (tx_db t')) ''setup_complete'' = map_of (db_config (tx_db t2)) ''setup_complete''"
    using n Log_config [OF l] by (auto simp: SetInstanceName_def configSet_def stmt_Inr map_of_set)
  moreover have "db_users (tx_db t') = db_users (tx_db t1)"
    using s n Log_tables(1) [OF l] by (auto simp: SetSetupComplete_def SetInstanceName_def configSet_def stmt_Inr)
  ultimately show thesis using that u by simp
qed

lemma setupTx_stops: "setupTx E req r hash t = Inl resp \<Longrightarrow> failure resp"
  by (auto simp: setupTx_def attempt_Inl)

lemma setupCommit_cases:
  assumes "setupCommit E req (r, hash) d = (d', resp)"
  obtains (failed) "d' = d" "failure resp" | (done') t where "setupTx E req r hash (pool d) = Inr (t, ())" "d' = tx_db t" "resp = WriteJSON 200 SetupRedirect"
proof -
  obtain d1 x where tx: "inTx E ''setup'' (setupTx E req r hash) d = (d1, x)" by (cases rule: prod.exhaust)
  show thesis
  proof (cases x)
    case (Inl y)
    have "failure y" using tx Inl setupTx_stops by (auto simp: inTx_def split: option.splits sum.splits prod.splits bool.splits)
    with Inl tx inTx_Inl [of E "''setup''" "setupTx E req r hash" d d1 y] assms failed show thesis by (simp add: setupCommit_def)
  next
    case (Inr y)
    then obtain t where "setupTx E req r hash (pool d) = Inr (t, ())" "d1 = tx_db t" using tx by (auto simp: inTx_Inr)
    with Inr tx assms done' show thesis by (simp add: setupCommit_def)
  qed
qed

lemma setup_refused:
  assumes "map_of (db_config d) ''setup_complete'' = Some (JBool True)" and "PostSetup E hibp req body d = (d', r)"
  shows "d' = d \<and> failure r"
proof -
  have "snd (IsSetupComplete E (pool d)) \<noteq> Inr False" using assms(1) by (auto simp: IsSetupComplete_def GetBool_def configGet_def query_def stmt_def)
  then have "\<exists>x. setupPrepare E hibp body d = Inl x \<and> failure x"
    by (auto simp: setupPrepare_def setupComplete_def split: sum.splits)
  with assms(2) show ?thesis by (auto simp: PostSetup_def)
qed

text \<open>Nothing takes the mark back.\<close>

lemma writeChange_other: "writeChange E ek key nv t = (t', Inr x) \<Longrightarrow> k \<noteq> key \<Longrightarrow> map_of (db_config (tx_db t')) k = map_of (db_config (tx_db t)) k"
  by (cases nv) (auto simp: SetBool_def SetInt_def SetString_def SetEncryptedValue_def configSet_def stmt_Inr map_of_set split: option.splits)

lemma applyChanges_other:
  "applyChanges E ek req actor cs t = Inr (t', x) \<Longrightarrow> k \<notin> set (map cg_key cs) \<Longrightarrow> map_of (db_config (tx_db t')) k = map_of (db_config (tx_db t)) k"
proof (induction cs arbitrary: t)
  case (Cons c cs)
  from Cons.prems(1) obtain t1 y1 t2 y2 where w: "writeChange E ek (cg_key c) (cg_value c) t = (t1, Inr y1)"
    and l: "Log E (req_CorrelationID req) (configEntry E req actor (cg_key c) (cg_meta c)) t1 = (t2, Inr y2)"
    and r: "applyChanges E ek req actor cs t2 = Inr (t', x)" by (auto simp: attempt_Inr)
  from Cons.IH [OF r] Cons.prems(2) writeChange_other [OF w, of k] Log_config [OF l] show ?case by simp
qed simp

lemma saveChanges_other:
  assumes "k \<notin> set (map cg_key cs)"
  shows "map_of (db_config (fst (saveChanges E ek req actor site view pre cs d))) k = map_of (db_config d) k"
proof -
  obtain d1 x where tx: "inTx E site (applyChanges E ek req actor cs) d = (d1, x)" by (cases rule: prod.exhaust)
  then have "map_of (db_config d1) k = map_of (db_config d) k"
    by (cases rule: inTx_cases) (use applyChanges_other [OF _ assms, of E ek req actor "pool d"] in auto)
  with tx show ?thesis by (cases x) (auto simp: saveChanges_def)
qed

lemma tokensChanges_keys: "set (map cg_key (tokensChanges s pre)) \<subseteq> {''access_token_ttl_secs'', ''refresh_token_ttl_secs''}"
  by (auto simp: tokensChanges_def changed_keys)

lemma Patch_setup_mark:
  "map_of (db_config (fst (PatchSecurity E ek req cu sb d))) ''setup_complete'' = map_of (db_config d) ''setup_complete''"
  "map_of (db_config (fst (PatchTokens E ek req cu tb d))) ''setup_complete'' = map_of (db_config d) ''setup_complete''"
  "map_of (db_config (fst (PatchEmail E ek nm req cu eb d))) ''setup_complete'' = map_of (db_config d) ''setup_complete''"
proof -
  have sec: "''setup_complete'' \<notin> set (map cg_key (securityChanges s p))" for s p
    using securityChanges_keys(2) [of s p] by (auto simp: securityKeys_def)
  have tok: "''setup_complete'' \<notin> set (map cg_key (tokensChanges s p))" for s p
    using tokensChanges_keys [of s p] by auto
  have em: "''setup_complete'' \<notin> set (map cg_key (emailChanges s p))" for s p
    using emailChanges_keys(2) [of s p] by (auto simp: emailKeys_def)
  show "map_of (db_config (fst (PatchSecurity E ek req cu sb d))) ''setup_complete'' = map_of (db_config d) ''setup_complete''"
    by (simp add: PatchSecurity_def Let_def saveChanges_other [OF sec] split: option.splits)
  show "map_of (db_config (fst (PatchTokens E ek req cu tb d))) ''setup_complete'' = map_of (db_config d) ''setup_complete''"
    by (simp add: PatchTokens_def Let_def saveChanges_other [OF tok] split: option.splits)
  show "map_of (db_config (fst (PatchEmail E ek nm req cu eb d))) ''setup_complete'' = map_of (db_config d) ''setup_complete''"
    by (simp add: PatchEmail_def Let_def saveChanges_other [OF em] split: option.splits)
qed

lemma PatchGeneral_setup_mark:
  "map_of (db_config (fst (PatchGeneral E req cu body d))) ''setup_complete'' = map_of (db_config d) ''setup_complete''"
proof -
  have body: "map_of (db_config (tx_db t)) ''setup_complete'' = map_of (db_config d) ''setup_complete''"
    if "generalBody E req actor old new (pool d) = Inr (t, x)" for actor old new t x
    using that by (auto simp: generalBody_def attempt_Inr SetInstanceName_def configSet_def stmt_Inr map_of_set dest!: Log_config)
  have "map_of (db_config d1) ''setup_complete'' = map_of (db_config d) ''setup_complete''"
    if "inTx E ''settings.PatchGeneral'' (generalBody E req actor old new) d = (d1, x)" for actor old new d1 x
    using that by (cases rule: inTx_cases) (use body in auto)
  then show ?thesis by (auto simp: PatchGeneral_def Let_def split: option.splits sum.splits prod.splits)
qed

lemma setup_kept: "map_of (db_config d) ''setup_complete'' = Some (JBool True) \<Longrightarrow> fst (PostSetup E hibp req body d) = d"
  using setup_refused [of d E hibp req body] by (cases "PostSetup E hibp req body d") simp

lemma config_step_mark:
  "config_step Es d d' \<Longrightarrow> map_of (db_config d) ''setup_complete'' = Some (JBool True) \<Longrightarrow>
     map_of (db_config d') ''setup_complete'' = Some (JBool True)"
  by (induction rule: config_step.induct)
    (auto simp: Patch_setup_mark PatchGeneral_setup_mark setup_kept)

text \<open>C25. The wizard runs once: when \<open>PostSetup\<close> answers 200, the instance was not set up yet, exactly one user was added, an
  active administrator with the address and the password of the request, and whatever the wizard and the
  settings are asked for afterwards, every later \<open>PostSetup\<close> fails and changes nothing.\<close>

theorem setup_once:
  assumes call: "PostSetup E hibp req body d = (d1, WriteJSON 200 b)" and ok: "configOk (db_config d)" and laws: "argon2_laws E"
    and later: "(config_step Es)\<^sup>*\<^sup>* d1 d2" and again: "PostSetup E' hibp' req' body' d2 = (d3, r)"
  shows "snd (IsSetupComplete E (pool d)) = Inr False \<and>
    (\<exists>q u. body = Some q \<and> db_users d1 = db_users d @ [u] \<and> u_Email u = toLower (sr_Email q) \<and> u_Role u = ''super_admin'' \<and>
       u_Status u = ''active'' \<and> VerifyPassword E (sr_Password q) (u_PasswordHash u) = Some True) \<and> d3 = d2 \<and> failure r"
proof -
  obtain q hash where p: "setupPrepare E hibp body d = Inr (q, hash)" and c: "setupCommit E req (q, hash) d = (d1, WriteJSON 200 b)"
  proof (cases "setupPrepare E hibp body d")
    case (Inl x)
    then have "failure x" by (auto simp: setupPrepare_def setupComplete_def split: sum.splits option.splits if_splits prod.splits)
    with Inl call show thesis by (auto simp: PostSetup_def)
  next
    case (Inr y)
    with call that show thesis by (cases y) (simp add: PostSetup_def)
  qed
  obtain t where t: "setupTx E req q hash (pool d) = Inr (t, ())" "d1 = tx_db t"
    using c by (cases rule: setupCommit_cases) auto
  have "map_of (db_config d) ''setup_complete'' \<noteq> None" by (rule configOk_present [OF ok]) (simp add: configSchema_def)
  then obtain u where u: "db_users d1 = db_users d @ [u]" "u_Email u = toLower (sr_Email q)" "u_PasswordHash u = hash" "u_Role u = ''super_admin''"
    "u_Status u = ''active''" and m: "map_of (db_config d1) ''setup_complete'' = Some (JBool True)"
    using setupTx_Inr [OF t(1)] t(2) by auto
  from later m have "map_of (db_config d2) ''setup_complete'' = Some (JBool True)"
    by (induction rule: rtranclp_induct) (auto intro: config_step_mark)
  from setup_refused [OF this again] setupPrepare_Inr [OF p] u VerifyPassword_HashPassword_accepts [OF laws]
  show ?thesis by blast
qed

definition sampleWizard :: SetupRequest where
  "sampleWizard = \<lparr>sr_Email = ''Root@example.org'', sr_Password = ''Correct1horse'', sr_ConfirmPassword = ''Correct1horse'', sr_InstanceName = ''Acme''\<rparr>"

lemma sample_wizard_mail: "validateEmail sampleEnv ''Root@example.org'' = None" "validateEmail sampleEnv ''Eve@example.org'' = None"
  "toLower ''Root@example.org'' = ''root@example.org''" "toLower ''Eve@example.org'' = ''eve@example.org''"
  by (simp_all add: validateEmail_def sampleEnv_def hasPrefix_def) code_simp+

text \<open>An instance that is not set up, with or without the settings for mails.\<close>

definition sampleMailSettings :: db where
  "sampleMailSettings = emptyDB\<lparr>db_config := [(''smtp_host'', JStr ''mx''), (''smtp_port'', JInt 25), (''smtp_from'', JStr ''a@b'')] @ seedConfig\<rparr>"

lemma sample_fresh:
  assumes "d \<in> {sampleSettings, sampleMailSettings}"
  shows "snd (readPasswordPolicy sampleEnv (pool d)) = Inr \<lparr>pp_MinLength = 12, pp_RequireUpper = True, pp_RequireDigit = True\<rparr>"
    "snd (IsSetupComplete sampleEnv (pool d)) = Inr False" "configOk (db_config d)" "db_users d = []"
    "map_of (db_config d) ''instance_name'' \<noteq> None"
proof -
  have "configOk (db_config sampleMailSettings)"
    by (simp add: sampleMailSettings_def configOk_def configSchema_def seedConfig_def isBool_def intIn_def orNull_def strWith_def containsAny_def
        lineBreakers_def)
  with assms sample_settings_ok show "configOk (db_config d)" by auto
  have v: "map_of (db_config d) ''password_min_length'' = Some (JInt 12)" "map_of (db_config d) ''password_require_upper'' = Some (JBool True)"
    "map_of (db_config d) ''password_require_digit'' = Some (JBool True)" "map_of (db_config d) ''setup_complete'' = Some (JBool False)"
    using assms by (auto simp: sampleSettings_def sampleMailSettings_def seedConfig_def)
  then show "snd (readPasswordPolicy sampleEnv (pool d)) = Inr \<lparr>pp_MinLength = 12, pp_RequireUpper = True, pp_RequireDigit = True\<rparr>"
    "snd (IsSetupComplete sampleEnv (pool d)) = Inr False"
    by (simp_all add: readPasswordPolicy_def GetInt_def GetBool_def configGet_def query_def stmt_def IsSetupComplete_def)
  show "db_users d = []" "map_of (db_config d) ''instance_name'' \<noteq> None"
    using assms by (auto simp: sampleSettings_def sampleMailSettings_def emptyDB_def seedConfig_def)
qed

definition sampleRequestOk :: "SetupRequest \<Rightarrow> bool" where
  "sampleRequestOk r = (sr_Email r \<in> {''Root@example.org'', ''Eve@example.org''} \<and> sr_Password r = ''Correct1horse'' \<and>
     sr_ConfirmPassword r = ''Correct1horse'' \<and> sr_InstanceName r \<noteq> [] \<and> length (sr_InstanceName r) \<le> 128)"

lemma sample_prepared:
  assumes r: "sampleRequestOk r" and d: "d \<in> {sampleSettings, sampleMailSettings}"
  obtains hash where "setupPrepare sampleEnv None (Some r) d = Inr (r, hash)"
proof -
  obtain hash where "HashPassword sampleEnv ''setup'' 0 ''Correct1horse'' = Some hash" by (simp add: HashPassword_def sampleEnv_def)
  moreover have "validatePassword sampleEnv ''Correct1horse'' \<lparr>pp_MinLength = 12, pp_RequireUpper = True, pp_RequireDigit = True\<rparr> = None"
    by (simp add: validatePassword_def sampleEnv_def isDigitByte_def)
  ultimately show thesis using r that sample_fresh(1,2) [OF d] sample_wizard_mail
    by (auto simp: sampleRequestOk_def setupPrepare_def SetupValidate_def IsPwned_def)
qed

lemma sample_setup_tx:
  assumes "db_users d = []" "map_of (db_config d) ''instance_name'' \<noteq> None" "req_XFF req = ''192.0.2.1''"
  obtains t u where "setupTx sampleEnv req r hash (pool d) = Inr (t, ())" "\<not> tx_aborted t"
    "map_of (db_config (tx_db t)) ''instance_name'' = Some (JStr (sr_InstanceName r))" "db_users (tx_db t) = [u]" "u_ID u = 108"
    "u_Email u = toLower (sr_Email r)" "u_Role u = ''super_admin''"
    "\<forall>k. k \<noteq> ''setup_complete'' \<and> k \<noteq> ''instance_name'' \<longrightarrow> map_of (db_config (tx_db t)) k = map_of (db_config d) k"
proof -
  have "\<exists>t. setupTx sampleEnv req r hash (pool d) = Inr (t, ()) \<and> \<not> tx_aborted t \<and>
    map_of (db_config (tx_db t)) ''instance_name'' = Some (JStr (sr_InstanceName r)) \<and>
    (\<exists>u. db_users (tx_db t) = [u] \<and> u_ID u = 108 \<and> u_Email u = toLower (sr_Email r) \<and> u_Role u = ''super_admin'') \<and>
    (\<forall>k. k \<noteq> ''setup_complete'' \<and> k \<noteq> ''instance_name'' \<longrightarrow> map_of (db_config (tx_db t)) k = map_of (db_config d) k)"
    using assms
    by (simp add: setupTx_def attempt_def UserCreate_def SetSetupComplete_def SetInstanceName_def configSet_def stmt_def Log_def setupEntry_def
        clientIP_def extractClientIP_def roleOk_def emailTaken_def Let_def map_of_set del: map_map)
  with that show thesis by blast
qed

lemma sample_setup_done:
  assumes r: "sampleRequestOk r" and d: "d \<in> {sampleSettings, sampleMailSettings}" and xff: "req_XFF req = ''192.0.2.1''"
  obtains d1 where "PostSetup sampleEnv None req (Some r) d = (d1, WriteJSON 200 SetupRedirect)"
    "map_of (db_config d1) ''instance_name'' = Some (JStr (sr_InstanceName r))" "configOk (db_config d1)" "length (db_users d1) = 1"
    "\<forall>k. k \<noteq> ''setup_complete'' \<and> k \<noteq> ''instance_name'' \<longrightarrow> map_of (db_config d1) k = map_of (db_config d) k"
proof -
  obtain hash where p: "setupPrepare sampleEnv None (Some r) d = Inr (r, hash)" using sample_prepared [OF r d] by blast
  obtain t u where t: "setupTx sampleEnv req r hash (pool d) = Inr (t, ())" "\<not> tx_aborted t"
    "map_of (db_config (tx_db t)) ''instance_name'' = Some (JStr (sr_InstanceName r))" "db_users (tx_db t) = [u]"
    "\<forall>k. k \<noteq> ''setup_complete'' \<and> k \<noteq> ''instance_name'' \<longrightarrow> map_of (db_config (tx_db t)) k = map_of (db_config d) k"
    by (rule sample_setup_tx [OF sample_fresh(4,5) [OF d] xff])
  have "inTx sampleEnv ''setup'' (setupTx sampleEnv req r hash) d = (tx_db t, Inr ())" using t by (auto simp: inTx_Inr)
  then have c: "PostSetup sampleEnv None req (Some r) d = (tx_db t, WriteJSON 200 SetupRedirect)"
    using p by (simp add: PostSetup_def setupCommit_def)
  show thesis by (rule that [OF c t(3) PostSetup_ok [OF c sample_fresh(3) [OF d]] _ t(5)]) (simp add: t(4))
qed

theorem setup_once_witness:
  "\<exists>d1 d3 r. PostSetup sampleEnv None (aq_Req (sampleAuthRequest [])) (Some sampleWizard) sampleSettings = (d1, WriteJSON 200 SetupRedirect) \<and>
     PostSetup sampleEnv None (aq_Req (sampleAuthRequest [])) (Some sampleWizard) d1 = (d3, r) \<and> d3 = d1 \<and> failure r \<and> length (db_users d1) = 1"
proof -
  obtain d1 where c: "PostSetup sampleEnv None (aq_Req (sampleAuthRequest [])) (Some sampleWizard) sampleSettings = (d1, WriteJSON 200 SetupRedirect)"
    "length (db_users d1) = 1" by (rule sample_setup_done [of sampleWizard sampleSettings]) (auto simp: sampleWizard_def sampleRequestOk_def sampleAuthRequest_def)
  obtain d3 r where "PostSetup sampleEnv None (aq_Req (sampleAuthRequest [])) (Some sampleWizard) d1 = (d3, r)" by (cases rule: prod.exhaust)
  with setup_once [where Es = "{sampleEnv}", OF c(1) sample_settings_ok sampleEnv_laws(3) rtranclp.rtrancl_refl this] c show ?thesis by blast
qed

text \<open>Two overlapping calls of the wizard: both read that the instance is not set up, and both commit, so that it ends with
  two administrators of different owners. Nothing in the transaction looks at the mark again.\<close>

lemma setup_race_two_admins:
  "\<exists>(E' :: kspace env) r1 h1 r2 h2 d1 d2. setupPrepare sampleEnv None (Some r1) sampleSettings = Inr (r1, h1) \<and>
     setupPrepare sampleEnv None (Some r2) sampleSettings = Inr (r2, h2) \<and>
     setupCommit sampleEnv (aq_Req (sampleAuthRequest [])) (r1, h1) sampleSettings = (d1, WriteJSON 200 SetupRedirect) \<and>
     setupCommit E' (aq_Req (sampleAuthRequest [])) (r2, h2) d1 = (d2, WriteJSON 200 SetupRedirect) \<and>
     map (\<lambda>u. (u_Email u, u_Role u)) (db_users d2) = [(''root@example.org'', ''super_admin''), (''eve@example.org'', ''super_admin'')]"
proof -
  let ?req = "aq_Req (sampleAuthRequest [])" and ?eve = "sampleWizard\<lparr>sr_Email := ''Eve@example.org''\<rparr>"
  define E' where "E' = sampleEnv\<lparr>e_new_uuid := (\<lambda>site. 200)\<rparr>"
  have ok: "sampleRequestOk sampleWizard" "sampleRequestOk ?eve" by (simp_all add: sampleRequestOk_def sampleWizard_def)
  obtain h1 where p1: "setupPrepare sampleEnv None (Some sampleWizard) sampleSettings = Inr (sampleWizard, h1)"
    by (rule sample_prepared [OF ok(1), of sampleSettings]) auto
  obtain h2 where p2: "setupPrepare sampleEnv None (Some ?eve) sampleSettings = Inr (?eve, h2)"
    by (rule sample_prepared [OF ok(2), of sampleSettings]) auto
  obtain t u where t: "setupTx sampleEnv ?req sampleWizard h1 (pool sampleSettings) = Inr (t, ())" "\<not> tx_aborted t" "db_users (tx_db t) = [u]" "u_ID u = 108"
    "u_Email u = toLower (sr_Email sampleWizard)" "u_Role u = ''super_admin''"
    by (rule sample_setup_tx [OF sample_fresh(4,5) [of sampleSettings], of ?req sampleWizard h1]) (auto simp: sampleAuthRequest_def)
  have c1: "setupCommit sampleEnv ?req (sampleWizard, h1) sampleSettings = (tx_db t, WriteJSON 200 SetupRedirect)"
  proof -
    have "inTx sampleEnv ''setup'' (setupTx sampleEnv ?req sampleWizard h1) sampleSettings = (tx_db t, Inr ())" using t by (auto simp: inTx_Inr)
    then show ?thesis by (simp add: setupCommit_def)
  qed
  have free: "\<not> emailTaken ''eve@example.org'' [u]" using t(5) unfolding sampleWizard_def by (simp add: emailTaken_def sample_wizard_mail(3)) code_simp
  have "\<exists>t2. setupTx E' ?req ?eve h2 (pool (tx_db t)) = Inr (t2, ()) \<and> \<not> tx_aborted t2 \<and>
    (\<exists>v. db_users (tx_db t2) = [u, v] \<and> u_Email v = ''eve@example.org'' \<and> u_Role v = ''super_admin'')"
    using free
    by (simp add: E'_def setupTx_def attempt_def UserCreate_def SetSetupComplete_def SetInstanceName_def configSet_def stmt_def Log_def setupEntry_def
        clientIP_def extractClientIP_def sampleAuthRequest_def roleOk_def Let_def t(3,4) sample_wizard_mail(4))
  then obtain t2 where t2: "setupTx E' ?req ?eve h2 (pool (tx_db t)) = Inr (t2, ())" "\<not> tx_aborted t2"
    "map (\<lambda>u. (u_Email u, u_Role u)) (db_users (tx_db t2)) = [(''root@example.org'', ''super_admin''), (''eve@example.org'', ''super_admin'')]"
    using t(5,6) sample_wizard_mail(3) by (auto simp: sampleWizard_def)
  have "inTx E' ''setup'' (setupTx E' ?req ?eve h2) (tx_db t) = (tx_db t2, Inr ())" using t2 by (auto simp: inTx_Inr E'_def)
  then have c2: "setupCommit E' ?req (?eve, h2) (tx_db t) = (tx_db t2, WriteJSON 200 SetupRedirect)" by (simp add: setupCommit_def)
  show ?thesis by (intro exI conjI) (fact p1 p2 c1 c2 t2(3))+
qed

text \<open>The wizard takes an instance name with a line break, which the settings would refuse; the next reset mail then carries a
  header of its author's choice.\<close>

lemma setup_injects_header:
  "\<exists>r d1 v. PostSetup sampleEnv None (aq_Req (sampleAuthRequest [])) (Some r) sampleMailSettings = (d1, WriteJSON 200 SetupRedirect) \<and>
     ValidateGeneralSettings (sr_InstanceName r) = Some ''INSTANCE_NAME_INVALID'' \<and>
     sendResetEmail sampleEnv sampleKek sampleMail ''https://id.example.org'' ''ada@example.org'' ''tok'' d1 = Some v \<and>
     ''Bcc: eve@example.org password'' \<in> set (headerLines (ve_Data v))"
proof -
  let ?name = "''A'' @ crlf @ ''Bcc: eve@example.org''" and ?r = "sampleWizard\<lparr>sr_InstanceName := ''A'' @ crlf @ ''Bcc: eve@example.org''\<rparr>"
  have ok: "sampleRequestOk ?r" by (simp add: sampleRequestOk_def sampleWizard_def crlf_def)
  obtain d1 where d1: "PostSetup sampleEnv None (aq_Req (sampleAuthRequest [])) (Some ?r) sampleMailSettings = (d1, WriteJSON 200 SetupRedirect)"
    "map_of (db_config d1) ''instance_name'' = Some (JStr ?name)"
    and other: "\<forall>k. k \<noteq> ''setup_complete'' \<and> k \<noteq> ''instance_name'' \<longrightarrow> map_of (db_config d1) k = map_of (db_config sampleMailSettings) k"
    by (rule sample_setup_done [OF ok, of sampleMailSettings]) (auto simp: sampleAuthRequest_def)
  have bad: "ValidateGeneralSettings ?name = Some ''INSTANCE_NAME_INVALID''" by code_simp
  have v: "map_of (db_config d1) ''smtp_host'' = Some (JStr ''mx'')" "map_of (db_config d1) ''smtp_port'' = Some (JInt 25)"
    "map_of (db_config d1) ''smtp_from'' = Some (JStr ''a@b'')" "map_of (db_config d1) ''smtp_username'' = Some JNull"
    "map_of (db_config d1) ''smtp_password'' = Some JNull"
    using other by (simp_all add: sampleMailSettings_def seedConfig_def)
  have n: "instanceNameOr sampleEnv d1 = ?name"
    by (simp add: instanceNameOr_def InstanceName_def readOr_def IsNull_def GetString_def configGet_def query_def stmt_def d1(2) Let_def)
  have sd: "NewSenderFromConfig sampleEnv sampleKek sampleMail d1 = Inr \<lparr>sd_host = ''mx'', sd_port = 25, sd_username = [], sd_password = [], sd_from = ''a@b''\<rparr>"
    by (simp add: NewSenderFromConfig_def readSettings_def readNullableString_def IsNull_def readOr_def GetInt_def GetString_def EncryptedValue_def
        configGet_def query_def stmt_def v sampleMail_def)
  let ?v = "\<lparr>ve_From = ''a@b'', ve_To = [''ada@example.org''], ve_Data = mailMessage ''a@b'' ''ada@example.org'' (''Reset your '' @ ?name @ '' password'')
        (mailBoundary sampleMail) ''password_reset.html.tmpl'' ''password_reset.txt.tmpl'', ve_Accepted = True\<rparr>"
  have "me_smtp sampleMail st = None" "me_render sampleMail name vars = Inr name" for st name vars
    by (simp_all add: sampleMail_def)
  then have "sendResetEmail sampleEnv sampleKek sampleMail ''https://id.example.org'' ''ada@example.org'' ''tok'' d1 = Some ?v"
    unfolding sendResetEmail_def sd n
    by (cases "me_starttls sampleMail") (simp_all add: SendPasswordReset_def renderAndSend_def sendMail_def smtpDialogue_def noMail_def)
  moreover have "''Bcc: eve@example.org password'' \<in> set (headerLines (mailMessage ''a@b'' ''ada@example.org'' (''Reset your '' @ ?name @ '' password'')
      (mailBoundary sampleMail) ''password_reset.html.tmpl'' ''password_reset.txt.tmpl''))" by code_simp
  then have "''Bcc: eve@example.org password'' \<in> set (headerLines (ve_Data ?v))" by simp
  moreover have "sr_InstanceName ?r = ?name" by simp
  ultimately show ?thesis using d1(1) bad by metis
qed

theorem reset_mail_headers_witness:
  "\<exists>v. sendResetEmail sampleEnv sampleKek sampleMail ''https://id.example.org'' ''ada@example.org'' ''tok'' sampleMailSettings = Some v \<and>
     ve_To v = [''ada@example.org''] \<and> length (headerLines (ve_Data v)) = 5"
proof -
  have v: "map_of (db_config sampleMailSettings) ''smtp_host'' = Some (JStr ''mx'')" "map_of (db_config sampleMailSettings) ''smtp_port'' = Some (JInt 25)"
    "map_of (db_config sampleMailSettings) ''smtp_from'' = Some (JStr ''a@b'')" "map_of (db_config sampleMailSettings) ''smtp_username'' = Some JNull"
    "map_of (db_config sampleMailSettings) ''smtp_password'' = Some JNull" "map_of (db_config sampleMailSettings) ''instance_name'' = Some JNull"
    by (simp_all add: sampleMailSettings_def seedConfig_def)
  have n: "instanceNameOr sampleEnv sampleMailSettings = ''Schlass''"
    by (simp add: instanceNameOr_def InstanceName_def readOr_def IsNull_def configGet_def query_def stmt_def v Let_def)
  have sd: "NewSenderFromConfig sampleEnv sampleKek sampleMail sampleMailSettings =
      Inr \<lparr>sd_host = ''mx'', sd_port = 25, sd_username = [], sd_password = [], sd_from = ''a@b''\<rparr>"
    by (simp add: NewSenderFromConfig_def readSettings_def readNullableString_def IsNull_def readOr_def GetInt_def GetString_def EncryptedValue_def
        configGet_def query_def stmt_def v sampleMail_def)
  have "me_smtp sampleMail st = None" "me_render sampleMail name vars = Inr name" for st name vars
    by (simp_all add: sampleMail_def)
  then obtain v where m: "sendResetEmail sampleEnv sampleKek sampleMail ''https://id.example.org'' ''ada@example.org'' ''tok'' sampleMailSettings = Some v"
    unfolding sendResetEmail_def sd n
    by (cases "me_starttls sampleMail") (simp_all add: SendPasswordReset_def renderAndSend_def sendMail_def smtpDialogue_def)
  have clean: "\<not> containsAny ''ada@example.org'' lineBreakers" "\<not> containsAny (instanceNameOr sampleEnv sampleMailSettings) lineBreakers"
    unfolding n by code_simp+
  have "CHR 0x0D \<notin> set (me_stamp sampleMail)" by (simp add: sampleMail_def)
  from reset_mail_headers [OF m sample_fresh(3) clean this] m show ?thesis by simp
qed

section \<open>The sweeper\<close>

lemma RunSweepOnce_rows:
  assumes "RunSweepOnce E d = (d', ok)"
  shows "ok \<Longrightarrow> db_codes d' = filter (\<lambda>c. e_pg_now E - 7 * sweepDay \<le> ac_ExpiresAt c) (db_codes d)"
    and "ok \<Longrightarrow> db_reset_tokens d' = filter (\<lambda>r. e_pg_now E - 30 * sweepDay \<le> prt_ExpiresAt r) (db_reset_tokens d)"
    and "db_users d' = db_users d \<and> db_clients d' = db_clients d \<and> db_signing_keys d' = db_signing_keys d \<and> db_config d' = db_config d \<and>
      db_recovery_codes d' = db_recovery_codes d"
    and "\<not> ok \<Longrightarrow> d' = d"
proof -
  obtain d1 x where tx: "inTx E ''sweep'' (sweepTx E) d = (d1, x)" by (cases rule: prod.exhaust)
  have d1: "d' = d1" "ok = (x = Inr ())" using assms tx by (cases x; simp add: RunSweepOnce_def)+
  have "(ok \<longrightarrow> db_codes d' = filter (\<lambda>c. e_pg_now E - 7 * sweepDay \<le> ac_ExpiresAt c) (db_codes d) \<and>
      db_reset_tokens d' = filter (\<lambda>r. e_pg_now E - 30 * sweepDay \<le> prt_ExpiresAt r) (db_reset_tokens d)) \<and>
    db_users d' = db_users d \<and> db_clients d' = db_clients d \<and> db_signing_keys d' = db_signing_keys d \<and> db_config d' = db_config d \<and>
      db_recovery_codes d' = db_recovery_codes d \<and> (\<not> ok \<longrightarrow> d' = d)"
    using tx
  proof (cases rule: inTx_cases)
    case (committed t y)
    then show ?thesis using d1
      by (auto simp: sweepTx_def attempt_Inr sweepResetTokens_def sweepAuthCodes_def stmt_Inr Let_def not_less configOnly_def dest!: Log_configOnly)
  qed (use d1 in simp)
  then show "ok \<Longrightarrow> db_codes d' = filter (\<lambda>c. e_pg_now E - 7 * sweepDay \<le> ac_ExpiresAt c) (db_codes d)"
    "ok \<Longrightarrow> db_reset_tokens d' = filter (\<lambda>r. e_pg_now E - 30 * sweepDay \<le> prt_ExpiresAt r) (db_reset_tokens d)"
    "db_users d' = db_users d \<and> db_clients d' = db_clients d \<and> db_signing_keys d' = db_signing_keys d \<and> db_config d' = db_config d \<and>
      db_recovery_codes d' = db_recovery_codes d" "\<not> ok \<Longrightarrow> d' = d" by blast+
qed

text \<open>What a run keeps, at a time before \<open>T\<close>.\<close>

definition sweptTo :: "int \<Rightarrow> db \<Rightarrow> db \<Rightarrow> bool" where
  "sweptTo T d d' =
     (set (db_codes d') \<subseteq> set (db_codes d) \<and> set (db_reset_tokens d') \<subseteq> set (db_reset_tokens d) \<and>
      (\<forall>c\<in>set (db_codes d). T - 7 * sweepDay \<le> ac_ExpiresAt c \<longrightarrow> c \<in> set (db_codes d')) \<and>
      (\<forall>r\<in>set (db_reset_tokens d). T - 30 * sweepDay \<le> prt_ExpiresAt r \<longrightarrow> r \<in> set (db_reset_tokens d')) \<and>
      db_users d' = db_users d \<and> db_clients d' = db_clients d \<and> db_signing_keys d' = db_signing_keys d \<and> db_config d' = db_config d \<and>
      db_recovery_codes d' = db_recovery_codes d)"

lemma sweptTo_trans: "sweptTo T d d' \<Longrightarrow> sweptTo T d' d'' \<Longrightarrow> sweptTo T d d''"
  unfolding sweptTo_def by (elim conjE, intro conjI) (blast | simp)+

lemma sweptTo_once:
  assumes "e_pg_now E \<le> T"
  shows "sweptTo T d (fst (RunSweepOnce E d))"
proof -
  obtain d' ok where run: "RunSweepOnce E d = (d', ok)" by (cases rule: prod.exhaust)
  with RunSweepOnce_rows [OF run] assms show ?thesis by (cases ok) (auto simp: sweptTo_def)
qed

lemma sweptTo_refl: "sweptTo T d d"
  by (simp add: sweptTo_def)

lemma sweeperLoop_swept: "\<forall>E. Tick E \<in> set evs \<longrightarrow> e_pg_now E \<le> T \<Longrightarrow> sweptTo T d (sweeperLoop evs d)"
proof (induction evs d rule: sweeperLoop.induct)
  case (3 E evs d)
  have "sweptTo T d (fst (RunSweepOnce E d))" using 3 by (intro sweptTo_once) simp
  moreover have "sweptTo T (fst (RunSweepOnce E d)) (sweeperLoop evs (fst (RunSweepOnce E d)))" using 3 by simp
  ultimately show ?case unfolding sweeperLoop.simps by (rule sweptTo_trans)
qed (simp_all add: sweptTo_refl)

text \<open>The sweeper takes nothing that is still needed: however many ticks it runs and however they fail, up to the time \<open>T\<close> it has
  removed no authorization code that expired less than seven days before \<open>T\<close> and no reset token that expired less than
  thirty days before, it has added none, and no other table but the log has changed. A tick that succeeds leaves no
  older row behind.\<close>

lemma sweeper_keeps_needed:
  assumes "\<forall>E :: 'k env. Tick E \<in> set evs \<longrightarrow> e_pg_now E \<le> T"
  shows "sweptTo T d (StartSweeper interval evs d) \<and>
    (\<forall>(E' :: 'k env) d'. RunSweepOnce E' (StartSweeper interval evs d) = (d', True) \<longrightarrow>
       (\<forall>c\<in>set (db_codes d'). e_pg_now E' - 7 * sweepDay \<le> ac_ExpiresAt c) \<and>
       (\<forall>r\<in>set (db_reset_tokens d'). e_pg_now E' - 30 * sweepDay \<le> prt_ExpiresAt r))"
proof -
  have "sweptTo T d (StartSweeper interval evs d)" using sweeperLoop_swept [OF assms] sweptTo_refl by (simp add: StartSweeper_def)
  moreover have "(\<forall>c\<in>set (db_codes d'). e_pg_now E' - 7 * sweepDay \<le> ac_ExpiresAt c) \<and>
      (\<forall>r\<in>set (db_reset_tokens d'). e_pg_now E' - 30 * sweepDay \<le> prt_ExpiresAt r)"
    if "RunSweepOnce E' d0 = (d', True)" for E' :: "'k env" and d0 d'
    using RunSweepOnce_rows(1,2) [OF that] by simp
  ultimately show ?thesis by blast
qed

section \<open>The recovery command\<close>

lemma recoveryTx_Inr:
  assumes "recoveryTx E iv pepper u tok t = Inr (t', x)"
  obtains row where "findToken E pepper tok (tx_db t') = Some row" "prt_UserID row = u_ID u" "prt_UsedAt row = None"
    "prt_ExpiresAt row = e_pg_now E + recoveryTokenTTL" "db_users (tx_db t') = db_users (tx_db t)"
    "\<exists>r. db_audit_logs (tx_db t') = db_audit_logs (tx_db t) @ [r] \<and> al_EventType r = ''password_reset.recovery_issued'' \<and>
       al_TargetID r = e_uuid_string E (u_ID u)"
proof -
  from assms obtain t1 rid y where ins: "ResetInsert E pepper (u_ID u) tok recoveryTokenTTL None t = (t1, Inr rid)"
    and l: "configOnly (tx_db t1) (tx_db t')" "\<exists>r. db_audit_logs (tx_db t') = db_audit_logs (tx_db t1) @ [r] \<and>
      al_EventType r = ''password_reset.recovery_issued'' \<and> al_TargetID r = e_uuid_string E (u_ID u)"
    by (auto simp: recoveryTx_def attempt_Inr auditRow_def dest!: Log_configOnly)
  from ins obtain row where row: "db_reset_tokens (tx_db t1) = db_reset_tokens (tx_db t) @ [row]" "db_users (tx_db t1) = db_users (tx_db t)"
    "prt_TokenHash row = HMACToken E tok pepper" "prt_UserID row = u_ID u" "prt_UsedAt row = None" "prt_ExpiresAt row = e_pg_now E + recoveryTokenTTL"
    "\<forall>r\<in>set (db_reset_tokens (tx_db t)). prt_TokenHash r \<noteq> HMACToken E tok pepper" by (rule ResetInsert_Inr)
  have "db_audit_logs (tx_db t1) = db_audit_logs (tx_db t)"
    using ins by (auto simp: ResetInsert_def stmt_Inr Let_def split: if_splits)
  moreover have "find (\<lambda>r. prt_TokenHash r = HMACToken E tok pepper) (xs @ [row]) = Some row"
    if "\<forall>r\<in>set xs. prt_TokenHash r \<noteq> HMACToken E tok pepper" for xs using that row(3) by (induction xs) auto
  ultimately show thesis using that row l by (simp add: findToken_def configOnly_def)
qed

text \<open>C26. The recovery command: a link is printed only if the mode is switched on, and only for an existing administrator with the
  given address; the link is that of the public address with a token for this user, an audit row names the user, and for
  one hour the password reset, with the pepper derived from the same key, accepts the token.\<close>

theorem recovery_link_works:
  assumes run: "RecoveryRun E hkdf iv flagEmail mode config d = (d', Some line)" and laws: "rand_laws E"
  shows "mode = ''1'' \<and> (\<exists>email ek url u tok pepper. flagEmail = Some email \<and> config = Some (ek, url) \<and> u \<in> set (db_users d) \<and>
    u_Email u = toLower (trimSpace email) \<and> u_Role u = ''super_admin'' \<and>
    line = ''Reset URL: '' @ trimRight url ''/'' @ ''/reset-password/'' @ tok @ [CHR 0x0A] \<and>
    DeriveTokenPepper hkdf ek = Some pepper \<and>
    (\<exists>row. findToken E pepper tok d' = Some row \<and> prt_UserID row = u_ID u) \<and>
    (\<exists>r. db_audit_logs d' = db_audit_logs d @ [r] \<and> al_EventType r = ''password_reset.recovery_issued'' \<and> al_TargetID r = e_uuid_string E (u_ID u)) \<and>
    (\<forall>E' h w. e_hmac_sha256 E' = e_hmac_sha256 E \<and> rh_Pepper h = pepper \<and> w_db w = d' \<and> \<not> e_pg_fails E' (PQuery ''reset.GetByToken'') \<and>
       e_go_now E' \<le> e_pg_now E + 3600 * second \<longrightarrow> PostValidate (E' :: 'k env) h (Some tok) w = WriteJSON 200 EmptyObject))"
proof -
  obtain email ek url where m: "mode = ''1''" "flagEmail = Some email" "config = Some (ek, url)"
    and x: "RecoveryExecute E hkdf iv ek url (toLower (trimSpace email)) d = (d', Some line)"
    using run by (auto simp: RecoveryRun_def split: option.splits if_splits)
  let ?email = "toLower (trimSpace email)"
  obtain t0 y where g: "UserGetByEmail E ?email (pool d) = (t0, y)" by (cases rule: prod.exhaust)
  obtain u where y: "y = Inr u" using x g by (cases y) (auto simp: RecoveryExecute_def)
  have u: "u \<in> set (db_users d)" "u_Email u = ?email" using UserGetByEmail_Inr [OF g [unfolded y]] by auto
  have role: "u_Role u = ''super_admin''" using x g y by (auto simp: RecoveryExecute_def split: if_splits)
  obtain pepper where pepper: "DeriveTokenPepper hkdf ek = Some pepper"
    using x g y role by (cases "DeriveTokenPepper hkdf ek") (auto simp: RecoveryExecute_def)
  obtain buf where buf: "e_rand E ''recovery'' 0 32 = Some buf"
    using x g y role pepper by (cases "e_rand E ''recovery'' 0 32") (auto simp: RecoveryExecute_def)
  let ?tok = "base64RawURL buf"
  obtain d1 z where tx: "inTx E ''recovery'' (recoveryTx E iv pepper u ?tok) d = (d1, z)" by (cases rule: prod.exhaust)
  have z: "z = Inr ()" "d1 = d'" "line = ''Reset URL: '' @ trimRight url ''/'' @ ''/reset-password/'' @ ?tok @ [CHR 0x0A]"
    using x g y role pepper buf tx by (cases z; auto simp: RecoveryExecute_def split: if_splits)+
  then obtain t where t: "recoveryTx E iv pepper u ?tok (pool d) = Inr (t, ())" "d' = tx_db t" using tx by (auto simp: inTx_Inr)
  from t(1) obtain row where row: "findToken E pepper ?tok d' = Some row" "prt_UserID row = u_ID u" "prt_UsedAt row = None"
    "prt_ExpiresAt row = e_pg_now E + recoveryTokenTTL"
    "\<exists>r. db_audit_logs d' = db_audit_logs d @ [r] \<and> al_EventType r = ''password_reset.recovery_issued'' \<and> al_TargetID r = e_uuid_string E (u_ID u)"
    by (rule recoveryTx_Inr) (use t(2) in simp)
  have "length buf = 32" using buf laws by (auto simp: rand_laws_def)
  then have ne: "?tok \<noteq> []" by (auto simp: base64RawURL_def b64Raw_empty)
  have "PostValidate E' h (Some ?tok) w = WriteJSON 200 EmptyObject"
    if a: "e_hmac_sha256 E' = e_hmac_sha256 E" "rh_Pepper h = pepper" "w_db w = d'" "\<not> e_pg_fails E' (PQuery ''reset.GetByToken'')"
      "e_go_now E' \<le> e_pg_now E + 3600 * second" for E' :: "'k env" and h w
  proof -
    have "findToken E' pepper ?tok d' = Some row" using row(1) a(1) by (simp add: findToken_def HMACToken_def)
    then show ?thesis using ne a row(3,4)
      by (simp add: PostValidate_def GetByToken_def query_def stmt_def needOne_def tokenSpent_def scanToken_def recoveryTokenTTL_def)
  qed
  with m u role z(3) pepper row(1,2,5) show ?thesis by blast
qed

definition sampleAdminDB :: db where
  "sampleAdminDB = emptyDB\<lparr>db_users := [sampleMember\<lparr>u_Role := ''super_admin''\<rparr>]\<rparr>"

theorem recovery_link_works_witness:
  "\<exists>d' line tok. RecoveryRun sampleEnv (\<lambda>k info. Some ''pepper'') \<lparr>iv_hostname = ''host'', iv_osUser = ''op'', iv_stdout = True\<rparr> (Some ''Ada@example.org'') ''1''
       (Some (sampleKek, ''https://id.example.org/'')) sampleAdminDB = (d', Some line) \<and>
     PostValidate sampleEnv sampleReset (Some tok) \<lparr>w_db = d', w_vk = Map.empty\<rparr> = WriteJSON 200 EmptyObject"
proof -
  let ?iv = "\<lparr>iv_hostname = ''host'', iv_osUser = ''op'', iv_stdout = True\<rparr>" and ?u = "sampleMember\<lparr>u_Role := ''super_admin''\<rparr>"
  have e: "toLower (trimSpace ''Ada@example.org'') = ''ada@example.org''" "u_Email ?u = ''ada@example.org''"
    by (code_simp, simp add: sampleMember_def sampleUser_def)
  have g: "snd (UserGetByEmail sampleEnv ''ada@example.org'' (pool sampleAdminDB)) = Inr ?u"
    using e(2) by (simp add: UserGetByEmail_def query_def stmt_def needOne_def sampleAdminDB_def)
  obtain buf where buf: "e_rand sampleEnv ''recovery'' 0 32 = Some buf" by simp
  obtain t where t: "recoveryTx sampleEnv ?iv ''pepper'' ?u (base64RawURL buf) (pool sampleAdminDB) = Inr (t, ())" "\<not> tx_aborted t"
    by (simp add: recoveryTx_def attempt_def ResetInsert_def stmt_def Let_def Log_def sampleAdminDB_def emptyDB_def)
  have "inTx sampleEnv ''recovery'' (recoveryTx sampleEnv ?iv ''pepper'' ?u (base64RawURL buf)) sampleAdminDB = (tx_db t, Inr ())"
    using t by (auto simp: inTx_Inr)
  then obtain line where c: "RecoveryRun sampleEnv (\<lambda>k info. Some ''pepper'') ?iv (Some ''Ada@example.org'') ''1''
       (Some (sampleKek, ''https://id.example.org/'')) sampleAdminDB = (tx_db t, Some line)"
    using g buf by (simp add: RecoveryRun_def e(1) RecoveryExecute_def DeriveTokenPepper_def)
  from recovery_link_works [OF c sampleEnv_laws(2)] obtain tok where
    v: "\<forall>E' h w. e_hmac_sha256 E' = e_hmac_sha256 sampleEnv \<and> rh_Pepper h = ''pepper'' \<and> w_db w = tx_db t \<and> \<not> e_pg_fails E' (PQuery ''reset.GetByToken'') \<and>
       e_go_now E' \<le> e_pg_now sampleEnv + 3600 * second \<longrightarrow> PostValidate (E' :: kspace env) h (Some tok) w = WriteJSON 200 EmptyObject"
    by (auto simp: DeriveTokenPepper_def)
  have "PostValidate sampleEnv sampleReset (Some tok) \<lparr>w_db = tx_db t, w_vk = Map.empty\<rparr> = WriteJSON 200 EmptyObject"
    by (rule v [rule_format]) (simp add: sampleReset_def second_def)
  with c show ?thesis by blast
qed

end
