(* ===== verification/ClientsProps.thy ===== *)
theory ClientsProps
  imports ClientsAdmin UsersAccess
begin

text \<open>
  What client administration guarantees: the checks accept what they are meant to accept, every
  client row that was created or changed through the handlers is well-formed, whatever the sequence
  of calls, and so the authorization endpoint only sends codes to HTTPS addresses or to the loopback
  interface; a secret that was handed out authenticates; what deletion revokes.
\<close>

section \<open>The checks\<close>

text \<open>What a redirect URI may be, with the URL parser \<open>P\<close>.\<close>

definition goodRedirect :: "(string \<Rightarrow> URL option) \<Rightarrow> string \<Rightarrow> bool" where
  "goodRedirect P raw =
     (raw \<noteq> [] \<and> length raw \<le> 2048 \<and> list_all (\<lambda>c. c \<notin> {CHR '' '', CHR 0x09, CHR 0x0D, CHR 0x0A}) raw \<and> \<not> contains raw ''#'' \<and>
      (\<exists>u. P raw = Some u \<and> url_Host u \<noteq> [] \<and> url_Fragment u = [] \<and> \<not> contains (url_Host u) ''*'' \<and> \<not> contains (url_Path u) ''*'' \<and>
           (url_Scheme u = ''https'' \<or> url_Scheme u = ''http'' \<and> url_Hostname u \<in> {''localhost'', ''127.0.0.1'', ''[::1]'', ''::1''})))"

lemma if_Some_None: "(if P then Some x else y) = None \<longleftrightarrow> \<not> P \<and> y = None"
  by simp

lemma ValidateRedirectURIInput_None:
  "ValidateRedirectURIInput E raw = None \<longleftrightarrow> goodRedirect (e_url_parse E) raw"
proof -
  have ws: "containsAny raw [CHR '' '', CHR 0x09, CHR 0x0D, CHR 0x0A] \<longleftrightarrow>
      \<not> list_all (\<lambda>c. c \<notin> {CHR '' '', CHR 0x09, CHR 0x0D, CHR 0x0A}) raw"
    by (auto simp: containsAny_def list_ex_iff list_all_iff)
  have sch: "(if s = ''https'' then None else if s = ''http'' then (if h then None else Some x) else Some y) = None \<longleftrightarrow>
      s = ''https'' \<or> s = ''http'' \<and> h" for s h and x y :: string
    by simp
  show ?thesis
  proof (cases "e_url_parse E raw")
    case None
    then show ?thesis by (simp add: ValidateRedirectURIInput_def goodRedirect_def if_Some_None)
  next
    case (Some u)
    have "s = ''https'' \<or> s = ''http'' \<and> h \<Longrightarrow> s \<noteq> []" for s h by auto
    then show ?thesis
      unfolding ValidateRedirectURIInput_def goodRedirect_def ws redirectURIMaxLen_def loopbackHosts_def Some option.case
        if_Some_None sch list.set not_less option.inject de_Morgan_disj not_not
      by blast
  qed
qed

lemma firstError_None: "firstError f xs = None \<longleftrightarrow> (\<forall>x\<in>set xs. f x = None)"
  by (induction xs) (auto split: option.splits)

lemma scopesFrom_None:
  "scopesFrom seen ss = None \<longleftrightarrow> set ss \<subseteq> set KnownScopes \<and> distinct ss \<and> set ss \<inter> set seen = {}"
proof (induction ss arbitrary: seen)
  case (Cons s ss)
  have "[] \<notin> set KnownScopes" by (simp add: KnownScopes_def)
  with Cons show ?case by auto
qed simp

lemma ValidateScopes_None: "ValidateScopes ss = None \<longleftrightarrow> set ss \<subseteq> set KnownScopes \<and> distinct ss"
  by (simp add: ValidateScopes_def scopesFrom_None)

lemma grantsFrom_None:
  "grantsFrom seen gs = None \<longleftrightarrow> set gs \<subseteq> set KnownGrantTypes \<and> distinct gs \<and> set gs \<inter> set seen = {}"
  by (induction gs arbitrary: seen) auto

lemma ValidateGrantTypes_None:
  "ValidateGrantTypes gs = None \<longleftrightarrow> gs \<noteq> [] \<and> set gs \<subseteq> set KnownGrantTypes \<and> distinct gs"
  by (auto simp: ValidateGrantTypes_def grantsFrom_None)

lemma ValidateClientName_Inr:
  "ValidateClientName raw = Inr n \<Longrightarrow> n = trimSpace raw \<and> n \<noteq> [] \<and> length n \<le> 100"
  by (auto simp: ValidateClientName_def Let_def clientNameMaxLen_def split: if_splits)

section \<open>Well-formed clients\<close>

definition clientOk :: "(string \<Rightarrow> URL option) \<Rightarrow> Client \<Rightarrow> bool" where
  "clientOk P c =
     (clientRowOk c \<and> c_ClientType c = ''confidential'' \<and> c_Name c \<noteq> [] \<and> length (c_Name c) \<le> 100 \<and>
      c_RedirectURIs c \<noteq> [] \<and> length (c_RedirectURIs c) \<le> 10 \<and> list_all (goodRedirect P) (c_RedirectURIs c) \<and>
      set (c_AllowedScopes c) \<subseteq> set KnownScopes \<and> distinct (c_AllowedScopes c) \<and>
      c_AllowedGrantTypes c \<noteq> [] \<and> set (c_AllowedGrantTypes c) \<subseteq> set KnownGrantTypes \<and> distinct (c_AllowedGrantTypes c))"

definition clients_inv :: "(string \<Rightarrow> URL option) \<Rightarrow> Client list \<Rightarrow> bool" where
  "clients_inv P cs = (distinct (map c_ID cs) \<and> list_all (clientOk P) cs)"

lemma validateCreate_Inr:
  assumes "validateCreate E b = (Inr name :: clientsBody response + string)"
  shows "name \<noteq> [] \<and> length name \<le> 100 \<and> ccr_ClientType b = ''confidential'' \<and>
    listOf (ccr_RedirectURIs b) \<noteq> [] \<and> length (listOf (ccr_RedirectURIs b)) \<le> 10 \<and>
    list_all (goodRedirect (e_url_parse E)) (listOf (ccr_RedirectURIs b)) \<and>
    set (listOf (ccr_AllowedScopes b)) \<subseteq> set KnownScopes \<and> distinct (listOf (ccr_AllowedScopes b)) \<and>
    listOf (ccr_AllowedGrantTypes b) \<noteq> [] \<and> set (listOf (ccr_AllowedGrantTypes b)) \<subseteq> set KnownGrantTypes \<and>
    distinct (listOf (ccr_AllowedGrantTypes b))"
  using assms unfolding validateCreate_def
  by (auto simp: firstError_None ValidateRedirectURIInput_None ValidateScopes_None ValidateGrantTypes_None list_all_iff
      dest: ValidateClientName_Inr split: sum.splits option.splits if_splits)

lemma validatePatch_Inr:
  assumes "validatePatch E b0 = (Inr b :: clientsBody response + patchClientReq)"
  shows "(\<forall>n. pcr_Name b = Some n \<longrightarrow> n \<noteq> [] \<and> length n \<le> 100) \<and>
    (\<forall>us. pcr_RedirectURIs b = Some us \<longrightarrow> us \<noteq> [] \<and> length us \<le> 10 \<and> list_all (goodRedirect (e_url_parse E)) us) \<and>
    (\<forall>ss. pcr_AllowedScopes b = Some ss \<longrightarrow> set ss \<subseteq> set KnownScopes \<and> distinct ss) \<and>
    (\<forall>gs. pcr_AllowedGrantTypes b = Some gs \<longrightarrow> gs \<noteq> [] \<and> set gs \<subseteq> set KnownGrantTypes \<and> distinct gs)"
proof -
  let ?name = "case pcr_Name b0 of None \<Rightarrow> Inr None | Some n \<Rightarrow> map_sum id Some (ValidateClientName n)"
  let ?uris = "firstError (ValidateRedirectURIInput E) (listOf (pcr_RedirectURIs b0))"
  let ?scopes = "case pcr_AllowedScopes b0 of None \<Rightarrow> None | Some ss \<Rightarrow> ValidateScopes ss"
  let ?grants = "case pcr_AllowedGrantTypes b0 of None \<Rightarrow> None | Some gs \<Rightarrow> ValidateGrantTypes gs"
  obtain name where n: "?name = Inr name" using assms by (cases ?name) (simp_all add: validatePatch_def)
  have len: "\<not> (case pcr_RedirectURIs b0 of None \<Rightarrow> False | Some us \<Rightarrow> us = [] \<or> length us > 10)"
    using assms n by (simp add: validatePatch_def split: if_splits)
  have u: "?uris = None" using assms n len by (cases ?uris) (simp_all add: validatePatch_def)
  have s: "?scopes = None" using assms n len u by (cases ?scopes) (simp_all add: validatePatch_def)
  have g: "?grants = None" using assms n len u s by (cases ?grants) (simp_all add: validatePatch_def)
  have b: "b = b0\<lparr>pcr_Name := name\<rparr>" using assms n len u s g by (simp add: validatePatch_def)
  have "\<forall>n. name = Some n \<longrightarrow> n \<noteq> [] \<and> length n \<le> 100"
  proof (cases "pcr_Name b0")
    case (Some raw)
    with n show ?thesis using ValidateClientName_Inr [of raw] by (cases "ValidateClientName raw") auto
  qed (use n in simp)
  with b len u s g show ?thesis
    by (auto simp: firstError_None ValidateRedirectURIInput_None ValidateScopes_None ValidateGrantTypes_None list_all_iff listOf_def)
qed

section \<open>Committed changes\<close>

inductive client_change :: "'k env \<Rightarrow> request \<Rightarrow> User \<Rightarrow> tx \<Rightarrow> tx \<Rightarrow> bool" for E req current where
  create: "validateCreate E b = (Inr name :: clientsBody response + string) \<Longrightarrow>
    createClientBody E req current name hash b t = Inr (t', x) \<Longrightarrow> client_change E req current t t'"
| patch: "validatePatch E b0 = (Inr b :: clientsBody response + patchClientReq) \<Longrightarrow>
    patchBody E req current cid b t = Inr (t', x) \<Longrightarrow> client_change E req current t t'"
| disable: "disableClientBody E req current cid t = Inr (t', y) \<Longrightarrow> client_change E req current t t'"
| enable: "enableClientBody E req current cid t = Inr (t', y) \<Longrightarrow> client_change E req current t t'"
| rotate: "rotateSecretBody E req current cid hash t = Inr (t', x) \<Longrightarrow> client_change E req current t t'"
| delete: "deleteClientBody E req current cid t = Inr (t', y) \<Longrightarrow> client_change E req current t t'"

inductive clients_call :: "'k env \<Rightarrow> request \<Rightarrow> User option \<Rightarrow> 'k world \<Rightarrow> 'k world \<Rightarrow> bool" for E req cu where
  "clients_call E req cu w (fst (GetList E q w))"
| "clients_call E req cu w (fst (GetOne E i w))"
| "clients_call E req cu w (fst (PostCreate E req cu b w))"
| "clients_call E req cu w (fst (PatchOne E req cu i p w))"
| "clients_call E req cu w (fst (PostDisable E req cu i w))"
| "clients_call E req cu w (fst (PostEnable E req cu i w))"
| "clients_call E req cu w (fst (PostRotateSecret E req cu i w))"
| "clients_call E req cu w (fst (DeleteOne E req cu i w))"

definition clientsChangedBy :: "'k env \<Rightarrow> request \<Rightarrow> User option \<Rightarrow> db \<Rightarrow> db \<Rightarrow> bool" where
  "clientsChangedBy E req cu d d' =
     (d' = d \<or> (\<exists>current t. cu = Some current \<and> client_change E req current (pool d) t \<and> d' = tx_db t))"

lemma clientsChangedBy_same [simp]: "clientsChangedBy E req cu d d"
  by (simp add: clientsChangedBy_def)

lemma clientsChangedBy_inTx:
  assumes "inTx E site f d = (d', r)" and "\<And>t a. f (pool d) = Inr (t, a) \<Longrightarrow> client_change E req current (pool d) t"
  shows "clientsChangedBy E req (Some current) d d'"
  using assms(1) by (cases rule: inTx_cases) (use assms(2) in \<open>auto simp: clientsChangedBy_def\<close>)

lemma clientsChangedBy_bodies:
  "inTx E site (createClientBody E req c name hash b) d = (d', r) \<Longrightarrow>
     validateCreate E b = (Inr name :: clientsBody response + string) \<Longrightarrow> clientsChangedBy E req (Some c) d d'"
  "inTx E site (patchBody E req c cid p) d = (d', r) \<Longrightarrow>
     validatePatch E b0 = (Inr p :: clientsBody response + patchClientReq) \<Longrightarrow> clientsChangedBy E req (Some c) d d'"
  "inTx E site (disableClientBody E req c cid) d = (d', ru) \<Longrightarrow> clientsChangedBy E req (Some c) d d'"
  "inTx E site (enableClientBody E req c cid) d = (d', ru) \<Longrightarrow> clientsChangedBy E req (Some c) d d'"
  "inTx E site (rotateSecretBody E req c cid hash) d = (d', r) \<Longrightarrow> clientsChangedBy E req (Some c) d d'"
  "inTx E site (deleteClientBody E req c cid) d = (d', ru) \<Longrightarrow> clientsChangedBy E req (Some c) d d'"
  by (erule clientsChangedBy_inTx, blast intro: client_change.intros)+

lemmas client_handlers = handler_simps parseClientID_def strictJSON_def

lemma clients_call_changedBy:
  "clients_call E req cu w w' \<Longrightarrow> clientsChangedBy E req cu (w_db w) (w_db w')"
proof (induction rule: clients_call.induct)
  case (1 w q) then show ?case by (simp add: GetList_def Let_def split: sum.splits)
next
  case (2 w i) then show ?case by (simp add: GetOne_def client_handlers split: option.splits sum.splits)
next
  case (3 w b) then show ?case
    by (auto simp: PostCreate_def client_handlers dest: clientsChangedBy_bodies
        split: option.splits sum.splits prod.splits jsonBody.splits)
next
  case (4 w i p) then show ?case
    by (auto simp: PatchOne_def client_handlers dest: clientsChangedBy_bodies
        split: option.splits sum.splits prod.splits jsonBody.splits)
next
  case (5 w i) then show ?case
    by (auto simp: PostDisable_def client_handlers dest: clientsChangedBy_bodies split: option.splits sum.splits prod.splits)
next
  case (6 w i) then show ?case
    by (auto simp: PostEnable_def client_handlers dest: clientsChangedBy_bodies split: option.splits sum.splits prod.splits)
next
  case (7 w i) then show ?case
    by (auto simp: PostRotateSecret_def client_handlers dest: clientsChangedBy_bodies split: option.splits sum.splits prod.splits)
next
  case (8 w i) then show ?case
    by (auto simp: DeleteOne_def client_handlers dest: clientsChangedBy_bodies split: option.splits sum.splits prod.splits)
qed

section \<open>Every client stays well-formed\<close>

lemma clientAudit_clients:
  "clientAudit E req event current target meta t = (t', Inr x) \<Longrightarrow> db_clients (tx_db t') = db_clients (tx_db t)"
  unfolding clientAudit_def by (rule Log_tables(2))

lemma auditIf_clients:
  "auditIf E req current cid event old new t = (t', Inr x) \<Longrightarrow> db_clients (tx_db t') = db_clients (tx_db t)"
  by (auto simp: auditIf_def split: if_splits dest: clientAudit_clients)

lemma client_get_tx:
  "GetByIDAny E cid t = (t', Inr c) \<Longrightarrow> t' = t" "GetByIDForUpdate E cid t = (t', Inr c) \<Longrightarrow> t' = t"
  by (auto simp: GetByIDAny_def GetByIDForUpdate_def clientSelect_def needOne_Inr query_Inr split: option.splits)

lemma clients_inv_update:
  assumes "clients_inv P (db_clients d)" and "updClient uid ok f d = Inr (d', Some c')"
    and "\<And>c. c_ID (f c) = c_ID c" and "\<And>c. clientOk P c \<Longrightarrow> clientRowOk (f c) \<Longrightarrow> clientOk P (f c)"
  shows "clients_inv P (db_clients d')"
proof -
  from assms(2) obtain c where f: "find (\<lambda>c. c_ID c = uid \<and> ok c) (db_clients d) = Some c" and row: "clientRowOk (f c)"
    and d': "db_clients d' = map (\<lambda>x. if c_ID x = uid \<and> ok x then f x else x) (db_clients d)"
    by (auto simp: updClient_def split: option.splits if_splits)
  from find_Some_D [OF f] have c: "c \<in> set (db_clients d)" "c_ID c = uid" by auto
  have only: "x = c" if "x \<in> set (db_clients d)" "c_ID x = uid" for x
    using that c assms(1) by (auto simp: clients_inv_def distinct_map inj_on_def)
  have ids: "map c_ID (map (\<lambda>x. if c_ID x = uid \<and> ok x then f x else x) (db_clients d)) = map c_ID (db_clients d)"
    using assms(3) by simp
  have "clientOk P (if c_ID x = uid \<and> ok x then f x else x)" if "x \<in> set (db_clients d)" for x
    using that only [OF that] assms(1,4) row by (auto simp: clients_inv_def list_all_iff)
  then have "list_all (clientOk P) (map (\<lambda>x. if c_ID x = uid \<and> ok x then f x else x) (db_clients d))"
    unfolding list_all_iff set_map by blast
  with assms(1) show ?thesis unfolding clients_inv_def d' ids by blast
qed

lemma createClientBody_inv:
  assumes v: "validateCreate E b = (Inr name :: clientsBody response + string)"
    and c: "createClientBody E req current name hash b t = Inr (t', x)"
    and inv: "clients_inv (e_url_parse E) (db_clients (tx_db t))"
  shows "clients_inv (e_url_parse E) (db_clients (tx_db t'))"
proof -
  from c obtain t1 where cr: "ClientCreate E
      \<lparr>cp_Name = name, cp_ClientType = ccr_ClientType b, cp_SecretHash = hash,
       cp_RedirectURIs = ccr_RedirectURIs b, cp_AllowedGrantTypes = ccr_AllowedGrantTypes b,
       cp_AllowedScopes = ccr_AllowedScopes b, cp_TokenEndpointAuthMethod = ''client_secret_post'',
       cp_CreatedByUserID = Some (u_ID current)\<rparr> t = (t1, Inr x)"
    and same: "db_clients (tx_db t') = db_clients (tx_db t1)"
    by (auto simp: createClientBody_def attempt_Inr dest!: clientAudit_clients)
  from cr have "\<forall>y\<in>set (db_clients (tx_db t)). c_ID y \<noteq> c_ID x" "clientRowOk x"
    "db_clients (tx_db t1) = db_clients (tx_db t) @ [x]" "c_Name x = name" "c_ClientType x = ccr_ClientType b"
    "ccr_RedirectURIs b = Some (c_RedirectURIs x)" "ccr_AllowedGrantTypes b = Some (c_AllowedGrantTypes x)"
    "ccr_AllowedScopes b = Some (c_AllowedScopes x)"
    by (auto simp: ClientCreate_def stmt_Inr Let_def list_ex_iff split: option.splits if_splits)
  with validateCreate_Inr [OF v] inv same show ?thesis
    by (auto simp: clients_inv_def clientOk_def listOf_def)
qed

lemma UpdateFields_inv:
  assumes up: "UpdateFields E cid p t = (t', Inr c')" and inv: "clients_inv P (db_clients (tx_db t))"
    and ok: "\<forall>n. up_Name p = Some n \<longrightarrow> n \<noteq> [] \<and> length n \<le> 100"
      "\<forall>us. up_RedirectURIs p = Some us \<longrightarrow> us \<noteq> [] \<and> length us \<le> 10 \<and> list_all (goodRedirect P) us"
      "\<forall>ss. up_AllowedScopes p = Some ss \<longrightarrow> set ss \<subseteq> set KnownScopes \<and> distinct ss"
      "\<forall>gs. up_AllowedGrantTypes p = Some gs \<longrightarrow> gs \<noteq> [] \<and> set gs \<subseteq> set KnownGrantTypes \<and> distinct gs"
  shows "clients_inv P (db_clients (tx_db t'))"
proof -
  let ?f = "\<lambda>c. c\<lparr>c_Name := orElse (up_Name p) (c_Name c), c_RedirectURIs := orElse (up_RedirectURIs p) (c_RedirectURIs c),
      c_AllowedScopes := orElse (up_AllowedScopes p) (c_AllowedScopes c),
      c_AllowedGrantTypes := orElse (up_AllowedGrantTypes p) (c_AllowedGrantTypes c), c_UpdatedAt := e_pg_now E\<rparr>"
  from up obtain uid d where "updClient uid (\<lambda>c. True) ?f (tx_db t) = Inr (d, Some c')" and d: "tx_db t' = d"
    by (auto simp: UpdateFields_def needOne_Inr stmt_Inr split: option.splits)
  from clients_inv_update [OF inv this(1)] ok show ?thesis
    unfolding d by (simp add: clientOk_def orElse_def split: option.splits)
qed

lemma patchBody_inv:
  assumes v: "validatePatch E b0 = (Inr b :: clientsBody response + patchClientReq)"
    and c: "patchBody E req current cid b t = Inr (t', x)"
    and inv: "clients_inv (e_url_parse E) (db_clients (tx_db t))"
  shows "clients_inv (e_url_parse E) (db_clients (tx_db t'))"
proof -
  from c obtain t1 where up: "UpdateFields E cid
      \<lparr>up_Name = pcr_Name b, up_RedirectURIs = pcr_RedirectURIs b,
       up_AllowedScopes = pcr_AllowedScopes b, up_AllowedGrantTypes = pcr_AllowedGrantTypes b\<rparr> t = (t1, Inr x)"
    and same: "db_clients (tx_db t') = db_clients (tx_db t1)"
    by (auto simp: patchBody_def attempt_Inr dest!: auditIf_clients client_get_tx)
  have "clients_inv (e_url_parse E) (db_clients (tx_db t1))"
    by (rule UpdateFields_inv [OF up inv]) (use validatePatch_Inr [OF v] in simp_all)
  with same show ?thesis by simp
qed

lemma client_status_inv:
  assumes inv: "clients_inv P (db_clients (tx_db t))"
  shows "ClientDisable E cid t = (t', Inr x) \<Longrightarrow> clients_inv P (db_clients (tx_db t'))"
    and "ClientEnable E cid t = (t', Inr x) \<Longrightarrow> clients_inv P (db_clients (tx_db t'))"
    and "RotateSecret E cid hash ttl t = (t', Inr c) \<Longrightarrow> clients_inv P (db_clients (tx_db t'))"
    and "ClientDelete E cid t = (t', Inr x) \<Longrightarrow> clients_inv P (db_clients (tx_db t'))"
  using inv
  by (auto simp: ClientDisable_def ClientEnable_def RotateSecret_def ClientDelete_def foundRow_def needOne_Inr needRow_Inr stmt_Inr
      split: option.splits prod.splits sum.splits elim!: clients_inv_update)
     (auto simp: clientOk_def clients_inv_def list_all_iff distinct_map inj_on_def)

lemma client_change_inv:
  "client_change E req current t t' \<Longrightarrow> clients_inv (e_url_parse E) (db_clients (tx_db t)) \<Longrightarrow>
     clients_inv (e_url_parse E) (db_clients (tx_db t'))"
proof (induction rule: client_change.induct)
  case create then show ?case by (rule createClientBody_inv)
next
  case patch then show ?case by (rule patchBody_inv)
next
  case disable then show ?case
    by (auto simp: disableClientBody_def attempt_Inr dest!: clientAudit_clients dest: client_status_inv(1))
next
  case enable then show ?case
    by (auto simp: enableClientBody_def attempt_Inr dest!: clientAudit_clients client_get_tx dest: client_status_inv(2))
next
  case rotate then show ?case
    by (auto simp: rotateSecretBody_def attempt_Inr dest!: clientAudit_clients client_get_tx dest: client_status_inv(3) split: if_splits)
next
  case delete then show ?case
    by (auto simp: deleteClientBody_def attempt_Inr dest!: clientAudit_clients client_get_tx dest: client_status_inv(4))
qed

inductive clients_step :: "'k env set \<Rightarrow> 'k world \<Rightarrow> 'k world \<Rightarrow> bool" for Es where
  call: "E \<in> Es \<Longrightarrow> clients_call E req cu w w' \<Longrightarrow> clients_step Es w w'"

lemma clients_step_inv:
  assumes "(clients_step Es)\<^sup>*\<^sup>* w w'" and "\<forall>E\<in>Es. e_url_parse E = P" and "clients_inv P (db_clients (w_db w))"
  shows "clients_inv P (db_clients (w_db w'))"
  using assms(1)
proof (induction rule: rtranclp_induct)
  case base
  show ?case by (rule assms(3))
next
  case (step w1 w2)
  then obtain E req cu where E: "E \<in> Es" and call: "clients_call E req cu w1 w2" by (auto elim: clients_step.cases)
  from clients_call_changedBy [OF call] show ?case
    unfolding clientsChangedBy_def
  proof (elim disjE exE conjE)
    fix current t
    assume "client_change E req current (pool (w_db w1)) t" "w_db w2 = tx_db t"
    with client_change_inv [of E req current "pool (w_db w1)" t] step.IH assms(2) E show ?thesis by simp
  qed (use step.IH in simp)
qed

text \<open>C29. Codes only go where an administrator may send them: from a clients table in which every row is
  well-formed (a confidential client with a secret, one to ten redirect URIs that are HTTPS or loopback
  addresses without fragment or wildcard, known scopes and grant types without repetition), every
  sequence of calls of the client administration handlers, by any caller and with any input, leads to
  such a table again; and whatever request the authorization endpoint then gets, it redirects to a
  page of its own or to such an address, extended by an encoded query: after a question mark, or after
  an ampersand where the address has a question mark already.\<close>

theorem redirects_stay_secure:
  assumes "(clients_step Es)\<^sup>*\<^sup>* w w'" and "\<forall>E\<in>Es. e_url_parse E = P" and "clients_inv P (db_clients (w_db w))"
  shows "clients_inv P (db_clients (w_db w')) \<and>
    (case AuthorizeHandle E r user w' of (w'', Redirect dest clear) \<Rightarrow>
       hasPrefix dest ''/oidc/error?ref='' \<or> hasPrefix dest ''/login?return_to='' \<or>
       (\<exists>uri v. goodRedirect P uri \<and> dest = uri @ (if CHR ''?'' \<in> set uri then ''&'' else ''?'') @ e_url_encode E v))"
proof -
  have inv: "clients_inv P (db_clients (w_db w'))" by (rule clients_step_inv [OF assms])
  then have good: "goodRedirect P uri" if "client \<in> set (db_clients (w_db w'))" "uri \<in> set (c_RedirectURIs client)" for client uri
    using that by (auto simp: clients_inv_def list_all_iff clientOk_def)
  obtain w'' dest clear where h: "AuthorizeHandle E r user w' = (w'', Redirect dest clear)"
    by (cases "AuthorizeHandle E r user w'", cases "snd (AuthorizeHandle E r user w')") auto
  from AuthorizeHandle_dest [where E = E and r = r and user = user and w = w'] good inv show ?thesis
    unfolding h querySep_def [symmetric] by (simp, blast)
qed

section \<open>Secrets\<close>

lemma PostCreate_OK:
  assumes "PostCreate E req cu body w = (w', WriteJSON 201 (ClientCreated cid secret dto))"
  obtains current name hash b t c where "HashPassword E ''clients.PostCreate.salt'' 0 secret = Some hash"
    "createClientBody E req current name hash b (pool (w_db w)) = Inr (t, c)" "w_db w' = tx_db t"
    "cid = e_uuid_string E (c_ID c)"
proof -
  have stops: "\<not> createClientBody E req c n h b t = Inl (WriteJSON s x)" for c n h b t s x
    by (auto simp: createClientBody_def attempt_Inl fail500_def internalError_def)
  have no: "y \<noteq> Inl (WriteJSON s x)" if "inTx E site (createClientBody E req c n h b) d = (d', y)" for c n h b d d' y s x site
    using that stops by (auto simp: inTx_def internalError_def split: option.splits sum.splits prod.splits bool.splits)
  have valid: "validateCreate E b \<noteq> (Inl (WriteJSON s x) :: clientsBody response + string)" for b s x
    by (auto simp: validateCreate_def split: sum.splits option.splits)
  from assms valid obtain current name b rawSecret hash d y where
    h: "HashPassword E ''clients.PostCreate.salt'' 0 rawSecret = Some hash"
    and tx: "inTx E ''clients.PostCreate'' (createClientBody E req current name hash b) (w_db w) = (d, y)"
    and res: "(case y of Inl r \<Rightarrow> (w\<lparr>w_db := d\<rparr>, r) | Inr c \<Rightarrow> (w\<lparr>w_db := d\<rparr>,
        WriteJSON 201 (ClientCreated (e_uuid_string E (c_ID c)) rawSecret (toClientDTO E c)))) =
      (w', WriteJSON 201 (ClientCreated cid secret dto))"
    by (auto simp: PostCreate_def client_handlers internalError_def
        split: option.splits sum.splits prod.splits jsonBody.splits)
  from no [OF tx] res obtain c where c: "y = Inr c" "cid = e_uuid_string E (c_ID c)" "rawSecret = secret" "w_db w' = d"
    by (cases y) auto
  from tx [unfolded c(1)] obtain t where "createClientBody E req current name hash b (pool (w_db w)) = Inr (t, c)" "d = tx_db t"
    by (auto simp: inTx_Inr)
  with that h c show thesis by blast
qed

lemma createClientBody_row:
  assumes "createClientBody E req current name hash b t = Inr (t', c)"
  shows "db_clients (tx_db t') = db_clients (tx_db t) @ [c] \<and> c_SecretHash c = Some hash \<and> c_Status c = ''active'' \<and>
    (\<forall>y\<in>set (db_clients (tx_db t)). c_ID y \<noteq> c_ID c)"
  using assms
  by (auto simp: createClientBody_def attempt_Inr ClientCreate_def stmt_Inr Let_def list_ex_iff
      dest!: clientAudit_clients split: option.splits if_splits)

text \<open>A client can use what it was given: the identifier and the secret in the answer to a client
  creation are accepted by \<open>VerifySecret\<close> on the database it left behind, at any later time.\<close>

lemma created_secret_works:
  assumes call: "PostCreate E req cu body w = (w', WriteJSON 201 (ClientCreated cid secret dto))"
    and laws: "argon2_laws E" "uuid_laws E" and up: "\<not> e_pg_fails E (PQuery ''clients.VerifySecret'')"
  shows "snd (VerifySecret (E\<lparr>e_go_now := n\<rparr>) cid secret (pool (w_db w'))) = Inr True"
proof -
  from call obtain current name hash b t c where hash: "HashPassword E ''clients.PostCreate.salt'' 0 secret = Some hash"
    and body: "createClientBody E req current name hash b (pool (w_db w)) = Inr (t, c)"
    and w': "w_db w' = tx_db t" and cid: "cid = e_uuid_string E (c_ID c)"
    by (rule PostCreate_OK)
  note row = createClientBody_row [OF body]
  have "find (\<lambda>x. c_ID x = c_ID c \<and> c_Status x = ''active'') (db_clients (w_db w')) = Some c"
    unfolding w' using row by (auto simp: find_Some_iff nth_append intro!: exI [of _ "length (db_clients (w_db w))"])
  moreover have "e_uuid_parse E cid = Some (c_ID c)" using laws(2) cid by (simp add: uuid_laws_def)
  moreover have "checkSecrets (E\<lparr>e_go_now := n\<rparr>) secret c = Inr True"
    using VerifyPassword_HashPassword_accepts [OF laws(1) hash] row by (simp add: checkSecrets_def)
  ultimately show ?thesis
    using up by (simp add: VerifySecret_def ClientGetByID_def clientSelect_def query_def stmt_def needOne_def)
qed

section \<open>Deletion\<close>

lemma deleteClientBody_rows:
  assumes "deleteClientBody E req current cid t = Inr (t', x)"
  shows "\<exists>uid. e_uuid_parse E cid = Some uid \<and> (\<forall>c\<in>set (db_clients (tx_db t')). c_ID c \<noteq> uid) \<and>
    (\<forall>a\<in>set (db_codes (tx_db t')). ac_ClientID a \<noteq> uid)"
proof -
  from assms obtain t1 old t2 where g: "GetByIDAny E cid t = (t1, Inr old)" and d: "ClientDelete E cid t1 = (t2, Inr ())"
    and same: "db_clients (tx_db t') = db_clients (tx_db t2)" "db_codes (tx_db t') = db_codes (tx_db t2)"
    by (auto simp: deleteClientBody_def attempt_Inr clientAudit_def dest: Log_tables(2,3))
  from d same show ?thesis by (auto simp: ClientDelete_def needRow_Inr stmt_Inr split: option.splits)
qed

lemma DeleteOne_OK:
  assumes "DeleteOne E req cu idStr w = (w', NoContent)"
  obtains current t where "deleteClientBody E req current idStr (pool (w_db w)) = Inr (t, ())" "w_db w' = tx_db t"
    "w_vk w' = fst (RevokeBeforeClientSetNow E idStr (w_vk w))"
proof -
  have stops: "deleteClientBody E req c i t \<noteq> Inl NoContent" for c i t
    by (auto simp: deleteClientBody_def attempt_Inl clientError_def fail500_def internalError_def split: if_splits)
  have no: "y \<noteq> Inl NoContent" if "inTx E site (deleteClientBody E req c i) d = (d', y)" for c i d d' y site
    using that stops by (auto simp: inTx_def internalError_def split: option.splits sum.splits prod.splits bool.splits)
  from assms obtain current d y where tx: "inTx E ''clients.DeleteOne'' (deleteClientBody E req current idStr) (w_db w) = (d, y)"
    and res: "(case y of Inl r \<Rightarrow> (w\<lparr>w_db := d\<rparr>, r)
      | Inr _ \<Rightarrow> (\<lparr>w_db = d, w_vk = fst (RevokeBeforeClientSetNow E idStr (w_vk w))\<rparr>, NoContent)) = (w', NoContent)"
    by (auto simp: DeleteOne_def client_handlers split: option.splits sum.splits prod.splits)
  from no [OF tx] res have y: "y = Inr ()" "w_db w' = d" "w_vk w' = fst (RevokeBeforeClientSetNow E idStr (w_vk w))"
    by (cases y, auto)+
  from tx [unfolded y(1)] obtain t where "deleteClientBody E req current idStr (pool (w_db w)) = Inr (t, ())" "d = tx_db t"
    by (auto simp: inTx_Inr)
  with that y show thesis by blast
qed

lemma RevokeBeforeClientSetNow_view:
  assumes srv: "valkey_service (e_valkey E) view"
  shows "view (fst (RevokeBeforeClientSetNow E cid k)) =
    (view k)(revokeBeforeClientKey cid \<mapsto> (VStr (Decimal (Unix (e_go_now E) + 1)), Some revokeBeforeTTL))"
proof -
  let ?t = "truncateSecond (e_go_now E) + second"
  obtain r k' where v: "e_valkey E (SET (revokeBeforeClientKey cid) (Decimal (Unix ?t)) revokeBeforeTTL) k = (r, k')"
    by (cases rule: prod.exhaust)
  have "0 < revokeBeforeTTL" by (simp add: revokeBeforeTTL_def second_def)
  with valkey_service.serve [OF srv v] v show ?thesis
    by (simp add: RevokeBeforeClientSetNow_def RevokeBeforeClientSet_def Unix_truncate_next)
qed

lemma clientKey_inj: "revokeBeforeClientKey a = revokeBeforeClientKey b \<longleftrightarrow> a = b"
  by (simp add: revokeBeforeClientKey_def)

text \<open>A cutoff in the store is honoured by the bearer check.\<close>

lemma client_cutoff_honoured:
  assumes srv: "valkey_service (e_valkey E) view" and vk: "bd_Valkey deps"
    and cut: "view (w_vk w) (revokeBeforeClientKey (at_Audience c)) = Some (VStr (Decimal (s + 1)), e)"
    and range: "- (2 ^ 63) \<le> s + 1" "s + 1 < 2 ^ 63"
    and pass: "BearerAuth E deps header w = (w', BearerPass u c)"
  shows "s < at_IssuedAt c"
  using pass
proof (rule BearerAuth_Pass)
  fix raw
  assume "checkClaims E deps c = None" and ok: "checkCutoffs E deps c u (w_vk w) = (w_vk w', BearerPass u c)"
  then have aud: "at_Audience c \<noteq> []" by (simp add: checkClaims_None)
  have "cutoffAt (view (w_vk w)) (revokeBeforeClientKey (at_Audience c)) = Cutoff (fromUnix (s + 1))"
    using cut range by (simp add: readCutoff_def)
  with checkCutoffs_eq [OF srv vk aud, of u "w_vk w"] ok show ?thesis by (auto simp: beforeCutoff_def split: if_splits)
qed


section \<open>Samples\<close>

definition sampleURL :: "string \<Rightarrow> URL option" where
  "sampleURL s = Some \<lparr>url_Scheme = ''https'', url_Host = ''app'', url_Hostname = ''app'', url_Path = ''/cb'',
     url_RawQuery = [], url_Fragment = []\<rparr>"

definition sampleClientsEnv :: "kspace env" where
  "sampleClientsEnv = sampleEnv\<lparr>e_url_parse := sampleURL\<rparr>"

lemma sampleClientsEnv_sel [simp]:
  "e_url_parse sampleClientsEnv = sampleURL" "e_pg_fails sampleClientsEnv c = False" "e_pg_now sampleClientsEnv = 1000 * second"
  "e_go_now sampleClientsEnv = 1000 * second" "e_valkey sampleClientsEnv = vk_exec" "e_uuid_string sampleClientsEnv = showNat"
  "e_new_uuid sampleClientsEnv site = 100 + length site" "e_inet_ok sampleClientsEnv s = (s \<noteq> ''garbage'')"
  "e_rand sampleClientsEnv site i n = Some (replicate n (char_of (length site + i)))"
  "e_split_host_port sampleClientsEnv s = Some s"
  by (simp_all add: sampleClientsEnv_def)

lemma sample_nine: "e_uuid_parse sampleClientsEnv ''9'' = Some 9"
  using sampleEnv_sel(8) [of 9] by (simp add: sampleClientsEnv_def showNat.simps [of 9])

definition sampleClientsWorld :: "kspace world" where
  "sampleClientsWorld = \<lparr>w_db = emptyDB\<lparr>db_clients := [sampleClient], db_users := [sampleAdmin]\<rparr>, w_vk = (\<lambda>k. None)\<rparr>"

lemma sampleClientsWorld_sel [simp]:
  "db_clients (w_db sampleClientsWorld) = [sampleClient]" "db_users (w_db sampleClientsWorld) = [sampleAdmin]"
  "db_codes (w_db sampleClientsWorld) = []" "w_vk sampleClientsWorld = (\<lambda>k. None)" "c_ID sampleClient = 9"
  by (simp_all add: sampleClientsWorld_def emptyDB_def sampleClient_def)

lemma sampleClients_inv: "clients_inv sampleURL (db_clients (w_db sampleClientsWorld))"
  by (simp add: clients_inv_def clientOk_def clientRowOk_def goodRedirect_def sampleURL_def KnownScopes_def KnownGrantTypes_def
      statusOk_def sampleClient_def hasPrefix_def)

lemmas clients_eval = client_handlers attempt_def stmt_def query_def needOne_def needRow_def clientSelect_def GetByIDAny_def foundRow_def
  updClient_def clientAudit_def Log_def clientIP_def extractClientIP_def sampleRequest_def clientRowOk_def statusOk_def instantMeta_def

lemma sample_client_deleted:
  "\<exists>w'. DeleteOne sampleClientsEnv sampleRequest (Some sampleAdmin) ''9'' sampleClientsWorld = (w', NoContent)"
proof -
  have "\<exists>t. deleteClientBody sampleClientsEnv sampleRequest sampleAdmin ''9'' (pool (w_db sampleClientsWorld)) = Inr (t, ()) \<and> \<not> tx_aborted t"
    by (simp add: deleteClientBody_def ClientDelete_def clients_eval sample_nine)
  then obtain d where "inTx sampleClientsEnv ''clients.DeleteOne'' (deleteClientBody sampleClientsEnv sampleRequest sampleAdmin ''9'')
      (w_db sampleClientsWorld) = (d, Inr ())"
    by (auto simp: inTx_Inr)
  then show ?thesis by (simp add: DeleteOne_def client_handlers sample_nine)
qed


theorem redirects_stay_secure_witness:
  "\<exists>w'. clients_call sampleClientsEnv sampleRequest (Some sampleAdmin) sampleClientsWorld w' \<and>
     w_db w' \<noteq> w_db sampleClientsWorld \<and> clients_inv sampleURL (db_clients (w_db w'))"
proof -
  obtain w' where w': "DeleteOne sampleClientsEnv sampleRequest (Some sampleAdmin) ''9'' sampleClientsWorld = (w', NoContent)"
    using sample_client_deleted by blast
  have call: "clients_call sampleClientsEnv sampleRequest (Some sampleAdmin) sampleClientsWorld w'"
    using clients_call.intros(8) [of sampleClientsEnv sampleRequest "Some sampleAdmin" sampleClientsWorld "''9''"] w' by simp
  then have steps: "(clients_step {sampleClientsEnv})\<^sup>*\<^sup>* sampleClientsWorld w'" by (auto intro: clients_step.call)
  from w' obtain current t where "deleteClientBody sampleClientsEnv sampleRequest current ''9'' (pool (w_db sampleClientsWorld)) = Inr (t, ())"
    "w_db w' = tx_db t" by (rule DeleteOne_OK)
  from deleteClientBody_rows [OF this(1)] this(2) have "\<forall>c\<in>set (db_clients (w_db w')). c_ID c \<noteq> 9" by (auto simp: sample_nine)
  then have "w_db w' \<noteq> w_db sampleClientsWorld" by (metis sampleClientsWorld_sel(1,5) list.set_intros(1))
  with redirects_stay_secure [OF steps _ sampleClients_inv] call show ?thesis by auto
qed

definition sampleCreate :: createClientReq where
  "sampleCreate = \<lparr>ccr_Name = ''shop'', ccr_ClientType = ''confidential'', ccr_RedirectURIs = Some [''https://app/cb''],
     ccr_AllowedGrantTypes = Some [''authorization_code''], ccr_AllowedScopes = Some [''openid'']\<rparr>"

lemma sample_client_created:
  "\<exists>w' secret dto. PostCreate sampleClientsEnv sampleRequest (Some sampleAdmin) (JsonOK sampleCreate) sampleClientsWorld =
     (w', WriteJSON 201 (ClientCreated (showNat 110) secret dto))"
proof -
  obtain secret where secret: "generateClientSecret sampleClientsEnv ''clients.PostCreate'' = Some secret"
    by (simp add: generateClientSecret_def)
  obtain hash where hash: "HashPassword sampleClientsEnv ''clients.PostCreate.salt'' 0 secret = Some hash"
    by (simp add: HashPassword_def)
  have valid: "validateCreate sampleClientsEnv sampleCreate = (Inr ''shop'' :: clientsBody response + string)"
  proof -
    have "firstError (ValidateRedirectURIInput sampleClientsEnv) (listOf (ccr_RedirectURIs sampleCreate)) = None"
      unfolding firstError_None ValidateRedirectURIInput_None
      by (simp add: goodRedirect_def sampleURL_def sampleCreate_def listOf_def hasPrefix_def)
    then show ?thesis
      by (simp add: validateCreate_def ValidateClientName_def ValidateScopes_def ValidateGrantTypes_def KnownScopes_def
          KnownGrantTypes_def sampleCreate_def listOf_def trimSpace_def isSpaceByte_def clientNameMaxLen_def)
  qed
  have "\<exists>t c. createClientBody sampleClientsEnv sampleRequest sampleAdmin ''shop'' hash sampleCreate (pool (w_db sampleClientsWorld)) =
      Inr (t, c) \<and> \<not> tx_aborted t \<and> c_ID c = 110"
    by (simp add: createClientBody_def ClientCreate_def clients_eval sampleCreate_def Let_def)
  then obtain d c where "inTx sampleClientsEnv ''clients.PostCreate''
      (createClientBody sampleClientsEnv sampleRequest sampleAdmin ''shop'' hash sampleCreate) (w_db sampleClientsWorld) = (d, Inr c)" "c_ID c = 110"
    by (auto simp: inTx_Inr)
  then show ?thesis by (simp add: PostCreate_def client_handlers valid secret hash)
qed

end
