(* ===== verification/Authority.thy ===== *)
theory Authority
  imports Frames SetupProps ClientsProps
begin

text \<open>
  Who may change roles, clients, signing keys and settings, over every route of the routing table: an
  administrator with a live session, or the set-up wizard before it has run. \<open>authority\<close> is what is
  observed of the database; a route is \<open>guarded\<close> when it changes that only for an administrator.
\<close>

section \<open>The tables of authority\<close>

definition authority :: "db \<Rightarrow> (uuid \<times> string \<times> string \<times> string) list \<times> Client list \<times> SigningKey list \<times> (string \<times> json) list" where
  "authority d = (map (\<lambda>u. (u_ID u, u_Email u, u_Role u, u_Status u)) (db_users d), db_clients d, db_signing_keys d, db_config d)"

interpretation auth: observation authority
  by unfold_locales (simp_all add: authority_def)

section \<open>Who acts\<close>

definition actingUser :: "'k env \<Rightarrow> httpRequest \<Rightarrow> 'k world \<Rightarrow> User option" where
  "actingUser E q w =
     (case cookieOf (hq_Auth q) ''schlass_session'' of
        None \<Rightarrow> None
      | Some tok \<Rightarrow> (case snd (checkSession E (hq_Auth q) [] tok w) of SessionUser u \<Rightarrow> Some u | _ \<Rightarrow> None))"

definition byAdmin :: "'k env \<Rightarrow> httpRequest \<Rightarrow> 'k world \<Rightarrow> bool" where
  "byAdmin E q w = (\<exists>u. actingUser E q w = Some u \<and> u_Role u = ''super_admin'')"

lemma checkSession_obs: "authority (w_db (fst (checkSession E req mw tok w))) = authority (w_db w)"
  by (auto simp: checkSession_def split: prod.splits option.splits sum.splits sessionResult.splits)

lemma permission_admin: "perm \<in> set (PermissionsForRole role) \<Longrightarrow> role = ''super_admin''"
  by (auto simp: PermissionsForRole_def rolePermissions_def split: if_splits)

text \<open>A handler that changes the tables of authority only for an administrator.\<close>

definition guarded :: "'k env \<Rightarrow> httpRequest \<Rightarrow> 'k serving \<Rightarrow> bool" where
  "guarded E q h = (\<forall>w. authority (w_db (fst (h w))) = authority (w_db w) \<or> byAdmin E q w)"

lemma guarded_authMW:
  assumes "\<And>u w. authority (w_db (fst (h u w))) = authority (w_db w) \<or> u_Role u = ''super_admin''"
  shows "guarded E q (authMW E q h)"
  unfolding guarded_def
proof (intro allI)
  fix w
  show "authority (w_db (fst (authMW E q h w))) = authority (w_db w) \<or> byAdmin E q w"
  proof (cases "cookieOf (hq_Auth q) ''schlass_session''")
    case None
    then show ?thesis by (simp add: authMW_def Middleware_def)
  next
    case (Some tok)
    obtain w1 c where c: "checkSession E (hq_Auth q) [] tok w = (w1, c)" by (cases rule: prod.exhaust)
    with checkSession_obs [of E "hq_Auth q" "[]" tok w] have w1: "authority (w_db w1) = authority (w_db w)" by simp
    show ?thesis
    proof (cases "\<exists>u. c = SessionUser u")
      case True
      then obtain u where u: "c = SessionUser u" by blast
      obtain w2 r where h: "h u w1 = (w2, r)" by (cases rule: prod.exhaust)
      have "authMW E q h w = (w2, r)" using Some c u h by (simp add: authMW_def Middleware_def)
      moreover have "actingUser E q w = Some u" using Some c u by (simp add: actingUser_def)
      ultimately show ?thesis using assms [of u w1] h w1 by (auto simp: byAdmin_def)
    next
      case False
      then have "authMW E q h w = (w1, Refusal (middlewareError c))"
        using Some c by (cases c) (auto simp: authMW_def Middleware_def)
      with w1 show ?thesis by simp
    qed
  qed
qed

lemma guarded_gated: "guarded E q (gated E q perm h)"
  unfolding gated_def
proof (rule guarded_authMW)
  fix u w
  show "authority (w_db (fst (case RequirePermission perm (Some u) (h u) w of (w', Inl e) \<Rightarrow> (w', Refusal e) | (w', Inr r) \<Rightarrow> (w', r)))) =
      authority (w_db w) \<or> u_Role u = ''super_admin''"
    using permission_admin [of perm "u_Role u"]
    by (cases "perm \<in> set (PermissionsForRole (u_Role u))") (auto simp: RequirePermission_def requireUser_def)
qed

lemma guarded_same: "(\<And>w. authority (w_db (fst (h w))) = authority (w_db w)) \<Longrightarrow> guarded E q h"
  by (simp add: guarded_def)

lemma limiter_obs:
  assumes "\<And>w. authority (w_db (fst (h w))) = authority (w_db w)"
  shows "authority (w_db (fst (behindLimiter E os rl q h w))) = authority (w_db w)"
proof -
  obtain k x where a: "allow E rl (os_Draw os) (limiterKey rl (limiterIP E (aq_Req (hq_Auth q)))) (w_vk w) = (k, x)" by (cases rule: prod.exhaust)
  obtain w2 r where h: "h (w\<lparr>w_vk := k\<rparr>) = (w2, r)" by (cases rule: prod.exhaust)
  with assms [of "w\<lparr>w_vk := k\<rparr>"] have "authority (w_db w2) = authority (w_db w)" by simp
  with a h show ?thesis by (auto simp: behindLimiter_def rateLimit_def split: option.splits bool.splits)
qed

lemma serving_obs:
  "(\<And>w. authority (w_db (fst (f w))) = authority (w_db w)) \<Longrightarrow> authority (w_db (fst (onWorld f g w))) = authority (w_db w)"
  "authority (w_db (fst (reading e w))) = authority (w_db w)"
  by (auto simp: onWorld_def reading_def split: prod.splits) (metis fst_conv)

lemma verify_route_obs:
  "authority (w_db (fst (case PostEnrollmentVerify E fuel a b w of None \<Rightarrow> (w, NoReply) | Some (w', r) \<Rightarrow> (w', cookieReply r)))) =
     authority (w_db w)"
  by (auto dest: auth.PostEnrollmentVerify_obs split: option.splits)

lemma request_route_obs:
  "authority (w_db (fst (case PostRequest E h a b w of ((w', jobs), r) \<Rightarrow> (w', ResetReply jobs r)))) = authority (w_db w)"
  using auth.PostRequest_obs [of E h a b w] by (auto split: prod.splits)

lemma authorize_route_obs:
  "authority (w_db (fst (case OptionalMiddleware E a (\<lambda>u. AuthorizeHandle E ar u) w of (cs, w', r) \<Rightarrow> (w', AuthorizeReply cs r)))) =
     authority (w_db w)"
proof -
  have h: "authority (w_db (fst (AuthorizeHandle E ar u v))) = authority (w_db v)" for u v by (rule auth.AuthorizeHandle_obs)
  have "authority (w_db (fst (snd (OptionalMiddleware E a (\<lambda>u. AuthorizeHandle E ar u) w)))) = authority (w_db w)"
    using checkSession_obs [of E a "[(''mw'', MStr ''optional'')]" _ w]
    by (auto simp: OptionalMiddleware_def h split: option.splits prod.splits sessionCheck.splits) (metis fst_conv)+
  then show ?thesis by (auto split: prod.splits)
qed

text \<open>Every route but the set-up wizard is guarded.\<close>

definition setupRoute :: "string \<times> segment list \<times> 'a \<Rightarrow> bool" where
  "setupRoute r = (fst r = ''POST'' \<and> fst (snd r) = [Lit ''api'', Lit ''setup''])"

lemma entry_guarded: "list_all (\<lambda>r. setupRoute r \<or> guarded E q (snd (snd r))) (entryRoutes E os rt q)"
  by (simp add: entryRoutes_def Let_def setupRoute_def)
    (intro conjI guarded_same limiter_obs serving_obs auth.PostLogin_obs)

lemma public_guarded: "list_all (\<lambda>r. guarded E q (snd (snd r))) (publicRoutes E os rt q)"
  unfolding publicRoutes_def Let_def list.pred_inject snd_conv
  by (intro conjI list.pred_inject(1) guarded_same limiter_obs serving_obs verify_route_obs request_route_obs authorize_route_obs
      auth.PostEnrollmentStart_obs auth.PostEnrollmentComplete_obs auth.PostChallenge_obs auth.PostConfirm_obs
      auth.TokenHandle_obs auth.userinfoRoute_obs)

lemma self_guarded: "list_all (\<lambda>r. guarded E q (snd (snd r))) (selfRoutes E rt q)"
  unfolding selfRoutes_def Let_def list.pred_inject snd_conv
  by (intro conjI list.pred_inject(1) guarded_authMW disjI1 serving_obs auth.PostLogout_obs auth.PostChangePassword_obs auth.PostDisableMfa_obs)

lemma gated_guarded:
  "list_all (\<lambda>r. guarded E q (snd (snd r))) (usersRoutes E q @ clientsRoutes E q @ instanceRoutes E os rt q)"
  unfolding usersRoutes_def clientsRoutes_def instanceRoutes_def Let_def list_all_append list.pred_inject snd_conv
  by (intro conjI list.pred_inject(1) guarded_gated)

lemma routes_guarded: "list_all (\<lambda>r. setupRoute r \<or> guarded E q (snd (snd r))) (routes E os rt q)"
proof -
  have weaken: "list_all (\<lambda>r. setupRoute r \<or> guarded E q (snd (snd r))) rs" if "list_all (\<lambda>r. guarded E q (snd (snd r))) rs" for rs
    using that by (simp add: list_all_iff)
  show ?thesis
    using entry_guarded [of E q os rt] weaken [OF public_guarded] weaken [OF self_guarded] weaken [OF gated_guarded]
    unfolding routes_def list_all_append by blast
qed

text \<open>The wizard changes nothing once it has run.\<close>

definition notSetUp :: "'k env \<Rightarrow> db \<Rightarrow> bool" where
  "notSetUp E d = (snd (IsSetupComplete E (pool d)) = Inr False)"

lemma PostSetup_needs: "fst (PostSetup E hibp req body d) = d \<or> notSetUp E d"
  by (auto simp: PostSetup_def setupPrepare_def notSetUp_def split: sum.splits option.splits if_splits)

lemma setup_route_needs:
  "w_db (fst (behindLimiter E os rl q (onDB (PostSetup E hibp req body) SetupReply) w)) = w_db w \<or> notSetUp E (w_db w)"
proof -
  obtain k x where a: "allow E rl (os_Draw os) (limiterKey rl (limiterIP E (aq_Req (hq_Auth q)))) (w_vk w) = (k, x)" by (cases rule: prod.exhaust)
  obtain d r where h: "PostSetup E hibp req body (w_db w) = (d, r)" by (cases rule: prod.exhaust)
  from PostSetup_needs [of E hibp req body "w_db w"] h have "d = w_db w \<or> notSetUp E (w_db w)" by simp
  with a h show ?thesis by (auto simp: behindLimiter_def rateLimit_def onDB_def split: option.splits bool.splits)
qed

lemma muxServe_guarded:
  assumes "muxServe E os rt q w = (w', r)" and "authority (w_db w') \<noteq> authority (w_db w)"
  shows "byAdmin E q w \<or> hq_Method q = ''POST'' \<and> hq_Segments q = [''api'', ''setup''] \<and> notSetUp E (w_db w)"
proof -
  obtain m p h where f: "find (\<lambda>(m, p, h). patternMatch m p q) (routes E os rt q) = Some (m, p, h)" and h: "h w = (w', r)"
    using assms by (auto simp: muxServe_def split: option.splits)
  from find_Some_D [OF f] have mem: "(m, p, h) \<in> set (routes E os rt q)" and pm: "patternMatch m p q" by auto
  from mem routes_guarded [of E q os rt] have "setupRoute (m, p, h) \<or> guarded E q h" by (auto simp: list_all_iff)
  then show ?thesis
  proof
    assume "guarded E q h"
    with assms(2) h show ?thesis unfolding guarded_def by (metis fst_conv)
  next
    assume s: "setupRoute (m, p, h)"
    then have mp: "m = ''POST''" "p = [Lit ''api'', Lit ''setup'']" by (simp_all add: setupRoute_def)
    from mem [unfolded mp] have "h = behindLimiter E os (setupPostRL (rt_Cfg rt)) q (onDB (PostSetup E (rt_HIBP rt) (aq_Req (hq_Auth q)) (bd_setup (hq_Body q))) SetupReply)"
      by (simp add: routes_def entryRoutes_def publicRoutes_def selfRoutes_def usersRoutes_def clientsRoutes_def instanceRoutes_def Let_def)
    with setup_route_needs [of E os _ q _ _ _ w] h assms(2) have "notSetUp E (w_db w)" by (metis fst_conv)
    moreover from pm mp have "hq_Method q = ''POST''" "hq_Segments q = [''api'', ''setup'']"
      by (auto simp: patternMatch_def list_all2_Cons1)
    ultimately show ?thesis by blast
  qed
qed

text \<open>The session of the acting user is live, and the user not disabled.\<close>

lemma actingUser_owner:
  assumes srv: "valkey_service (e_valkey E) view" and inv: "session_inv (view (w_vk w))" and a: "actingUser E q w = Some u"
  shows "\<exists>tok. cookieOf (hq_Auth q) ''schlass_session'' = Some tok \<and> sessionOwner E (w_db w) (liveSession (view (w_vk w)) tok) = Some u"
proof -
  from a obtain tok w1 where tok: "cookieOf (hq_Auth q) ''schlass_session'' = Some tok"
    and c: "checkSession E (hq_Auth q) [] tok w = (w1, SessionUser u)"
    by (auto simp: actingUser_def split: option.splits sessionCheck.splits) (metis prod.collapse)
  have up: "\<not> e_pg_fails E (PQuery ''auth.Middleware'')"
  proof
    assume "e_pg_fails E (PQuery ''auth.Middleware'')"
    then have "snd (UserGetByID E ''auth.Middleware'' uid (pool d)) = Inl ErrDB" for uid d
      by (simp add: UserGetByID_def query_def stmt_def needOne_def)
    with c show False by (auto simp: checkSession_def split: prod.splits sessionResult.splits option.splits if_splits)
  qed
  from checkSession_spec [OF srv inv up c] tok show ?thesis
    by (auto split: option.splits)
qed

text \<open>Whatever Valkey does: it answered the session that names the user.\<close>

lemma sessionGet_reply:
  "sessionGet E ttl tok k = (k', SessOk s) \<Longrightarrow> \<exists>s0. fst (e_valkey E (GET (sessionKey tok)) k) = RBody (JSession s0) \<and> s_UserID s0 = s_UserID s"
  by (auto simp: sessionGet_def Let_def simp del: pipeline.simps split: prod.splits vreply.splits body.splits)

lemma actingUser_reply:
  assumes "actingUser E q w = Some u"
  shows "\<exists>tok sess. cookieOf (hq_Auth q) ''schlass_session'' = Some tok \<and>
     fst (e_valkey E (GET (sessionKey tok)) (w_vk w)) = RBody (JSession sess) \<and>
     e_uuid_parse E (s_UserID sess) = Some (u_ID u) \<and> u \<in> set (db_users (w_db w)) \<and> u_Status u \<noteq> ''disabled''"
proof -
  from assms obtain tok w1 where tok: "cookieOf (hq_Auth q) ''schlass_session'' = Some tok"
    and c: "checkSession E (hq_Auth q) [] tok w = (w1, SessionUser u)"
    by (auto simp: actingUser_def split: option.splits sessionCheck.splits) (metis prod.collapse)
  from c obtain ttl k1 s uid where s: "sessionGet E ttl tok (w_vk w) = (k1, SessOk s)" and p: "e_uuid_parse E (s_UserID s) = Some uid"
    and g: "snd (UserGetByID E ''auth.Middleware'' uid (pool (w_db w))) = Inr u" and st: "u_Status u \<noteq> ''disabled''"
    by (auto simp: checkSession_def split: prod.splits sessionResult.splits option.splits sum.splits if_splits)
  obtain t where "UserGetByID E ''auth.Middleware'' uid (pool (w_db w)) = (t, Inr u)"
    using g by (cases "UserGetByID E ''auth.Middleware'' uid (pool (w_db w))") auto
  from UserGetByID_Inr [OF this] sessionGet_reply [OF s] p st tok show ?thesis by auto
qed

lemma serveHTTP_mux:
  assumes "serveHTTP E os rt q w = (w', hs, r, l)"
  obtains q' where "muxServe E os rt q' w = (w', r)" "aq_Cookies (hq_Auth q') = aq_Cookies (hq_Auth q)"
    "hq_Method q' = hq_Method q" "hq_Segments q' = hq_Segments q"
proof -
  let ?q = "q\<lparr>hq_Auth := (hq_Auth q)\<lparr>aq_Req := (aq_Req (hq_Auth q))\<lparr>req_CorrelationID :=
      e_uuid_string E (e_new_uuid E ''middleware.RequestLogging'')\<rparr>\<rparr>\<rparr>"
  have "muxServe E os rt ?q w = (w', r)" using assms by (auto simp: serveHTTP_def RequestLogging_def Let_def split: prod.splits)
  then show thesis by (rule that) simp_all
qed

text \<open>C9. Authority changes hands only through an administrator: when a request changes the identity, address, role or
  status of a user, a client, a signing key or a setting, then it carries a session cookie for which Valkey answers a
  session of a user of the table who is not disabled and has the role \<open>super_admin\<close>, or it is the request of the set-up
  wizard to an instance that is not set up. This holds for every route, every body, and whatever PostgreSQL and Valkey
  do, failures and wrong answers included; where Valkey is a server with the documented semantics and the session store
  is well formed, that session is the live session stored under the cookie and its owner is that user.\<close>

theorem only_admins_change_authority:
  assumes "serveHTTP E os rt q w = (w', hs, r, l)" and "authority (w_db w') \<noteq> authority (w_db w)"
  shows "(\<exists>tok sess u. cookieOf (hq_Auth q) ''schlass_session'' = Some tok \<and>
        fst (e_valkey E (GET (sessionKey tok)) (w_vk w)) = RBody (JSession sess) \<and>
        e_uuid_parse E (s_UserID sess) = Some (u_ID u) \<and> u \<in> set (db_users (w_db w)) \<and>
        u_Status u \<noteq> ''disabled'' \<and> u_Role u = ''super_admin'' \<and>
        (\<forall>view. valkey_service (e_valkey E) view \<longrightarrow> session_inv (view (w_vk w)) \<longrightarrow>
           sessionOwner E (w_db w) (liveSession (view (w_vk w)) tok) = Some u)) \<or>
     hq_Method q = ''POST'' \<and> hq_Segments q = [''api'', ''setup''] \<and> snd (IsSetupComplete E (pool (w_db w))) = Inr False"
proof -
  obtain q' where m: "muxServe E os rt q' w = (w', r)" and same: "aq_Cookies (hq_Auth q') = aq_Cookies (hq_Auth q)"
    "hq_Method q' = hq_Method q" "hq_Segments q' = hq_Segments q" by (rule serveHTTP_mux [OF assms(1)])
  have cookie: "cookieOf (hq_Auth q') = cookieOf (hq_Auth q)" using same(1) by (simp add: cookieOf_def fun_eq_iff)
  show ?thesis
    using muxServe_guarded [OF m assms(2)]
  proof
    assume "byAdmin E q' w"
    then obtain u where u: "actingUser E q' w = Some u" "u_Role u = ''super_admin''" unfolding byAdmin_def by blast
    from actingUser_reply [OF u(1)] obtain tok sess where s: "cookieOf (hq_Auth q) ''schlass_session'' = Some tok"
      "fst (e_valkey E (GET (sessionKey tok)) (w_vk w)) = RBody (JSession sess)" "e_uuid_parse E (s_UserID sess) = Some (u_ID u)"
      "u \<in> set (db_users (w_db w))" "u_Status u \<noteq> ''disabled''" unfolding cookie by blast
    have "sessionOwner E (w_db w) (liveSession (view (w_vk w)) tok) = Some u"
      if "valkey_service (e_valkey E) view" "session_inv (view (w_vk w))" for view
      using actingUser_owner [OF that u(1)] s(1) unfolding cookie by auto
    with s u(2) show ?thesis by blast
  qed (simp add: same notSetUp_def)
qed

text \<open>A server before set-up, and the request that sets it up.\<close>

definition sampleConfig :: Env where
  "sampleConfig =
     \<lparr>cfg_DatabaseURL = ''pg'', cfg_MigrationsDatabaseURL = ''pg'', cfg_ValkeyURL = ''vk'', cfg_EncryptionKey = sampleKek,
      cfg_Port = ''3000'', cfg_SchlassPublicURL = ''https://id.example.org'', cfg_LoginRateLimit = 5, cfg_MfaChallengeRateLimit = 5,
      cfg_PasswordResetRateLimit = 5, cfg_AuthorizeRateLimit = 60, cfg_UserinfoRateLimit = 60, cfg_TokenRateLimit = 60,
      cfg_HIBPEnabled = False, cfg_HIBPEndpoint = [], cfg_HIBPTimeoutMS = 0, cfg_SweeperIntervalSecs = 86400\<rparr>"

definition sampleRouter :: router where
  "sampleRouter =
     \<lparr>rt_Cfg = sampleConfig, rt_Auth = sampleAuthHandler, rt_Mfa = sampleMfa,
      rt_Reset = \<lparr>rh_PublicURL = ''https://id.example.org'', rh_DummyHash = [], rh_HIBP = None, rh_Pepper = []\<rparr>, rt_HIBP = None\<rparr>"

definition sampleOutside :: outside where
  "sampleOutside =
     \<lparr>os_Mail = sampleMail, os_ParsedName = (\<lambda>s. s), os_Fuel = 10, os_Draw = 0, os_PgPing = True, os_VkPing = True, os_Asset = (\<lambda>p. False)\<rparr>"

definition sampleSetupCall :: httpRequest where
  "sampleSetupCall =
     \<lparr>hq_Method = ''POST'', hq_Path = ''/api/setup'', hq_Segments = [''api'', ''setup''], hq_RawQuery = [], hq_Query = [], hq_Form = None,
      hq_Authorization = [], hq_Auth = sampleAuthRequest [],
      hq_Body =
        \<lparr>bd_setup = Some sampleWizard, bd_login = None, bd_changePassword = None, bd_disableMfa = None, bd_createUser = None,
         bd_updateUser = None, bd_createClient = JsonInvalid, bd_patchClient = JsonInvalid, bd_general = None, bd_security = None,
         bd_tokens = None, bd_email = None, bd_enrollCode = None, bd_enrollSaved = None, bd_challenge = None,
         bd_resetRequest = None, bd_resetValidate = None, bd_resetConfirm = None\<rparr>\<rparr>"

lemma setup_dispatch:
  assumes "hq_Method q = ''POST''" and "hq_Segments q = [''api'', ''setup'']"
  shows "muxServe E os rt q w = behindLimiter E os (setupPostRL (rt_Cfg rt)) q
    (onDB (PostSetup E (rt_HIBP rt) (aq_Req (hq_Auth q)) (bd_setup (hq_Body q))) SetupReply) w"
  using assms by (simp add: muxServe_def routes_def entryRoutes_def patternMatch_def Let_def)

lemma sample_setup_served:
  obtains w' hs r l where "serveHTTP sampleEnv sampleOutside sampleRouter sampleSetupCall \<lparr>w_db = sampleSettings, w_vk = Map.empty\<rparr> = (w', hs, r, l)"
    "length (db_users (w_db w')) = 1" "configOk (db_config (w_db w'))"
proof -
  let ?w = "\<lparr>w_db = sampleSettings, w_vk = Map.empty\<rparr> :: kspace world"
  let ?cid = "e_uuid_string sampleEnv (e_new_uuid sampleEnv ''middleware.RequestLogging'')"
  let ?req = "(aq_Req (sampleAuthRequest []))\<lparr>req_CorrelationID := ?cid\<rparr>"
  let ?q = "sampleSetupCall\<lparr>hq_Auth := (sampleAuthRequest [])\<lparr>aq_Req := ?req\<rparr>\<rparr>"
  let ?h = "onDB (PostSetup sampleEnv None ?req (Some sampleWizard)) SetupReply :: kspace serving"
  obtain d1 where d1: "PostSetup sampleEnv None ?req (Some sampleWizard) sampleSettings = (d1, WriteJSON 200 SetupRedirect)"
    "configOk (db_config d1)" "length (db_users d1) = 1"
    by (rule sample_setup_done [of sampleWizard sampleSettings ?req])
      (auto simp: sampleWizard_def sampleRequestOk_def sampleAuthRequest_def)
  have "\<exists>k. rateLimit sampleEnv (setupPostRL sampleConfig) 0 ?req ?h ?w = apsnd Served (?h (?w\<lparr>w_vk := k\<rparr>))"
    by (rule limiter_spoofed [OF keyspace.valkey_service_axioms [folded sampleEnv_sel(1)], of _ _ "''192.0.2.1''"])
      (simp_all add: setupPostRL_def NewRateLimiter_def sampleConfig_def minute_def second_def sampleAuthRequest_def)
  then obtain k where k: "rateLimit sampleEnv (setupPostRL sampleConfig) 0 ?req ?h ?w = apsnd Served (?h (?w\<lparr>w_vk := k\<rparr>))" by blast
  have "muxServe sampleEnv sampleOutside sampleRouter ?q ?w = (\<lparr>w_db = d1, w_vk = k\<rparr>, SetupReply (WriteJSON 200 SetupRedirect))"
    using k d1(1) by (simp add: setup_dispatch sampleSetupCall_def sampleRouter_def behindLimiter_def sampleOutside_def onDB_def)
  then have "fst (serveHTTP sampleEnv sampleOutside sampleRouter sampleSetupCall ?w) = \<lparr>w_db = d1, w_vk = k\<rparr>"
    by (simp add: serveHTTP_def RequestLogging_def Let_def sampleSetupCall_def)
  with that d1(2,3) show thesis
    by (cases "serveHTTP sampleEnv sampleOutside sampleRouter sampleSetupCall ?w") auto
qed

theorem only_admins_change_authority_witness:
  "\<exists>w' hs r l. serveHTTP sampleEnv sampleOutside sampleRouter sampleSetupCall \<lparr>w_db = sampleSettings, w_vk = Map.empty\<rparr> = (w', hs, r, l) \<and>
     authority (w_db w') \<noteq> authority sampleSettings \<and> snd (IsSetupComplete sampleEnv (pool sampleSettings)) = Inr False"
proof -
  obtain w' hs r l where c: "serveHTTP sampleEnv sampleOutside sampleRouter sampleSetupCall \<lparr>w_db = sampleSettings, w_vk = Map.empty\<rparr> = (w', hs, r, l)"
    and one: "length (db_users (w_db w')) = 1" by (rule sample_setup_served)
  have "authority (w_db w') \<noteq> authority sampleSettings"
    using one by (auto simp: authority_def sampleSettings_def emptyDB_def)
  moreover from this have "snd (IsSetupComplete sampleEnv (pool sampleSettings)) = Inr False"
    using only_admins_change_authority [OF c]
    by (simp add: cookieOf_def sampleSetupCall_def sampleAuthRequest_def)
  ultimately show ?thesis using c by blast
qed

end
