(* ===== verification/Ownership.thy ===== *)
theory Ownership
  imports Authority
begin

text \<open>
  Which package writes which table. Four locales extend \<open>observation\<close>, each by one table the observed value
  does not depend on: the handlers of the package that owns the table keep every such value. Their
  interpretations say what each package leaves alone, and with the table invariants of the stores they
  give an invariant of the whole server: it survives every request, whatever the route, and the jobs
  and commands that run beside the requests.
\<close>

section \<open>The owner of each table\<close>

text \<open>Blind to users, and to who created a client, which the database clears when a user goes.\<close>

locale users_blind = observation +
  assumes obs_anyone [simp]: "obs (d\<lparr>db_users := us\<rparr>) = obs d"
    and obs_creator [simp]: "obs (d\<lparr>db_clients := map (\<lambda>c. if c_CreatedByUserID c = Some uid then c\<lparr>c_CreatedByUserID := None\<rparr> else c)
      (db_clients d)\<rparr>) = obs d"
begin

lemma user_writes_obs:
  "UserCreate E email hash role f t = (t', r1) \<Longrightarrow> obs (tx_db t') = obs (tx_db t)"
  "UserUpdate E uid email role t = (t', r2) \<Longrightarrow> obs (tx_db t') = obs (tx_db t)"
  "UserSetStatus E uid st t = (t', r2) \<Longrightarrow> obs (tx_db t') = obs (tx_db t)"
proof -
  show "UserCreate E email hash role f t = (t', r1) \<Longrightarrow> obs (tx_db t') = obs (tx_db t)"
    unfolding UserCreate_def by (erule stmt_obs) (auto simp: Let_def split: if_splits)
  show "UserUpdate E uid email role t = (t', r2) \<Longrightarrow> obs (tx_db t') = obs (tx_db t)"
    "UserSetStatus E uid st t = (t', r2) \<Longrightarrow> obs (tx_db t') = obs (tx_db t)"
    unfolding UserUpdate_def UserSetStatus_def
    by (erule wrapped_obs, erule stmt_obs, auto simp: updUsers_def split: if_splits)+
qed

lemma UserDelete_obs: "UserDelete E uid t = (t', r) \<Longrightarrow> obs (tx_db t') = obs (tx_db t)"
proof -
  have "obs (d\<lparr>db_users := us, db_clients := map (\<lambda>c. if c_CreatedByUserID c = Some uid then c\<lparr>c_CreatedByUserID := None\<rparr> else c)
      (db_clients d), db_recovery_codes := rc, db_reset_tokens := rt\<rparr>) = obs d" for d us rc rt
    using obs_creator [of uid "d\<lparr>db_users := us\<rparr>"] by simp
  then show "UserDelete E uid t = (t', r) \<Longrightarrow> obs (tx_db t') = obs (tx_db t)"
    unfolding UserDelete_def by (elim wrapped_obs stmt_obs) (auto split: if_splits)
qed

lemma PseudonymizeUser_obs: "PseudonymizeUser E uid t = (t', r) \<Longrightarrow> obs (tx_db t') = obs (tx_db t)"
  unfolding PseudonymizeUser_def by (auto elim!: wrapped_obs stmt_obs)

lemma committed_obs: "committed E req current t t' \<Longrightarrow> obs (tx_db t') = obs (tx_db t)"
  by (induction rule: committed.induct)
    (auto simp: bodies writeUpdate_def Let_def derefUser_def userAudit_def attempt_Inr
      dest!: ops_obs user_writes_obs UserDelete_obs PseudonymizeUser_obs enforce_Inr lock_Inr split: if_splits option.splits)

lemma changedBy_obs: "changedBy E req cu d d' \<Longrightarrow> obs d' = obs d"
  by (auto simp: changedBy_def dest: committed_obs)

end

locale clients_blind = observation +
  assumes obs_clients [simp]: "obs (d\<lparr>db_clients := cs\<rparr>) = obs d"
begin

lemma updClient_obs: "updClient uid ok f d = Inr (d', x) \<Longrightarrow> obs d' = obs d"
  by (auto simp: updClient_def split: option.splits if_splits)

lemma client_reads_obs:
  "GetByIDAny E cid t = (t', r) \<Longrightarrow> obs (tx_db t') = obs (tx_db t)"
  "GetByIDForUpdate E cid t = (t', r) \<Longrightarrow> obs (tx_db t') = obs (tx_db t)"
  by (auto simp: GetByIDAny_def GetByIDForUpdate_def clientSelect_def elim!: wrapped_obs dest: query_obs split: option.splits)

lemma client_writes_obs:
  "ClientCreate E p t = (t', r1) \<Longrightarrow> obs (tx_db t') = obs (tx_db t)"
  "UpdateFields E cid u t = (t', r1) \<Longrightarrow> obs (tx_db t') = obs (tx_db t)"
  "ClientDisable E cid t = (t', r2) \<Longrightarrow> obs (tx_db t') = obs (tx_db t)"
  "ClientEnable E cid t = (t', r2) \<Longrightarrow> obs (tx_db t') = obs (tx_db t)"
  "RotateSecret E cid hash ttl t = (t', r1) \<Longrightarrow> obs (tx_db t') = obs (tx_db t)"
  "ClientDelete E cid t = (t', r2) \<Longrightarrow> obs (tx_db t') = obs (tx_db t)"
  by (auto simp: ClientCreate_def UpdateFields_def ClientDisable_def ClientEnable_def RotateSecret_def ClientDelete_def foundRow_def Let_def
      dest: updClient_obs elim!: wrapped_obs stmt_obs split: option.splits prod.splits sum.splits if_splits)

lemma client_audits_obs:
  "clientAudit E req event current target meta t = (t', r) \<Longrightarrow> obs (tx_db t') = obs (tx_db t)"
  "auditIf E req current cid event old new t = (t', r) \<Longrightarrow> obs (tx_db t') = obs (tx_db t)"
  by (auto simp: auditIf_def clientAudit_def dest!: Log_obs split: if_splits)

lemmas client_ops_obs = client_audits_obs client_reads_obs client_writes_obs

lemma client_change_obs: "client_change E req current t t' \<Longrightarrow> obs (tx_db t') = obs (tx_db t)"
proof (induction rule: client_change.induct)
  case create then show ?case by (auto simp: createClientBody_def attempt_Inr dest!: client_ops_obs)
next
  case patch then show ?case by (auto simp: patchBody_def attempt_Inr dest!: client_ops_obs)
next
  case disable then show ?case by (auto simp: disableClientBody_def attempt_Inr dest!: client_ops_obs)
next
  case enable then show ?case by (auto simp: enableClientBody_def attempt_Inr dest!: client_ops_obs)
next
  case rotate then show ?case by (auto simp: rotateSecretBody_def attempt_Inr dest!: client_ops_obs split: if_splits)
next
  case delete then show ?case by (auto simp: deleteClientBody_def attempt_Inr dest!: client_ops_obs)
qed

lemma clientsChangedBy_obs: "clientsChangedBy E req cu d d' \<Longrightarrow> obs d' = obs d"
  by (auto simp: clientsChangedBy_def dest: client_change_obs)

end

locale keys_blind = observation +
  assumes obs_keys [simp]: "obs (d\<lparr>db_signing_keys := ks\<rparr>) = obs d"
begin

lemma key_ops_obs:
  "GetActive E t = (t', r1) \<Longrightarrow> obs (tx_db t') = obs (tx_db t)"
  "MarkRetiring E kid t = (t', r2) \<Longrightarrow> obs (tx_db t') = obs (tx_db t)"
  "MarkRetired E kid t = (t', r2) \<Longrightarrow> obs (tx_db t') = obs (tx_db t)"
  "KeyInsert E pub priv st t = (t', r3) \<Longrightarrow> obs (tx_db t') = obs (tx_db t)"
proof -
  show "GetActive E t = (t', r1) \<Longrightarrow> obs (tx_db t') = obs (tx_db t)"
    unfolding GetActive_def by (erule wrapped_obs) (rule query_obs)
  show "MarkRetiring E kid t = (t', r2) \<Longrightarrow> obs (tx_db t') = obs (tx_db t)" "MarkRetired E kid t = (t', r2) \<Longrightarrow> obs (tx_db t') = obs (tx_db t)"
    "KeyInsert E pub priv st t = (t', r3) \<Longrightarrow> obs (tx_db t') = obs (tx_db t)"
    unfolding MarkRetiring_def MarkRetired_def KeyInsert_def
    by (erule stmt_obs, auto simp: updKeys_def Let_def split: if_splits)+
qed

lemma sweepKeys_obs: "sweepKeys E cid ids d = (d', b) \<Longrightarrow> obs d' = obs d"
proof (induction ids arbitrary: d)
  case (Cons kid ids)
  show ?case
  proof (cases "beginTx E ''retireSweep'' d")
    case (Some t0)
    then have t0: "t0 = pool d" by (simp add: beginTx_Some)
    obtain t1 r1 where m: "MarkRetired E kid t0 = (t1, r1)" by (cases rule: prod.exhaust)
    obtain t2 r2 where l: "Log E cid (keyEntry E ''oidc.signing_key.retired'' kid None) t1 = (t2, r2)" by (cases rule: prod.exhaust)
    obtain d1 ok where c: "commitTx E ''retireSweep'' t2 d = (d1, ok)" by (cases rule: prod.exhaust)
    from key_ops_obs(3) [OF m] Log_obs [OF l] t0 have "obs (tx_db t2) = obs d" by simp
    then have "obs d1 = obs d" by (rule commitTx_obs [OF c])
    with Cons.IH [of d1] Cons.prems Some m l c show ?thesis by (auto split: sum.splits bool.splits)
  qed (use Cons.prems in simp)
qed simp

lemma RetireSweep_obs: "obs (fst (RetireSweep E cid cutoff d)) = obs d"
  using sweepKeys_obs [OF prod.collapse [symmetric]] by (auto simp: RetireSweep_def split: sum.splits)

lemma rotateTx_obs: "rotateTx E req actor pub priv kid t d = (d', b) \<Longrightarrow> obs (tx_db t) = obs d \<Longrightarrow> obs d' = obs d"
  by (auto simp: rotateTx_def dest!: key_ops_obs Log_obs commitTx_obs split: prod.splits sum.splits)

lemma Rotate_obs: "obs (fst (Rotate E kek req cu d)) = obs d"
  by (auto simp: Rotate_def beginTx_Some RetireSweep_obs dest!: key_ops_obs rotateTx_obs split: option.splits prod.splits sum.splits bool.splits)

lemma EmergencyRetire_obs: "obs (fst (EmergencyRetire E req cu kid d)) = obs d"
  by (auto simp: EmergencyRetire_def beginTx_Some dest!: query_obs key_ops_obs Log_obs commitTx_obs
      split: option.splits prod.splits sum.splits bool.splits)

lemma Bootstrap_obs: "obs (fst (Bootstrap E kek d)) = obs d"
  by (auto simp: Bootstrap_def beginTx_Some commitTx_def dest!: key_ops_obs Log_obs split: option.splits prod.splits sum.splits bool.splits)

end

locale config_blind = observation +
  assumes obs_config [simp]: "obs (d\<lparr>db_config := c\<rparr>) = obs d"
begin

lemma configSet_obs: "configSet E key v t = (t', r) \<Longrightarrow> obs (tx_db t') = obs (tx_db t)"
  unfolding configSet_def by (erule stmt_obs) auto

lemma writeChange_obs: "writeChange E kek key v t = (t', r) \<Longrightarrow> obs (tx_db t') = obs (tx_db t)"
  by (cases v) (auto simp: SetBool_def SetInt_def SetString_def SetEncryptedValue_def dest!: configSet_obs split: option.splits)

lemma applyChanges_obs: "applyChanges E kek req actor cs t = Inr (t', x) \<Longrightarrow> obs (tx_db t') = obs (tx_db t)"
  by (induction cs arbitrary: t) (auto simp: attempt_Inr dest!: writeChange_obs Log_obs)

lemma saveChanges_obs: "obs (fst (saveChanges E kek req actor site view pre cs d)) = obs d"
proof -
  obtain d' r where tx: "inTx E site (applyChanges E kek req actor cs) d = (d', r)" by (cases rule: prod.exhaust)
  from tx have "obs d' = obs d" by (rule inTx_obs) (simp add: applyChanges_obs)
  with tx show ?thesis by (auto simp: saveChanges_def split: sum.splits)
qed

lemma PatchGeneral_obs: "obs (fst (PatchGeneral E req cu body d)) = obs d"
proof -
  have tx: "obs d' = obs d" if "inTx E site (generalBody E req actor old new) d = (d', r)" for site actor old new d' r
    using that by (rule inTx_obs) (auto simp: generalBody_def SetInstanceName_def attempt_Inr dest!: configSet_obs Log_obs)
  show ?thesis by (auto simp: PatchGeneral_def Let_def dest!: tx split: option.splits sum.splits prod.splits)
qed

lemma settings_obs:
  "obs (fst (PatchSecurity E kek req cu sb d)) = obs d" "obs (fst (PatchTokens E kek req cu tb d)) = obs d"
  "obs (fst (PatchEmail E kek nm req cu eb d)) = obs d"
  by (simp_all add: PatchSecurity_def PatchTokens_def PatchEmail_def Let_def saveChanges_obs split: option.splits)

end

text \<open>The set-up wizard writes both.\<close>

locale users_config_blind = users_blind + config_blind
begin

lemma PostSetup_obs: "obs (fst (PostSetup E hibp req body d)) = obs d"
proof -
  have tx: "obs d' = obs d" if "inTx E site (setupTx E req q hash) d = (d', r)" for site q hash d' r
    using that
    by (rule inTx_obs) (auto simp: setupTx_def SetSetupComplete_def SetInstanceName_def attempt_Inr dest!: user_writes_obs configSet_obs Log_obs)
  show ?thesis by (auto simp: PostSetup_def setupCommit_def dest!: tx split: sum.splits prod.splits)
qed

end

text \<open>What each package leaves alone.\<close>

abbreviation userCore :: "User \<Rightarrow> uuid \<times> string \<times> string \<times> string" where
  "userCore u \<equiv> (u_ID u, u_Email u, u_Role u, u_Status u)"

definition withoutCreator :: "Client \<Rightarrow> Client" where
  "withoutCreator c = c\<lparr>c_CreatedByUserID := None\<rparr>"

definition besidesUsers :: "db \<Rightarrow> Client list \<times> SigningKey list \<times> (string \<times> json) list" where
  "besidesUsers d = (map withoutCreator (db_clients d), db_signing_keys d, db_config d)"

definition besidesClients :: "db \<Rightarrow> (uuid \<times> string \<times> string \<times> string) list \<times> SigningKey list \<times> (string \<times> json) list" where
  "besidesClients d = (map userCore (db_users d), db_signing_keys d, db_config d)"

definition besidesKeys :: "db \<Rightarrow> (uuid \<times> string \<times> string \<times> string) list \<times> Client list \<times> (string \<times> json) list" where
  "besidesKeys d = (map userCore (db_users d), db_clients d, db_config d)"

definition besidesConfig :: "db \<Rightarrow> (uuid \<times> string \<times> string \<times> string) list \<times> Client list \<times> SigningKey list" where
  "besidesConfig d = (map userCore (db_users d), db_clients d, db_signing_keys d)"

definition besidesWizard :: "db \<Rightarrow> Client list \<times> SigningKey list" where
  "besidesWizard d = (map withoutCreator (db_clients d), db_signing_keys d)"

interpretation adminUsers: users_blind besidesUsers
  by unfold_locales (simp_all add: besidesUsers_def withoutCreator_def comp_def if_distrib cong: if_cong)

interpretation adminClients: clients_blind besidesClients
  by unfold_locales (simp_all add: besidesClients_def)

interpretation adminKeys: keys_blind besidesKeys
  by unfold_locales (simp_all add: besidesKeys_def)

interpretation adminSettings: config_blind besidesConfig
  by unfold_locales (simp_all add: besidesConfig_def)

interpretation wizard: users_config_blind besidesWizard
  by unfold_locales (simp_all add: besidesWizard_def withoutCreator_def comp_def if_distrib cong: if_cong)

section \<open>The invariant of the server\<close>

text \<open>The instance has no users, or an active administrator; users, clients and keys satisfy their
  constraints, a key is active, and every setting has its type and its bounds.\<close>

definition server_inv :: "(string \<Rightarrow> URL option) \<Rightarrow> db \<Rightarrow> bool" where
  "server_inv P d =
     ((db_users d = [] \<or> admin_inv (db_users d)) \<and> clients_inv P (db_clients d) \<and>
      keys_inv (db_signing_keys d) \<and> hasActive (db_signing_keys d) \<and> configOk (db_config d))"

lemma admin_inv_core:
  assumes "map userCore us = map userCore us'"
  shows "admin_inv us = admin_inv us'"
proof -
  have core: "admin_inv us = (let cs = map userCore us in
      distinct (map fst cs) \<and> distinct (map (\<lambda>c. toLower (fst (snd c))) cs) \<and>
      (\<forall>c \<in> set cs. roleOk (fst (snd (snd c))) \<and> statusOk (snd (snd (snd c)))) \<and>
      (\<exists>c \<in> set cs. fst (snd (snd c)) = ''super_admin'' \<and> snd (snd (snd c)) = ''active''))" for us
    by (simp add: admin_inv_def users_inv_def list_all_iff list_ex_iff activeAdmin_def comp_def)
  show ?thesis unfolding core [of us] core [of us'] assms ..
qed

lemma peopled_core:
  assumes "map userCore us = map userCore us'"
  shows "(us = [] \<or> admin_inv us) = (us' = [] \<or> admin_inv us')"
  using admin_inv_core [OF assms] map_eq_imp_length_eq [OF assms] by auto

lemma clientOk_withoutCreator: "clientOk P (withoutCreator c) = clientOk P c" "c_ID (withoutCreator c) = c_ID c"
  by (simp_all add: clientOk_def clientRowOk_def withoutCreator_def)

lemma clients_inv_withoutCreator: "clients_inv P (map withoutCreator cs) = clients_inv P cs"
  by (simp add: clients_inv_def list_all_iff clientOk_withoutCreator comp_def)

lemma server_inv_authority:
  assumes "authority d' = authority d"
  shows "server_inv P d' = server_inv P d"
proof -
  from assms have core: "map userCore (db_users d') = map userCore (db_users d)" by (simp add: authority_def)
  from peopled_core [OF core] assms show ?thesis by (simp add: server_inv_def authority_def)
qed

text \<open>A handler keeps the invariant, possibly only once there are users.\<close>

definition keepsInv :: "(string \<Rightarrow> URL option) \<Rightarrow> 'k serving \<Rightarrow> bool" where
  "keepsInv P h = (\<forall>w. server_inv P (w_db w) \<longrightarrow> server_inv P (w_db (fst (h w))))"

definition keepsUsed :: "(string \<Rightarrow> URL option) \<Rightarrow> 'k serving \<Rightarrow> bool" where
  "keepsUsed P h = (\<forall>w. server_inv P (w_db w) \<and> db_users (w_db w) \<noteq> [] \<longrightarrow> server_inv P (w_db (fst (h w))))"

lemma keepsInv_used: "keepsInv P h \<Longrightarrow> keepsUsed P h"
  by (simp add: keepsInv_def keepsUsed_def)

lemma keepsInv_same: "(\<And>w. authority (w_db (fst (h w))) = authority (w_db w)) \<Longrightarrow> keepsInv P h"
  unfolding keepsInv_def by (blast intro: server_inv_authority [THEN iffD2])

lemma keepsInv_reading: "keepsInv P (reading f)"
  by (simp add: keepsInv_def reading_def)

lemma keepsInv_limiter:
  fixes h :: "'k serving"
  assumes "keepsInv P h"
  shows "keepsInv P (behindLimiter E os rl q h)"
  unfolding keepsInv_def
proof (intro allI impI)
  fix w :: "'k world" assume inv: "server_inv P (w_db w)"
  obtain k x where a: "allow E rl (os_Draw os) (limiterKey rl (limiterIP E (aq_Req (hq_Auth q)))) (w_vk w) = (k, x)" by (cases rule: prod.exhaust)
  obtain w2 r where h: "h (w\<lparr>w_vk := k\<rparr>) = (w2, r)" by (cases rule: prod.exhaust)
  with assms inv have "server_inv P (w_db w2)" unfolding keepsInv_def by (metis fst_conv world.select_convs(1) world.surjective world.update_convs(2))
  with a h inv show "server_inv P (w_db (fst (behindLimiter E os rl q h w)))"
    by (auto simp: behindLimiter_def rateLimit_def split: option.splits bool.splits)
qed

lemma checkSession_peopled: "checkSession E req mw tok w = (w', SessionUser u) \<Longrightarrow> db_users (w_db w') \<noteq> []"
  by (auto simp: checkSession_def UserGetByID_def needOne_def query_def stmt_def find_Some_iff
      split: prod.splits option.splits sum.splits sessionResult.splits if_splits)

lemma keepsInv_authMW:
  fixes h :: "User \<Rightarrow> 'k serving"
  assumes "\<And>u. keepsUsed P (h u)"
  shows "keepsInv P (authMW E q h)"
  unfolding keepsInv_def
proof (intro allI impI)
  fix w :: "'k world" assume inv: "server_inv P (w_db w)"
  show "server_inv P (w_db (fst (authMW E q h w)))"
  proof (cases "cookieOf (hq_Auth q) ''schlass_session''")
    case None
    with inv show ?thesis by (simp add: authMW_def Middleware_def)
  next
    case (Some tok)
    obtain w1 c where c: "checkSession E (hq_Auth q) [] tok w = (w1, c)" by (cases rule: prod.exhaust)
    with checkSession_obs [of E "hq_Auth q" "[]" tok w] have "authority (w_db w1) = authority (w_db w)" by simp
    from server_inv_authority [OF this] inv have w1: "server_inv P (w_db w1)" by blast
    show ?thesis
    proof (cases "\<exists>u. c = SessionUser u")
      case True
      then obtain u where u: "c = SessionUser u" by blast
      obtain w2 r where h: "h u w1 = (w2, r)" by (cases rule: prod.exhaust)
      with Some c u have "fst (authMW E q h w) = fst (h u w1)" by (simp add: authMW_def Middleware_def)
      with assms [of u] w1 checkSession_peopled c u show ?thesis unfolding keepsUsed_def by metis
    next
      case False
      then have "authMW E q h w = (w1, Refusal (middlewareError c))"
        using Some c by (cases c) (auto simp: authMW_def Middleware_def)
      with w1 show ?thesis by simp
    qed
  qed
qed

lemma keepsInv_gated:
  assumes "\<And>u. keepsUsed P (h u)"
  shows "keepsInv P (gated E q perm h)"
  unfolding gated_def
proof (rule keepsInv_authMW)
  fix u
  show "keepsUsed P (\<lambda>w. case RequirePermission perm (Some u) (h u) w of (w', Inl e) \<Rightarrow> (w', Refusal e) | (w', Inr r) \<Rightarrow> (w', r))"
  proof (cases "perm \<in> set (PermissionsForRole (u_Role u))")
    case True
    with assms [of u] show ?thesis by (simp add: keepsUsed_def RequirePermission_def requireUser_def case_prod_beta)
  qed (simp add: keepsUsed_def RequirePermission_def requireUser_def)
qed

section \<open>The handlers\<close>

lemma users_call_inv:
  assumes "users_call E req cu w w'" and inv: "server_inv P (w_db w)" "db_users (w_db w) \<noteq> []"
  shows "server_inv P (w_db w')"
proof -
  note ch = users_call_changedBy [OF assms(1)]
  from inv have "admin_inv (db_users (w_db w))" by (simp add: server_inv_def)
  with ch have "admin_inv (db_users (w_db w'))" using committed_admin by (fastforce simp: changedBy_def)
  moreover from adminUsers.changedBy_obs [OF ch] have
    "map withoutCreator (db_clients (w_db w')) = map withoutCreator (db_clients (w_db w))"
    "db_signing_keys (w_db w') = db_signing_keys (w_db w)" "db_config (w_db w') = db_config (w_db w)"
    by (simp_all add: besidesUsers_def)
  ultimately show ?thesis using inv(1) clients_inv_withoutCreator unfolding server_inv_def by metis
qed

lemma clients_call_inv:
  assumes "clients_call E req cu w w'" and inv: "server_inv (e_url_parse E) (w_db w)"
  shows "server_inv (e_url_parse E) (w_db w')"
proof -
  note ch = clients_call_changedBy [OF assms(1)]
  from inv have "clients_inv (e_url_parse E) (db_clients (w_db w))" by (simp add: server_inv_def)
  with ch have c: "clients_inv (e_url_parse E) (db_clients (w_db w'))" using client_change_inv by (fastforce simp: clientsChangedBy_def)
  from adminClients.clientsChangedBy_obs [OF ch] have core: "map userCore (db_users (w_db w')) = map userCore (db_users (w_db w))"
    and same: "db_signing_keys (w_db w') = db_signing_keys (w_db w)" "db_config (w_db w') = db_config (w_db w)"
    by (simp_all add: besidesClients_def)
  from peopled_core [OF core] inv c same show ?thesis unfolding server_inv_def by simp
qed

lemma key_step_inv:
  assumes "key_step Es d d'" and same: "besidesKeys d' = besidesKeys d" and inv: "server_inv P d"
  shows "server_inv P d'"
proof -
  from changes_inv [OF key_step_changes [OF assms(1)]] inv
  have "keys_inv (db_signing_keys d')" "hasActive (db_signing_keys d')" by (simp_all add: server_inv_def)
  moreover from same have core: "map userCore (db_users d') = map userCore (db_users d)"
    and "db_clients d' = db_clients d" "db_config d' = db_config d" by (simp_all add: besidesKeys_def)
  ultimately show ?thesis using inv peopled_core [OF core] unfolding server_inv_def by simp
qed

lemmas keys_kept = key_step_inv [OF key_step.rotate [OF insertI1] adminKeys.Rotate_obs]
  key_step_inv [OF key_step.emergency [OF insertI1] adminKeys.EmergencyRetire_obs]
  key_step_inv [OF key_step.sweep [OF insertI1] adminKeys.RetireSweep_obs]

lemma settings_inv:
  assumes "config_step Es d d'" and same: "besidesConfig d' = besidesConfig d" and inv: "server_inv P d"
  shows "server_inv P d'"
proof -
  from config_step_ok [OF assms(1)] inv have "configOk (db_config d')" by (simp add: server_inv_def)
  moreover from same have core: "map userCore (db_users d') = map userCore (db_users d)"
    and "db_clients d' = db_clients d" "db_signing_keys d' = db_signing_keys d" by (simp_all add: besidesConfig_def)
  ultimately show ?thesis using inv peopled_core [OF core] unfolding server_inv_def by simp
qed

lemmas settings_kept = settings_inv [OF config_step.general [OF insertI1] adminSettings.PatchGeneral_obs]
  settings_inv [OF config_step.security [OF insertI1] adminSettings.settings_obs(1)]
  settings_inv [OF config_step.tokens [OF insertI1] adminSettings.settings_obs(2)]
  settings_inv [OF config_step.email [OF insertI1] adminSettings.settings_obs(3)]

text \<open>The wizard adds an administrator.\<close>

lemma UserCreate_admin:
  assumes "UserCreate E email hash ''super_admin'' f t = (t', Inr uid)" and "users_inv (db_users (tx_db t))"
  shows "admin_inv (db_users (tx_db t'))"
  using assms
  by (auto simp: UserCreate_def stmt_Inr Let_def admin_inv_def users_inv_def activeAdmin_def emailTaken_def list_ex_iff roleOk_def statusOk_def
      split: if_splits)

lemma setupTx_admin:
  assumes "setupTx E req r hash t = Inr (t', x)" and "users_inv (db_users (tx_db t))"
  shows "admin_inv (db_users (tx_db t'))"
  using assms
  by (auto simp: setupTx_def SetSetupComplete_def SetInstanceName_def configSet_def stmt_Inr attempt_Inr
      dest!: UserCreate_admin Log_tables(1))

lemma PostSetup_inv:
  assumes inv: "server_inv P d"
  shows "server_inv P (fst (PostSetup E hibp req body d))" (is "server_inv P ?d")
proof -
  have u: "users_inv (db_users d)" using inv by (auto simp: server_inv_def admin_inv_def users_inv_def)
  have tx: "d' = d \<or> admin_inv (db_users d')" if "inTx E site (setupTx E req r hash) d = (d', x)" for site r hash d' x
    using that by (cases rule: inTx_cases) (use u setupTx_admin in fastforce)+
  have "?d = d \<or> admin_inv (db_users ?d)"
    by (auto simp: PostSetup_def setupCommit_def dest!: tx split: sum.splits prod.splits)
  moreover have "configOk (db_config ?d)"
    using PostSetup_ok [OF prod.collapse [symmetric]] inv by (auto simp: server_inv_def)
  moreover have "map withoutCreator (db_clients ?d) = map withoutCreator (db_clients d)" "db_signing_keys ?d = db_signing_keys d"
    using wizard.PostSetup_obs [of E hibp req body d] by (simp_all add: besidesWizard_def)
  ultimately show ?thesis using inv clients_inv_withoutCreator unfolding server_inv_def by metis
qed

section \<open>Every route\<close>

text \<open>No request matches two patterns, so it does not matter in which order the multiplexer tries them.\<close>

lemma match_overlap:
  assumes "patternMatch m p q" "patternMatch m' p' q" "m \<noteq> ''HEAD''" "m' \<noteq> ''HEAD''"
  shows "patternOverlap (m, p) (m', p')"
proof -
  have seg: "segOverlap a b" if "segMatch a s" "segMatch b s" for a b s using that by (cases a; cases b) auto
  have "list_all2 segOverlap p p'" if "list_all2 segMatch p ss" "list_all2 segMatch p' ss" for ss
    using that unfolding list_all2_conv_all_nth by (metis seg)
  with assms show ?thesis unfolding patternMatch_def patternOverlap_def by auto
qed

lemma routes_patterns: "map (\<lambda>r. (fst r, fst (snd r))) (routes E os rt q) = routePatterns"
  unfolding routes_def entryRoutes_def selfRoutes_def usersRoutes_def clientsRoutes_def instanceRoutes_def publicRoutes_def Let_def
    append.simps list.map prod.sel routePatterns_def ..

lemma route_unique:
  assumes "i < j" "j < length (routes E os rt q)" "patternMatch (fst (routes E os rt q ! i)) (fst (snd (routes E os rt q ! i))) q'"
  shows "\<not> patternMatch (fst (routes E os rt q ! j)) (fst (snd (routes E os rt q ! j))) q'"
proof
  let ?r = "routes E os rt q"
  have i: "i < length ?r" using assms(1,2) by (rule less_trans)
  have len: "length routePatterns = length ?r" using arg_cong [OF routes_patterns [of E os rt q], of length] by simp
  have at: "routePatterns ! n = (fst (?r ! n), fst (snd (?r ! n)))" if "n < length ?r" for n
    unfolding routes_patterns [of E os rt q, symmetric] using that by (rule nth_map)
  have head: "fst (routePatterns ! n) \<noteq> ''HEAD''" if "n < length ?r" for n
    using patterns_disjoint(2) that unfolding list_all_length len by blast
  assume "patternMatch (fst (?r ! j)) (fst (snd (?r ! j))) q'"
  with assms(3) have "patternOverlap (fst (?r ! i), fst (snd (?r ! i))) (fst (?r ! j), fst (snd (?r ! j)))"
    by (rule match_overlap) (use head [OF i] head [OF assms(2)] in \<open>simp_all only: at [OF i] at [OF assms(2)] fst_conv not_False_eq_True\<close>)
  with sorted_wrt_nth_less [OF patterns_disjoint(1) assms(1)] assms(2) show False unfolding len at [OF i] at [OF assms(2)] by blast
qed

lemma onWorld_fst: "fst (onWorld f g w) = fst (f w)"
  by (simp add: onWorld_def split: prod.splits)

lemma keepsUsed_users: "(\<And>w. users_call E req cu w (fst (f w))) \<Longrightarrow> keepsUsed P (onWorld f g)"
  unfolding keepsUsed_def onWorld_fst by (blast intro: users_call_inv)

lemma keepsUsed_clients: "(\<And>w. clients_call E req cu w (fst (f w))) \<Longrightarrow> keepsUsed (e_url_parse E) (onWorld f g)"
  unfolding keepsUsed_def onWorld_fst by (blast intro: clients_call_inv)

lemma keepsInv_onDB: "(\<And>d. server_inv P d \<Longrightarrow> server_inv P (fst (f d))) \<Longrightarrow> keepsInv P (onDB f g)"
  by (simp add: keepsInv_def onDB_def split: prod.splits) (metis fst_conv)

lemma entry_kept: "list_all (\<lambda>r. keepsInv P (snd (snd r))) (entryRoutes E os rt q)"
  unfolding entryRoutes_def Let_def list.pred_inject snd_conv
  by (intro conjI list.pred_inject(1) keepsInv_limiter keepsInv_reading keepsInv_onDB PostSetup_inv)
    (assumption | intro keepsInv_same serving_obs auth.PostLogin_obs)+

lemma public_kept: "list_all (\<lambda>r. keepsInv P (snd (snd r))) (publicRoutes E os rt q)"
  unfolding publicRoutes_def Let_def list.pred_inject snd_conv
  by (intro conjI list.pred_inject(1) keepsInv_same limiter_obs serving_obs verify_route_obs request_route_obs authorize_route_obs
      auth.PostEnrollmentStart_obs auth.PostEnrollmentComplete_obs auth.PostChallenge_obs auth.PostConfirm_obs
      auth.TokenHandle_obs auth.userinfoRoute_obs)

lemma self_kept: "list_all (\<lambda>r. keepsInv P (snd (snd r))) (selfRoutes E rt q)"
  unfolding selfRoutes_def Let_def list.pred_inject snd_conv
  by (intro conjI list.pred_inject(1) keepsInv_authMW keepsInv_used keepsInv_same serving_obs
      auth.PostLogout_obs auth.PostChangePassword_obs auth.PostDisableMfa_obs)

lemma users_kept: "list_all (\<lambda>r. keepsInv P (snd (snd r))) (usersRoutes E q)"
  unfolding usersRoutes_def Let_def list.pred_inject snd_conv
  by (intro conjI list.pred_inject(1) keepsInv_gated) (rule keepsUsed_users, rule users_call.intros)+

lemma clients_kept: "list_all (\<lambda>r. keepsInv (e_url_parse E) (snd (snd r))) (clientsRoutes E q)"
  unfolding clientsRoutes_def Let_def list.pred_inject snd_conv
  by (intro conjI list.pred_inject(1) keepsInv_gated) (rule keepsUsed_clients, rule clients_call.intros)+

lemma instance_kept: "list_all (\<lambda>r. keepsInv P (snd (snd r))) (instanceRoutes E os rt q)"
  unfolding instanceRoutes_def Let_def list.pred_inject snd_conv
  by (intro conjI list.pred_inject(1) keepsInv_gated keepsInv_used keepsInv_reading keepsInv_onDB)
    (erule keys_kept settings_kept)+

lemma routes_kept: "list_all (\<lambda>r. keepsInv (e_url_parse E) (snd (snd r))) (routes E os rt q)"
  unfolding routes_def list_all_append by (intro conjI entry_kept self_kept users_kept clients_kept instance_kept public_kept)

lemma serveHTTP_inv:
  assumes "server_inv (e_url_parse E) (w_db w)"
  shows "server_inv (e_url_parse E) (w_db (fst (serveHTTP E os rt q w)))"
proof -
  obtain w' hs r l where s: "serveHTTP E os rt q w = (w', hs, r, l)" by (cases rule: prod_cases4)
  obtain q' where m: "muxServe E os rt q' w = (w', r)" by (rule serveHTTP_mux [OF s])
  have "server_inv (e_url_parse E) (w_db w')"
  proof (cases "find (\<lambda>(m, p, h). patternMatch m p q') (routes E os rt q')")
    case None
    with m assms show ?thesis by (simp add: muxServe_def)
  next
    case (Some x)
    obtain me p h where x: "x = (me, p, h)" by (cases rule: prod_cases3)
    from find_Some_D [OF Some] have "(me, p, h) \<in> set (routes E os rt q')" unfolding x by blast
    with routes_kept [of E os rt q'] have "keepsInv (e_url_parse E) h" by (auto simp: list_all_iff)
    moreover from m Some x have "h w = (w', r)" by (simp add: muxServe_def)
    ultimately show ?thesis using assms unfolding keepsInv_def by (metis fst_conv)
  qed
  with s show ?thesis by simp
qed

section \<open>Runs of the server\<close>

text \<open>A request to any route; a tick of the sweeper; the recovery command; a restart, not in development mode,
  which would seed a client; and whatever happens in Valkey, such as an expiry.\<close>

inductive server_step :: "'k env set \<Rightarrow> 'k world \<Rightarrow> 'k world \<Rightarrow> bool" for Es where
  request: "E \<in> Es \<Longrightarrow> server_step Es w (fst (serveHTTP E os rt q w))"
| sweep: "E \<in> Es \<Longrightarrow> server_step Es w (w\<lparr>w_db := fst (RunSweepOnce E (w_db w))\<rparr>)"
| recovery: "E \<in> Es \<Longrightarrow> server_step Es w (w\<lparr>w_db := fst (RecoveryRun E hkdf iv flag mode config (w_db w))\<rparr>)"
| restart: "E \<in> Es \<Longrightarrow> getenv ''SCHLASS_DEV'' \<noteq> ''1'' \<Longrightarrow>
    server_step Es w (w\<lparr>w_db := fst (startServer E hkdf getenv migrated pooled up (w_db w))\<rparr>)"
| valkey: "server_step Es w (w\<lparr>w_vk := k\<rparr>)"

lemma RunSweepOnce_obs: "authority (fst (RunSweepOnce E d)) = authority d"
proof -
  have tx: "authority d' = authority d" if "inTx E site (sweepTx E) d = (d', r)" for site d' r
    using that
    by (rule auth.inTx_obs) (auto simp: sweepTx_def sweepResetTokens_def sweepAuthCodes_def stmt_Inr Let_def attempt_Inr dest!: auth.Log_obs)
  show ?thesis by (auto simp: RunSweepOnce_def dest!: tx split: prod.splits sum.splits)
qed

lemma RecoveryRun_obs: "authority (fst (RecoveryRun E hkdf iv flag mode config d)) = authority d"
proof -
  have tx: "authority d' = authority d" if "inTx E site (recoveryTx E iv pepper u tok) d = (d', r)" for site pepper u tok d' r
    using that by (rule auth.inTx_obs) (auto simp: recoveryTx_def attempt_Inr dest!: auth.Log_obs auth.auth_stores_obs)
  show ?thesis
    by (auto simp: RecoveryRun_def RecoveryExecute_def dest!: tx split: option.splits prod.splits sum.splits)
qed

lemma Bootstrap_kept: "server_inv P d \<Longrightarrow> server_inv P (fst (Bootstrap E kek d))"
  by (rule key_step_inv [OF key_step.bootstrap [OF insertI1] adminKeys.Bootstrap_obs])

lemma startServer_db:
  assumes "getenv ''SCHLASS_DEV'' \<noteq> ''1''"
  shows "fst (startServer E hkdf getenv migrated pooled up d) = d \<or>
    (\<exists>kek. fst (startServer E hkdf getenv migrated pooled up d) = fst (Bootstrap E kek d) \<and> \<not> snd (Bootstrap E kek d) \<or>
       fst (startServer E hkdf getenv migrated pooled up d) = fst (RetireSweep E [] (rotateCutoff E) (fst (Bootstrap E kek d))) \<and>
       snd (Bootstrap E kek d))"
proof (cases "Load E getenv")
  case (Inr cfg)
  obtain d1 b where b: "Bootstrap E (cfg_EncryptionKey cfg) d = (d1, b)" by (cases rule: prod.exhaust)
  have "SeedDevClient E (getenv ''SCHLASS_DEV'') s u x = (x, True)" for s u x using assms by (simp add: SeedDevClient_def)
  with Inr b show ?thesis
    by (cases b) (auto simp: startServer_def intro!: exI [of _ "cfg_EncryptionKey cfg"])
qed (simp add: startServer_def)

lemma server_step_inv:
  assumes "server_step Es w w'" and P: "\<forall>E\<in>Es. e_url_parse E = P" and inv: "server_inv P (w_db w)"
  shows "server_inv P (w_db w')"
  using assms(1)
proof cases
  case (request E os rt q)
  with serveHTTP_inv [of E w os rt q] P inv show ?thesis by simp
next
  case (sweep E)
  with server_inv_authority [OF RunSweepOnce_obs [of E "w_db w"]] inv show ?thesis by simp
next
  case (recovery E hkdf iv flag mode config)
  with server_inv_authority [OF RecoveryRun_obs [of E hkdf iv flag mode config "w_db w"]] inv show ?thesis by simp
next
  case (restart E getenv hkdf migrated pooled up)
  have "server_inv P (fst (startServer E hkdf getenv migrated pooled up (w_db w)))"
    using startServer_db [of getenv E hkdf migrated pooled up "w_db w", OF restart(3)] inv Bootstrap_kept keys_kept(3) by metis
  with restart(1) show ?thesis by simp
next
  case (valkey k)
  with inv show ?thesis by simp
qed

text \<open>What the migrations leave, after the first start.\<close>

lemma Bootstrap_active: "Bootstrap E kek d = (d', True) \<Longrightarrow> hasActive (db_signing_keys d')"
  by (auto simp: Bootstrap_def GetActive_def needOne_def query_def stmt_def beginTx_Some commitTx_True hasActive_def list_ex_iff freshActive_def
      dest!: KeyInsert_Inr Log_tables(4) find_Some_D split: option.splits prod.splits sum.splits if_splits)

lemma first_start_inv:
  assumes s: "startServer E hkdf getenv migrated pooled up (emptyDB\<lparr>db_config := seedConfig\<rparr>) = (d1, Some rt)"
    and dev: "getenv ''SCHLASS_DEV'' \<noteq> ''1''"
  shows "server_inv P d1"
proof -
  let ?d = "emptyDB\<lparr>db_config := seedConfig\<rparr>"
  obtain cfg where cfg: "Load E getenv = Inr cfg" using s by (auto simp: startServer_def split: sum.splits)
  obtain d0 b where b: "Bootstrap E (cfg_EncryptionKey cfg) ?d = (d0, b)" by (cases rule: prod.exhaust)
  have d0: "b" "d1 = fst (RetireSweep E [] (rotateCutoff E) d0)"
    using s cfg b dev by (auto simp: startServer_def SeedDevClient_def split: if_splits bool.splits)
  have "keys_inv (db_signing_keys d0)"
    using changes_inv [OF key_step_changes [OF key_step.bootstrap [OF insertI1, of E "{}" ?d "cfg_EncryptionKey cfg"]]] b
    by (simp add: keys_inv_def emptyDB_def)
  moreover have "hasActive (db_signing_keys d0)" using Bootstrap_active [of E "cfg_EncryptionKey cfg" ?d d0] b d0(1) by simp
  moreover have "db_users d0 = []" "db_clients d0 = []" "db_config d0 = seedConfig"
    using adminKeys.Bootstrap_obs [of E "cfg_EncryptionKey cfg" ?d] b by (simp_all add: besidesKeys_def emptyDB_def)
  ultimately have "server_inv P d0" by (simp add: server_inv_def clients_inv_def seedConfig_ok)
  then show ?thesis unfolding d0(2) by (rule keys_kept(3))
qed

text \<open>C8. The server stays sound. Take the database the migrations leave, a first start of the server (not in
  development mode) that succeeds, and then any sequence of requests to any routes, by anybody, with any
  bodies, under any failures of PostgreSQL and Valkey, and of sweeps, recovery commands and restarts. At
  every point the instance has no users or an active administrator, users and clients satisfy their
  constraints and every client redirects only to HTTPS or loopback addresses, exactly one signing key is
  active, and every setting has its type and its bounds.\<close>

theorem server_stays_sound:
  assumes "startServer E hkdf getenv migrated pooled up (emptyDB\<lparr>db_config := seedConfig\<rparr>) = (d, Some rt)"
    and "getenv ''SCHLASS_DEV'' \<noteq> ''1''"
    and "(server_step Es)\<^sup>*\<^sup>* \<lparr>w_db = d, w_vk = k\<rparr> w" and "\<forall>E\<in>Es. e_url_parse E = P"
  shows "server_inv P (w_db w)"
  using assms(3)
proof (induction rule: rtranclp_induct)
  case base
  from first_start_inv [OF assms(1,2)] show ?case by simp
next
  case (step w1 w2)
  from server_step_inv [OF step.hyps(2) assms(4) step.IH] show ?case .
qed

lemma sample_start:
  obtains d rt where "startServer sampleClientsEnv (\<lambda>k i. Some i) (minimalEnv ''pg'' ''pg'' ''vk'' sampleKEK) True True True sampleSettings =
    (d, Some rt)"
proof -
  obtain cfg where cfg: "Load sampleClientsEnv (minimalEnv ''pg'' ''pg'' ''vk'' sampleKEK) = Inr cfg" "cfg_EncryptionKey cfg = sampleKEK"
    using Load_minimal [of "''pg''" "''pg''" "''vk''" sampleKEK sampleClientsEnv] by (auto simp: sampleKEK_def)
  have "\<exists>w. WrapPrivateKey sampleClientsEnv pem sampleKEK = Some w" for pem
    by (simp add: WrapPrivateKey_def sampleKEK_def Encrypt_def sealAESGCM_def newGCM_def sizes)
  then obtain w where w: "\<And>pem. WrapPrivateKey sampleClientsEnv pem sampleKEK = Some (w pem)" by metis
  have "e_rsa_generate sampleClientsEnv site = Some (''PUB'', ''PRIV'')" for site by (simp add: sampleClientsEnv_def sampleEnv_def)
  then have "snd (Bootstrap sampleClientsEnv sampleKEK sampleSettings)"
    by (simp add: Bootstrap_def GetActive_def needOne_def query_def stmt_def sampleSettings_def emptyDB_def GenerateKeyPair_def w
        beginTx_def KeyInsert_def keyStatusOk_def Log_def keyEntry_def commitTx_def Let_def)
  then obtain d0 where b: "Bootstrap sampleClientsEnv sampleKEK sampleSettings = (d0, True)" by (metis prod.collapse)
  have dev: "minimalEnv ''pg'' ''pg'' ''vk'' sampleKEK ''SCHLASS_DEV'' = []" by (simp add: minimalEnv_def)
  have "\<exists>rt. BuildRouter sampleClientsEnv (\<lambda>k i. Some i) cfg hibp = Some rt" for hibp
    by (simp add: BuildRouter_def NewHandler_def NewPasswordResetHandler_def HashPassword_def DeriveTokenPepper_def cfg(2) sampleKEK_def)
  then obtain rt where "BuildRouter sampleClientsEnv (\<lambda>k i. Some i) cfg (if cfg_HIBPEnabled cfg then Some (cfg_HIBPEndpoint cfg) else None) = Some rt"
    by blast
  with cfg b dev that show thesis by (simp add: startServer_def SeedDevClient_def sampleURL_def)
qed

theorem server_stays_sound_witness:
  "\<exists>d rt (w :: kspace world). startServer sampleClientsEnv (\<lambda>k i. Some i) (minimalEnv ''pg'' ''pg'' ''vk'' sampleKEK) True True True
       (emptyDB\<lparr>db_config := seedConfig\<rparr>) = (d, Some rt) \<and>
     server_step {sampleClientsEnv} \<lparr>w_db = d, w_vk = Map.empty\<rparr> w \<and> server_inv sampleURL (w_db w)"
proof -
  obtain d rt where s: "startServer sampleClientsEnv (\<lambda>k i. Some i) (minimalEnv ''pg'' ''pg'' ''vk'' sampleKEK) True True True
      (emptyDB\<lparr>db_config := seedConfig\<rparr>) = (d, Some rt)" by (rule sample_start [unfolded sampleSettings_def])
  have step: "server_step {sampleClientsEnv} \<lparr>w_db = d, w_vk = Map.empty\<rparr>
      (fst (serveHTTP sampleClientsEnv sampleOutside rt sampleSetupCall \<lparr>w_db = d, w_vk = Map.empty\<rparr>))" by (rule server_step.request) simp
  then have run: "(server_step {sampleClientsEnv})\<^sup>*\<^sup>* \<lparr>w_db = d, w_vk = Map.empty\<rparr>
      (fst (serveHTTP sampleClientsEnv sampleOutside rt sampleSetupCall \<lparr>w_db = d, w_vk = Map.empty\<rparr>))" by (rule r_into_rtranclp)
  have "minimalEnv ''pg'' ''pg'' ''vk'' sampleKEK ''SCHLASS_DEV'' \<noteq> ''1''" by (simp add: minimalEnv_def)
  from server_stays_sound [OF s this run, of sampleURL] s step show ?thesis by (intro exI conjI) simp_all
qed

end
