(* ===== verification/ResetLinks.thy ===== *)
theory ResetLinks
  imports SetupProps
begin

text \<open>
  A reset link is a one-time credential over runs of the server: whatever writes the table of reset tokens
  afterwards (\<open>PostRequest\<close> and \<open>PostConfirm\<close> of \<^verbatim>\<open>internal/auth/password_reset.go\<close>, the sweeper, the
  recovery command, the deletion of users), a token that was used is never accepted again.
\<close>

section \<open>The table of reset tokens\<close>

definition spentHash :: "string \<Rightarrow> reset_token list \<Rightarrow> bool" where
  "spentHash H rs = (\<forall>r\<in>set rs. prt_TokenHash r = H \<longrightarrow> prt_UsedAt r \<noteq> None)"

lemma spentHash_marked:
  "spentHash H rs \<Longrightarrow> spentHash H (map (\<lambda>r. if p r then r\<lparr>prt_UsedAt := Some n\<rparr> else r) rs)"
  by (auto simp: spentHash_def)

lemma spentHash_sub: "spentHash H rs \<Longrightarrow> set rs' \<subseteq> set rs \<Longrightarrow> spentHash H rs'"
  by (auto simp: spentHash_def)

lemma spentHash_insert:
  assumes "ResetInsert E pepper uid tok ttl ip t = (t', Inr rid)" and "HMACToken E tok pepper \<noteq> H"
    and "spentHash H (db_reset_tokens (tx_db t))"
  shows "spentHash H (db_reset_tokens (tx_db t'))"
  using assms(1) by (rule ResetInsert_Inr) (use assms(2,3) in \<open>auto simp: spentHash_def\<close>)

lemma requestBody_spent:
  assumes "requestBody E h req u tok t = Inr (t', x)" and "HMACToken E tok (rh_Pepper h) \<noteq> H"
    and "spentHash H (db_reset_tokens (tx_db t))"
  shows "spentHash H (db_reset_tokens (tx_db t'))"
proof -
  from assms(1) obtain t1 n t2 rid where i: "InvalidateOutstandingForUser E (u_ID u) t = (t1, Inr n)"
    and ins: "ResetInsert E (rh_Pepper h) (u_ID u) tok resetTTL (parseClientIPAddr E (authIP E req)) t1 = (t2, Inr rid)"
    and a: "db_reset_tokens (tx_db t') = db_reset_tokens (tx_db t2)"
    by (auto simp: requestBody_def attempt_Inr dest!: selfAudit_Inr)
  have "spentHash H (db_reset_tokens (tx_db t1))" using Invalidate_Inr [OF i] spentHash_marked [OF assms(3)] by simp
  from spentHash_insert [OF ins assms(2) this] show ?thesis by (simp add: a)
qed

lemma PostRequest_spent:
  assumes call: "PostRequest E h req body w = ((w', ms), r)"
    and new: "\<And>buf. e_rand E ''reset.token'' 0 32 = Some buf \<Longrightarrow> HMACToken E (base64RawURL buf) (rh_Pepper h) \<noteq> H"
    and sp: "spentHash H (db_reset_tokens (w_db w))"
  shows "spentHash H (db_reset_tokens (w_db w'))"
proof (cases "ms = []")
  case True
  with PostRequest_frame(4) [OF call] sp show ?thesis by simp
next
  case False
  with call obtain buf u d where buf: "e_rand E ''reset.token'' 0 32 = Some buf"
    and tx: "inTx E ''reset.request'' (requestBody E h req u (base64RawURL buf)) (w_db w) = (d, Inr ())" and w': "w_db w' = d"
    by (auto simp: PostRequest_def requestFor_def Let_def split: option.splits sum.splits prod.splits if_splits)
  from tx obtain t where "requestBody E h req u (base64RawURL buf) (pool (w_db w)) = Inr (t, ())" "d = tx_db t" by (auto simp: inTx_Inr)
  with requestBody_spent [OF _ new [OF buf]] sp w' show ?thesis by auto
qed

lemma PostConfirm_spentHash:
  assumes call: "PostConfirm E h req body w = (w', ms, r)" and sp: "spentHash H (db_reset_tokens (w_db w))"
  shows "spentHash H (db_reset_tokens (w_db w'))"
proof -
  have cb: "spentHash H (db_reset_tokens (tx_db t))" if c: "confirmBody E h req tok pw (pool (w_db w)) = Inr (t, uid)" for tok pw t uid
  proof -
    from c obtain row hash where "confirmWrites E req (scanToken row) hash (pool (w_db w)) = Inr (t, uid)"
      by (rule confirmBody_Inr) simp
    from confirmWrites_rows(3) [OF this] spentHash_marked [OF sp] show ?thesis by simp
  qed
  have fin: "w_db w2 = w_db w1" if "finishConfirm E uid w1 = (w2, ms2, r2)" for uid w1 w2 ms2 r2
    using that by (auto simp: finishConfirm_def Let_def)
  show ?thesis
    using call sp
    by (auto simp: PostConfirm_def beginTx_Some auditConfirmFailed_def commitTx_def cb dest!: fin
        split: option.splits sum.splits prod.splits confirmStop.splits if_splits bool.splits)
qed

lemma RecoveryRun_spent:
  assumes run: "RecoveryRun E hkdf iv flagEmail mode config d = (d', line)"
    and new: "\<And>ek url pepper buf. config = Some (ek, url) \<Longrightarrow> DeriveTokenPepper hkdf ek = Some pepper \<Longrightarrow>
      e_rand E ''recovery'' 0 32 = Some buf \<Longrightarrow> HMACToken E (base64RawURL buf) pepper \<noteq> H"
    and sp: "spentHash H (db_reset_tokens d)"
  shows "spentHash H (db_reset_tokens d')"
proof (cases "d' = d")
  case False
  with run obtain ek url u pepper buf x where c: "config = Some (ek, url)" "DeriveTokenPepper hkdf ek = Some pepper"
    "e_rand E ''recovery'' 0 32 = Some buf"
    and tx: "inTx E ''recovery'' (recoveryTx E iv pepper u (base64RawURL buf)) d = (d', x)"
    by (auto simp: RecoveryRun_def RecoveryExecute_def split: option.splits sum.splits prod.splits if_splits)
  from tx show ?thesis
  proof (cases rule: inTx_cases)
    case (committed t y)
    from committed(2) obtain t1 rid where ins: "ResetInsert E pepper (u_ID u) (base64RawURL buf) recoveryTokenTTL None (pool d) = (t1, Inr rid)"
      and l: "configOnly (tx_db t1) (tx_db t)" by (auto simp: recoveryTx_def attempt_Inr dest!: Log_configOnly)
    have "spentHash H (db_reset_tokens (tx_db t1))" by (rule spentHash_insert [OF ins new [OF c]]) (use sp in simp)
    with l committed show ?thesis by (simp add: configOnly_def)
  qed (use sp in simp)
qed (use sp in simp)

lemma RunSweepOnce_spent:
  assumes "RunSweepOnce E d = (d', ok)" and "spentHash H (db_reset_tokens d)"
  shows "spentHash H (db_reset_tokens d')"
  using RunSweepOnce_rows(2,4) [OF assms(1)] assms(2) by (cases ok) (auto intro: spentHash_sub)

lemma UsersDelete_spent:
  assumes call: "UsersDelete E req cu idStr w = (w', r)" and sp: "spentHash H (db_reset_tokens (w_db w))"
  shows "spentHash H (db_reset_tokens (w_db w'))"
  using call
proof (cases rule: UsersDelete_cases)
  case (deleted uid current t)
  have "set (db_reset_tokens (tx_db t)) \<subseteq> set (db_reset_tokens (w_db w))"
    using deleteBody_resets [OF deleted(4)] by auto
  with sp deleted(5) show ?thesis by (auto intro: spentHash_sub)
qed (use sp in simp)

section \<open>Runs\<close>

text \<open>Everything that writes the table, in any environment and with any failures; a token drawn later is assumed to
  have another hash than \<open>H\<close>, as 32 random bytes do. The last step stands for all the rest of the server.\<close>

inductive reset_step :: "string \<Rightarrow> 'k env set \<Rightarrow> 'k world \<Rightarrow> 'k world \<Rightarrow> bool" for H Es where
  request: "E \<in> Es \<Longrightarrow> \<forall>buf. e_rand E ''reset.token'' 0 32 = Some buf \<longrightarrow> HMACToken E (base64RawURL buf) (rh_Pepper h) \<noteq> H \<Longrightarrow>
    PostRequest E h req body w = ((w', ms), r) \<Longrightarrow> reset_step H Es w w'"
| confirm: "E \<in> Es \<Longrightarrow> PostConfirm E h req cbody w = (w', ms, r) \<Longrightarrow> reset_step H Es w w'"
| recover: "E \<in> Es \<Longrightarrow> \<forall>ek url pepper buf. config = Some (ek, url) \<longrightarrow> DeriveTokenPepper hkdf ek = Some pepper \<longrightarrow>
      e_rand E ''recovery'' 0 32 = Some buf \<longrightarrow> HMACToken E (base64RawURL buf) pepper \<noteq> H \<Longrightarrow>
    RecoveryRun E hkdf iv flagEmail mode config (w_db w) = (d', line) \<Longrightarrow> reset_step H Es w (w\<lparr>w_db := d'\<rparr>)"
| sweep: "E \<in> Es \<Longrightarrow> RunSweepOnce E (w_db w) = (d', ok) \<Longrightarrow> reset_step H Es w (w\<lparr>w_db := d'\<rparr>)"
| delete: "E \<in> Es \<Longrightarrow> UsersDelete E ureq cu idStr w = (w', ur) \<Longrightarrow> reset_step H Es w w'"
| other: "db_reset_tokens (w_db w') = db_reset_tokens (w_db w) \<Longrightarrow> reset_step H Es w w'"

lemma reset_run_spent:
  assumes "(reset_step H Es)\<^sup>*\<^sup>* w w'" and "spentHash H (db_reset_tokens (w_db w))"
  shows "spentHash H (db_reset_tokens (w_db w'))"
  using assms(1)
proof (induction rule: rtranclp_induct)
  case base
  show ?case by (rule assms(2))
next
  case (step w1 w2)
  from step.hyps(2) show ?case
  proof cases
    case request
    with PostRequest_spent step.IH show ?thesis by blast
  next
    case confirm
    with PostConfirm_spentHash step.IH show ?thesis by blast
  next
    case recover
    with RecoveryRun_spent [OF recover(4)] step.IH show ?thesis by simp
  next
    case sweep
    with RunSweepOnce_spent step.IH show ?thesis by fastforce
  next
    case delete
    with UsersDelete_spent step.IH show ?thesis by blast
  next
    case other
    with step.IH show ?thesis by simp
  qed
qed

text \<open>C20. A reset link is a one-time credential. When \<open>PostConfirm\<close> succeeds, the token was stored, unused and not
  expired, the new password satisfies the policy and is now the one of the token's owner, whose lock is lifted, no
  other row was touched, and, when Valkey answers, the owner's sessions and tokens are cut off. From then on, after
  any further requests, confirmations, sweeps, recovery commands, deletions and everything that leaves the tokens
  alone, with any failures, confirming with the same token again fails, whoever does it, and changes neither users
  nor sessions. (Stored hashes are unique, as the index says, and no token drawn later has the same hash.)\<close>

theorem reset_confirm_once:
  assumes call: "PostConfirm E h req body w = (w', ms, WriteJSON 200 reply)" and laws: "argon2_laws E"
    and uniq: "distinct (map prt_TokenHash (db_reset_tokens (w_db w)))"
  shows "\<exists>b row policy hash. body = Some b \<and>
    findToken E (rh_Pepper h) (cfr_Token b) (w_db w) = Some row \<and> prt_UsedAt row = None \<and> e_go_now E \<le> prt_ExpiresAt row \<and>
    snd (readPasswordPolicy E (pool (w_db w))) = Inr policy \<and> validatePassword E (cfr_Password b) policy = None \<and>
    db_users (w_db w') = map (\<lambda>u. if u_ID u = prt_UserID row then resetUser E hash u else u) (db_users (w_db w)) \<and>
    VerifyPassword E (cfr_Password b) hash = Some True \<and>
    (\<forall>view. valkey_service (e_valkey E) view \<longrightarrow> session_inv (view (w_vk w)) \<longrightarrow> accessRevoked E view (prt_UserID row) (w_vk w')) \<and>
    (\<forall>Es (E' :: 'k env) req' b' w2 w3 ms' r. (reset_step (prt_TokenHash row) Es)\<^sup>*\<^sup>* w' w2 \<longrightarrow>
       e_hmac_sha256 E' = e_hmac_sha256 E \<longrightarrow> cfr_Token b' = cfr_Token b \<longrightarrow>
       PostConfirm E' h req' (Some b') w2 = (w3, ms', r) \<longrightarrow>
       failure r \<and> db_users (w_db w3) = db_users (w_db w2) \<and> w_vk w3 = w_vk w2)"
proof -
  from call obtain b t uid where b: "body = Some b"
    and body: "confirmBody E h req (cfr_Token b) (cfr_Password b) (pool (w_db w)) = Inr (t, uid)"
    and fin: "finishConfirm E uid (w\<lparr>w_db := tx_db t\<rparr>) = (w', ms, WriteJSON 200 reply)" by (rule PostConfirm_OK)
  from body obtain row policy hash where r: "findToken E (rh_Pepper h) (cfr_Token b) (w_db w) = Some row"
    "\<not> tokenSpent E (scanToken row)" "readPasswordPolicy E (pool (w_db w)) = (pool (w_db w), Inr policy)"
    "validatePassword E (cfr_Password b) policy = None" "HashPassword E ''reset.confirm'' 0 (cfr_Password b) = Some hash"
    "confirmWrites E req (scanToken row) hash (pool (w_db w)) = Inr (t, uid)"
    by (rule confirmBody_Inr) simp
  let ?f = "\<lambda>r. if prt_ID r = prt_ID row then r\<lparr>prt_UsedAt := Some (e_pg_now E)\<rparr> else r" and ?H = "prt_TokenHash row"
  note rows = confirmWrites_rows [OF r(6)]
  have db: "w_db w' = tx_db t" using fin by (auto simp: finishConfirm_def Let_def)
  have found: "row \<in> set (db_reset_tokens (w_db w))" "?H = HMACToken E (cfr_Token b) (rh_Pepper h)"
    using find_Some_D [OF r(1) [unfolded findToken_def]] by auto
  have toks: "db_reset_tokens (w_db w') = map ?f (db_reset_tokens (w_db w))" using rows(3) db by (simp add: scanToken_def)
  have "x = row" if "x \<in> set (db_reset_tokens (w_db w))" "prt_TokenHash x = ?H" for x
    using that found(1) uniq by (auto simp: distinct_map inj_on_def)
  then have sp: "spentHash ?H (db_reset_tokens (w_db w'))" by (auto simp: spentHash_def toks)
  have again: "failure r2 \<and> db_users (w_db w3) = db_users (w_db w2) \<and> w_vk w3 = w_vk w2"
    if a: "(reset_step ?H Es)\<^sup>*\<^sup>* w' w2" "e_hmac_sha256 E' = e_hmac_sha256 E" "cfr_Token b' = cfr_Token b"
      "PostConfirm E' h req' (Some b') w2 = (w3, ms', r2)" for Es and E' :: "'k env" and req' b' w2 w3 ms' r2
  proof (rule PostConfirm_spent [OF _ a(4)])
    have "HMACToken E' (cfr_Token b') (rh_Pepper h) = ?H" using a(2,3) found(2) by (simp add: HMACToken_def)
    with reset_run_spent [OF a(1) sp]
    show "\<forall>row. findToken E' (rh_Pepper h) (cfr_Token b') (w_db w2) = Some row \<longrightarrow> tokenSpent E' (scanToken row)"
      by (auto simp: findToken_def spentHash_def tokenSpent_def scanToken_def dest!: find_Some_D)
  qed
  have fresh: "prt_UsedAt row = None" "e_go_now E \<le> prt_ExpiresAt row" using r(2) by (auto simp: tokenSpent_def scanToken_def)
  have us: "uid = prt_UserID row" "db_users (w_db w') = map (\<lambda>u. if u_ID u = uid then resetUser E hash u else u) (db_users (w_db w))"
    using rows(1,2) db by (simp_all add: scanToken_def)
  have pol: "snd (readPasswordPolicy E (pool (w_db w))) = Inr policy" using r(3) by simp
  have cut: "accessRevoked E view uid (w_vk w')" if "valkey_service (e_valkey E) view" "session_inv (view (w_vk w))" for view
    using finishConfirm_revokes [OF that(1) _ fin] that(2) by simp
  show ?thesis
    using b r(1,4) fresh pol us cut again VerifyPassword_HashPassword_accepts [OF laws r(5)] by blast
qed

theorem reset_confirm_once_witness:
  "\<exists>w' ms hash. PostConfirm sampleEnv sampleReset (sampleAuthRequest []) (Some sampleConfirm) sampleResetWorld
       = (w', ms, WriteJSON 200 (ResetOf (showNat 7))) \<and>
     db_users (w_db w') = [resetUser sampleEnv hash sampleMember] \<and>
     failure (snd (snd (PostConfirm sampleEnv sampleReset (sampleAuthRequest []) (Some sampleConfirm) w')))"
proof -
  obtain w' ms where c: "PostConfirm sampleEnv sampleReset (sampleAuthRequest []) (Some sampleConfirm) sampleResetWorld
      = (w', ms, WriteJSON 200 (ResetOf (showNat 7)))" by (rule sample_confirmed)
  have uniq: "distinct (map prt_TokenHash (db_reset_tokens (w_db sampleResetWorld)))" by (simp add: sampleResetWorld_def)
  obtain w3 ms' r where again: "PostConfirm sampleEnv sampleReset (sampleAuthRequest []) (Some sampleConfirm) w' = (w3, ms', r)"
    by (cases rule: prod_cases3)
  from reset_confirm_once [OF c sampleEnv_laws(3) uniq] obtain row hash where
    f: "findToken sampleEnv (rh_Pepper sampleReset) (cfr_Token sampleConfirm) (w_db sampleResetWorld) = Some row"
    and u: "db_users (w_db w') = map (\<lambda>u. if u_ID u = prt_UserID row then resetUser sampleEnv hash u else u) (db_users (w_db sampleResetWorld))"
    and a: "failure r" using again rtranclp.rtrancl_refl [of "reset_step _ {}" w'] by blast
  have "row = sampleTokenRow"
    using f by (simp add: findToken_def sampleResetWorld_def sampleReset_def sampleConfirm_def sampleTokenRow_def)
  with u have "db_users (w_db w') = [resetUser sampleEnv hash sampleMember]"
    by (simp add: sampleResetWorld_def sample_users sample_member sampleTokenRow_def)
  with c a again show ?thesis by auto
qed

end
