(* ===== verification/Spec2Isabelle.thy ===== *)
theory Spec2Isabelle
  imports Ownership ResetLinks
begin

text \<open>
  A verification of Schlass, an OpenID Connect provider written in Go (\<^verbatim>\<open>src/internal\<close>).

  \<^bold>\<open>The program.\<close> A browser is sent to \<^verbatim>\<open>GET /authorize\<close>, logs in and gets an authorization code;
  the client exchanges the code at \<^verbatim>\<open>POST /token\<close> for signed access and identity tokens and a
  refresh token, rotates the refresh token there, and presents the access token at
  \<^verbatim>\<open>GET /userinfo\<close>. Administrators manage users, clients, signing keys and settings. State is
  kept in PostgreSQL (users, clients, codes, keys, audit log, configuration, recovery codes, reset
  tokens) and in Valkey (sessions, refresh tokens, revocation cutoffs, counters).

  \<^bold>\<open>State and effects.\<close> The world is the record \<open>world\<close>: the database, one list of rows per table
  (\<open>Tables\<close>), and the state of the Valkey server. Handlers are functions from an environment, a
  request and a world to a world and a reply. A SQL statement is a function on the row lists run by
  \<open>stmt\<close>, which aborts an open transaction on a fault or a violated constraint; \<open>beginTx\<close>,
  \<open>commitTx\<close> and \<open>inTx\<close> are transactions with the deferred rollback. Errors are values; every
  early return of the source is a branch. Times are nanoseconds as integers; 64-bit sums that can
  wrap are written out (\<open>int64\<close>, \<open>parseUint\<close>).

  \<^bold>\<open>What is not code of the repository\<close> is a field of the record \<open>env\<close> (\<open>Services\<close>): the
  Valkey server, failures of PostgreSQL calls, clocks, entropy, identifiers, \<^verbatim>\<open>google/uuid\<close>, hash,
  cipher, password, signature and TOTP primitives, the URL parser. What the theorems need of them is
  a named hypothesis: \<open>valkey_service\<close> (the documented effect of each command on a key space),
  \<open>gcm_laws\<close>, \<open>rand_laws\<close>, \<open>argon2_laws\<close>, \<open>uuid_laws\<close>, \<open>jwt_pair\<close>. \<open>sampleEnv\<close> is a
  concrete environment that satisfies them and on which the witnesses run.

  \<^bold>\<open>Theories.\<close>
  \<^item> \<open>GoStd\<close>: strings, decimal numbers, hex, base64 and times of Go's standard library; list lemmas.
  \<^item> \<open>Services\<close>: Valkey commands and their semantics, the environment, the locale
    \<open>valkey_service\<close> and its interpretation on the key space.
  \<^item> \<open>Crypto\<close> (\<^verbatim>\<open>internal/crypto\<close>): envelope encryption, password hashes, temporary passwords,
    recovery codes, TOTP, breach check; round trips, rejection of wrong contexts, no TOTP replay.
  \<^item> \<open>Tables\<close> (\<^verbatim>\<open>internal/audit\<close>, migrations): rows, statements, transactions, the audit log.
  \<^item> \<open>TokenIndex\<close>: the locale \<open>owner_index\<close>, what sessions and refresh tokens share (a document
    per token, a set of tokens per owner), interpreted in \<open>Sessions\<close> and \<open>RefreshStore\<close>.
  \<^item> \<open>RefreshStore\<close> (\<^verbatim>\<open>oidc/refresh_store.go\<close>): the locale \<open>refresh_store\<close> is the abstract store
    of token families; \<open>valkey_refresh_store\<close> shows that the Valkey code implements it.
  \<^item> \<open>Sessions\<close> (\<^verbatim>\<open>internal/session\<close>): the locale \<open>session_store\<close>, its Valkey implementation,
    cookies and the revocation cutoffs.
  \<^item> \<open>UserStore\<close>, \<open>ClientStore\<close>, \<open>AuthStores\<close>, \<open>InstanceConfig\<close>, \<open>SigningKeys\<close>: the stores
    and, for keys, their life cycle and handlers; table invariants, lockout, secret rotation,
    single use (locale \<open>single_use\<close>), key states and the race of two rotations.
  \<^item> \<open>Oidc\<close> (\<^verbatim>\<open>internal/oidc\<close>): PKCE, claims, token signing, the return address guard, discovery.
  \<^item> \<open>Authorize\<close> (\<^verbatim>\<open>authserver/authorize.go\<close>, \<^verbatim>\<open>authcode_store.go\<close>): the endpoint split at its
    steps; where it redirects, what a code records, and \<open>prompt=login\<close>.
  \<^item> \<open>Token\<close>, \<open>TokenProps\<close>, \<open>TokenRefresh\<close> (\<^verbatim>\<open>authserver/token.go\<close>): the definitions, then
    what a successful exchange proves, single use of codes over all runs of both endpoints, rotation,
    and revocation of a family on replay and reuse.
  \<^item> \<open>Bearer\<close> (\<^verbatim>\<open>bearer_middleware.go\<close>, \<^verbatim>\<open>userinfo.go\<close>): what an accepted token is, revocation,
    and that the token of an exchange is accepted.
  \<^item> \<open>Handlers\<close>: early returns and transactions of the administration handlers; the locale
    \<open>audited_body\<close> is the contract of a transaction body (failures change nothing, success leaves
    audit rows, an invariant is kept), interpreted for every body of \<open>UsersAdmin\<close>.
  \<^item> \<open>UsersAdmin\<close>, \<open>UsersProps\<close>, \<open>UsersAccess\<close> (\<^verbatim>\<open>users/handler.go\<close>, \<^verbatim>\<open>permission.go\<close>): the
    handlers; the last administrator stays, every change is audited; what disabling, resetting and
    deleting do; the race of two updates.
  \<^item> \<open>ClientsAdmin\<close>, \<open>ClientsProps\<close> (\<^verbatim>\<open>clients/handler.go\<close>, \<^verbatim>\<open>validate.go\<close>,
    \<^verbatim>\<open>redirect_uri.go\<close>): the handlers and input checks; every client stays well-formed and so the
    authorization endpoint only redirects to HTTPS or loopback addresses; secrets; deletion.

  \<^item> \<open>Validate\<close> (\<^verbatim>\<open>auth/requests.go\<close>, \<^verbatim>\<open>validate.go\<close>): the checks of request bodies.
  \<^item> \<open>Login\<close>, \<open>LoginProps\<close> (\<^verbatim>\<open>auth/handler.go\<close>, \<^verbatim>\<open>auth/middleware.go\<close>): password login, logout,
    \<^verbatim>\<open>/me\<close> and the session middleware; what a session cookie proves, that a correct password gets one,
    that over any run of logins the configured number of counted failures locks the account and which
    failures are not counted, and that the middleware refines the session store.
  \<^item> \<open>Mfa\<close>, \<open>MfaProps\<close> (\<^verbatim>\<open>auth/mfa.go\<close>): enrolment, challenge, recovery codes and step-up; a challenge
    is passed only by a fresh TOTP code or an unused recovery code, within a bounded number of attempts.
  \<^item> \<open>PasswordReset\<close>, \<open>SelfService\<close>, \<open>ResetLinks\<close> (\<^verbatim>\<open>auth/password_reset.go\<close>, \<^verbatim>\<open>auth/handler.go\<close>):
    the reset flow and the changes a user makes to the own account; a link ends all sessions, and over
    any run of the handlers and commands that write reset tokens it is used once.
  \<^item> \<open>SettingsAdmin\<close>, \<open>SettingsProps\<close> (\<^verbatim>\<open>internal/settings\<close>): reading and patching the instance
    settings; the configuration rows stay well-typed and in range, a patch changes what it names and
    nothing else, and the SMTP password survives the round trip through encryption.
  \<^item> \<open>Mail\<close> (\<^verbatim>\<open>internal/mail\<close>): the message text and the test message; the SMTP session is a list of
    commands run on an envelope, so that what is delivered, and to whom, is what the commands carry.
  \<^item> \<open>Setup\<close>, \<open>SetupProps\<close> (\<^verbatim>\<open>server/setup.go\<close>, \<^verbatim>\<open>sweeper.go\<close>, \<^verbatim>\<open>cmd/schlass\<close>): the first-run
    wizard, the development client, the sweeper and the recovery command; set-up happens once unless
    two requests race, mail headers cannot be injected through the settings, the sweeper only
    takes what has expired, and the recovery command prints a link that works.
  \<^item> \<open>RateLimit\<close> (\<^verbatim>\<open>middleware/ratelimit.go\<close>): the limiter over a sorted set of Valkey; over runs of its calls,
    of other clients of the server and of time, which expires the set at its deadline, no window admits
    more than the limit; and what a forged address header does to it.
  \<^item> \<open>EnvConfig\<close> (\<^verbatim>\<open>config/env.go\<close>): the environment variables; a configuration that loads has a key of
    32 bytes, limits in range and a web address.
  \<^item> \<open>Patterns\<close>, \<open>Router\<close> (\<^verbatim>\<open>server/router.go\<close>, \<^verbatim>\<open>health.go\<close>, \<^verbatim>\<open>middleware/logging.go\<close>,
    \<^verbatim>\<open>security_headers.go\<close>, \<^verbatim>\<open>web/embed.go\<close>, \<^verbatim>\<open>cmd/schlass/main.go\<close>): the routing table with every
    handler behind its middlewares, \<open>serveHTTP\<close> for a whole request and \<open>startServer\<close> for the start.
  \<^item> \<open>Frames\<close>: the locale \<open>observation\<close>, a view of the database that the handlers without a permission
    keep, with a lemma for each of them.
  \<^item> \<open>Authority\<close>: over all routes, roles, clients, keys and settings change only in a request of an
    administrator with a live session, or of the wizard before set-up.
  \<^item> \<open>Ownership\<close>: locales that extend \<open>observation\<close> say which package writes which table; with the
    table invariants of the stores they give \<open>server_inv\<close>, which holds from the first start through
    every run of requests, sweeps, recovery commands and restarts. No two patterns of the routing table
    match the same request.

  \<^bold>\<open>Loops and fuel.\<close> Loops are structural recursion, except the retry loop of
  \<open>GenerateRecoveryCodes\<close>, which may draw duplicates for ever and takes fuel; its theorem says
  when ten draws are enough. \<open>showNat\<close> recurses on division. The sweeper runs until its context
  is cancelled: \<open>sweeperLoop\<close> recurses on the list of events it receives.

  \<^bold>\<open>Concurrency.\<close> A handler runs on its own between other handlers; the race theorems
  interleave the statements of transactions as \<open>READ COMMITTED\<close> allows.

  \<^bold>\<open>Not modelled\<close>: the listening socket, timeouts, signals and shutdown of \<^verbatim>\<open>main\<close>; opening the
  connections to PostgreSQL and Valkey and running the migrations, whose outcomes are arguments of
  \<open>startServer\<close>; status and duration of the log lines; the JSON encoding of requests and replies, which
  are records here; the contents of the embedded assets. This is input and output around libraries.
\<close>

end
